(* ===== verification/Prelude.thy ===== *)
theory Prelude
  imports
    Main
    "HOL-Library.Sublist"
    "HOL-Library.List_Lexorder"
    "HOL-Library.Char_ord"
    "HOL-Library.AList"
    "HOL-Library.Word"
begin

text \<open>
  Shared vocabulary of the development: results of fallible code, early-return guards and
  loops, machine integers, and the generic list lemmas the components rely on.

  \<^item> Rust's \<open>Result<T, E>\<close> is the sum type \<open>'e + 'a\<close> with \<open>Err = Inl\<close> and
    \<open>Ok = Inr\<close>; the operator \<open>?\<close> is \<open>and_then\<close>.
  \<^item> A statement \<open>if !p { return Err(e) }\<close> is \<open>ensure\<close>, a loop that checks every element
    and returns at the first bad one is \<open>ensure_all\<close>, the same under \<open>if let Some\<close> is
    \<open>ensure_opt\<close>.
  \<^item> Rust's \<open>u32\<close> is \<open>32 word\<close>; \<open>i64\<close> is \<open>int\<close> with the wrap-around of an
    addition written out by \<open>wrap_i64\<close>.
\<close>

section \<open>Automation collections\<close>

named_theorems result_simps \<open>how guards, loops and the question-mark operator decide\<close>
named_theorems str_simps \<open>facts on byte strings\<close>

section \<open>Results\<close>

type_synonym ('e, 'a) result = "'e + 'a"

abbreviation Ok :: "'a \<Rightarrow> ('e, 'a) result" where
  "Ok \<equiv> Inr"

abbreviation Err :: "'e \<Rightarrow> ('e, 'a) result" where
  "Err \<equiv> Inl"

definition and_then :: "('e, 'a) result \<Rightarrow> ('a \<Rightarrow> ('e, 'b) result) \<Rightarrow> ('e, 'b) result" where
  "and_then r f = (case r of Inl e \<Rightarrow> Inl e | Inr x \<Rightarrow> f x)"

definition map_err :: "('e \<Rightarrow> 'f) \<Rightarrow> ('e, 'a) result \<Rightarrow> ('f, 'a) result" where
  "map_err f r = (case r of Inl e \<Rightarrow> Inl (f e) | Inr x \<Rightarrow> Inr x)"

definition ok_or :: "'e \<Rightarrow> 'a option \<Rightarrow> ('e, 'a) result" where
  "ok_or e x = (case x of None \<Rightarrow> Inl e | Some v \<Rightarrow> Inr v)"

definition is_ok :: "('e, 'a) result \<Rightarrow> bool" where
  "is_ok r = (case r of Inl _ \<Rightarrow> False | Inr _ \<Rightarrow> True)"

definition result_ok :: "('e, 'a) result \<Rightarrow> 'a option" where
  "result_ok r = (case r of Inl _ \<Rightarrow> None | Inr x \<Rightarrow> Some x)"

definition ensure :: "bool \<Rightarrow> 'e \<Rightarrow> ('e, unit) result" where
  "ensure b e = (if b then Inr () else Inl e)"

primrec ensure_all :: "('a \<Rightarrow> bool) \<Rightarrow> ('a \<Rightarrow> 'e) \<Rightarrow> 'a list \<Rightarrow> ('e, unit) result" where
  "ensure_all p f [] = Inr ()"
| "ensure_all p f (x # xs) = (if p x then ensure_all p f xs else Inl (f x))"

definition ensure_opt :: "('a \<Rightarrow> bool) \<Rightarrow> ('a \<Rightarrow> 'e) \<Rightarrow> 'a option \<Rightarrow> ('e, unit) result" where
  "ensure_opt p f x = (case x of None \<Rightarrow> Inr () | Some v \<Rightarrow> (if p v then Inr () else Inl (f v)))"

text \<open>A loop whose body may return an error: the accumulator is threaded until the first error.\<close>

primrec try_fold :: "('s \<Rightarrow> 'a \<Rightarrow> ('e, 's) result) \<Rightarrow> 's \<Rightarrow> 'a list \<Rightarrow> ('e, 's) result" where
  "try_fold f s [] = Inr s"
| "try_fold f s (x # xs) = (case f s x of Inl e \<Rightarrow> Inl e | Inr s' \<Rightarrow> try_fold f s' xs)"

text \<open>Collecting an iterator of results into a result of a vector.\<close>

primrec collect_results :: "('a \<Rightarrow> ('e, 'b) result) \<Rightarrow> 'a list \<Rightarrow> ('e, 'b list) result" where
  "collect_results f [] = Inr []"
| "collect_results f (x # xs) =
     (case f x of
        Inl e \<Rightarrow> Inl e
      | Inr y \<Rightarrow> (case collect_results f xs of Inl e \<Rightarrow> Inl e | Inr ys \<Rightarrow> Inr (y # ys)))"

primrec find_map :: "('a \<Rightarrow> 'b option) \<Rightarrow> 'a list \<Rightarrow> 'b option" where
  "find_map f [] = None"
| "find_map f (x # xs) = (case f x of None \<Rightarrow> find_map f xs | Some y \<Rightarrow> Some y)"

primrec filter_map :: "('a \<Rightarrow> 'b option) \<Rightarrow> 'a list \<Rightarrow> 'b list" where
  "filter_map f [] = []"
| "filter_map f (x # xs) = (case f x of None \<Rightarrow> filter_map f xs | Some y \<Rightarrow> y # filter_map f xs)"

section \<open>Machine integers\<close>

type_synonym u8 = "8 word"
type_synonym u16 = "16 word"
type_synonym u32 = "32 word"

definition i64_min :: int where "i64_min = - (2 ^ 63)"
definition i64_max :: int where "i64_max = 2 ^ 63 - 1"
definition u64_max :: nat where "u64_max = 2 ^ 64 - 1"

definition in_i64 :: "int \<Rightarrow> bool" where
  "in_i64 x \<longleftrightarrow> i64_min \<le> x \<and> x \<le> i64_max"

text \<open>Two's complement reduction: what an \<open>i64\<close> addition, subtraction or \<open>as i64\<close> cast leaves.\<close>

definition wrap_i64 :: "int \<Rightarrow> int" where
  "wrap_i64 x = (x + 2 ^ 63) mod 2 ^ 64 - 2 ^ 63"

definition saturate_i64 :: "int \<Rightarrow> int" where
  "saturate_i64 x = max i64_min (min i64_max x)"

lemma wrap_i64_id: "in_i64 x \<Longrightarrow> wrap_i64 x = x"
  by (simp add: in_i64_def wrap_i64_def i64_min_def i64_max_def)

lemma wrap_i64_range: "in_i64 (wrap_i64 x)"
proof -
  have "0 \<le> (x + 2 ^ 63) mod 2 ^ 64" and "(x + 2 ^ 63) mod 2 ^ 64 < (2 ^ 64 :: int)"
    by simp_all
  then show ?thesis
    by (simp add: in_i64_def wrap_i64_def i64_min_def i64_max_def)
qed

lemma saturate_i64_range: "in_i64 (saturate_i64 x)"
  by (simp add: in_i64_def saturate_i64_def i64_min_def i64_max_def)

lemma saturate_i64_id: "in_i64 x \<Longrightarrow> saturate_i64 x = x"
  by (simp add: in_i64_def saturate_i64_def)

section \<open>Deciding results\<close>

lemma and_then_Ok [simp, result_simps]: "and_then (Inr x) f = f x"
  by (simp add: and_then_def)

lemma and_then_Err [simp, result_simps]: "and_then (Inl e) f = Inl e"
  by (simp add: and_then_def)

lemma and_then_eq_Ok [result_simps]: "and_then r f = Inr y \<longleftrightarrow> (\<exists>x. r = Inr x \<and> f x = Inr y)"
  by (cases r) simp_all

lemma and_then_eq_Err [result_simps]:
  "and_then r f = Inl e \<longleftrightarrow> r = Inl e \<or> (\<exists>x. r = Inr x \<and> f x = Inl e)"
  by (cases r) simp_all

lemma map_err_Ok [simp]: "map_err f (Inr x) = Inr x"
  by (simp add: map_err_def)

lemma map_err_Err [simp]: "map_err f (Inl e) = Inl (f e)"
  by (simp add: map_err_def)

lemma map_err_eq_Ok [result_simps]: "map_err f r = Inr y \<longleftrightarrow> r = Inr y"
  by (cases r) simp_all

lemma ok_or_simps [simp]: "ok_or e None = Inl e" "ok_or e (Some x) = Inr x"
  by (simp_all add: ok_or_def)

lemma ok_or_eq_Ok [result_simps]: "ok_or e x = Inr y \<longleftrightarrow> x = Some y"
  by (cases x) simp_all

lemma is_ok_simps [simp]: "is_ok (Inr x)" "\<not> is_ok (Inl e)"
  by (simp_all add: is_ok_def)

lemma is_ok_iff: "is_ok r \<longleftrightarrow> (\<exists>x. r = Inr x)"
  by (cases r) simp_all

lemma result_ok_simps [simp]: "result_ok (Inr x) = Some x" "result_ok (Inl e) = None"
  by (simp_all add: result_ok_def)

lemma result_ok_eq_Some: "result_ok r = Some x \<longleftrightarrow> r = Inr x"
  by (cases r) simp_all

lemma ensure_eq_Ok [result_simps]: "ensure b e = Inr u \<longleftrightarrow> b"
  by (simp add: ensure_def)

lemma ensure_True [simp]: "ensure True e = Inr ()"
  by (simp add: ensure_def)

lemma ensure_False [simp]: "ensure False e = Inl e"
  by (simp add: ensure_def)

lemma ensure_all_eq_Ok [result_simps]: "ensure_all p f xs = Inr u \<longleftrightarrow> list_all p xs"
  by (induction xs) simp_all

lemma ensure_opt_simps [simp]:
  "ensure_opt p f None = Inr ()"
  "ensure_opt p f (Some v) = (if p v then Inr () else Inl (f v))"
  by (simp_all add: ensure_opt_def)

lemma ensure_opt_eq_Ok [result_simps]: "ensure_opt p f x = Inr u \<longleftrightarrow> pred_option p x"
  by (cases x) simp_all

lemma try_fold_append:
  "try_fold f s (xs @ ys) = and_then (try_fold f s xs) (\<lambda>s'. try_fold f s' ys)"
  by (induction xs arbitrary: s) (simp_all add: and_then_def split: sum.split)

lemma try_fold_invariant:
  assumes "try_fold f s xs = Inr s'" and "P s"
    and "\<And>s x s''. P s \<Longrightarrow> x \<in> set xs \<Longrightarrow> f s x = Inr s'' \<Longrightarrow> P s''"
  shows "P s'"
  using assms
proof (induction xs arbitrary: s)
  case Nil
  then show ?case by simp
next
  case (Cons x xs)
  from Cons.prems(1) obtain t where t: "f s x = Inr t" and rest: "try_fold f t xs = Inr s'"
    by (auto split: sum.splits)
  show ?case
  proof (rule Cons.IH [OF rest])
    show "P t" by (rule Cons.prems(3) [OF Cons.prems(2) _ t]) simp
  next
    fix a y b
    assume "P a" "y \<in> set xs" "f a y = Inr b"
    then show "P b" using Cons.prems(3) by (meson list.set_intros(2))
  qed
qed

lemma foldl_invariant:
  assumes "P s" and "\<And>s x. P s \<Longrightarrow> x \<in> set xs \<Longrightarrow> P (f s x)"
  shows "P (foldl f s xs)"
  using assms by (induction xs arbitrary: s) simp_all

lemma collect_results_Ok:
  "collect_results f xs = Inr ys \<Longrightarrow> list_all2 (\<lambda>x y. f x = Inr y) xs ys"
  by (induction xs arbitrary: ys) (auto split: sum.splits)

lemma find_map_Some:
  "find_map f xs = Some y \<Longrightarrow> \<exists>x \<in> set xs. f x = Some y"
  by (induction xs) (auto split: option.splits)

lemma find_map_None: "find_map f xs = None \<longleftrightarrow> (\<forall>x \<in> set xs. f x = None)"
  by (induction xs) (auto split: option.splits)

lemma set_filter_map: "set (filter_map f xs) = {y. \<exists>x \<in> set xs. f x = Some y}"
  by (induction xs) (auto split: option.splits)

section \<open>Lists\<close>

lemma dropWhile_rev_last:
  "dropWhile P (rev xs) \<noteq> [] \<Longrightarrow> \<not> P (last (rev (dropWhile P (rev xs))))"
  by (simp add: hd_dropWhile last_rev)

lemma list_all_conv_set: "list_all P xs \<longleftrightarrow> (\<forall>x \<in> set xs. P x)"
  by (simp add: list_all_iff)

end
