(* ===== verification/Rust_Str.thy ===== *)
theory Rust_Str
  imports Prelude
begin

text \<open>
  The operations of Rust's \<open>str\<close> the program uses. A Rust string is the list of the bytes
  of its UTF-8 encoding (an Isabelle \<open>char\<close> is one byte), so \<open>length\<close> is Rust's
  \<open>len()\<close>, slices count bytes, and a character is a string of one to four bytes.
  White space is Unicode's White\_Space property, as \<open>str::trim\<close> and
  \<open>char::is_whitespace\<close> have it.
\<close>

section \<open>Bytes and characters\<close>

abbreviation byte :: "char \<Rightarrow> nat" where
  "byte c \<equiv> of_char c"

definition is_ascii_digit :: "char \<Rightarrow> bool" where
  "is_ascii_digit c \<longleftrightarrow> 48 \<le> byte c \<and> byte c \<le> 57"

definition is_ascii_hexdigit :: "char \<Rightarrow> bool" where
  "is_ascii_hexdigit c \<longleftrightarrow>
     is_ascii_digit c \<or> (97 \<le> byte c \<and> byte c \<le> 102) \<or> (65 \<le> byte c \<and> byte c \<le> 70)"

definition is_ascii_alphanumeric :: "char \<Rightarrow> bool" where
  "is_ascii_alphanumeric c \<longleftrightarrow>
     is_ascii_digit c \<or> (97 \<le> byte c \<and> byte c \<le> 122) \<or> (65 \<le> byte c \<and> byte c \<le> 90)"

definition to_ascii_lowercase :: "string \<Rightarrow> string" where
  "to_ascii_lowercase s =
     map (\<lambda>c. if 65 \<le> byte c \<and> byte c \<le> 90 then char_of (byte c + 32) else c) s"

text \<open>The length of the encoded character that starts with a given lead byte.\<close>

definition utf8_len :: "char \<Rightarrow> nat" where
  "utf8_len c =
     (if byte c < 128 then 1 else if byte c < 224 then 2 else if byte c < 240 then 3 else 4)"

lemma utf8_len_pos [simp]: "0 < utf8_len c"
  by (simp add: utf8_len_def)

function chars :: "string \<Rightarrow> string list" where
  "chars [] = []"
| "chars (c # s) = take (utf8_len c) (c # s) # chars (drop (utf8_len c) (c # s))"
  by pat_completeness auto
termination
  by (relation "measure length") (auto simp: utf8_len_def)

definition is_char_boundary :: "string \<Rightarrow> nat \<Rightarrow> bool" where
  "is_char_boundary s i \<longleftrightarrow>
     i = 0 \<or> i = length s \<or> (i < length s \<and> \<not> (128 \<le> byte (s ! i) \<and> byte (s ! i) < 192))"

definition is_ascii :: "string \<Rightarrow> bool" where
  "is_ascii s \<longleftrightarrow> list_all (\<lambda>c. byte c < 128) s"

text \<open>
  The encodings of the white-space characters: U+0009 to U+000D, U+0020, U+0085, U+00A0, U+1680,
  U+2000 to U+200A, U+2028, U+2029, U+202F, U+205F and U+3000.
\<close>

definition ws_encodings :: "string list" where
  "ws_encodings =
     map (\<lambda>n. [char_of n]) [9, 10, 11, 12, 13, 32 :: nat] @
     map (\<lambda>n. [char_of (194 :: nat), char_of n]) [133, 160 :: nat] @
     [[char_of (225 :: nat), char_of (154 :: nat), char_of (128 :: nat)]] @
     map (\<lambda>n. [char_of (226 :: nat), char_of (128 :: nat), char_of n])
       [128, 129, 130, 131, 132, 133, 134, 135, 136, 137, 138, 168, 169, 175 :: nat] @
     [[char_of (226 :: nat), char_of (129 :: nat), char_of (159 :: nat)],
      [char_of (227 :: nat), char_of (128 :: nat), char_of (128 :: nat)]]"

definition is_whitespace :: "string \<Rightarrow> bool" where
  "is_whitespace ch \<longleftrightarrow> ch \<in> set ws_encodings"

lemma ws_encodings_nonempty: "w \<in> set ws_encodings \<Longrightarrow> w \<noteq> []"
  by (auto simp: ws_encodings_def)

lemma ws_find_nonempty: "find P ws_encodings = Some w \<Longrightarrow> w \<noteq> [] \<and> P w"
  using nth_mem ws_encodings_nonempty by (fastforce simp: find_Some_iff)

section \<open>Prefixes, suffixes, searching\<close>

definition starts_with :: "string \<Rightarrow> string \<Rightarrow> bool" where
  "starts_with s p \<longleftrightarrow> prefix p s"

definition ends_with :: "string \<Rightarrow> string \<Rightarrow> bool" where
  "ends_with s p \<longleftrightarrow> suffix p s"

definition strip_prefix :: "string \<Rightarrow> string \<Rightarrow> string option" where
  "strip_prefix s p = (if prefix p s then Some (drop (length p) s) else None)"

definition strip_suffix :: "string \<Rightarrow> string \<Rightarrow> string option" where
  "strip_suffix s p = (if suffix p s then Some (take (length s - length p) s) else None)"

fun str_find :: "string \<Rightarrow> string \<Rightarrow> nat option" where
  "str_find [] p = (if p = [] then Some 0 else None)"
| "str_find (c # s) p = (if prefix p (c # s) then Some 0 else map_option Suc (str_find s p))"

definition str_contains :: "string \<Rightarrow> string \<Rightarrow> bool" where
  "str_contains s p \<longleftrightarrow> str_find s p \<noteq> None"

fun split_once :: "string \<Rightarrow> char \<Rightarrow> (string \<times> string) option" where
  "split_once [] d = None"
| "split_once (c # s) d =
     (if c = d then Some ([], s) else map_option (\<lambda>(a, b). (c # a, b)) (split_once s d))"

fun str_split :: "string \<Rightarrow> char \<Rightarrow> string list" where
  "str_split [] d = [[]]"
| "str_split (c # s) d =
     (if c = d then [] # str_split s d
      else (case str_split s d of [] \<Rightarrow> [[c]] | p # ps \<Rightarrow> (c # p) # ps))"

text \<open>\<open>splitn n\<close>: at most \<open>n\<close> parts, the last one being the unsplit rest.\<close>

fun str_splitn :: "nat \<Rightarrow> string \<Rightarrow> char \<Rightarrow> string list" where
  "str_splitn 0 s d = []"
| "str_splitn (Suc 0) s d = [s]"
| "str_splitn (Suc (Suc n)) s d =
     (case split_once s d of None \<Rightarrow> [s] | Some (a, b) \<Rightarrow> a # str_splitn (Suc n) b d)"

definition part :: "string list \<Rightarrow> nat \<Rightarrow> string option" where
  "part ps i = (if i < length ps then Some (ps ! i) else None)"

primrec str_join :: "string \<Rightarrow> string list \<Rightarrow> string" where
  "str_join sep [] = []"
| "str_join sep (x # xs) = (if xs = [] then x else x @ sep @ str_join sep xs)"

section \<open>Trimming and replacing\<close>

function trim_start :: "string \<Rightarrow> string" where
  "trim_start s =
     (case find (\<lambda>w. prefix w s) ws_encodings of
        None \<Rightarrow> s
      | Some w \<Rightarrow> trim_start (drop (length w) s))"
  by pat_completeness auto
termination
  by (relation "measure length") (auto dest!: ws_find_nonempty simp: prefix_def)

function trim_end :: "string \<Rightarrow> string" where
  "trim_end s =
     (case find (\<lambda>w. suffix w s) ws_encodings of
        None \<Rightarrow> s
      | Some w \<Rightarrow> trim_end (take (length s - length w) s))"
  by pat_completeness auto
termination
  by (relation "measure length") (auto dest!: ws_find_nonempty simp: suffix_def)

declare trim_start.simps [simp del] trim_end.simps [simp del]

definition trim :: "string \<Rightarrow> string" where
  "trim s = trim_end (trim_start s)"

abbreviation blank :: "string \<Rightarrow> bool" where
  "blank s \<equiv> trim s = []"

definition trim_end_char :: "char \<Rightarrow> string \<Rightarrow> string" where
  "trim_end_char c s = rev (dropWhile (\<lambda>x. x = c) (rev s))"

definition trim_start_char :: "char \<Rightarrow> string \<Rightarrow> string" where
  "trim_start_char c s = dropWhile (\<lambda>x. x = c) s"

text \<open>\<open>trim_start_matches\<close> with a string removes the prefix as often as it occurs.\<close>

function trim_start_str :: "string \<Rightarrow> string \<Rightarrow> string" where
  "trim_start_str p s =
     (if p \<noteq> [] \<and> prefix p s then trim_start_str p (drop (length p) s) else s)"
  by pat_completeness auto
termination
  by (relation "measure (\<lambda>(p, s). length s)") (auto simp: prefix_def)

declare trim_start_str.simps [simp del]

function str_replace :: "string \<Rightarrow> string \<Rightarrow> string \<Rightarrow> string" where
  "str_replace p r s =
     (case s of
        [] \<Rightarrow> []
      | c # cs \<Rightarrow>
          (if p \<noteq> [] \<and> prefix p s then r @ str_replace p r (drop (length p) s)
           else c # str_replace p r cs))"
  by pat_completeness auto
termination
  by (relation "measure (\<lambda>(p, r, s). length s)") (auto simp: prefix_def)

declare str_replace.simps [simp del]

section \<open>Lines and words\<close>

text \<open>
  \<open>str::lines\<close>: the text between line feeds, without a carriage return that stands right
  before a line feed, and without a last empty line.
\<close>

fun lines_split :: "string \<Rightarrow> string list" where
  "lines_split [] = []"
| "lines_split (c # s) =
     (if c = CHR 0x0A then [] # lines_split s
      else (case lines_split s of
              [] \<Rightarrow> [[c]]
            | l # ls \<Rightarrow> (if c = CHR 0x0D \<and> prefix [CHR 0x0A] s then [] # ls else (c # l) # ls)))"

definition flush_word :: "string list \<Rightarrow> string \<Rightarrow> string list" where
  "flush_word ws w = (if w = [] then ws else ws @ [w])"

definition split_whitespace :: "string \<Rightarrow> string list" where
  "split_whitespace s =
     (case foldl (\<lambda>(ws, w) ch. if is_whitespace ch then (flush_word ws w, []) else (ws, w @ ch))
        ([], []) (chars s) of (ws, w) \<Rightarrow> flush_word ws w)"

section \<open>Decimal numbers\<close>

definition digit_char :: "nat \<Rightarrow> char" where
  "digit_char d = char_of (48 + d)"

fun show_nat :: "nat \<Rightarrow> string" where
  "show_nat n = (if n < 10 then [digit_char n] else show_nat (n div 10) @ [digit_char (n mod 10)])"

declare show_nat.simps [simp del]

definition show_int :: "int \<Rightarrow> string" where
  "show_int i = (if i < 0 then ''-'' @ show_nat (nat (- i)) else show_nat (nat i))"

definition digits_value :: "string \<Rightarrow> nat" where
  "digits_value s = foldl (\<lambda>n c. 10 * n + (byte c - 48)) 0 s"

definition parse_digits :: "string \<Rightarrow> nat option" where
  "parse_digits s = (if s \<noteq> [] \<and> list_all is_ascii_digit s then Some (digits_value s) else None)"

text \<open>\<open>str::parse\<close> for integers: an optional sign (a minus only for a signed type), at least one
  digit, nothing else, and the value within the type's range.\<close>

definition parse_unsigned :: "nat \<Rightarrow> string \<Rightarrow> nat option" where
  "parse_unsigned w s =
     (case parse_digits (case strip_prefix s ''+'' of None \<Rightarrow> s | Some r \<Rightarrow> r) of
        None \<Rightarrow> None
      | Some n \<Rightarrow> (if n < 2 ^ w then Some n else None))"

definition parse_signed :: "nat \<Rightarrow> string \<Rightarrow> int option" where
  "parse_signed w s =
     (case strip_prefix s ''-'' of
        Some r \<Rightarrow>
          (case parse_digits r of
             None \<Rightarrow> None
           | Some n \<Rightarrow> (if n \<le> 2 ^ (w - 1) then Some (- int n) else None))
      | None \<Rightarrow>
          (case parse_digits (case strip_prefix s ''+'' of None \<Rightarrow> s | Some r \<Rightarrow> r) of
             None \<Rightarrow> None
           | Some n \<Rightarrow> (if n < 2 ^ (w - 1) then Some (int n) else None)))"

section \<open>Hexadecimal\<close>

definition hex_digit :: "nat \<Rightarrow> char" where
  "hex_digit n = (if n < 10 then char_of (48 + n) else char_of (87 + n))"

definition hex_byte :: "u8 \<Rightarrow> string" where
  "hex_byte b = [hex_digit (unat b div 16), hex_digit (unat b mod 16)]"

section \<open>Facts on strings\<close>

lemma concat_chars [simp]: "concat (chars s) = s"
  by (induction s rule: chars.induct) simp_all

lemma chars_nonempty: "ch \<in> set (chars s) \<Longrightarrow> ch \<noteq> []"
  by (induction s rule: chars.induct) (auto simp: utf8_len_def split: if_splits)

lemma chars_ascii: "is_ascii s \<Longrightarrow> chars s = map (\<lambda>c. [c]) s"
  by (induction s rule: chars.induct) (simp_all add: is_ascii_def utf8_len_def)

lemma chars_append_ascii: "is_ascii s \<Longrightarrow> chars (s @ t) = map (\<lambda>c. [c]) s @ chars t"
  by (induction s) (simp_all add: is_ascii_def utf8_len_def)

subsection \<open>Splitting\<close>

lemma split_once_None: "split_once s d = None \<longleftrightarrow> d \<notin> set s"
  by (induction s) auto

lemma split_once_append: "d \<notin> set a \<Longrightarrow> split_once (a @ d # b) d = Some (a, b)"
  by (induction a) auto

lemma split_once_Some: "split_once s d = Some (a, b) \<Longrightarrow> s = a @ d # b \<and> d \<notin> set a"
  by (induction s arbitrary: a) (auto split: if_splits)

lemma str_split_nonempty [simp]: "str_split s d \<noteq> []"
  by (induction s) (auto split: list.split)

lemma str_split_no_sep: "d \<notin> set s \<Longrightarrow> str_split s d = [s]"
  by (induction s) auto

lemma str_split_append:
  "d \<notin> set a \<Longrightarrow> str_split (a @ d # b) d = a # str_split b d"
  by (induction a) auto

lemma str_split_parts: "p \<in> set (str_split s d) \<Longrightarrow> d \<notin> set p"
  by (induction s arbitrary: p) (auto split: if_splits list.splits)

lemma part_simps [simp]: "part [] i = None" "part (p # ps) 0 = Some p"
  "part (p # ps) (Suc i) = part ps i"
  by (auto simp: part_def)

subsection \<open>Searching\<close>

lemma str_find_Some_prefix: "str_find s p = Some i \<Longrightarrow> i \<le> length s \<and> prefix p (drop i s)"
  by (induction s arbitrary: i) (auto split: if_splits)

lemma str_find_None: "str_find s p = None \<longleftrightarrow> \<not> sublist p s"
  by (induction s) (auto simp: sublist_Cons_right)

lemma str_find_first: "str_find s p = Some i \<Longrightarrow> j < i \<Longrightarrow> \<not> prefix p (drop j s)"
proof (induction s arbitrary: i j)
  case Nil
  then show ?case by (simp split: if_splits)
next
  case (Cons c s)
  then show ?case by (cases j) (auto split: if_splits)
qed

lemma str_contains_sublist: "str_contains s p \<longleftrightarrow> sublist p s"
  by (simp add: str_contains_def str_find_None)

subsection \<open>Trimming\<close>

definition ws_leads :: "char set" where
  "ws_leads = hd ` set ws_encodings"

lemma ws_prefix_lead: "w \<in> set ws_encodings \<Longrightarrow> prefix w s \<Longrightarrow> s \<noteq> [] \<and> hd s \<in> ws_leads"
  using ws_encodings_nonempty by (cases w) (force simp: ws_leads_def prefix_def)+

lemma trim_start_id: "s = [] \<or> hd s \<notin> ws_leads \<Longrightarrow> trim_start s = s"
proof -
  assume "s = [] \<or> hd s \<notin> ws_leads"
  then have "find (\<lambda>w. prefix w s) ws_encodings = None"
    using ws_prefix_lead by (auto simp: find_None_iff)
  then show ?thesis by (simp add: trim_start.simps)
qed

lemma trim_end_Nil_lead: "trim_end s = [] \<Longrightarrow> s \<noteq> [] \<Longrightarrow> hd s \<in> ws_leads"
proof (induction s rule: trim_end.induct)
  case (1 s)
  show ?case
  proof (cases "find (\<lambda>w. suffix w s) ws_encodings")
    case None
    with 1 show ?thesis by (simp add: trim_end.simps [of s])
  next
    case (Some w)
    then have w: "w \<in> set ws_encodings" "suffix w s" "w \<noteq> []"
      using ws_find_nonempty [OF Some] by (auto simp: find_Some_iff)
    then obtain r where s: "s = r @ w" by (auto simp: suffix_def)
    from 1(2) Some have "trim_end (take (length s - length w) s) = []"
      by (simp add: trim_end.simps [of s])
    with s have r: "trim_end r = []" by simp
    show ?thesis
    proof (cases "r = []")
      case True
      with s w(1) show ?thesis by (auto simp: ws_leads_def)
    next
      case False
      with 1(1) [OF Some] r s show ?thesis by simp
    qed
  qed
qed

lemma not_blank: "s \<noteq> [] \<Longrightarrow> hd s \<notin> ws_leads \<Longrightarrow> \<not> blank s"
  using trim_end_Nil_lead by (auto simp: trim_def trim_start_id)

lemma ws_leads_eq:
  "ws_leads = char_of ` {9, 10, 11, 12, 13, 32, 194, 225, 226, 227 :: nat}"
  unfolding ws_leads_def ws_encodings_def by simp

lemma ws_lead_byte: "c \<in> ws_leads \<Longrightarrow> byte c \<in> {9, 10, 11, 12, 13, 32, 194, 225, 226, 227}"
  by (auto simp: ws_leads_eq)

lemma not_blank_lead:
  "s \<noteq> [] \<Longrightarrow> byte (hd s) \<notin> {9, 10, 11, 12, 13, 32, 194, 225, 226, 227} \<Longrightarrow> \<not> blank s"
  using not_blank ws_lead_byte by blast

lemma hexdigit_not_ws: "is_ascii_hexdigit c \<Longrightarrow> c \<notin> ws_leads"
  by (auto simp: ws_leads_eq is_ascii_hexdigit_def is_ascii_digit_def)

lemma hex_not_blank: "s \<noteq> [] \<Longrightarrow> list_all is_ascii_hexdigit s \<Longrightarrow> \<not> blank s"
  using not_blank [of s] hexdigit_not_ws [of "hd s"] by (cases s) auto

lemma trim_end_Nil [simp]: "trim_end [] = []"
proof -
  have "find (\<lambda>w. suffix w []) ws_encodings = None"
    using ws_encodings_nonempty by (auto simp: find_None_iff)
  then show ?thesis by (simp add: trim_end.simps [of "[]"])
qed

lemma trim_Nil [simp]: "trim [] = []"
  by (simp add: trim_def trim_start_id)

lemma trim_end_char_ends: "trim_end_char c s \<noteq> [] \<Longrightarrow> last (trim_end_char c s) \<noteq> c"
  using dropWhile_rev_last [of "\<lambda>x. x = c" s] by (auto simp: trim_end_char_def)

lemma trim_end_char_snoc: "trim_end_char c (s @ [c]) = trim_end_char c s"
  by (simp add: trim_end_char_def)

lemma trim_end_char_replicate: "trim_end_char c (s @ replicate n c) = trim_end_char c s"
proof -
  have "dropWhile (\<lambda>x. x = c) (replicate n c @ t) = dropWhile (\<lambda>x. x = c) t" for t
    by (induction n) simp_all
  then show ?thesis by (simp add: trim_end_char_def)
qed

lemma trim_end_char_id: "s = [] \<or> last s \<noteq> c \<Longrightarrow> trim_end_char c s = s"
  by (cases s rule: rev_cases) (auto simp: trim_end_char_def)

lemma trim_end_char_decomp: "\<exists>n. s = trim_end_char c s @ replicate n c"
proof (induction s rule: rev_induct)
  case Nil
  then show ?case by (simp add: trim_end_char_id)
next
  case (snoc x s)
  show ?case
  proof (cases "x = c")
    case True
    from snoc obtain n where n: "trim_end_char c s @ replicate n c = s" by metis
    have "trim_end_char c s @ replicate (Suc n) c = (trim_end_char c s @ replicate n c) @ [c]"
      by (simp add: replicate_append_same)
    with n True have "s @ [x] = trim_end_char c (s @ [x]) @ replicate (Suc n) c"
      by (simp only: trim_end_char_snoc)
    then show ?thesis ..
  next
    case False
    then have "s @ [x] = trim_end_char c (s @ [x]) @ replicate 0 c"
      by (simp add: trim_end_char_id)
    then show ?thesis ..
  qed
qed

lemma trim_end_char_prefix: "prefix (trim_end_char c s) s"
  using trim_end_char_decomp [of s c] by (metis prefix_def)

lemma trim_start_str_no_prefix: "p \<noteq> [] \<Longrightarrow> \<not> prefix p (trim_start_str p s)"
proof (induction p s rule: trim_start_str.induct)
  case (1 p s)
  then show ?case by (cases "prefix p s") (simp_all add: trim_start_str.simps [of p s])
qed

subsection \<open>Decimal numbers\<close>

lemma byte_digit_char: "d < 10 \<Longrightarrow> byte (digit_char d) = 48 + d"
  by (simp add: digit_char_def)

lemma digits_value_snoc: "digits_value (s @ [c]) = 10 * digits_value s + (byte c - 48)"
  by (simp add: digits_value_def)

lemma show_nat_nonempty [simp]: "show_nat n \<noteq> []"
  by (subst show_nat.simps) simp

lemma show_nat_digits: "list_all is_ascii_digit (show_nat n)"
proof (induction n rule: show_nat.induct)
  case (1 n)
  have "is_ascii_digit (digit_char (n mod 10))" "n < 10 \<Longrightarrow> is_ascii_digit (digit_char n)"
    by (auto simp: is_ascii_digit_def byte_digit_char)
  with 1 show ?case
    by (simp add: show_nat.simps [of n])
qed

lemma digits_value_show_nat: "digits_value (show_nat n) = n"
proof (induction n rule: show_nat.induct)
  case (1 n)
  show ?case
  proof (cases "n < 10")
    case True
    then show ?thesis
      by (simp add: show_nat.simps [of n] digits_value_def byte_digit_char)
  next
    case False
    then show ?thesis
      by (simp add: show_nat.simps [of n] digits_value_snoc byte_digit_char 1)
  qed
qed

lemma parse_digits_show_nat [simp]: "parse_digits (show_nat n) = Some n"
  by (simp add: parse_digits_def show_nat_digits digits_value_show_nat)

lemma digit_no_sign: "list_all is_ascii_digit s \<Longrightarrow> s \<noteq> [] \<Longrightarrow>
    strip_prefix s ''+'' = None \<and> strip_prefix s ''-'' = None"
  by (cases s) (auto simp: strip_prefix_def is_ascii_digit_def)

lemma strip_sign_show_nat [simp]:
  "strip_prefix (show_nat n) ''+'' = None" "strip_prefix (show_nat n) ''-'' = None"
  using digit_no_sign [OF show_nat_digits] by simp_all

lemma parse_unsigned_show_nat: "n < 2 ^ w \<Longrightarrow> parse_unsigned w (show_nat n) = Some n"
  by (simp add: parse_unsigned_def)

lemma parse_unsigned_range: "parse_unsigned w s = Some n \<Longrightarrow> n < 2 ^ w"
  by (auto simp: parse_unsigned_def split: option.splits if_splits)

lemma parse_signed_show_int:
  assumes "- (2 ^ (w - 1)) \<le> i" and "i < 2 ^ (w - 1)"
  shows "parse_signed w (show_int i) = Some i"
proof (cases "i < 0")
  case True
  with assms have "nat (- i) \<le> 2 ^ (w - 1)"
    by (simp add: nat_le_iff)
  with True show ?thesis
    by (simp add: show_int_def parse_signed_def strip_prefix_def)
next
  case False
  with assms have "nat i < 2 ^ (w - 1)"
    by (simp add: nat_less_iff)
  with False show ?thesis
    by (simp add: show_int_def parse_signed_def)
qed

lemma parse_signed_range:
  assumes "parse_signed w s = Some i"
  shows "- (2 ^ (w - 1)) \<le> i \<and> i < 2 ^ (w - 1)"
proof -
  have neg: "n \<le> 2 ^ k \<Longrightarrow> - (2 ^ k) \<le> - int n \<and> - int n < 2 ^ k" for n k :: nat
    using of_nat_le_iff [of n "2 ^ k", where 'a = int]
    by (simp add: neg_le_iff_le) (metis le_less_trans neg_le_0_iff_le of_nat_0_le_iff
        zero_less_numeral zero_less_power)
  have pos: "n < 2 ^ k \<Longrightarrow> - (2 ^ k) \<le> int n \<and> int n < 2 ^ k" for n k :: nat
    using of_nat_less_iff [of n "2 ^ k", where 'a = int]
    by simp (metis neg_le_0_iff_le of_nat_0_le_iff order_trans zero_le_numeral zero_le_power)
  show ?thesis
    using assms neg pos
    by (auto simp: parse_signed_def split: option.splits if_splits)
qed

lemma show_nat_no_char: "\<not> is_ascii_digit c \<Longrightarrow> c \<notin> set (show_nat n)"
  using show_nat_digits by (auto simp: list_all_conv_set)

subsection \<open>Hexadecimal\<close>

lemma hex_digit_is_hex: "n < 16 \<Longrightarrow> is_ascii_hexdigit (hex_digit n)"
  by (auto simp: hex_digit_def is_ascii_hexdigit_def is_ascii_digit_def)

lemma hex_byte_is_hex: "list_all is_ascii_hexdigit (hex_byte b)"
proof -
  have "unat b div 16 < 16"
    using unsigned_less [of b, where 'a = nat] by simp
  then show ?thesis
    by (simp add: hex_byte_def hex_digit_is_hex)
qed

lemma length_hex_byte [simp]: "length (hex_byte b) = 2"
  by (simp add: hex_byte_def)

end
