(* ===== verification/Rust_Map.thy ===== *)
theory Rust_Map
  imports Rust_Str
begin

text \<open>
  Rust's maps. A \<open>BTreeMap\<close> is its list of entries in key order (\<open>bt_insert\<close>,
  \<open>bt_remove\<close>); a \<open>HashMap\<close> is a list of entries with distinct keys in the order in which
  the map happens to iterate, so that whatever holds of every such list holds of every iteration
  order. Lookup is \<open>map_of\<close> for both. The locale \<open>key_map\<close> is what the clients rely on:
  the subscription registry, the event store, the tag index and the repository state.
\<close>

type_synonym ('k, 'v) entries = "('k \<times> 'v) list"

section \<open>The contract of a map\<close>

locale key_map =
  fixes put :: "'k \<Rightarrow> 'v \<Rightarrow> ('k, 'v) entries \<Rightarrow> ('k, 'v) entries"
    and del :: "'k \<Rightarrow> ('k, 'v) entries \<Rightarrow> ('k, 'v) entries"
    and wf :: "('k, 'v) entries \<Rightarrow> bool"
  assumes wf_empty: "wf []"
    and wf_put: "wf m \<Longrightarrow> wf (put k v m)"
    and wf_del: "wf m \<Longrightarrow> wf (del k m)"
    and get_put: "wf m \<Longrightarrow> map_of (put k v m) = (map_of m)(k \<mapsto> v)"
    and get_del: "wf m \<Longrightarrow> map_of (del k m) = (map_of m)(k := None)"
    and wf_distinct: "wf m \<Longrightarrow> distinct (map fst m)"
begin

lemma length_card: "wf m \<Longrightarrow> length m = card (dom (map_of m))"
  by (metis distinct_card dom_map_of_conv_image_fst length_map list.set_map wf_distinct)

lemma length_put:
  assumes "wf m"
  shows "length (put k v m) = (if map_of m k = None then Suc (length m) else length m)"
proof -
  have "length (put k v m) = card (insert k (dom (map_of m)))"
    using assms by (simp add: length_card wf_put get_put)
  also have "\<dots> = (if map_of m k = None then Suc (card (dom (map_of m))) else card (dom (map_of m)))"
    by (auto simp: card_insert_if finite_dom_map_of domIff)
  finally show ?thesis using assms by (simp add: length_card)
qed

lemma length_del:
  assumes "wf m"
  shows "length (del k m) \<le> length m"
    and "map_of m k \<noteq> None \<Longrightarrow> length (del k m) < length m"
proof -
  have eq: "length (del k m) = card (dom (map_of m) - {k})"
    using assms by (simp add: length_card wf_del get_del)
  then show "length (del k m) \<le> length m"
    using assms by (simp add: length_card card_Diff1_le finite_dom_map_of)
  assume "map_of m k \<noteq> None"
  then have "k \<in> dom (map_of m)" by (simp add: domIff)
  then show "length (del k m) < length m"
    using assms eq card_Diff1_less [OF finite_dom_map_of] by (metis length_card)
qed

lemma get_in: "wf m \<Longrightarrow> (k, v) \<in> set m \<longleftrightarrow> map_of m k = Some v"
  using map_of_eq_Some_iff wf_distinct by metis

end

section \<open>BTreeMap\<close>

fun bt_insert :: "'k::linorder \<Rightarrow> 'v \<Rightarrow> ('k, 'v) entries \<Rightarrow> ('k, 'v) entries" where
  "bt_insert k v [] = [(k, v)]"
| "bt_insert k v (e # m) =
     (if fst e = k then (k, v) # m
      else if k < fst e then (k, v) # e # m
      else e # bt_insert k v m)"

definition bt_remove :: "'k \<Rightarrow> ('k, 'v) entries \<Rightarrow> ('k, 'v) entries" where
  "bt_remove k m = filter (\<lambda>e. fst e \<noteq> k) m"

definition bt_wf :: "('k::linorder, 'v) entries \<Rightarrow> bool" where
  "bt_wf m \<longleftrightarrow> sorted_wrt (<) (map fst m)"

lemma keys_bt_insert: "fst ` set (bt_insert k v m) = insert k (fst ` set m)"
  by (induction m) auto

lemma bt_wf_insert: "bt_wf m \<Longrightarrow> bt_wf (bt_insert k v m)"
proof (induction m)
  case Nil
  then show ?case by (simp add: bt_wf_def)
next
  case (Cons e m)
  then have rest: "bt_wf (bt_insert k v m)" and lt: "\<forall>a \<in> fst ` set m. fst e < a"
    by (auto simp: bt_wf_def)
  show ?case
  proof (cases "k \<le> fst e")
    case True
    with Cons.prems show ?thesis by (auto simp: bt_wf_def)
  next
    case False
    with lt have "\<forall>a \<in> fst ` set (bt_insert k v m). fst e < a"
      by (auto simp: keys_bt_insert)
    with False rest show ?thesis by (auto simp: bt_wf_def)
  qed
qed

lemma map_of_bt_insert: "bt_wf m \<Longrightarrow> map_of (bt_insert k v m) = (map_of m)(k \<mapsto> v)"
  by (induction m) (auto simp: bt_wf_def)

lemma map_of_bt_remove: "map_of (bt_remove k m) = (map_of m)(k := None)"
  unfolding bt_remove_def by (induction m) auto

lemma bt_wf_remove: "bt_wf m \<Longrightarrow> bt_wf (bt_remove k m)"
  unfolding bt_wf_def bt_remove_def by (induction m) auto

lemma bt_wf_distinct: "bt_wf m \<Longrightarrow> distinct (map fst m)"
  by (simp add: bt_wf_def strict_sorted_iff)

interpretation bt: key_map bt_insert bt_remove bt_wf
proof unfold_locales
  show "bt_wf []" by (simp add: bt_wf_def)
qed (simp_all add: bt_wf_insert bt_wf_remove map_of_bt_insert map_of_bt_remove bt_wf_distinct)

text \<open>Two well-formed trees with the same lookups have the same entries in the same order.\<close>

lemma bt_ext:
  assumes "bt_wf m" and "bt_wf m'" and "map_of m = map_of m'"
  shows "m = m'"
proof -
  have set_eq: "set m = set m'"
    using assms bt.get_in [of m] bt.get_in [of m'] by (simp add: set_eq_iff)
  then have "map fst m = map fst m'"
    using assms(1,2) unfolding bt_wf_def
    by (intro strict_sorted_equal) (simp_all add: set_eq)
  moreover have "inj_on fst (set m)"
    using bt_wf_distinct [OF assms(1)] by (simp add: distinct_map)
  ultimately show ?thesis
    using set_eq by (intro map_inj_on [of fst]) simp_all
qed

section \<open>HashMap\<close>

definition hm_wf :: "('k, 'v) entries \<Rightarrow> bool" where
  "hm_wf m \<longleftrightarrow> distinct (map fst m)"

abbreviation hm_insert :: "'k \<Rightarrow> 'v \<Rightarrow> ('k, 'v) entries \<Rightarrow> ('k, 'v) entries" where
  "hm_insert \<equiv> AList.update"

interpretation hm: key_map hm_insert AList.delete hm_wf
proof unfold_locales
  fix m :: "('a, 'b) entries" and k v
  show "map_of (AList.delete k m) = (map_of m)(k := None)"
    by (rule AList.delete_conv')
qed (simp_all add: hm_wf_def distinct_update update_conv' distinct_delete)

text \<open>Collecting the entries of a hash map and sorting them by key gives the tree of that map.\<close>

definition sort_entries :: "(string \<times> 'v) list \<Rightarrow> (string \<times> 'v) list" where
  "sort_entries m = sort_key fst m"

lemma sort_entries_wf: "hm_wf m \<Longrightarrow> bt_wf (sort_entries m)"
  by (simp add: hm_wf_def bt_wf_def sort_entries_def strict_sorted_iff distinct_map)

lemma map_of_sort_entries:
  assumes "hm_wf m"
  shows "map_of (sort_entries m) = map_of m"
proof -
  have "distinct (map fst (sort_entries m))"
    by (rule bt_wf_distinct [OF sort_entries_wf [OF assms]])
  moreover have "set (sort_entries m) = set m"
    by (simp add: sort_entries_def)
  ultimately show ?thesis
    using assms by (metis map_of_inject_set hm_wf_def)
qed

end
