(* ===== verification/Core_Common.thy ===== *)
theory Core_Common
  imports Rust_Map
begin

text \<open>
  The base of \<open>crates/core\<close>: the error type of \<open>lib.rs\<close>, the event kinds of
  \<open>kinds.rs\<close>, the tag helpers of \<open>tags.rs\<close>, nostr references (\<open>refs.rs\<close>) and
  repository addresses with the hexadecimal checks of \<open>nip34_common.rs\<close>.
\<close>

section \<open>Errors\<close>

datatype core_error =
    MissingField string
  | InvalidField string string
  | InvalidTag string string

type_synonym 'a core_result = "(core_error, 'a) result"

fun core_error_display :: "core_error \<Rightarrow> string" where
  "core_error_display (MissingField field) = ''missing required field: '' @ field"
| "core_error_display (InvalidField field v) = ''invalid field '' @ field @ '': '' @ v"
| "core_error_display (InvalidTag tag v) = ''invalid tag '' @ tag @ '': '' @ v"

section \<open>Event kinds\<close>

datatype nostr_kind = NostrKind (kind_value: u32)

definition KIND_GIT_REPO_ANNOUNCEMENT :: nostr_kind where
  "KIND_GIT_REPO_ANNOUNCEMENT = NostrKind 30617"
definition KIND_GIT_REPO_STATE :: nostr_kind where
  "KIND_GIT_REPO_STATE = NostrKind 30618"
definition KIND_GIT_PATCH :: nostr_kind where
  "KIND_GIT_PATCH = NostrKind 1617"
definition KIND_GIT_PULL_REQUEST :: nostr_kind where
  "KIND_GIT_PULL_REQUEST = NostrKind 1618"
definition KIND_GIT_PULL_REQUEST_UPDATE :: nostr_kind where
  "KIND_GIT_PULL_REQUEST_UPDATE = NostrKind 1619"
definition KIND_GIT_ISSUE :: nostr_kind where
  "KIND_GIT_ISSUE = NostrKind 1621"
definition KIND_GIT_STATUS_OPEN :: nostr_kind where
  "KIND_GIT_STATUS_OPEN = NostrKind 1630"
definition KIND_GIT_STATUS_APPLIED :: nostr_kind where
  "KIND_GIT_STATUS_APPLIED = NostrKind 1631"
definition KIND_GIT_STATUS_CLOSED :: nostr_kind where
  "KIND_GIT_STATUS_CLOSED = NostrKind 1632"
definition KIND_GIT_STATUS_DRAFT :: nostr_kind where
  "KIND_GIT_STATUS_DRAFT = NostrKind 1633"
definition KIND_USER_GRASP_LIST :: nostr_kind where
  "KIND_USER_GRASP_LIST = NostrKind 10317"
definition KIND_GITTREE_CONTROL :: nostr_kind where
  "KIND_GITTREE_CONTROL = NostrKind 29000"

lemmas kind_defs =
  KIND_GIT_REPO_ANNOUNCEMENT_def KIND_GIT_REPO_STATE_def KIND_GIT_PATCH_def
  KIND_GIT_PULL_REQUEST_def KIND_GIT_PULL_REQUEST_UPDATE_def KIND_GIT_ISSUE_def
  KIND_GIT_STATUS_OPEN_def KIND_GIT_STATUS_APPLIED_def KIND_GIT_STATUS_CLOSED_def
  KIND_GIT_STATUS_DRAFT_def KIND_USER_GRASP_LIST_def KIND_GITTREE_CONTROL_def

definition status_kinds :: "nostr_kind list" where
  "status_kinds =
     [KIND_GIT_STATUS_OPEN, KIND_GIT_STATUS_APPLIED, KIND_GIT_STATUS_CLOSED, KIND_GIT_STATUS_DRAFT]"

definition nip34_required_kinds :: "nostr_kind list" where
  "nip34_required_kinds =
     [KIND_GIT_REPO_ANNOUNCEMENT, KIND_GIT_REPO_STATE, KIND_GIT_PATCH, KIND_GIT_PULL_REQUEST,
      KIND_GIT_PULL_REQUEST_UPDATE, KIND_GIT_ISSUE, KIND_GIT_STATUS_OPEN,
      KIND_GIT_STATUS_APPLIED, KIND_GIT_STATUS_CLOSED, KIND_GIT_STATUS_DRAFT]"

definition is_nip34_kind :: "u32 \<Rightarrow> bool" where
  "is_nip34_kind kind \<longleftrightarrow> list_ex (\<lambda>entry. kind_value entry = kind) nip34_required_kinds"

section \<open>Tags\<close>

type_synonym tag = "string list"

definition tag_name :: "tag \<Rightarrow> string option" where
  "tag_name tag = (case tag of [] \<Rightarrow> None | t # _ \<Rightarrow> Some t)"

definition tag_value :: "tag \<Rightarrow> string option" where
  "tag_value tag = (case tag of _ # v # _ \<Rightarrow> Some v | _ \<Rightarrow> None)"

definition tag_values :: "tag \<Rightarrow> string list" where
  "tag_values tag = (if length tag \<le> 1 then [] else drop 1 tag)"

definition has_name :: "string \<Rightarrow> tag \<Rightarrow> bool" where
  "has_name name tag \<longleftrightarrow> (case tag of [] \<Rightarrow> False | t # _ \<Rightarrow> t = name)"

definition collect_tag_values :: "tag list \<Rightarrow> string \<Rightarrow> string list" where
  "collect_tag_values tags name =
     foldl (\<lambda>values tag. if has_name name tag then values @ drop 1 tag else values) [] tags"

definition push_unique :: "string list \<Rightarrow> string \<Rightarrow> string list" where
  "push_unique target v = (if list_ex (\<lambda>item. item = v) target then target else target @ [v])"

definition extend_unique :: "string list \<Rightarrow> string list \<Rightarrow> string list" where
  "extend_unique target values = foldl push_unique target values"

definition collect_tag_values_unique :: "tag list \<Rightarrow> string \<Rightarrow> string list" where
  "collect_tag_values_unique tags name =
     foldl (\<lambda>values tag. if has_name name tag then extend_unique values (tag_values tag) else values)
       [] tags"

definition join_tag_values :: "string \<Rightarrow> string list \<Rightarrow> tag" where
  "join_tag_values kind values = kind # values"

subsection \<open>Vectors without duplicates\<close>

lemma push_unique_eq: "push_unique xs v = (if v \<in> set xs then xs else xs @ [v])"
  by (auto simp: push_unique_def list_ex_iff)

lemma set_push_unique [simp]: "set (push_unique xs v) = insert v (set xs)"
  by (auto simp: push_unique_eq)

lemma distinct_push_unique [simp]: "distinct (push_unique xs v) \<longleftrightarrow> distinct xs"
  by (auto simp: push_unique_eq)

lemma extend_unique_Nil [simp]: "extend_unique xs [] = xs"
  by (simp add: extend_unique_def)

lemma extend_unique_Cons: "extend_unique xs (v # vs) = extend_unique (push_unique xs v) vs"
  by (simp add: extend_unique_def)

lemma extend_unique_append: "extend_unique xs (vs @ ws) = extend_unique (extend_unique xs vs) ws"
  by (simp add: extend_unique_def)

lemma extend_unique_single [simp]: "extend_unique xs [v] = push_unique xs v"
  by (simp add: extend_unique_def)

lemma set_extend_unique [simp]: "set (extend_unique xs vs) = set xs \<union> set vs"
  by (induction vs arbitrary: xs) (auto simp: extend_unique_Cons)

lemma distinct_extend_unique [simp]: "distinct (extend_unique xs vs) \<longleftrightarrow> distinct xs"
  by (induction vs arbitrary: xs) (auto simp: extend_unique_Cons)

lemma extend_unique_distinct: "distinct (xs @ vs) \<Longrightarrow> extend_unique xs vs = xs @ vs"
  by (induction vs arbitrary: xs) (auto simp: extend_unique_Cons push_unique_eq)

lemma extend_unique_self: "distinct vs \<Longrightarrow> extend_unique [] vs = vs"
  by (simp add: extend_unique_distinct)

text \<open>The order kept by \<open>extend_unique\<close> is that of first occurrences.\<close>

fun remdups_first :: "'a list \<Rightarrow> 'a list" where
  "remdups_first [] = []"
| "remdups_first (x # xs) = x # remdups_first (filter (\<lambda>y. y \<noteq> x) xs)"

lemma extend_unique_filter:
  "extend_unique xs vs = xs @ remdups_first (filter (\<lambda>v. v \<notin> set xs) vs)"
proof (induction vs arbitrary: xs)
  case Nil
  then show ?case by simp
next
  case (Cons v vs)
  show ?case
  proof (cases "v \<in> set xs")
    case True
    then show ?thesis by (simp add: extend_unique_Cons push_unique_eq Cons.IH)
  next
    case False
    then have "filter (\<lambda>y. y \<noteq> v) (filter (\<lambda>u. u \<notin> set xs) vs) =
        filter (\<lambda>u. u \<notin> set (xs @ [v])) vs"
      by (auto intro!: filter_cong)
    with False show ?thesis
      by (simp add: extend_unique_Cons push_unique_eq Cons.IH)
  qed
qed

lemma collect_values_concat:
  "collect_tag_values tags name = concat (map (drop 1) (filter (has_name name) tags))"
proof -
  have "foldl (\<lambda>values tag. if has_name name tag then values @ drop 1 tag else values) acc tags =
      acc @ concat (map (drop 1) (filter (has_name name) tags))" for acc
    by (induction tags arbitrary: acc) auto
  then show ?thesis by (simp add: collect_tag_values_def)
qed

lemma tag_values_drop: "tag_values tag = drop 1 tag"
  by (simp add: tag_values_def)

lemma collect_unique_fold:
  "foldl (\<lambda>values tag. if has_name name tag then extend_unique values (tag_values tag) else values)
     acc tags = extend_unique acc (concat (map (drop 1) (filter (has_name name) tags)))"
  by (induction tags arbitrary: acc) (auto simp: extend_unique_append tag_values_drop)

lemma collect_unique_extend:
  "collect_tag_values_unique tags name = extend_unique [] (collect_tag_values tags name)"
  by (simp add: collect_tag_values_unique_def collect_unique_fold collect_values_concat)

section \<open>Hexadecimal identifiers and repository addresses\<close>

definition REPO_ANNOUNCEMENT_KIND :: string where "REPO_ANNOUNCEMENT_KIND = ''30617''"
definition HEX_EVENT_ID_LEN :: nat where "HEX_EVENT_ID_LEN = 64"
definition HEX_PUBKEY_LEN :: nat where "HEX_PUBKEY_LEN = 64"

definition is_hex_hash :: "string \<Rightarrow> bool" where
  "is_hex_hash v \<longleftrightarrow> (length v = 40 \<or> length v = 64) \<and> list_all is_ascii_hexdigit v"

definition is_hex_len :: "string \<Rightarrow> nat \<Rightarrow> bool" where
  "is_hex_len v len \<longleftrightarrow> length v = len \<and> list_all is_ascii_hexdigit v"

record repo_address =
  addr_pubkey :: string
  addr_identifier :: string

definition repo_address_new :: "string \<Rightarrow> string \<Rightarrow> repo_address core_result" where
  "repo_address_new pubkey ident =
     (if pubkey = [] \<or> \<not> is_hex_len pubkey HEX_PUBKEY_LEN \<or> ident = []
      then Err (InvalidField ''a'' (REPO_ANNOUNCEMENT_KIND @ '':'' @ pubkey @ '':'' @ ident))
      else Ok \<lparr>addr_pubkey = pubkey, addr_identifier = ident\<rparr>)"

definition repo_address_parse :: "string \<Rightarrow> repo_address core_result" where
  "repo_address_parse v =
     (let parts = str_splitn 4 v CHR '':'';
          kind = (case part parts 0 of Some p \<Rightarrow> p | None \<Rightarrow> []);
          pubkey = (case part parts 1 of Some p \<Rightarrow> p | None \<Rightarrow> []);
          ident = (case part parts 2 of Some p \<Rightarrow> p | None \<Rightarrow> []);
          extra = part parts 3
      in if kind \<noteq> REPO_ANNOUNCEMENT_KIND \<or> pubkey = [] \<or> ident = [] \<or> extra \<noteq> None
         then Err (InvalidField ''a'' v)
         else repo_address_new pubkey ident)"

definition repo_address_display :: "repo_address \<Rightarrow> string" where
  "repo_address_display a =
     REPO_ANNOUNCEMENT_KIND @ '':'' @ addr_pubkey a @ '':'' @ addr_identifier a"

definition validate_repo_address :: "string \<Rightarrow> unit core_result" where
  "validate_repo_address v = and_then (repo_address_parse v) (\<lambda>_. Ok ())"

text \<open>The text form an address has exactly when parsing accepts it.\<close>

definition repo_address_wf :: "repo_address \<Rightarrow> bool" where
  "repo_address_wf a \<longleftrightarrow>
     is_hex_len (addr_pubkey a) 64 \<and> addr_identifier a \<noteq> [] \<and> CHR '':'' \<notin> set (addr_identifier a)"

lemma hexdigit_not_colon: "is_ascii_hexdigit c \<Longrightarrow> c \<noteq> CHR '':''"
  by (auto simp: is_ascii_hexdigit_def is_ascii_digit_def)

lemma is_hex_len_no_colon: "is_hex_len s n \<Longrightarrow> CHR '':'' \<notin> set s"
  using hexdigit_not_colon by (auto simp: is_hex_len_def list_all_conv_set)

lemma splitn4_display:
  assumes "CHR '':'' \<notin> set pk" and "CHR '':'' \<notin> set ident"
  shows "str_splitn 4 (''30617:'' @ pk @ '':'' @ ident) CHR '':'' = [''30617'', pk, ident]"
proof -
  have four: "(4::nat) = Suc (Suc (Suc (Suc 0)))" by simp
  have "split_once (''30617:'' @ pk @ '':'' @ ident) CHR '':'' = Some (''30617'', pk @ '':'' @ ident)"
    using split_once_append [of "CHR '':''" "''30617''" "pk @ '':'' @ ident"] by simp
  moreover have "split_once (pk @ '':'' @ ident) CHR '':'' = Some (pk, ident)"
    using split_once_append [OF assms(1)] by simp
  moreover have "split_once ident CHR '':'' = None"
    using assms(2) by (simp add: split_once_None)
  ultimately show ?thesis by (simp add: four)
qed

lemma splitn4_three:
  assumes "str_splitn 4 v CHR '':'' = [k, p, i]"
  shows "v = k @ '':'' @ p @ '':'' @ i \<and> CHR '':'' \<notin> set i"
proof -
  have four: "(4::nat) = Suc (Suc (Suc (Suc 0)))" by simp
  show ?thesis using assms
    by (auto simp: four split_once_None split: option.splits dest!: split_once_Some)
qed

lemma repo_address_parse_display:
  assumes "repo_address_wf a"
  shows "repo_address_parse (repo_address_display a) = Ok a"
  using assms splitn4_display [OF is_hex_len_no_colon, of "addr_pubkey a" 64 "addr_identifier a"]
  by (auto simp: repo_address_wf_def repo_address_parse_def repo_address_display_def
      repo_address_new_def REPO_ANNOUNCEMENT_KIND_def HEX_PUBKEY_LEN_def is_hex_len_def Let_def
      numeral_2_eq_2 numeral_3_eq_3)

section \<open>Nostr references\<close>

definition NOSTR_REF_PREFIX :: string where "NOSTR_REF_PREFIX = ''refs/nostr/''"
definition NOSTR_EVENT_ID_LEN :: nat where "NOSTR_EVENT_ID_LEN = 64"

definition parse_nostr_ref :: "string \<Rightarrow> string core_result" where
  "parse_nostr_ref name =
     (case strip_prefix name NOSTR_REF_PREFIX of
        None \<Rightarrow> Err (InvalidField ''nostr_ref'' name)
      | Some event_id \<Rightarrow>
          (if length event_id \<noteq> NOSTR_EVENT_ID_LEN \<or> \<not> list_all is_ascii_hexdigit event_id
           then Err (InvalidField ''nostr_ref'' name)
           else Ok event_id))"

definition is_nostr_ref_name :: "string \<Rightarrow> bool" where
  "is_nostr_ref_name name \<longleftrightarrow> is_ok (parse_nostr_ref name)"

lemma parse_nostr_ref_iff:
  "parse_nostr_ref name = Ok i \<longleftrightarrow> name = ''refs/nostr/'' @ i \<and> is_hex_len i 64"
  by (auto simp: parse_nostr_ref_def strip_prefix_def NOSTR_REF_PREFIX_def NOSTR_EVENT_ID_LEN_def
      is_hex_len_def prefix_def)

lemma is_nostr_ref_name_iff:
  "is_nostr_ref_name name \<longleftrightarrow> (\<exists>i. name = ''refs/nostr/'' @ i \<and> is_hex_len i 64)"
  by (auto simp: is_nostr_ref_name_def is_ok_iff parse_nostr_ref_iff)

section \<open>Properties\<close>

lemma repo_address_parse_Ok:
  assumes "repo_address_parse v = Ok a"
  shows "v = repo_address_display a \<and> repo_address_wf a"
proof -
  have four: "(4::nat) = Suc (Suc (Suc (Suc 0)))" by simp
  from assms obtain p i where parts: "str_splitn 4 v CHR '':'' = [''30617'', p, i]"
    and new: "repo_address_new p i = Ok a"
    by (auto simp: repo_address_parse_def REPO_ANNOUNCEMENT_KIND_def Let_def four
        numeral_2_eq_2 numeral_3_eq_3 split: option.splits if_splits prod.splits)
  from splitn4_three [OF parts] new show ?thesis
    by (auto simp: repo_address_new_def repo_address_display_def repo_address_wf_def
        REPO_ANNOUNCEMENT_KIND_def HEX_PUBKEY_LEN_def split: if_splits)
qed

text \<open>
  The parser of repository addresses accepts exactly the printed forms of addresses with a
  64-digit hexadecimal key and a non-empty identifier without a colon, and returns the address
  that was printed.\<close>

theorem repo_address_parse_iff:
  "repo_address_parse v = Ok a \<longleftrightarrow> v = repo_address_display a \<and> repo_address_wf a"
  using repo_address_parse_Ok repo_address_parse_display by blast

text \<open>
  An address made by \<open>RepoAddress::new\<close> whose identifier has a colon prints a text its own
  parser refuses.\<close>

theorem repo_address_colon_no_round_trip:
  assumes "repo_address_new pubkey ident = Ok a" and "CHR '':'' \<in> set ident"
  shows "\<exists>e. repo_address_parse (repo_address_display a) = Err e"
proof -
  have "\<not> repo_address_wf a"
    using assms by (auto simp: repo_address_new_def repo_address_wf_def split: if_splits)
  moreover have "repo_address_display a = repo_address_display b \<Longrightarrow> repo_address_wf b \<Longrightarrow> a = b" for b
  proof -
    assume eq: "repo_address_display a = repo_address_display b" and b: "repo_address_wf b"
    have "length (addr_pubkey a) = length (addr_pubkey b)"
      using assms(1) b by (auto simp: repo_address_new_def repo_address_wf_def is_hex_len_def
          HEX_PUBKEY_LEN_def split: if_splits)
    with eq show "a = b" by (simp add: repo_address_display_def)
  qed
  ultimately have "\<nexists>b. repo_address_parse (repo_address_display a) = Ok b"
    using repo_address_parse_Ok by metis
  then show ?thesis by (cases "repo_address_parse (repo_address_display a)") auto
qed

theorem repo_address_colon_witness:
  "\<exists>a e. repo_address_new (replicate 64 CHR ''a'') ''x:y'' = Ok a \<and>
     repo_address_parse (repo_address_display a) = Err e"
proof -
  have hex: "is_hex_len (replicate 64 CHR ''a'') 64"
    by (simp add: is_hex_len_def list_all_conv_set is_ascii_hexdigit_def)
  then obtain a where a: "repo_address_new (replicate 64 CHR ''a'') ''x:y'' = Ok a"
    by (simp add: repo_address_new_def HEX_PUBKEY_LEN_def)
  show ?thesis using a repo_address_colon_no_round_trip [OF a] by simp
qed

text \<open>
  Collecting the values of a tag without duplicates keeps exactly the values of all tags of that
  name, each once, in the order of their first occurrences.\<close>

theorem collect_tag_values_unique_spec:
  "collect_tag_values_unique tags name = remdups_first (collect_tag_values tags name)"
  using extend_unique_filter [of "[]"] by (simp add: collect_unique_extend)

end
