(* ===== verification/Core_Grasp.thy ===== *)
theory Core_Grasp
  imports Core_Common
begin

text \<open>
  \<open>crates/core/src/grasp.rs\<close>: GRASP server URLs. The crates \<open>url\<close> and \<open>bech32\<close> are not
  part of the repository: a URL parser and a bech32 decoder are parameters of the definitions.
  A slice that could be out of range or inside a character is modelled by \<open>None\<close> (a panic).
\<close>

section \<open>The parameters\<close>

record url =
  url_scheme :: string
  url_host_str :: "string option"
  url_port :: "nat option"
  url_path :: string

type_synonym url_parser = "string \<Rightarrow> url option"
type_synonym bech32_decoder = "string \<Rightarrow> (string \<times> u8 list) option"

section \<open>Server URLs\<close>

definition normalize_grasp_server_url :: "url_parser \<Rightarrow> string \<Rightarrow> string core_result" where
  "normalize_grasp_server_url url_parse input =
     and_then
       (case url_parse input of
          Some v \<Rightarrow> Ok v
        | None \<Rightarrow> ok_or (InvalidField ''grasp_url'' input) (url_parse (''https://'' @ input)))
     (\<lambda>parsed. and_then
       (if url_host_str parsed = None
        then ok_or (InvalidField ''grasp_url'' input) (url_parse (''https://'' @ input))
        else Ok parsed)
     (\<lambda>parsed.
        let scheme = url_scheme parsed;
            host = (case url_host_str parsed of Some h \<Rightarrow> h | None \<Rightarrow> []);
            port = (case url_port parsed of Some v \<Rightarrow> '':'' @ show_nat v | None \<Rightarrow> []);
            path = url_path parsed;
            normalized = (if scheme = ''ws'' \<or> scheme = ''http''
                          then ''http://'' @ host @ port @ path else host @ port @ path);
            truncated = (case str_find normalized ''npub1'' of
                           Some pos \<Rightarrow> take pos normalized | None \<Rightarrow> normalized)
        in Ok (trim_end_char CHR ''/'' truncated)))"

definition validate_npub :: "bech32_decoder \<Rightarrow> string \<Rightarrow> unit core_result" where
  "validate_npub bech32_decode npub =
     (case bech32_decode npub of
        None \<Rightarrow> Err (InvalidField ''npub'' npub)
      | Some (hrp, _) \<Rightarrow> if hrp \<noteq> ''npub'' then Err (InvalidField ''npub'' npub) else Ok ())"

function scan_alphanumeric :: "string \<Rightarrow> nat \<Rightarrow> nat" where
  "scan_alphanumeric bytes end_pos =
     (if end_pos < length bytes \<and> is_ascii_alphanumeric (bytes ! end_pos)
      then scan_alphanumeric bytes (end_pos + 1) else end_pos)"
  by pat_completeness auto
termination
  by (relation "measure (\<lambda>(bytes, end_pos). length bytes - end_pos)") auto

declare scan_alphanumeric.simps [simp del]

definition extract_npub :: "bech32_decoder \<Rightarrow> string \<Rightarrow> string core_result" where
  "extract_npub bech32_decode input =
     (case str_find input ''npub1'' of
        Some start \<Rightarrow>
          (let end_pos = scan_alphanumeric input (start + 5);
               npub = take (end_pos - start) (drop start input)
           in and_then (validate_npub bech32_decode npub) (\<lambda>_. Ok npub))
      | None \<Rightarrow> Err (InvalidField ''npub'' input))"

definition is_grasp_server_in_list :: "string \<Rightarrow> string list \<Rightarrow> bool" where
  "is_grasp_server_in_list u grasp_servers =
     (if grasp_servers = [] then False
      else (let trimmed_url = trim_end_char CHR ''/'' u
            in list_ex (\<lambda>server. trim_end_char CHR ''/'' server = trimmed_url) grasp_servers))"

text \<open>\<open>&s[..s.len() - n]\<close>.\<close>

definition drop_last_bytes :: "string \<Rightarrow> nat \<Rightarrow> string option" where
  "drop_last_bytes s n =
     (if n \<le> length s \<and> is_char_boundary s (length s - n) then Some (take (length s - n) s) else None)"

definition is_grasp_server_clone_url :: "bech32_decoder \<Rightarrow> string \<Rightarrow> bool option" where
  "is_grasp_server_clone_url bech32_decode u =
     (if \<not> starts_with u ''http://'' \<and> \<not> starts_with u ''https://'' then Some False
      else if \<not> ends_with u ''.git'' \<and> \<not> ends_with u ''.git/'' then Some False
      else
        (case extract_npub bech32_decode u of
           Inl _ \<Rightarrow> Some False
         | Inr npub \<Rightarrow>
             (let npub_pattern = ''/'' @ npub @ ''/'' in
              case str_find u npub_pattern of
                None \<Rightarrow> Some False
              | Some pos \<Rightarrow>
                  (let after_npub =
                         trim_end_char CHR ''/'' (drop (pos + length npub_pattern) u) in
                   if after_npub = [] \<or> after_npub = ''.git'' then Some False
                   else map_option (\<lambda>repo_name. repo_name \<noteq> []) (drop_last_bytes after_npub 4)))))"

definition format_grasp_server_url_as_relay_url :: "url_parser \<Rightarrow> string \<Rightarrow> string core_result" where
  "format_grasp_server_url_as_relay_url url_parse u =
     and_then (normalize_grasp_server_url url_parse u)
       (\<lambda>grasp_server_url.
          if str_contains grasp_server_url ''http://''
          then Ok (str_replace ''http://'' ''ws://'' grasp_server_url)
          else Ok (''wss://'' @ grasp_server_url))"

definition format_grasp_server_url_as_clone_url ::
  "url_parser \<Rightarrow> bech32_decoder \<Rightarrow> string \<Rightarrow> string \<Rightarrow> string \<Rightarrow> string core_result" where
  "format_grasp_server_url_as_clone_url url_parse bech32_decode grasp_server npub ident =
     and_then (validate_npub bech32_decode npub) (\<lambda>_.
     and_then (normalize_grasp_server_url url_parse grasp_server) (\<lambda>grasp_server_url.
       let pre = (if str_contains grasp_server_url ''http://'' then '''' else ''https://'')
       in Ok (pre @ grasp_server_url @ ''/'' @ npub @ ''/'' @ ident @ ''.git'')))"

definition format_grasp_server_url_as_blossom_url :: "url_parser \<Rightarrow> string \<Rightarrow> string core_result" where
  "format_grasp_server_url_as_blossom_url url_parse u =
     and_then (normalize_grasp_server_url url_parse u)
       (\<lambda>grasp_server_url.
          if str_contains grasp_server_url ''http://'' then Ok grasp_server_url
          else Ok (''https://'' @ grasp_server_url))"

section \<open>Lemmas\<close>

lemma scan_alphanumeric_eq:
  "scan_alphanumeric s i = i + length (takeWhile is_ascii_alphanumeric (drop i s))"
proof (induction s i rule: scan_alphanumeric.induct)
  case (1 s i)
  show ?case
  proof (cases "i < length s \<and> is_ascii_alphanumeric (s ! i)")
    case True
    then have "drop i s = s ! i # drop (i + 1) s"
      by (simp add: Cons_nth_drop_Suc)
    with True 1 show ?thesis by (simp add: scan_alphanumeric.simps [of s i])
  next
    case False
    then have "takeWhile is_ascii_alphanumeric (drop i s) = []"
      by (cases "drop i s") (auto simp: nth_via_drop)
    with False show ?thesis by (auto simp: scan_alphanumeric.simps [of s i])
  qed
qed

lemma truncate_no_npub:
  assumes "str_find s p = Some pos" and "p \<noteq> []"
  shows "\<not> sublist p (take pos s)"
proof
  assume "sublist p (take pos s)"
  then obtain a b where ab: "take pos s = a @ p @ b" by (auto simp: sublist_def)
  from assms(1) have pos: "pos \<le> length s" using str_find_Some_prefix by blast
  from ab pos have "length a + length p + length b = pos"
    by (metis append.assoc length_append length_take min.absorb2)
  then have "length a < pos" using assms(2) by (cases p) auto
  moreover have "prefix p (drop (length a) s)"
  proof -
    have "s = (a @ p @ b) @ drop pos s" using ab by (metis append_take_drop_id)
    then have "drop (length a) s = p @ b @ drop pos s"
      by (metis append.assoc append_eq_conv_conj)
    then show ?thesis by simp
  qed
  ultimately show False using str_find_first [OF assms(1)] by blast
qed

lemma extract_npub_Ok:
  assumes "extract_npub dec s = Ok npub"
  shows "sublist npub s" and "prefix ''npub1'' npub" and "list_all is_ascii_alphanumeric (drop 5 npub)"
    and "validate_npub dec npub = Ok ()"
proof -
  from assms obtain start where start: "str_find s ''npub1'' = Some start"
    and npub: "npub = take (scan_alphanumeric s (start + 5) - start) (drop start s)"
    and val: "validate_npub dec npub = Ok ()"
    by (auto simp: extract_npub_def Let_def and_then_eq_Ok split: option.splits)
  let ?w = "takeWhile is_ascii_alphanumeric (drop (start + 5) s)"
  from start have "prefix ''npub1'' (drop start s)" using str_find_Some_prefix by blast
  then obtain t where t: "drop start s = ''npub1'' @ t" by (auto simp: prefix_def)
  have "drop (start + 5) s = drop 5 (drop start s)" by (simp add: add.commute)
  with t have t': "drop (start + 5) s = t" by simp
  have n: "npub = ''npub1'' @ takeWhile is_ascii_alphanumeric t"
    using t t' npub by (simp add: scan_alphanumeric_eq take_Cons' takeWhile_eq_take [symmetric])
  show "sublist npub s"
    unfolding npub by (meson sublist_drop sublist_order.order.trans sublist_take)
  show "prefix ''npub1'' npub" using n by simp
  show "list_all is_ascii_alphanumeric (drop 5 npub)"
    using n by (auto simp: list_all_conv_set dest: set_takeWhileD)
  show "validate_npub dec npub = Ok ()" by (rule val)
qed

lemma suffix_git_after:
  assumes "suffix ''.git'' u \<or> suffix ''.git/'' u" and "u = a @ ''/'' @ b"
    and "trim_end_char CHR ''/'' b \<noteq> []"
  shows "suffix ''.git'' (trim_end_char CHR ''/'' b)"
proof -
  obtain n where b: "b = trim_end_char CHR ''/'' b @ replicate n CHR ''/''"
    using trim_end_char_decomp by blast
  define r where "r = trim_end_char CHR ''/'' b"
  have last_r: "last r \<noteq> CHR ''/''" "r \<noteq> []"
    using trim_end_char_ends [of "CHR ''/''" b] assms(3) by (auto simp: r_def)
  have u: "u = (a @ ''/'' @ r) @ replicate n CHR ''/''"
    using assms(2) b r_def by simp
  have "suffix ''.git'' (a @ ''/'' @ r)"
  proof -
    have "trim_end_char CHR ''/'' u = a @ ''/'' @ r"
      using last_r by (simp only: u trim_end_char_replicate) (simp add: trim_end_char_id)
    moreover have "suffix ''.git'' (trim_end_char CHR ''/'' u)"
      using assms(1)
    proof
      assume "suffix ''.git'' u"
      then show ?thesis by (auto simp: suffix_def trim_end_char_def)
    next
      assume "suffix ''.git/'' u"
      then obtain x where "u = x @ ''.git/''" by (auto simp: suffix_def)
      then show ?thesis by (auto simp: suffix_def trim_end_char_def)
    qed
    ultimately show ?thesis by simp
  qed
  then obtain x where x: "a @ ''/'' @ r = x @ ''.git''" by (auto simp: suffix_def)
  have "length ''.git'' \<le> length r"
  proof (rule ccontr)
    assume "\<not> length ''.git'' \<le> length r"
    then have "length r < 4" by simp
    moreover have "0 < length r" using last_r(2) by simp
    ultimately have "length r = 1 \<or> length r = 2 \<or> length r = 3" by linarith
    then show False using x last_r(2)
      by (auto simp: append_eq_append_conv2 length_Suc_conv numeral_eq_Suc Cons_eq_append_conv)
  qed
  then have "suffix ''.git'' r"
    using x by (metis suffix_length_suffix suffix_def append.assoc)
  then show ?thesis by (simp add: r_def)
qed

lemma drop_last_git:
  assumes "suffix ''.git'' s"
  shows "drop_last_bytes s 4 = Some (take (length s - 4) s)"
proof -
  from assms obtain r where "s = r @ ''.git''" by (auto simp: suffix_def)
  then show ?thesis by (simp add: drop_last_bytes_def is_char_boundary_def nth_append)
qed

lemma str_find_split:
  assumes "str_find u p = Some pos"
  shows "u = take pos u @ p @ drop (pos + length p) u"
proof -
  have "prefix p (drop pos u)" using assms str_find_Some_prefix by blast
  then obtain r where r: "drop pos u = p @ r" by (auto simp: prefix_def)
  have "drop (pos + length p) u = drop (length p) (drop pos u)" by (simp add: add.commute)
  with r have "drop (pos + length p) u = r" by simp
  with r show ?thesis by (metis append_take_drop_id)
qed

section \<open>Properties\<close>

text \<open>
  A normalised GRASP server URL never contains the start of an npub and never ends in a slash.\<close>

theorem normalize_grasp_clean:
  assumes "normalize_grasp_server_url url_parse input = Ok r"
  shows "\<not> sublist ''npub1'' r \<and> (r \<noteq> [] \<longrightarrow> last r \<noteq> CHR ''/'')"
proof -
  from assms obtain s where
    r: "r = trim_end_char CHR ''/'' (case str_find s ''npub1'' of Some pos \<Rightarrow> take pos s | None \<Rightarrow> s)"
    by (auto simp: normalize_grasp_server_url_def Let_def and_then_eq_Ok)
  let ?t = "case str_find s ''npub1'' of Some pos \<Rightarrow> take pos s | None \<Rightarrow> s"
  have "\<not> sublist ''npub1'' ?t"
    using truncate_no_npub [of s "''npub1''"] str_find_None [of s "''npub1''"]
    by (cases "str_find s ''npub1''") auto
  moreover have "prefix r ?t" using r by (simp add: trim_end_char_prefix)
  ultimately have "\<not> sublist ''npub1'' r"
    by (meson prefix_imp_sublist sublist_order.order.trans)
  then show ?thesis using r trim_end_char_ends by blast
qed

theorem normalize_grasp_clean_witness:
  "\<exists>url_parse r. normalize_grasp_server_url url_parse ''wss://h/npub1q/x/'' = Ok r \<and> r = ''h'' \<and>
     (\<not> sublist ''npub1'' r \<and> (r \<noteq> [] \<longrightarrow> last r \<noteq> CHR ''/''))"
proof -
  let ?p = "\<lambda>_. Some \<lparr>url_scheme = ''wss'', url_host_str = Some ''h'', url_port = None,
      url_path = ''/npub1q/x/''\<rparr>"
  have ok: "normalize_grasp_server_url ?p ''wss://h/npub1q/x/'' = Ok ''h''"
    by (simp add: normalize_grasp_server_url_def trim_end_char_def)
  show ?thesis using ok normalize_grasp_clean [OF ok] by blast
qed

text \<open>
  The test for a GRASP clone URL never panics on its slices, and when it says yes the URL is
  some prefix, a slash, a valid npub, a slash, a non-empty repository name, \<open>.git\<close> and
  possibly trailing slashes.\<close>

theorem grasp_clone_url_total_sound:
  "\<exists>b. is_grasp_server_clone_url dec u = Some b \<and>
     (b \<longrightarrow> (\<exists>npub a repo n. extract_npub dec u = Ok npub \<and> repo \<noteq> [] \<and>
        u = a @ ''/'' @ npub @ ''/'' @ repo @ ''.git'' @ replicate n CHR ''/''))"
proof (cases "(starts_with u ''http://'' \<or> starts_with u ''https://'') \<and>
    (ends_with u ''.git'' \<or> ends_with u ''.git/'')")
  case False
  then show ?thesis by (auto simp: is_grasp_server_clone_url_def)
next
  case guards: True
  show ?thesis
  proof (cases "extract_npub dec u")
    case (Inl e)
    then show ?thesis by (auto simp: is_grasp_server_clone_url_def)
  next
    case (Inr npub)
    let ?pat = "''/'' @ npub @ ''/''"
    show ?thesis
    proof (cases "str_find u ?pat")
      case None
      then show ?thesis using Inr by (auto simp: is_grasp_server_clone_url_def)
    next
      case (Some pos)
      let ?b = "drop (pos + length ?pat) u"
      let ?r = "trim_end_char CHR ''/'' ?b"
      show ?thesis
      proof (cases "?r = [] \<or> ?r = ''.git''")
        case True
        then show ?thesis using Inr Some guards by (auto simp: is_grasp_server_clone_url_def)
      next
        case False
        have u: "u = take pos u @ ?pat @ ?b" by (rule str_find_split [OF Some])
        then have u': "u = (take pos u @ ''/'' @ npub) @ ''/'' @ ?b" by simp
        have git: "suffix ''.git'' ?r"
          using suffix_git_after [OF _ u'] guards False by (simp add: ends_with_def)
        then obtain repo where repo: "?r = repo @ ''.git''" by (auto simp: suffix_def)
        obtain n where n: "?b = ?r @ replicate n CHR ''/''" using trim_end_char_decomp by blast
        have val: "is_grasp_server_clone_url dec u = Some (repo \<noteq> [])"
          using guards Inr Some False drop_last_git [OF git] repo
          by (simp add: is_grasp_server_clone_url_def Let_def)
        moreover have "u = take pos u @ ''/'' @ npub @ ''/'' @ repo @ ''.git'' @ replicate n CHR ''/''"
          using u n repo by (metis append.assoc)
        ultimately show ?thesis using Inr by blast
      qed
    qed
  qed
qed

theorem grasp_clone_url_total_sound_witness:
  "\<exists>dec. is_grasp_server_clone_url dec ''https://h/npub1q/r.git/'' = Some True \<and>
     (\<exists>b. is_grasp_server_clone_url dec ''https://h/npub1q/r.git/'' = Some b \<and>
       (b \<longrightarrow> (\<exists>npub a repo n. extract_npub dec ''https://h/npub1q/r.git/'' = Ok npub \<and> repo \<noteq> [] \<and>
         ''https://h/npub1q/r.git/'' = a @ ''/'' @ npub @ ''/'' @ repo @ ''.git'' @ replicate n CHR ''/'')))"
proof -
  let ?dec = "\<lambda>_. Some (''npub'', [])"
  have "extract_npub ?dec ''https://h/npub1q/r.git/'' = Ok ''npub1q''"
    by (simp add: extract_npub_def scan_alphanumeric_eq validate_npub_def
        is_ascii_alphanumeric_def is_ascii_digit_def)
  then have "is_grasp_server_clone_url ?dec ''https://h/npub1q/r.git/'' = Some True"
    by (simp add: is_grasp_server_clone_url_def starts_with_def ends_with_def suffix_def
        trim_end_char_def drop_last_bytes_def is_char_boundary_def)
  then show ?thesis using grasp_clone_url_total_sound [of ?dec] by blast
qed

end
