(* ===== verification/Core_Announcement.thy ===== *)
theory Core_Announcement
  imports Core_Grasp
begin

text \<open>
  The repository announcement (kind 30617) of \<open>crates/core/src/nip34.rs\<close>: parsing from tags,
  printing, validation and the GRASP host tests. The loop over the tags is a left fold over a
  record of the function's local variables.
\<close>

section \<open>The announcement\<close>

record repo_announcement =
  ann_identifier :: string
  ann_name :: "string option"
  ann_description :: "string option"
  ann_root_commit :: "string option"
  ann_clone :: "string list"
  ann_web :: "string list"
  ann_relays :: "string list"
  ann_blossoms :: "string list"
  ann_hashtags :: "string list"
  ann_maintainers :: "string list"

record ann_vars =
  av_identifier :: "string option"
  av_name :: "string option"
  av_description :: "string option"
  av_root_commit :: "string option"
  av_clone :: "string list"
  av_web :: "string list"
  av_relays :: "string list"
  av_blossoms :: "string list"
  av_hashtags :: "string list"
  av_maintainers :: "string list"

definition ann_vars_init :: ann_vars where
  "ann_vars_init =
     \<lparr>av_identifier = None, av_name = None, av_description = None, av_root_commit = None,
      av_clone = [], av_web = [], av_relays = [], av_blossoms = [], av_hashtags = [],
      av_maintainers = []\<rparr>"

fun ann_step :: "ann_vars \<Rightarrow> tag \<Rightarrow> ann_vars" where
  "ann_step a [] = a"
| "ann_step a (t # values) =
     (if t = ''d'' \<and> values \<noteq> [] then a\<lparr>av_identifier := Some (hd values)\<rparr>
      else if t = ''name'' \<and> values \<noteq> [] then a\<lparr>av_name := Some (hd values)\<rparr>
      else if t = ''description'' \<and> values \<noteq> [] then a\<lparr>av_description := Some (hd values)\<rparr>
      else if t = ''r'' \<and> length values = 1 then a\<lparr>av_root_commit := Some (hd values)\<rparr>
      else if t = ''r'' \<and> length values = 2 \<and> values ! 1 = ''euc''
        then a\<lparr>av_root_commit := Some (hd values)\<rparr>
      else if t = ''clone'' then a\<lparr>av_clone := extend_unique (av_clone a) values\<rparr>
      else if t = ''web'' then a\<lparr>av_web := extend_unique (av_web a) values\<rparr>
      else if t = ''relays'' then a\<lparr>av_relays := extend_unique (av_relays a) values\<rparr>
      else if t = ''blossoms'' then a\<lparr>av_blossoms := extend_unique (av_blossoms a) values\<rparr>
      else if t = ''maintainers''
        then a\<lparr>av_maintainers := extend_unique (av_maintainers a) values\<rparr>
      else if t = ''t'' \<and> values \<noteq> []
        then a\<lparr>av_hashtags := push_unique (av_hashtags a) (hd values)\<rparr>
      else a)"

definition announcement_from_tags :: "tag list \<Rightarrow> repo_announcement core_result" where
  "announcement_from_tags tags =
     (let a = foldl ann_step ann_vars_init tags in
      and_then (ok_or (MissingField ''d'') (av_identifier a)) (\<lambda>ident.
        Ok \<lparr>ann_identifier = ident, ann_name = av_name a, ann_description = av_description a,
            ann_root_commit = av_root_commit a, ann_clone = av_clone a, ann_web = av_web a,
            ann_relays = av_relays a, ann_blossoms = av_blossoms a,
            ann_hashtags = av_hashtags a, ann_maintainers = av_maintainers a\<rparr>))"

definition opt_tag :: "string \<Rightarrow> string option \<Rightarrow> tag list" where
  "opt_tag name v = (case v of None \<Rightarrow> [] | Some x \<Rightarrow> [[name, x]])"

definition list_tag :: "string \<Rightarrow> string list \<Rightarrow> tag list" where
  "list_tag name values = (if values = [] then [] else [join_tag_values name values])"

definition each_tag :: "string \<Rightarrow> string list \<Rightarrow> tag list" where
  "each_tag name values = map (\<lambda>v. [name, v]) values"

definition announcement_to_tags :: "repo_announcement \<Rightarrow> tag list" where
  "announcement_to_tags a =
     [[''d'', ann_identifier a]] @
     opt_tag ''name'' (ann_name a) @
     opt_tag ''description'' (ann_description a) @
     (case ann_root_commit a of None \<Rightarrow> [] | Some commit \<Rightarrow> [[''r'', commit, ''euc'']]) @
     list_tag ''clone'' (ann_clone a) @
     list_tag ''web'' (ann_web a) @
     list_tag ''relays'' (ann_relays a) @
     list_tag ''blossoms'' (ann_blossoms a) @
     list_tag ''maintainers'' (ann_maintainers a) @
     each_tag ''t'' (ann_hashtags a)"

section \<open>GRASP hosts\<close>

definition normalize_grasp_host_for_compare :: "url_parser \<Rightarrow> string \<Rightarrow> string core_result" where
  "normalize_grasp_host_for_compare url_parse input =
     and_then (normalize_grasp_server_url url_parse input)
       (\<lambda>normalized. Ok (trim_start_str ''http://'' normalized))"

definition lists_grasp_host :: "url_parser \<Rightarrow> repo_announcement \<Rightarrow> string \<Rightarrow> bool core_result" where
  "lists_grasp_host url_parse a host =
     and_then (normalize_grasp_host_for_compare url_parse host) (\<lambda>host.
       Ok (list_ex (\<lambda>normalized. normalized = host)
             (filter_map (\<lambda>u. result_ok (normalize_grasp_host_for_compare url_parse u))
                (ann_relays a))))"

text \<open>The loop of \<open>detect_grasp_servers\<close>, one URL at a time.\<close>

definition detect_step ::
  "url_parser \<Rightarrow> bech32_decoder \<Rightarrow> string list \<Rightarrow> string \<Rightarrow> string list \<Rightarrow> string \<Rightarrow> string list" where
  "detect_step url_parse bech32_decode relays ident servers u =
     (case normalize_grasp_server_url url_parse u of
        Inl _ \<Rightarrow> servers
      | Inr normalized \<Rightarrow>
          (if normalized \<in> set servers then servers
           else
             (let matches_identifier =
                    (case extract_npub bech32_decode u of
                       Inr npub \<Rightarrow> str_contains u (''/'' @ npub @ ''/'' @ ident @ ''.git'')
                     | Inl _ \<Rightarrow> False)
              in if \<not> matches_identifier then servers
                 else if \<not> list_ex (\<lambda>r. r = normalized) relays then servers
                 else servers @ [normalized])))"

definition detect_grasp_servers ::
  "url_parser \<Rightarrow> bech32_decoder \<Rightarrow> string list \<Rightarrow> string list \<Rightarrow> string \<Rightarrow> string list" where
  "detect_grasp_servers url_parse bech32_decode clone_urls relay_urls ident =
     (let relays = filter_map (\<lambda>r. result_ok (normalize_grasp_server_url url_parse r)) relay_urls
      in foldl (detect_step url_parse bech32_decode relays ident) [] clone_urls)"

definition grasp_servers :: "url_parser \<Rightarrow> bech32_decoder \<Rightarrow> repo_announcement \<Rightarrow> string list" where
  "grasp_servers url_parse bech32_decode a =
     detect_grasp_servers url_parse bech32_decode (ann_clone a) (ann_relays a) (ann_identifier a)"

definition maintainer_keys :: "repo_announcement \<Rightarrow> string list" where
  "maintainer_keys a = (if ann_maintainers a = [] then [] else ann_maintainers a)"

section \<open>Validation\<close>

definition is_hex40 :: "string \<Rightarrow> bool" where
  "is_hex40 v \<longleftrightarrow> length v = 40 \<and> list_all is_ascii_hexdigit v"

definition is_hex64 :: "string \<Rightarrow> bool" where
  "is_hex64 v \<longleftrightarrow> length v = 64 \<and> list_all is_ascii_hexdigit v"

definition announcement_validate :: "repo_announcement \<Rightarrow> unit core_result" where
  "announcement_validate a =
     and_then (ensure (\<not> blank (ann_identifier a)) (MissingField ''d'')) (\<lambda>_.
     and_then (ensure_opt is_hex40 (InvalidField ''r'') (ann_root_commit a)) (\<lambda>_.
     and_then (ensure (ann_clone a \<noteq> []) (MissingField ''clone'')) (\<lambda>_.
     and_then (ensure_all (\<lambda>c. \<not> blank c) (InvalidField ''clone'') (ann_clone a)) (\<lambda>_.
     and_then (ensure (ann_relays a \<noteq> []) (MissingField ''relays'')) (\<lambda>_.
     and_then (ensure_all (\<lambda>r. \<not> blank r) (InvalidField ''relays'') (ann_relays a)) (\<lambda>_.
     ensure_all is_hex64 (InvalidField ''maintainers'') (ann_maintainers a)))))))"

section \<open>Round trip\<close>

definition announcement_wf :: "repo_announcement \<Rightarrow> bool" where
  "announcement_wf a \<longleftrightarrow>
     distinct (ann_clone a) \<and> distinct (ann_web a) \<and> distinct (ann_relays a) \<and>
     distinct (ann_blossoms a) \<and> distinct (ann_hashtags a) \<and> distinct (ann_maintainers a)"

definition ann_vars_wf :: "ann_vars \<Rightarrow> bool" where
  "ann_vars_wf a \<longleftrightarrow>
     distinct (av_clone a) \<and> distinct (av_web a) \<and> distinct (av_relays a) \<and>
     distinct (av_blossoms a) \<and> distinct (av_hashtags a) \<and> distinct (av_maintainers a)"

lemma ann_step_wf: "ann_vars_wf a \<Longrightarrow> ann_vars_wf (ann_step a tag)"
  by (cases tag) (auto simp: ann_vars_wf_def)

lemma announcement_from_tags_wf: "announcement_from_tags tags = Ok a \<Longrightarrow> announcement_wf a"
proof -
  assume ok: "announcement_from_tags tags = Ok a"
  have "ann_vars_wf (foldl ann_step ann_vars_init tags)"
  proof (rule foldl_invariant)
    show "ann_vars_wf ann_vars_init" by (simp add: ann_vars_init_def ann_vars_wf_def)
  qed (rule ann_step_wf)
  with ok show ?thesis
    by (auto simp: announcement_from_tags_def ann_vars_wf_def announcement_wf_def Let_def
        and_then_eq_Ok)
qed

lemma foldl_opt_tag:
  "foldl f a (opt_tag name v) = (case v of None \<Rightarrow> a | Some x \<Rightarrow> f a [name, x])"
  by (simp add: opt_tag_def split: option.split)

lemma foldl_list_tag:
  "foldl f a (list_tag name vs) = (if vs = [] then a else f a (name # vs))"
  by (simp add: list_tag_def join_tag_values_def)

lemma foldl_hashtags:
  "foldl ann_step a (each_tag ''t'' hs) = a\<lparr>av_hashtags := extend_unique (av_hashtags a) hs\<rparr>"
  by (induction hs arbitrary: a) (simp_all add: each_tag_def extend_unique_Cons)

lemma announcement_fold_to_tags:
  assumes "announcement_wf a"
  shows "foldl ann_step ann_vars_init (announcement_to_tags a) =
    \<lparr>av_identifier = Some (ann_identifier a), av_name = ann_name a,
     av_description = ann_description a, av_root_commit = ann_root_commit a,
     av_clone = ann_clone a, av_web = ann_web a, av_relays = ann_relays a,
     av_blossoms = ann_blossoms a, av_hashtags = ann_hashtags a,
     av_maintainers = ann_maintainers a\<rparr>"
  using assms
  by (cases "ann_name a"; cases "ann_description a"; cases "ann_root_commit a")
    (simp_all add: announcement_to_tags_def foldl_opt_tag foldl_list_tag foldl_hashtags
      ann_vars_init_def announcement_wf_def extend_unique_self)

lemma announcement_round_trip:
  "announcement_wf a \<Longrightarrow> announcement_from_tags (announcement_to_tags a) = Ok a"
  by (simp add: announcement_from_tags_def announcement_fold_to_tags)

lemma announcement_validate_iff:
  "announcement_validate a = Ok () \<longleftrightarrow>
     \<not> blank (ann_identifier a) \<and> pred_option is_hex40 (ann_root_commit a) \<and>
     ann_clone a \<noteq> [] \<and> list_all (\<lambda>c. \<not> blank c) (ann_clone a) \<and>
     ann_relays a \<noteq> [] \<and> list_all (\<lambda>r. \<not> blank r) (ann_relays a) \<and>
     list_all is_hex64 (ann_maintainers a)"
  by (auto simp: announcement_validate_def result_simps)

end
