(* ===== verification/Core_State.thy ===== *)
theory Core_State
  imports Core_Announcement
begin

text \<open>
  The repository state (kind 30618) of \<open>crates/core/src/nip34.rs\<close>, the matching of a pushed
  reference against it (\<open>git_refs.rs\<close>) and the decision on a push (\<open>git_receive.rs\<close>).
  The \<open>HashMap\<close> of the state is its list of entries in iteration order (see \<open>Rust_Map\<close>).
\<close>

section \<open>The repository state\<close>

record repo_state =
  rs_identifier :: string
  rs_state :: "(string, string) entries"

definition is_state_ref :: "string \<Rightarrow> bool" where
  "is_state_ref name \<longleftrightarrow>
     (name = ''HEAD'' \<or> starts_with name ''refs/heads/'' \<or> starts_with name ''refs/tags'') \<and>
     \<not> ends_with name ''^{}''"

definition is_state_value :: "string \<Rightarrow> bool" where
  "is_state_value v \<longleftrightarrow> is_hex40 v \<or> starts_with v ''ref: refs/''"

definition parse_head_ref :: "string \<Rightarrow> string option" where
  "parse_head_ref v =
     (case strip_prefix v ''ref: '' of
        Some rest \<Rightarrow> Some rest
      | None \<Rightarrow> if starts_with v ''refs/'' then Some v else None)"

definition state_step ::
  "string option \<times> (string, string) entries \<Rightarrow> tag \<Rightarrow> string option \<times> (string, string) entries" where
  "state_step acc tag =
     (case tag of
        t # v # _ \<Rightarrow>
          (if t = ''d'' then (Some v, snd acc)
           else if is_state_ref t \<and> is_state_value v then (fst acc, hm_insert t v (snd acc))
           else acc)
      | _ \<Rightarrow> acc)"

definition repo_state_from_tags :: "tag list \<Rightarrow> repo_state core_result" where
  "repo_state_from_tags tags =
     (let acc = foldl state_step (None, []) tags in
      and_then (ok_or (MissingField ''d'') (fst acc)) (\<lambda>ident.
        Ok \<lparr>rs_identifier = ident, rs_state = snd acc\<rparr>))"

definition repo_state_to_tags :: "repo_state \<Rightarrow> tag list" where
  "repo_state_to_tags s =
     [[''d'', rs_identifier s]] @ map (\<lambda>(key, v). [key, v]) (sort_entries (rs_state s))"

definition head_ref :: "repo_state \<Rightarrow> string option" where
  "head_ref s = Option.bind (map_of (rs_state s) ''HEAD'') parse_head_ref"

definition head_commit :: "repo_state \<Rightarrow> string option" where
  "head_commit s =
     Option.bind (map_of (rs_state s) ''HEAD'') (\<lambda>head.
       case parse_head_ref head of
         Some target \<Rightarrow> map_of (rs_state s) target
       | None \<Rightarrow> if is_hex40 head then Some head else None)"

definition ref_map :: "repo_state \<Rightarrow> (string, string) entries" where
  "ref_map s = filter (\<lambda>(key, _). key \<noteq> ''HEAD'') (rs_state s)"

definition check_state_entry :: "string \<times> string \<Rightarrow> unit core_result" where
  "check_state_entry e =
     and_then (ensure (is_state_ref (fst e)) (InvalidTag ''state'' (fst e))) (\<lambda>_.
     ensure (is_state_value (snd e)) (InvalidTag ''state'' (snd e)))"

definition repo_state_validate :: "repo_state \<Rightarrow> unit core_result" where
  "repo_state_validate s =
     and_then (ensure (\<not> blank (rs_identifier s)) (MissingField ''d'')) (\<lambda>_.
     and_then (try_fold (\<lambda>_. check_state_entry) () (rs_state s)) (\<lambda>_.
     and_then (ensure (rs_state s = [] \<or> map_of (rs_state s) ''HEAD'' \<noteq> None)
        (MissingField ''HEAD'')) (\<lambda>_.
     case map_of (rs_state s) ''HEAD'' of
       None \<Rightarrow> Ok ()
     | Some head \<Rightarrow>
         (case parse_head_ref head of
            None \<Rightarrow> Ok ()
          | Some target \<Rightarrow>
              ensure (map_of (rs_state s) target \<noteq> None) (InvalidTag ''state'' head)))))"

subsection \<open>What the parser establishes\<close>

definition repo_state_wf :: "repo_state \<Rightarrow> bool" where
  "repo_state_wf s \<longleftrightarrow>
     hm_wf (rs_state s) \<and> (\<forall>(k, v) \<in> set (rs_state s). is_state_ref k \<and> is_state_value v)"

lemma set_hm_insert: "set (hm_insert k v m) \<subseteq> insert (k, v) (set m)"
  by (induction m) auto

lemma state_fold_wf:
  "hm_wf (snd (foldl state_step (None, []) tags)) \<and>
   (\<forall>(k, v) \<in> set (snd (foldl state_step (None, []) tags)). is_state_ref k \<and> is_state_value v)"
proof (rule foldl_invariant [where P = "\<lambda>acc. hm_wf (snd acc) \<and>
      (\<forall>(k, v) \<in> set (snd acc). is_state_ref k \<and> is_state_value v)"])
  show "hm_wf (snd (None, [])) \<and> (\<forall>(k, v) \<in> set (snd (None, [])). is_state_ref k \<and> is_state_value v)"
    by (simp add: hm.wf_empty)
next
  fix acc :: "string option \<times> (string, string) entries" and tag
  assume inv: "hm_wf (snd acc) \<and> (\<forall>(k, v) \<in> set (snd acc). is_state_ref k \<and> is_state_value v)"
  show "hm_wf (snd (state_step acc tag)) \<and>
      (\<forall>(k, v) \<in> set (snd (state_step acc tag)). is_state_ref k \<and> is_state_value v)"
  proof (cases "\<exists>t v rest. tag = t # v # rest \<and> t \<noteq> ''d'' \<and> is_state_ref t \<and> is_state_value v")
    case True
    then obtain t v rest where "tag = t # v # rest" "t \<noteq> ''d''" "is_state_ref t" "is_state_value v"
      by blast
    with inv set_hm_insert [of t v "snd acc"] show ?thesis
      by (auto simp: state_step_def hm.wf_put)
  next
    case False
    then have "snd (state_step acc tag) = snd acc"
      by (auto simp: state_step_def split: list.splits)
    with inv show ?thesis by simp
  qed
qed

lemma repo_state_from_tags_wf: "repo_state_from_tags tags = Ok s \<Longrightarrow> repo_state_wf s"
  using state_fold_wf [of tags]
  by (auto simp: repo_state_from_tags_def repo_state_wf_def Let_def and_then_eq_Ok)

lemma try_fold_unit:
  "try_fold (\<lambda>_. f) () xs = Ok u \<longleftrightarrow> (\<forall>x \<in> set xs. f x = Ok ())"
  by (induction xs) (auto split: sum.splits)

lemma check_state_entry_Ok: "check_state_entry e = Ok u \<longleftrightarrow> is_state_ref (fst e) \<and> is_state_value (snd e)"
  by (auto simp: check_state_entry_def result_simps)

lemma repo_state_validate_iff:
  "repo_state_validate s = Ok () \<longleftrightarrow>
     \<not> blank (rs_identifier s) \<and>
     (\<forall>(k, v) \<in> set (rs_state s). is_state_ref k \<and> is_state_value v) \<and>
     (rs_state s = [] \<or> (\<exists>head. map_of (rs_state s) ''HEAD'' = Some head \<and>
        (\<forall>target. parse_head_ref head = Some target \<longrightarrow> map_of (rs_state s) target \<noteq> None)))"
  by (auto simp: repo_state_validate_def result_simps try_fold_unit check_state_entry_Ok
      split: option.splits)

subsection \<open>Round trip\<close>

lemma state_fold_entries:
  assumes "\<forall>(k, v) \<in> set es. is_state_ref k \<and> is_state_value v"
  shows "foldl state_step (i, m) (map (\<lambda>(k, v). [k, v]) es) =
    (i, foldl (\<lambda>m (k, v). hm_insert k v m) m es)"
proof -
  have d: "\<not> is_state_ref ''d''"
    by (simp add: is_state_ref_def starts_with_def)
  show ?thesis using assms d
    by (induction es arbitrary: m) (auto simp: state_step_def)
qed

lemma foldl_hm_insert:
  assumes "distinct (map fst es)"
  shows "hm_wf m \<Longrightarrow> hm_wf (foldl (\<lambda>m (k, v). hm_insert k v m) m es) \<and>
     map_of (foldl (\<lambda>m (k, v). hm_insert k v m) m es) = map_of m ++ map_of es"
  using assms
proof (induction es arbitrary: m)
  case Nil
  then show ?case by simp
next
  case (Cons e es)
  obtain k v where e: "e = (k, v)" by (cases e)
  from Cons.prems e have fresh: "map_of es k = None"
    by (force simp: map_of_eq_None_iff)
  let ?f = "foldl (\<lambda>m (k, v). hm_insert k v m) (hm_insert k v m) es"
  have "hm_wf (hm_insert k v m)" using Cons.prems by (simp add: hm.wf_put)
  then have "hm_wf ?f" and "map_of ?f = map_of (hm_insert k v m) ++ map_of es"
    using Cons by simp_all
  moreover have "map_of (hm_insert k v m) ++ map_of es = map_of m ++ map_of (e # es)"
    using fresh e Cons.prems(1) by (auto simp: hm.get_put map_add_def fun_eq_iff split: option.split)
  ultimately show ?case by (simp only: foldl_Cons e prod.case simp_thms)
qed

definition same_state :: "repo_state \<Rightarrow> repo_state \<Rightarrow> bool" where
  "same_state s s' \<longleftrightarrow>
     rs_identifier s = rs_identifier s' \<and> map_of (rs_state s) = map_of (rs_state s')"

lemma repo_state_round_trip:
  assumes "repo_state_wf s"
  shows "\<exists>s'. repo_state_from_tags (repo_state_to_tags s) = Ok s' \<and> repo_state_wf s' \<and> same_state s s'"
proof -
  let ?es = "sort_entries (rs_state s)"
  let ?m = "foldl (\<lambda>m (k, v). hm_insert k v m) [] ?es"
  have ok: "\<forall>(k, v) \<in> set ?es. is_state_ref k \<and> is_state_value v"
    using assms by (auto simp: sort_entries_def repo_state_wf_def)
  have "foldl state_step (None, []) (repo_state_to_tags s) = (Some (rs_identifier s), ?m)"
    using state_fold_entries [OF ok, of "Some (rs_identifier s)" "[]"]
    by (simp add: repo_state_to_tags_def state_step_def)
  then have parsed: "repo_state_from_tags (repo_state_to_tags s) =
      Ok \<lparr>rs_identifier = rs_identifier s, rs_state = ?m\<rparr>"
    by (simp add: repo_state_from_tags_def)
  have "hm_wf (rs_state s)" using assms by (simp add: repo_state_wf_def)
  then have "map_of ?m = map_of (rs_state s)"
    using foldl_hm_insert [OF bt_wf_distinct [OF sort_entries_wf], of "rs_state s" "[]"]
    by (simp add: hm.wf_empty map_of_sort_entries)
  then have "same_state s \<lparr>rs_identifier = rs_identifier s, rs_state = ?m\<rparr>"
    by (simp add: same_state_def)
  with parsed repo_state_from_tags_wf show ?thesis by blast
qed

lemma same_state_to_tags:
  assumes "same_state s s'" and "hm_wf (rs_state s)" and "hm_wf (rs_state s')"
  shows "repo_state_to_tags s = repo_state_to_tags s'"
proof -
  have "sort_entries (rs_state s) = sort_entries (rs_state s')"
    using assms by (intro bt_ext) (simp_all add: sort_entries_wf map_of_sort_entries same_state_def)
  with assms(1) show ?thesis by (simp add: repo_state_to_tags_def same_state_def)
qed

lemma same_state_wf_to_tags:
  "repo_state_wf s \<Longrightarrow> repo_state_wf s' \<Longrightarrow> same_state s s' \<Longrightarrow>
   repo_state_to_tags s = repo_state_to_tags s'"
  by (rule same_state_to_tags) (simp_all add: repo_state_wf_def)

lemma same_state_validate:
  assumes "same_state s s'" and "repo_state_wf s" and "repo_state_wf s'"
    and "repo_state_validate s = Ok ()"
  shows "repo_state_validate s' = Ok ()"
proof -
  have "rs_state s = [] \<longleftrightarrow> rs_state s' = []"
    using assms(1) by (metis same_state_def map_of_eq_empty_iff)
  with assms show ?thesis
    by (auto simp: repo_state_validate_iff same_state_def repo_state_wf_def)
qed

end
