(* ===== verification/Core_Receive.thy ===== *)
theory Core_Receive
  imports Core_State
begin

text \<open>
  \<open>crates/core/src/git_refs.rs\<close> and \<open>git_receive.rs\<close>: what a push may do to the references of
  a repository. A decision is wrapped in \<open>option\<close>, where \<open>None\<close> is the panic of a byte slice
  that ends inside a character (\<open>short_hash\<close>).
\<close>

section \<open>Matching a reference against the state\<close>

definition HEADS_PREFIX :: string where "HEADS_PREFIX = ''refs/heads/''"
definition TAGS_PREFIX :: string where "TAGS_PREFIX = ''refs/tags/''"
definition PR_PREFIX :: string where "PR_PREFIX = ''refs/heads/pr/''"
definition HEAD_REF :: string where "HEAD_REF = ''HEAD''"

datatype state_ref_match = Match | Missing | Mismatch string | Unsupported

definition is_branch_ref :: "string \<Rightarrow> bool" where
  "is_branch_ref name \<longleftrightarrow> starts_with name HEADS_PREFIX"

definition is_tag_ref :: "string \<Rightarrow> bool" where
  "is_tag_ref name \<longleftrightarrow> starts_with name TAGS_PREFIX"

definition is_pr_branch_ref :: "string \<Rightarrow> bool" where
  "is_pr_branch_ref name \<longleftrightarrow> starts_with name PR_PREFIX"

definition is_head_ref :: "string \<Rightarrow> bool" where
  "is_head_ref name \<longleftrightarrow> name = HEAD_REF"

definition resolve_ref_value :: "string \<Rightarrow> (string, string) entries \<Rightarrow> string option" where
  "resolve_ref_value v st =
     (case strip_prefix v ''ref: '' of
        Some target \<Rightarrow> map_of st target
      | None \<Rightarrow> Some v)"

definition match_state_ref :: "string \<Rightarrow> string \<Rightarrow> repo_state \<Rightarrow> state_ref_match" where
  "match_state_ref ref_name new_rev s =
     (if \<not> is_branch_ref ref_name \<and> \<not> is_tag_ref ref_name \<and> \<not> is_head_ref ref_name
      then Unsupported
      else
        (case map_of (rs_state s) ref_name of
           None \<Rightarrow> Missing
         | Some expected \<Rightarrow>
             (case resolve_ref_value expected (rs_state s) of
                Some v \<Rightarrow> (if v = new_rev then Match else Mismatch v)
              | None \<Rightarrow> Missing)))"

section \<open>The decision on a push\<close>

record ref_update =
  old_rev :: string
  new_rev :: string
  ref_name :: string

datatype update_decision = Accept | Reject string

definition short_hash :: "string \<Rightarrow> string option" where
  "short_hash v =
     (let len = min (length v) 7 in if is_char_boundary v len then Some (take len v) else None)"

definition mismatch_reason :: "string \<Rightarrow> string \<Rightarrow> string \<Rightarrow> string option" where
  "mismatch_reason name new expected =
     Option.bind (short_hash new) (\<lambda>n. Option.bind (short_hash expected) (\<lambda>e.
       Some (''cannot push '' @ name @ '' to '' @ n @ '' as nostr state event is at '' @ e)))"

definition evaluate_ref_update :: "ref_update \<Rightarrow> repo_state option \<Rightarrow> update_decision option" where
  "evaluate_ref_update u st =
     (if starts_with (ref_name u) ''refs/nostr/'' then
        Some (if is_nostr_ref_name (ref_name u) then Accept
              else Reject ''refs/nostr/<event-id> must use a valid event id'')
      else
        (case st of
           None \<Rightarrow> Some (Reject ''state event not available; cannot validate non-nostr refs'')
         | Some s \<Rightarrow>
             (case repo_state_validate s of
                Inl err \<Rightarrow> Some (Reject (''invalid repo state: '' @ core_error_display err))
              | Inr _ \<Rightarrow>
                  (if is_pr_branch_ref (ref_name u)
                   then Some (Reject ''refs/heads/pr/* must be pushed via nostr'')
                   else
                     (case match_state_ref (ref_name u) (new_rev u) s of
                        Match \<Rightarrow> Some Accept
                      | Missing \<Rightarrow> Some (Reject (ref_name u @ '' not found in nostr state event''))
                      | Mismatch expected \<Rightarrow>
                          map_option Reject (mismatch_reason (ref_name u) (new_rev u) expected)
                      | Unsupported \<Rightarrow> Some (Reject (''unsupported ref '' @ ref_name u)))))))"

primrec evaluate_each :: "ref_update list \<Rightarrow> repo_state option \<Rightarrow> update_decision option" where
  "evaluate_each [] st = Some Accept"
| "evaluate_each (u # us) st =
     (case evaluate_ref_update u st of
        None \<Rightarrow> None
      | Some (Reject reason) \<Rightarrow> Some (Reject reason)
      | Some Accept \<Rightarrow> evaluate_each us st)"

definition evaluate_updates :: "ref_update list \<Rightarrow> repo_state option \<Rightarrow> update_decision option" where
  "evaluate_updates updates st =
     (case st of
        None \<Rightarrow> evaluate_each updates None
      | Some s \<Rightarrow>
          (case repo_state_validate s of
             Inl err \<Rightarrow> Some (Reject (''invalid repo state: '' @ core_error_display err))
           | Inr _ \<Rightarrow> evaluate_each updates (Some s)))"

section \<open>Lemmas\<close>

text \<open>What a single update must satisfy: the contract of the pre-receive decision.\<close>

definition ref_update_allowed :: "ref_update \<Rightarrow> repo_state option \<Rightarrow> bool" where
  "ref_update_allowed u st \<longleftrightarrow>
     (\<exists>i. ref_name u = ''refs/nostr/'' @ i \<and> is_hex_len i 64) \<or>
     (\<not> prefix ''refs/nostr/'' (ref_name u) \<and> \<not> prefix ''refs/heads/pr/'' (ref_name u) \<and>
      (prefix ''refs/heads/'' (ref_name u) \<or> prefix ''refs/tags/'' (ref_name u) \<or>
       ref_name u = ''HEAD'') \<and>
      (\<exists>s v. st = Some s \<and> repo_state_validate s = Ok () \<and>
         map_of (rs_state s) (ref_name u) = Some v \<and>
         resolve_ref_value v (rs_state s) = Some (new_rev u)))"

lemma match_state_ref_Match:
  "match_state_ref name new s = Match \<longleftrightarrow>
     (is_branch_ref name \<or> is_tag_ref name \<or> is_head_ref name) \<and>
     (\<exists>v. map_of (rs_state s) name = Some v \<and> resolve_ref_value v (rs_state s) = Some new)"
  by (auto simp: match_state_ref_def split: option.split)

lemma evaluate_ref_update_Accept:
  "evaluate_ref_update u st = Some Accept \<longleftrightarrow> ref_update_allowed u st"
proof (cases "starts_with (ref_name u) ''refs/nostr/''")
  case True
  then show ?thesis
    by (auto simp: evaluate_ref_update_def ref_update_allowed_def is_nostr_ref_name_iff
        starts_with_def)
next
  case False
  then have no: "\<nexists>i. ref_name u = ''refs/nostr/'' @ i"
    by (auto simp: starts_with_def)
  show ?thesis
  proof (cases st)
    case None
    with False no show ?thesis by (auto simp: evaluate_ref_update_def ref_update_allowed_def)
  next
    case (Some s)
    show ?thesis
    proof (cases "repo_state_validate s")
      case (Inl e)
      with Some False no show ?thesis
        by (auto simp: evaluate_ref_update_def ref_update_allowed_def)
    next
      case (Inr v)
      have "evaluate_ref_update u st = Some Accept \<longleftrightarrow>
          \<not> is_pr_branch_ref (ref_name u) \<and> match_state_ref (ref_name u) (new_rev u) s = Match"
        using Some Inr False by (auto simp: evaluate_ref_update_def split: state_ref_match.split)
      then show ?thesis
        using Some Inr False no
        by (auto simp: ref_update_allowed_def match_state_ref_Match is_pr_branch_ref_def
            is_branch_ref_def is_tag_ref_def is_head_ref_def starts_with_def PR_PREFIX_def
            HEADS_PREFIX_def TAGS_PREFIX_def HEAD_REF_def)
    qed
  qed
qed

lemma evaluate_each_Accept:
  "evaluate_each us st = Some Accept \<longleftrightarrow> (\<forall>u \<in> set us. ref_update_allowed u st)"
  by (induction us)
    (auto simp flip: evaluate_ref_update_Accept split: option.splits update_decision.splits)

lemma is_char_boundary_ascii: "is_ascii s \<Longrightarrow> i \<le> length s \<Longrightarrow> is_char_boundary s i"
  unfolding is_char_boundary_def is_ascii_def list_all_length
  by (metis le_neq_implies_less not_le)

lemma hexdigit_ascii: "is_ascii_hexdigit c \<Longrightarrow> byte c < 128"
  by (auto simp: is_ascii_hexdigit_def is_ascii_digit_def)

lemma short_hash_ascii: "is_ascii v \<Longrightarrow> short_hash v = Some (take 7 v)"
  by (auto simp: short_hash_def Let_def is_char_boundary_ascii min_def)

lemma short_hash_state_value:
  assumes "is_state_value v"
  shows "\<exists>h. short_hash v = Some h"
proof (cases "is_hex40 v")
  case True
  then have "is_ascii v" by (auto simp: is_ascii_def is_hex40_def list_all_conv_set hexdigit_ascii)
  then show ?thesis by (simp add: short_hash_ascii)
next
  case False
  with assms obtain r where "v = ''ref: refs/'' @ r"
    by (auto simp: is_state_value_def starts_with_def prefix_def)
  then show ?thesis by (simp add: short_hash_def is_char_boundary_def numeral_eq_Suc)
qed

lemma resolve_state_value:
  assumes "repo_state_validate s = Ok ()" and "map_of (rs_state s) name = Some v"
    and "resolve_ref_value v (rs_state s) = Some w"
  shows "is_state_value w"
proof -
  from assms(1) have all: "\<forall>(k, v) \<in> set (rs_state s). is_state_ref k \<and> is_state_value v"
    by (simp add: repo_state_validate_iff)
  have "\<exists>k. (k, w) \<in> set (rs_state s)"
    using assms(2,3) by (auto simp: resolve_ref_value_def split: option.splits dest: map_of_SomeD)
  with all show ?thesis by blast
qed

lemma evaluate_ref_update_total:
  assumes "is_ascii (new_rev u)"
  shows "\<exists>d. evaluate_ref_update u st = Some d"
proof (cases "\<exists>s w. st = Some s \<and> \<not> starts_with (ref_name u) ''refs/nostr/'' \<and>
    repo_state_validate s = Ok () \<and> match_state_ref (ref_name u) (new_rev u) s = Mismatch w")
  case True
  then obtain s w where s: "st = Some s" "repo_state_validate s = Ok ()"
    and w: "match_state_ref (ref_name u) (new_rev u) s = Mismatch w"
    by blast
  from w have "is_state_value w"
    using resolve_state_value [OF s(2)]
    by (auto simp: match_state_ref_def split: if_splits option.splits)
  then obtain h where "short_hash w = Some h" using short_hash_state_value by blast
  then show ?thesis
    using s w assms
    by (auto simp: evaluate_ref_update_def mismatch_reason_def short_hash_ascii)
next
  case False
  then show ?thesis
    by (auto simp: evaluate_ref_update_def split: option.splits sum.splits state_ref_match.splits)
qed

section \<open>Properties\<close>

text \<open>
  C5: a batch of reference updates is accepted exactly when the state event, if there is one, is
  valid and every single update is allowed: it pushes a nostr reference with a 64-digit event id, or
  it pushes HEAD, a tag or a branch outside the pull-request namespace to exactly the commit the
  state event records for it (one symbolic level resolved).\<close>

theorem evaluate_updates_accept_iff:
  "evaluate_updates us st = Some Accept \<longleftrightarrow>
     (\<forall>s. st = Some s \<longrightarrow> repo_state_validate s = Ok ()) \<and> (\<forall>u \<in> set us. ref_update_allowed u st)"
  by (auto simp: evaluate_updates_def evaluate_each_Accept split: option.splits sum.splits)

abbreviation sample_commit :: string where
  "sample_commit \<equiv> replicate 40 CHR ''a''"

abbreviation sample_state :: repo_state where
  "sample_state \<equiv> \<lparr>rs_identifier = ''repo'',
     rs_state = [(''HEAD'', ''ref: refs/heads/main''), (''refs/heads/main'', sample_commit)]\<rparr>"

lemma sample_identifier: "\<not> blank ''repo''"
  by (rule not_blank_lead) simp_all

lemma sample_state_valid: "repo_state_validate sample_state = Ok ()"
  using sample_identifier
  by (auto simp: repo_state_validate_iff is_state_ref_def is_state_value_def
      starts_with_def ends_with_def suffix_def is_hex40_def parse_head_ref_def strip_prefix_def
      is_ascii_hexdigit_def list_all_conv_set Cons_eq_append_conv)

lemma sample_commit_not_ref: "strip_prefix sample_commit ''ref: '' = None"
  by (simp add: strip_prefix_def numeral_eq_Suc)

theorem evaluate_updates_accept_witness:
  "evaluate_updates
     [\<lparr>old_rev = ''0'', new_rev = sample_commit, ref_name = ''refs/heads/main''\<rparr>]
     (Some sample_state) = Some Accept"
  by (subst evaluate_updates_accept_iff)
    (use sample_state_valid sample_commit_not_ref in
      \<open>auto simp: ref_update_allowed_def resolve_ref_value_def\<close>)

text \<open>
  The decision on a push of revisions written in ASCII (git writes hexadecimal object names) never
  panics: with or without a state event, valid or not, it accepts or gives a reason.\<close>

theorem evaluate_updates_total:
  assumes "\<forall>u \<in> set us. is_ascii (new_rev u)"
  shows "\<exists>d. evaluate_updates us st = Some d"
proof -
  have "\<exists>d. evaluate_each us st' = Some d" for st'
    using assms
  proof (induction us)
    case Nil
    then show ?case by simp
  next
    case (Cons u us)
    then obtain d where "evaluate_ref_update u st' = Some d"
      using evaluate_ref_update_total by (metis list.set_intros(1))
    with Cons show ?case by (cases d) auto
  qed
  then show ?thesis
    by (auto simp: evaluate_updates_def split: option.split sum.split)
qed

theorem evaluate_updates_total_witness:
  "\<exists>d. evaluate_updates
     [\<lparr>old_rev = '''', new_rev = ''beef'', ref_name = ''refs/heads/main''\<rparr>] (Some sample_state) = Some d"
  by (rule evaluate_updates_total) (simp add: is_ascii_def)

end
