(* ===== verification/Core_Proposals.thy ===== *)
theory Core_Proposals
  imports Core_Announcement
begin

text \<open>
  Issues (\<open>nip34_issues.rs\<close>), pull requests and their updates (\<open>nip34_proposals.rs\<close>) and the
  user's GRASP list (\<open>nip34_grasp_list.rs\<close>): parsing from tags, printing, validation, and the
  round trip between the two.
\<close>

section \<open>Issues\<close>

record issue =
  iss_repo_address :: string
  iss_mentions :: "string list"
  iss_subject :: "string option"
  iss_labels :: "string list"

record issue_vars =
  iv_repo_address :: "string option"
  iv_mentions :: "string list"
  iv_subject :: "string option"
  iv_labels :: "string list"

definition issue_vars_init :: issue_vars where
  "issue_vars_init =
     \<lparr>iv_repo_address = None, iv_mentions = [], iv_subject = None, iv_labels = []\<rparr>"

fun issue_step :: "issue_vars \<Rightarrow> tag \<Rightarrow> issue_vars" where
  "issue_step a (t # v # rest) =
     (if t = ''a'' then a\<lparr>iv_repo_address := Some v\<rparr>
      else if t = ''p'' then a\<lparr>iv_mentions := push_unique (iv_mentions a) v\<rparr>
      else if t = ''subject'' then a\<lparr>iv_subject := Some v\<rparr>
      else if t = ''t'' then a\<lparr>iv_labels := push_unique (iv_labels a) v\<rparr>
      else a)"
| "issue_step a tag = a"

definition issue_from_tags :: "tag list \<Rightarrow> issue core_result" where
  "issue_from_tags tags =
     (let a = foldl issue_step issue_vars_init tags in
      and_then (ok_or (MissingField ''a'') (iv_repo_address a)) (\<lambda>addr.
        Ok \<lparr>iss_repo_address = addr, iss_mentions = iv_mentions a, iss_subject = iv_subject a,
            iss_labels = iv_labels a\<rparr>))"

definition issue_to_tags :: "issue \<Rightarrow> tag list" where
  "issue_to_tags i =
     [[''a'', iss_repo_address i]] @
     each_tag ''p'' (iss_mentions i) @
     opt_tag ''subject'' (iss_subject i) @
     each_tag ''t'' (iss_labels i)"

definition issue_validate :: "issue \<Rightarrow> unit core_result" where
  "issue_validate i =
     and_then (validate_repo_address (iss_repo_address i)) (\<lambda>_.
     and_then (ensure_all (\<lambda>m. is_hex_len m HEX_PUBKEY_LEN) (InvalidField ''p'') (iss_mentions i)) (\<lambda>_.
     and_then (ensure_opt (\<lambda>s. \<not> blank s) (InvalidField ''subject'') (iss_subject i)) (\<lambda>_.
     ensure_all (\<lambda>l. \<not> blank l) (InvalidField ''t'') (iss_labels i))))"

definition issue_wf :: "issue \<Rightarrow> bool" where
  "issue_wf i \<longleftrightarrow> distinct (iss_mentions i) \<and> distinct (iss_labels i)"

lemma issue_step_wf:
  "distinct (iv_mentions a) \<and> distinct (iv_labels a) \<Longrightarrow>
   distinct (iv_mentions (issue_step a tag)) \<and> distinct (iv_labels (issue_step a tag))"
  by (induction a tag rule: issue_step.induct) auto

lemma issue_from_tags_wf: "issue_from_tags tags = Ok i \<Longrightarrow> issue_wf i"
proof -
  assume ok: "issue_from_tags tags = Ok i"
  let ?a = "foldl issue_step issue_vars_init tags"
  have "distinct (iv_mentions ?a) \<and> distinct (iv_labels ?a)"
  proof (rule foldl_invariant)
    show "distinct (iv_mentions issue_vars_init) \<and> distinct (iv_labels issue_vars_init)"
      by (simp add: issue_vars_init_def)
  qed (rule issue_step_wf)
  with ok show ?thesis by (auto simp: issue_from_tags_def issue_wf_def Let_def and_then_eq_Ok)
qed

lemma issue_fold_each:
  "foldl issue_step a (each_tag ''p'' vs) = a\<lparr>iv_mentions := extend_unique (iv_mentions a) vs\<rparr>"
  "foldl issue_step a (each_tag ''t'' vs) = a\<lparr>iv_labels := extend_unique (iv_labels a) vs\<rparr>"
  by (induction vs arbitrary: a) (simp_all add: each_tag_def extend_unique_Cons)

lemma issue_round_trip: "issue_wf i \<Longrightarrow> issue_from_tags (issue_to_tags i) = Ok i"
  by (simp add: issue_from_tags_def issue_to_tags_def issue_fold_each foldl_opt_tag
      issue_vars_init_def issue_wf_def extend_unique_self split: option.split)

section \<open>Pull requests\<close>

record pull_request =
  pr_repo_address :: string
  pr_repo_refs :: "string list"
  pr_mentions :: "string list"
  pr_subject :: "string option"
  pr_labels :: "string list"
  pr_tip_commit :: string
  pr_clone :: "string list"
  pr_branch_name :: "string option"
  pr_revision_of :: "string option"
  pr_merge_base :: "string option"

record pr_vars =
  pv_repo_address :: "string option"
  pv_repo_refs :: "string list"
  pv_mentions :: "string list"
  pv_subject :: "string option"
  pv_labels :: "string list"
  pv_tip_commit :: "string option"
  pv_clone :: "string list"
  pv_branch_name :: "string option"
  pv_revision_of :: "string option"
  pv_merge_base :: "string option"

definition pr_vars_init :: pr_vars where
  "pr_vars_init =
     \<lparr>pv_repo_address = None, pv_repo_refs = [], pv_mentions = [], pv_subject = None,
      pv_labels = [], pv_tip_commit = None, pv_clone = [], pv_branch_name = None,
      pv_revision_of = None, pv_merge_base = None\<rparr>"

fun pr_step :: "pr_vars \<Rightarrow> tag \<Rightarrow> pr_vars" where
  "pr_step a [] = a"
| "pr_step a (t # values) =
     (if t = ''a'' \<and> values \<noteq> [] then a\<lparr>pv_repo_address := Some (hd values)\<rparr>
      else if t = ''r'' \<and> values \<noteq> [] then a\<lparr>pv_repo_refs := push_unique (pv_repo_refs a) (hd values)\<rparr>
      else if t = ''p'' \<and> values \<noteq> [] then a\<lparr>pv_mentions := push_unique (pv_mentions a) (hd values)\<rparr>
      else if t = ''subject'' \<and> values \<noteq> [] then a\<lparr>pv_subject := Some (hd values)\<rparr>
      else if t = ''t'' \<and> values \<noteq> [] then a\<lparr>pv_labels := push_unique (pv_labels a) (hd values)\<rparr>
      else if t = ''c'' \<and> values \<noteq> [] then a\<lparr>pv_tip_commit := Some (hd values)\<rparr>
      else if t = ''clone'' then a\<lparr>pv_clone := extend_unique (pv_clone a) values\<rparr>
      else if t = ''branch-name'' \<and> values \<noteq> [] then a\<lparr>pv_branch_name := Some (hd values)\<rparr>
      else if t = ''e'' \<and> values \<noteq> [] then a\<lparr>pv_revision_of := Some (hd values)\<rparr>
      else if t = ''merge-base'' \<and> values \<noteq> [] then a\<lparr>pv_merge_base := Some (hd values)\<rparr>
      else a)"

definition pull_request_from_tags :: "tag list \<Rightarrow> pull_request core_result" where
  "pull_request_from_tags tags =
     (let a = foldl pr_step pr_vars_init tags in
      and_then (ok_or (MissingField ''a'') (pv_repo_address a)) (\<lambda>addr.
      and_then (ok_or (MissingField ''c'') (pv_tip_commit a)) (\<lambda>tip.
        Ok \<lparr>pr_repo_address = addr, pr_repo_refs = pv_repo_refs a, pr_mentions = pv_mentions a,
            pr_subject = pv_subject a, pr_labels = pv_labels a, pr_tip_commit = tip,
            pr_clone = pv_clone a, pr_branch_name = pv_branch_name a,
            pr_revision_of = pv_revision_of a, pr_merge_base = pv_merge_base a\<rparr>)))"

definition pull_request_to_tags :: "pull_request \<Rightarrow> tag list" where
  "pull_request_to_tags p =
     [[''a'', pr_repo_address p]] @
     each_tag ''r'' (pr_repo_refs p) @
     each_tag ''p'' (pr_mentions p) @
     opt_tag ''subject'' (pr_subject p) @
     each_tag ''t'' (pr_labels p) @
     [[''c'', pr_tip_commit p]] @
     list_tag ''clone'' (pr_clone p) @
     opt_tag ''branch-name'' (pr_branch_name p) @
     opt_tag ''e'' (pr_revision_of p) @
     opt_tag ''merge-base'' (pr_merge_base p)"

definition pull_request_validate :: "pull_request \<Rightarrow> unit core_result" where
  "pull_request_validate p =
     and_then (validate_repo_address (pr_repo_address p)) (\<lambda>_.
     and_then (ensure (\<not> blank (pr_tip_commit p)) (MissingField ''c'')) (\<lambda>_.
     and_then (ensure (is_hex_hash (pr_tip_commit p)) (InvalidField ''c'' (pr_tip_commit p))) (\<lambda>_.
     and_then (ensure (pr_clone p \<noteq> []) (MissingField ''clone'')) (\<lambda>_.
     and_then (ensure_all (\<lambda>c. \<not> blank c) (InvalidField ''clone'') (pr_clone p)) (\<lambda>_.
     and_then (ensure_all is_hex_hash (InvalidField ''r'') (pr_repo_refs p)) (\<lambda>_.
     and_then (ensure_all (\<lambda>m. is_hex_len m HEX_PUBKEY_LEN) (InvalidField ''p'') (pr_mentions p)) (\<lambda>_.
     and_then (ensure_opt (\<lambda>s. \<not> blank s) (InvalidField ''subject'') (pr_subject p)) (\<lambda>_.
     and_then (ensure_opt (\<lambda>b. \<not> blank b) (InvalidField ''branch-name'') (pr_branch_name p)) (\<lambda>_.
     and_then (ensure_opt (\<lambda>r. is_hex_len r HEX_EVENT_ID_LEN) (InvalidField ''e'') (pr_revision_of p)) (\<lambda>_.
     ensure_opt is_hex_hash (InvalidField ''merge-base'') (pr_merge_base p)))))))))))"

definition pull_request_wf :: "pull_request \<Rightarrow> bool" where
  "pull_request_wf p \<longleftrightarrow>
     distinct (pr_repo_refs p) \<and> distinct (pr_mentions p) \<and> distinct (pr_labels p) \<and>
     distinct (pr_clone p)"

definition pr_vars_wf :: "pr_vars \<Rightarrow> bool" where
  "pr_vars_wf a \<longleftrightarrow>
     distinct (pv_repo_refs a) \<and> distinct (pv_mentions a) \<and> distinct (pv_labels a) \<and>
     distinct (pv_clone a)"

lemma pr_step_wf: "pr_vars_wf a \<Longrightarrow> pr_vars_wf (pr_step a tag)"
  by (cases tag) (auto simp: pr_vars_wf_def)

lemma pull_request_from_tags_wf: "pull_request_from_tags tags = Ok p \<Longrightarrow> pull_request_wf p"
proof -
  assume ok: "pull_request_from_tags tags = Ok p"
  have "pr_vars_wf (foldl pr_step pr_vars_init tags)"
  proof (rule foldl_invariant)
    show "pr_vars_wf pr_vars_init" by (simp add: pr_vars_init_def pr_vars_wf_def)
  qed (rule pr_step_wf)
  with ok show ?thesis
    by (auto simp: pull_request_from_tags_def pr_vars_wf_def pull_request_wf_def Let_def
        and_then_eq_Ok)
qed

lemma pr_fold_each:
  "foldl pr_step a (each_tag ''r'' vs) = a\<lparr>pv_repo_refs := extend_unique (pv_repo_refs a) vs\<rparr>"
  "foldl pr_step a (each_tag ''p'' vs) = a\<lparr>pv_mentions := extend_unique (pv_mentions a) vs\<rparr>"
  "foldl pr_step a (each_tag ''t'' vs) = a\<lparr>pv_labels := extend_unique (pv_labels a) vs\<rparr>"
  by (induction vs arbitrary: a) (simp_all add: each_tag_def extend_unique_Cons)

lemma pull_request_fold:
  "foldl pr_step pr_vars_init (pull_request_to_tags p) =
    \<lparr>pv_repo_address = Some (pr_repo_address p),
     pv_repo_refs = extend_unique [] (pr_repo_refs p),
     pv_mentions = extend_unique [] (pr_mentions p), pv_subject = pr_subject p,
     pv_labels = extend_unique [] (pr_labels p), pv_tip_commit = Some (pr_tip_commit p),
     pv_clone = extend_unique [] (pr_clone p), pv_branch_name = pr_branch_name p,
     pv_revision_of = pr_revision_of p, pv_merge_base = pr_merge_base p\<rparr>"
  by (simp add: pull_request_to_tags_def pr_fold_each foldl_opt_tag foldl_list_tag
      pr_vars_init_def split: option.split)

lemma pull_request_round_trip:
  "pull_request_wf p \<Longrightarrow> pull_request_from_tags (pull_request_to_tags p) = Ok p"
  by (simp add: pull_request_from_tags_def pull_request_fold pull_request_wf_def extend_unique_self)

section \<open>Pull request updates\<close>

record pull_request_update =
  pru_repo_address :: string
  pru_repo_refs :: "string list"
  pru_mentions :: "string list"
  pru_root_event_id :: string
  pru_root_author :: string
  pru_tip_commit :: string
  pru_clone :: "string list"
  pru_merge_base :: "string option"

record pru_vars =
  puv_repo_address :: "string option"
  puv_repo_refs :: "string list"
  puv_mentions :: "string list"
  puv_root_event_id :: "string option"
  puv_root_author :: "string option"
  puv_tip_commit :: "string option"
  puv_clone :: "string list"
  puv_merge_base :: "string option"

definition pru_vars_init :: pru_vars where
  "pru_vars_init =
     \<lparr>puv_repo_address = None, puv_repo_refs = [], puv_mentions = [], puv_root_event_id = None,
      puv_root_author = None, puv_tip_commit = None, puv_clone = [], puv_merge_base = None\<rparr>"

fun pru_step :: "pru_vars \<Rightarrow> tag \<Rightarrow> pru_vars" where
  "pru_step a [] = a"
| "pru_step a (t # values) =
     (if t = ''a'' \<and> values \<noteq> [] then a\<lparr>puv_repo_address := Some (hd values)\<rparr>
      else if t = ''r'' \<and> values \<noteq> [] then a\<lparr>puv_repo_refs := push_unique (puv_repo_refs a) (hd values)\<rparr>
      else if t = ''p'' \<and> values \<noteq> [] then a\<lparr>puv_mentions := push_unique (puv_mentions a) (hd values)\<rparr>
      else if t = ''E'' \<and> values \<noteq> [] then a\<lparr>puv_root_event_id := Some (hd values)\<rparr>
      else if t = ''P'' \<and> values \<noteq> [] then a\<lparr>puv_root_author := Some (hd values)\<rparr>
      else if t = ''c'' \<and> values \<noteq> [] then a\<lparr>puv_tip_commit := Some (hd values)\<rparr>
      else if t = ''clone'' then a\<lparr>puv_clone := extend_unique (puv_clone a) values\<rparr>
      else if t = ''merge-base'' \<and> values \<noteq> [] then a\<lparr>puv_merge_base := Some (hd values)\<rparr>
      else a)"

definition pull_request_update_from_tags :: "tag list \<Rightarrow> pull_request_update core_result" where
  "pull_request_update_from_tags tags =
     (let a = foldl pru_step pru_vars_init tags in
      and_then (ok_or (MissingField ''a'') (puv_repo_address a)) (\<lambda>addr.
      and_then (ok_or (MissingField ''E'') (puv_root_event_id a)) (\<lambda>root.
      and_then (ok_or (MissingField ''P'') (puv_root_author a)) (\<lambda>author.
      and_then (ok_or (MissingField ''c'') (puv_tip_commit a)) (\<lambda>tip.
        Ok \<lparr>pru_repo_address = addr, pru_repo_refs = puv_repo_refs a,
            pru_mentions = puv_mentions a, pru_root_event_id = root, pru_root_author = author,
            pru_tip_commit = tip, pru_clone = puv_clone a, pru_merge_base = puv_merge_base a\<rparr>)))))"

definition pull_request_update_to_tags :: "pull_request_update \<Rightarrow> tag list" where
  "pull_request_update_to_tags p =
     [[''a'', pru_repo_address p]] @
     each_tag ''r'' (pru_repo_refs p) @
     each_tag ''p'' (pru_mentions p) @
     [[''E'', pru_root_event_id p], [''P'', pru_root_author p], [''c'', pru_tip_commit p]] @
     list_tag ''clone'' (pru_clone p) @
     opt_tag ''merge-base'' (pru_merge_base p)"

definition pull_request_update_validate :: "pull_request_update \<Rightarrow> unit core_result" where
  "pull_request_update_validate p =
     and_then (validate_repo_address (pru_repo_address p)) (\<lambda>_.
     and_then (ensure (is_hex_len (pru_root_event_id p) HEX_EVENT_ID_LEN)
        (InvalidField ''E'' (pru_root_event_id p))) (\<lambda>_.
     and_then (ensure (is_hex_len (pru_root_author p) HEX_PUBKEY_LEN)
        (InvalidField ''P'' (pru_root_author p))) (\<lambda>_.
     and_then (ensure (is_hex_hash (pru_tip_commit p)) (InvalidField ''c'' (pru_tip_commit p))) (\<lambda>_.
     and_then (ensure (pru_clone p \<noteq> []) (MissingField ''clone'')) (\<lambda>_.
     and_then (ensure_all (\<lambda>c. \<not> blank c) (InvalidField ''clone'') (pru_clone p)) (\<lambda>_.
     and_then (ensure_all is_hex_hash (InvalidField ''r'') (pru_repo_refs p)) (\<lambda>_.
     and_then (ensure_all (\<lambda>m. is_hex_len m HEX_PUBKEY_LEN) (InvalidField ''p'') (pru_mentions p)) (\<lambda>_.
     ensure_opt is_hex_hash (InvalidField ''merge-base'') (pru_merge_base p)))))))))"

definition pull_request_update_wf :: "pull_request_update \<Rightarrow> bool" where
  "pull_request_update_wf p \<longleftrightarrow>
     distinct (pru_repo_refs p) \<and> distinct (pru_mentions p) \<and> distinct (pru_clone p)"

definition pru_vars_wf :: "pru_vars \<Rightarrow> bool" where
  "pru_vars_wf a \<longleftrightarrow>
     distinct (puv_repo_refs a) \<and> distinct (puv_mentions a) \<and> distinct (puv_clone a)"

lemma pru_step_wf: "pru_vars_wf a \<Longrightarrow> pru_vars_wf (pru_step a tag)"
  by (cases tag) (auto simp: pru_vars_wf_def)

lemma pull_request_update_from_tags_wf:
  "pull_request_update_from_tags tags = Ok p \<Longrightarrow> pull_request_update_wf p"
proof -
  assume ok: "pull_request_update_from_tags tags = Ok p"
  have "pru_vars_wf (foldl pru_step pru_vars_init tags)"
  proof (rule foldl_invariant)
    show "pru_vars_wf pru_vars_init" by (simp add: pru_vars_init_def pru_vars_wf_def)
  qed (rule pru_step_wf)
  with ok show ?thesis
    by (auto simp: pull_request_update_from_tags_def pru_vars_wf_def pull_request_update_wf_def
        Let_def and_then_eq_Ok)
qed

lemma pru_fold_each:
  "foldl pru_step a (each_tag ''r'' vs) = a\<lparr>puv_repo_refs := extend_unique (puv_repo_refs a) vs\<rparr>"
  "foldl pru_step a (each_tag ''p'' vs) = a\<lparr>puv_mentions := extend_unique (puv_mentions a) vs\<rparr>"
  by (induction vs arbitrary: a) (simp_all add: each_tag_def extend_unique_Cons)

lemma pull_request_update_round_trip:
  "pull_request_update_wf p \<Longrightarrow>
   pull_request_update_from_tags (pull_request_update_to_tags p) = Ok p"
  by (simp add: pull_request_update_from_tags_def pull_request_update_to_tags_def pru_fold_each
      foldl_opt_tag foldl_list_tag pru_vars_init_def pull_request_update_wf_def extend_unique_self
      split: option.split)

section \<open>The user's GRASP list\<close>

record user_grasp_list =
  gl_urls :: "string list"

definition grasp_list_from_tags_lossy :: "tag list \<Rightarrow> user_grasp_list" where
  "grasp_list_from_tags_lossy tags =
     \<lparr>gl_urls =
        foldl (\<lambda>urls tag. case tag of t # v # _ \<Rightarrow> if t = ''g'' then push_unique urls v else urls
                                    | _ \<Rightarrow> urls) [] tags\<rparr>"

definition grasp_list_from_tags :: "tag list \<Rightarrow> user_grasp_list core_result" where
  "grasp_list_from_tags tags = Ok (grasp_list_from_tags_lossy tags)"

definition grasp_list_to_tags :: "user_grasp_list \<Rightarrow> tag list" where
  "grasp_list_to_tags g = map (\<lambda>u. [''g'', u]) (gl_urls g)"

definition grasp_list_validate :: "url_parser \<Rightarrow> user_grasp_list \<Rightarrow> unit core_result" where
  "grasp_list_validate url_parse g =
     ensure_all
       (\<lambda>u. case url_parse u of
              None \<Rightarrow> False
            | Some parsed \<Rightarrow> url_scheme parsed = ''ws'' \<or> url_scheme parsed = ''wss'')
       (InvalidField ''g'') (gl_urls g)"

definition grasp_list_wf :: "user_grasp_list \<Rightarrow> bool" where
  "grasp_list_wf g \<longleftrightarrow> distinct (gl_urls g)"

lemma grasp_list_from_tags_wf: "grasp_list_wf (grasp_list_from_tags_lossy tags)"
proof -
  have "distinct (foldl (\<lambda>urls tag. case tag of t # v # _ \<Rightarrow>
      if t = ''g'' then push_unique urls v else urls | _ \<Rightarrow> urls) [] tags)"
    by (rule foldl_invariant) (auto split: list.split)
  then show ?thesis by (simp add: grasp_list_wf_def grasp_list_from_tags_lossy_def)
qed

lemma grasp_list_fold:
  "foldl (\<lambda>urls tag. case tag of t # v # _ \<Rightarrow> if t = ''g'' then push_unique urls v else urls
      | _ \<Rightarrow> urls) acc (map (\<lambda>u. [''g'', u]) us) = extend_unique acc us"
  by (induction us arbitrary: acc) (simp_all add: extend_unique_Cons)

lemma grasp_list_round_trip:
  "grasp_list_wf g \<Longrightarrow> grasp_list_from_tags_lossy (grasp_list_to_tags g) = g"
  by (simp add: grasp_list_from_tags_lossy_def grasp_list_to_tags_def grasp_list_fold
      grasp_list_wf_def extend_unique_self)

end
