(* ===== verification/Core_Patches.thy ===== *)
theory Core_Patches
  imports Core_Announcement
begin

text \<open>
  Patches with their committer tag (\<open>nip34_patches.rs\<close>) and status events
  (\<open>nip34_status.rs\<close>). Both parsers can fail inside the loop over the tags, so the loop is a
  \<open>try_fold\<close>.
\<close>

section \<open>Shared helpers\<close>

text \<open>Both files have their own copy of \<open>parse_e_tag\<close>.\<close>

definition parse_e_tag :: "tag \<Rightarrow> (string \<times> string option) option" where
  "parse_e_tag tag =
     (if length tag < 2 \<or> tag ! 0 \<noteq> ''e'' then None
      else Some (tag ! 1, if 3 < length tag then Some (tag ! 3) else None))"

section \<open>Committers\<close>

record committer_tag =
  ct_name :: string
  ct_email :: string
  ct_timestamp :: int
  ct_timezone_minutes :: int

definition tag_get :: "tag \<Rightarrow> nat \<Rightarrow> string option" where
  "tag_get tag i = (if i < length tag then Some (tag ! i) else None)"

definition or_default :: "string option \<Rightarrow> string" where
  "or_default x = (case x of None \<Rightarrow> [] | Some v \<Rightarrow> v)"

definition committer_from_tag :: "tag \<Rightarrow> committer_tag core_result" where
  "committer_from_tag tag =
     (let nm = or_default (tag_get tag 1);
          email = or_default (tag_get tag 2);
          timestamp = Option.bind (tag_get tag 3) (parse_signed 64);
          timezone_minutes = Option.bind (tag_get tag 4) (parse_signed 32)
      in if blank nm \<or> blank email \<or> timestamp = None \<or> timezone_minutes = None
         then Err (InvalidField ''committer'' (str_join '' '' tag))
         else Ok \<lparr>ct_name = nm, ct_email = email, ct_timestamp = the timestamp,
                  ct_timezone_minutes = the timezone_minutes\<rparr>)"

definition committer_to_tag :: "committer_tag \<Rightarrow> tag" where
  "committer_to_tag c =
     [''committer'', ct_name c, ct_email c, show_int (ct_timestamp c),
      show_int (ct_timezone_minutes c)]"

definition committer_wf :: "committer_tag \<Rightarrow> bool" where
  "committer_wf c \<longleftrightarrow>
     \<not> blank (ct_name c) \<and> \<not> blank (ct_email c) \<and>
     - (2 ^ 63) \<le> ct_timestamp c \<and> ct_timestamp c < 2 ^ 63 \<and>
     - (2 ^ 31) \<le> ct_timezone_minutes c \<and> ct_timezone_minutes c < 2 ^ 31"

lemma committer_round_trip: "committer_wf c \<Longrightarrow> committer_from_tag (committer_to_tag c) = Ok c"
  using parse_signed_show_int [of 64 "ct_timestamp c"]
    parse_signed_show_int [of 32 "ct_timezone_minutes c"]
  by (simp add: committer_wf_def committer_from_tag_def committer_to_tag_def tag_get_def
      or_default_def Let_def)

lemmas parse_i64_range = parse_signed_range [of 64, simplified]
lemmas parse_i32_range = parse_signed_range [of 32, simplified]

lemma committer_from_tag_wf: "committer_from_tag tag = Ok c \<Longrightarrow> committer_wf c"
  by (auto simp: committer_from_tag_def committer_wf_def Let_def bind_eq_Some_conv
      split: if_splits dest: parse_i64_range parse_i32_range)

section \<open>Patches\<close>

record patch =
  pat_repo_address :: string
  pat_repo_refs :: "string list"
  pat_mentions :: "string list"
  pat_root_event :: "string option"
  pat_reply_event :: "string option"
  pat_is_root :: bool
  pat_is_root_revision :: bool
  pat_commit :: "string option"
  pat_parent_commit :: "string option"
  pat_commit_pgp_sig :: "string option"
  pat_committer :: "committer_tag option"

record patch_vars =
  tv_repo_address :: "string option"
  tv_repo_refs :: "string list"
  tv_mentions :: "string list"
  tv_root_event :: "string option"
  tv_reply_event :: "string option"
  tv_is_root :: bool
  tv_is_root_revision :: bool
  tv_commit :: "string option"
  tv_parent_commit :: "string option"
  tv_commit_pgp_sig :: "string option"
  tv_committer :: "committer_tag option"

definition patch_vars_init :: patch_vars where
  "patch_vars_init =
     \<lparr>tv_repo_address = None, tv_repo_refs = [], tv_mentions = [], tv_root_event = None,
      tv_reply_event = None, tv_is_root = False, tv_is_root_revision = False, tv_commit = None,
      tv_parent_commit = None, tv_commit_pgp_sig = None, tv_committer = None\<rparr>"

text \<open>The last arm of the match: an event reference with a marker.\<close>

definition patch_event_step :: "patch_vars \<Rightarrow> tag \<Rightarrow> patch_vars" where
  "patch_event_step a tag =
     (case parse_e_tag tag of
        None \<Rightarrow> a
      | Some (event_id, marker) \<Rightarrow>
          (if marker = Some ''root'' then a\<lparr>tv_root_event := Some event_id\<rparr>
           else if marker = Some ''reply'' then a\<lparr>tv_reply_event := Some event_id\<rparr>
           else a))"

fun patch_step :: "patch_vars \<Rightarrow> tag \<Rightarrow> patch_vars core_result" where
  "patch_step a [] = Ok (patch_event_step a [])"
| "patch_step a (t # values) =
     (if t = ''a'' \<and> values \<noteq> [] then Ok (a\<lparr>tv_repo_address := Some (hd values)\<rparr>)
      else if t = ''r'' \<and> values \<noteq> []
        then Ok (a\<lparr>tv_repo_refs := push_unique (tv_repo_refs a) (hd values)\<rparr>)
      else if t = ''p'' \<and> values \<noteq> []
        then Ok (a\<lparr>tv_mentions := push_unique (tv_mentions a) (hd values)\<rparr>)
      else if t = ''t'' \<and> values \<noteq> [] \<and> hd values = ''root'' then Ok (a\<lparr>tv_is_root := True\<rparr>)
      else if t = ''t'' \<and> values \<noteq> [] \<and> hd values = ''root-revision''
        then Ok (a\<lparr>tv_is_root_revision := True\<rparr>)
      else if t = ''commit'' \<and> values \<noteq> [] then Ok (a\<lparr>tv_commit := Some (hd values)\<rparr>)
      else if t = ''parent-commit'' \<and> values \<noteq> []
        then Ok (a\<lparr>tv_parent_commit := Some (hd values)\<rparr>)
      else if t = ''commit-pgp-sig'' \<and> values \<noteq> []
        then Ok (a\<lparr>tv_commit_pgp_sig := Some (hd values)\<rparr>)
      else if t = ''committer''
        then and_then (committer_from_tag (t # values)) (\<lambda>c. Ok (a\<lparr>tv_committer := Some c\<rparr>))
      else Ok (patch_event_step a (t # values)))"

definition patch_from_tags :: "tag list \<Rightarrow> patch core_result" where
  "patch_from_tags tags =
     and_then (try_fold patch_step patch_vars_init tags) (\<lambda>a.
     and_then (ok_or (MissingField ''a'') (tv_repo_address a)) (\<lambda>addr.
       Ok \<lparr>pat_repo_address = addr, pat_repo_refs = tv_repo_refs a, pat_mentions = tv_mentions a,
           pat_root_event = tv_root_event a, pat_reply_event = tv_reply_event a,
           pat_is_root = tv_is_root a, pat_is_root_revision = tv_is_root_revision a,
           pat_commit = tv_commit a, pat_parent_commit = tv_parent_commit a,
           pat_commit_pgp_sig = tv_commit_pgp_sig a, pat_committer = tv_committer a\<rparr>))"

definition marker_tag :: "string \<Rightarrow> string option \<Rightarrow> tag list" where
  "marker_tag marker v = (case v of None \<Rightarrow> [] | Some i \<Rightarrow> [[''e'', i, '''', marker]])"

definition patch_to_tags :: "patch \<Rightarrow> tag list" where
  "patch_to_tags p =
     [[''a'', pat_repo_address p]] @
     each_tag ''r'' (pat_repo_refs p) @
     each_tag ''p'' (pat_mentions p) @
     (if pat_is_root p then [[''t'', ''root'']] else []) @
     (if pat_is_root_revision p then [[''t'', ''root-revision'']] else []) @
     opt_tag ''commit'' (pat_commit p) @
     opt_tag ''parent-commit'' (pat_parent_commit p) @
     opt_tag ''commit-pgp-sig'' (pat_commit_pgp_sig p) @
     marker_tag ''root'' (pat_root_event p) @
     marker_tag ''reply'' (pat_reply_event p) @
     (case pat_committer p of None \<Rightarrow> [] | Some c \<Rightarrow> [committer_to_tag c])"

definition patch_validate :: "patch \<Rightarrow> unit core_result" where
  "patch_validate p =
     and_then (validate_repo_address (pat_repo_address p)) (\<lambda>_.
     and_then (ensure (\<not> (pat_is_root_revision p \<and> \<not> pat_is_root p))
        (InvalidField ''t'' ''root-revision without root'')) (\<lambda>_.
     and_then (ensure_opt (\<lambda>e. is_hex_len e HEX_EVENT_ID_LEN) (InvalidField ''e'') (pat_root_event p)) (\<lambda>_.
     and_then (ensure_opt (\<lambda>e. is_hex_len e HEX_EVENT_ID_LEN) (InvalidField ''e'') (pat_reply_event p)) (\<lambda>_.
     and_then (ensure_all is_hex_hash (InvalidField ''r'') (pat_repo_refs p)) (\<lambda>_.
     and_then (ensure_all (\<lambda>m. is_hex_len m HEX_PUBKEY_LEN) (InvalidField ''p'') (pat_mentions p)) (\<lambda>_.
     and_then (ensure_opt is_hex_hash (InvalidField ''commit'') (pat_commit p)) (\<lambda>_.
     ensure_opt is_hex_hash (InvalidField ''parent-commit'') (pat_parent_commit p))))))))"

definition patch_wf :: "patch \<Rightarrow> bool" where
  "patch_wf p \<longleftrightarrow>
     distinct (pat_repo_refs p) \<and> distinct (pat_mentions p) \<and> pred_option committer_wf (pat_committer p)"

definition patch_vars_wf :: "patch_vars \<Rightarrow> bool" where
  "patch_vars_wf a \<longleftrightarrow>
     distinct (tv_repo_refs a) \<and> distinct (tv_mentions a) \<and> pred_option committer_wf (tv_committer a)"

lemma patch_event_step_wf: "patch_vars_wf a \<Longrightarrow> patch_vars_wf (patch_event_step a tag)"
  by (auto simp: patch_vars_wf_def patch_event_step_def split: option.split)

lemma patch_step_wf: "patch_vars_wf a \<Longrightarrow> patch_step a tag = Ok a' \<Longrightarrow> patch_vars_wf a'"
  using patch_event_step_wf [of a tag]
  by (cases tag)
    (auto simp: patch_vars_wf_def and_then_eq_Ok dest: committer_from_tag_wf split: if_splits)

lemma patch_from_tags_wf: "patch_from_tags tags = Ok p \<Longrightarrow> patch_wf p"
proof -
  assume "patch_from_tags tags = Ok p"
  then obtain a where a: "try_fold patch_step patch_vars_init tags = Ok a"
    and p: "pat_repo_refs p = tv_repo_refs a" "pat_mentions p = tv_mentions a"
      "pat_committer p = tv_committer a"
    by (auto simp: patch_from_tags_def and_then_eq_Ok)
  have "patch_vars_wf a"
  proof (rule try_fold_invariant [OF a])
    show "patch_vars_wf patch_vars_init" by (simp add: patch_vars_init_def patch_vars_wf_def)
  qed (rule patch_step_wf)
  with p show ?thesis by (simp add: patch_wf_def patch_vars_wf_def)
qed

lemma patch_fold_each:
  "try_fold patch_step a (each_tag ''r'' vs @ rest) =
     try_fold patch_step (a\<lparr>tv_repo_refs := extend_unique (tv_repo_refs a) vs\<rparr>) rest"
  "try_fold patch_step a (each_tag ''p'' vs @ rest) =
     try_fold patch_step (a\<lparr>tv_mentions := extend_unique (tv_mentions a) vs\<rparr>) rest"
  by (induction vs arbitrary: a) (simp_all add: each_tag_def extend_unique_Cons)

lemma patch_fold_opt:
  "try_fold patch_step a (opt_tag ''commit'' v @ rest) =
     try_fold patch_step (case v of None \<Rightarrow> a | Some x \<Rightarrow> a\<lparr>tv_commit := Some x\<rparr>) rest"
  "try_fold patch_step a (opt_tag ''parent-commit'' v @ rest) =
     try_fold patch_step (case v of None \<Rightarrow> a | Some x \<Rightarrow> a\<lparr>tv_parent_commit := Some x\<rparr>) rest"
  "try_fold patch_step a (opt_tag ''commit-pgp-sig'' v @ rest) =
     try_fold patch_step (case v of None \<Rightarrow> a | Some x \<Rightarrow> a\<lparr>tv_commit_pgp_sig := Some x\<rparr>) rest"
  by (simp_all add: opt_tag_def split: option.split)

lemma patch_fold_marker:
  "try_fold patch_step a (marker_tag ''root'' v @ rest) =
     try_fold patch_step (case v of None \<Rightarrow> a | Some x \<Rightarrow> a\<lparr>tv_root_event := Some x\<rparr>) rest"
  "try_fold patch_step a (marker_tag ''reply'' v @ rest) =
     try_fold patch_step (case v of None \<Rightarrow> a | Some x \<Rightarrow> a\<lparr>tv_reply_event := Some x\<rparr>) rest"
  by (simp_all add: marker_tag_def patch_event_step_def parse_e_tag_def split: option.split)

lemma patch_fold_flags:
  "try_fold patch_step a ((if b then [[''t'', ''root'']] else []) @ rest) =
     try_fold patch_step (if b then a\<lparr>tv_is_root := True\<rparr> else a) rest"
  "try_fold patch_step a ((if b then [[''t'', ''root-revision'']] else []) @ rest) =
     try_fold patch_step (if b then a\<lparr>tv_is_root_revision := True\<rparr> else a) rest"
  by simp_all

lemma patch_fold_committer:
  assumes "pred_option committer_wf v"
  shows "try_fold patch_step a (case v of None \<Rightarrow> [] | Some c \<Rightarrow> [committer_to_tag c]) =
    Ok (case v of None \<Rightarrow> a | Some c \<Rightarrow> a\<lparr>tv_committer := Some c\<rparr>)"
proof (cases v)
  case None
  then show ?thesis by simp
next
  case (Some c)
  with assms have "committer_from_tag (committer_to_tag c) = Ok c"
    by (simp add: committer_round_trip)
  with Some show ?thesis by (simp add: committer_to_tag_def)
qed

lemma patch_first_tag:
  "try_fold patch_step a ([[''a'', x]] @ rest) = try_fold patch_step (a\<lparr>tv_repo_address := Some x\<rparr>) rest"
  by simp

lemma patch_round_trip:
  assumes "patch_wf p"
  shows "patch_from_tags (patch_to_tags p) = Ok p"
proof -
  have comm: "pred_option committer_wf (pat_committer p)" using assms by (simp add: patch_wf_def)
  have "try_fold patch_step patch_vars_init (patch_to_tags p) =
      Ok \<lparr>tv_repo_address = Some (pat_repo_address p), tv_repo_refs = pat_repo_refs p,
          tv_mentions = pat_mentions p, tv_root_event = pat_root_event p,
          tv_reply_event = pat_reply_event p, tv_is_root = pat_is_root p,
          tv_is_root_revision = pat_is_root_revision p, tv_commit = pat_commit p,
          tv_parent_commit = pat_parent_commit p, tv_commit_pgp_sig = pat_commit_pgp_sig p,
          tv_committer = pat_committer p\<rparr>"
    unfolding patch_to_tags_def patch_first_tag patch_fold_each patch_fold_flags patch_fold_opt
      patch_fold_marker patch_fold_committer [OF comm]
    using assms
    by (cases "pat_commit p"; cases "pat_parent_commit p"; cases "pat_commit_pgp_sig p";
        cases "pat_root_event p"; cases "pat_reply_event p"; cases "pat_committer p")
      (simp_all add: patch_vars_init_def patch_wf_def extend_unique_self)
  then show ?thesis by (simp add: patch_from_tags_def)
qed

end
