(* ===== verification/Core_Status.thy ===== *)
theory Core_Status
  imports Core_Patches
begin

text \<open>
  Status events (kinds 1630 to 1633) of \<open>crates/core/src/nip34_status.rs\<close>.
\<close>

section \<open>The status event\<close>

record status_applied_ref =
  sar_event_id :: string
  sar_relay :: string
  sar_pubkey :: string

record status_event =
  st_root_event :: string
  st_reply_events :: "string list"
  st_mentions :: "string list"
  st_repo_address :: "string option"
  st_repo_refs :: "string list"
  st_applied_refs :: "status_applied_ref list"
  st_merge_commit :: "string option"
  st_applied_as_commits :: "string list"

record status_vars =
  sv_root_event :: "string option"
  sv_reply_events :: "string list"
  sv_mentions :: "string list"
  sv_repo_address :: "string option"
  sv_repo_refs :: "string list"
  sv_applied_refs :: "status_applied_ref list"
  sv_merge_commit :: "string option"
  sv_applied_as_commits :: "string list"

definition status_vars_init :: status_vars where
  "status_vars_init =
     \<lparr>sv_root_event = None, sv_reply_events = [], sv_mentions = [], sv_repo_address = None,
      sv_repo_refs = [], sv_applied_refs = [], sv_merge_commit = None, sv_applied_as_commits = []\<rparr>"

definition parse_q_tag :: "tag \<Rightarrow> status_applied_ref core_result" where
  "parse_q_tag tag =
     (if length tag < 4 then Err (InvalidField ''q'' (str_join '' '' tag))
      else Ok \<lparr>sar_event_id = tag ! 1, sar_relay = tag ! 2, sar_pubkey = tag ! 3\<rparr>)"

definition status_event_ref_step ::
  "status_vars \<Rightarrow> string \<Rightarrow> string option \<Rightarrow> status_vars core_result" where
  "status_event_ref_step a event_id marker =
     (if marker = Some ''root'' then
        (case sv_root_event a of
           Some existing \<Rightarrow>
             (if existing \<noteq> event_id then Err (InvalidTag ''e'' event_id) else Ok a)
         | None \<Rightarrow> Ok (a\<lparr>sv_root_event := Some event_id\<rparr>))
      else if marker = Some ''reply''
        then Ok (a\<lparr>sv_reply_events := push_unique (sv_reply_events a) event_id\<rparr>)
      else Ok a)"

fun status_match_step :: "status_vars \<Rightarrow> tag \<Rightarrow> status_vars core_result" where
  "status_match_step a [] = Ok a"
| "status_match_step a (t # values) =
     (if t = ''a'' \<and> values \<noteq> [] then Ok (a\<lparr>sv_repo_address := Some (hd values)\<rparr>)
      else if t = ''p'' \<and> values \<noteq> []
        then Ok (a\<lparr>sv_mentions := push_unique (sv_mentions a) (hd values)\<rparr>)
      else if t = ''r'' \<and> values \<noteq> []
        then Ok (a\<lparr>sv_repo_refs := push_unique (sv_repo_refs a) (hd values)\<rparr>)
      else if t = ''applied-as-commits''
        then Ok (a\<lparr>sv_applied_as_commits := extend_unique (sv_applied_as_commits a) values\<rparr>)
      else if t = ''merge-commit'' \<and> values \<noteq> [] then Ok (a\<lparr>sv_merge_commit := Some (hd values)\<rparr>)
      else if t = ''q''
        then and_then (parse_q_tag (t # values)) (\<lambda>q. Ok (a\<lparr>sv_applied_refs := sv_applied_refs a @ [q]\<rparr>))
      else Ok a)"

definition status_step :: "status_vars \<Rightarrow> tag \<Rightarrow> status_vars core_result" where
  "status_step a tag =
     (case parse_e_tag tag of
        Some (event_id, marker) \<Rightarrow> status_event_ref_step a event_id marker
      | None \<Rightarrow> status_match_step a tag)"

definition status_from_tags :: "tag list \<Rightarrow> status_event core_result" where
  "status_from_tags tags =
     and_then (try_fold status_step status_vars_init tags) (\<lambda>a.
     and_then (ok_or (MissingField ''e'') (sv_root_event a)) (\<lambda>root.
       Ok \<lparr>st_root_event = root, st_reply_events = sv_reply_events a,
           st_mentions = sv_mentions a, st_repo_address = sv_repo_address a,
           st_repo_refs = sv_repo_refs a, st_applied_refs = sv_applied_refs a,
           st_merge_commit = sv_merge_commit a, st_applied_as_commits = sv_applied_as_commits a\<rparr>))"

definition reply_tags :: "string list \<Rightarrow> tag list" where
  "reply_tags rs = map (\<lambda>r. [''e'', r, '''', ''reply'']) rs"

definition applied_tags :: "status_applied_ref list \<Rightarrow> tag list" where
  "applied_tags qs = map (\<lambda>q. [''q'', sar_event_id q, sar_relay q, sar_pubkey q]) qs"

definition status_to_tags :: "status_event \<Rightarrow> tag list" where
  "status_to_tags s =
     [[''e'', st_root_event s, '''', ''root'']] @
     reply_tags (st_reply_events s) @
     each_tag ''p'' (st_mentions s) @
     opt_tag ''a'' (st_repo_address s) @
     each_tag ''r'' (st_repo_refs s) @
     applied_tags (st_applied_refs s) @
     opt_tag ''merge-commit'' (st_merge_commit s) @
     list_tag ''applied-as-commits'' (st_applied_as_commits s)"

definition check_applied_ref :: "status_applied_ref \<Rightarrow> unit core_result" where
  "check_applied_ref q =
     and_then (ensure (is_hex_len (sar_event_id q) HEX_EVENT_ID_LEN)
        (InvalidField ''q'' (sar_event_id q))) (\<lambda>_.
     and_then (ensure (is_hex_len (sar_pubkey q) HEX_PUBKEY_LEN)
        (InvalidField ''q'' (sar_pubkey q))) (\<lambda>_.
     ensure (\<not> blank (sar_relay q)) (InvalidField ''q'' (sar_relay q))))"

definition status_validate :: "status_event \<Rightarrow> unit core_result" where
  "status_validate s =
     and_then (ensure (is_hex_len (st_root_event s) HEX_EVENT_ID_LEN)
        (InvalidField ''e'' (st_root_event s))) (\<lambda>_.
     and_then (ensure_all (\<lambda>r. is_hex_len r HEX_EVENT_ID_LEN) (InvalidField ''e'') (st_reply_events s)) (\<lambda>_.
     and_then (ensure_all (\<lambda>m. is_hex_len m HEX_PUBKEY_LEN) (InvalidField ''p'') (st_mentions s)) (\<lambda>_.
     and_then (case st_repo_address s of None \<Rightarrow> Ok () | Some a \<Rightarrow> validate_repo_address a) (\<lambda>_.
     and_then (ensure_all is_hex_hash (InvalidField ''r'') (st_repo_refs s)) (\<lambda>_.
     and_then (try_fold (\<lambda>_. check_applied_ref) () (st_applied_refs s)) (\<lambda>_.
     and_then (ensure_opt is_hex_hash (InvalidField ''merge-commit'') (st_merge_commit s)) (\<lambda>_.
     ensure_all is_hex_hash (InvalidField ''applied-as-commits'') (st_applied_as_commits s))))))))"

section \<open>Round trip\<close>

definition status_wf :: "status_event \<Rightarrow> bool" where
  "status_wf s \<longleftrightarrow>
     distinct (st_reply_events s) \<and> distinct (st_mentions s) \<and> distinct (st_repo_refs s) \<and>
     distinct (st_applied_as_commits s)"

definition status_vars_wf :: "status_vars \<Rightarrow> bool" where
  "status_vars_wf a \<longleftrightarrow>
     distinct (sv_reply_events a) \<and> distinct (sv_mentions a) \<and> distinct (sv_repo_refs a) \<and>
     distinct (sv_applied_as_commits a)"

lemma status_event_ref_step_wf:
  "status_vars_wf a \<Longrightarrow> status_event_ref_step a i m = Ok a' \<Longrightarrow> status_vars_wf a'"
  by (auto simp: status_vars_wf_def status_event_ref_step_def split: if_splits option.splits)

lemma status_match_step_wf:
  "status_vars_wf a \<Longrightarrow> status_match_step a tag = Ok a' \<Longrightarrow> status_vars_wf a'"
  by (cases tag) (auto simp: status_vars_wf_def and_then_eq_Ok split: if_splits)

lemma status_step_wf: "status_vars_wf a \<Longrightarrow> status_step a tag = Ok a' \<Longrightarrow> status_vars_wf a'"
  by (auto simp: status_step_def split: option.splits
      intro: status_event_ref_step_wf status_match_step_wf)

lemma status_from_tags_wf: "status_from_tags tags = Ok s \<Longrightarrow> status_wf s"
proof -
  assume "status_from_tags tags = Ok s"
  then obtain a where a: "try_fold status_step status_vars_init tags = Ok a"
    and s: "st_reply_events s = sv_reply_events a" "st_mentions s = sv_mentions a"
      "st_repo_refs s = sv_repo_refs a" "st_applied_as_commits s = sv_applied_as_commits a"
    by (auto simp: status_from_tags_def and_then_eq_Ok)
  have "status_vars_wf a"
  proof (rule try_fold_invariant [OF a])
    show "status_vars_wf status_vars_init" by (simp add: status_vars_init_def status_vars_wf_def)
  qed (rule status_step_wf)
  with s show ?thesis by (simp add: status_wf_def status_vars_wf_def)
qed

lemma status_step_plain:
  "status_step a [''p'', v] = Ok (a\<lparr>sv_mentions := push_unique (sv_mentions a) v\<rparr>)"
  "status_step a [''a'', v] = Ok (a\<lparr>sv_repo_address := Some v\<rparr>)"
  "status_step a [''r'', v] = Ok (a\<lparr>sv_repo_refs := push_unique (sv_repo_refs a) v\<rparr>)"
  "status_step a [''merge-commit'', v] = Ok (a\<lparr>sv_merge_commit := Some v\<rparr>)"
  "status_step a [''e'', v, '''', ''reply''] =
     Ok (a\<lparr>sv_reply_events := push_unique (sv_reply_events a) v\<rparr>)"
  "status_step a [''q'', x, y, z] =
     Ok (a\<lparr>sv_applied_refs := sv_applied_refs a @ [\<lparr>sar_event_id = x, sar_relay = y, sar_pubkey = z\<rparr>]\<rparr>)"
  "status_step a (''applied-as-commits'' # vs) =
     Ok (a\<lparr>sv_applied_as_commits := extend_unique (sv_applied_as_commits a) vs\<rparr>)"
  by (simp_all add: status_step_def parse_e_tag_def status_event_ref_step_def parse_q_tag_def)

lemma status_fold_each:
  "try_fold status_step a (reply_tags vs @ rest) =
     try_fold status_step (a\<lparr>sv_reply_events := extend_unique (sv_reply_events a) vs\<rparr>) rest"
  "try_fold status_step a (each_tag ''p'' vs @ rest) =
     try_fold status_step (a\<lparr>sv_mentions := extend_unique (sv_mentions a) vs\<rparr>) rest"
  "try_fold status_step a (each_tag ''r'' vs @ rest) =
     try_fold status_step (a\<lparr>sv_repo_refs := extend_unique (sv_repo_refs a) vs\<rparr>) rest"
  by (induction vs arbitrary: a)
    (simp_all add: reply_tags_def each_tag_def status_step_plain extend_unique_Cons)

lemma status_fold_applied:
  "try_fold status_step a (applied_tags qs @ rest) =
     try_fold status_step (a\<lparr>sv_applied_refs := sv_applied_refs a @ qs\<rparr>) rest"
proof (induction qs arbitrary: a)
  case Nil
  then show ?case by (simp add: applied_tags_def)
next
  case (Cons q qs)
  then show ?case by (cases q) (simp add: applied_tags_def status_step_plain)
qed

lemma status_fold_opt:
  "try_fold status_step a (opt_tag ''a'' v @ rest) =
     try_fold status_step (case v of None \<Rightarrow> a | Some x \<Rightarrow> a\<lparr>sv_repo_address := Some x\<rparr>) rest"
  "try_fold status_step a (opt_tag ''merge-commit'' v @ rest) =
     try_fold status_step (case v of None \<Rightarrow> a | Some x \<Rightarrow> a\<lparr>sv_merge_commit := Some x\<rparr>) rest"
  by (simp_all add: opt_tag_def status_step_plain split: option.split)

lemma status_fold_last:
  "try_fold status_step a (list_tag ''applied-as-commits'' vs) =
     Ok (a\<lparr>sv_applied_as_commits := extend_unique (sv_applied_as_commits a) vs\<rparr>)"
  by (simp add: list_tag_def join_tag_values_def status_step_plain)

lemma status_first_tag:
  "sv_root_event a = None \<Longrightarrow>
   try_fold status_step a ([[''e'', x, '''', ''root'']] @ rest) =
     try_fold status_step (a\<lparr>sv_root_event := Some x\<rparr>) rest"
  by (simp add: status_step_def parse_e_tag_def status_event_ref_step_def)

lemma status_round_trip:
  assumes "status_wf s"
  shows "status_from_tags (status_to_tags s) = Ok s"
proof -
  have "sv_root_event status_vars_init = None" by (simp add: status_vars_init_def)
  note first = status_first_tag [OF this]
  have "try_fold status_step status_vars_init (status_to_tags s) =
      Ok \<lparr>sv_root_event = Some (st_root_event s), sv_reply_events = st_reply_events s,
          sv_mentions = st_mentions s, sv_repo_address = st_repo_address s,
          sv_repo_refs = st_repo_refs s, sv_applied_refs = st_applied_refs s,
          sv_merge_commit = st_merge_commit s, sv_applied_as_commits = st_applied_as_commits s\<rparr>"
    unfolding status_to_tags_def first status_fold_each status_fold_applied status_fold_opt
      status_fold_last
    using assms
    by (cases "st_repo_address s"; cases "st_merge_commit s")
      (simp_all add: status_vars_init_def status_wf_def extend_unique_self)
  then show ?thesis by (simp add: status_from_tags_def)
qed

end
