(* ===== verification/Core_Events.thy ===== *)
theory Core_Events
  imports Core_State Core_Proposals Core_Status
begin

text \<open>
  \<open>crates/core/src/nip34_events.rs\<close>: the sum of all NIP-34 events, parsed by kind. The locale
  \<open>tag_codec\<close> is the contract every event type keeps between its parser and its printer; the
  eight event types interpret it, and the properties of \<open>Nip34Event\<close> rest on these
  interpretations.
\<close>

section \<open>The codec contract\<close>

locale tag_codec =
  fixes from_tags :: "tag list \<Rightarrow> 'a core_result"
    and to_tags :: "'a \<Rightarrow> tag list"
    and wf :: "'a \<Rightarrow> bool"
    and same :: "'a \<Rightarrow> 'a \<Rightarrow> bool"
  assumes parsed_wf: "from_tags tags = Ok x \<Longrightarrow> wf x"
    and round_trip: "wf x \<Longrightarrow> \<exists>y. from_tags (to_tags x) = Ok y \<and> same x y"
    and same_tags: "wf x \<Longrightarrow> wf y \<Longrightarrow> same x y \<Longrightarrow> to_tags x = to_tags y"
begin

text \<open>Printing a parsed value and parsing it again gives the same value in canonical form.\<close>

lemma reparse:
  assumes "from_tags tags = Ok x"
  shows "\<exists>y. from_tags (to_tags x) = Ok y \<and> same x y \<and> to_tags y = to_tags x"
proof -
  have x: "wf x" by (rule parsed_wf [OF assms])
  then obtain y where y: "from_tags (to_tags x) = Ok y" "same x y"
    using round_trip by blast
  then have "to_tags y = to_tags x"
    using same_tags [OF x parsed_wf] by metis
  with y show ?thesis by blast
qed

end

interpretation announcement: tag_codec announcement_from_tags announcement_to_tags announcement_wf "(=)"
  by unfold_locales (auto simp: announcement_from_tags_wf announcement_round_trip)

interpretation state: tag_codec repo_state_from_tags repo_state_to_tags repo_state_wf same_state
proof unfold_locales
  fix s :: repo_state
  assume "repo_state_wf s"
  then show "\<exists>s'. repo_state_from_tags (repo_state_to_tags s) = Ok s' \<and> same_state s s'"
    using repo_state_round_trip by blast
qed (auto intro: repo_state_from_tags_wf same_state_wf_to_tags)

interpretation issue: tag_codec issue_from_tags issue_to_tags issue_wf "(=)"
  by unfold_locales (auto simp: issue_from_tags_wf issue_round_trip)

interpretation pull_request:
  tag_codec pull_request_from_tags pull_request_to_tags pull_request_wf "(=)"
  by unfold_locales (auto simp: pull_request_from_tags_wf pull_request_round_trip)

interpretation pull_request_update:
  tag_codec pull_request_update_from_tags pull_request_update_to_tags pull_request_update_wf "(=)"
  by unfold_locales (auto simp: pull_request_update_from_tags_wf pull_request_update_round_trip)

interpretation patch: tag_codec patch_from_tags patch_to_tags patch_wf "(=)"
  by unfold_locales (auto simp: patch_from_tags_wf patch_round_trip)

interpretation status: tag_codec status_from_tags status_to_tags status_wf "(=)"
  by unfold_locales (auto simp: status_from_tags_wf status_round_trip)

interpretation grasp_list: tag_codec grasp_list_from_tags grasp_list_to_tags grasp_list_wf "(=)"
  by unfold_locales (auto simp: grasp_list_from_tags_def grasp_list_from_tags_wf grasp_list_round_trip)

section \<open>Events by kind\<close>

datatype nip34_event =
    RepoAnnouncementEvent repo_announcement
  | RepoStateEvent repo_state
  | PatchEvent patch
  | PullRequestEvent pull_request
  | PullRequestUpdateEvent pull_request_update
  | IssueEvent issue
  | StatusEv nostr_kind status_event
  | UserGraspListEvent user_grasp_list

definition is_status_kind :: "u32 \<Rightarrow> bool" where
  "is_status_kind kind \<longleftrightarrow>
     kind = kind_value KIND_GIT_STATUS_OPEN \<or> kind = kind_value KIND_GIT_STATUS_APPLIED \<or>
     kind = kind_value KIND_GIT_STATUS_CLOSED \<or> kind = kind_value KIND_GIT_STATUS_DRAFT"

definition map_ok :: "('a \<Rightarrow> 'b) \<Rightarrow> ('e, 'a) result \<Rightarrow> ('e, 'b) result" where
  "map_ok f r = and_then r (\<lambda>x. Ok (f x))"

definition nip34_parse :: "u32 \<Rightarrow> tag list \<Rightarrow> nip34_event core_result" where
  "nip34_parse kind tags =
     (if kind = kind_value KIND_GIT_REPO_ANNOUNCEMENT
        then map_ok RepoAnnouncementEvent (announcement_from_tags tags)
      else if kind = kind_value KIND_GIT_REPO_STATE
        then map_ok RepoStateEvent (repo_state_from_tags tags)
      else if kind = kind_value KIND_GIT_PATCH then map_ok PatchEvent (patch_from_tags tags)
      else if kind = kind_value KIND_GIT_PULL_REQUEST
        then map_ok PullRequestEvent (pull_request_from_tags tags)
      else if kind = kind_value KIND_GIT_PULL_REQUEST_UPDATE
        then map_ok PullRequestUpdateEvent (pull_request_update_from_tags tags)
      else if kind = kind_value KIND_GIT_ISSUE then map_ok IssueEvent (issue_from_tags tags)
      else if is_status_kind kind
        then map_ok (StatusEv (NostrKind kind)) (status_from_tags tags)
      else if kind = kind_value KIND_USER_GRASP_LIST
        then Ok (UserGraspListEvent (grasp_list_from_tags_lossy tags))
      else Err (InvalidField ''kind'' (show_nat (unat kind))))"

fun nip34_kind :: "nip34_event \<Rightarrow> nostr_kind" where
  "nip34_kind (RepoAnnouncementEvent _) = KIND_GIT_REPO_ANNOUNCEMENT"
| "nip34_kind (RepoStateEvent _) = KIND_GIT_REPO_STATE"
| "nip34_kind (PatchEvent _) = KIND_GIT_PATCH"
| "nip34_kind (PullRequestEvent _) = KIND_GIT_PULL_REQUEST"
| "nip34_kind (PullRequestUpdateEvent _) = KIND_GIT_PULL_REQUEST_UPDATE"
| "nip34_kind (IssueEvent _) = KIND_GIT_ISSUE"
| "nip34_kind (StatusEv kind _) = kind"
| "nip34_kind (UserGraspListEvent _) = KIND_USER_GRASP_LIST"

fun nip34_to_tags :: "nip34_event \<Rightarrow> tag list" where
  "nip34_to_tags (RepoAnnouncementEvent e) = announcement_to_tags e"
| "nip34_to_tags (RepoStateEvent e) = repo_state_to_tags e"
| "nip34_to_tags (PatchEvent e) = patch_to_tags e"
| "nip34_to_tags (PullRequestEvent e) = pull_request_to_tags e"
| "nip34_to_tags (PullRequestUpdateEvent e) = pull_request_update_to_tags e"
| "nip34_to_tags (IssueEvent e) = issue_to_tags e"
| "nip34_to_tags (StatusEv _ e) = status_to_tags e"
| "nip34_to_tags (UserGraspListEvent e) = grasp_list_to_tags e"

fun nip34_validate :: "url_parser \<Rightarrow> nip34_event \<Rightarrow> unit core_result" where
  "nip34_validate url_parse (RepoAnnouncementEvent e) = announcement_validate e"
| "nip34_validate url_parse (RepoStateEvent e) = repo_state_validate e"
| "nip34_validate url_parse (PatchEvent e) = patch_validate e"
| "nip34_validate url_parse (PullRequestEvent e) = pull_request_validate e"
| "nip34_validate url_parse (PullRequestUpdateEvent e) = pull_request_update_validate e"
| "nip34_validate url_parse (IssueEvent e) = issue_validate e"
| "nip34_validate url_parse (StatusEv _ e) = status_validate e"
| "nip34_validate url_parse (UserGraspListEvent e) = grasp_list_validate url_parse e"

definition nip34_parse_validated :: "url_parser \<Rightarrow> u32 \<Rightarrow> tag list \<Rightarrow> nip34_event core_result" where
  "nip34_parse_validated url_parse kind tags =
     and_then (nip34_parse kind tags) (\<lambda>event.
     and_then (nip34_validate url_parse event) (\<lambda>_. Ok event))"

section \<open>Lemmas\<close>

text \<open>Equality of events as the program has it: states are compared as maps.\<close>

fun same_event :: "nip34_event \<Rightarrow> nip34_event \<Rightarrow> bool" where
  "same_event (RepoStateEvent s) (RepoStateEvent s') = same_state s s'"
| "same_event e e' \<longleftrightarrow> e = e'"

lemma map_ok_eq_Ok: "map_ok f r = Ok y \<longleftrightarrow> (\<exists>x. r = Ok x \<and> y = f x)"
  by (auto simp: map_ok_def and_then_eq_Ok)

lemma map_ok_Ok [simp]: "map_ok f (Inr x) = Inr (f x)"
  by (simp add: map_ok_def)

inductive parses_to :: "u32 \<Rightarrow> tag list \<Rightarrow> nip34_event \<Rightarrow> bool" where
  announcement: "announcement_from_tags tags = Ok a \<Longrightarrow> parses_to 30617 tags (RepoAnnouncementEvent a)"
| state: "repo_state_from_tags tags = Ok s \<Longrightarrow> parses_to 30618 tags (RepoStateEvent s)"
| patch: "patch_from_tags tags = Ok p \<Longrightarrow> parses_to 1617 tags (PatchEvent p)"
| pull_request: "pull_request_from_tags tags = Ok r \<Longrightarrow> parses_to 1618 tags (PullRequestEvent r)"
| pull_request_update:
    "pull_request_update_from_tags tags = Ok u \<Longrightarrow> parses_to 1619 tags (PullRequestUpdateEvent u)"
| issue: "issue_from_tags tags = Ok i \<Longrightarrow> parses_to 1621 tags (IssueEvent i)"
| status: "kind \<in> {1630, 1631, 1632, 1633} \<Longrightarrow> status_from_tags tags = Ok s \<Longrightarrow>
    parses_to kind tags (StatusEv (NostrKind kind) s)"
| grasp_list: "parses_to 10317 tags (UserGraspListEvent (grasp_list_from_tags_lossy tags))"

lemma nip34_parse_iff: "nip34_parse kind tags = Ok e \<longleftrightarrow> parses_to kind tags e"
proof
  assume "nip34_parse kind tags = Ok e"
  then show "parses_to kind tags e"
    unfolding nip34_parse_def is_status_kind_def kind_defs
    by (auto simp: map_ok_eq_Ok intro: parses_to.intros split: if_splits)
next
  assume "parses_to kind tags e"
  then show "nip34_parse kind tags = Ok e"
    by cases (auto simp: nip34_parse_def is_status_kind_def kind_defs)
qed

lemma parses_to_kind: "parses_to kind tags e \<Longrightarrow> nip34_kind e = NostrKind kind"
  by (induction rule: parses_to.induct) (simp_all add: kind_defs)

lemma parses_to_reparse:
  "parses_to kind tags e \<Longrightarrow>
   \<exists>e'. parses_to kind (nip34_to_tags e) e' \<and> same_event e e' \<and> nip34_to_tags e' = nip34_to_tags e"
proof (induction rule: parses_to.induct)
  case (announcement tags a)
  then show ?case using announcement.reparse by (fastforce intro: parses_to.announcement)
next
  case (state tags s)
  then show ?case using state.reparse by (fastforce intro: parses_to.state)
next
  case (patch tags p)
  then show ?case using patch.reparse by (fastforce intro: parses_to.patch)
next
  case (pull_request tags r)
  then show ?case using pull_request.reparse by (fastforce intro: parses_to.pull_request)
next
  case (pull_request_update tags u)
  then show ?case
    using pull_request_update.reparse by (fastforce intro: parses_to.pull_request_update)
next
  case (issue tags i)
  then show ?case using issue.reparse by (fastforce intro: parses_to.issue)
next
  case (status kind tags s)
  then show ?case using status.reparse by (fastforce intro: parses_to.status)
next
  case (grasp_list tags)
  let ?g = "grasp_list_from_tags_lossy tags"
  have "grasp_list_from_tags_lossy (grasp_list_to_tags ?g) = ?g"
    by (rule grasp_list_round_trip [OF grasp_list_from_tags_wf])
  then show ?case using parses_to.grasp_list [of "grasp_list_to_tags ?g"] by force
qed

lemma same_event_validate:
  assumes "parses_to kind tags e" and "parses_to kind' tags' e'" and "same_event e e'"
    and "nip34_validate url_parse e = Ok ()"
  shows "nip34_validate url_parse e' = Ok ()"
proof (cases "\<exists>s s'. e = RepoStateEvent s \<and> e' = RepoStateEvent s'")
  case True
  then obtain s s' where e: "e = RepoStateEvent s" "e' = RepoStateEvent s'" by blast
  from assms(1,2) e have "repo_state_wf s" "repo_state_wf s'"
    by (auto elim!: parses_to.cases dest: repo_state_from_tags_wf)
  with assms(3,4) e show ?thesis
    using same_state_validate [of s s'] by simp
next
  case False
  with assms(3) have "e' = e" by (cases e; cases e') auto
  with assms(4) show ?thesis by simp
qed

section \<open>Properties\<close>

text \<open>
  C14: whatever NIP-34 event of whatever kind is parsed from a list of tags, printing it and parsing
  the printed tags under the event's own kind succeeds and gives the same event, and printing that
  one gives the very same tags: the printed tags are a canonical form.\<close>

theorem nip34_round_trip:
  assumes "nip34_parse kind tags = Ok e"
  shows "\<exists>e'. nip34_parse (kind_value (nip34_kind e)) (nip34_to_tags e) = Ok e' \<and>
    same_event e e' \<and> nip34_to_tags e' = nip34_to_tags e"
proof -
  from assms have p: "parses_to kind tags e" by (simp add: nip34_parse_iff)
  then have "kind_value (nip34_kind e) = kind" by (simp add: parses_to_kind)
  with parses_to_reparse [OF p] show ?thesis by (simp add: nip34_parse_iff)
qed

theorem nip34_round_trip_witness:
  "\<exists>e e'. nip34_parse 1621 [[''a'', ''x''], [''t'', ''bug''], [''t'', ''bug''], [''subject'', ''s'']] = Ok e \<and>
     nip34_to_tags e = [[''a'', ''x''], [''subject'', ''s''], [''t'', ''bug'']] \<and>
     nip34_parse (kind_value (nip34_kind e)) (nip34_to_tags e) = Ok e' \<and>
     same_event e e' \<and> nip34_to_tags e' = nip34_to_tags e"
proof -
  let ?i = "\<lparr>iss_repo_address = ''x'', iss_mentions = [], iss_subject = Some ''s'', iss_labels = [''bug'']\<rparr>"
  have ok: "nip34_parse 1621 [[''a'', ''x''], [''t'', ''bug''], [''t'', ''bug''], [''subject'', ''s'']] =
      Ok (IssueEvent ?i)"
    by (simp add: nip34_parse_iff parses_to.simps issue_from_tags_def issue_vars_init_def
        push_unique_eq)
  have "nip34_to_tags (IssueEvent ?i) = [[''a'', ''x''], [''subject'', ''s''], [''t'', ''bug'']]"
    by (simp add: issue_to_tags_def each_tag_def opt_tag_def)
  with ok nip34_round_trip [OF ok] show ?thesis by blast
qed

text \<open>
  An event that passed parsing and validation passes both again after being printed: validation
  does not depend on anything printing loses, such as duplicate or unknown tags or the iteration
  order of the state map.\<close>

theorem nip34_validated_stable:
  assumes "nip34_parse_validated url_parse kind tags = Ok e"
  shows "\<exists>e'. nip34_parse_validated url_parse kind (nip34_to_tags e) = Ok e' \<and> same_event e e'"
proof -
  from assms have p: "parses_to kind tags e" and v: "nip34_validate url_parse e = Ok ()"
    by (auto simp: nip34_parse_validated_def and_then_eq_Ok nip34_parse_iff)
  from parses_to_reparse [OF p] obtain e' where
    e': "parses_to kind (nip34_to_tags e) e'" "same_event e e'" by blast
  have "nip34_validate url_parse e' = Ok ()"
    by (rule same_event_validate [OF p e'(1) e'(2) v])
  with e' show ?thesis
    by (auto simp: nip34_parse_validated_def and_then_eq_Ok nip34_parse_iff)
qed

theorem nip34_validated_stable_witness:
  "\<exists>e e'. nip34_parse_validated (\<lambda>_. None) 30618 [[''x''], [''d'', ''repo'']] = Ok e \<and>
     nip34_parse_validated (\<lambda>_. None) 30618 (nip34_to_tags e) = Ok e' \<and> same_event e e'"
proof -
  have "\<not> blank ''repo''" by (rule not_blank_lead) simp_all
  then have ok: "nip34_parse_validated (\<lambda>_. None) 30618 [[''x''], [''d'', ''repo'']] =
      Ok (RepoStateEvent \<lparr>rs_identifier = ''repo'', rs_state = []\<rparr>)"
    by (auto simp: nip34_parse_validated_def and_then_eq_Ok nip34_parse_iff parses_to.simps
        repo_state_from_tags_def state_step_def repo_state_validate_iff)
  with nip34_validated_stable [OF ok] show ?thesis by blast
qed

end
