(* ===== verification/Core_Repo_Events.thy ===== *)
theory Core_Repo_Events
  imports Core_State
begin

text \<open>
  \<open>crates/core/src/repo_events.rs\<close>: what the program reads off a list of Nostr events about one
  repository. The maintainers are found by a depth-first search over the announcements; the
  \<open>HashSet\<close> of visited keys is a finite set. The recursion of the search is nested (the loop
  over an announcement's maintainers threads the set the recursive calls extend), and ends because
  every call that goes deeper adds the key of one of the events.
\<close>

section \<open>Operations\<close>

record nostr_event =
  ne_kind :: u32
  ne_pubkey :: string
  ne_created_at :: int
  ne_tags :: "tag list"

definition nostr_event_new :: "u32 \<Rightarrow> string \<Rightarrow> int \<Rightarrow> tag list \<Rightarrow> nostr_event" where
  "nostr_event_new kind pubkey created_at tags =
     \<lparr>ne_kind = kind, ne_pubkey = pubkey, ne_created_at = created_at, ne_tags = tags\<rparr>"

definition announcement_of :: "string \<Rightarrow> string \<Rightarrow> nostr_event \<Rightarrow> repo_announcement option" where
  "announcement_of pubkey ident event =
     (if ne_kind event \<noteq> kind_value KIND_GIT_REPO_ANNOUNCEMENT \<or> ne_pubkey event \<noteq> pubkey then None
      else
        (case announcement_from_tags (ne_tags event) of
           Inl _ \<Rightarrow> None
         | Inr a \<Rightarrow> (if ann_identifier a = ident then Some a else None)))"

definition find_repo_announcement ::
  "nostr_event list \<Rightarrow> string \<Rightarrow> string \<Rightarrow> repo_announcement option" where
  "find_repo_announcement events pubkey ident = find_map (announcement_of pubkey ident) events"

function (sequential)
  collect_maintainers_inner :: "nostr_event list \<Rightarrow> string \<Rightarrow> string \<Rightarrow> string set \<Rightarrow> string set" and
  collect_maintainers_loop :: "nostr_event list \<Rightarrow> string list \<Rightarrow> string \<Rightarrow> string set \<Rightarrow> string set" where
  "collect_maintainers_inner events pubkey ident checked =
     (if pubkey \<in> checked then checked
      else
        (case find_repo_announcement events pubkey ident of
           None \<Rightarrow> checked
         | Some a \<Rightarrow>
             collect_maintainers_loop events (ann_maintainers a) (ann_identifier a)
               (insert pubkey checked)))"
| "collect_maintainers_loop events [] ident checked = checked"
| "collect_maintainers_loop events (maintainer # rest) ident checked =
     collect_maintainers_loop events rest ident
       (collect_maintainers_inner events maintainer ident checked)"
  by pat_completeness auto

lemma find_repo_announcement_Some:
  assumes "find_repo_announcement events pubkey ident = Some a"
  shows "pubkey \<in> ne_pubkey ` set events" and "ann_identifier a = ident"
proof -
  from assms obtain e where "e \<in> set events" and "announcement_of pubkey ident e = Some a"
    unfolding find_repo_announcement_def by (blast dest: find_map_Some)
  then show "pubkey \<in> ne_pubkey ` set events" and "ann_identifier a = ident"
    by (auto simp: announcement_of_def split: if_splits sum.splits)
qed

lemma collect_maintainers_grows_partial:
  "collect_maintainers_inner_collect_maintainers_loop_dom (Inl (events, pubkey, ident, checked)) \<Longrightarrow>
     checked \<subseteq> collect_maintainers_inner events pubkey ident checked"
  "collect_maintainers_inner_collect_maintainers_loop_dom (Inr (events, ms, ident, checked)) \<Longrightarrow>
     checked \<subseteq> collect_maintainers_loop events ms ident checked"
proof (induction rule: collect_maintainers_inner_collect_maintainers_loop.pinduct)
  case (1 events pubkey ident checked)
  then show ?case
    by (auto simp: collect_maintainers_inner.psimps split: option.splits)
next
  case (2 events ident checked)
  then show ?case by (simp add: collect_maintainers_loop.psimps)
next
  case (3 events maintainer rest ident checked)
  then show ?case by (auto simp: collect_maintainers_loop.psimps)
qed

text \<open>The keys that still can be visited, then the length of the list of maintainers to go through.\<close>

definition unvisited :: "nostr_event list \<Rightarrow> string set \<Rightarrow> nat" where
  "unvisited events checked = card (ne_pubkey ` set events - checked)"

lemma unvisited_mono: "checked \<subseteq> checked' \<Longrightarrow> unvisited events checked' \<le> unvisited events checked"
  unfolding unvisited_def by (intro card_mono) auto

lemma unvisited_insert:
  "pubkey \<in> ne_pubkey ` set events \<Longrightarrow> pubkey \<notin> checked \<Longrightarrow>
   unvisited events (insert pubkey checked) < unvisited events checked"
  unfolding unvisited_def by (intro psubset_card_mono) auto

termination collect_maintainers_inner
proof (relation "measures
    [\<lambda>x. case x of Inl (events, _, _, checked) \<Rightarrow> unvisited events checked
        | Inr (events, _, _, checked) \<Rightarrow> unvisited events checked,
     \<lambda>x. case x of Inl _ \<Rightarrow> 0 | Inr (_, ms, _, _) \<Rightarrow> length ms]", goal_cases)
  case 1
  then show ?case by simp
next
  case (2 events pubkey ident checked a)
  then show ?case
    using find_repo_announcement_Some(1) unvisited_insert by simp
next
  case (3 events maintainer rest ident checked)
  then show ?case by simp
next
  case (4 events maintainer rest ident checked)
  then show ?case
    using unvisited_mono [OF collect_maintainers_grows_partial(1) [OF 4]]
    by (auto simp: le_less)
qed

declare collect_maintainers_inner.simps [simp del]

definition collect_maintainers :: "nostr_event list \<Rightarrow> string \<Rightarrow> string \<Rightarrow> string list" where
  "collect_maintainers events pubkey ident =
     sorted_list_of_set (collect_maintainers_inner events pubkey ident {})"

text \<open>\<open>Iterator::max_by_key\<close> keeps the last of several maximal elements.\<close>

fun max_by_key :: "('a \<Rightarrow> int) \<Rightarrow> 'a list \<Rightarrow> 'a option" where
  "max_by_key key [] = None"
| "max_by_key key (x # xs) =
     (case max_by_key key xs of
        None \<Rightarrow> Some x
      | Some y \<Rightarrow> if key x > key y then Some x else Some y)"

definition state_event_of :: "string list \<Rightarrow> nostr_event \<Rightarrow> bool" where
  "state_event_of maintainers event \<longleftrightarrow>
     ne_kind event = kind_value KIND_GIT_REPO_STATE \<and> ne_pubkey event \<in> set maintainers"

definition latest_state_from_maintainers ::
  "nostr_event list \<Rightarrow> string list \<Rightarrow> repo_state option" where
  "latest_state_from_maintainers events maintainers =
     (if maintainers = [] then None
      else
        Option.bind (max_by_key ne_created_at (filter (state_event_of maintainers) events))
          (\<lambda>latest. result_ok (repo_state_from_tags (ne_tags latest))))"

definition push_clone :: "string list \<Rightarrow> string \<Rightarrow> string list" where
  "push_clone clones url =
     (let trimmed = trim_end_char CHR ''/'' url in
      if trimmed = [] then clones
      else if trimmed \<in> set clones then clones
      else clones @ [trimmed])"

definition clone_step ::
  "string list \<Rightarrow> string \<Rightarrow> string list \<Rightarrow> nostr_event \<Rightarrow> string list" where
  "clone_step maintainers ident clones event =
     (if ne_kind event \<noteq> kind_value KIND_GIT_REPO_ANNOUNCEMENT then clones
      else if ne_pubkey event \<notin> set maintainers then clones
      else
        (case announcement_from_tags (ne_tags event) of
           Inl _ \<Rightarrow> clones
         | Inr a \<Rightarrow>
             (if ann_identifier a \<noteq> ident then clones
              else foldl push_clone clones (ann_clone a))))"

definition collect_clone_urls ::
  "nostr_event list \<Rightarrow> string list \<Rightarrow> string \<Rightarrow> string list" where
  "collect_clone_urls events maintainers ident =
     (if maintainers = [] then [] else foldl (clone_step maintainers ident) [] events)"

section \<open>The maintainers of a repository\<close>

text \<open>
  The specification: a key maintains the repository when it is the owner's and the owner announced
  it, or when a maintainer's announcement lists it and it announced the repository itself.
\<close>

inductive maintains :: "nostr_event list \<Rightarrow> string \<Rightarrow> string \<Rightarrow> string \<Rightarrow> bool"
  for events :: "nostr_event list" and owner :: string and ident :: string where
  owner: "find_repo_announcement events owner ident \<noteq> None \<Longrightarrow> maintains events owner ident owner"
| listed: "maintains events owner ident p \<Longrightarrow> find_repo_announcement events p ident = Some a \<Longrightarrow>
    m \<in> set (ann_maintainers a) \<Longrightarrow> find_repo_announcement events m ident \<noteq> None \<Longrightarrow>
    maintains events owner ident m"

text \<open>Every maintainer a visited key lists has been visited too, if it announced the repository.\<close>

definition closed_under ::
  "nostr_event list \<Rightarrow> string \<Rightarrow> string set \<Rightarrow> string set \<Rightarrow> bool" where
  "closed_under events ident new visited \<longleftrightarrow>
     (\<forall>p \<in> new. \<forall>a. find_repo_announcement events p ident = Some a \<longrightarrow>
        (\<forall>m \<in> set (ann_maintainers a). find_repo_announcement events m ident \<noteq> None \<longrightarrow> m \<in> visited))"

lemma closed_under_mono:
  "closed_under events ident new visited \<Longrightarrow> new' \<subseteq> new \<Longrightarrow> visited \<subseteq> visited' \<Longrightarrow>
   closed_under events ident new' visited'"
  unfolding closed_under_def by blast

lemma closed_under_Un:
  "closed_under events ident A V \<Longrightarrow> closed_under events ident B V \<Longrightarrow>
   closed_under events ident (A \<union> B) V"
  unfolding closed_under_def by blast

lemma collect_maintainers_complete:
  "checked \<subseteq> collect_maintainers_inner events pubkey ident checked \<and>
   (find_repo_announcement events pubkey ident \<noteq> None \<longrightarrow>
      pubkey \<in> collect_maintainers_inner events pubkey ident checked) \<and>
   closed_under events ident (collect_maintainers_inner events pubkey ident checked - checked)
     (collect_maintainers_inner events pubkey ident checked)"
  "checked \<subseteq> collect_maintainers_loop events ms ident checked \<and>
   (\<forall>m \<in> set ms. find_repo_announcement events m ident \<noteq> None \<longrightarrow>
      m \<in> collect_maintainers_loop events ms ident checked) \<and>
   closed_under events ident (collect_maintainers_loop events ms ident checked - checked)
     (collect_maintainers_loop events ms ident checked)"
proof (induction events pubkey ident checked and events ms ident checked
    rule: collect_maintainers_inner_collect_maintainers_loop.induct)
  case (1 events pubkey ident checked)
  show ?case
  proof (cases "pubkey \<in> checked \<or> find_repo_announcement events pubkey ident = None")
    case True
    then show ?thesis
      by (auto simp: collect_maintainers_inner.simps [of events pubkey] closed_under_def
          split: option.splits)
  next
    case False
    then obtain a where a: "find_repo_announcement events pubkey ident = Some a"
      and p: "pubkey \<notin> checked" by blast
    let ?r = "collect_maintainers_loop events (ann_maintainers a) ident (insert pubkey checked)"
    have r: "collect_maintainers_inner events pubkey ident checked = ?r"
      using a p find_repo_announcement_Some(2) [OF a]
      by (simp add: collect_maintainers_inner.simps [of events pubkey])
    from 1 [OF p a] find_repo_announcement_Some(2) [OF a]
    have ih: "insert pubkey checked \<subseteq> ?r"
      "\<forall>m \<in> set (ann_maintainers a). find_repo_announcement events m ident \<noteq> None \<longrightarrow> m \<in> ?r"
      "closed_under events ident (?r - insert pubkey checked) ?r"
      by simp_all
    have "closed_under events ident {pubkey} ?r"
      unfolding closed_under_def using ih(2) a by (metis option.inject singletonD)
    from closed_under_Un [OF this ih(3)] have "closed_under events ident (?r - checked) ?r"
      by (rule closed_under_mono) auto
    with ih(1) show ?thesis by (simp add: r)
  qed
next
  case (2 events ident checked)
  then show ?case by (simp add: closed_under_def)
next
  case (3 events maintainer rest ident checked)
  let ?r1 = "collect_maintainers_inner events maintainer ident checked"
  let ?r = "collect_maintainers_loop events rest ident ?r1"
  from 3 have "?r1 \<subseteq> ?r" and "closed_under events ident (?r1 - checked) ?r1"
    and c2: "closed_under events ident (?r - ?r1) ?r" by simp_all
  then have "closed_under events ident (?r1 - checked) ?r"
    by (meson closed_under_mono order_refl)
  from closed_under_Un [OF this c2] have "closed_under events ident (?r - checked) ?r"
    by (rule closed_under_mono) auto
  with 3 show ?case by auto
qed

lemma collect_maintainers_sound:
  "\<forall>p \<in> checked. maintains events owner ident p \<Longrightarrow>
   find_repo_announcement events pubkey ident \<noteq> None \<longrightarrow> maintains events owner ident pubkey \<Longrightarrow>
   \<forall>p \<in> collect_maintainers_inner events pubkey ident checked. maintains events owner ident p"
  "\<forall>p \<in> checked. maintains events owner ident p \<Longrightarrow>
   \<forall>m \<in> set ms. find_repo_announcement events m ident \<noteq> None \<longrightarrow> maintains events owner ident m \<Longrightarrow>
   \<forall>p \<in> collect_maintainers_loop events ms ident checked. maintains events owner ident p"
proof (induction events pubkey ident checked and events ms ident checked
    rule: collect_maintainers_inner_collect_maintainers_loop.induct)
  case (1 events pubkey ident checked)
  show ?case
  proof (cases "pubkey \<in> checked \<or> find_repo_announcement events pubkey ident = None")
    case True
    with 1(2) show ?thesis
      by (auto simp: collect_maintainers_inner.simps [of events pubkey] split: option.splits)
  next
    case False
    then obtain a where a: "find_repo_announcement events pubkey ident = Some a"
      and p: "pubkey \<notin> checked" by blast
    have id: "ann_identifier a = ident" by (rule find_repo_announcement_Some(2) [OF a])
    from a 1(3) have m: "maintains events owner ident pubkey" by simp
    then have "\<forall>m \<in> set (ann_maintainers a). find_repo_announcement events m ident \<noteq> None \<longrightarrow>
        maintains events owner ident m"
      using a by (blast intro: maintains.listed)
    with 1(1) [OF p a] 1(2) m a p id show ?thesis
      by (simp add: collect_maintainers_inner.simps [of events pubkey])
  qed
qed simp_all

lemma collect_maintainers_inner_subset:
  "collect_maintainers_inner events pubkey ident {} = {p. maintains events pubkey ident p}"
proof
  show "collect_maintainers_inner events pubkey ident {} \<subseteq> {p. maintains events pubkey ident p}"
    using collect_maintainers_sound(1) [of "{}" events pubkey ident pubkey]
    by (auto intro: maintains.owner)
  have "maintains events pubkey ident p \<Longrightarrow> p \<in> collect_maintainers_inner events pubkey ident {}" for p
  proof (induction rule: maintains.induct)
    case owner
    then show ?case using collect_maintainers_complete(1) by blast
  next
    case (listed p a m)
    then show ?case
      using collect_maintainers_complete(1) [of "{}" events pubkey ident]
      by (auto simp: closed_under_def)
  qed
  then show "{p. maintains events pubkey ident p} \<subseteq> collect_maintainers_inner events pubkey ident {}"
    by blast
qed

lemma maintains_announced: "maintains events owner ident p \<Longrightarrow> p \<in> ne_pubkey ` set events"
  by (induction rule: maintains.induct) (auto dest: find_repo_announcement_Some(1))

lemma finite_maintains: "finite {p. maintains events owner ident p}"
  by (rule finite_subset [of _ "ne_pubkey ` set events"]) (auto dest: maintains_announced)

section \<open>The latest state and the clone addresses\<close>

lemma max_by_key_None: "max_by_key key xs = None \<longleftrightarrow> xs = []"
  by (cases xs) (auto split: option.splits)

lemma max_by_key_Some:
  "max_by_key key xs = Some x \<Longrightarrow>
   \<exists>as bs. xs = as @ x # bs \<and> (\<forall>y \<in> set as. key y \<le> key x) \<and> (\<forall>y \<in> set bs. key y < key x)"
proof (induction xs arbitrary: x)
  case Nil
  then show ?case by simp
next
  case (Cons z zs)
  show ?case
  proof (cases "max_by_key key zs")
    case None
    with Cons.prems have "z # zs = [] @ x # []" by (simp add: max_by_key_None)
    then show ?thesis by fastforce
  next
    case (Some y)
    then obtain as bs where zs: "zs = as @ y # bs" and le: "\<forall>u \<in> set as. key u \<le> key y"
      and lt: "\<forall>u \<in> set bs. key u < key y" using Cons.IH by blast
    show ?thesis
    proof (cases "key z > key y")
      case True
      with Some Cons.prems have "x = z" by simp
      with True zs le lt show ?thesis by (intro exI [of _ "[]"] exI [of _ zs]) auto
    next
      case False
      with Some Cons.prems have "x = y" by simp
      with False zs le lt show ?thesis by (intro exI [of _ "z # as"] exI [of _ bs]) auto
    qed
  qed
qed

definition clone_ok :: "string \<Rightarrow> bool" where
  "clone_ok url \<longleftrightarrow> url \<noteq> [] \<and> last url \<noteq> CHR ''/''"

lemma push_clone_set:
  "set (push_clone cs u) =
     set cs \<union> (if trim_end_char CHR ''/'' u = [] then {} else {trim_end_char CHR ''/'' u})"
  by (auto simp: push_clone_def Let_def)

lemma foldl_push_clone_set:
  "set (foldl push_clone cs us) = set cs \<union> (trim_end_char CHR ''/'' ` set us - {[]})"
  by (induction us arbitrary: cs) (auto simp: push_clone_set)

lemma foldl_push_clone_distinct: "distinct cs \<Longrightarrow> distinct (foldl push_clone cs us)"
  by (rule foldl_invariant) (auto simp: push_clone_def Let_def)

lemma clone_step_set:
  "set (clone_step ms ident cs e) = set cs \<union>
     {u. u \<noteq> [] \<and> ne_pubkey e \<in> set ms \<and> (\<exists>a. announcement_of (ne_pubkey e) ident e = Some a \<and>
        u \<in> trim_end_char CHR ''/'' ` set (ann_clone a))}"
  by (auto simp: clone_step_def announcement_of_def foldl_push_clone_set split: sum.splits)

lemma foldl_clone_step_set:
  "set (foldl (clone_step ms ident) cs es) = set cs \<union>
     {u. u \<noteq> [] \<and> (\<exists>e \<in> set es. ne_pubkey e \<in> set ms \<and>
        (\<exists>a. announcement_of (ne_pubkey e) ident e = Some a \<and>
           u \<in> trim_end_char CHR ''/'' ` set (ann_clone a)))}"
  by (induction es arbitrary: cs) (auto simp: clone_step_set)

lemma foldl_clone_step_distinct: "distinct cs \<Longrightarrow> distinct (foldl (clone_step ms ident) cs es)"
  by (rule foldl_invariant)
    (auto simp: clone_step_def foldl_push_clone_distinct split: sum.splits)

section \<open>Properties\<close>

text \<open>
  C15: the search ends for every list of events, cyclic maintainer lists included, and returns, in
  order and without duplicates, exactly the maintainers of the repository: the owner who announced
  it and every key a maintainer's announcement lists that announced the repository itself.\<close>

theorem collect_maintainers_exact:
  "set (collect_maintainers events pubkey ident) = {p. maintains events pubkey ident p} \<and>
   sorted (collect_maintainers events pubkey ident) \<and>
   distinct (collect_maintainers events pubkey ident)"
  by (simp add: collect_maintainers_def collect_maintainers_inner_subset finite_maintains)

text \<open>
  The state of a repository is taken from a state event of one of the maintainers that no other
  such event is newer than, the last one in the list among equally new ones; if that event does not
  parse there is no state, whatever the older events say.\<close>

theorem latest_state_is_latest:
  assumes "latest_state_from_maintainers events maintainers = Some s"
  shows "\<exists>as e bs. filter (state_event_of maintainers) events = as @ e # bs \<and>
    repo_state_from_tags (ne_tags e) = Ok s \<and>
    (\<forall>e' \<in> set as. ne_created_at e' \<le> ne_created_at e) \<and>
    (\<forall>e' \<in> set bs. ne_created_at e' < ne_created_at e)"
proof -
  from assms obtain e where
    e: "max_by_key ne_created_at (filter (state_event_of maintainers) events) = Some e"
    and s: "repo_state_from_tags (ne_tags e) = Ok s"
    by (cases "maintainers = []")
      (auto simp: latest_state_from_maintainers_def bind_eq_Some_conv result_ok_eq_Some)
  from max_by_key_Some [OF e] s show ?thesis by metis
qed

theorem latest_state_is_latest_witness:
  "let new = nostr_event_new 30618 ''pk'' 20 [[''d'', ''other'']];
       old = nostr_event_new 30618 ''pk'' 10 [[''d'', ''mine'']];
       s = \<lparr>rs_identifier = ''other'', rs_state = []\<rparr>
   in latest_state_from_maintainers [new, old] [''pk''] = Some s \<and>
      (\<exists>as e bs. filter (state_event_of [''pk'']) [new, old] = as @ e # bs \<and>
         repo_state_from_tags (ne_tags e) = Ok s \<and>
         (\<forall>e' \<in> set as. ne_created_at e' \<le> ne_created_at e) \<and>
         (\<forall>e' \<in> set bs. ne_created_at e' < ne_created_at e))"
proof -
  let ?new = "nostr_event_new 30618 ''pk'' 20 [[''d'', ''other'']]"
  let ?old = "nostr_event_new 30618 ''pk'' 10 [[''d'', ''mine'']]"
  have ok: "latest_state_from_maintainers [?new, ?old] [''pk''] =
      Some \<lparr>rs_identifier = ''other'', rs_state = []\<rparr>"
    by (simp add: latest_state_from_maintainers_def state_event_of_def nostr_event_new_def
        repo_state_from_tags_def state_step_def kind_defs)
  with latest_state_is_latest [OF ok] show ?thesis unfolding Let_def by blast
qed

text \<open>
  The state that is returned need not belong to the repository: a maintainer of two repositories
  who published a newer state for the other one gets that one back, because the identifier of the
  state event is not compared.\<close>

theorem latest_state_ignores_identifier:
  "latest_state_from_maintainers
     [nostr_event_new 30618 pk t [[''d'', mine]], nostr_event_new 30618 pk (t + 1) [[''d'', other]]]
     [pk] = Some \<lparr>rs_identifier = other, rs_state = []\<rparr>"
  by (simp add: latest_state_from_maintainers_def state_event_of_def nostr_event_new_def
      repo_state_from_tags_def state_step_def kind_defs)

text \<open>
  The clone addresses of a repository are exactly those of the announcements of this repository
  that its maintainers published, without trailing slashes, without empty ones and without
  duplicates.\<close>

theorem collect_clone_urls_exact:
  "set (collect_clone_urls events maintainers ident) =
     {u. u \<noteq> [] \<and> (\<exists>e \<in> set events. ne_pubkey e \<in> set maintainers \<and>
        (\<exists>a. announcement_of (ne_pubkey e) ident e = Some a \<and>
           u \<in> trim_end_char CHR ''/'' ` set (ann_clone a)))} \<and>
   distinct (collect_clone_urls events maintainers ident)"
  by (auto simp: collect_clone_urls_def foldl_clone_step_set foldl_clone_step_distinct)

end
