(* ===== verification/Core_Admission.thy ===== *)
theory Core_Admission
  imports Core_State
begin

text \<open>
  Which events a relay admits: \<open>crates/core/src/event_refs.rs\<close> (the events and addresses an
  event refers to, itself included), \<open>event_filters.rs\<close> (the queries that look for related
  events) and \<open>admission.rs\<close> (the decision). The tag map of a filter is a \<open>BTreeMap\<close>.
\<close>

section \<open>References of an event\<close>

definition ADDRESSABLE_KIND_START :: u32 where "ADDRESSABLE_KIND_START = 30000"
definition ADDRESSABLE_KIND_END :: u32 where "ADDRESSABLE_KIND_END = 40000"

record event_references =
  er_event_ids :: "string list"
  er_address_pointers :: "string list"

definition event_references_new :: event_references where
  "event_references_new = \<lparr>er_event_ids = [], er_address_pointers = []\<rparr>"

definition event_references_is_empty :: "event_references \<Rightarrow> bool" where
  "event_references_is_empty refs \<longleftrightarrow> er_event_ids refs = [] \<and> er_address_pointers refs = []"

definition push_id :: "event_references \<Rightarrow> string \<Rightarrow> event_references" where
  "push_id refs v = refs\<lparr>er_event_ids := push_unique (er_event_ids refs) v\<rparr>"

definition push_pointer :: "event_references \<Rightarrow> string \<Rightarrow> event_references" where
  "push_pointer refs v = refs\<lparr>er_address_pointers := push_unique (er_address_pointers refs) v\<rparr>"

fun reference_step :: "event_references \<Rightarrow> tag \<Rightarrow> event_references" where
  "reference_step refs (key # v # _) =
     (if key = ''a'' \<or> key = ''A'' then push_pointer refs v
      else if key = ''e'' \<or> key = ''E'' then push_id refs v
      else if key = ''q'' then (if CHR '':'' \<in> set v then push_pointer refs v else push_id refs v)
      else refs)"
| "reference_step refs _ = refs"

definition collect_event_references :: "tag list \<Rightarrow> event_references" where
  "collect_event_references tags = foldl reference_step event_references_new tags"

definition is_addressable_kind :: "u32 \<Rightarrow> bool" where
  "is_addressable_kind kind \<longleftrightarrow> kind \<ge> ADDRESSABLE_KIND_START \<and> kind < ADDRESSABLE_KIND_END"

definition find_d_tag :: "tag list \<Rightarrow> string option" where
  "find_d_tag tags =
     find_map (\<lambda>tag. case tag of k # v # _ \<Rightarrow> if k = ''d'' then Some v else None | _ \<Rightarrow> None) tags"

definition self_pointer :: "u32 \<Rightarrow> string \<Rightarrow> tag list \<Rightarrow> string" where
  "self_pointer kind pubkey tags =
     (case find_d_tag tags of
        Some ident \<Rightarrow> show_nat (unat kind) @ '':'' @ pubkey @ '':'' @ ident
      | None \<Rightarrow> show_nat (unat kind) @ '':'' @ pubkey)"

definition collect_event_references_with_self ::
  "u32 \<Rightarrow> string \<Rightarrow> string \<Rightarrow> tag list \<Rightarrow> event_references" where
  "collect_event_references_with_self kind pubkey event_id tags =
     (let refs = collect_event_references tags in
      if is_addressable_kind kind then push_pointer refs (self_pointer kind pubkey tags)
      else push_id refs event_id)"

section \<open>Filters for related events\<close>

record event_filter =
  ef_ids :: "string list"
  ef_kinds :: "u32 list"
  ef_authors :: "string list"
  ef_tags :: "(string, string list) entries"
  ef_limit :: "nat option"

definition event_filter_new :: event_filter where
  "event_filter_new =
     \<lparr>ef_ids = [], ef_kinds = [], ef_authors = [], ef_tags = [], ef_limit = None\<rparr>"

definition with_limit :: "event_filter \<Rightarrow> nat \<Rightarrow> event_filter" where
  "with_limit f n = f\<lparr>ef_limit := Some n\<rparr>"

definition insert_tag :: "string \<Rightarrow> string list \<Rightarrow> event_filter \<Rightarrow> event_filter" where
  "insert_tag key values f = f\<lparr>ef_tags := bt_insert key values (ef_tags f)\<rparr>"

text \<open>\<open>entry(key).or_insert_with(Vec::new).extend(values)\<close>\<close>

definition extend_tag :: "string \<Rightarrow> string list \<Rightarrow> event_filter \<Rightarrow> event_filter" where
  "extend_tag key values f =
     f\<lparr>ef_tags := bt_insert key
         ((case map_of (ef_tags f) key of Some vs \<Rightarrow> vs | None \<Rightarrow> []) @ values) (ef_tags f)\<rparr>"

definition related_kinds :: "u32 \<Rightarrow> u32 list" where
  "related_kinds kind =
     (if kind = kind_value KIND_GIT_REPO_STATE
      then [kind_value KIND_GIT_REPO_STATE, kind_value KIND_GIT_REPO_ANNOUNCEMENT] else [kind])"

definition build_pointer_filter :: "string \<Rightarrow> event_filter option" where
  "build_pointer_filter pointer =
     (case str_split pointer CHR '':'' of
        [kind, author, ident] \<Rightarrow>
          (case parse_unsigned 32 kind of
             None \<Rightarrow> None
           | Some k \<Rightarrow>
               Some (insert_tag ''d'' [ident]
                 (event_filter_new\<lparr>ef_kinds := related_kinds (of_nat k), ef_authors := [author]\<rparr>)))
      | [kind, author] \<Rightarrow>
          (case parse_unsigned 32 kind of
             None \<Rightarrow> None
           | Some k \<Rightarrow>
               Some (event_filter_new\<lparr>ef_kinds := related_kinds (of_nat k), ef_authors := [author]\<rparr>))
      | _ \<Rightarrow> None)"

definition build_related_event_filters ::
  "u32 \<Rightarrow> string \<Rightarrow> string \<Rightarrow> tag list \<Rightarrow> event_filter list" where
  "build_related_event_filters kind pubkey event_id tags =
     (let refs = collect_event_references_with_self kind pubkey event_id tags;
          ids = er_event_ids refs;
          pointers = er_address_pointers refs
      in (if ids \<noteq> [] then [with_limit (event_filter_new\<lparr>ef_ids := ids\<rparr>) 1] else []) @
         filter_map (\<lambda>p. map_option (\<lambda>f. with_limit f 1) (build_pointer_filter p)) pointers @
         (if ids \<noteq> []
          then [with_limit (extend_tag ''E'' ids (insert_tag ''e'' ids event_filter_new)) 1] else []) @
         (if pointers \<noteq> []
          then [with_limit (extend_tag ''A'' pointers (insert_tag ''a'' pointers event_filter_new)) 1]
          else []) @
         [with_limit (insert_tag ''q'' (pointers @ ids) event_filter_new) 1])"

section \<open>The decision\<close>

datatype admission_decision =
    Accept
  | Reject string
  | RequiresRelatedEvents "event_filter list"

definition evaluate_admission ::
  "url_parser \<Rightarrow> u32 \<Rightarrow> string \<Rightarrow> string \<Rightarrow> tag list \<Rightarrow> string option \<Rightarrow> admission_decision core_result" where
  "evaluate_admission url_parse kind pubkey event_id tags relay_host =
     (if kind = kind_value KIND_GIT_REPO_STATE then Ok Accept
      else if kind = kind_value KIND_GIT_REPO_ANNOUNCEMENT then
        (case relay_host of
           None \<Rightarrow> Ok (Reject ''missing relay host for announcement check'')
         | Some host \<Rightarrow>
             and_then (announcement_from_tags tags) (\<lambda>announcement.
               if ann_clone announcement = []
               then Ok (Reject ''repository announcement missing clone tags'')
               else if ann_relays announcement = []
               then Ok (Reject ''repository announcement missing relays tags'')
               else
                 and_then (lists_grasp_host url_parse announcement host) (\<lambda>listed.
                   if listed then Ok Accept
                   else Ok (Reject ''repository announcement does not list relay host''))))
      else Ok (RequiresRelatedEvents (build_related_event_filters kind pubkey event_id tags)))"

section \<open>Lemmas\<close>

text \<open>The identifiers and the addresses a list of tags names.\<close>

fun names_id :: "tag \<Rightarrow> string \<Rightarrow> bool" where
  "names_id (key # v # _) x \<longleftrightarrow>
     x = v \<and> (key = ''e'' \<or> key = ''E'' \<or> key = ''q'' \<and> CHR '':'' \<notin> set v)"
| "names_id _ x \<longleftrightarrow> False"

fun names_address :: "tag \<Rightarrow> string \<Rightarrow> bool" where
  "names_address (key # v # _) x \<longleftrightarrow>
     x = v \<and> (key = ''a'' \<or> key = ''A'' \<or> key = ''q'' \<and> CHR '':'' \<in> set v)"
| "names_address _ x \<longleftrightarrow> False"

lemma push_simps [simp]:
  "er_event_ids (push_id refs v) = push_unique (er_event_ids refs) v"
  "er_address_pointers (push_id refs v) = er_address_pointers refs"
  "er_event_ids (push_pointer refs v) = er_event_ids refs"
  "er_address_pointers (push_pointer refs v) = push_unique (er_address_pointers refs) v"
  by (simp_all add: push_id_def push_pointer_def)

lemma reference_step_sets:
  "set (er_event_ids (reference_step refs tag)) = set (er_event_ids refs) \<union> {x. names_id tag x}"
  "set (er_address_pointers (reference_step refs tag)) =
     set (er_address_pointers refs) \<union> {x. names_address tag x}"
  by (cases "(refs, tag)" rule: reference_step.cases; auto)+

lemma references_fold:
  "set (er_event_ids (foldl reference_step refs tags)) =
     set (er_event_ids refs) \<union> {x. \<exists>tag \<in> set tags. names_id tag x}"
  "set (er_address_pointers (foldl reference_step refs tags)) =
     set (er_address_pointers refs) \<union> {x. \<exists>tag \<in> set tags. names_address tag x}"
  by (induction tags arbitrary: refs) (auto simp: reference_step_sets)

lemma references_with_self_sets:
  "set (er_event_ids (collect_event_references_with_self kind pubkey event_id tags)) =
     {x. \<exists>tag \<in> set tags. names_id tag x} \<union> (if is_addressable_kind kind then {} else {event_id})"
  "set (er_address_pointers (collect_event_references_with_self kind pubkey event_id tags)) =
     {x. \<exists>tag \<in> set tags. names_address tag x} \<union>
     (if is_addressable_kind kind then {self_pointer kind pubkey tags} else {})"
  by (auto simp: collect_event_references_with_self_def collect_event_references_def Let_def
      references_fold event_references_new_def)

lemma with_limit_simps [simp]:
  "ef_limit (with_limit f n) = Some n" "ef_ids (with_limit f n) = ef_ids f"
  "ef_tags (with_limit f n) = ef_tags f" "ef_kinds (with_limit f n) = ef_kinds f"
  "ef_authors (with_limit f n) = ef_authors f"
  by (simp_all add: with_limit_def)

lemma related_filters_limit:
  "f \<in> set (build_related_event_filters kind pubkey event_id tags) \<Longrightarrow> ef_limit f = Some 1"
  by (auto simp: build_related_event_filters_def Let_def set_filter_map split: if_splits)

lemma insert_tag_tags: "ef_tags (insert_tag k vs event_filter_new) = [(k, vs)]"
  by (simp add: insert_tag_def event_filter_new_def)

section \<open>Properties\<close>

text \<open>
  The references of an event are exactly the identifiers and addresses its e, a and q tags name,
  plus its own address when its kind is addressable and its own identifier otherwise; so there is
  always at least one.\<close>

theorem event_references_exact:
  "set (er_event_ids (collect_event_references_with_self kind pubkey event_id tags)) =
     {x. \<exists>tag \<in> set tags. names_id tag x} \<union> (if is_addressable_kind kind then {} else {event_id}) \<and>
   set (er_address_pointers (collect_event_references_with_self kind pubkey event_id tags)) =
     {x. \<exists>tag \<in> set tags. names_address tag x} \<union>
     (if is_addressable_kind kind then {self_pointer kind pubkey tags} else {}) \<and>
   \<not> event_references_is_empty (collect_event_references_with_self kind pubkey event_id tags)"
proof -
  let ?r = "collect_event_references_with_self kind pubkey event_id tags"
  have "set (er_event_ids ?r) \<noteq> {} \<or> set (er_address_pointers ?r) \<noteq> {}"
    by (simp add: references_with_self_sets)
  then have "\<not> event_references_is_empty ?r" by (auto simp: event_references_is_empty_def)
  then show ?thesis by (simp add: references_with_self_sets)
qed

text \<open>
  An event is accepted without looking for related events exactly when it is a repository state,
  or an announcement that has clone addresses and one of whose relays is this relay's own host,
  compared after normalisation; every other announcement that parses is rejected.\<close>

theorem admission_accept_iff:
  "evaluate_admission url_parse kind pubkey event_id tags relay_host = Ok Accept \<longleftrightarrow>
     kind = 30618 \<or>
     kind = 30617 \<and>
     (\<exists>host h a r. relay_host = Some host \<and> announcement_from_tags tags = Ok a \<and>
        ann_clone a \<noteq> [] \<and> normalize_grasp_host_for_compare url_parse host = Ok h \<and>
        r \<in> set (ann_relays a) \<and> normalize_grasp_host_for_compare url_parse r = Ok h)"
proof -
  have listed: "lists_grasp_host url_parse a host = Ok True \<longleftrightarrow>
      (\<exists>h r. normalize_grasp_host_for_compare url_parse host = Ok h \<and> r \<in> set (ann_relays a) \<and>
         normalize_grasp_host_for_compare url_parse r = Ok h)" for a host
    by (auto simp: lists_grasp_host_def and_then_eq_Ok list_ex_iff set_filter_map result_ok_eq_Some)
  have announced: "evaluate_admission url_parse 30617 pubkey event_id tags relay_host = Ok Accept \<longleftrightarrow>
      (\<exists>host a. relay_host = Some host \<and> announcement_from_tags tags = Ok a \<and> ann_clone a \<noteq> [] \<and>
         ann_relays a \<noteq> [] \<and> lists_grasp_host url_parse a host = Ok True)"
    by (auto simp: evaluate_admission_def kind_defs and_then_eq_Ok split: option.splits if_splits)
  show ?thesis
  proof (cases "kind = 30617")
    case True
    then show ?thesis unfolding True announced listed by fastforce
  next
    case False
    then show ?thesis by (simp add: evaluate_admission_def kind_defs)
  qed
qed

end
