(* ===== verification/Rust_Utf8.thy ===== *)
theory Rust_Utf8
  imports Rust_Str
begin

text \<open>
  Valid UTF-8 (what a Rust \<open>str\<close> guarantees and \<open>OsStr::to_str\<close> checks), how
  \<open>chars\<close> distributes over the concatenation of valid strings, when trimming changes nothing,
  and the components of a path (\<open>std::path::Path\<close> on Unix).
\<close>

section \<open>Valid strings\<close>

definition is_continuation :: "char \<Rightarrow> bool" where
  "is_continuation c \<longleftrightarrow> 128 \<le> byte c \<and> byte c < 192"

fun valid_char :: "string \<Rightarrow> bool" where
  "valid_char [a] \<longleftrightarrow> byte a < 128"
| "valid_char [a, b] \<longleftrightarrow> 194 \<le> byte a \<and> byte a < 224 \<and> is_continuation b"
| "valid_char [a, b, c] \<longleftrightarrow>
     224 \<le> byte a \<and> byte a < 240 \<and> is_continuation b \<and> is_continuation c \<and>
     (byte a = 224 \<longrightarrow> 160 \<le> byte b) \<and> (byte a = 237 \<longrightarrow> byte b < 160)"
| "valid_char [a, b, c, d] \<longleftrightarrow>
     240 \<le> byte a \<and> byte a < 245 \<and> is_continuation b \<and> is_continuation c \<and> is_continuation d \<and>
     (byte a = 240 \<longrightarrow> 144 \<le> byte b) \<and> (byte a = 244 \<longrightarrow> byte b < 144)"
| "valid_char _ \<longleftrightarrow> False"

definition valid_utf8 :: "string \<Rightarrow> bool" where
  "valid_utf8 s \<longleftrightarrow> list_all valid_char (chars s)"

lemma valid_char_length: "valid_char ch \<Longrightarrow> ch \<noteq> [] \<and> length ch = utf8_len (hd ch)"
  by (cases ch rule: valid_char.cases) (auto simp: utf8_len_def)

lemma valid_utf8_Nil [simp]: "valid_utf8 []"
  by (simp add: valid_utf8_def)

lemma valid_utf8_Cons:
  assumes "valid_utf8 (c # s)"
  shows "valid_char (take (utf8_len c) (c # s))" and "utf8_len c \<le> length (c # s)"
    and "valid_utf8 (drop (utf8_len c) (c # s))"
proof -
  show v: "valid_char (take (utf8_len c) (c # s))" and "valid_utf8 (drop (utf8_len c) (c # s))"
    using assms by (simp_all add: valid_utf8_def)
  have "hd (take (utf8_len c) (c # s)) = c"
    using utf8_len_pos [of c] by (cases "utf8_len c") simp_all
  with valid_char_length [OF v] show "utf8_len c \<le> length (c # s)"
    by (metis length_take min.absorb_iff2)
qed

lemma chars_append: "valid_utf8 s \<Longrightarrow> chars (s @ t) = chars s @ chars t"
proof (induction s rule: chars.induct)
  case 1
  then show ?case by simp
next
  case (2 c s)
  let ?n = "utf8_len c"
  have len: "?n \<le> length (c # s)" and rest: "valid_utf8 (drop ?n (c # s))"
    by (rule valid_utf8_Cons [OF 2(2)])+
  have "chars ((c # s) @ t) = take ?n ((c # s) @ t) # chars (drop ?n ((c # s) @ t))"
    by simp
  also have "take ?n ((c # s) @ t) = take ?n (c # s)"
    using len by (simp only: take_append) simp
  also have "drop ?n ((c # s) @ t) = drop ?n (c # s) @ t"
    using len by (simp only: drop_append) simp
  finally show ?case using 2(1) [OF rest] by simp
qed

lemma valid_utf8_append: "valid_utf8 s \<Longrightarrow> valid_utf8 (s @ t) \<longleftrightarrow> valid_utf8 t"
  by (simp add: valid_utf8_def chars_append)

lemma valid_utf8_ascii: "is_ascii s \<Longrightarrow> valid_utf8 s"
  by (simp add: valid_utf8_def chars_ascii list_all_length is_ascii_def)

lemma chars_single: "valid_char ch \<Longrightarrow> chars ch = [ch]"
proof -
  assume "valid_char ch"
  then have "ch \<noteq> []" and len: "length ch = utf8_len (hd ch)" using valid_char_length by blast+
  then obtain c s where ch: "ch = c # s" by (cases ch) auto
  with len have "take (utf8_len c) ch = ch" "drop (utf8_len c) ch = []" by simp_all
  with ch show ?thesis by simp
qed

lemma valid_utf8_char: "valid_char ch \<Longrightarrow> valid_utf8 ch"
  by (simp add: valid_utf8_def chars_single)

lemma chars_concat: "list_all valid_char chs \<Longrightarrow> chars (concat chs) = chs \<and> valid_utf8 (concat chs)"
proof (induction chs)
  case Nil
  then show ?case by simp
next
  case (Cons ch chs)
  then have "valid_char ch" and ih: "chars (concat chs) = chs" "valid_utf8 (concat chs)" by simp_all
  then show ?case
    by (simp add: chars_append valid_utf8_char chars_single valid_utf8_append)
qed

lemma valid_chars: "valid_utf8 s \<Longrightarrow> ch \<in> set (chars s) \<Longrightarrow> valid_char ch"
  by (simp add: valid_utf8_def list_all_iff)

section \<open>Trimming\<close>

definition ws_tails :: "char set" where
  "ws_tails = last ` set ws_encodings"

lemma ws_tails_eq:
  "ws_tails = char_of ` {9, 10, 11, 12, 13, 32, 128, 129, 130, 131, 132, 133, 134, 135, 136, 137, 138,
     159, 160, 168, 169, 175 :: nat}"
  unfolding ws_tails_def ws_encodings_def by (auto simp: image_def)

lemma ws_tail_byte: "c \<in> ws_tails \<Longrightarrow> byte c \<in> {9, 10, 11, 12, 13, 32} \<or> 128 \<le> byte c"
  by (auto simp: ws_tails_eq)

lemma trim_end_id: "s = [] \<or> last s \<notin> ws_tails \<Longrightarrow> trim_end s = s"
proof -
  assume s: "s = [] \<or> last s \<notin> ws_tails"
  have "\<not> suffix w s" if w: "w \<in> set ws_encodings" for w
  proof
    assume "suffix w s"
    with ws_encodings_nonempty [OF w] have "s \<noteq> []" "last s = last w" by (auto simp: suffix_def)
    with s w show False by (simp add: ws_tails_def)
  qed
  then have "find (\<lambda>w. suffix w s) ws_encodings = None" by (auto simp: find_None_iff)
  then show ?thesis by (simp add: trim_end.simps)
qed

lemma trim_id: "s = [] \<or> hd s \<notin> ws_leads \<and> last s \<notin> ws_tails \<Longrightarrow> trim s = s"
  by (auto simp: trim_def trim_start_id trim_end_id)

section \<open>Paths\<close>

datatype path_component = RootDir | CurDir | ParentDir | Normal string

definition part_component :: "string \<Rightarrow> path_component option" where
  "part_component p =
     (if p = [] \<or> p = ''.'' then None else if p = ''..'' then Some ParentDir else Some (Normal p))"

text \<open>\<open>Path::components\<close>: repeated slashes and inner dots are dropped, a leading dot is kept.\<close>

definition path_components :: "string \<Rightarrow> path_component list" where
  "path_components p =
     (if starts_with p ''/'' then [RootDir]
      else if p = ''.'' \<or> starts_with p ''./'' then [CurDir] else []) @
     filter_map part_component (str_split p CHR ''/'')"

definition path_file_name :: "path_component list \<Rightarrow> string option" where
  "path_file_name cs = (case rev cs of Normal n # _ \<Rightarrow> Some n | _ \<Rightarrow> None)"

definition path_parent :: "path_component list \<Rightarrow> path_component list option" where
  "path_parent cs =
     (case rev cs of [] \<Rightarrow> None | RootDir # _ \<Rightarrow> None | _ # rest \<Rightarrow> Some (rev rest))"

definition os_to_str :: "string \<Rightarrow> string option" where
  "os_to_str s = (if valid_utf8 s then Some s else None)"

lemma trim_start_no_ws: "w \<in> set ws_encodings \<Longrightarrow> \<not> prefix w (trim_start s)"
proof (induction s rule: trim_start.induct)
  case (1 s)
  show ?case
  proof (cases "find (\<lambda>w. prefix w s) ws_encodings")
    case None
    then have "trim_start s = s" by (simp add: trim_start.simps [of s])
    then show ?thesis using 1(2) None by (simp add: find_None_iff)
  next
    case (Some v)
    then show ?thesis using 1 by (simp add: trim_start.simps [of s])
  qed
qed

lemma trim_end_prefix: "prefix (trim_end s) s"
proof (induction s rule: trim_end.induct)
  case (1 s)
  show ?case
  proof (cases "find (\<lambda>w. suffix w s) ws_encodings")
    case None
    then show ?thesis by (simp add: trim_end.simps [of s])
  next
    case (Some v)
    then show ?thesis using 1 [OF Some] by (simp add: trim_end.simps [of s]) (metis prefix_order.trans take_is_prefix)
  qed
qed

lemma trim_keeps:
  assumes "c \<in> set s" and "\<forall>w \<in> set ws_encodings. c \<notin> set w"
  shows "c \<in> set (trim s)"
proof -
  have "c \<in> set s \<Longrightarrow> c \<in> set (trim_start s)" for s
  proof (induction s rule: trim_start.induct)
    case (1 s)
    show ?case
    proof (cases "find (\<lambda>w. prefix w s) ws_encodings")
      case None
      then show ?thesis using 1(2) by (simp add: trim_start.simps [of s])
    next
      case (Some w)
      then have "prefix w s" "w \<in> set ws_encodings" by (auto simp: find_Some_iff)
      then have "c \<in> set (drop (length w) s)" using 1(2) assms(2) by (auto simp: prefix_def)
      then show ?thesis using 1(1) [OF Some] Some by (simp add: trim_start.simps [of s])
    qed
  qed
  moreover have "c \<in> set s \<Longrightarrow> c \<in> set (trim_end s)" for s
  proof (induction s rule: trim_end.induct)
    case (1 s)
    show ?case
    proof (cases "find (\<lambda>w. suffix w s) ws_encodings")
      case None
      then show ?thesis using 1(2) by (simp add: trim_end.simps [of s])
    next
      case (Some w)
      then have "suffix w s" "w \<in> set ws_encodings" by (auto simp: find_Some_iff)
      then have "c \<in> set (take (length s - length w) s)" using 1(2) assms(2) by (auto simp: suffix_def)
      then show ?thesis using 1(1) [OF Some] Some by (simp add: trim_end.simps [of s])
    qed
  qed
  ultimately show ?thesis using assms(1) by (simp add: trim_def)
qed

lemma trim_end_idem: "trim_end (trim_end s) = trim_end s"
proof (induction s rule: trim_end.induct)
  case (1 s)
  show ?case
  proof (cases "find (\<lambda>w. suffix w s) ws_encodings")
    case None
    then have "trim_end s = s" by (simp add: trim_end.simps [of s])
    then show ?thesis by simp
  next
    case (Some v)
    then show ?thesis using 1 [OF Some] by (simp add: trim_end.simps [of s])
  qed
qed

lemma trim_idem [simp]: "trim (trim s) = trim s"
proof -
  have "find (\<lambda>w. prefix w (trim s)) ws_encodings = None"
    using trim_start_no_ws trim_end_prefix [of "trim_start s"]
    by (auto simp: find_None_iff trim_def dest: prefix_order.trans)
  then have "trim_start (trim s) = trim s" by (simp add: trim_start.simps)
  then show ?thesis by (simp add: trim_def trim_end_idem)
qed

text \<open>White space and the visible ASCII characters have no byte in common.\<close>

lemma plain_not_ws:
  assumes "33 \<le> byte c" and "byte c \<le> 126"
  shows "c \<notin> ws_leads" and "w \<in> set ws_encodings \<Longrightarrow> last w \<noteq> c" and "w \<in> set ws_encodings \<Longrightarrow> c \<notin> set w"
  using assms by (auto simp: ws_leads_eq ws_encodings_def)

lemma trim_plain_ends:
  assumes "s \<noteq> []" and "33 \<le> byte (hd s)" "byte (hd s) \<le> 126" and "33 \<le> byte (last s)" "byte (last s) \<le> 126"
  shows "trim s = s"
proof -
  have "find (\<lambda>w. suffix w s) ws_encodings = None"
    using plain_not_ws(2) [OF assms(4,5)] ws_encodings_nonempty assms(1)
    by (force simp: find_None_iff suffix_def)
  then show ?thesis using assms plain_not_ws(1) by (simp add: trim_def trim_start_id trim_end.simps)
qed

lemma str_split_sep_append: "str_split (a @ d # b) d = str_split a d @ str_split b d"
  by (induction a) (auto split: list.splits)

lemma filter_map_append: "filter_map f (xs @ ys) = filter_map f xs @ filter_map f ys"
  by (induction xs) (auto split: option.splits)

lemma path_components_two:
  assumes "CHR ''/'' \<notin> set a" and "CHR ''/'' \<notin> set b"
    and "part_component a = Some (Normal a)" and "part_component b = Some (Normal b)"
  shows "\<exists>cs. path_components (base @ ''/'' @ a @ ''/'' @ b) = cs @ [Normal a, Normal b]"
proof -
  have "filter_map part_component (str_split (base @ ''/'' @ a @ ''/'' @ b) CHR ''/'') =
      filter_map part_component (str_split base CHR ''/'') @ [Normal a, Normal b]"
    using assms by (simp add: str_split_sep_append str_split_no_sep filter_map_append)
  then show ?thesis by (simp add: path_components_def)
qed

end
