(* ===== verification/Core_Repo.thy ===== *)
theory Core_Repo
  imports Core_Grasp Rust_Utf8
begin

text \<open>
  Names of repositories: \<open>crates/core/src/repo_path.rs\<close> (a bare repository's path carries the
  owner's npub and the identifier) and \<open>repo_mapping.rs\<close> (the name of a repository on the
  Forgejo side). The bech32 decoder is a parameter.
\<close>

section \<open>Repository paths\<close>

record repo_path =
  rp_npub :: string
  rp_identifier :: string
  rp_pubkey :: string

definition bytes_to_hex :: "u8 list \<Rightarrow> string" where
  "bytes_to_hex bytes = concat (map hex_byte bytes)"

definition decode_npub_pubkey :: "bech32_decoder \<Rightarrow> string \<Rightarrow> string core_result" where
  "decode_npub_pubkey bech32_decode npub =
     (case bech32_decode npub of
        None \<Rightarrow> Err (InvalidField ''npub'' npub)
      | Some (hrp, data) \<Rightarrow>
          (if hrp \<noteq> ''npub'' then Err (InvalidField ''npub'' npub)
           else if length data \<noteq> 32 then Err (InvalidField ''npub'' npub)
           else Ok (bytes_to_hex data)))"

definition parse_repo_path :: "bech32_decoder \<Rightarrow> string \<Rightarrow> repo_path core_result" where
  "parse_repo_path bech32_decode path =
     (let cs = path_components path in
      and_then (ok_or (MissingField ''repo_path'') (Option.bind (path_file_name cs) os_to_str))
      (\<lambda>name.
        let ident = (case strip_suffix name ''.git'' of Some s \<Rightarrow> s | None \<Rightarrow> name) in
        and_then (ensure (\<not> blank ident) (MissingField ''identifier'')) (\<lambda>_.
        and_then (ok_or (MissingField ''npub'')
          (Option.bind (Option.bind (path_parent cs) path_file_name) os_to_str)) (\<lambda>npub.
        and_then (decode_npub_pubkey bech32_decode npub) (\<lambda>pubkey.
        Ok \<lparr>rp_npub = npub, rp_identifier = ident, rp_pubkey = pubkey\<rparr>)))))"

section \<open>Forgejo names\<close>

record forgejo_repo =
  fr_owner :: string
  fr_name :: string

definition forgejo_repo_new :: "string \<Rightarrow> string \<Rightarrow> forgejo_repo core_result" where
  "forgejo_repo_new owner name =
     (if blank owner \<or> blank name then Err (MissingField ''forgejo_repo'')
      else if CHR ''/'' \<in> set owner \<or> CHR ''/'' \<in> set name
      then Err (InvalidField ''forgejo_repo'' (owner @ ''/'' @ name))
      else if list_ex is_whitespace (chars owner) \<or> list_ex is_whitespace (chars name)
      then Err (InvalidField ''forgejo_repo'' (owner @ ''/'' @ name))
      else Ok \<lparr>fr_owner = owner, fr_name = name\<rparr>)"

definition forgejo_repo_parse :: "string \<Rightarrow> forgejo_repo core_result" where
  "forgejo_repo_parse v =
     (let parts = str_splitn 3 v CHR ''/'';
          owner = (case part parts 0 of Some p \<Rightarrow> p | None \<Rightarrow> []);
          name = (case part parts 1 of Some p \<Rightarrow> p | None \<Rightarrow> []);
          extra = part parts 2
      in if extra \<noteq> None then Err (InvalidField ''forgejo_repo'' v) else forgejo_repo_new owner name)"

definition full_name :: "forgejo_repo \<Rightarrow> string" where
  "full_name r = fr_owner r @ ''/'' @ fr_name r"

record repo_mapping =
  rm_forgejo :: forgejo_repo
  rm_pubkey :: string
  rm_identifier :: string

definition repo_mapping_new ::
  "string \<Rightarrow> string \<Rightarrow> string \<Rightarrow> string \<Rightarrow> repo_mapping core_result" where
  "repo_mapping_new forgejo_owner forgejo_name pubkey ident =
     and_then (ensure (\<not> blank ident) (MissingField ''identifier'')) (\<lambda>_.
     and_then (ensure (is_hex_len pubkey 64) (InvalidField ''pubkey'' pubkey)) (\<lambda>_.
     and_then (forgejo_repo_new forgejo_owner forgejo_name) (\<lambda>forgejo.
     Ok \<lparr>rm_forgejo = forgejo, rm_pubkey = pubkey, rm_identifier = ident\<rparr>)))"

section \<open>Lemmas\<close>

lemma bytes_to_hex_is_hex: "is_hex_len (bytes_to_hex bytes) (2 * length bytes)"
  by (induction bytes)
    (use hex_byte_is_hex in \<open>auto simp: bytes_to_hex_def is_hex_len_def list_all_iff\<close>)

lemma decode_npub_hex: "decode_npub_pubkey dec npub = Ok pk \<Longrightarrow> is_hex_len pk 64"
  using bytes_to_hex_is_hex
  by (auto simp: decode_npub_pubkey_def split: option.splits if_splits) (metis mult_2 numeral_Bit0)

text \<open>What \<open>ForgejoRepo::new\<close> lets through.\<close>

definition forgejo_repo_wf :: "forgejo_repo \<Rightarrow> bool" where
  "forgejo_repo_wf r \<longleftrightarrow> forgejo_repo_new (fr_owner r) (fr_name r) = Ok r"

lemma forgejo_repo_new_Ok:
  "forgejo_repo_new owner name = Ok r \<Longrightarrow> r = \<lparr>fr_owner = owner, fr_name = name\<rparr> \<and> forgejo_repo_wf r"
  by (auto simp: forgejo_repo_new_def forgejo_repo_wf_def split: if_splits)

lemma forgejo_repo_wf_slash:
  "forgejo_repo_wf r \<Longrightarrow> CHR ''/'' \<notin> set (fr_owner r) \<and> CHR ''/'' \<notin> set (fr_name r)"
  by (auto simp: forgejo_repo_wf_def forgejo_repo_new_def split: if_splits)

lemma splitn3_full_name:
  assumes "CHR ''/'' \<notin> set a" and "CHR ''/'' \<notin> set b"
  shows "str_splitn 3 (a @ ''/'' @ b) CHR ''/'' = [a, b]"
  using assms split_once_append [OF assms(1), of b]
  by (simp add: numeral_3_eq_3 split_once_None [THEN iffD2])

lemma splitn3_two:
  "str_splitn 3 v CHR ''/'' = [a, b] \<Longrightarrow> v = a @ ''/'' @ b"
  by (auto simp: numeral_3_eq_3 split_once_None split: option.splits dest!: split_once_Some)

section \<open>Properties\<close>

text \<open>
  The path of a bare repository, a directory named after the owner's npub holding a directory
  named after the identifier with the suffix .git, is parsed back to the npub, the identifier and
  the owner's key in hexadecimal, under whatever base directory it stands and even when the
  identifier itself ends in .git.\<close>

theorem parse_repo_path_layout:
  assumes npub: "CHR ''/'' \<notin> set npub" "valid_utf8 npub" "npub \<notin> {[], ''.'', ''..''}"
    and ident: "CHR ''/'' \<notin> set ident" "valid_utf8 ident" "\<not> blank ident"
    and decodes: "bech32_decode npub = Some (''npub'', data)" "length data = 32"
  shows "parse_repo_path bech32_decode (base @ ''/'' @ npub @ ''/'' @ ident @ ''.git'') =
      Ok \<lparr>rp_npub = npub, rp_identifier = ident, rp_pubkey = bytes_to_hex data\<rparr> \<and>
    is_hex_len (bytes_to_hex data) 64"
proof -
  let ?name = "ident @ ''.git''"
  obtain cs where cs: "path_components (base @ ''/'' @ npub @ ''/'' @ ?name) = cs @ [Normal npub, Normal ?name]"
  proof -
    have "part_component npub = Some (Normal npub)" "part_component ?name = Some (Normal ?name)"
      using npub(3) by (auto simp: part_component_def append_eq_Cons_conv)
    then show ?thesis
      using that path_components_two [of npub ?name base] npub(1) ident(1) by auto
  qed
  have "valid_utf8 ?name"
    using ident(2) by (simp add: valid_utf8_append valid_utf8_ascii is_ascii_def)
  moreover have "strip_suffix ?name ''.git'' = Some ident"
    by (simp add: strip_suffix_def suffix_def)
  ultimately have "parse_repo_path bech32_decode (base @ ''/'' @ npub @ ''/'' @ ?name) =
      Ok \<lparr>rp_npub = npub, rp_identifier = ident, rp_pubkey = bytes_to_hex data\<rparr>"
    using npub(2) ident(3) decodes cs
    by (simp add: parse_repo_path_def path_file_name_def path_parent_def os_to_str_def
        decode_npub_pubkey_def Let_def)
  then show ?thesis using bytes_to_hex_is_hex [of data] decodes(2) by simp
qed

theorem parse_repo_path_layout_witness:
  "parse_repo_path (\<lambda>_. Some (''npub'', replicate 32 7)) (''/srv/git'' @ ''/'' @ ''npub1x'' @ ''/'' @ ''app'' @ ''.git'') =
     Ok \<lparr>rp_npub = ''npub1x'', rp_identifier = ''app'', rp_pubkey = bytes_to_hex (replicate 32 7)\<rparr> \<and>
   is_hex_len (bytes_to_hex (replicate 32 7)) 64"
proof (rule parse_repo_path_layout)
  show "valid_utf8 ''npub1x''" "valid_utf8 ''app''" by (rule valid_utf8_ascii, simp add: is_ascii_def)+
  show "\<not> blank ''app''" by (rule not_blank_lead) simp_all
qed simp_all

text \<open>
  The parser of Forgejo names accepts exactly the printed forms of well-formed names (two parts
  that are not blank and have neither a slash nor white space) and returns the name printed.\<close>

theorem forgejo_repo_parse_iff:
  "forgejo_repo_parse v = Ok r \<longleftrightarrow> v = full_name r \<and> forgejo_repo_wf r"
proof
  assume "v = full_name r \<and> forgejo_repo_wf r"
  then show "forgejo_repo_parse v = Ok r"
    using forgejo_repo_wf_slash [of r] splitn3_full_name [of "fr_owner r" "fr_name r"]
    by (simp add: forgejo_repo_parse_def full_name_def forgejo_repo_wf_def numeral_2_eq_2)
next
  assume parse: "forgejo_repo_parse v = Ok r"
  have one: "forgejo_repo_new a [] \<noteq> Ok r" for a by (simp add: forgejo_repo_new_def)
  have three: "(3::nat) = Suc (Suc (Suc 0))" by simp
  from parse obtain a b where parts: "str_splitn 3 v CHR ''/'' = [a, b]"
    and new: "forgejo_repo_new a b = Ok r"
    using one by (auto simp: forgejo_repo_parse_def Let_def three numeral_2_eq_2
        split: option.splits if_splits prod.splits)
  from splitn3_two [OF parts] forgejo_repo_new_Ok [OF new] show "v = full_name r \<and> forgejo_repo_wf r"
    by (auto simp: full_name_def)
qed

end
