(* ===== verification/Core_Cli.thy ===== *)
theory Core_Cli
  imports Rust_Utf8
begin

text \<open>
  \<open>crates/core/src/command_cli.rs\<close>: commands typed in chat. The tokenizer goes over characters
  (not bytes) with a quote flag and an escape flag; the parser sorts the tokens into target and
  arguments; the shape of the command is checked last. The inductive predicate
  \<open>command_shape\<close> is the specification of the accepted commands, \<open>render_command\<close> a
  printer the parser inverts.
\<close>

section \<open>Commands\<close>

datatype command_namespace = Account | Profile | Repo

datatype command_arg = Positional string | KeyValue string string

record parsed_command =
  pc_namespace :: command_namespace
  pc_action :: string
  pc_target :: "string option"
  pc_args :: "command_arg list"

datatype command_parse_error =
    MissingPrefix
  | EmptyCommand
  | InvalidNamespace string
  | UnterminatedQuote
  | InvalidCommand string
  | InvalidArgs string

fun command_parse_error_display :: "command_parse_error \<Rightarrow> string" where
  "command_parse_error_display MissingPrefix = ''missing gittree command prefix''"
| "command_parse_error_display EmptyCommand = ''empty command''"
| "command_parse_error_display (InvalidNamespace v) = ''invalid namespace: '' @ v"
| "command_parse_error_display UnterminatedQuote = ''unterminated quote''"
| "command_parse_error_display (InvalidCommand v) = ''invalid command: '' @ v"
| "command_parse_error_display (InvalidArgs v) = ''invalid args: '' @ v"

section \<open>The tokenizer\<close>

record tokenizer =
  tk_tokens :: "string list"
  tk_current :: string
  tk_in_quotes :: bool
  tk_escape :: bool

definition BACKSLASH :: string where "BACKSLASH = [CHR 0x5C]"
definition QUOTE :: string where "QUOTE = [CHR 0x22]"

definition tokenize_step :: "tokenizer \<Rightarrow> string \<Rightarrow> tokenizer" where
  "tokenize_step t ch =
     (if tk_escape t then t\<lparr>tk_current := tk_current t @ ch, tk_escape := False\<rparr>
      else if ch = BACKSLASH then t\<lparr>tk_escape := True\<rparr>
      else if ch = QUOTE then t\<lparr>tk_in_quotes := \<not> tk_in_quotes t\<rparr>
      else if is_whitespace ch \<and> \<not> tk_in_quotes t then
        (if tk_current t \<noteq> [] then t\<lparr>tk_tokens := tk_tokens t @ [tk_current t], tk_current := []\<rparr>
         else t)
      else t\<lparr>tk_current := tk_current t @ ch\<rparr>)"

definition tokenizer_init :: tokenizer where
  "tokenizer_init = \<lparr>tk_tokens = [], tk_current = [], tk_in_quotes = False, tk_escape = False\<rparr>"

definition tokenize :: "string \<Rightarrow> (command_parse_error, string list) result" where
  "tokenize input =
     (let t = foldl tokenize_step tokenizer_init (chars input) in
      if tk_in_quotes t then Err UnterminatedQuote
      else Ok (if tk_current t \<noteq> [] then tk_tokens t @ [tk_current t] else tk_tokens t))"

section \<open>The parser\<close>

definition parse_namespace :: "string \<Rightarrow> (command_parse_error, command_namespace) result" where
  "parse_namespace v =
     (if v = ''account'' then Ok Account
      else if v = ''profile'' then Ok Profile
      else if v = ''repo'' then Ok Repo
      else Err (InvalidNamespace v))"

fun is_key_value :: "command_arg \<Rightarrow> bool" where
  "is_key_value (KeyValue _ _) = True"
| "is_key_value (Positional _) = False"

definition args_are_key_values :: "command_arg list \<Rightarrow> bool" where
  "args_are_key_values args \<longleftrightarrow> list_all is_key_value args"

definition validate_shape ::
  "command_namespace \<Rightarrow> string \<Rightarrow> string option \<Rightarrow> command_arg list \<Rightarrow> (command_parse_error, unit) result" where
  "validate_shape namespace action target args =
     (case namespace of
        Account \<Rightarrow>
          (if action \<in> {''create'', ''status'', ''delete''} then
             (if args = [] then Ok () else Err (InvalidArgs ''account commands accept no args''))
           else Err (InvalidCommand action))
      | Profile \<Rightarrow>
          (if action = ''set'' then
             (if args \<noteq> [] \<and> args_are_key_values args then Ok ()
              else Err (InvalidArgs ''profile set requires key=value args''))
           else if action = ''visibility'' then
             (case args of
                [Positional v] \<Rightarrow>
                  (if v = ''public'' \<or> v = ''private'' then Ok ()
                   else Err (InvalidArgs ''profile visibility requires public|private''))
              | _ \<Rightarrow> Err (InvalidArgs ''profile visibility requires public|private''))
           else Err (InvalidCommand action))
      | Repo \<Rightarrow>
          (if action \<in> {''create'', ''announce'', ''sync'', ''archive'', ''unarchive''} \<and>
              target \<noteq> None \<and> args = [] then Ok ()
           else if action = ''update'' \<and> target \<noteq> None \<and> args \<noteq> [] then Ok ()
           else if action = ''maintainers'' \<and> target \<noteq> None then
             (case args of
                [Positional sub, Positional npub] \<Rightarrow>
                  (if (sub = ''add'' \<or> sub = ''remove'') \<and> starts_with npub ''npub'' then Ok ()
                   else Err (InvalidArgs ''repo maintainers requires add|remove and npub''))
              | _ \<Rightarrow> Err (InvalidArgs ''repo maintainers requires add|remove and npub''))
           else if action \<in> {''create'', ''announce'', ''sync'', ''archive'', ''unarchive''} then
             Err (InvalidArgs ''repo command requires target and no extra args'')
           else if action = ''update'' then
             Err (InvalidArgs ''repo update requires target and key=value args'')
           else if action = ''maintainers'' then Err (InvalidArgs ''repo maintainers requires target'')
           else Err (InvalidCommand action)))"

definition argument_step ::
  "command_namespace \<Rightarrow> string option \<times> command_arg list \<Rightarrow> string \<Rightarrow> string option \<times> command_arg list" where
  "argument_step namespace acc token =
     (case split_once token CHR ''='' of
        Some (key, v) \<Rightarrow> (fst acc, snd acc @ [KeyValue key v])
      | None \<Rightarrow>
          (if fst acc = None \<and> namespace = Repo then (Some token, snd acc)
           else (fst acc, snd acc @ [Positional token])))"

definition command_of_tokens ::
  "command_namespace \<Rightarrow> string \<Rightarrow> string list \<Rightarrow> (command_parse_error, parsed_command) result" where
  "command_of_tokens namespace action tokens =
     (case foldl (argument_step namespace) (None, []) tokens of
        (target, args) \<Rightarrow>
          and_then (validate_shape namespace action target args) (\<lambda>_.
          Ok \<lparr>pc_namespace = namespace, pc_action = action, pc_target = target, pc_args = args\<rparr>))"

definition parse_tokens :: "string list \<Rightarrow> (command_parse_error, parsed_command) result" where
  "parse_tokens tokens =
     (case tokens of
        [] \<Rightarrow> Err EmptyCommand
      | first # others \<Rightarrow>
          and_then (parse_namespace first) (\<lambda>namespace.
            let action = (case others of a # _ \<Rightarrow> a | [] \<Rightarrow> []) in
            and_then (ensure (action \<noteq> []) (InvalidCommand ''missing subcommand/action'')) (\<lambda>_.
            command_of_tokens namespace action (drop 1 others))))"

definition parse_cli_command :: "string \<Rightarrow> (command_parse_error, parsed_command) result" where
  "parse_cli_command input =
     (let trimmed = trim input in
      and_then (if trimmed = ''gittree'' then Ok []
                else ok_or MissingPrefix (strip_prefix trimmed ''gittree '')) (\<lambda>rest.
      and_then (tokenize rest) parse_tokens))"

section \<open>The accepted commands\<close>

inductive command_shape :: "parsed_command \<Rightarrow> bool" where
  account: "action \<in> {''create'', ''status'', ''delete''} \<Longrightarrow>
    command_shape \<lparr>pc_namespace = Account, pc_action = action, pc_target = None, pc_args = []\<rparr>"
| profile_set: "args \<noteq> [] \<Longrightarrow> list_all is_key_value args \<Longrightarrow>
    command_shape \<lparr>pc_namespace = Profile, pc_action = ''set'', pc_target = None, pc_args = args\<rparr>"
| profile_visibility: "v \<in> {''public'', ''private''} \<Longrightarrow>
    command_shape \<lparr>pc_namespace = Profile, pc_action = ''visibility'', pc_target = None,
      pc_args = [Positional v]\<rparr>"
| repo: "action \<in> {''create'', ''announce'', ''sync'', ''archive'', ''unarchive''} \<Longrightarrow>
    command_shape \<lparr>pc_namespace = Repo, pc_action = action, pc_target = Some t, pc_args = []\<rparr>"
| repo_update: "args \<noteq> [] \<Longrightarrow>
    command_shape \<lparr>pc_namespace = Repo, pc_action = ''update'', pc_target = Some t, pc_args = args\<rparr>"
| repo_maintainers: "sub \<in> {''add'', ''remove''} \<Longrightarrow> starts_with npub ''npub'' \<Longrightarrow>
    command_shape \<lparr>pc_namespace = Repo, pc_action = ''maintainers'', pc_target = Some t,
      pc_args = [Positional sub, Positional npub]\<rparr>"

lemma arguments_target:
  "fst (foldl (argument_step namespace) acc tokens) \<noteq> None \<Longrightarrow> fst acc = None \<Longrightarrow> namespace = Repo"
proof (induction tokens arbitrary: acc)
  case Nil
  then show ?case by simp
next
  case (Cons token tokens)
  show ?case
  proof (cases "fst (argument_step namespace acc token) = None")
    case True
    with Cons show ?thesis by simp
  next
    case False
    with Cons.prems(2) show ?thesis
      by (auto simp: argument_step_def split: option.splits if_splits prod.splits)
  qed
qed

lemma validate_shape_iff:
  "(namespace \<noteq> Repo \<longrightarrow> target = None) \<Longrightarrow>
   validate_shape namespace action target args = Ok () \<longleftrightarrow>
   command_shape \<lparr>pc_namespace = namespace, pc_action = action, pc_target = target, pc_args = args\<rparr>"
proof (cases namespace)
  case Account
  assume "namespace \<noteq> Repo \<longrightarrow> target = None"
  with Account show ?thesis by (auto simp: validate_shape_def command_shape.simps)
next
  case Profile
  assume "namespace \<noteq> Repo \<longrightarrow> target = None"
  with Profile show ?thesis
    by (auto simp: validate_shape_def command_shape.simps args_are_key_values_def
        split: list.splits command_arg.splits if_splits)
next
  case Repo
  then show ?thesis
    by (auto simp: validate_shape_def command_shape.simps
        split: list.splits command_arg.splits if_splits)
qed

lemma command_of_tokens_shape:
  assumes "command_of_tokens namespace action tokens = Ok cmd"
  shows "command_shape cmd"
proof -
  obtain target args where
    f: "foldl (argument_step namespace) (None, []) tokens = (target, args)" by fastforce
  with assms have v: "validate_shape namespace action target args = Ok ()"
    and cmd: "cmd = \<lparr>pc_namespace = namespace, pc_action = action, pc_target = target, pc_args = args\<rparr>"
    by (auto simp: command_of_tokens_def and_then_eq_Ok)
  have "namespace \<noteq> Repo \<longrightarrow> target = None"
    using arguments_target [of namespace "(None, [])" tokens] f by (cases target) auto
  with v cmd show ?thesis by (simp add: validate_shape_iff)
qed

lemma parse_tokens_shape:
  assumes "parse_tokens tokens = Ok cmd"
  shows "command_shape cmd"
proof (cases tokens)
  case Nil
  with assms show ?thesis by (simp add: parse_tokens_def)
next
  case (Cons first others)
  with assms show ?thesis
    by (auto simp: parse_tokens_def Let_def and_then_eq_Ok intro: command_of_tokens_shape)
qed

section \<open>A printer\<close>

definition escape_char :: "string \<Rightarrow> string list" where
  "escape_char ch = (if ch = BACKSLASH \<or> ch = QUOTE then [BACKSLASH, ch] else [ch])"

definition quote_token :: "string \<Rightarrow> string list" where
  "quote_token token = [QUOTE] @ concat (map escape_char (chars token)) @ [QUOTE]"

fun arg_token :: "command_arg \<Rightarrow> string" where
  "arg_token (Positional v) = v"
| "arg_token (KeyValue k v) = k @ ''='' @ v"

fun namespace_token :: "command_namespace \<Rightarrow> string" where
  "namespace_token Account = ''account''"
| "namespace_token Profile = ''profile''"
| "namespace_token Repo = ''repo''"

definition command_tokens :: "parsed_command \<Rightarrow> string list" where
  "command_tokens cmd =
     [namespace_token (pc_namespace cmd), pc_action cmd] @
     (case pc_target cmd of Some t \<Rightarrow> [t] | None \<Rightarrow> []) @ map arg_token (pc_args cmd)"

definition render_tokens :: "string list \<Rightarrow> string" where
  "render_tokens tokens = concat (concat (map (\<lambda>t. '' '' # quote_token t) tokens))"

definition render_command :: "parsed_command \<Rightarrow> string" where
  "render_command cmd = ''gittree'' @ render_tokens (command_tokens cmd)"

text \<open>The parts of a command that can be told apart after printing.\<close>

fun arg_wf :: "command_arg \<Rightarrow> bool" where
  "arg_wf (Positional v) \<longleftrightarrow> v \<noteq> [] \<and> valid_utf8 v \<and> CHR ''='' \<notin> set v"
| "arg_wf (KeyValue k v) \<longleftrightarrow> valid_utf8 k \<and> valid_utf8 v \<and> CHR ''='' \<notin> set k"

definition command_wf :: "parsed_command \<Rightarrow> bool" where
  "command_wf cmd \<longleftrightarrow>
     command_shape cmd \<and> list_all arg_wf (pc_args cmd) \<and>
     pred_option (\<lambda>t. t \<noteq> [] \<and> valid_utf8 t \<and> CHR ''='' \<notin> set t) (pc_target cmd)"

lemma valid_specials [simp]: "valid_char QUOTE" "valid_char BACKSLASH" "valid_char '' ''"
  by (simp_all add: QUOTE_def BACKSLASH_def)

lemma specials_distinct [simp]: "QUOTE \<noteq> BACKSLASH" "'' '' \<noteq> QUOTE" "'' '' \<noteq> BACKSLASH"
  by (simp_all add: QUOTE_def BACKSLASH_def)

lemma space_is_whitespace [simp]: "is_whitespace '' ''"
proof -
  have "'' '' = [char_of (byte CHR '' '')]" by (simp only: char_of_char)
  also have "\<dots> \<in> set ws_encodings" by (simp add: ws_encodings_def)
  finally show ?thesis by (simp add: is_whitespace_def)
qed

lemma tokenize_escaped:
  "tk_in_quotes t \<Longrightarrow> \<not> tk_escape t \<Longrightarrow>
   foldl tokenize_step t (concat (map escape_char chs)) = t\<lparr>tk_current := tk_current t @ concat chs\<rparr>"
proof (induction chs arbitrary: t)
  case Nil
  then show ?case by simp
next
  case (Cons ch chs)
  have "foldl tokenize_step t (escape_char ch) = t\<lparr>tk_current := tk_current t @ ch\<rparr>"
    using Cons.prems by (auto simp: escape_char_def tokenize_step_def)
  with Cons.IH [of "t\<lparr>tk_current := tk_current t @ ch\<rparr>"] Cons.prems show ?case by simp
qed

text \<open>One printed token closes the one before it and leaves itself open.\<close>

lemma tokenize_quoted:
  assumes "\<not> tk_in_quotes t" and "\<not> tk_escape t"
  shows "foldl tokenize_step t ('' '' # quote_token token) =
    t\<lparr>tk_tokens := flush_word (tk_tokens t) (tk_current t), tk_current := token\<rparr>"
proof -
  let ?t = "t\<lparr>tk_tokens := flush_word (tk_tokens t) (tk_current t), tk_current := [], tk_in_quotes := True\<rparr>"
  have "foldl tokenize_step t ['' '', QUOTE] = ?t"
    using assms by (cases "tk_current t = []") (simp_all add: tokenize_step_def flush_word_def)
  moreover have "foldl tokenize_step ?t (concat (map escape_char (chars token))) =
      ?t\<lparr>tk_current := token\<rparr>"
    using tokenize_escaped [of ?t "chars token"] assms by simp
  ultimately show ?thesis
    using assms by (simp add: quote_token_def tokenize_step_def)
qed

lemma tokenize_rendered_fold:
  assumes "list_all (\<lambda>t. t \<noteq> []) tokens" and "\<not> tk_in_quotes t" and "\<not> tk_escape t"
  shows "\<exists>t'. foldl tokenize_step t (concat (map (\<lambda>x. '' '' # quote_token x) tokens)) = t' \<and>
    \<not> tk_in_quotes t' \<and>
    flush_word (tk_tokens t') (tk_current t') = flush_word (tk_tokens t) (tk_current t) @ tokens"
  using assms
proof (induction tokens arbitrary: t)
  case Nil
  then show ?case by simp
next
  case (Cons x xs)
  let ?t = "t\<lparr>tk_tokens := flush_word (tk_tokens t) (tk_current t), tk_current := x\<rparr>"
  from Cons.IH [of ?t] Cons.prems show ?case
    using tokenize_quoted [of t x] by (simp add: flush_word_def)
qed

lemma quote_token_valid: "valid_utf8 t \<Longrightarrow> list_all valid_char (quote_token t)"
  using valid_chars [of t] by (auto simp: quote_token_def list_all_iff escape_char_def)

lemma tokenize_rendered:
  assumes "list_all (\<lambda>t. t \<noteq> [] \<and> valid_utf8 t) tokens"
  shows "tokenize (render_tokens tokens) = Ok tokens"
proof -
  have "list_all valid_char (concat (map (\<lambda>t. '' '' # quote_token t) tokens))"
    using assms quote_token_valid by (auto simp: list_all_iff)
  then have chars: "chars (render_tokens tokens) = concat (map (\<lambda>t. '' '' # quote_token t) tokens)"
    using chars_concat unfolding render_tokens_def by blast
  have "list_all (\<lambda>t. t \<noteq> []) tokens" using assms by (simp add: list_all_iff)
  from tokenize_rendered_fold [OF this, of tokenizer_init] show ?thesis
    by (auto simp: tokenize_def chars Let_def tokenizer_init_def flush_word_def)
qed

lemma arguments_rendered:
  assumes "list_all arg_wf args" and "fst acc = None \<longrightarrow> namespace \<noteq> Repo"
  shows "foldl (argument_step namespace) acc (map arg_token args) = (fst acc, snd acc @ args)"
  using assms
proof (induction args arbitrary: acc)
  case Nil
  then show ?case by simp
next
  case (Cons a args)
  have "argument_step namespace acc (arg_token a) = (fst acc, snd acc @ [a])"
  proof (cases a)
    case (Positional v)
    then have "split_once v CHR ''='' = None" using Cons.prems(1) by (simp add: split_once_None)
    with Positional Cons.prems(2) show ?thesis by (auto simp: argument_step_def)
  next
    case (KeyValue k v)
    with Cons.prems(1) split_once_append [of "CHR ''=''" k v] show ?thesis
      by (simp add: argument_step_def)
  qed
  with Cons show ?case by simp
qed

lemma command_arguments:
  assumes "command_wf cmd" and "pc_target cmd = None \<longrightarrow> pc_namespace cmd \<noteq> Repo"
  shows "foldl (argument_step (pc_namespace cmd)) (None, []) (drop 2 (command_tokens cmd)) =
    (pc_target cmd, pc_args cmd)"
proof (cases "pc_target cmd")
  case None
  with assms arguments_rendered [of "pc_args cmd" "(None, [])" "pc_namespace cmd"] show ?thesis
    by (simp add: command_tokens_def command_wf_def)
next
  case (Some t)
  with assms(1) have "pc_namespace cmd = Repo" "split_once t CHR ''='' = None"
    by (auto simp: command_wf_def command_shape.simps split_once_None)
  with Some assms(1) arguments_rendered [of "pc_args cmd" "(Some t, [])" Repo] show ?thesis
    by (simp add: command_tokens_def command_wf_def argument_step_def)
qed

lemma command_tokens_wf:
  assumes "command_wf cmd"
  shows "list_all (\<lambda>t. t \<noteq> [] \<and> valid_utf8 t) (command_tokens cmd)"
proof -
  have args: "arg_wf a \<Longrightarrow> arg_token a \<noteq> [] \<and> valid_utf8 (arg_token a)" for a
    by (cases a) (auto simp: valid_utf8_append valid_utf8_ascii is_ascii_def
        valid_utf8_append [of "''=''", simplified])
  have "pc_action cmd \<noteq> [] \<and> is_ascii (pc_action cmd)"
    using assms by (auto simp: command_wf_def command_shape.simps is_ascii_def)
  moreover have "namespace_token n \<noteq> [] \<and> is_ascii (namespace_token n)" for n
    by (cases n) (simp_all add: is_ascii_def)
  ultimately show ?thesis
    using assms args valid_utf8_ascii
    by (cases "pc_target cmd") (auto simp: command_tokens_def command_wf_def list_all_iff)
qed

lemma render_command_trim: "trim (render_command cmd) = render_command cmd"
proof -
  have "render_tokens (command_tokens cmd) \<noteq> []" and
    "last (render_tokens (command_tokens cmd)) = CHR 0x22"
  proof -
    have "\<exists>pre. render_tokens ts = pre @ [CHR 0x22]" if ne: "ts \<noteq> []" for ts
    proof -
      obtain us u where "ts = us @ [u]" using ne by (metis rev_exhaust)
      then show ?thesis by (simp add: render_tokens_def quote_token_def QUOTE_def)
    qed
    then obtain pre where "render_tokens (command_tokens cmd) = pre @ [CHR 0x22]"
      by (metis command_tokens_def append_Cons list.distinct(1))
    then show "render_tokens (command_tokens cmd) \<noteq> []"
      and "last (render_tokens (command_tokens cmd)) = CHR 0x22" by simp_all
  qed
  moreover have "CHR ''g'' \<notin> ws_leads" "CHR 0x22 \<notin> ws_tails"
    using ws_lead_byte [of "CHR ''g''"] ws_tail_byte [of "CHR 0x22"] by auto
  ultimately show ?thesis
    by (intro trim_id) (simp add: render_command_def)
qed

section \<open>Properties\<close>

text \<open>
  Whatever text is typed, a command is accepted only in one of the shapes of the command
  language, with a target exactly for the repository commands; every other text gives an error.\<close>

theorem cli_accepts_only_shapes:
  "(\<exists>cmd. parse_cli_command input = Ok cmd \<and> command_shape cmd) \<or>
   (\<exists>e. parse_cli_command input = Err e)"
proof (cases "parse_cli_command input")
  case (Inr cmd)
  then obtain tokens where "parse_tokens tokens = Ok cmd"
    by (auto simp: parse_cli_command_def Let_def and_then_eq_Ok)
  with Inr parse_tokens_shape show ?thesis by blast
qed simp

lemma parse_rendered:
  assumes "command_wf cmd"
  shows "parse_cli_command (render_command cmd) = Ok cmd"
proof -
  let ?ts = "command_tokens cmd"
  have shape: "command_shape cmd" using assms by (simp add: command_wf_def)
  then have none: "pc_target cmd = None \<longrightarrow> pc_namespace cmd \<noteq> Repo"
    and non_repo: "pc_namespace cmd \<noteq> Repo \<longrightarrow> pc_target cmd = None"
    and act: "pc_action cmd \<noteq> []"
    by (auto simp: command_shape.simps)
  obtain r where r: "render_tokens ?ts = '' '' @ r"
    by (simp add: render_tokens_def command_tokens_def)
  have "chars (render_tokens ?ts) = '' '' # chars r"
    using chars_append [of "'' ''" r] valid_utf8_char [of "'' ''"] chars_single [of "'' ''"]
    by (simp add: r del: chars.simps)
  then have "tokenize r = tokenize (render_tokens ?ts)"
    by (simp add: tokenize_def tokenize_step_def tokenizer_init_def)
  then have tok: "tokenize r = Ok ?ts"
    using tokenize_rendered [OF command_tokens_wf [OF assms]] by simp
  have ts: "?ts = namespace_token (pc_namespace cmd) # pc_action cmd # drop 2 ?ts"
    by (simp add: command_tokens_def)
  have ns: "parse_namespace (namespace_token n) = Ok n" for n
    by (cases n) (simp_all add: parse_namespace_def)
  have "strip_prefix (render_command cmd) ''gittree '' = Some r" and "render_command cmd \<noteq> ''gittree''"
    by (simp_all add: render_command_def r strip_prefix_def)
  then have "parse_cli_command (render_command cmd) = parse_tokens ?ts"
    by (simp add: parse_cli_command_def render_command_trim tok)
  also have "\<dots> = command_of_tokens (pc_namespace cmd) (pc_action cmd) (drop 2 ?ts)"
    by (subst ts) (simp add: parse_tokens_def ns act)
  also have "\<dots> = Ok cmd"
    using command_arguments [OF assms none] shape
      validate_shape_iff [OF non_repo, of "pc_action cmd" "pc_args cmd"]
    by (cases cmd) (simp add: command_of_tokens_def)
  finally show ?thesis .
qed

text \<open>
  Printing a well-formed command with every token quoted and every quote and backslash escaped
  and parsing the text gives the command back, whatever characters its tokens hold, white space and
  quotes included.\<close>

theorem cli_round_trip:
  assumes "command_wf cmd"
  shows "parse_cli_command (render_command cmd) = Ok cmd"
  using assms by (rule parse_rendered)

theorem cli_round_trip_witness:
  "parse_cli_command (render_command \<lparr>pc_namespace = Repo, pc_action = ''update'',
      pc_target = Some ''my repo'', pc_args = [KeyValue ''name'' ''a b=c'']\<rparr>) =
   Ok \<lparr>pc_namespace = Repo, pc_action = ''update'',
      pc_target = Some ''my repo'', pc_args = [KeyValue ''name'' ''a b=c'']\<rparr>"
proof (rule cli_round_trip)
  have "valid_utf8 ''my repo''" "valid_utf8 ''name''" "valid_utf8 ''a b=c''"
    by (rule valid_utf8_ascii, simp add: is_ascii_def)+
  then show "command_wf \<lparr>pc_namespace = Repo, pc_action = ''update'',
      pc_target = Some ''my repo'', pc_args = [KeyValue ''name'' ''a b=c'']\<rparr>"
    by (simp add: command_wf_def command_shape.simps)
qed

end
