(* ===== verification/Core_Compat.thy ===== *)
theory Core_Compat
  imports Core_Common
begin

text \<open>
  \<open>crates/core/src/nip11.rs\<close> (the relay information document) and \<open>relay_compat.rs\<close>
  (what a relay supports, and whether that is enough). A \<open>u64\<close> of the document is a natural
  number. The capabilities are ordered by their names, the order in which a report lists them.
\<close>

section \<open>The relay information document\<close>

datatype kind_selector = Single u32 | KindRange u32 u32

record relay_limitation =
  lim_max_message_length :: "nat option"
  lim_max_subscriptions :: "nat option"
  lim_max_limit :: "nat option"
  lim_max_subid_length :: "nat option"
  lim_max_event_tags :: "nat option"
  lim_max_content_length :: "nat option"
  lim_min_pow_difficulty :: "nat option"
  lim_auth_required :: "bool option"
  lim_payment_required :: "bool option"
  lim_restricted_writes :: "bool option"
  lim_created_at_lower_limit :: "nat option"
  lim_created_at_upper_limit :: "nat option"
  lim_default_limit :: "nat option"

record retention_rule =
  ret_kinds :: "kind_selector list option"
  ret_time :: "nat option"
  ret_count :: "nat option"

record fee =
  fee_amount :: nat
  fee_unit :: string
  fee_period :: "nat option"
  fee_kinds :: "u32 list option"

record relay_info_document =
  doc_name :: "string option"
  doc_description :: "string option"
  doc_banner :: "string option"
  doc_icon :: "string option"
  doc_pubkey :: "string option"
  doc_self_pubkey :: "string option"
  doc_contact :: "string option"
  doc_supported_nips :: "u16 list option"
  doc_software :: "string option"
  doc_version :: "string option"
  doc_privacy_policy :: "string option"
  doc_terms_of_service :: "string option"
  doc_limitation :: "relay_limitation option"
  doc_retention :: "retention_rule list option"
  doc_relay_countries :: "string list option"
  doc_language_tags :: "string list option"
  doc_tags :: "string list option"
  doc_posting_policy :: "string option"
  doc_payments_url :: "string option"
  doc_fees :: "(string \<times> fee list) list option"
  doc_supported_grasps :: "string list option"
  doc_repo_acceptance_criteria :: "string option"
  doc_curation :: "string option"

definition supported_nips_list :: "relay_info_document \<Rightarrow> u16 list" where
  "supported_nips_list doc = (case doc_supported_nips doc of Some l \<Rightarrow> l | None \<Rightarrow> [])"

definition supports_nip :: "relay_info_document \<Rightarrow> u16 \<Rightarrow> bool" where
  "supports_nip doc nip \<longleftrightarrow> nip \<in> set (supported_nips_list doc)"

section \<open>Capabilities\<close>

datatype relay_capability = Nip01 | Nip11 | Nip34 | Nip65 | Grasp

fun capability_as_str :: "relay_capability \<Rightarrow> string" where
  "capability_as_str Nip01 = ''nip-01''"
| "capability_as_str Nip11 = ''nip-11''"
| "capability_as_str Nip34 = ''nip-34''"
| "capability_as_str Nip65 = ''nip-65''"
| "capability_as_str Grasp = ''grasp''"

lemma capability_as_str_inj: "capability_as_str a = capability_as_str b \<Longrightarrow> a = b"
  by (cases a; cases b) simp_all

instantiation relay_capability :: linorder
begin

definition less_eq_relay_capability :: "relay_capability \<Rightarrow> relay_capability \<Rightarrow> bool" where
  "less_eq_relay_capability a b \<longleftrightarrow> capability_as_str a \<le> capability_as_str b"

definition less_relay_capability :: "relay_capability \<Rightarrow> relay_capability \<Rightarrow> bool" where
  "less_relay_capability a b \<longleftrightarrow> capability_as_str a < capability_as_str b"

instance
  by standard
    (auto simp: less_eq_relay_capability_def less_relay_capability_def intro: capability_as_str_inj)

end

record relay_capability_set =
  cs_required :: "relay_capability list"
  cs_optional :: "relay_capability list"

definition default_capability_set :: relay_capability_set where
  "default_capability_set = \<lparr>cs_required = [Nip01, Nip34], cs_optional = [Nip11, Nip65, Grasp]\<rparr>"

definition capabilities_from_nip11 :: "relay_info_document \<Rightarrow> relay_capability list" where
  "capabilities_from_nip11 doc =
     (if supports_nip doc 1 then [Nip01] else []) @
     (if supports_nip doc 11 then [Nip11] else []) @
     (if supports_nip doc 34 then [Nip34] else []) @
     (if supports_nip doc 65 then [Nip65] else []) @
     (if (case doc_supported_grasps doc of
            None \<Rightarrow> False
          | Some grasps \<Rightarrow> list_ex (\<lambda>entry. \<not> blank entry) grasps)
      then [Grasp] else [])"

text \<open>The evidence of an active probe is one flag, \<open>write_read_ok\<close>.\<close>

definition merge_active_probe_evidence :: "relay_capability list \<Rightarrow> bool \<Rightarrow> relay_capability list" where
  "merge_active_probe_evidence supported write_read_ok =
     (if \<not> write_read_ok then supported
      else
        (let s1 = (if Nip01 \<notin> set supported then supported @ [Nip01] else supported)
         in if Nip34 \<notin> set s1 then s1 @ [Nip34] else s1))"

record compatibility_report =
  cr_relay_url :: string
  cr_supported :: "relay_capability list"
  cr_missing_required :: "relay_capability list"
  cr_missing_optional :: "relay_capability list"

definition capability_set_evaluate ::
  "relay_capability_set \<Rightarrow> string \<Rightarrow> relay_capability list \<Rightarrow> compatibility_report" where
  "capability_set_evaluate cs relay_url supported =
     (let supported_set = set supported;
          missing_required = filter (\<lambda>cap. cap \<notin> supported_set) (cs_required cs);
          missing_optional = filter (\<lambda>cap. cap \<notin> supported_set) (cs_optional cs);
          supported_set = supported_set \<union> set (cs_required cs) \<union> set (cs_optional cs)
      in \<lparr>cr_relay_url = relay_url, cr_supported = sorted_list_of_set supported_set,
          cr_missing_required = missing_required, cr_missing_optional = missing_optional\<rparr>)"

definition is_compatible :: "compatibility_report \<Rightarrow> bool" where
  "is_compatible r \<longleftrightarrow> cr_missing_required r = []"

section \<open>Properties\<close>

text \<open>
  A relay whose write and read probe succeeded is compatible with the default requirements
  whatever its information document says; without that evidence it is compatible exactly when the
  document lists NIP-01 and NIP-34.\<close>

theorem default_compatibility:
  "is_compatible (capability_set_evaluate default_capability_set relay_url
     (merge_active_probe_evidence (capabilities_from_nip11 doc) probe_ok)) \<longleftrightarrow>
   probe_ok \<or> supports_nip doc 1 \<and> supports_nip doc 34"
  by (simp add: is_compatible_def capability_set_evaluate_def default_capability_set_def
      merge_active_probe_evidence_def capabilities_from_nip11_def Let_def)

text \<open>
  The report names every required and every optional capability as supported, the ones it also
  names as missing included.\<close>

theorem report_lists_missing_as_supported:
  "set (cr_missing_required (capability_set_evaluate cs relay_url supported)) \<union>
     set (cr_missing_optional (capability_set_evaluate cs relay_url supported)) \<subseteq>
   set (cr_supported (capability_set_evaluate cs relay_url supported))"
  by (auto simp: capability_set_evaluate_def Let_def)

end
