(* ===== verification/Json.thy ===== *)
theory Json
  imports Rust_Map
begin

text \<open>
  JSON values as the crate \<open>serde_json\<close> documents them: its \<open>Value\<close> with the accessors
  the program calls. An integer literal is kept apart from a float, an object is the list of its
  entries in key order. The parser from text and the printer to text are code outside the
  repository and are parameters wherever the program calls them.
\<close>

datatype json =
    JNull
  | JBool bool
  | JInt int
  | JFloat string
  | JString string
  | JArray "json list"
  | JObject "(string \<times> json) list"

fun as_array :: "json \<Rightarrow> json list option" where
  "as_array (JArray items) = Some items"
| "as_array _ = None"

fun as_object :: "json \<Rightarrow> (string \<times> json) list option" where
  "as_object (JObject entries) = Some entries"
| "as_object _ = None"

fun as_str :: "json \<Rightarrow> string option" where
  "as_str (JString s) = Some s"
| "as_str _ = None"

text \<open>An integer is read at its width: \<open>as_u64\<close> and \<open>as_i64\<close> refuse what does not fit.\<close>

fun as_u64 :: "json \<Rightarrow> nat option" where
  "as_u64 (JInt i) = (if 0 \<le> i \<and> i \<le> int u64_max then Some (nat i) else None)"
| "as_u64 _ = None"

fun as_i64 :: "json \<Rightarrow> int option" where
  "as_i64 (JInt i) = (if in_i64 i then Some i else None)"
| "as_i64 _ = None"

lemma as_array_iff: "as_array v = Some items \<longleftrightarrow> v = JArray items"
  by (cases v) auto

lemma as_str_iff: "as_str v = Some s \<longleftrightarrow> v = JString s"
  by (cases v) auto

lemma as_object_iff: "as_object v = Some entries \<longleftrightarrow> v = JObject entries"
  by (cases v) auto

end
