(* ===== verification/Relay_Event.thy ===== *)
theory Relay_Event
  imports Core_Common Json
begin

text \<open>
  Events, tag indexes and filters of the relay: \<open>services/relay/src/event.rs\<close>,
  \<open>tags.rs\<close>, \<open>filter.rs\<close> and \<open>policy.rs\<close>. Hashing, signatures, hexadecimal coding
  and JSON text are code outside the repository and come as the fields of a record of functions.
  Sums of \<open>i64\<close> wrap, casts from \<open>u64\<close> to \<open>i64\<close> too.
\<close>

section \<open>Events\<close>

record event =
  ev_id :: string
  ev_pubkey :: string
  ev_created_at :: int
  ev_kind :: u32
  ev_tags :: "tag list"
  ev_content :: string
  ev_sig :: string

datatype event_error = InvalidId | InvalidSignature | InvalidPubkey

fun event_error_display :: "event_error \<Rightarrow> string" where
  "event_error_display InvalidId = ''event id mismatch''"
| "event_error_display InvalidSignature = ''invalid event signature''"
| "event_error_display InvalidPubkey = ''invalid event pubkey''"

text \<open>
  The functions of the crates \<open>serde_json\<close>, \<open>sha2\<close>, \<open>hex\<close> and \<open>secp256k1\<close> the
  relay calls; a signature and a key are their bytes.
\<close>

record crypto =
  json_text :: "json \<Rightarrow> string"
  sha256 :: "string \<Rightarrow> u8 list"
  hex_encode :: "u8 list \<Rightarrow> string"
  hex_decode :: "string \<Rightarrow> u8 list option"
  parse_signature :: "string \<Rightarrow> u8 list option"
  parse_xonly_key :: "string \<Rightarrow> u8 list option"
  verify_schnorr :: "u8 list \<Rightarrow> u8 list \<Rightarrow> u8 list \<Rightarrow> bool"
  sign_schnorr :: "u8 list \<Rightarrow> u8 list \<Rightarrow> u8 list"

definition canonical_payload :: "event \<Rightarrow> json" where
  "canonical_payload e =
     JArray [JInt 0, JString (ev_pubkey e), JInt (ev_created_at e), JInt (uint (ev_kind e)),
       JArray (map (\<lambda>tag. JArray (map JString tag)) (ev_tags e)), JString (ev_content e)]"

definition canonical_json :: "crypto \<Rightarrow> event \<Rightarrow> string" where
  "canonical_json cr e = json_text cr (canonical_payload e)"

definition compute_id :: "crypto \<Rightarrow> event \<Rightarrow> string" where
  "compute_id cr e = hex_encode cr (sha256 cr (canonical_json cr e))"

definition event_verify :: "crypto \<Rightarrow> event \<Rightarrow> (event_error, unit) result" where
  "event_verify cr e =
     (let digest = sha256 cr (canonical_json cr e);
          computed_id = hex_encode cr digest
      in if ev_id e \<noteq> computed_id then Err InvalidId
         else
           and_then (ok_or InvalidSignature (parse_signature cr (ev_sig e))) (\<lambda>sig.
           and_then (ok_or InvalidPubkey (parse_xonly_key cr (ev_pubkey e))) (\<lambda>pubkey.
           if verify_schnorr cr sig digest pubkey then Ok () else Err InvalidSignature)))"

section \<open>Tag indexes\<close>

datatype tag_error = EmptyTag | EmptyName | EmptyValue

fun tag_error_display :: "tag_error \<Rightarrow> string" where
  "tag_error_display EmptyTag = ''tag is empty''"
| "tag_error_display EmptyName = ''tag name is empty''"
| "tag_error_display EmptyValue = ''tag value is empty''"

type_synonym tag_index = "(string, string list) entries"

definition index_value :: "string list \<Rightarrow> string \<Rightarrow> (tag_error, string list) result" where
  "index_value entry v =
     (if blank v then Err EmptyValue
      else if list_ex (\<lambda>item. item = v) entry then Ok entry
      else Ok (entry @ [v]))"

definition index_tag :: "tag_index \<Rightarrow> tag \<Rightarrow> (tag_error, tag_index) result" where
  "index_tag values tag =
     (case tag of
        [] \<Rightarrow> Err EmptyTag
      | first # rest \<Rightarrow>
          (let name = trim first in
           if name = [] then Err EmptyName
           else
             (let entry = (case map_of values name of Some vs \<Rightarrow> vs | None \<Rightarrow> []) in
              and_then (try_fold index_value entry rest) (\<lambda>entry.
              Ok (bt_insert name entry values)))))"

definition tag_index_from_tags :: "tag list \<Rightarrow> (tag_error, tag_index) result" where
  "tag_index_from_tags tags = try_fold index_tag [] tags"

definition tag_index_values :: "tag_index \<Rightarrow> string \<Rightarrow> string list option" where
  "tag_index_values idx name = map_of idx name"

section \<open>Filters\<close>

record filter_rec =
  fl_ids :: "string list"
  fl_authors :: "string list"
  fl_kinds :: "u32 list"
  fl_since :: "int option"
  fl_until :: "int option"
  fl_limit :: "nat option"
  fl_tags :: "(string, string list) entries"

datatype filter_error = InvalidFilter | InvalidFilterField string

fun filter_error_display :: "filter_error \<Rightarrow> string" where
  "filter_error_display InvalidFilter = ''invalid filter''"
| "filter_error_display (InvalidFilterField field) = ''invalid filter field '' @ field"

definition parse_string_array :: "string \<Rightarrow> json \<Rightarrow> (filter_error, string list) result" where
  "parse_string_array field v =
     (case as_array v of
        None \<Rightarrow> Err (InvalidFilterField field)
      | Some items \<Rightarrow> collect_results (\<lambda>i. ok_or (InvalidFilterField field) (as_str i)) items)"

text \<open>\<open>value as u32\<close> keeps the low 32 bits.\<close>

definition parse_u32_array :: "string \<Rightarrow> json \<Rightarrow> (filter_error, u32 list) result" where
  "parse_u32_array field v =
     (case as_array v of
        None \<Rightarrow> Err (InvalidFilterField field)
      | Some items \<Rightarrow>
          collect_results
            (\<lambda>i. and_then (ok_or (InvalidFilterField field) (as_u64 i)) (\<lambda>n. Ok (of_nat n))) items)"

definition parse_u64 :: "string \<Rightarrow> json \<Rightarrow> (filter_error, nat option) result" where
  "parse_u64 field v = and_then (ok_or (InvalidFilterField field) (as_u64 v)) (\<lambda>n. Ok (Some n))"

definition parse_i64 :: "string \<Rightarrow> json \<Rightarrow> (filter_error, int option) result" where
  "parse_i64 field v = and_then (ok_or (InvalidFilterField field) (as_i64 v)) (\<lambda>n. Ok (Some n))"

definition empty_filter :: filter_rec where
  "empty_filter = \<lparr>fl_ids = [], fl_authors = [], fl_kinds = [], fl_since = None, fl_until = None,
     fl_limit = None, fl_tags = []\<rparr>"

definition filter_entry :: "filter_rec \<Rightarrow> string \<times> json \<Rightarrow> (filter_error, filter_rec) result" where
  "filter_entry f e =
     (case e of (key, v) \<Rightarrow>
        if key = ''ids'' then and_then (parse_string_array key v) (\<lambda>x. Ok (f\<lparr>fl_ids := x\<rparr>))
        else if key = ''authors'' then and_then (parse_string_array key v) (\<lambda>x. Ok (f\<lparr>fl_authors := x\<rparr>))
        else if key = ''kinds'' then and_then (parse_u32_array key v) (\<lambda>x. Ok (f\<lparr>fl_kinds := x\<rparr>))
        else if key = ''since'' then and_then (parse_i64 key v) (\<lambda>x. Ok (f\<lparr>fl_since := x\<rparr>))
        else if key = ''until'' then and_then (parse_i64 key v) (\<lambda>x. Ok (f\<lparr>fl_until := x\<rparr>))
        else if key = ''limit'' then and_then (parse_u64 key v) (\<lambda>x. Ok (f\<lparr>fl_limit := x\<rparr>))
        else if starts_with key ''#'' then
          (let tag = trim_start_char CHR ''#'' key in
           if tag = [] then Err (InvalidFilterField key)
           else and_then (parse_string_array key v) (\<lambda>x. Ok (f\<lparr>fl_tags := bt_insert tag x (fl_tags f)\<rparr>)))
        else Ok f)"

definition filter_from_json :: "json \<Rightarrow> (filter_error, filter_rec) result" where
  "filter_from_json v =
     (case as_object v of
        None \<Rightarrow> Err InvalidFilter
      | Some obj \<Rightarrow> try_fold filter_entry empty_filter obj)"

definition filter_matches :: "filter_rec \<Rightarrow> event \<Rightarrow> tag_index \<Rightarrow> bool" where
  "filter_matches f e idx =
     (if fl_ids f \<noteq> [] \<and> \<not> list_ex (\<lambda>p. starts_with (ev_id e) p) (fl_ids f) then False
      else if fl_authors f \<noteq> [] \<and> \<not> list_ex (\<lambda>p. starts_with (ev_pubkey e) p) (fl_authors f) then False
      else if fl_kinds f \<noteq> [] \<and> \<not> list_ex (\<lambda>k. k = ev_kind e) (fl_kinds f) then False
      else if (case fl_since f of Some since \<Rightarrow> ev_created_at e < since | None \<Rightarrow> False) then False
      else if (case fl_until f of Some until \<Rightarrow> ev_created_at e > until | None \<Rightarrow> False) then False
      else list_all (\<lambda>(tag, values).
             case tag_index_values idx tag of
               None \<Rightarrow> False
             | Some existing \<Rightarrow> list_ex (\<lambda>v. list_ex (\<lambda>x. x = v) existing) values) (fl_tags f))"

section \<open>Policies\<close>

record relay_policy_config =
  cfg_max_content_len :: nat
  cfg_max_tags :: nat
  cfg_max_tag_values :: nat
  cfg_max_tag_value_len :: nat
  cfg_max_future_seconds :: nat
  cfg_max_subscriptions :: "nat option"
  cfg_max_limit :: "nat option"
  cfg_max_message_bytes :: "nat option"
  cfg_max_events_per_min :: "nat option"
  cfg_max_requests_per_min :: "nat option"
  cfg_retention_max_age_seconds :: "nat option"
  cfg_auth_required :: bool

record policy =
  max_content_len :: nat
  max_tags :: nat
  max_tag_values :: nat
  max_tag_value_len :: nat
  max_future_seconds :: int
  max_subscriptions :: "nat option"
  max_limit :: "nat option"
  max_message_bytes :: "nat option"
  max_events_per_min :: "nat option"
  max_requests_per_min :: "nat option"
  retention_max_age_seconds :: "int option"

definition default_policy :: policy where
  "default_policy =
     \<lparr>max_content_len = 8192, max_tags = 128, max_tag_values = 16, max_tag_value_len = 512,
      max_future_seconds = 60, max_subscriptions = None, max_limit = None,
      max_message_bytes = None, max_events_per_min = None, max_requests_per_min = None,
      retention_max_age_seconds = None\<rparr>"

definition policy_from_config :: "relay_policy_config \<Rightarrow> policy" where
  "policy_from_config c =
     \<lparr>max_content_len = cfg_max_content_len c, max_tags = cfg_max_tags c,
      max_tag_values = cfg_max_tag_values c, max_tag_value_len = cfg_max_tag_value_len c,
      max_future_seconds = wrap_i64 (int (cfg_max_future_seconds c)),
      max_subscriptions = cfg_max_subscriptions c, max_limit = cfg_max_limit c,
      max_message_bytes = cfg_max_message_bytes c,
      max_events_per_min = cfg_max_events_per_min c,
      max_requests_per_min = cfg_max_requests_per_min c,
      retention_max_age_seconds =
        map_option (\<lambda>v. wrap_i64 (int v)) (cfg_retention_max_age_seconds c)\<rparr>"

datatype policy_error =
  ContentTooLong | TooManyTags | TooManyTagValues | TagValueTooLong | EventInFuture

fun policy_error_display :: "policy_error \<Rightarrow> string" where
  "policy_error_display ContentTooLong = ''content too long''"
| "policy_error_display TooManyTags = ''too many tags''"
| "policy_error_display TooManyTagValues = ''too many tag values''"
| "policy_error_display TagValueTooLong = ''tag value too long''"
| "policy_error_display EventInFuture = ''event timestamp too far in future''"

definition check_tag :: "policy \<Rightarrow> tag \<Rightarrow> (policy_error, unit) result" where
  "check_tag p tag =
     and_then (ensure (length tag - 1 \<le> max_tag_values p) TooManyTagValues) (\<lambda>_.
     ensure_all (\<lambda>v. length v \<le> max_tag_value_len p) (\<lambda>_. TagValueTooLong) (drop 1 tag))"

definition validate_event :: "policy \<Rightarrow> event \<Rightarrow> int \<Rightarrow> (policy_error, unit) result" where
  "validate_event p e now =
     and_then (ensure (length (ev_content e) \<le> max_content_len p) ContentTooLong) (\<lambda>_.
     and_then (ensure (length (ev_tags e) \<le> max_tags p) TooManyTags) (\<lambda>_.
     and_then (try_fold (\<lambda>_. check_tag p) () (ev_tags e)) (\<lambda>_.
     ensure (ev_created_at e \<le> wrap_i64 (now + max_future_seconds p)) EventInFuture)))"

section \<open>Lemmas\<close>

lemma event_verify_Ok:
  "event_verify cr e = Ok () \<Longrightarrow> ev_id e = compute_id cr e"
  by (auto simp: event_verify_def compute_id_def Let_def split: if_splits)

lemma map_JString_inj: "map JString xs = map JString ys \<longleftrightarrow> xs = ys"
  by (metis injI inj_map_eq_map json.inject(4))

lemma canonical_payload_eq:
  "canonical_payload e = canonical_payload e' \<longleftrightarrow>
     ev_pubkey e = ev_pubkey e' \<and> ev_created_at e = ev_created_at e' \<and> ev_kind e = ev_kind e' \<and>
     ev_tags e = ev_tags e' \<and> ev_content e = ev_content e'"
proof -
  have inj: "inj (\<lambda>tag. JArray (map JString tag))" by (rule injI) (simp add: map_JString_inj)
  show ?thesis by (auto simp: canonical_payload_def inj_map_eq_map [OF inj] word_uint_eq_iff)
qed

subsection \<open>What a tag index holds\<close>

definition index_names :: "string \<Rightarrow> tag \<Rightarrow> bool" where
  "index_names name tag \<longleftrightarrow> (case tag of [] \<Rightarrow> False | first # _ \<Rightarrow> trim first = name)"

definition index_spec :: "tag list \<Rightarrow> string \<Rightarrow> string list option" where
  "index_spec tags name =
     (if list_ex (index_names name) tags
      then Some (extend_unique [] (concat (map (drop 1) (filter (index_names name) tags)))) else None)"

definition tag_indexable :: "tag \<Rightarrow> bool" where
  "tag_indexable tag \<longleftrightarrow> tag \<noteq> [] \<and> \<not> blank (hd tag) \<and> list_all (\<lambda>v. \<not> blank v) (tl tag)"

lemma index_values_fold:
  "try_fold index_value entry vs =
     (if list_all (\<lambda>v. \<not> blank v) vs then Ok (extend_unique entry vs) else Err EmptyValue)"
proof (induction vs arbitrary: entry)
  case Nil
  then show ?case by simp
next
  case (Cons v vs)
  then show ?case
    by (cases "blank v") (auto simp: index_value_def extend_unique_Cons push_unique_def)
qed

lemma index_tag_Ok:
  "index_tag values tag = Ok values' \<longleftrightarrow> tag_indexable tag \<and>
     values' = bt_insert (trim (hd tag))
       (extend_unique (case map_of values (trim (hd tag)) of Some vs \<Rightarrow> vs | None \<Rightarrow> []) (drop 1 tag)) values"
  by (cases tag) (auto simp: index_tag_def Let_def tag_indexable_def index_values_fold and_then_eq_Ok)

lemma index_spec_snoc:
  "index_spec (tags @ [tag]) name =
     (if index_names name tag
      then Some (extend_unique (case index_spec tags name of Some vs \<Rightarrow> vs | None \<Rightarrow> []) (drop 1 tag))
      else index_spec tags name)"
proof -
  have none: "\<not> list_ex (index_names name) tags \<Longrightarrow> filter (index_names name) tags = []"
    by (auto simp: list_ex_iff filter_empty_conv)
  show ?thesis
    by (auto simp: index_spec_def extend_unique_append none)
qed

lemma try_fold_snoc: "try_fold f s (xs @ [x]) = and_then (try_fold f s xs) (\<lambda>s'. f s' x)"
  by (induction xs arbitrary: s) (auto split: sum.split)

lemma tag_index_exact:
  "tag_index_from_tags tags = Ok idx \<Longrightarrow>
     bt_wf idx \<and> list_all tag_indexable tags \<and> map_of idx = index_spec tags"
  unfolding tag_index_from_tags_def
proof (induction tags arbitrary: idx rule: rev_induct)
  case Nil
  then show ?case by (simp add: index_spec_def bt.wf_empty fun_eq_iff)
next
  case (snoc tag tags)
  from snoc.prems obtain idx0 where idx0: "try_fold index_tag [] tags = Ok idx0"
    and step: "index_tag idx0 tag = Ok idx"
    by (auto simp: try_fold_snoc and_then_eq_Ok)
  from snoc.IH [OF idx0] have ih: "bt_wf idx0" "list_all tag_indexable tags" "map_of idx0 = index_spec tags"
    by simp_all
  from step obtain first rest where tag: "tag = first # rest" and ok: "tag_indexable tag"
    and idx: "idx = bt_insert (trim first)
       (extend_unique (case map_of idx0 (trim first) of Some vs \<Rightarrow> vs | None \<Rightarrow> []) rest) idx0"
    by (cases tag) (auto simp: index_tag_Ok tag_indexable_def)
  have "map_of idx name = index_spec (tags @ [tag]) name" for name
    using ih(1,3) tag by (auto simp: idx map_of_bt_insert index_spec_snoc index_names_def)
  then show ?case using ih ok by (simp add: idx bt.wf_put fun_eq_iff)
qed

lemma tag_index_total:
  "list_all tag_indexable tags \<Longrightarrow> \<exists>idx. tag_index_from_tags tags = Ok idx"
proof -
  have "list_all tag_indexable tags \<Longrightarrow> \<exists>idx. try_fold index_tag acc tags = Ok idx" for acc
  proof (induction tags arbitrary: acc)
    case (Cons tag tags)
    then have "\<exists>idx. index_tag acc tag = Ok idx" by (simp add: index_tag_Ok)
    with Cons show ?case by auto
  qed simp
  then show "list_all tag_indexable tags \<Longrightarrow> \<exists>idx. tag_index_from_tags tags = Ok idx"
    by (simp add: tag_index_from_tags_def)
qed

subsection \<open>What a policy lets through\<close>

lemma check_tag_Ok:
  "check_tag p tag = Ok () \<longleftrightarrow> length tag - 1 \<le> max_tag_values p \<and>
     list_all (\<lambda>v. length v \<le> max_tag_value_len p) (drop 1 tag)"
  by (simp add: check_tag_def result_simps)

lemma check_tags_Ok:
  "try_fold (\<lambda>_. check_tag p) () tags = Ok () \<longleftrightarrow>
     list_all (\<lambda>tag. length tag - 1 \<le> max_tag_values p \<and>
       list_all (\<lambda>v. length v \<le> max_tag_value_len p) (drop 1 tag)) tags"
proof (induction tags)
  case (Cons tag tags)
  then show ?case
    using check_tag_Ok [of p tag] by (cases "check_tag p tag") auto
qed simp

section \<open>Properties\<close>

text \<open>
  The identifier of a verified event commits to everything its author signed: two events that
  both pass verification and carry the same identifier agree in author, time, kind, tags and
  content, as long as the two do not make the hash or the JSON and hexadecimal printers collide.\<close>

theorem verified_id_binds_content:
  assumes "event_verify cr e = Ok ()" and "event_verify cr e' = Ok ()" and "ev_id e = ev_id e'"
    and "inj_on (json_text cr) {canonical_payload e, canonical_payload e'}"
    and "inj_on (sha256 cr) {canonical_json cr e, canonical_json cr e'}"
    and "inj_on (hex_encode cr) {sha256 cr (canonical_json cr e), sha256 cr (canonical_json cr e')}"
  shows "ev_pubkey e = ev_pubkey e' \<and> ev_created_at e = ev_created_at e' \<and> ev_kind e = ev_kind e' \<and>
    ev_tags e = ev_tags e' \<and> ev_content e = ev_content e'"
proof -
  have "compute_id cr e = compute_id cr e'"
    using assms(1-3) event_verify_Ok by metis
  then have "sha256 cr (canonical_json cr e) = sha256 cr (canonical_json cr e')"
    unfolding compute_id_def using inj_onD [OF assms(6)] by blast
  then have "canonical_json cr e = canonical_json cr e'"
    using inj_onD [OF assms(5)] by blast
  then have "canonical_payload e = canonical_payload e'"
    unfolding canonical_json_def using inj_onD [OF assms(4)] by blast
  then show ?thesis by (simp add: canonical_payload_eq)
qed

text \<open>A toy instance of the parameters: the text of a payload is its author, the digest its bytes.\<close>

definition sample_crypto :: crypto where
  "sample_crypto =
     \<lparr>json_text = (\<lambda>v. case v of JArray (_ # JString pk # _) \<Rightarrow> pk | _ \<Rightarrow> []),
      sha256 = map (\<lambda>c. of_nat (byte c)), hex_encode = (\<lambda>bs. concat (map hex_byte bs)),
      hex_decode = (\<lambda>_. None), parse_signature = (\<lambda>s. Some (map (\<lambda>c. of_nat (byte c)) s)),
      parse_xonly_key = (\<lambda>s. Some (map (\<lambda>c. of_nat (byte c)) s)),
      verify_schnorr = (\<lambda>sig digest pk. sig \<noteq> []), sign_schnorr = (\<lambda>_ digest. digest)\<rparr>"

theorem verified_id_binds_content_witness:
  "let e = \<lparr>ev_id = concat (map hex_byte [107]), ev_pubkey = ''k'', ev_created_at = 7, ev_kind = 1,
         ev_tags = [[''t'', ''x'']], ev_content = ''hi'', ev_sig = ''s''\<rparr>;
       e' = e\<lparr>ev_sig := ''other''\<rparr>
   in event_verify sample_crypto e = Ok () \<and> event_verify sample_crypto e' = Ok () \<and>
      ev_tags e = ev_tags e' \<and> ev_content e = ev_content e'"
proof -
  let ?e = "\<lparr>ev_id = concat (map hex_byte [107]), ev_pubkey = ''k'', ev_created_at = 7, ev_kind = 1,
         ev_tags = [[''t'', ''x'']], ev_content = ''hi'', ev_sig = ''s''\<rparr>"
  let ?e' = "?e\<lparr>ev_sig := ''other''\<rparr>"
  have v: "event_verify sample_crypto ?e = Ok ()" "event_verify sample_crypto ?e' = Ok ()"
    by (simp_all add: event_verify_def sample_crypto_def canonical_json_def canonical_payload_def)
  have "ev_pubkey ?e = ev_pubkey ?e' \<and> ev_created_at ?e = ev_created_at ?e' \<and> ev_kind ?e = ev_kind ?e' \<and>
      ev_tags ?e = ev_tags ?e' \<and> ev_content ?e = ev_content ?e'"
    by (rule verified_id_binds_content [OF v]) (simp_all add: canonical_payload_def canonical_json_def)
  with v show ?thesis unfolding Let_def by blast
qed

text \<open>
  An event's tags can be indexed exactly when every tag has a name and no name or value is blank;
  the index then gives for every name the values of all tags of that name (after trimming), each
  once, in the order of their first occurrence, and nothing for other names.\<close>

theorem tag_index_complete:
  "case tag_index_from_tags tags of
     Inl _ \<Rightarrow> \<not> list_all tag_indexable tags
   | Inr idx \<Rightarrow> list_all tag_indexable tags \<and>
       (\<forall>name. tag_index_values idx name =
          (if list_ex (index_names name) tags
           then Some (remdups_first (concat (map (drop 1) (filter (index_names name) tags)))) else None))"
proof (cases "tag_index_from_tags tags")
  case (Inl e)
  then show ?thesis using tag_index_total [of tags] by auto
next
  case (Inr idx)
  have "extend_unique [] vs = remdups_first vs" for vs
    using extend_unique_filter [of "[]" vs] by simp
  with tag_index_exact [OF Inr] Inr show ?thesis
    by (simp add: tag_index_values_def index_spec_def)
qed

text \<open>
  The policy accepts exactly the events within all its bounds: length of the content, number of
  tags, number and length of the values of every tag, and a time at most the allowed seconds ahead
  of the clock, provided that sum does not leave the range of 64-bit integers.\<close>

theorem validate_event_iff:
  assumes "in_i64 (now + max_future_seconds p)"
  shows "validate_event p e now = Ok () \<longleftrightarrow>
    length (ev_content e) \<le> max_content_len p \<and> length (ev_tags e) \<le> max_tags p \<and>
    (\<forall>tag \<in> set (ev_tags e). length tag \<le> Suc (max_tag_values p) \<and>
       (\<forall>v \<in> set (drop 1 tag). length v \<le> max_tag_value_len p)) \<and>
    ev_created_at e \<le> now + max_future_seconds p"
  using wrap_i64_id [OF assms]
  by (auto simp: validate_event_def and_then_eq_Ok ensure_eq_Ok check_tags_Ok list_all_conv_set)

theorem validate_event_iff_witness:
  "validate_event default_policy \<lparr>ev_id = [], ev_pubkey = [], ev_created_at = 160, ev_kind = 1,
      ev_tags = [[''t'', ''x'']], ev_content = ''hi'', ev_sig = []\<rparr> 100 = Ok ()"
  using validate_event_iff [of 100 default_policy]
  by (simp add: default_policy_def in_i64_def i64_min_def i64_max_def)

text \<open>
  The kinds of a filter are read modulo two to the 32: a request for a kind that does not fit
  selects the events of another kind instead of being refused.\<close>

theorem filter_kinds_truncated:
  "filter_from_json (JObject [(''kinds'', JArray [JInt (4294967296 + int k)])]) =
     (if 4294967296 + k \<le> u64_max then Ok (empty_filter\<lparr>fl_kinds := [of_nat k]\<rparr>)
      else Err (InvalidFilterField ''kinds''))"
proof -
  have "(of_nat (nat (4294967296 + int k)) :: u32) = of_nat k"
    by (simp add: nat_add_distrib)
  then show ?thesis
    by (auto simp: filter_from_json_def filter_entry_def parse_u32_array_def)
qed

end
