(* ===== verification/Relay_Store.thy ===== *)
theory Relay_Store
  imports Relay_Event "HOL-Library.Option_ord" "HOL-Library.Product_Lexorder"
begin

text \<open>
  The in-memory event store, \<open>services/relay/src/store.rs\<close>: events by identifier and, for
  replaceable kinds, an index from replaceable key to identifier. The locale \<open>event_store\<close> is
  the contract of the trait \<open>EventStore\<close> the session relies on; \<open>memory\<close> interprets it.
  The specification of the store is a map from identifiers to events without any index.
\<close>

section \<open>Replaceable keys\<close>

datatype store_outcome = Inserted | Duplicate

datatype store_error = Backend string

fun store_error_display :: "store_error \<Rightarrow> string" where
  "store_error_display (Backend message) = ''store error: '' @ message"

datatype rkey =
  ReplaceableKey (rk_kind: u32) (rk_pubkey: string) (rk_identifier: "string option")

definition rk_tuple :: "rkey \<Rightarrow> u32 \<times> string \<times> string option" where
  "rk_tuple k = (rk_kind k, rk_pubkey k, rk_identifier k)"

lemma rk_tuple_inj: "rk_tuple a = rk_tuple b \<Longrightarrow> a = b"
  by (cases a; cases b) (simp add: rk_tuple_def)

text \<open>The derived order of the key: by kind, then key, then identifier with \<open>None\<close> first.\<close>

instantiation rkey :: linorder
begin

definition less_eq_rkey :: "rkey \<Rightarrow> rkey \<Rightarrow> bool" where
  "less_eq_rkey a b \<longleftrightarrow> rk_tuple a \<le> rk_tuple b"

definition less_rkey :: "rkey \<Rightarrow> rkey \<Rightarrow> bool" where
  "less_rkey a b \<longleftrightarrow> rk_tuple a < rk_tuple b"

instance
  by standard
    (auto simp: less_eq_rkey_def less_rkey_def intro: rk_tuple_inj)

end

definition is_replaceable_kind :: "u32 \<Rightarrow> bool" where
  "is_replaceable_kind kind \<longleftrightarrow> kind = 0 \<or> kind = 3 \<or> (10000 \<le> kind \<and> kind < 20000)"

definition is_parameterized_replaceable_kind :: "u32 \<Rightarrow> bool" where
  "is_parameterized_replaceable_kind kind \<longleftrightarrow> 30000 \<le> kind \<and> kind < 40000"

definition store_tag_values :: "tag list \<Rightarrow> string \<Rightarrow> string list" where
  "store_tag_values tags name =
     foldl (\<lambda>values tag. case tag of
              [] \<Rightarrow> values
            | first # rest \<Rightarrow> if first = name then values @ rest else values) [] tags"

definition replaceable_key :: "event \<Rightarrow> rkey option" where
  "replaceable_key e =
     (if is_replaceable_kind (ev_kind e) then Some (ReplaceableKey (ev_kind e) (ev_pubkey e) None)
      else if is_parameterized_replaceable_kind (ev_kind e) then
        (case store_tag_values (ev_tags e) ''d'' of
           [] \<Rightarrow> None
         | ident # _ \<Rightarrow> Some (ReplaceableKey (ev_kind e) (ev_pubkey e) (Some ident)))
      else None)"

definition parse_address :: "string \<Rightarrow> rkey option" where
  "parse_address v =
     (let parts = str_split v CHR '':'' in
      case part parts 0 of
        None \<Rightarrow> None
      | Some kind_part \<Rightarrow>
          (if kind_part = [] then None
           else
             (case parse_unsigned 32 kind_part of
                None \<Rightarrow> None
              | Some kind \<Rightarrow>
                  (case part parts 1 of
                     None \<Rightarrow> None
                   | Some pubkey \<Rightarrow> Some (ReplaceableKey (of_nat kind) pubkey (part parts 2))))))"

section \<open>The store\<close>

record memory_store =
  ms_events :: "(string, event) entries"
  ms_replaceable :: "(rkey, string) entries"

definition memory_store_new :: memory_store where
  "memory_store_new = \<lparr>ms_events = [], ms_replaceable = []\<rparr>"

definition remove_event :: "memory_store \<Rightarrow> string \<Rightarrow> bool \<times> memory_store" where
  "remove_event st i =
     (case map_of (ms_events st) i of
        None \<Rightarrow> (False, st)
      | Some e \<Rightarrow>
          (True, \<lparr>ms_events = bt_remove i (ms_events st),
                  ms_replaceable = (case replaceable_key e of
                                      Some key \<Rightarrow> bt_remove key (ms_replaceable st)
                                    | None \<Rightarrow> ms_replaceable st)\<rparr>))"

text \<open>A deletion reaches only events of its own author that are not newer than itself.\<close>

definition may_delete :: "event \<Rightarrow> event \<Rightarrow> bool" where
  "may_delete e existing \<longleftrightarrow>
     ev_pubkey existing = ev_pubkey e \<and> ev_created_at existing \<le> ev_created_at e"

definition delete_target :: "event \<Rightarrow> memory_store \<Rightarrow> string \<Rightarrow> memory_store" where
  "delete_target e st target =
     (case map_of (ms_events st) target of
        None \<Rightarrow> st
      | Some existing \<Rightarrow> (if may_delete e existing then snd (remove_event st target) else st))"

definition delete_address :: "event \<Rightarrow> memory_store \<Rightarrow> string \<Rightarrow> memory_store" where
  "delete_address e st address =
     (case parse_address address of
        None \<Rightarrow> st
      | Some key \<Rightarrow>
          (case map_of (ms_replaceable st) key of
             None \<Rightarrow> st
           | Some existing_id \<Rightarrow>
               (case map_of (ms_events st) existing_id of
                  None \<Rightarrow> st
                | Some existing \<Rightarrow>
                    (if may_delete e existing then snd (remove_event st existing_id) else st))))"

definition apply_delete :: "memory_store \<Rightarrow> event \<Rightarrow> memory_store" where
  "apply_delete st e =
     (let st = foldl (delete_target e) st (store_tag_values (ev_tags e) ''e'')
      in foldl (delete_address e) st (store_tag_values (ev_tags e) ''a''))"

definition put_event :: "memory_store \<Rightarrow> event \<Rightarrow> memory_store" where
  "put_event st e = st\<lparr>ms_events := bt_insert (ev_id e) e (ms_events st)\<rparr>"

definition newer_exists :: "memory_store \<Rightarrow> string \<Rightarrow> event \<Rightarrow> bool" where
  "newer_exists st i e =
     (case map_of (ms_events st) i of
        None \<Rightarrow> False
      | Some existing \<Rightarrow> ev_created_at existing \<ge> ev_created_at e)"

definition memory_insert :: "event \<Rightarrow> memory_store \<Rightarrow> store_outcome \<times> memory_store" where
  "memory_insert e st =
     (if map_of (ms_events st) (ev_id e) \<noteq> None then (Duplicate, st)
      else
        (let st = (if ev_kind e = 5 then apply_delete st e else st) in
         case replaceable_key e of
           None \<Rightarrow> (Inserted, put_event st e)
         | Some key \<Rightarrow>
             (case map_of (ms_replaceable st) key of
                None \<Rightarrow>
                  (Inserted,
                   put_event (st\<lparr>ms_replaceable := bt_insert key (ev_id e) (ms_replaceable st)\<rparr>) e)
              | Some existing_id \<Rightarrow>
                  (if newer_exists st existing_id e then (Duplicate, st)
                   else
                     (let st = snd (remove_event st existing_id) in
                      (Inserted,
                       put_event (st\<lparr>ms_replaceable := bt_insert key (ev_id e) (ms_replaceable st)\<rparr>) e))))))"

definition memory_get :: "string \<Rightarrow> memory_store \<Rightarrow> event option" where
  "memory_get i st = map_of (ms_events st) i"

definition memory_delete :: "string \<Rightarrow> memory_store \<Rightarrow> bool \<times> memory_store" where
  "memory_delete i st = remove_event st i"

section \<open>Queries\<close>

definition query_order :: "event \<Rightarrow> int \<times> string" where
  "query_order e = (- ev_created_at e, ev_id e)"

definition ordered_events :: "memory_store \<Rightarrow> event list" where
  "ordered_events st = sort_key query_order (map snd (ms_events st))"

fun query_scan ::
  "filter_rec \<Rightarrow> nat \<Rightarrow> event list \<Rightarrow> string set \<times> event list \<Rightarrow> (store_error, string set \<times> event list) result" where
  "query_scan f remaining [] acc = Ok acc"
| "query_scan f remaining (e # es) acc =
     (if remaining = 0 then Ok acc
      else if ev_id e \<in> fst acc then query_scan f remaining es acc
      else
        (case tag_index_from_tags (ev_tags e) of
           Inl err \<Rightarrow> Err (Backend (tag_error_display err))
         | Inr idx \<Rightarrow>
             (if filter_matches f e idx
              then query_scan f (remaining - 1) es (insert (ev_id e) (fst acc), snd acc @ [e])
              else query_scan f remaining es acc)))"

definition filter_limit :: "filter_rec \<Rightarrow> nat" where
  "filter_limit f = (case fl_limit f of Some n \<Rightarrow> n | None \<Rightarrow> u64_max)"

definition memory_query :: "filter_rec list \<Rightarrow> memory_store \<Rightarrow> (store_error, event list) result" where
  "memory_query filters st =
     (if filters = [] then Ok []
      else
        and_then
          (try_fold (\<lambda>acc f. query_scan f (filter_limit f) (ordered_events st) acc) ({}, []) filters)
          (\<lambda>acc. Ok (snd acc)))"

section \<open>The invariant\<close>

definition store_map :: "memory_store \<Rightarrow> string \<Rightarrow> event option" where
  "store_map st = map_of (ms_events st)"

definition store_inv :: "memory_store \<Rightarrow> bool" where
  "store_inv st \<longleftrightarrow>
     bt_wf (ms_events st) \<and> bt_wf (ms_replaceable st) \<and>
     (\<forall>i e. store_map st i = Some e \<longrightarrow> ev_id e = i) \<and>
     (\<forall>k i. map_of (ms_replaceable st) k = Some i \<longleftrightarrow>
        (\<exists>e. store_map st i = Some e \<and> replaceable_key e = Some k))"

lemma store_inv_new: "store_inv memory_store_new"
  by (simp add: store_inv_def memory_store_new_def store_map_def bt.wf_empty)

lemma store_inv_id: "store_inv st \<Longrightarrow> store_map st i = Some e \<Longrightarrow> ev_id e = i"
  by (simp add: store_inv_def)

lemma store_inv_key:
  "store_inv st \<Longrightarrow> map_of (ms_replaceable st) k = Some i \<longleftrightarrow>
     (\<exists>e. store_map st i = Some e \<and> replaceable_key e = Some k)"
  by (simp add: store_inv_def)

lemma store_inv_key_unique:
  assumes "store_inv st" and "store_map st i = Some e" and "store_map st j = Some e'"
    and "replaceable_key e = Some k" and "replaceable_key e' = Some k"
  shows "i = j \<and> e = e'"
proof -
  have "map_of (ms_replaceable st) k = Some i" "map_of (ms_replaceable st) k = Some j"
    using assms store_inv_key by blast+
  then have "i = j" by simp
  with assms(2,3) show ?thesis by simp
qed

lemma remove_event_store:
  assumes inv: "store_inv st"
  shows "store_inv (snd (remove_event st i)) \<and>
    store_map (snd (remove_event st i)) = (store_map st)(i := None) \<and>
    (fst (remove_event st i) \<longleftrightarrow> store_map st i \<noteq> None)"
proof (cases "store_map st i")
  case None
  then have "(store_map st)(i := None) = store_map st" by auto
  with None inv show ?thesis by (simp add: remove_event_def store_map_def)
next
  case (Some e)
  let ?st = "snd (remove_event st i)"
  have ev: "ms_events ?st = bt_remove i (ms_events st)"
    using Some by (simp add: remove_event_def store_map_def)
  then have map: "store_map ?st = (store_map st)(i := None)"
    by (simp add: store_map_def map_of_bt_remove)
  have repl: "map_of (ms_replaceable ?st) k =
      (if replaceable_key e = Some k then None else map_of (ms_replaceable st) k)" for k
    using Some by (auto simp: remove_event_def store_map_def map_of_bt_remove split: option.split)
  have wf: "bt_wf (ms_replaceable ?st)" "bt_wf (ms_events ?st)"
    using Some inv by (auto simp: remove_event_def store_map_def store_inv_def bt.wf_del split: option.split)
  have "map_of (ms_replaceable ?st) k = Some j \<longleftrightarrow>
      (\<exists>e'. store_map ?st j = Some e' \<and> replaceable_key e' = Some k)" for k j
  proof (cases "j = i")
    case True
    with Some show ?thesis
      using store_inv_key [OF inv, of k i] by (auto simp: repl map)
  next
    case False
    then show ?thesis
      using store_inv_key [OF inv, of k j] store_inv_key_unique [OF inv Some] by (auto simp: repl map)
  qed
  with inv wf map Some show ?thesis
    by (auto simp: store_inv_def remove_event_def store_map_def split: option.splits)
qed

section \<open>The specification\<close>

definition drop_events :: "(event \<Rightarrow> bool) \<Rightarrow> (string \<Rightarrow> event option) \<Rightarrow> string \<Rightarrow> event option" where
  "drop_events P m = (\<lambda>i. case m i of None \<Rightarrow> None | Some e \<Rightarrow> if P e then None else Some e)"

definition deleted_by :: "event \<Rightarrow> event \<Rightarrow> bool" where
  "deleted_by e existing \<longleftrightarrow>
     may_delete e existing \<and>
     (ev_id existing \<in> set (store_tag_values (ev_tags e) ''e'') \<or>
      (\<exists>a \<in> set (store_tag_values (ev_tags e) ''a''). \<exists>k.
         parse_address a = Some k \<and> replaceable_key existing = Some k))"

definition same_key :: "event \<Rightarrow> event \<Rightarrow> bool" where
  "same_key e existing \<longleftrightarrow> replaceable_key e \<noteq> None \<and> replaceable_key existing = replaceable_key e"

definition spec_insert ::
  "event \<Rightarrow> (string \<Rightarrow> event option) \<Rightarrow> store_outcome \<times> (string \<Rightarrow> event option)" where
  "spec_insert e m =
     (if m (ev_id e) \<noteq> None then (Duplicate, m)
      else
        (let m = (if ev_kind e = 5 then drop_events (deleted_by e) m else m) in
         if \<exists>existing \<in> ran m. same_key e existing \<and> ev_created_at existing \<ge> ev_created_at e
         then (Duplicate, m)
         else (Inserted, (drop_events (same_key e) m)(ev_id e \<mapsto> e))))"

lemma drop_events_None [simp]: "drop_events P m i = None \<longleftrightarrow> (\<forall>e. m i = Some e \<longrightarrow> P e)"
  by (auto simp: drop_events_def split: option.split)

lemma drop_events_Some [simp]: "drop_events P m i = Some e \<longleftrightarrow> m i = Some e \<and> \<not> P e"
  by (auto simp: drop_events_def split: option.splits if_splits)

lemma map_eqI: "(\<And>i e. f i = Some e \<longleftrightarrow> g i = Some e) \<Longrightarrow> f = g"
  by (rule ext) (metis not_None_eq)

lemma drop_events_drop: "drop_events P (drop_events Q m) = drop_events (\<lambda>e. P e \<or> Q e) m"
  by (rule map_eqI) auto

lemma delete_target_store:
  assumes inv: "store_inv st"
  shows "store_inv (delete_target e st target) \<and>
    store_map (delete_target e st target) =
      drop_events (\<lambda>x. may_delete e x \<and> ev_id x = target) (store_map st)"
proof (cases "\<exists>x. store_map st target = Some x \<and> may_delete e x")
  case True
  then have "delete_target e st target = snd (remove_event st target)"
    by (auto simp: delete_target_def store_map_def)
  moreover have "(store_map st)(target := None) =
      drop_events (\<lambda>x. may_delete e x \<and> ev_id x = target) (store_map st)"
    using True inv by (intro map_eqI) (auto simp: store_inv_def split: if_splits)
  ultimately show ?thesis using remove_event_store [OF inv, of target] by simp
next
  case False
  then have "delete_target e st target = st"
    by (auto simp: delete_target_def store_map_def split: option.splits)
  moreover have "store_map st = drop_events (\<lambda>x. may_delete e x \<and> ev_id x = target) (store_map st)"
    using False inv by (intro map_eqI) (auto simp: store_inv_def)
  ultimately show ?thesis using inv by simp
qed

definition addressed :: "string \<Rightarrow> event \<Rightarrow> bool" where
  "addressed a x \<longleftrightarrow> (\<exists>k. parse_address a = Some k \<and> replaceable_key x = Some k)"

lemma delete_address_store:
  assumes inv: "store_inv st"
  shows "store_inv (delete_address e st a) \<and>
    store_map (delete_address e st a) =
      drop_events (\<lambda>x. may_delete e x \<and> addressed a x) (store_map st)"
proof (cases "\<exists>k i x. parse_address a = Some k \<and> map_of (ms_replaceable st) k = Some i \<and>
    store_map st i = Some x \<and> may_delete e x")
  case True
  then obtain k i x where k: "parse_address a = Some k" and i: "map_of (ms_replaceable st) k = Some i"
    and x: "store_map st i = Some x" and may: "may_delete e x" by blast
  then have st: "delete_address e st a = snd (remove_event st i)"
    by (simp add: delete_address_def store_map_def)
  from store_inv_key [OF inv, of k i] i x have key: "replaceable_key x = Some k" by auto
  have "(store_map st)(i := None) = drop_events (\<lambda>x. may_delete e x \<and> addressed a x) (store_map st)"
    using k key may store_inv_key_unique [OF inv x]
    by (intro map_eqI) (auto simp: addressed_def x split: if_splits)
  with st show ?thesis using remove_event_store [OF inv, of i] by simp
next
  case False
  then have "delete_address e st a = st"
    by (auto simp: delete_address_def store_map_def split: option.splits)
  moreover have "store_map st = drop_events (\<lambda>x. may_delete e x \<and> addressed a x) (store_map st)"
    using False store_inv_key [OF inv] by (intro map_eqI) (auto simp: addressed_def)
  ultimately show ?thesis using inv by simp
qed

text \<open>Both loops of a deletion drop what their steps drop.\<close>

lemma foldl_drop_events:
  assumes step: "\<And>st x. store_inv st \<Longrightarrow>
      store_inv (f st x) \<and> store_map (f st x) = drop_events (P x) (store_map st)"
    and inv: "store_inv st"
  shows "store_inv (foldl f st xs) \<and>
    store_map (foldl f st xs) = drop_events (\<lambda>e. \<exists>x \<in> set xs. P x e) (store_map st)"
  using inv
proof (induction xs arbitrary: st)
  case Nil
  have "store_map st = drop_events (\<lambda>e. False) (store_map st)" by (intro map_eqI) simp
  with Nil show ?case by simp
next
  case (Cons x xs)
  have "store_map (foldl f (f st x) xs) =
      drop_events (\<lambda>e. (\<exists>x \<in> set xs. P x e) \<or> P x e) (store_map st)"
    using Cons step by (simp add: drop_events_drop)
  moreover have "(\<lambda>e. (\<exists>x \<in> set xs. P x e) \<or> P x e) = (\<lambda>e. \<exists>y \<in> set (x # xs). P y e)" by auto
  ultimately show ?case using Cons step by simp
qed

lemma apply_delete_store:
  assumes "store_inv st"
  shows "store_inv (apply_delete st e) \<and>
    store_map (apply_delete st e) = drop_events (deleted_by e) (store_map st)"
proof -
  let ?ids = "store_tag_values (ev_tags e) ''e''" and ?addrs = "store_tag_values (ev_tags e) ''a''"
  let ?st = "foldl (delete_target e) st ?ids"
  have 1: "store_inv ?st \<and> store_map ?st =
      drop_events (\<lambda>x. \<exists>t \<in> set ?ids. may_delete e x \<and> ev_id x = t) (store_map st)"
    by (rule foldl_drop_events [OF delete_target_store assms])
  then have inv: "store_inv ?st" by blast
  have 2: "store_inv (foldl (delete_address e) ?st ?addrs) \<and>
      store_map (foldl (delete_address e) ?st ?addrs) =
      drop_events (\<lambda>x. \<exists>a \<in> set ?addrs. may_delete e x \<and> addressed a x) (store_map ?st)"
    by (rule foldl_drop_events [OF delete_address_store inv])
  have "(\<lambda>x. (\<exists>a \<in> set ?addrs. may_delete e x \<and> addressed a x) \<or>
        (\<exists>t \<in> set ?ids. may_delete e x \<and> ev_id x = t)) = deleted_by e"
    by (rule ext) (auto simp: deleted_by_def addressed_def)
  with 1 2 show ?thesis by (simp add: apply_delete_def Let_def drop_events_drop)
qed

text \<open>Storing an event whose identifier and key are free.\<close>

lemma put_event_store:
  assumes inv: "store_inv st" and free: "store_map st (ev_id e) = None"
    and key: "replaceable_key e = None"
  shows "store_inv (put_event st e) \<and> store_map (put_event st e) = (store_map st)(ev_id e \<mapsto> e)"
proof -
  have map: "store_map (put_event st e) = (store_map st)(ev_id e \<mapsto> e)"
    using inv by (simp add: store_map_def put_event_def store_inv_def map_of_bt_insert)
  have "map_of (ms_replaceable st) k = Some i \<longleftrightarrow>
      (\<exists>x. ((store_map st)(ev_id e \<mapsto> e)) i = Some x \<and> replaceable_key x = Some k)" for k i
    using store_inv_key [OF inv, of k i] free key by auto
  with inv map show ?thesis
    by (auto simp: store_inv_def put_event_def bt.wf_put)
qed

lemma put_keyed_event_store:
  assumes inv: "store_inv st" and free: "store_map st (ev_id e) = None"
    and key: "replaceable_key e = Some k" and unused: "map_of (ms_replaceable st) k = None"
  shows "store_inv (put_event (st\<lparr>ms_replaceable := bt_insert k (ev_id e) (ms_replaceable st)\<rparr>) e) \<and>
    store_map (put_event (st\<lparr>ms_replaceable := bt_insert k (ev_id e) (ms_replaceable st)\<rparr>) e) =
      (store_map st)(ev_id e \<mapsto> e)"
proof -
  let ?st = "put_event (st\<lparr>ms_replaceable := bt_insert k (ev_id e) (ms_replaceable st)\<rparr>) e"
  have map: "store_map ?st = (store_map st)(ev_id e \<mapsto> e)"
    using inv by (simp add: store_map_def put_event_def store_inv_def map_of_bt_insert)
  have repl: "map_of (ms_replaceable ?st) = (map_of (ms_replaceable st))(k \<mapsto> ev_id e)"
    using inv by (simp add: put_event_def store_inv_def map_of_bt_insert)
  have "map_of (ms_replaceable ?st) k' = Some i \<longleftrightarrow>
      (\<exists>x. store_map ?st i = Some x \<and> replaceable_key x = Some k')" for k' i
    using store_inv_key [OF inv, of k' i] free key unused unfolding map repl
    by (cases "i = ev_id e"; cases "k' = k") (auto dest: store_inv_key [OF inv, THEN iffD2, OF exI])
  with inv map show ?thesis
    by (auto simp: store_inv_def put_event_def bt.wf_put)
qed

lemma drop_same_key_None:
  assumes "replaceable_key e = None"
  shows "drop_events (same_key e) m = m"
  using assms by (intro map_eqI) (simp add: same_key_def)

lemma insert_prepared:
  assumes inv: "store_inv st" and free: "store_map st (ev_id e) = None"
    and st': "st' = (if ev_kind e = 5 then apply_delete st e else st)"
  shows "store_inv st'" and "store_map st' (ev_id e) = None"
    and "store_map st' = (if ev_kind e = 5 then drop_events (deleted_by e) (store_map st) else store_map st)"
  using apply_delete_store [OF inv, of e] inv free by (auto simp: st')

lemma same_key_position:
  assumes "store_inv st" and "replaceable_key e = Some k"
    and "store_map st i = Some x" and "replaceable_key x = Some k" and "store_map st j = Some y"
  shows "same_key e y \<longleftrightarrow> j = i"
proof
  assume "same_key e y"
  with assms(2) have "replaceable_key y = Some k" by (simp add: same_key_def)
  with store_inv_key_unique [OF assms(1,3,5,4)] show "j = i" by simp
next
  assume "j = i"
  with assms show "same_key e y" by (simp add: same_key_def)
qed

lemma newer_exists_iff:
  assumes inv: "store_inv st" and key: "replaceable_key e = Some k"
    and i: "map_of (ms_replaceable st) k = Some i"
  shows "newer_exists st i e \<longleftrightarrow>
    (\<exists>x \<in> ran (store_map st). same_key e x \<and> ev_created_at x \<ge> ev_created_at e)"
proof -
  from store_inv_key [OF inv, of k i] i obtain x where
    x: "store_map st i = Some x" "replaceable_key x = Some k" by auto
  have "same_key e y \<and> y \<in> ran (store_map st) \<longleftrightarrow> y = x" for y
  proof
    assume y: "same_key e y \<and> y \<in> ran (store_map st)"
    then obtain j where "store_map st j = Some y" by (auto simp: ran_def)
    with y x(1) show "y = x" using same_key_position [OF inv key x] by auto
  next
    assume "y = x"
    with x key show "same_key e y \<and> y \<in> ran (store_map st)" by (auto simp: same_key_def ranI)
  qed
  then have "(\<exists>y \<in> ran (store_map st). same_key e y \<and> ev_created_at y \<ge> ev_created_at e) \<longleftrightarrow>
      ev_created_at x \<ge> ev_created_at e" by metis
  then show ?thesis using x(1) by (simp add: newer_exists_def store_map_def)
qed

lemma memory_insert_refines:
  assumes inv: "store_inv st"
  shows "store_inv (snd (memory_insert e st)) \<and>
    map_prod id store_map (memory_insert e st) = spec_insert e (store_map st)"
proof (cases "store_map st (ev_id e) = None")
  case False
  then show ?thesis using inv by (simp add: memory_insert_def spec_insert_def store_map_def)
next
  case free: True
  define st' where "st' = (if ev_kind e = 5 then apply_delete st e else st)"
  note prep = insert_prepared [OF inv free st'_def]
  have new: "map_of (ms_events st) (ev_id e) = None" using free by (simp add: store_map_def)
  have spec: "spec_insert e (store_map st) =
      (if \<exists>x \<in> ran (store_map st'). same_key e x \<and> ev_created_at x \<ge> ev_created_at e
       then (Duplicate, store_map st')
       else (Inserted, (drop_events (same_key e) (store_map st'))(ev_id e \<mapsto> e)))"
    using free by (simp add: spec_insert_def prep(3) Let_def)
  show ?thesis
  proof (cases "replaceable_key e")
    case None
    then have "memory_insert e st = (Inserted, put_event st' e)"
      using new by (simp add: memory_insert_def st'_def)
    with put_event_store [OF prep(1,2) None] None show ?thesis
      by (simp add: spec drop_same_key_None same_key_def)
  next
    case (Some k)
    show ?thesis
    proof (cases "map_of (ms_replaceable st') k")
      case unused: None
      then have none: "\<not> (\<exists>x \<in> ran (store_map st'). same_key e x)"
        using Some store_inv_key [OF prep(1), of k] by (auto simp: same_key_def ran_def)
      then have "drop_events (same_key e) (store_map st') = store_map st'"
        by (intro map_eqI) (auto simp: ran_def)
      with none show ?thesis
        using put_keyed_event_store [OF prep(1,2) Some unused] new Some unused
        by (simp add: memory_insert_def st'_def [symmetric] spec Let_def)
    next
      case used: (Some i)
      note newer = newer_exists_iff [OF prep(1) Some used]
      show ?thesis
      proof (cases "newer_exists st' i e")
        case True
        then show ?thesis
          using newer new Some used prep(1)
          by (simp add: memory_insert_def st'_def [symmetric] spec Let_def)
      next
        case False
        let ?st = "snd (remove_event st' i)"
        from store_inv_key [OF prep(1), of k i] used obtain x where
          x: "store_map st' i = Some x" "replaceable_key x = Some k" by auto
        have rem: "store_inv ?st" "store_map ?st = (store_map st')(i := None)"
          using remove_event_store [OF prep(1), of i] by simp_all
        have drop: "drop_events (same_key e) (store_map st') = (store_map st')(i := None)"
        proof (rule map_eqI)
          fix j y
          show "drop_events (same_key e) (store_map st') j = Some y \<longleftrightarrow>
              ((store_map st')(i := None)) j = Some y"
            using same_key_position [OF prep(1) Some x, of j y] by auto
        qed
        have "map_of (ms_replaceable ?st) k = None"
          using x by (auto simp: remove_event_def store_map_def map_of_bt_remove)
        moreover have "store_map ?st (ev_id e) = None" using rem(2) prep(2) by simp
        ultimately show ?thesis
          using put_keyed_event_store [OF rem(1) _ Some] False newer new Some used prep(1)
          by (simp add: memory_insert_def st'_def [symmetric] spec Let_def drop rem(2))
      qed
    qed
  qed
qed

section \<open>What a query returns\<close>

definition event_matches :: "filter_rec \<Rightarrow> event \<Rightarrow> bool" where
  "event_matches f e =
     (case tag_index_from_tags (ev_tags e) of Inl _ \<Rightarrow> False | Inr idx \<Rightarrow> filter_matches f e idx)"

abbreviation indexable :: "event \<Rightarrow> bool" where
  "indexable e \<equiv> list_all tag_indexable (ev_tags e)"

lemma query_scan_Ok:
  assumes "query_scan f n es acc = Ok acc'" and "distinct (map ev_id es)"
  shows "acc' = (fst acc \<union> ev_id ` set (take n (filter (\<lambda>e. ev_id e \<notin> fst acc \<and> event_matches f e) es)),
    snd acc @ take n (filter (\<lambda>e. ev_id e \<notin> fst acc \<and> event_matches f e) es))"
  using assms
proof (induction f n es acc rule: query_scan.induct)
  case (1 f n acc)
  then show ?case by simp
next
  case (2 f n e es acc)
  have "n = 0 \<or> ev_id e \<in> fst acc \<or> (n \<noteq> 0 \<and> ev_id e \<notin> fst acc)" by blast
  then show ?case
  proof (elim disjE)
    assume new: "n \<noteq> 0 \<and> ev_id e \<notin> fst acc"
    with 2(4) obtain idx where idx: "tag_index_from_tags (ev_tags e) = Ok idx"
      by (auto split: sum.splits)
    show ?thesis
    proof (cases "filter_matches f e idx")
      case True
      then have hit: "event_matches f e" using idx by (simp add: event_matches_def)
      have others: "filter (\<lambda>x. ev_id x \<noteq> ev_id e \<and> ev_id x \<notin> fst acc \<and> event_matches f x) es =
          filter (\<lambda>x. ev_id x \<notin> fst acc \<and> event_matches f x) es"
        using 2(5) by (intro filter_cong) (auto simp: rev_image_eqI)
      from new obtain m where m: "n = Suc m" by (cases n) auto
      from 2(2) [OF _ _ idx True] new 2(4,5) idx True show ?thesis
        by (simp add: others hit m)
    next
      case False
      then have "\<not> event_matches f e" using idx by (simp add: event_matches_def)
      with False 2(3) [OF _ _ idx False] new 2(4,5) idx show ?thesis by simp
    qed
  qed (use 2 in \<open>auto split: if_splits\<close>)
qed

lemma query_scan_total:
  "list_all indexable es \<Longrightarrow> \<exists>acc'. query_scan f n es acc = Ok acc'"
proof (induction f n es acc rule: query_scan.induct)
  case (2 f n e es acc)
  then obtain idx where "tag_index_from_tags (ev_tags e) = Ok idx" using tag_index_total by fastforce
  with 2 show ?case by simp
qed simp

lemma query_scan_poisoned:
  assumes "x \<in> set es" and "\<not> indexable x" and "ev_id x \<notin> fst acc" and "length es \<le> n"
    and "distinct (map ev_id es)"
  shows "\<exists>err. query_scan f n es acc = Err err"
  using assms
proof (induction f n es acc rule: query_scan.induct)
  case (2 f n e es acc)
  have n: "n \<noteq> 0" using 2(6,7) by auto
  show ?case
  proof (cases "x = e")
    case True
    then obtain err where "tag_index_from_tags (ev_tags e) = Err err"
      using 2(5) tag_index_exact by (cases "tag_index_from_tags (ev_tags e)") blast+
    with True 2(6) n show ?thesis by simp
  next
    case False
    with 2(4,8) have x: "x \<in> set es" "ev_id x \<noteq> ev_id e" by (auto simp: rev_image_eqI)
    have "length es \<le> n" "length es \<le> n - 1" "distinct (map ev_id es)" using 2(7,8) by auto
    with 2 x n show ?thesis
      by (cases "ev_id e \<in> fst acc"; cases "tag_index_from_tags (ev_tags e)") auto
  qed
qed simp

fun query_spec :: "event list \<Rightarrow> event list \<Rightarrow> filter_rec list \<Rightarrow> event list" where
  "query_spec ord acc [] = acc"
| "query_spec ord acc (f # fs) =
     query_spec ord
       (acc @ take (filter_limit f) (filter (\<lambda>e. ev_id e \<notin> ev_id ` set acc \<and> event_matches f e) ord)) fs"

lemma query_fold_Ok:
  assumes "try_fold (\<lambda>acc f. query_scan f (filter_limit f) ord acc) (ev_id ` set es, es) fs = Ok acc'"
    and "distinct (map ev_id ord)"
  shows "snd acc' = query_spec ord es fs"
  using assms
proof (induction fs arbitrary: es)
  case (Cons f fs)
  let ?new = "take (filter_limit f) (filter (\<lambda>e. ev_id e \<notin> ev_id ` set es \<and> event_matches f e) ord)"
  from Cons.prems(1) obtain acc1 where
    scan: "query_scan f (filter_limit f) ord (ev_id ` set es, es) = Ok acc1"
    and rest: "try_fold (\<lambda>acc f. query_scan f (filter_limit f) ord acc) acc1 fs = Ok acc'"
    by (auto split: sum.splits)
  have "acc1 = (ev_id ` set (es @ ?new), es @ ?new)"
    using query_scan_Ok [OF scan Cons.prems(2)] by (simp add: image_Un)
  with rest Cons.IH [of "es @ ?new"] Cons.prems(2) show ?case by simp
qed auto

lemma query_fold_total:
  "list_all indexable ord \<Longrightarrow>
   \<exists>acc'. try_fold (\<lambda>acc f. query_scan f (filter_limit f) ord acc) acc fs = Ok acc'"
proof (induction fs arbitrary: acc)
  case (Cons f fs)
  then obtain acc1 where "query_scan f (filter_limit f) ord acc = Ok acc1"
    using query_scan_total by blast
  with Cons show ?case by simp
qed simp

text \<open>The events of the store, newest first and by identifier among equally old ones.\<close>

lemma ordered_events_set:
  assumes "store_inv st"
  shows "set (ordered_events st) = ran (store_map st)"
proof -
  have "bt_wf (ms_events st)" using assms by (simp add: store_inv_def)
  from bt.get_in [OF this] show ?thesis
    by (force simp: ordered_events_def store_map_def ran_def)
qed

lemma ordered_events_distinct:
  assumes inv: "store_inv st"
  shows "distinct (map ev_id (ordered_events st))"
proof -
  have wf: "bt_wf (ms_events st)" using inv by (simp add: store_inv_def)
  have "map ev_id (map snd (ms_events st)) = map fst (ms_events st)"
    using bt.get_in [OF wf] store_inv_id [OF inv] by (auto simp: store_map_def)
  then have "distinct (map ev_id (map snd (ms_events st)))"
    using bt_wf_distinct [OF wf] by metis
  then show ?thesis
    by (auto simp: ordered_events_def distinct_map intro: inj_on_imageI inj_on_imageI2)
qed

lemma ordered_events_sorted:
  "sorted_wrt (\<lambda>a b. ev_created_at b < ev_created_at a \<or>
     ev_created_at a = ev_created_at b \<and> ev_id a \<le> ev_id b) (ordered_events st)"
proof -
  have "sorted_wrt (\<lambda>a b. query_order a \<le> query_order b) (ordered_events st)"
    unfolding ordered_events_def by (metis sorted_sort_key sorted_map)
  then show ?thesis
    by (rule sorted_wrt_mono_rel [rotated]) (auto simp: query_order_def less_eq_prod_def)
qed

lemma memory_query_Ok:
  assumes "store_inv st" and "memory_query fs st = Ok es"
  shows "es = query_spec (ordered_events st) [] fs"
proof (cases fs)
  case Nil
  with assms(2) show ?thesis by (simp add: memory_query_def)
next
  case (Cons f fs')
  with assms(2) obtain acc where
    "try_fold (\<lambda>acc f. query_scan f (filter_limit f) (ordered_events st) acc) ({}, []) fs = Ok acc"
    and "es = snd acc"
    by (auto simp: memory_query_def and_then_eq_Ok)
  with query_fold_Ok [of "ordered_events st" "[]" fs acc] ordered_events_distinct [OF assms(1)]
  show ?thesis by simp
qed

lemma query_spec_sound:
  assumes "e \<in> set (query_spec ord acc fs)"
  shows "e \<in> set acc \<or> e \<in> set ord \<and> (\<exists>f \<in> set fs. event_matches f e)"
  using assms
proof (induction ord acc fs rule: query_spec.induct)
  case (2 ord acc f fs)
  then show ?case by (auto dest!: in_set_takeD)
qed simp

lemma query_spec_distinct:
  assumes "distinct (map ev_id ord)" and "distinct (map ev_id acc)"
  shows "distinct (map ev_id (query_spec ord acc fs))"
  using assms
proof (induction ord acc fs rule: query_spec.induct)
  case (2 ord acc f fs)
  let ?new = "take (filter_limit f) (filter (\<lambda>e. ev_id e \<notin> ev_id ` set acc \<and> event_matches f e) ord)"
  have "distinct (map ev_id ?new)"
    using 2(2) by (simp add: take_map [symmetric] distinct_map_filter)
  moreover have "ev_id ` set acc \<inter> ev_id ` set ?new = {}"
    by (auto dest!: in_set_takeD) (metis imageI)
  ultimately show ?case using 2 by simp
qed simp

section \<open>The contract of a store\<close>

text \<open>The trait \<open>EventStore\<close>: the operations over a state, failures as errors.\<close>

record 's store_ops =
  so_insert :: "event \<Rightarrow> 's \<Rightarrow> (store_error, store_outcome) result \<times> 's"
  so_get :: "string \<Rightarrow> 's \<Rightarrow> (store_error, event option) result"
  so_delete :: "string \<Rightarrow> 's \<Rightarrow> (store_error, bool) result \<times> 's"
  so_query :: "filter_rec list \<Rightarrow> 's \<Rightarrow> (store_error, event list) result"

locale event_store =
  fixes ops :: "'s store_ops"
    and inv :: "'s \<Rightarrow> bool"
    and abs :: "'s \<Rightarrow> string \<Rightarrow> event option"
  assumes finite_abs: "inv s \<Longrightarrow> finite (dom (abs s))"
    and insert_inv: "inv s \<Longrightarrow> inv (snd (so_insert ops e s))"
    and insert_abs: "inv s \<Longrightarrow> so_insert ops e s = (Ok outcome, s') \<Longrightarrow>
      spec_insert e (abs s) = (outcome, abs s')"
    and delete_inv: "inv s \<Longrightarrow> inv (snd (so_delete ops i s))"
    and delete_abs: "inv s \<Longrightarrow> so_delete ops i s = (Ok b, s') \<Longrightarrow> abs s' = (abs s)(i := None)"
    and get_abs: "inv s \<Longrightarrow> so_get ops i s = Ok x \<Longrightarrow> x = abs s i"
    and query_sound: "inv s \<Longrightarrow> so_query ops fs s = Ok es \<Longrightarrow> e \<in> set es \<Longrightarrow>
      abs s (ev_id e) = Some e \<and> (\<exists>f \<in> set fs. event_matches f e)"
    and query_empty: "inv s \<Longrightarrow> so_query ops [f] s = Ok [] \<Longrightarrow> fl_limit f \<noteq> Some 0 \<Longrightarrow>
      abs s i = Some e \<Longrightarrow> \<not> event_matches f e"
begin

text \<open>Deleting an event that is there makes the store smaller.\<close>

lemma delete_shrinks:
  assumes "inv s" and "so_delete ops i s = (Ok b, s')"
  shows "dom (abs s') \<subseteq> dom (abs s)" and "abs s i \<noteq> None \<Longrightarrow> dom (abs s') \<subset> dom (abs s)"
  using delete_abs [OF assms] by auto

text \<open>An insertion touches only events of the same author.\<close>

lemma insert_other_author:
  assumes "inv s" and "so_insert ops e s = (Ok outcome, s')"
    and "abs s i = Some x" and "ev_pubkey x \<noteq> ev_pubkey e" and "i \<noteq> ev_id e"
  shows "abs s' i = Some x"
proof -
  have "replaceable_key y = Some k \<Longrightarrow> rk_pubkey k = ev_pubkey y" for y k
    by (auto simp: replaceable_key_def split: if_splits list.splits)
  with assms(4) have "\<not> same_key e x" by (auto simp: same_key_def) metis
  moreover have "\<not> deleted_by e x" using assms(4) by (auto simp: deleted_by_def may_delete_def)
  moreover have "abs s' = snd (spec_insert e (abs s))" using insert_abs [OF assms(1,2)] by simp
  ultimately show ?thesis
    using assms(3,5) by (auto simp: spec_insert_def Let_def)
qed

end

definition memory_ops :: "memory_store store_ops" where
  "memory_ops =
     \<lparr>so_insert = (\<lambda>e st. (case memory_insert e st of (outcome, st') \<Rightarrow> (Ok outcome, st'))),
      so_get = (\<lambda>i st. Ok (memory_get i st)),
      so_delete = (\<lambda>i st. (case memory_delete i st of (b, st') \<Rightarrow> (Ok b, st'))),
      so_query = memory_query\<rparr>"

interpretation memory: event_store memory_ops store_inv store_map
proof unfold_locales
  fix s :: memory_store and e outcome s'
  assume "store_inv s" and "so_insert memory_ops e s = (Ok outcome, s')"
  then show "spec_insert e (store_map s) = (outcome, store_map s')"
    using memory_insert_refines [of s e] by (auto simp: memory_ops_def split: prod.splits)
next
  fix s :: memory_store and e
  assume "store_inv s"
  then show "store_inv (snd (so_insert memory_ops e s))"
    using memory_insert_refines [of s e] by (auto simp: memory_ops_def split: prod.splits)
next
  fix s :: memory_store and i
  assume "store_inv s"
  then show "store_inv (snd (so_delete memory_ops i s))"
    using remove_event_store [of s i] by (auto simp: memory_ops_def memory_delete_def split: prod.splits)
next
  fix s s' :: memory_store and i b
  assume "store_inv s" and "so_delete memory_ops i s = (Ok b, s')"
  then show "store_map s' = (store_map s)(i := None)"
    using remove_event_store [of s i] by (auto simp: memory_ops_def memory_delete_def split: prod.splits)
next
  fix s :: memory_store and fs es e
  assume inv: "store_inv s" and "so_query memory_ops fs s = Ok es" and e: "e \<in> set es"
  then have "es = query_spec (ordered_events s) [] fs"
    by (intro memory_query_Ok) (simp_all add: memory_ops_def)
  with e have "e \<in> ran (store_map s)" and f: "\<exists>f \<in> set fs. event_matches f e"
    using query_spec_sound [of e "ordered_events s" "[]" fs] ordered_events_set [OF inv] by auto
  then show "store_map s (ev_id e) = Some e \<and> (\<exists>f \<in> set fs. event_matches f e)"
    using store_inv_id [OF inv] by (auto simp: ran_def)
next
  fix s :: memory_store and f i e
  assume inv: "store_inv s" and q: "so_query memory_ops [f] s = Ok []" and n: "fl_limit f \<noteq> Some 0"
    and i: "store_map s i = Some e"
  have "filter_limit f \<noteq> 0" using n by (auto simp: filter_limit_def u64_max_def split: option.splits)
  moreover have "[] = query_spec (ordered_events s) [] [f]"
    using memory_query_Ok [OF inv, of "[f]" "[]"] q by (simp add: memory_ops_def)
  ultimately have "filter (event_matches f) (ordered_events s) = []" by simp
  then show "\<not> event_matches f e"
    using i ordered_events_set [OF inv] by (auto simp: filter_empty_conv ran_def)
qed (auto simp: memory_ops_def memory_get_def store_map_def finite_dom_map_of)

section \<open>Properties\<close>

text \<open>The states the store can reach from the empty one.\<close>

inductive store_run :: "memory_store \<Rightarrow> bool" where
  new: "store_run memory_store_new"
| insert: "store_run st \<Longrightarrow> store_run (snd (memory_insert e st))"
| delete: "store_run st \<Longrightarrow> store_run (snd (memory_delete i st))"

lemma store_run_inv: "store_run st \<Longrightarrow> store_inv st"
proof (induction rule: store_run.induct)
  case new
  then show ?case by (rule store_inv_new)
next
  case (insert st e)
  then show ?case using memory_insert_refines by blast
next
  case (delete st i)
  then show ?case using remove_event_store by (simp add: memory_delete_def)
qed

lemma first_note:
  assumes "ev_kind e = 1"
  shows "snd (memory_insert e memory_store_new) = \<lparr>ms_events = [(ev_id e, e)], ms_replaceable = []\<rparr>"
proof -
  have "replaceable_key e = None"
    using assms by (simp add: replaceable_key_def is_replaceable_kind_def
        is_parameterized_replaceable_kind_def word_le_nat_alt)
  then show ?thesis using assms by (simp add: memory_insert_def memory_store_new_def put_event_def)
qed

text \<open>
  C4: after any sequence of insertions and deletions, the index and the events agree: inserting an
  event has exactly the effect the index-free specification describes. A known identifier changes
  nothing; a deletion first drops the events it may delete; an event of a replaceable kind is
  refused when one with the same key is at least as new, and otherwise takes the place of every
  event with that key.\<close>

theorem memory_insert_spec:
  assumes "store_run st"
  shows "map_prod id store_map (memory_insert e st) = spec_insert e (store_map st)"
  using memory_insert_refines [OF store_run_inv [OF assms]] by blast

theorem memory_insert_spec_witness:
  "let old = \<lparr>ev_id = ''a'', ev_pubkey = ''p'', ev_created_at = 1, ev_kind = 0, ev_tags = [],
         ev_content = [], ev_sig = []\<rparr>;
       new = old\<lparr>ev_id := ''b'', ev_created_at := 2\<rparr>;
       st = snd (memory_insert old memory_store_new)
   in map_prod id store_map (memory_insert new st) = (Inserted, [''b'' \<mapsto> new])"
proof -
  let ?old = "\<lparr>ev_id = ''a'', ev_pubkey = ''p'', ev_created_at = 1, ev_kind = 0, ev_tags = [],
         ev_content = [], ev_sig = []\<rparr>"
  let ?new = "?old\<lparr>ev_id := ''b'', ev_created_at := 2\<rparr>"
  let ?st = "snd (memory_insert ?old memory_store_new)"
  have "store_run ?st" by (intro store_run.intros)
  from memory_insert_spec [OF this, of ?new]
  have eq: "map_prod id store_map (memory_insert ?new ?st) = spec_insert ?new (store_map ?st)" .
  have st: "store_map ?st = [''a'' \<mapsto> ?old]"
    by (simp add: memory_insert_def memory_store_new_def Let_def put_event_def store_map_def
        replaceable_key_def is_replaceable_kind_def fun_eq_iff)
  have "spec_insert ?new (store_map ?st) = (Inserted, [''b'' \<mapsto> ?new])"
    unfolding st
    by (auto simp: spec_insert_def same_key_def replaceable_key_def is_replaceable_kind_def
        drop_events_def fun_eq_iff)
  with eq show ?thesis unfolding Let_def by simp
qed

text \<open>
  After any sequence of insertions and deletions there is at most one event for every
  replaceable key, it is stored under its own identifier, and the index finds it.\<close>

theorem one_event_per_key:
  assumes "store_run st" and "memory_get i st = Some e" and "replaceable_key e = Some k"
  shows "map_of (ms_replaceable st) k = Some (ev_id e) \<and> ev_id e = i \<and>
    (\<forall>j e'. memory_get j st = Some e' \<longrightarrow> replaceable_key e' = Some k \<longrightarrow> e' = e)"
proof -
  note inv = store_run_inv [OF assms(1)]
  have get: "store_map st i = Some e" using assms(2) by (simp add: memory_get_def store_map_def)
  have "map_of (ms_replaceable st) k = Some i" using store_inv_key [OF inv] get assms(3) by blast
  moreover have "ev_id e = i" by (rule store_inv_id [OF inv get])
  moreover have "memory_get j st = Some e' \<Longrightarrow> replaceable_key e' = Some k \<Longrightarrow> e' = e" for j e'
    using store_inv_key_unique [OF inv get _ assms(3)] by (auto simp: memory_get_def store_map_def)
  ultimately show ?thesis by blast
qed

theorem one_event_per_key_witness:
  "let e = \<lparr>ev_id = ''a'', ev_pubkey = ''p'', ev_created_at = 1, ev_kind = 0, ev_tags = [],
         ev_content = [], ev_sig = []\<rparr>;
       st = snd (memory_insert e memory_store_new)
   in memory_get ''a'' st = Some e \<and>
      map_of (ms_replaceable st) (ReplaceableKey 0 ''p'' None) = Some ''a''"
proof -
  let ?e = "\<lparr>ev_id = ''a'', ev_pubkey = ''p'', ev_created_at = 1, ev_kind = 0, ev_tags = [],
         ev_content = [], ev_sig = []\<rparr>"
  let ?st = "snd (memory_insert ?e memory_store_new)"
  have run: "store_run ?st" by (intro store_run.intros)
  have key: "replaceable_key ?e = Some (ReplaceableKey 0 ''p'' None)"
    by (simp add: replaceable_key_def is_replaceable_kind_def)
  have get: "memory_get ''a'' ?st = Some ?e"
    by (simp add: memory_get_def memory_insert_def memory_store_new_def Let_def put_event_def key)
  show ?thesis using one_event_per_key [OF run get key] get unfolding Let_def by simp
qed

text \<open>
  No insertion, deletion events included, removes or replaces an event of another author.\<close>

theorem insert_keeps_other_authors:
  assumes "store_run st" and "memory_get i st = Some x" and "ev_pubkey x \<noteq> ev_pubkey e"
    and "i \<noteq> ev_id e"
  shows "memory_get i (snd (memory_insert e st)) = Some x"
proof -
  obtain outcome st' where ins: "memory_insert e st = (outcome, st')" by fastforce
  have "so_insert memory_ops e st = (Ok outcome, st')" by (simp add: memory_ops_def ins)
  from memory.insert_other_author [OF store_run_inv [OF assms(1)] this, of i x] assms(2-4)
  show ?thesis by (simp add: memory_get_def store_map_def ins)
qed

theorem insert_keeps_other_authors_witness:
  "let x = \<lparr>ev_id = ''a'', ev_pubkey = ''p'', ev_created_at = 1, ev_kind = 1, ev_tags = [],
         ev_content = [], ev_sig = []\<rparr>;
       del = x\<lparr>ev_id := ''b'', ev_pubkey := ''mallory'', ev_kind := 5, ev_created_at := 9,
               ev_tags := [[''e'', ''a'']]\<rparr>;
       st = snd (memory_insert x memory_store_new)
   in memory_get ''a'' (snd (memory_insert del st)) = Some x"
proof -
  let ?x = "\<lparr>ev_id = ''a'', ev_pubkey = ''p'', ev_created_at = 1, ev_kind = 1, ev_tags = [],
         ev_content = [], ev_sig = []\<rparr>"
  let ?st = "snd (memory_insert ?x memory_store_new)"
  have run: "store_run ?st" by (intro store_run.intros)
  have get: "memory_get ''a'' ?st = Some ?x" by (simp add: memory_get_def first_note)
  show ?thesis unfolding Let_def by (rule insert_keeps_other_authors [OF run get]) simp_all
qed

text \<open>
  C20: a query with one filter on a store whose events all have well-formed tags returns the newest
  matching events, exactly as many as the limit allows, newest first and by identifier among
  equally old ones.\<close>

theorem memory_query_exact:
  assumes "store_run st" and "\<forall>i e. memory_get i st = Some e \<longrightarrow> indexable e"
  shows "memory_query [f] st = Ok (take (filter_limit f) (filter (event_matches f) (ordered_events st))) \<and>
    set (ordered_events st) = {e. \<exists>i. memory_get i st = Some e} \<and>
    distinct (map ev_id (ordered_events st)) \<and>
    sorted_wrt (\<lambda>a b. ev_created_at b < ev_created_at a \<or>
      ev_created_at a = ev_created_at b \<and> ev_id a \<le> ev_id b) (ordered_events st)"
proof -
  note inv = store_run_inv [OF assms(1)]
  have set: "set (ordered_events st) = {e. \<exists>i. memory_get i st = Some e}"
    using ordered_events_set [OF inv] by (simp add: ran_def memory_get_def store_map_def)
  then have "list_all indexable (ordered_events st)" using assms(2) by (auto simp: list_all_iff)
  then obtain es where es: "memory_query [f] st = Ok es"
    using query_fold_total [of "ordered_events st" "({}, [])" "[f]"]
    by (auto simp: memory_query_def and_then_def split: sum.splits)
  from memory_query_Ok [OF inv this] have "es = query_spec (ordered_events st) [] [f]" .
  with es set ordered_events_distinct [OF inv] ordered_events_sorted [of st] show ?thesis by simp
qed

theorem memory_query_exact_witness:
  "let e = \<lparr>ev_id = ''a'', ev_pubkey = ''p'', ev_created_at = 1, ev_kind = 1, ev_tags = [],
         ev_content = [], ev_sig = []\<rparr>;
       st = snd (memory_insert e memory_store_new)
   in memory_query [empty_filter\<lparr>fl_kinds := [1]\<rparr>] st =
      Ok (take u64_max (filter (event_matches (empty_filter\<lparr>fl_kinds := [1]\<rparr>)) (ordered_events st)))"
proof -
  let ?e = "\<lparr>ev_id = ''a'', ev_pubkey = ''p'', ev_created_at = 1, ev_kind = 1, ev_tags = [],
         ev_content = [], ev_sig = []\<rparr>"
  let ?st = "snd (memory_insert ?e memory_store_new)"
  have run: "store_run ?st" by (intro store_run.intros)
  have "\<forall>i x. memory_get i ?st = Some x \<longrightarrow> indexable x"
    by (simp add: memory_get_def first_note)
  from memory_query_exact [OF run this, of "empty_filter\<lparr>fl_kinds := [1]\<rparr>"] show ?thesis
    unfolding Let_def by (simp add: filter_limit_def empty_filter_def)
qed

text \<open>
  One stored event with an empty tag, a blank tag name or a blank tag value makes every query
  whose first filter has no limit fail, whatever the filter asks for.\<close>

theorem query_poisoned:
  assumes "store_run st" and "memory_get i st = Some e" and "\<not> indexable e"
    and "fl_limit f = None" and "length (ms_events st) \<le> u64_max"
  shows "\<exists>err. memory_query (f # fs) st = Err err"
proof -
  note inv = store_run_inv [OF assms(1)]
  have e: "e \<in> set (ordered_events st)"
    using assms(2) ordered_events_set [OF inv] by (auto simp: memory_get_def store_map_def ran_def)
  have "length (ordered_events st) \<le> filter_limit f"
    using assms(4,5) by (simp add: ordered_events_def filter_limit_def)
  with query_scan_poisoned [OF e assms(3), of "({}, [])" "filter_limit f" f] ordered_events_distinct [OF inv]
  obtain err where "query_scan f (filter_limit f) (ordered_events st) ({}, []) = Err err" by auto
  then show ?thesis by (simp add: memory_query_def)
qed

theorem query_poisoned_witness:
  "let e = \<lparr>ev_id = ''a'', ev_pubkey = ''p'', ev_created_at = 1, ev_kind = 1, ev_tags = [[''t'', []]],
         ev_content = [], ev_sig = []\<rparr>;
       st = snd (memory_insert e memory_store_new)
   in \<exists>err. memory_query [empty_filter\<lparr>fl_kinds := [7]\<rparr>] st = Err err"
proof -
  let ?e = "\<lparr>ev_id = ''a'', ev_pubkey = ''p'', ev_created_at = 1, ev_kind = 1, ev_tags = [[''t'', []]],
         ev_content = [], ev_sig = []\<rparr>"
  let ?st = "snd (memory_insert ?e memory_store_new)"
  have run: "store_run ?st" by (intro store_run.intros)
  have st: "ms_events ?st = [(''a'', ?e)]"
    by (simp add: first_note)
  show ?thesis unfolding Let_def
    by (rule query_poisoned [OF run, of "''a''" ?e])
      (simp_all add: memory_get_def st tag_indexable_def empty_filter_def u64_max_def)
qed

text \<open>
  The address of an addressable event is read back only up to the first colon of the identifier:
  a deletion by address reaches another event when the identifier has a colon.\<close>

theorem parse_address_cuts_identifier:
  assumes "CHR '':'' \<notin> set pubkey"
  shows "parse_address (show_nat (unat kind) @ '':'' @ pubkey @ '':'' @ ident) =
    Some (ReplaceableKey kind pubkey (Some (takeWhile (\<lambda>c. c \<noteq> CHR '':'') ident)))"
proof -
  have hd: "\<exists>rest. str_split s d = takeWhile (\<lambda>c. c \<noteq> d) s # rest" for s d
    by (induction s) auto
  then obtain rest where rest: "str_split ident CHR '':'' = takeWhile (\<lambda>c. c \<noteq> CHR '':'') ident # rest"
    by blast
  have digits: "CHR '':'' \<notin> set (show_nat n)" for n
    by (rule show_nat_no_char) (simp add: is_ascii_digit_def)
  have "unat kind < 2 ^ 32" using unsigned_less [of kind, where 'a = nat] by simp
  then have "parse_unsigned 32 (show_nat (unat kind)) = Some (unat kind)"
    by (rule parse_unsigned_show_nat)
  moreover have "str_split (show_nat (unat kind) @ '':'' @ pubkey @ '':'' @ ident) CHR '':'' =
      show_nat (unat kind) # pubkey # takeWhile (\<lambda>c. c \<noteq> CHR '':'') ident # rest"
    using digits assms rest by (simp add: str_split_append)
  ultimately show ?thesis by (simp add: parse_address_def numeral_2_eq_2)
qed

theorem parse_address_cuts_identifier_witness:
  "parse_address (show_nat (unat (30617 :: u32)) @ '':'' @ ''pk'' @ '':'' @ ''a:b'') =
     Some (ReplaceableKey 30617 ''pk'' (Some ''a''))"
  using parse_address_cuts_identifier [of "''pk''" 30617 "''a:b''"] by simp

end
