(* ===== verification/Relay_Protocol.thy ===== *)
theory Relay_Protocol
  imports Relay_Store Core_Admission
begin

text \<open>
  The relay's wire protocol and its collaborators: \<open>services/relay/src/protocol.rs\<close> (frames),
  \<open>notice.rs\<close>, \<open>subscription.rs\<close> (the registry of a session) and
  \<open>admission_client.rs\<close> (the decision of the admission service, with a fallback). The HTTP
  transport, and JSON text on both sides, are parameters.
\<close>

section \<open>Frames\<close>

datatype client_message =
    ClientEvent json
  | ClientReq string "json list"
  | ClientClose string
  | ClientAuth json
  | ClientCount string "json list"

datatype server_message =
    ServerEvent string json
  | ServerNotice string
  | ServerEose string
  | ServerOk string bool string
  | ServerClosed string string
  | ServerAuth string
  | ServerCount string nat

datatype protocol_error =
    InvalidJson
  | InvalidFrame
  | MissingProtocolField string
  | InvalidProtocolField string
  | UnknownMessageType string

fun protocol_error_display :: "protocol_error \<Rightarrow> string" where
  "protocol_error_display InvalidJson = ''invalid json''"
| "protocol_error_display InvalidFrame = ''invalid frame''"
| "protocol_error_display (MissingProtocolField field) = ''missing field '' @ field"
| "protocol_error_display (InvalidProtocolField field) = ''invalid field '' @ field"
| "protocol_error_display (UnknownMessageType kind) = ''unknown message type '' @ kind"

definition item :: "json list \<Rightarrow> nat \<Rightarrow> json option" where
  "item items i = (if i < length items then Some (items ! i) else None)"

definition subscription_item :: "json list \<Rightarrow> (protocol_error, string) result" where
  "subscription_item items =
     ok_or (MissingProtocolField ''subscription_id'') (Option.bind (item items 1) as_str)"

definition filter_items :: "json list \<Rightarrow> (protocol_error, json list) result" where
  "filter_items items =
     (if length items < 3 then Err (MissingProtocolField ''filters'') else Ok (drop 2 items))"

definition decode_client_value :: "json \<Rightarrow> (protocol_error, client_message) result" where
  "decode_client_value v =
     and_then (ok_or InvalidFrame (as_array v)) (\<lambda>items.
     and_then (ok_or (MissingProtocolField ''type'') (Option.bind (item items 0) as_str)) (\<lambda>kind.
       if kind = ''EVENT'' then
         and_then (ok_or (MissingProtocolField ''event'') (item items 1)) (\<lambda>e. Ok (ClientEvent e))
       else if kind = ''REQ'' then
         and_then (subscription_item items) (\<lambda>s.
         and_then (filter_items items) (\<lambda>fs. Ok (ClientReq s fs)))
       else if kind = ''CLOSE'' then
         and_then (subscription_item items) (\<lambda>s. Ok (ClientClose s))
       else if kind = ''AUTH'' then
         and_then (ok_or (MissingProtocolField ''event'') (item items 1)) (\<lambda>e. Ok (ClientAuth e))
       else if kind = ''COUNT'' then
         and_then (subscription_item items) (\<lambda>s.
         and_then (filter_items items) (\<lambda>fs. Ok (ClientCount s fs)))
       else Err (UnknownMessageType kind)))"

definition decode_client_message ::
  "(string \<Rightarrow> json option) \<Rightarrow> string \<Rightarrow> (protocol_error, client_message) result" where
  "decode_client_message from_str input =
     and_then (ok_or InvalidJson (from_str input)) decode_client_value"

fun server_value :: "server_message \<Rightarrow> json" where
  "server_value (ServerEvent s e) = JArray [JString ''EVENT'', JString s, e]"
| "server_value (ServerNotice m) = JArray [JString ''NOTICE'', JString m]"
| "server_value (ServerEose s) = JArray [JString ''EOSE'', JString s]"
| "server_value (ServerOk i accepted m) =
     JArray [JString ''OK'', JString i, JBool accepted, JString m]"
| "server_value (ServerClosed s m) = JArray [JString ''CLOSED'', JString s, JString m]"
| "server_value (ServerAuth c) = JArray [JString ''AUTH'', JString c]"
| "server_value (ServerCount s n) =
     JArray [JString ''COUNT'', JString s, JObject [(''count'', JInt (int n))]]"

definition encode_server_message ::
  "(json \<Rightarrow> string option) \<Rightarrow> server_message \<Rightarrow> (protocol_error, string) result" where
  "encode_server_message to_text m = ok_or InvalidFrame (to_text (server_value m))"

section \<open>Notices\<close>

text \<open>A notice is its text; the conversions into it prefix the error's display.\<close>

definition notice_of_protocol_error :: "protocol_error \<Rightarrow> server_message" where
  "notice_of_protocol_error e = ServerNotice (''invalid message: '' @ protocol_error_display e)"

definition notice_of_event_error :: "event_error \<Rightarrow> server_message" where
  "notice_of_event_error e = ServerNotice (''invalid event: '' @ event_error_display e)"

definition notice_of_filter_error :: "filter_error \<Rightarrow> server_message" where
  "notice_of_filter_error e = ServerNotice (''invalid filter: '' @ filter_error_display e)"

definition notice_of_store_error :: "store_error \<Rightarrow> server_message" where
  "notice_of_store_error e = ServerNotice (store_error_display e)"

section \<open>Subscriptions\<close>

type_synonym subscription_id = string

record subscription_state =
  ss_eose_sent :: bool
  ss_filters :: "filter_rec list"

type_synonym registry = "(subscription_id, subscription_state) entries"

definition registry_insert :: "subscription_id \<Rightarrow> filter_rec list \<Rightarrow> registry \<Rightarrow> bool \<times> registry" where
  "registry_insert i filters r =
     (map_of r i = None, bt_insert i \<lparr>ss_eose_sent = False, ss_filters = filters\<rparr> r)"

definition registry_remove :: "subscription_id \<Rightarrow> registry \<Rightarrow> bool \<times> registry" where
  "registry_remove i r = (map_of r i \<noteq> None, bt_remove i r)"

definition registry_contains :: "subscription_id \<Rightarrow> registry \<Rightarrow> bool" where
  "registry_contains i r \<longleftrightarrow> map_of r i \<noteq> None"

definition registry_len :: "registry \<Rightarrow> nat" where
  "registry_len r = length r"

definition mark_eose :: "subscription_id \<Rightarrow> registry \<Rightarrow> bool \<times> registry" where
  "mark_eose i r =
     (case map_of r i of
        None \<Rightarrow> (False, r)
      | Some st \<Rightarrow> (True, bt_insert i (st\<lparr>ss_eose_sent := True\<rparr>) r))"

definition eose_sent :: "subscription_id \<Rightarrow> registry \<Rightarrow> bool" where
  "eose_sent i r = (case map_of r i of None \<Rightarrow> False | Some st \<Rightarrow> ss_eose_sent st)"

definition registry_filters :: "subscription_id \<Rightarrow> registry \<Rightarrow> filter_rec list option" where
  "registry_filters i r = map_option ss_filters (map_of r i)"

definition registry_iter :: "registry \<Rightarrow> (subscription_id \<times> filter_rec list) list" where
  "registry_iter r = map (\<lambda>(i, st). (i, ss_filters st)) r"

section \<open>The admission client\<close>

datatype admission_fallback = FallbackAccept | FallbackReject

record admission_hook_config =
  ah_endpoint :: string
  ah_timeout :: nat
  ah_fallback :: admission_fallback

record relay_event =
  re_kind :: nat
  re_pubkey :: string
  re_event_id :: string
  re_tags :: "tag list"
  re_relay_url :: "string option"
  re_source_ip :: "string option"

record admission_request_payload =
  ap_kind :: nat
  ap_pubkey :: string
  ap_event_id :: string
  ap_tags :: "tag list"
  ap_relay_url :: "string option"
  ap_source_ip :: "string option"

datatype admission_request_error =
    MissingRequestField string
  | InvalidRequestTag
  | InvalidRequestKind nat

fun admission_request_error_display :: "admission_request_error \<Rightarrow> string" where
  "admission_request_error_display (MissingRequestField field) = ''missing admission field '' @ field"
| "admission_request_error_display InvalidRequestTag = ''invalid admission tag''"
| "admission_request_error_display (InvalidRequestKind kind) = ''invalid admission kind '' @ show_nat kind"

datatype admission_hook_error =
    HookRequest admission_request_error
  | HookSerialize string
  | HookDecode string
  | HookTransport string
  | HookInvalidDecision string

fun admission_hook_error_display :: "admission_hook_error \<Rightarrow> string" where
  "admission_hook_error_display (HookRequest err) = ''invalid request: '' @ admission_request_error_display err"
| "admission_hook_error_display (HookSerialize err) = ''serialize error: '' @ err"
| "admission_hook_error_display (HookDecode err) = ''decode error: '' @ err"
| "admission_hook_error_display (HookTransport err) = ''transport error: '' @ err"
| "admission_hook_error_display (HookInvalidDecision err) = ''invalid decision: '' @ err"

fun fallback_decision :: "admission_fallback \<Rightarrow> admission_hook_error \<Rightarrow> admission_decision" where
  "fallback_decision FallbackAccept err = Accept"
| "fallback_decision FallbackReject err =
     Reject (''admission unavailable: '' @ admission_hook_error_display err)"

definition admission_request :: "relay_event \<Rightarrow> (admission_request_error, admission_request_payload) result" where
  "admission_request e =
     (if re_pubkey e = [] then Err (MissingRequestField ''pubkey'')
      else if re_event_id e = [] then Err (MissingRequestField ''event_id'')
      else if list_ex (\<lambda>tag. tag = []) (re_tags e) then Err InvalidRequestTag
      else Ok \<lparr>ap_kind = re_kind e, ap_pubkey = re_pubkey e, ap_event_id = re_event_id e,
               ap_tags = re_tags e, ap_relay_url = re_relay_url e, ap_source_ip = re_source_ip e\<rparr>)"

record admission_filter =
  af_ids :: "string list"
  af_kinds :: "u32 list"
  af_authors :: "string list"
  af_tags :: "(string, string list) entries"
  af_limit :: "nat option"

datatype admission_decision_payload =
    PayloadAccept
  | PayloadReject string
  | PayloadRequiresRelatedEvents "admission_filter list"

definition event_filter_of :: "admission_filter \<Rightarrow> event_filter" where
  "event_filter_of f =
     \<lparr>ef_ids = af_ids f, ef_kinds = af_kinds f, ef_authors = af_authors f, ef_tags = af_tags f,
      ef_limit = af_limit f\<rparr>"

definition admission_filter_of :: "event_filter \<Rightarrow> admission_filter" where
  "admission_filter_of f =
     \<lparr>af_ids = ef_ids f, af_kinds = ef_kinds f, af_authors = ef_authors f, af_tags = ef_tags f,
      af_limit = ef_limit f\<rparr>"

fun admission_decision_from_payload ::
  "admission_decision_payload \<Rightarrow> (admission_hook_error, admission_decision) result" where
  "admission_decision_from_payload PayloadAccept = Ok Accept"
| "admission_decision_from_payload (PayloadReject reason) =
     (if blank reason then Err (HookInvalidDecision ''missing reject reason'') else Ok (Reject reason))"
| "admission_decision_from_payload (PayloadRequiresRelatedEvents filters) =
     (if filters = [] then Err (HookInvalidDecision ''missing related filters'')
      else Ok (RequiresRelatedEvents (map event_filter_of filters)))"

type_synonym admission_transport =
  "string \<Rightarrow> admission_request_payload \<Rightarrow> (admission_hook_error, admission_decision_payload) result"

definition admission_client_decide ::
  "admission_hook_config \<Rightarrow> admission_transport \<Rightarrow> relay_event \<Rightarrow> admission_decision" where
  "admission_client_decide config send e =
     (case admission_request e of
        Inl err \<Rightarrow> fallback_decision (ah_fallback config) (HookRequest err)
      | Inr request \<Rightarrow>
          (case send (ah_endpoint config) request of
             Inr payload \<Rightarrow>
               (case admission_decision_from_payload payload of
                  Inr decision \<Rightarrow> decision
                | Inl err \<Rightarrow> fallback_decision (ah_fallback config) err)
           | Inl err \<Rightarrow> fallback_decision (ah_fallback config) err))"

section \<open>Lemmas\<close>

lemma registry_insert_wf: "bt_wf r \<Longrightarrow> bt_wf (snd (registry_insert i fs r))"
  by (simp add: registry_insert_def bt.wf_put)

lemma registry_remove_wf: "bt_wf r \<Longrightarrow> bt_wf (snd (registry_remove i r))"
  by (simp add: registry_remove_def bt.wf_del)

lemma mark_eose_wf: "bt_wf r \<Longrightarrow> bt_wf (snd (mark_eose i r))"
  by (simp add: mark_eose_def bt.wf_put split: option.split)

lemma registry_len_insert:
  "bt_wf r \<Longrightarrow> registry_len (snd (registry_insert i fs r)) =
     (if registry_contains i r then registry_len r else Suc (registry_len r))"
  by (simp add: registry_len_def registry_insert_def registry_contains_def bt.length_put)

lemma registry_len_remove: "bt_wf r \<Longrightarrow> registry_len (snd (registry_remove i r)) \<le> registry_len r"
  by (simp add: registry_len_def registry_remove_def bt.length_del)

lemma registry_len_mark: "bt_wf r \<Longrightarrow> registry_len (snd (mark_eose i r)) = registry_len r"
  by (auto simp: registry_len_def mark_eose_def bt.length_put split: option.split)

text \<open>The frames a client may send: the trailing items of some of them are ignored.\<close>

inductive client_frame :: "json \<Rightarrow> client_message \<Rightarrow> bool" where
  event: "client_frame (JArray (JString ''EVENT'' # e # rest)) (ClientEvent e)"
| req: "fs \<noteq> [] \<Longrightarrow> client_frame (JArray (JString ''REQ'' # JString s # fs)) (ClientReq s fs)"
| close: "client_frame (JArray (JString ''CLOSE'' # JString s # rest)) (ClientClose s)"
| auth: "client_frame (JArray (JString ''AUTH'' # e # rest)) (ClientAuth e)"
| count: "fs \<noteq> [] \<Longrightarrow> client_frame (JArray (JString ''COUNT'' # JString s # fs)) (ClientCount s fs)"

lemma item_0: "item items 0 = Some x \<longleftrightarrow> (\<exists>rest. items = x # rest)"
  by (cases items) (auto simp: item_def)

lemma item_1: "item (x # rest) (Suc 0) = Some y \<longleftrightarrow> (\<exists>rest'. rest = y # rest')"
  by (cases rest) (auto simp: item_def)

lemma subscription_item_Ok:
  "subscription_item (x # rest) = Ok s \<longleftrightarrow> (\<exists>fs. rest = JString s # fs)"
  by (auto simp: subscription_item_def ok_or_eq_Ok bind_eq_Some_conv item_1 as_str_iff)

lemma filter_items_Ok: "filter_items (x # y # rest) = Ok fs \<longleftrightarrow> rest \<noteq> [] \<and> fs = rest"
  by (cases rest) (auto simp: filter_items_def)

section \<open>Properties\<close>

text \<open>
  The decoder accepts exactly the client frames: an array that starts with a known name and has
  what that message needs, subscription identifier and at least one filter for requests and counts;
  everything else is an error.\<close>

theorem decode_client_value_iff: "decode_client_value v = Ok m \<longleftrightarrow> client_frame v m"
proof
  assume "client_frame v m"
  then show "decode_client_value v = Ok m"
    by cases (auto simp: decode_client_value_def item_def subscription_item_def filter_items_def Suc_le_eq)
next
  assume ok: "decode_client_value v = Ok m"
  then obtain kind rest where v: "v = JArray (JString kind # rest)"
    by (auto simp: decode_client_value_def and_then_eq_Ok ok_or_eq_Ok bind_eq_Some_conv item_0
        as_str_iff as_array_iff)
  have ev: "kind = ''EVENT'' \<Longrightarrow> client_frame v m" "kind = ''AUTH'' \<Longrightarrow> client_frame v m"
    using ok unfolding v
    by (auto simp: decode_client_value_def and_then_eq_Ok ok_or_eq_Ok item_1 item_def [of _ 0]
        intro: client_frame.intros)
  have sub: "kind = ''CLOSE'' \<Longrightarrow> client_frame v m" "kind = ''REQ'' \<Longrightarrow> client_frame v m"
    "kind = ''COUNT'' \<Longrightarrow> client_frame v m"
    using ok unfolding v
    by (auto simp: decode_client_value_def and_then_eq_Ok subscription_item_Ok filter_items_Ok
        item_def [of _ 0] intro: client_frame.intros)
  have "kind \<in> {''EVENT'', ''AUTH'', ''CLOSE'', ''REQ'', ''COUNT''}"
    using ok unfolding v by (auto simp: decode_client_value_def item_def split: if_splits)
  with ev sub show "client_frame v m" by blast
qed

text \<open>
  Different server messages never have the same frame: a client can tell an event, a notice, an
  acceptance, a refusal and a count apart, with all their fields.\<close>

theorem server_value_inj: "server_value a = server_value b \<longleftrightarrow> a = b"
  by (cases a; cases b) auto

text \<open>
  With the rejecting fallback the admission client fails closed: it accepts an event only if the
  event could be turned into a request and the admission service itself answered that it accepts
  it. Transport errors, malformed requests and malformed answers all reject.\<close>

theorem admission_client_fails_closed:
  assumes "ah_fallback config = FallbackReject"
  shows "admission_client_decide config send e = Accept \<longleftrightarrow>
    (\<exists>request. admission_request e = Ok request \<and> send (ah_endpoint config) request = Ok PayloadAccept)"
proof -
  have "fallback_decision (ah_fallback config) err \<noteq> Accept" for err by (simp add: assms)
  moreover have "admission_decision_from_payload p = Ok Accept \<longleftrightarrow> p = PayloadAccept" for p
    by (cases p) auto
  ultimately show ?thesis
    by (auto simp: admission_client_decide_def split: sum.splits)
qed

theorem admission_client_fails_closed_witness:
  "admission_client_decide \<lparr>ah_endpoint = ''http://adm'', ah_timeout = 1, ah_fallback = FallbackReject\<rparr>
     (\<lambda>_ _. Ok PayloadAccept)
     \<lparr>re_kind = 1, re_pubkey = ''p'', re_event_id = ''i'', re_tags = [], re_relay_url = None,
      re_source_ip = None\<rparr> = Accept"
  by (subst admission_client_fails_closed) (simp_all add: admission_request_def)

end
