(* ===== verification/Storage_Membership.thy ===== *)
theory Storage_Membership
  imports Core_Repo Rust_Map
begin

text \<open>
  Membership of a relay: the records of \<open>crates/storage/src/relay_membership.rs\<close> and the
  in-memory repository of \<open>crates/storage/src/repositories.rs\<close> (memberships by tenant and
  key, invites by code). The locale \<open>membership_repo\<close> is the contract of the trait
  \<open>RelayMembershipRepository\<close>; the in-memory repository fulfils it for every hexadecimal
  encoder that is injective and prints no colon (locale \<open>hex_codec\<close>), of which the encoder of
  \<open>repo_path.rs\<close> is one. The locks of the repository are never poisoned: no operation panics
  while it holds one.
\<close>

section \<open>Records\<close>

text \<open>The errors of libraries that some variants carry are their printed text.\<close>

datatype storage_error =
    StorageInvalidConnectionString string string
  | StorageInvalidPoolConfig string u32
  | StorageInvalidField string string
  | StorageInvalidHex string string
  | StorageSerialization string string
  | StorageInternal string
  | StorageMigration string
  | StorageDatabase string

fun storage_error_display :: "storage_error \<Rightarrow> string" where
  "storage_error_display (StorageInvalidConnectionString v source) =
     ''invalid connection string '' @ v @ '': '' @ source"
| "storage_error_display (StorageInvalidPoolConfig field v) =
     ''invalid pool config '' @ field @ '': '' @ show_nat (unat v)"
| "storage_error_display (StorageInvalidField field v) = ''invalid '' @ field @ '': '' @ v"
| "storage_error_display (StorageInvalidHex field v) = ''invalid hex '' @ field @ '': '' @ v"
| "storage_error_display (StorageSerialization field source) = ''invalid '' @ field @ '': '' @ source"
| "storage_error_display (StorageInternal message) = ''internal error: '' @ message"
| "storage_error_display (StorageMigration message) = ''migration error: '' @ message"
| "storage_error_display (StorageDatabase source) = ''database error: '' @ source"

definition HEX_32_LEN :: nat where "HEX_32_LEN = 64"
definition MAX_ROLE_LEN :: nat where "MAX_ROLE_LEN = 40"
definition MAX_STATUS_LEN :: nat where "MAX_STATUS_LEN = 40"
definition MAX_INVITE_CODE_LEN :: nat where "MAX_INVITE_CODE_LEN = 120"

record relay_membership_record =
  mr_tenant_id :: string
  mr_pubkey :: "u8 list"
  mr_role :: string
  mr_status :: string
  mr_created_at :: int
  mr_updated_at :: int

record relay_invite_record =
  ri_tenant_id :: string
  ri_invite_code :: string
  ri_role :: string
  ri_inviter_pubkey :: "u8 list"
  ri_invitee_pubkey :: "u8 list option"
  ri_expires_at :: "int option"
  ri_created_at :: int

text \<open>The decoder of the crate \<open>hex\<close> is a parameter.\<close>

type_synonym hex_decoder = "string \<Rightarrow> u8 list option"

definition decode_hex_32 :: "hex_decoder \<Rightarrow> string \<Rightarrow> string \<Rightarrow> (storage_error, u8 list) result" where
  "decode_hex_32 hex_decode field v =
     (if length v \<noteq> HEX_32_LEN then Err (StorageInvalidHex field v)
      else ok_or (StorageInvalidHex field v) (hex_decode v))"

definition membership_record_new ::
  "hex_decoder \<Rightarrow> string \<Rightarrow> string \<Rightarrow> string \<Rightarrow> string \<Rightarrow> int \<Rightarrow> int \<Rightarrow>
   (storage_error, relay_membership_record) result" where
  "membership_record_new hex_decode tenant_id pubkey role status created_at updated_at =
     and_then (ensure (\<not> blank tenant_id) (StorageInvalidField ''tenant_id'' ''empty'')) (\<lambda>_.
     and_then (ensure (\<not> (blank role \<or> length role > MAX_ROLE_LEN)) (StorageInvalidField ''role'' role)) (\<lambda>_.
     and_then (ensure (\<not> (blank status \<or> length status > MAX_STATUS_LEN))
        (StorageInvalidField ''status'' status)) (\<lambda>_.
     and_then (ensure (\<not> updated_at < created_at)
        (StorageInvalidField ''updated_at'' (show_int updated_at))) (\<lambda>_.
     and_then (decode_hex_32 hex_decode ''pubkey'' pubkey) (\<lambda>key.
     Ok \<lparr>mr_tenant_id = tenant_id, mr_pubkey = key, mr_role = role, mr_status = status,
         mr_created_at = created_at, mr_updated_at = updated_at\<rparr>)))))"

definition invite_record_new ::
  "hex_decoder \<Rightarrow> string \<Rightarrow> string \<Rightarrow> string \<Rightarrow> string \<Rightarrow> string option \<Rightarrow> int option \<Rightarrow> int \<Rightarrow>
   (storage_error, relay_invite_record) result" where
  "invite_record_new hex_decode tenant_id invite_code role inviter invitee expires_at created_at =
     and_then (ensure (\<not> blank tenant_id) (StorageInvalidField ''tenant_id'' ''empty'')) (\<lambda>_.
     and_then (ensure (\<not> (blank invite_code \<or> length invite_code > MAX_INVITE_CODE_LEN))
        (StorageInvalidField ''invite_code'' invite_code)) (\<lambda>_.
     and_then (ensure (\<not> (blank role \<or> length role > MAX_ROLE_LEN)) (StorageInvalidField ''role'' role)) (\<lambda>_.
     and_then (ensure_opt (\<lambda>t. \<not> t < created_at)
        (\<lambda>t. StorageInvalidField ''expires_at'' (show_int t)) expires_at) (\<lambda>_.
     and_then (decode_hex_32 hex_decode ''inviter_pubkey'' inviter) (\<lambda>inviter_key.
     and_then (case invitee of
                 Some pubkey \<Rightarrow>
                   and_then (decode_hex_32 hex_decode ''invitee_pubkey'' pubkey) (\<lambda>k. Ok (Some k))
               | None \<Rightarrow> Ok None) (\<lambda>invitee_key.
     Ok \<lparr>ri_tenant_id = tenant_id, ri_invite_code = invite_code, ri_role = role,
         ri_inviter_pubkey = inviter_key, ri_invitee_pubkey = invitee_key,
         ri_expires_at = expires_at, ri_created_at = created_at\<rparr>))))))"

section \<open>The contract of a membership repository\<close>

record 'm membership_ops =
  mo_upsert_membership :: "relay_membership_record \<Rightarrow> 'm \<Rightarrow> (storage_error, unit) result \<times> 'm"
  mo_membership_by_pubkey :: "string \<Rightarrow> u8 list \<Rightarrow> 'm \<Rightarrow> (storage_error, relay_membership_record option) result"
  mo_list_memberships :: "string \<Rightarrow> 'm \<Rightarrow> (storage_error, relay_membership_record list) result"
  mo_remove_membership :: "string \<Rightarrow> u8 list \<Rightarrow> 'm \<Rightarrow> (storage_error, bool) result \<times> 'm"
  mo_insert_invite :: "relay_invite_record \<Rightarrow> 'm \<Rightarrow> (storage_error, unit) result \<times> 'm"
  mo_invite_by_code :: "string \<Rightarrow> string \<Rightarrow> 'm \<Rightarrow> (storage_error, relay_invite_record option) result"
  mo_delete_invite :: "string \<Rightarrow> string \<Rightarrow> 'm \<Rightarrow> (storage_error, unit) result \<times> 'm"

locale membership_repo =
  fixes ops :: "'m membership_ops"
    and inv :: "'m \<Rightarrow> bool"
  assumes upsert_inv: "inv m \<Longrightarrow> inv (snd (mo_upsert_membership ops r m))"
    and insert_invite_inv: "inv m \<Longrightarrow> inv (snd (mo_insert_invite ops i m))"
    and delete_invite_inv: "inv m \<Longrightarrow> inv (snd (mo_delete_invite ops t c m))"
    and by_pubkey_upsert: "inv m \<Longrightarrow> mo_upsert_membership ops r m = (Ok (), m') \<Longrightarrow>
      mo_membership_by_pubkey ops t pk m' =
        (if t = mr_tenant_id r \<and> pk = mr_pubkey r then Ok (Some r) else mo_membership_by_pubkey ops t pk m)"
    and invite_upsert: "inv m \<Longrightarrow> mo_upsert_membership ops r m = (Ok (), m') \<Longrightarrow>
      mo_invite_by_code ops t c m' = mo_invite_by_code ops t c m"
    and invite_delete: "inv m \<Longrightarrow> mo_delete_invite ops t c m = (Ok (), m') \<Longrightarrow>
      mo_invite_by_code ops t c m' = Ok None"
    and by_pubkey_delete: "inv m \<Longrightarrow> mo_delete_invite ops t c m = (Ok (), m') \<Longrightarrow>
      mo_membership_by_pubkey ops t' pk m' = mo_membership_by_pubkey ops t' pk m"
    and by_pubkey_insert: "inv m \<Longrightarrow> mo_insert_invite ops i m = (Ok (), m') \<Longrightarrow>
      mo_membership_by_pubkey ops t pk m' = mo_membership_by_pubkey ops t pk m"
begin

text \<open>Storing a membership and then using up the invite: the member is there, the invite is not.\<close>

lemma join_effect:
  assumes "inv m" and "mo_upsert_membership ops r m = (Ok (), m1)"
    and "mo_delete_invite ops t c m1 = (Ok (), m2)"
  shows "inv m2 \<and> mo_membership_by_pubkey ops (mr_tenant_id r) (mr_pubkey r) m2 = Ok (Some r) \<and>
    mo_invite_by_code ops t c m2 = Ok None"
proof -
  have m1: "inv m1" using upsert_inv [OF assms(1), of r] assms(2) by simp
  moreover have "inv m2" using delete_invite_inv [OF m1, of t c] assms(3) by simp
  ultimately show ?thesis
    using by_pubkey_upsert [OF assms(1,2)] by_pubkey_delete [OF m1 assms(3)]
      invite_delete [OF m1 assms(3)] by simp
qed

end

section \<open>The in-memory repository\<close>

text \<open>The part of \<open>InMemoryRepositories\<close> this trait uses.\<close>

record in_memory_memberships =
  im_memberships :: "(string, relay_membership_record) entries"
  im_invites :: "(string, relay_invite_record) entries"

definition membership_key :: "(u8 list \<Rightarrow> string) \<Rightarrow> string \<Rightarrow> u8 list \<Rightarrow> string" where
  "membership_key hex_encode tenant_id pubkey = tenant_id @ '':'' @ hex_encode pubkey"

definition invite_key :: "string \<Rightarrow> string" where
  "invite_key invite_code = invite_code"

definition im_upsert_membership ::
  "(u8 list \<Rightarrow> string) \<Rightarrow> relay_membership_record \<Rightarrow> in_memory_memberships \<Rightarrow> in_memory_memberships" where
  "im_upsert_membership hex_encode r m =
     m\<lparr>im_memberships :=
         hm_insert (membership_key hex_encode (mr_tenant_id r) (mr_pubkey r)) r (im_memberships m)\<rparr>"

definition im_membership_by_pubkey ::
  "(u8 list \<Rightarrow> string) \<Rightarrow> string \<Rightarrow> u8 list \<Rightarrow> in_memory_memberships \<Rightarrow> relay_membership_record option" where
  "im_membership_by_pubkey hex_encode tenant_id pubkey m =
     map_of (im_memberships m) (membership_key hex_encode tenant_id pubkey)"

definition im_list_memberships :: "string \<Rightarrow> in_memory_memberships \<Rightarrow> relay_membership_record list" where
  "im_list_memberships tenant_id m =
     filter (\<lambda>r. mr_tenant_id r = tenant_id) (map snd (im_memberships m))"

definition im_remove_membership ::
  "(u8 list \<Rightarrow> string) \<Rightarrow> string \<Rightarrow> u8 list \<Rightarrow> in_memory_memberships \<Rightarrow> bool \<times> in_memory_memberships" where
  "im_remove_membership hex_encode tenant_id pubkey m =
     (let key = membership_key hex_encode tenant_id pubkey in
      (map_of (im_memberships m) key \<noteq> None, m\<lparr>im_memberships := AList.delete key (im_memberships m)\<rparr>))"

definition im_insert_invite :: "relay_invite_record \<Rightarrow> in_memory_memberships \<Rightarrow> in_memory_memberships" where
  "im_insert_invite i m =
     m\<lparr>im_invites := hm_insert (invite_key (ri_invite_code i)) i (im_invites m)\<rparr>"

definition im_invite_by_code :: "string \<Rightarrow> string \<Rightarrow> in_memory_memberships \<Rightarrow> relay_invite_record option" where
  "im_invite_by_code tenant_id code m =
     (case map_of (im_invites m) code of
        Some r \<Rightarrow> (if ri_tenant_id r = tenant_id then Some r else None)
      | None \<Rightarrow> None)"

definition im_delete_invite :: "string \<Rightarrow> string \<Rightarrow> in_memory_memberships \<Rightarrow> in_memory_memberships" where
  "im_delete_invite tenant_id code m =
     (if (case map_of (im_invites m) code of Some r \<Rightarrow> ri_tenant_id r = tenant_id | None \<Rightarrow> False)
      then m\<lparr>im_invites := AList.delete code (im_invites m)\<rparr> else m)"

definition in_memory_ops :: "(u8 list \<Rightarrow> string) \<Rightarrow> in_memory_memberships membership_ops" where
  "in_memory_ops hex_encode =
     \<lparr>mo_upsert_membership = (\<lambda>r m. (Ok (), im_upsert_membership hex_encode r m)),
      mo_membership_by_pubkey = (\<lambda>t pk m. Ok (im_membership_by_pubkey hex_encode t pk m)),
      mo_list_memberships = (\<lambda>t m. Ok (im_list_memberships t m)),
      mo_remove_membership =
        (\<lambda>t pk m. case im_remove_membership hex_encode t pk m of (b, m') \<Rightarrow> (Ok b, m')),
      mo_insert_invite = (\<lambda>i m. (Ok (), im_insert_invite i m)),
      mo_invite_by_code = (\<lambda>t c m. Ok (im_invite_by_code t c m)),
      mo_delete_invite = (\<lambda>t c m. (Ok (), im_delete_invite t c m))\<rparr>"

definition im_inv :: "in_memory_memberships \<Rightarrow> bool" where
  "im_inv m \<longleftrightarrow> hm_wf (im_memberships m) \<and> hm_wf (im_invites m)"

section \<open>Hexadecimal encoders\<close>

locale hex_codec =
  fixes enc :: "u8 list \<Rightarrow> string"
  assumes enc_inj: "enc a = enc b \<longleftrightarrow> a = b"
    and enc_no_colon: "CHR '':'' \<notin> set (enc a)"
begin

text \<open>Tenant and key can be read off the key of the map, whatever characters the tenant has.\<close>

lemma membership_key_eq: "membership_key enc t pk = membership_key enc t' pk' \<longleftrightarrow> t = t' \<and> pk = pk'"
proof
  assume eq: "membership_key enc t pk = membership_key enc t' pk'"
  have "takeWhile (\<lambda>c. c \<noteq> CHR '':'') (rev (t @ '':'' @ enc pk)) = rev (enc pk)" for t pk
    using enc_no_colon [of pk] by (simp add: takeWhile_append)
  with eq have "enc pk = enc pk'"
    unfolding membership_key_def by (metis rev_rev_ident)
  with eq show "t = t' \<and> pk = pk'" by (simp add: membership_key_def enc_inj)
qed simp

end

sublocale hex_codec \<subseteq> in_memory: membership_repo "in_memory_ops enc" im_inv
proof unfold_locales
  fix m m' :: in_memory_memberships and r t pk
  assume "im_inv m" and "mo_upsert_membership (in_memory_ops enc) r m = (Ok (), m')"
  then show "mo_membership_by_pubkey (in_memory_ops enc) t pk m' =
      (if t = mr_tenant_id r \<and> pk = mr_pubkey r then Ok (Some r)
       else mo_membership_by_pubkey (in_memory_ops enc) t pk m)"
    by (auto simp: in_memory_ops_def im_membership_by_pubkey_def im_upsert_membership_def im_inv_def
        hm.get_put membership_key_eq)
next
  fix m m' :: in_memory_memberships and t c
  assume "im_inv m" and "mo_delete_invite (in_memory_ops enc) t c m = (Ok (), m')"
  then show "mo_invite_by_code (in_memory_ops enc) t c m' = Ok None"
    by (cases "map_of (im_invites m) c")
      (auto simp: in_memory_ops_def im_inv_def im_delete_invite_def im_invite_by_code_def hm.get_del)
qed (auto simp: in_memory_ops_def im_inv_def im_upsert_membership_def im_insert_invite_def
    im_delete_invite_def im_invite_by_code_def im_membership_by_pubkey_def hm.wf_put hm.wf_del hm.get_del
    split: option.splits)

lemma hex_digit_byte: "n < 16 \<Longrightarrow> byte (hex_digit n) = (if n < 10 then 48 + n else 87 + n)"
  by (simp add: hex_digit_def)

lemma hex_digit_inj: "a < 16 \<Longrightarrow> b < 16 \<Longrightarrow> hex_digit a = hex_digit b \<longleftrightarrow> a = b"
proof
  assume small: "a < 16" "b < 16" and "hex_digit a = hex_digit b"
  then have "(if a < 10 then 48 + a else 87 + a) = (if b < 10 then 48 + b else 87 + b)"
    by (metis hex_digit_byte)
  with small show "a = b" by (simp split: if_splits)
qed simp

lemma hex_byte_inj: "hex_byte a = hex_byte b \<longleftrightarrow> a = b"
proof
  have small: "unat x div 16 < 16" for x :: u8
    using unsigned_less [of x, where 'a = nat] by simp
  assume "hex_byte a = hex_byte b"
  then have "unat a div 16 = unat b div 16" "unat a mod 16 = unat b mod 16"
    using small [of a] small [of b] by (simp_all add: hex_byte_def hex_digit_inj)
  then have "unat a = unat b" by (metis div_mult_mod_eq)
  then show "a = b" by (rule word_unat_eq_iff [THEN iffD2])
qed simp

lemma bytes_to_hex_inj: "bytes_to_hex a = bytes_to_hex b \<longleftrightarrow> a = b"
proof
  show "bytes_to_hex a = bytes_to_hex b \<Longrightarrow> a = b"
  proof (induction a arbitrary: b)
    case Nil
    then show ?case by (cases b) (simp_all add: bytes_to_hex_def hex_byte_def)
  next
    case (Cons x xs)
    then obtain y ys where b: "b = y # ys"
      by (cases b) (simp_all add: bytes_to_hex_def hex_byte_def)
    with Cons.prems have "hex_byte x = hex_byte y" "bytes_to_hex xs = bytes_to_hex ys"
      by (simp_all add: bytes_to_hex_def)
    with Cons.IH b show ?case by (simp add: hex_byte_inj)
  qed
qed simp

interpretation hex: hex_codec bytes_to_hex
proof unfold_locales
  fix a
  show "CHR '':'' \<notin> set (bytes_to_hex a)"
    using is_hex_len_no_colon [OF bytes_to_hex_is_hex] .
qed (rule bytes_to_hex_inj)

end
