(* ===== verification/Relay_Session.thy ===== *)
theory Relay_Session
  imports Relay_Protocol Storage_Membership
begin

text \<open>
  One client's connection to the relay, \<open>services/relay/src/session.rs\<close>: authentication, rate
  limits, membership, subscriptions, and the handling of every client message. The event store and
  the membership repository are reached through the operations of their traits
  (\<open>'s store_ops\<close>, \<open>'m membership_ops\<close>); the clock, the monotonic clock of the rate
  limiter and the random invite code come as inputs of each call. Handling an event may run the
  retention loop, which repeats until the store has nothing old left; a handler therefore returns
  an option, \<open>None\<close> meaning that it never returns.
\<close>

section \<open>State\<close>

definition AUTH_KIND :: u32 where "AUTH_KIND = 22242"
definition AUTH_REQUIRED_REASON :: string where "AUTH_REQUIRED_REASON = ''auth-required''"
definition AUTH_PUBKEY_MISMATCH_REASON :: string where
  "AUTH_PUBKEY_MISMATCH_REASON = ''auth-pubkey-mismatch''"
definition AUTH_MAX_SKEW_SECS :: int where "AUTH_MAX_SKEW_SECS = 600"
definition NIP43_MEMBERSHIP_KIND :: u32 where "NIP43_MEMBERSHIP_KIND = 13534"
definition NIP43_JOIN_KIND :: u32 where "NIP43_JOIN_KIND = 28934"
definition NIP43_INVITE_KIND :: u32 where "NIP43_INVITE_KIND = 28935"
definition NIP43_LEAVE_KIND :: u32 where "NIP43_LEAVE_KIND = 28936"
definition MEMBERSHIP_STATUS_ACTIVE :: string where "MEMBERSHIP_STATUS_ACTIVE = ''active''"
definition MEMBERSHIP_STATUS_LEFT :: string where "MEMBERSHIP_STATUS_LEFT = ''left''"
definition DEFAULT_INVITE_ROLE :: string where "DEFAULT_INVITE_ROLE = ''member''"
definition INVITE_TTL_SECS :: int where "INVITE_TTL_SECS = 86400"

definition restricted :: "string \<Rightarrow> string" where
  "restricted text = ''restricted: '' @ text"

record auth_state =
  au_challenge :: string
  au_authenticated_pubkey :: "string option"

record tenant_signer =
  ts_pubkey :: string
  ts_secret_key :: "u8 list"

record rate_limit_config =
  rc_max_events_per_min :: "nat option"
  rc_max_requests_per_min :: "nat option"
  rc_window :: nat

record rate_limit_counter =
  ct_count :: nat
  ct_window_start :: nat

record rate_limiter =
  rl_config :: rate_limit_config
  rl_events :: rate_limit_counter
  rl_requests :: rate_limit_counter

record ('s, 'm) session =
  se_registry :: registry
  se_store :: 's
  se_policy :: policy
  se_admission :: "(relay_event \<Rightarrow> admission_decision) option"
  se_broadcast :: "event list option"
  se_auth :: "auth_state option"
  se_tenant_id :: "string option"
  se_membership :: "'m option"
  se_tenant_signer :: "tenant_signer option"
  se_relay_url :: "string option"
  se_read_auth_required :: bool
  se_write_auth_required :: bool
  se_read_membership_required :: bool
  se_write_membership_required :: bool
  se_rate_limiter :: "rate_limiter option"
  se_metrics :: "string list option"

text \<open>Functions of crates outside the repository, and the inputs of one call.\<close>

record session_env =
  env_crypto :: crypto
  env_from_str :: "string \<Rightarrow> json option"
  env_event_from_json :: "json \<Rightarrow> event option"
  env_event_to_json :: "event \<Rightarrow> json"
  env_secret_key :: "u8 list \<Rightarrow> u8 list option"

record call_inputs =
  in_now :: int
  in_instant :: nat
  in_invite_code :: string

section \<open>Construction\<close>

text \<open>Durations and instants of the rate limiter are nanoseconds.\<close>

definition rate_limit_config_from_policy :: "policy \<Rightarrow> rate_limit_config option" where
  "rate_limit_config_from_policy p =
     (if max_events_per_min p = None \<and> max_requests_per_min p = None then None
      else Some \<lparr>rc_max_events_per_min = max_events_per_min p,
                 rc_max_requests_per_min = max_requests_per_min p, rc_window = 60000000000\<rparr>)"

definition rate_limiter_new :: "nat \<Rightarrow> rate_limit_config \<Rightarrow> rate_limiter" where
  "rate_limiter_new now config =
     \<lparr>rl_config = config, rl_events = \<lparr>ct_count = 0, ct_window_start = now\<rparr>,
      rl_requests = \<lparr>ct_count = 0, ct_window_start = now\<rparr>\<rparr>"

definition auth_state_of :: "bool \<Rightarrow> string \<Rightarrow> auth_state option" where
  "auth_state_of required challenge =
     (if required then Some \<lparr>au_challenge = challenge, au_authenticated_pubkey = None\<rparr> else None)"

definition session_base :: "nat \<Rightarrow> 's \<Rightarrow> policy \<Rightarrow> ('s, 'm) session" where
  "session_base now store p =
     \<lparr>se_registry = [], se_store = store, se_policy = p, se_admission = None, se_broadcast = None,
      se_auth = None, se_tenant_id = None, se_membership = None, se_tenant_signer = None,
      se_relay_url = None, se_read_auth_required = False, se_write_auth_required = False,
      se_read_membership_required = False, se_write_membership_required = False,
      se_rate_limiter = map_option (rate_limiter_new now) (rate_limit_config_from_policy p),
      se_metrics = None\<rparr>"

definition session_new :: "nat \<Rightarrow> 's \<Rightarrow> ('s, 'm) session" where
  "session_new now store = session_base now store default_policy"

definition session_with_policy :: "nat \<Rightarrow> 's \<Rightarrow> policy \<Rightarrow> ('s, 'm) session" where
  "session_with_policy now store p = session_base now store p"

definition session_with_admission ::
  "nat \<Rightarrow> 's \<Rightarrow> (relay_event \<Rightarrow> admission_decision) \<Rightarrow> ('s, 'm) session" where
  "session_with_admission now store admission =
     (session_base now store default_policy)\<lparr>se_admission := Some admission\<rparr>"

definition session_with_policy_and_admission ::
  "nat \<Rightarrow> 's \<Rightarrow> policy \<Rightarrow> (relay_event \<Rightarrow> admission_decision) \<Rightarrow> ('s, 'm) session" where
  "session_with_policy_and_admission now store p admission =
     (session_base now store p)\<lparr>se_admission := Some admission\<rparr>"

definition session_with_policy_and_auth ::
  "nat \<Rightarrow> string \<Rightarrow> 's \<Rightarrow> policy \<Rightarrow> bool \<Rightarrow> ('s, 'm) session" where
  "session_with_policy_and_auth now challenge store p auth_required =
     (session_base now store p)
       \<lparr>se_auth := auth_state_of auth_required challenge,
        se_read_auth_required := auth_required, se_write_auth_required := auth_required\<rparr>"

definition session_with_broadcast ::
  "nat \<Rightarrow> string \<Rightarrow> 's \<Rightarrow> policy \<Rightarrow> (relay_event \<Rightarrow> admission_decision) option \<Rightarrow> bool \<Rightarrow> bool \<Rightarrow>
   ('s, 'm) session" where
  "session_with_broadcast now challenge store p admission read_required write_required =
     (session_base now store p)
       \<lparr>se_admission := admission, se_broadcast := Some [],
        se_auth := auth_state_of (read_required \<or> write_required) challenge,
        se_read_auth_required := read_required, se_write_auth_required := write_required\<rparr>"

definition with_membership :: "string option \<Rightarrow> 'm option \<Rightarrow> ('s, 'm) session \<Rightarrow> ('s, 'm) session" where
  "with_membership tenant_id membership s = s\<lparr>se_tenant_id := tenant_id, se_membership := membership\<rparr>"

definition with_membership_requirements :: "bool \<Rightarrow> bool \<Rightarrow> ('s, 'm) session \<Rightarrow> ('s, 'm) session" where
  "with_membership_requirements read_required write_required s =
     s\<lparr>se_read_membership_required := read_required, se_write_membership_required := write_required\<rparr>"

definition tenant_signer_new :: "session_env \<Rightarrow> u8 list \<Rightarrow> u8 list \<Rightarrow> tenant_signer option" where
  "tenant_signer_new env relay_pubkey relay_secret =
     (if length relay_pubkey \<noteq> 32 then None
      else map_option (\<lambda>k. \<lparr>ts_pubkey = hex_encode (env_crypto env) relay_pubkey, ts_secret_key = k\<rparr>)
             (env_secret_key env relay_secret))"

definition with_relay_signer ::
  "session_env \<Rightarrow> u8 list \<Rightarrow> u8 list \<Rightarrow> ('s, 'm) session \<Rightarrow> ('s, 'm) session" where
  "with_relay_signer env relay_pubkey relay_secret s =
     s\<lparr>se_tenant_signer := tenant_signer_new env relay_pubkey relay_secret\<rparr>"

definition with_relay_url :: "string option \<Rightarrow> ('s, 'm) session \<Rightarrow> ('s, 'm) session" where
  "with_relay_url relay_url s = s\<lparr>se_relay_url := relay_url\<rparr>"

definition with_metrics :: "('s, 'm) session \<Rightarrow> ('s, 'm) session" where
  "with_metrics s = s\<lparr>se_metrics := Some []\<rparr>"

section \<open>Rate limits and metrics\<close>

definition hit_limit ::
  "nat \<Rightarrow> rate_limit_counter \<Rightarrow> nat option \<Rightarrow> nat \<Rightarrow> bool \<times> rate_limit_counter" where
  "hit_limit now counter limit window =
     (case limit of
        None \<Rightarrow> (False, counter)
      | Some limit \<Rightarrow>
          (if limit = 0 then (False, counter)
           else
             (let counter = (if now - ct_window_start counter \<ge> window
                             then \<lparr>ct_count = 0, ct_window_start = now\<rparr> else counter)
              in if ct_count counter \<ge> limit then (True, counter)
                 else (False, counter\<lparr>ct_count := ct_count counter + 1\<rparr>))))"

definition check_event :: "nat \<Rightarrow> rate_limiter \<Rightarrow> bool \<times> rate_limiter" where
  "check_event now l =
     (case hit_limit now (rl_events l) (rc_max_events_per_min (rl_config l)) (rc_window (rl_config l)) of
        (hit, c) \<Rightarrow> (hit, l\<lparr>rl_events := c\<rparr>))"

definition check_request :: "nat \<Rightarrow> rate_limiter \<Rightarrow> bool \<times> rate_limiter" where
  "check_request now l =
     (case hit_limit now (rl_requests l) (rc_max_requests_per_min (rl_config l)) (rc_window (rl_config l)) of
        (hit, c) \<Rightarrow> (hit, l\<lparr>rl_requests := c\<rparr>))"

definition rate_limit_event :: "nat \<Rightarrow> ('s, 'm) session \<Rightarrow> bool \<times> ('s, 'm) session" where
  "rate_limit_event now s =
     (case se_rate_limiter s of
        None \<Rightarrow> (False, s)
      | Some l \<Rightarrow> (case check_event now l of (hit, l') \<Rightarrow> (hit, s\<lparr>se_rate_limiter := Some l'\<rparr>)))"

definition rate_limit_request :: "nat \<Rightarrow> ('s, 'm) session \<Rightarrow> bool \<times> ('s, 'm) session" where
  "rate_limit_request now s =
     (case se_rate_limiter s of
        None \<Rightarrow> (False, s)
      | Some l \<Rightarrow> (case check_request now l of (hit, l') \<Rightarrow> (hit, s\<lparr>se_rate_limiter := Some l'\<rparr>)))"

definition record_metric :: "string \<Rightarrow> ('s, 'm) session \<Rightarrow> ('s, 'm) session" where
  "record_metric label s = s\<lparr>se_metrics := map_option (\<lambda>l. l @ [label]) (se_metrics s)\<rparr>"

section \<open>Helpers\<close>

definition is_authenticated :: "('s, 'm) session \<Rightarrow> bool" where
  "is_authenticated s =
     (case se_auth s of Some state \<Rightarrow> au_authenticated_pubkey state \<noteq> None | None \<Rightarrow> False)"

definition authenticated_pubkey :: "('s, 'm) session \<Rightarrow> string option" where
  "authenticated_pubkey s =
     (case se_auth s of Some state \<Rightarrow> au_authenticated_pubkey state | None \<Rightarrow> None)"

definition find_tag_value :: "tag list \<Rightarrow> string \<Rightarrow> string option" where
  "find_tag_value tags name =
     Option.bind (find (has_name name) tags) (\<lambda>tag. case tag of _ # v # _ \<Rightarrow> Some v | _ \<Rightarrow> None)"

definition has_tag :: "tag list \<Rightarrow> string \<Rightarrow> bool" where
  "has_tag tags name = list_ex (has_name name) tags"

definition relay_host_from_url :: "string \<Rightarrow> string option" where
  "relay_host_from_url v =
     (let v = trim v in
      if v = [] then None
      else
        (let without_scheme =
               (case strip_prefix v ''ws://'' of Some r \<Rightarrow> r | None \<Rightarrow>
               (case strip_prefix v ''wss://'' of Some r \<Rightarrow> r | None \<Rightarrow>
               (case strip_prefix v ''http://'' of Some r \<Rightarrow> r | None \<Rightarrow>
               (case strip_prefix v ''https://'' of Some r \<Rightarrow> r | None \<Rightarrow> v))));
             host = (case part (str_split without_scheme CHR ''/'') 0 of Some h \<Rightarrow> h | None \<Rightarrow> [])
         in if host = [] then None
            else
              (let host = trim_end_char CHR ''.'' host;
                   plain = Some (to_ascii_lowercase
                     (case part (str_split host CHR '':'') 0 of Some h \<Rightarrow> h | None \<Rightarrow> host))
               in case strip_prefix host ''['' of
                    Some inner \<Rightarrow>
                      (case str_find inner '']'' of
                         Some e \<Rightarrow> Some (to_ascii_lowercase (take e inner))
                       | None \<Rightarrow> plain)
                  | None \<Rightarrow> plain)))"

definition filters_request_kind :: "filter_rec list \<Rightarrow> u32 \<Rightarrow> bool" where
  "filters_request_kind filters kind = list_ex (\<lambda>f. kind \<in> set (fl_kinds f)) filters"

definition event_matches_filters :: "event \<Rightarrow> filter_rec list \<Rightarrow> bool" where
  "event_matches_filters e filters =
     (if filters = [] then True
      else
        (case tag_index_from_tags (ev_tags e) of
           Inl _ \<Rightarrow> False
         | Inr idx \<Rightarrow> list_ex (\<lambda>f. filter_matches f e idx) filters))"

definition membership_response :: "string \<Rightarrow> bool \<Rightarrow> string \<Rightarrow> server_message list" where
  "membership_response event_id accepted message = [ServerOk event_id accepted message]"

definition filter_from_event_filter :: "event_filter \<Rightarrow> filter_rec" where
  "filter_from_event_filter f =
     \<lparr>fl_ids = ef_ids f, fl_authors = ef_authors f, fl_kinds = ef_kinds f, fl_since = None,
      fl_until = None, fl_limit = ef_limit f, fl_tags = ef_tags f\<rparr>"

definition parse_filters :: "json list \<Rightarrow> (filter_error, filter_rec list) result" where
  "parse_filters filters = collect_results filter_from_json filters"

text \<open>
  Signing: the identifier is the hexadecimal digest, and the bytes that are signed are that
  identifier decoded again, which is the digest.
\<close>

definition sign_event :: "crypto \<Rightarrow> tenant_signer \<Rightarrow> event \<Rightarrow> event" where
  "sign_event cr signer e =
     (let e = e\<lparr>ev_id := compute_id cr e\<rparr>;
          digest = sha256 cr (canonical_json cr e)
      in e\<lparr>ev_sig := hex_encode cr (sign_schnorr cr (ts_secret_key signer) digest)\<rparr>)"

definition decode_pubkey_hex :: "crypto \<Rightarrow> string \<Rightarrow> (string, u8 list) result" where
  "decode_pubkey_hex cr pubkey = ok_or (restricted ''invalid pubkey'') (hex_decode cr pubkey)"

definition membership_by_pubkey_bytes ::
  "'m membership_ops \<Rightarrow> 'm \<Rightarrow> string \<Rightarrow> u8 list \<Rightarrow> (string, relay_membership_record option) result" where
  "membership_by_pubkey_bytes mops m tenant_id pubkey =
     map_err storage_error_display (mo_membership_by_pubkey mops tenant_id pubkey m)"

section \<open>Membership\<close>

text \<open>The check shared by \<open>require_membership\<close> and the invite builder: an active member.\<close>

definition active_member ::
  "crypto \<Rightarrow> 'm membership_ops \<Rightarrow> 'm \<Rightarrow> string \<Rightarrow> string option \<Rightarrow> (string, u8 list) result" where
  "active_member cr mops m tenant_id pubkey =
     and_then (ok_or AUTH_REQUIRED_REASON pubkey) (\<lambda>pubkey.
     and_then (decode_pubkey_hex cr pubkey) (\<lambda>pubkey_bytes.
     and_then (membership_by_pubkey_bytes mops m tenant_id pubkey_bytes) (\<lambda>member.
     case member of
       None \<Rightarrow> Err (restricted ''membership required'')
     | Some member \<Rightarrow>
         (if mr_status member \<noteq> MEMBERSHIP_STATUS_ACTIVE then Err (restricted ''membership required'')
          else Ok pubkey_bytes))))"

definition require_membership ::
  "session_env \<Rightarrow> 'm membership_ops \<Rightarrow> ('s, 'm) session \<Rightarrow> (string, unit) result" where
  "require_membership env mops s =
     (case se_membership s of
        None \<Rightarrow> Err (restricted ''relay does not support membership'')
      | Some m \<Rightarrow>
          (case se_tenant_id s of
             None \<Rightarrow> Err (restricted ''relay does not support membership'')
           | Some tenant_id \<Rightarrow>
               and_then (active_member (env_crypto env) mops m tenant_id (authenticated_pubkey s))
                 (\<lambda>_. Ok ())))"

definition ensure_read_membership ::
  "session_env \<Rightarrow> 'm membership_ops \<Rightarrow> ('s, 'm) session \<Rightarrow> (string, unit) result" where
  "ensure_read_membership env mops s =
     (if \<not> se_read_membership_required s then Ok () else require_membership env mops s)"

definition ensure_write_membership ::
  "session_env \<Rightarrow> 'm membership_ops \<Rightarrow> ('s, 'm) session \<Rightarrow> (string, unit) result" where
  "ensure_write_membership env mops s =
     (if \<not> se_write_membership_required s then Ok () else require_membership env mops s)"

text \<open>A join or leave returns the metric it records, its answer, and the repository.\<close>

definition membership_join ::
  "'m membership_ops \<Rightarrow> string \<Rightarrow> event \<Rightarrow> u8 list \<Rightarrow> int \<Rightarrow> 'm \<Rightarrow> string \<times> server_message list \<times> 'm" where
  "membership_join mops tenant_id e pubkey now m =
     (let refuse = (\<lambda>text. (''rejected'', membership_response (ev_id e) False (restricted text), m)) in
      case find_tag_value (ev_tags e) ''claim'' of
        None \<Rightarrow> refuse ''missing invite code''
      | Some invite_code \<Rightarrow>
          (case mo_invite_by_code mops tenant_id invite_code m of
             Inl err \<Rightarrow> (''rejected'', [ServerNotice (storage_error_display err)], m)
           | Inr None \<Rightarrow> refuse ''that is an invalid invite code.''
           | Inr (Some invite) \<Rightarrow>
               (if (case ri_expires_at invite of Some t \<Rightarrow> t < now | None \<Rightarrow> False)
                then refuse ''that invite code is expired.''
                else if (case ri_invitee_pubkey invite of Some k \<Rightarrow> k \<noteq> pubkey | None \<Rightarrow> False)
                then refuse ''invite code does not match pubkey.''
                else
                  (case membership_by_pubkey_bytes mops m tenant_id pubkey of
                     Inl err \<Rightarrow> (''rejected'', [ServerNotice err], m)
                   | Inr existing \<Rightarrow>
                       (if (case existing of
                              Some r \<Rightarrow> mr_status r = MEMBERSHIP_STATUS_ACTIVE
                            | None \<Rightarrow> False)
                        then (''duplicate'', membership_response (ev_id e) True
                               ''duplicate: you are already a member of this relay.'', m)
                        else
                          (let r = \<lparr>mr_tenant_id = tenant_id, mr_pubkey = pubkey,
                                    mr_role = ri_role invite, mr_status = MEMBERSHIP_STATUS_ACTIVE,
                                    mr_created_at = (case existing of Some r \<Rightarrow> mr_created_at r | None \<Rightarrow> now),
                                    mr_updated_at = now\<rparr>
                           in case mo_upsert_membership mops r m of
                                (Inl err, m) \<Rightarrow> (''rejected'', [ServerNotice (storage_error_display err)], m)
                              | (Inr _, m) \<Rightarrow>
                                  (case mo_delete_invite mops tenant_id invite_code m of
                                     (Inl err, m) \<Rightarrow>
                                       (''rejected'', [ServerNotice (storage_error_display err)], m)
                                   | (Inr _, m) \<Rightarrow>
                                       (''accepted'', membership_response (ev_id e) True
                                          ''info: welcome to the relay.'', m))))))))"

definition membership_leave ::
  "'m membership_ops \<Rightarrow> string \<Rightarrow> event \<Rightarrow> u8 list \<Rightarrow> int \<Rightarrow> 'm \<Rightarrow> string \<times> server_message list \<times> 'm" where
  "membership_leave mops tenant_id e pubkey now m =
     (let refuse = (\<lambda>text. (''rejected'', membership_response (ev_id e) False (restricted text), m)) in
      case membership_by_pubkey_bytes mops m tenant_id pubkey of
        Inl err \<Rightarrow> (''rejected'', [ServerNotice err], m)
      | Inr None \<Rightarrow> refuse ''not a member of this relay.''
      | Inr (Some r) \<Rightarrow>
          (if mr_status r \<noteq> MEMBERSHIP_STATUS_ACTIVE then refuse ''not a member of this relay.''
           else
             (case mo_upsert_membership mops
                     (r\<lparr>mr_status := MEMBERSHIP_STATUS_LEFT, mr_updated_at := now\<rparr>) m of
                (Inl err, m) \<Rightarrow> (''rejected'', [ServerNotice (storage_error_display err)], m)
              | (Inr _, m) \<Rightarrow>
                  (''accepted'', membership_response (ev_id e) True ''info: access revoked.'', m))))"

definition handle_membership_event ::
  "session_env \<Rightarrow> 'm membership_ops \<Rightarrow> event \<Rightarrow> int \<Rightarrow> ('s, 'm) session \<Rightarrow>
   server_message list option \<times> ('s, 'm) session" where
  "handle_membership_event env mops e now s =
     (if ev_kind e \<noteq> NIP43_JOIN_KIND \<and> ev_kind e \<noteq> NIP43_LEAVE_KIND then (None, s)
      else
        (let refuse = (\<lambda>text. (Some (membership_response (ev_id e) False (restricted text)),
                               record_metric ''rejected'' s))
         in case se_membership s of
              None \<Rightarrow> refuse ''relay does not support membership''
            | Some m \<Rightarrow>
                (case se_tenant_id s of
                   None \<Rightarrow> refuse ''relay does not support membership''
                 | Some tenant_id \<Rightarrow>
                     (if \<not> has_tag (ev_tags e) ''-'' then refuse ''missing nip-70 tag''
                      else
                        (case hex_decode (env_crypto env) (ev_pubkey e) of
                           None \<Rightarrow> refuse ''invalid pubkey''
                         | Some pubkey \<Rightarrow>
                             (case (if ev_kind e = NIP43_JOIN_KIND
                                    then membership_join mops tenant_id e pubkey now m
                                    else membership_leave mops tenant_id e pubkey now m) of
                                (label, responses, m') \<Rightarrow>
                                  (Some responses,
                                   record_metric label (s\<lparr>se_membership := Some m'\<rparr>))))))))"

definition build_membership_list_event ::
  "session_env \<Rightarrow> 'm membership_ops \<Rightarrow> int \<Rightarrow> ('s, 'm) session \<Rightarrow> (string, event option) result" where
  "build_membership_list_event env mops now s =
     (case (se_membership s, se_tenant_id s, se_tenant_signer s) of
        (Some m, Some tenant_id, Some signer) \<Rightarrow>
          and_then (map_err storage_error_display (mo_list_memberships mops tenant_id m)) (\<lambda>records.
            let members = filter (\<lambda>r. mr_status r = MEMBERSHIP_STATUS_ACTIVE) records;
                tags = [''-''] # map (\<lambda>r. [''member'', hex_encode (env_crypto env) (mr_pubkey r)]) members
            in Ok (Some (sign_event (env_crypto env) signer
                  \<lparr>ev_id = [], ev_pubkey = ts_pubkey signer, ev_created_at = now,
                   ev_kind = NIP43_MEMBERSHIP_KIND, ev_tags = tags, ev_content = [], ev_sig = []\<rparr>)))
      | _ \<Rightarrow> Ok None)"

definition build_invite_event ::
  "session_env \<Rightarrow> 'm membership_ops \<Rightarrow> call_inputs \<Rightarrow> ('s, 'm) session \<Rightarrow>
   (string, event) result \<times> ('s, 'm) session" where
  "build_invite_event env mops inp s =
     (case (se_membership s, se_tenant_id s, se_tenant_signer s) of
        (Some m, Some tenant_id, Some signer) \<Rightarrow>
          (case active_member (env_crypto env) mops m tenant_id (authenticated_pubkey s) of
             Inl err \<Rightarrow> (Err err, s)
           | Inr pubkey \<Rightarrow>
               (case mo_insert_invite mops
                       \<lparr>ri_tenant_id = tenant_id, ri_invite_code = in_invite_code inp,
                        ri_role = DEFAULT_INVITE_ROLE, ri_inviter_pubkey = pubkey,
                        ri_invitee_pubkey = None,
                        ri_expires_at = Some (saturate_i64 (in_now inp + INVITE_TTL_SECS)),
                        ri_created_at = in_now inp\<rparr> m of
                  (Inl err, m') \<Rightarrow> (Err (storage_error_display err), s\<lparr>se_membership := Some m'\<rparr>)
                | (Inr _, m') \<Rightarrow>
                    (Ok (sign_event (env_crypto env) signer
                       \<lparr>ev_id = [], ev_pubkey = ts_pubkey signer, ev_created_at = in_now inp,
                        ev_kind = NIP43_INVITE_KIND,
                        ev_tags = [[''-''], [''claim'', in_invite_code inp]],
                        ev_content = [], ev_sig = []\<rparr>),
                     s\<lparr>se_membership := Some m'\<rparr>)))
      | _ \<Rightarrow> (Err (restricted ''relay does not support invites''), s))"

text \<open>Events the relay makes up itself for a request.\<close>

definition virtual_invites ::
  "session_env \<Rightarrow> 'm membership_ops \<Rightarrow> call_inputs \<Rightarrow> filter_rec list \<Rightarrow> ('s, 'm) session \<Rightarrow>
   (string, event list) result \<times> ('s, 'm) session" where
  "virtual_invites env mops inp filters s =
     (if filters_request_kind filters NIP43_INVITE_KIND
      then (case build_invite_event env mops inp s of
              (Inl err, s) \<Rightarrow> (Err err, s)
            | (Inr e, s) \<Rightarrow> (Ok (if event_matches_filters e filters then [e] else []), s))
      else (Ok [], s))"

definition virtual_events ::
  "session_env \<Rightarrow> 'm membership_ops \<Rightarrow> call_inputs \<Rightarrow> filter_rec list \<Rightarrow> ('s, 'm) session \<Rightarrow>
   (string, event list) result \<times> ('s, 'm) session" where
  "virtual_events env mops inp filters s =
     (case (if filters_request_kind filters NIP43_MEMBERSHIP_KIND
            then and_then (build_membership_list_event env mops (in_now inp) s) (\<lambda>e.
                   case e of
                     Some e \<Rightarrow> Ok (if event_matches_filters e filters then [e] else [])
                   | None \<Rightarrow> Ok [])
            else Ok []) of
        Inl err \<Rightarrow> (Err err, s)
      | Inr members \<Rightarrow>
          (case virtual_invites env mops inp filters s of
             (Inl err, s) \<Rightarrow> (Err err, s)
           | (Inr invites, s) \<Rightarrow> (Ok (members @ invites), s)))"

section \<open>Requests\<close>

definition validate_filter_limits :: "('s, 'm) session \<Rightarrow> filter_rec list \<Rightarrow> bool" where
  "validate_filter_limits s filters =
     (case max_limit (se_policy s) of
        None \<Rightarrow> True
      | Some cap \<Rightarrow>
          \<not> list_ex (\<lambda>f. case fl_limit f of Some limit \<Rightarrow> limit > cap | None \<Rightarrow> False) filters)"

text \<open>The checks requests and counts share: rate limit, authentication, membership, filters.\<close>

definition read_checks ::
  "session_env \<Rightarrow> 'm membership_ops \<Rightarrow> call_inputs \<Rightarrow> string \<Rightarrow> json list \<Rightarrow> ('s, 'm) session \<Rightarrow>
   (server_message list, filter_rec list) result \<times> ('s, 'm) session" where
  "read_checks env mops inp sub filters s =
     (case rate_limit_request (in_instant inp) s of
        (True, s) \<Rightarrow> (Err [ServerNotice ''rate limited''], s)
      | (False, s) \<Rightarrow>
          (if se_read_auth_required s \<and> \<not> is_authenticated s
           then (Err [ServerClosed sub AUTH_REQUIRED_REASON], s)
           else
             (case ensure_read_membership env mops s of
                Inl message \<Rightarrow> (Err [ServerClosed sub message], s)
              | Inr _ \<Rightarrow>
                  (case parse_filters filters of
                     Inl err \<Rightarrow> (Err [notice_of_filter_error err], s)
                   | Inr parsed \<Rightarrow>
                       (if \<not> validate_filter_limits s parsed
                        then (Err [ServerNotice ''limit too large''], s)
                        else (Ok parsed, s))))))"

definition too_many_subscriptions :: "('s, 'm) session \<Rightarrow> string \<Rightarrow> bool" where
  "too_many_subscriptions s sub =
     (case max_subscriptions (se_policy s) of
        None \<Rightarrow> False
      | Some cap \<Rightarrow> \<not> registry_contains sub (se_registry s) \<and> registry_len (se_registry s) \<ge> cap)"

definition handle_req ::
  "session_env \<Rightarrow> 's store_ops \<Rightarrow> 'm membership_ops \<Rightarrow> call_inputs \<Rightarrow> string \<Rightarrow> json list \<Rightarrow>
   ('s, 'm) session \<Rightarrow> server_message list \<times> ('s, 'm) session" where
  "handle_req env ops mops inp sub filters s =
     (case read_checks env mops inp sub filters s of
        (Inl responses, s) \<Rightarrow> (responses, s)
      | (Inr parsed, s) \<Rightarrow>
          (if too_many_subscriptions s sub then ([ServerNotice ''too many subscriptions''], s)
           else
             (case so_query ops parsed (se_store s) of
                Inl err \<Rightarrow> ([notice_of_store_error err], s)
              | Inr events \<Rightarrow>
                  (case virtual_events env mops inp parsed s of
                     (Inl message, s) \<Rightarrow> ([ServerClosed sub message], s)
                   | (Inr made, s) \<Rightarrow>
                       (let registry = snd (registry_insert sub parsed (se_registry s));
                            registry = snd (mark_eose sub registry)
                        in (map (\<lambda>e. ServerEvent sub (env_event_to_json env e)) (events @ made) @
                              [ServerEose sub],
                            s\<lparr>se_registry := registry\<rparr>))))))"

definition handle_count ::
  "session_env \<Rightarrow> 's store_ops \<Rightarrow> 'm membership_ops \<Rightarrow> call_inputs \<Rightarrow> string \<Rightarrow> json list \<Rightarrow>
   ('s, 'm) session \<Rightarrow> server_message list \<times> ('s, 'm) session" where
  "handle_count env ops mops inp sub filters s =
     (case read_checks env mops inp sub filters s of
        (Inl responses, s) \<Rightarrow> (responses, s)
      | (Inr parsed, s) \<Rightarrow>
          (case so_query ops parsed (se_store s) of
             Inl err \<Rightarrow> ([notice_of_store_error err], s)
           | Inr events \<Rightarrow> ([ServerCount sub (length events)], s)))"

definition handle_close :: "string \<Rightarrow> ('s, 'm) session \<Rightarrow> server_message list \<times> ('s, 'm) session" where
  "handle_close sub s = ([], s\<lparr>se_registry := snd (registry_remove sub (se_registry s))\<rparr>)"

section \<open>Authentication\<close>

text \<open>\<open>i64::abs\<close> of the least integer wraps to itself.\<close>

definition i64_abs :: "int \<Rightarrow> int" where
  "i64_abs x = wrap_i64 (abs x)"

definition relay_tag_error :: "('s, 'm) session \<Rightarrow> string \<Rightarrow> string option" where
  "relay_tag_error s relay_tag =
     (case Option.bind (se_relay_url s) relay_host_from_url of
        None \<Rightarrow> None
      | Some expected \<Rightarrow>
          (case relay_host_from_url relay_tag of
             None \<Rightarrow> Some ''invalid relay tag''
           | Some actual \<Rightarrow> (if actual \<noteq> expected then Some ''relay tag mismatch'' else None)))"

text \<open>The checks of an authentication event, in the order of the code; the text is the refusal.\<close>

definition auth_checks ::
  "session_env \<Rightarrow> call_inputs \<Rightarrow> event \<Rightarrow> ('s, 'm) session \<Rightarrow> (string, auth_state) result" where
  "auth_checks env inp e s =
     and_then (ensure (ev_kind e = AUTH_KIND) ''invalid auth kind'') (\<lambda>_.
     and_then (map_err event_error_display (event_verify (env_crypto env) e)) (\<lambda>_.
     and_then (ok_or ''auth not enabled'' (se_auth s)) (\<lambda>auth.
     and_then (ok_or ''missing challenge tag'' (find_tag_value (ev_tags e) ''challenge'')) (\<lambda>challenge.
     and_then (ensure (challenge = au_challenge auth) ''invalid challenge'') (\<lambda>_.
     and_then (ok_or ''missing relay tag'' (find_tag_value (ev_tags e) ''relay'')) (\<lambda>relay_tag.
     and_then (case relay_tag_error s relay_tag of Some text \<Rightarrow> Err text | None \<Rightarrow> Ok ()) (\<lambda>_.
     and_then (ensure (\<not> i64_abs (wrap_i64 (in_now inp - ev_created_at e)) > AUTH_MAX_SKEW_SECS)
        ''auth event timestamp out of range'') (\<lambda>_.
     Ok auth))))))))"

definition handle_auth ::
  "session_env \<Rightarrow> call_inputs \<Rightarrow> json \<Rightarrow> ('s, 'm) session \<Rightarrow> server_message list \<times> ('s, 'm) session" where
  "handle_auth env inp v s =
     (case env_event_from_json env v of
        None \<Rightarrow> ([ServerNotice ''invalid auth event''], s)
      | Some e \<Rightarrow>
          (case auth_checks env inp e s of
             Inl text \<Rightarrow> ([ServerOk (ev_id e) False text], s)
           | Inr auth \<Rightarrow>
               ([ServerOk (ev_id e) True ''authenticated''],
                s\<lparr>se_auth := Some (auth\<lparr>au_authenticated_pubkey := Some (ev_pubkey e)\<rparr>)\<rparr>)))"

section \<open>Retention\<close>

fun delete_all ::
  "'s store_ops \<Rightarrow> event list \<Rightarrow> 's \<Rightarrow> (store_error, unit) result \<times> 's" where
  "delete_all ops [] st = (Ok (), st)"
| "delete_all ops (e # es) st =
     (case so_delete ops (ev_id e) st of
        (Inl err, st) \<Rightarrow> (Err err, st)
      | (Inr _, st) \<Rightarrow> delete_all ops es st)"

partial_function (option) retention_loop ::
  "'s store_ops \<Rightarrow> filter_rec \<Rightarrow> 's \<Rightarrow> ((store_error, unit) result \<times> 's) option" where
  "retention_loop ops f st =
     (case so_query ops [f] st of
        Inl err \<Rightarrow> Some (Err err, st)
      | Inr events \<Rightarrow>
          (if events = [] then Some (Ok (), st)
           else
             (case delete_all ops events st of
                (Inl err, st) \<Rightarrow> Some (Err err, st)
              | (Inr _, st) \<Rightarrow> retention_loop ops f st)))"

definition retention_filter :: "int \<Rightarrow> filter_rec" where
  "retention_filter cutoff = empty_filter\<lparr>fl_until := Some cutoff, fl_limit := Some 100\<rparr>"

definition apply_retention ::
  "'s store_ops \<Rightarrow> int \<Rightarrow> policy \<Rightarrow> 's \<Rightarrow> ((store_error, unit) result \<times> 's) option" where
  "apply_retention ops now p st =
     (case retention_max_age_seconds p of
        None \<Rightarrow> Some (Ok (), st)
      | Some max_age \<Rightarrow>
          (if max_age \<le> 0 then Some (Ok (), st)
           else retention_loop ops (retention_filter (saturate_i64 (now - max_age))) st))"

section \<open>Events\<close>

definition dispatch_event :: "session_env \<Rightarrow> event \<Rightarrow> ('s, 'm) session \<Rightarrow> server_message list" where
  "dispatch_event env e s =
     (case tag_index_from_tags (ev_tags e) of
        Inl _ \<Rightarrow> [ServerNotice ''invalid event tags'']
      | Inr tags \<Rightarrow>
          filter_map (\<lambda>(sub, filters).
            if filters = [] then None
            else if list_ex (\<lambda>f. filter_matches f e tags) filters
            then Some (ServerEvent sub (env_event_to_json env e)) else None)
            (registry_iter (se_registry s)))"

definition write_auth_error :: "('s, 'm) session \<Rightarrow> event \<Rightarrow> string option" where
  "write_auth_error s e =
     (if \<not> se_write_auth_required s then None
      else
        (case se_auth s of
           None \<Rightarrow> Some AUTH_REQUIRED_REASON
         | Some auth \<Rightarrow>
             (case au_authenticated_pubkey auth of
                None \<Rightarrow> Some AUTH_REQUIRED_REASON
              | Some pubkey \<Rightarrow>
                  (if pubkey \<noteq> ev_pubkey e then Some AUTH_PUBKEY_MISMATCH_REASON else None))))"

fun check_related ::
  "'s store_ops \<Rightarrow> 's \<Rightarrow> string \<Rightarrow> event_filter list \<Rightarrow> (server_message list, unit) result" where
  "check_related ops st event_id [] = Ok ()"
| "check_related ops st event_id (f # fs) =
     (case so_query ops [filter_from_event_filter f] st of
        Inl err \<Rightarrow> Err [notice_of_store_error err]
      | Inr related \<Rightarrow>
          (if related = [] then Err [ServerOk event_id False ''missing related events'']
           else check_related ops st event_id fs))"

definition relay_event_of :: "('s, 'm) session \<Rightarrow> event \<Rightarrow> relay_event" where
  "relay_event_of s e =
     \<lparr>re_kind = unat (ev_kind e), re_pubkey = ev_pubkey e, re_event_id = ev_id e,
      re_tags = ev_tags e, re_relay_url = se_relay_url s, re_source_ip = None\<rparr>"

definition check_admission ::
  "'s store_ops \<Rightarrow> ('s, 'm) session \<Rightarrow> event \<Rightarrow> (server_message list, unit) result" where
  "check_admission ops s e =
     (case se_admission s of
        None \<Rightarrow> Ok ()
      | Some decide \<Rightarrow>
          (case decide (relay_event_of s e) of
             Accept \<Rightarrow> Ok ()
           | Reject reason \<Rightarrow> Err [ServerOk (ev_id e) False reason]
           | RequiresRelatedEvents filters \<Rightarrow> check_related ops (se_store s) (ev_id e) filters))"

text \<open>Everything a client must pass before its event is stored, in the order of the code.\<close>

definition write_checks ::
  "session_env \<Rightarrow> 's store_ops \<Rightarrow> 'm membership_ops \<Rightarrow> ('s, 'm) session \<Rightarrow> event \<Rightarrow>
   (server_message list, unit) result" where
  "write_checks env ops mops s e =
     (case write_auth_error s e of
        Some text \<Rightarrow> Err [ServerOk (ev_id e) False text]
      | None \<Rightarrow>
          (case ensure_write_membership env mops s of
             Inl text \<Rightarrow> Err [ServerOk (ev_id e) False text]
           | Inr _ \<Rightarrow> check_admission ops s e))"

definition broadcast_event :: "event \<Rightarrow> ('s, 'm) session \<Rightarrow> ('s, 'm) session" where
  "broadcast_event e s = s\<lparr>se_broadcast := map_option (\<lambda>sent. sent @ [e]) (se_broadcast s)\<rparr>"

definition store_event ::
  "session_env \<Rightarrow> 's store_ops \<Rightarrow> call_inputs \<Rightarrow> event \<Rightarrow> ('s, 'm) session \<Rightarrow>
   (server_message list \<times> ('s, 'm) session) option" where
  "store_event env ops inp e s =
     (case so_insert ops e (se_store s) of
        (Inl err, st) \<Rightarrow>
          Some ([notice_of_store_error err], record_metric ''rejected'' (s\<lparr>se_store := st\<rparr>))
      | (Inr Inserted, st) \<Rightarrow>
          (case apply_retention ops (in_now inp) (se_policy s) st of
             None \<Rightarrow> None
           | Some (_, st) \<Rightarrow>
               (let s = broadcast_event e (record_metric ''accepted'' (s\<lparr>se_store := st\<rparr>))
                in Some (ServerOk (ev_id e) True ''saved'' # dispatch_event env e s, s)))
      | (Inr Duplicate, st) \<Rightarrow>
          (let s = record_metric ''duplicate'' (s\<lparr>se_store := st\<rparr>)
           in Some (ServerOk (ev_id e) True ''duplicate'' # dispatch_event env e s, s)))"

definition handle_event ::
  "session_env \<Rightarrow> 's store_ops \<Rightarrow> 'm membership_ops \<Rightarrow> call_inputs \<Rightarrow> json \<Rightarrow> ('s, 'm) session \<Rightarrow>
   (server_message list \<times> ('s, 'm) session) option" where
  "handle_event env ops mops inp v s =
     (case env_event_from_json env v of
        None \<Rightarrow> Some ([ServerNotice ''invalid event''], record_metric ''rejected'' s)
      | Some e \<Rightarrow>
          (case rate_limit_event (in_instant inp) s of
             (True, s) \<Rightarrow> Some ([ServerNotice ''rate limited''], record_metric ''rejected'' s)
           | (False, s) \<Rightarrow>
               (let refuse = (\<lambda>text. Some ([ServerOk (ev_id e) False text], record_metric ''rejected'' s)) in
                case event_verify (env_crypto env) e of
                  Inl err \<Rightarrow> refuse (event_error_display err)
                | Inr _ \<Rightarrow>
                    (case validate_event (se_policy s) e (in_now inp) of
                       Inl err \<Rightarrow> refuse (policy_error_display err)
                     | Inr _ \<Rightarrow>
                         (if ev_kind e = AUTH_KIND then refuse ''auth event must use AUTH''
                          else
                            (case handle_membership_event env mops e (in_now inp) s of
                               (Some responses, s) \<Rightarrow> Some (responses, s)
                             | (None, s) \<Rightarrow>
                                 (case write_checks env ops mops s e of
                                    Inl responses \<Rightarrow> Some (responses, record_metric ''rejected'' s)
                                  | Inr _ \<Rightarrow> store_event env ops inp e s)))))))"

section \<open>Messages\<close>

definition initial_messages :: "('s, 'm) session \<Rightarrow> server_message list" where
  "initial_messages s =
     (case se_auth s of Some state \<Rightarrow> [ServerAuth (au_challenge state)] | None \<Rightarrow> [])"

definition handle_message ::
  "session_env \<Rightarrow> 's store_ops \<Rightarrow> 'm membership_ops \<Rightarrow> call_inputs \<Rightarrow> client_message \<Rightarrow>
   ('s, 'm) session \<Rightarrow> (server_message list \<times> ('s, 'm) session) option" where
  "handle_message env ops mops inp message s =
     (case message of
        ClientReq sub filters \<Rightarrow>
          Some (handle_req env ops mops inp sub filters (record_metric ''REQ'' s))
      | ClientClose sub \<Rightarrow> Some (handle_close sub (record_metric ''CLOSE'' s))
      | ClientEvent v \<Rightarrow> handle_event env ops mops inp v (record_metric ''EVENT'' s)
      | ClientAuth v \<Rightarrow> Some (handle_auth env inp v (record_metric ''AUTH'' s))
      | ClientCount sub filters \<Rightarrow>
          Some (handle_count env ops mops inp sub filters (record_metric ''COUNT'' s)))"

definition handle_raw ::
  "session_env \<Rightarrow> 's store_ops \<Rightarrow> 'm membership_ops \<Rightarrow> call_inputs \<Rightarrow> string \<Rightarrow>
   ('s, 'm) session \<Rightarrow> (server_message list \<times> ('s, 'm) session) option" where
  "handle_raw env ops mops inp input s =
     (case decode_client_message (env_from_str env) input of
        Inr message \<Rightarrow> handle_message env ops mops inp message s
      | Inl err \<Rightarrow> Some ([notice_of_protocol_error err], s))"

end
