(* ===== verification/Relay_Session_Safety.thy ===== *)
theory Relay_Session_Safety
  imports Relay_Session
begin

text \<open>
  What a session guarantees: which parts of its state every handler leaves alone, the cap on
  subscriptions, how a client becomes authenticated, what must hold before an event is stored or
  sent, the rate limit, and that every message is answered because retention ends.
\<close>

section \<open>What the handlers leave alone\<close>

lemma record_metric_simps [simp]:
  "se_registry (record_metric l s) = se_registry s" "se_store (record_metric l s) = se_store s"
  "se_policy (record_metric l s) = se_policy s" "se_auth (record_metric l s) = se_auth s"
  "se_admission (record_metric l s) = se_admission s"
  "se_membership (record_metric l s) = se_membership s"
  "se_tenant_id (record_metric l s) = se_tenant_id s"
  "se_relay_url (record_metric l s) = se_relay_url s"
  "se_read_auth_required (record_metric l s) = se_read_auth_required s"
  "se_write_auth_required (record_metric l s) = se_write_auth_required s"
  "se_read_membership_required (record_metric l s) = se_read_membership_required s"
  "se_write_membership_required (record_metric l s) = se_write_membership_required s"
  by (simp_all add: record_metric_def)

text \<open>The parts no handler but those of requests, closing, authentication and events may change.\<close>

definition same_core :: "('s, 'm) session \<Rightarrow> ('s, 'm) session \<Rightarrow> bool" where
  "same_core s s' \<longleftrightarrow>
     se_registry s' = se_registry s \<and> se_store s' = se_store s \<and> se_policy s' = se_policy s \<and>
     se_auth s' = se_auth s \<and> se_admission s' = se_admission s \<and> se_relay_url s' = se_relay_url s \<and>
     se_tenant_id s' = se_tenant_id s \<and>
     se_read_auth_required s' = se_read_auth_required s \<and>
     se_write_auth_required s' = se_write_auth_required s \<and>
     se_read_membership_required s' = se_read_membership_required s \<and>
     se_write_membership_required s' = se_write_membership_required s"

lemma same_core_refl [simp]: "same_core s s"
  by (simp add: same_core_def)

lemma same_core_trans: "same_core s s' \<Longrightarrow> same_core s' s'' \<Longrightarrow> same_core s s''"
  by (simp add: same_core_def)

lemma same_core_metric [simp]: "same_core s (record_metric l s') \<longleftrightarrow> same_core s s'"
  by (simp add: same_core_def)

lemma same_core_auth: "same_core s s' \<Longrightarrow>
    is_authenticated s' = is_authenticated s \<and> authenticated_pubkey s' = authenticated_pubkey s"
  by (simp add: same_core_def is_authenticated_def authenticated_pubkey_def)

lemma rate_limit_request_core:
  "rate_limit_request now s = (hit, s') \<Longrightarrow> same_core s s' \<and> se_membership s' = se_membership s"
  by (auto simp: rate_limit_request_def same_core_def split: option.splits prod.splits)

lemma rate_limit_event_core:
  "rate_limit_event now s = (hit, s') \<Longrightarrow> same_core s s' \<and> se_membership s' = se_membership s"
  by (auto simp: rate_limit_event_def same_core_def split: option.splits prod.splits)

lemma read_checks_core:
  assumes "read_checks env mops inp sub filters s = (r, s')"
  shows "same_core s s'"
proof -
  obtain hit s1 where lim: "rate_limit_request (in_instant inp) s = (hit, s1)" by fastforce
  then have "s' = s1" using assms
    by (auto simp: read_checks_def split: bool.splits if_splits sum.splits)
  with rate_limit_request_core [OF lim] show ?thesis by simp
qed

lemma build_invite_core: "build_invite_event env mops inp s = (r, s') \<Longrightarrow> same_core s s'"
  by (auto simp: build_invite_event_def same_core_def split: option.splits sum.splits prod.splits)

lemma virtual_events_core: "virtual_events env mops inp fs s = (r, s') \<Longrightarrow> same_core s s'"
  using build_invite_core [of env mops inp s]
  by (auto simp: virtual_events_def virtual_invites_def split: if_splits sum.splits prod.splits)

lemma membership_event_core:
  "handle_membership_event env mops e now s = (r, s') \<Longrightarrow> same_core s s' \<and> (r = None \<longrightarrow> s' = s)"
  by (auto simp: handle_membership_event_def same_core_def Let_def
      split: if_splits option.splits prod.splits)

section \<open>The shape of every handler\<close>

text \<open>
  A request either leaves the core of the session alone and sends no event, or passes all the
  checks, and then only the registry changes.
\<close>

definition no_events :: "server_message list \<Rightarrow> bool" where
  "no_events rs \<longleftrightarrow> (\<forall>sub v. ServerEvent sub v \<notin> set rs)"

lemma read_checks_Inl:
  "read_checks env mops inp sub filters s = (Inl rs, s') \<Longrightarrow> no_events rs"
  by (auto simp: read_checks_def no_events_def notice_of_filter_error_def
      split: prod.splits bool.splits if_splits sum.splits)

lemma read_checks_Inr:
  assumes "read_checks env mops inp sub filters s = (Inr parsed, s')"
  shows "(se_read_auth_required s \<longrightarrow> is_authenticated s) \<and> parse_filters filters = Ok parsed \<and>
    validate_filter_limits s parsed"
proof -
  obtain hit s1 where lim: "rate_limit_request (in_instant inp) s = (hit, s1)" by fastforce
  note core = rate_limit_request_core [OF lim]
  show ?thesis
    using assms lim core same_core_auth [of s s1]
    by (auto simp: read_checks_def same_core_def validate_filter_limits_def
        split: bool.splits if_splits sum.splits)
qed

lemma handle_req_cases:
  assumes "handle_req env ops mops inp sub filters s = (rs, s')"
  obtains (refused) "same_core s s'" "no_events rs"
  | (served) parsed events made s1 where
      "same_core s s1" "s' = s1\<lparr>se_registry :=
         snd (mark_eose sub (snd (registry_insert sub parsed (se_registry s))))\<rparr>"
      "se_read_auth_required s \<longrightarrow> is_authenticated s" "\<not> too_many_subscriptions s sub"
      "parse_filters filters = Ok parsed" "so_query ops parsed (se_store s) = Ok events"
      "rs = map (\<lambda>e. ServerEvent sub (env_event_to_json env e)) (events @ made) @ [ServerEose sub]"
proof -
  obtain r s0 where checks: "read_checks env mops inp sub filters s = (r, s0)" by fastforce
  note core0 = read_checks_core [OF checks]
  then have many: "too_many_subscriptions s0 sub = too_many_subscriptions s sub"
    and store: "se_store s0 = se_store s"
    by (auto simp: too_many_subscriptions_def same_core_def split: option.split)
  show ?thesis
  proof (cases r)
    case (Inl rs')
    with assms checks have "rs = rs'" "s' = s0" by (simp_all add: handle_req_def)
    with core0 read_checks_Inl [OF checks [unfolded Inl]] show ?thesis by (auto intro: refused)
  next
    case (Inr parsed)
    note ok = read_checks_Inr [OF checks [unfolded Inr]]
    show ?thesis
    proof (cases "too_many_subscriptions s sub")
      case True
      with assms checks Inr many have "rs = [ServerNotice ''too many subscriptions'']" "s' = s0"
        by (simp_all add: handle_req_def)
      with core0 show ?thesis by (auto intro: refused simp: no_events_def)
    next
      case few: False
      show ?thesis
      proof (cases "so_query ops parsed (se_store s)")
        case (Inl err)
        with assms checks Inr many few store have "rs = [notice_of_store_error err]" "s' = s0"
          by (simp_all add: handle_req_def)
        with core0 show ?thesis by (auto intro: refused simp: no_events_def notice_of_store_error_def)
      next
        case query: (Inr events)
        obtain v s1 where made: "virtual_events env mops inp parsed s0 = (v, s1)" by fastforce
        have core1: "same_core s s1" by (rule same_core_trans [OF core0 virtual_events_core [OF made]])
        show ?thesis
        proof (cases v)
          case (Inl message)
          with assms checks Inr many few store query made
          have "rs = [ServerClosed sub message]" "s' = s1" by (simp_all add: handle_req_def)
          with core1 show ?thesis by (auto intro: refused simp: no_events_def)
        next
          case (Inr made')
          with assms checks \<open>r = Inr parsed\<close> many few store query made core1
          show ?thesis
            by (intro served [of s1 parsed events made'])
              (use ok few query in \<open>auto simp: handle_req_def Let_def same_core_def\<close>)
        qed
      qed
    qed
  qed
qed

lemma handle_count_core:
  assumes "handle_count env ops mops inp sub filters s = (rs, s')"
  shows "same_core s s' \<and> no_events rs"
proof -
  obtain r s0 where checks: "read_checks env mops inp sub filters s = (r, s0)" by fastforce
  then have "s' = s0" using assms by (auto simp: handle_count_def split: sum.splits)
  moreover have "no_events rs"
    using assms checks read_checks_Inl [of env mops inp sub filters s]
    by (auto simp: handle_count_def no_events_def notice_of_store_error_def split: sum.splits)
  ultimately show ?thesis using read_checks_core [OF checks] by simp
qed

lemma membership_join_no_events:
  "membership_join mops t e pk now m = (l, rs, m') \<Longrightarrow> no_events rs"
  by (auto simp: membership_join_def membership_response_def no_events_def Let_def
      split: option.splits sum.splits if_splits prod.splits)

lemma membership_leave_no_events:
  "membership_leave mops t e pk now m = (l, rs, m') \<Longrightarrow> no_events rs"
  by (auto simp: membership_leave_def membership_response_def no_events_def Let_def
      split: option.splits sum.splits if_splits prod.splits)

lemma membership_event_no_events:
  "handle_membership_event env mops e now s = (Some rs, s') \<Longrightarrow> no_events rs"
  by (auto simp: handle_membership_event_def Let_def membership_response_def no_events_def [of "[_]"]
      dest: membership_join_no_events membership_leave_no_events
      split: if_splits option.splits prod.splits)

lemma check_related_no_events: "check_related ops st i fs = Inl rs \<Longrightarrow> no_events rs"
  by (induction ops st i fs rule: check_related.induct)
    (auto simp: no_events_def notice_of_store_error_def split: sum.splits if_splits)

lemma write_checks_no_events: "write_checks env ops mops s e = Inl rs \<Longrightarrow> no_events rs"
  by (auto simp: write_checks_def check_admission_def no_events_def [of "[_]"]
      dest: check_related_no_events
      split: option.splits sum.splits admission_decision.splits)

lemma write_checks_cong:
  assumes "same_core s s1" and "se_membership s1 = se_membership s"
  shows "write_checks env ops mops s1 e = write_checks env ops mops s e"
proof -
  have "ensure_write_membership env mops s1 = ensure_write_membership env mops s"
    using assms same_core_auth [OF assms(1)]
    by (simp add: ensure_write_membership_def require_membership_def same_core_def cong: option.case_cong)
  moreover have "write_auth_error s1 e = write_auth_error s e"
    "check_admission ops s1 e = check_admission ops s e"
    using assms(1)
    by (simp_all add: write_auth_error_def check_admission_def relay_event_of_def same_core_def
        cong: option.case_cong admission_decision.case_cong)
  ultimately show ?thesis by (simp add: write_checks_def cong: option.case_cong sum.case_cong)
qed

lemma handle_event_cases:
  assumes "handle_event env ops mops inp v s = r"
  obtains (refused) rs s' where "r = Some (rs, s')" "same_core s s'" "no_events rs"
  | (stored) e s1 where
      "same_core s s1" "se_membership s1 = se_membership s" "env_event_from_json env v = Some e"
      "event_verify (env_crypto env) e = Ok ()" "validate_event (se_policy s) e (in_now inp) = Ok ()"
      "ev_kind e \<noteq> AUTH_KIND" "write_checks env ops mops s e = Ok ()"
      "store_event env ops inp e s1 = r"
proof (cases "env_event_from_json env v")
  case None
  with assms show ?thesis by (auto intro: refused simp: handle_event_def no_events_def)
next
  case (Some e)
  obtain hit s1 where lim: "rate_limit_event (in_instant inp) s = (hit, s1)" by fastforce
  note core = rate_limit_event_core [OF lim]
  show ?thesis
  proof (cases "hit \<or> event_verify (env_crypto env) e \<noteq> Ok () \<or>
      validate_event (se_policy s1) e (in_now inp) \<noteq> Ok () \<or> ev_kind e = AUTH_KIND")
    case True
    have "\<exists>rs l. r = Some (rs, record_metric l s1) \<and> no_events rs"
      using assms Some lim True
      by (auto simp: handle_event_def Let_def no_events_def
          split: bool.splits sum.splits if_splits)
    with core show ?thesis by (auto intro: refused)
  next
    case False
    obtain q s2 where mem: "handle_membership_event env mops e (in_now inp) s1 = (q, s2)" by fastforce
    note core2 = membership_event_core [OF mem]
    have r: "r = (case q of
        Some responses \<Rightarrow> Some (responses, s2)
      | None \<Rightarrow> (case write_checks env ops mops s2 e of
            Inl responses \<Rightarrow> Some (responses, record_metric ''rejected'' s2)
          | Inr _ \<Rightarrow> store_event env ops inp e s2))"
      using assms Some lim False mem by (auto simp: handle_event_def Let_def split: option.splits)
    show ?thesis
    proof (cases q)
      case (Some rs)
      with r core core2 membership_event_no_events [OF mem [unfolded Some]] show ?thesis
        by (auto intro!: refused intro: same_core_trans)
    next
      case None
      with core2 have s2: "s2 = s1" by simp
      have wc: "write_checks env ops mops s1 e = write_checks env ops mops s e"
        using core write_checks_cong by blast
      show ?thesis
      proof (cases "write_checks env ops mops s e")
        case (Inl rs)
        with r None s2 wc core write_checks_no_events [OF Inl] show ?thesis by (auto intro: refused)
      next
        case (Inr u)
        with r None s2 wc have "store_event env ops inp e s1 = r" by simp
        with core Some False Inr show ?thesis
          by (intro stored [of s1 e]) (auto simp: same_core_def)
      qed
    qed
  qed
qed

lemma dispatch_no_events: "se_registry s = [] \<Longrightarrow> no_events (dispatch_event env e s)"
  by (auto simp: dispatch_event_def registry_iter_def no_events_def split: sum.splits)

lemma no_events_Cons [simp]:
  "no_events (ServerOk i b m # rs) \<longleftrightarrow> no_events rs" "no_events [notice_of_store_error err]"
  by (auto simp: no_events_def notice_of_store_error_def)

lemma broadcast_event_core [simp]: "same_core s (broadcast_event e s') \<longleftrightarrow> same_core s s'"
  "se_store (broadcast_event e s) = se_store s" "se_registry (broadcast_event e s) = se_registry s"
  by (simp_all add: broadcast_event_def same_core_def)

text \<open>The states \<open>store_event\<close> can end in: a new store, a metric, perhaps a broadcast.\<close>

definition store_result :: "('s, 'm) session \<Rightarrow> event \<Rightarrow> ('s, 'm) session \<Rightarrow> bool" where
  "store_result s e s' \<longleftrightarrow>
     (\<exists>l st. s' = record_metric l (s\<lparr>se_store := st\<rparr>) \<or>
        s' = broadcast_event e (record_metric l (s\<lparr>se_store := st\<rparr>)))"

lemma store_result_core:
  assumes "store_result s e s'"
  shows "same_core (s\<lparr>se_store := se_store s'\<rparr>) s'"
  using assms unfolding store_result_def by (elim exE disjE) simp_all

lemma store_event_shape:
  assumes "store_event env ops inp e s = Some (rs, s')"
  shows "store_result s e s' \<and>
    ((\<exists>err. rs = [notice_of_store_error err]) \<or> (\<exists>m. rs = ServerOk (ev_id e) True m # dispatch_event env e s'))"
proof -
  obtain r st where ins: "so_insert ops e (se_store s) = (r, st)" by fastforce
  show ?thesis
  proof (cases r)
    case (Inl err)
    with assms ins have "rs = [notice_of_store_error err]" "s' = record_metric ''rejected'' (s\<lparr>se_store := st\<rparr>)"
      by (simp_all add: store_event_def)
    then show ?thesis unfolding store_result_def by blast
  next
    case (Inr outcome)
    show ?thesis
    proof (cases outcome)
      case Duplicate
      let ?s = "record_metric ''duplicate'' (s\<lparr>se_store := st\<rparr>)"
      have "store_event env ops inp e s =
          Some (ServerOk (ev_id e) True ''duplicate'' # dispatch_event env e ?s, ?s)"
        by (simp add: store_event_def ins Inr Duplicate Let_def)
      with assms have "rs = ServerOk (ev_id e) True ''duplicate'' # dispatch_event env e ?s" "s' = ?s"
        by (metis option.inject prod.inject)+
      then show ?thesis unfolding store_result_def by blast
    next
      case Inserted
      with assms ins Inr obtain r' st' where
        ret: "apply_retention ops (in_now inp) (se_policy s) st = Some (r', st')"
        by (cases "apply_retention ops (in_now inp) (se_policy s) st") (auto simp: store_event_def)
      let ?s = "broadcast_event e (record_metric ''accepted'' (s\<lparr>se_store := st'\<rparr>))"
      have "store_event env ops inp e s =
          Some (ServerOk (ev_id e) True ''saved'' # dispatch_event env e ?s, ?s)"
        by (simp add: store_event_def ins Inr Inserted ret Let_def)
      with assms have "rs = ServerOk (ev_id e) True ''saved'' # dispatch_event env e ?s" "s' = ?s"
        by (metis option.inject prod.inject)+
      then show ?thesis unfolding store_result_def by blast
    qed
  qed
qed

lemma store_event_core:
  assumes "store_event env ops inp e s = Some (rs, s')"
  shows "same_core (s\<lparr>se_store := se_store s'\<rparr>) s'" and "se_registry s = [] \<Longrightarrow> no_events rs"
proof -
  note shape = store_event_shape [OF assms]
  then show core: "same_core (s\<lparr>se_store := se_store s'\<rparr>) s'" using store_result_core by blast
  assume "se_registry s = []"
  with core have "se_registry s' = []" by (simp add: same_core_def)
  with shape show "no_events rs" using dispatch_no_events by fastforce
qed

lemma handle_auth_cases:
  assumes "handle_auth env inp v s = (rs, s')"
  obtains (refused) "s' = s" "no_events rs"
  | (accepted) e auth where "env_event_from_json env v = Some e" "auth_checks env inp e s = Ok auth"
      "s' = s\<lparr>se_auth := Some (auth\<lparr>au_authenticated_pubkey := Some (ev_pubkey e)\<rparr>)\<rparr>" "no_events rs"
proof (cases "env_event_from_json env v")
  case None
  with assms have "s' = s" "rs = [ServerNotice ''invalid auth event'']" by (simp_all add: handle_auth_def)
  then show ?thesis by (intro refused) (simp_all add: no_events_def)
next
  case (Some e)
  show ?thesis
  proof (cases "auth_checks env inp e s")
    case (Inl msg)
    with assms Some have "s' = s" "rs = [ServerOk (ev_id e) False msg]" by (simp_all add: handle_auth_def)
    then show ?thesis by (intro refused) (simp_all add: no_events_def)
  next
    case (Inr auth)
    with assms Some have
      "s' = s\<lparr>se_auth := Some (auth\<lparr>au_authenticated_pubkey := Some (ev_pubkey e)\<rparr>)\<rparr>"
      "rs = [ServerOk (ev_id e) True ''authenticated'']" by (simp_all add: handle_auth_def)
    with Some Inr show ?thesis by (intro accepted [of e auth]) (simp_all add: no_events_def)
  qed
qed

lemma auth_checks_Ok:
  "auth_checks env inp e s = Ok auth \<longleftrightarrow>
     ev_kind e = AUTH_KIND \<and> event_verify (env_crypto env) e = Ok () \<and> se_auth s = Some auth \<and>
     find_tag_value (ev_tags e) ''challenge'' = Some (au_challenge auth) \<and>
     (\<exists>tag. find_tag_value (ev_tags e) ''relay'' = Some tag \<and> relay_tag_error s tag = None) \<and>
     i64_abs (wrap_i64 (in_now inp - ev_created_at e)) \<le> AUTH_MAX_SKEW_SECS"
  by (auto simp: auth_checks_def and_then_eq_Ok map_err_eq_Ok ok_or_eq_Ok ensure_eq_Ok
      split: option.splits)

section \<open>Messages\<close>

lemma same_core_metric_left [simp]: "same_core (record_metric l s) s' \<longleftrightarrow> same_core s s'"
  by (simp add: same_core_def)

lemma metric_simps [simp]:
  "is_authenticated (record_metric l s) = is_authenticated s"
  "too_many_subscriptions (record_metric l s) sub = too_many_subscriptions s sub"
  "auth_checks env inp e (record_metric l s) = auth_checks env inp e s"
  by (simp_all add: is_authenticated_def too_many_subscriptions_def auth_checks_def relay_tag_error_def
      cong: option.case_cong)

lemma write_checks_metric [simp]:
  "write_checks env ops mops (record_metric l s) e = write_checks env ops mops s e"
  by (rule write_checks_cong) simp_all

lemma handle_message_cases:
  assumes "handle_message env ops mops inp message s = Some (rs, s')"
  obtains (quiet) "same_core s s'" "no_events rs"
  | (served) sub filters parsed s1 where "message = ClientReq sub filters" "same_core s s1"
      "s' = s1\<lparr>se_registry := snd (mark_eose sub (snd (registry_insert sub parsed (se_registry s))))\<rparr>"
      "se_read_auth_required s \<longrightarrow> is_authenticated s" "\<not> too_many_subscriptions s sub"
  | (closed) sub s1 where "same_core s s1" "no_events rs"
      "s' = s1\<lparr>se_registry := snd (registry_remove sub (se_registry s))\<rparr>"
  | (authenticated) v e auth s1 where "message = ClientAuth v" "env_event_from_json env v = Some e"
      "auth_checks env inp e s = Ok auth" "same_core s s1" "no_events rs"
      "s' = s1\<lparr>se_auth := Some (auth\<lparr>au_authenticated_pubkey := Some (ev_pubkey e)\<rparr>)\<rparr>"
  | (stored) v e s1 where "message = ClientEvent v" "env_event_from_json env v = Some e"
      "event_verify (env_crypto env) e = Ok ()" "validate_event (se_policy s) e (in_now inp) = Ok ()"
      "ev_kind e \<noteq> AUTH_KIND" "write_checks env ops mops s e = Ok ()" "same_core s s1"
      "store_event env ops inp e s1 = Some (rs, s')"
proof (cases message)
  case (ClientEvent v)
  let ?s = "record_metric ''EVENT'' s"
  from assms ClientEvent have "handle_event env ops mops inp v ?s = Some (rs, s')"
    by (simp add: handle_message_def)
  then show ?thesis
  proof (cases rule: handle_event_cases)
    case (refused rs1 s1)
    then show ?thesis by (intro quiet) simp_all
  next
    case (stored e s1)
    with ClientEvent show ?thesis using that(5) [of v e s1] by simp
  qed
next
  case (ClientReq sub filters)
  let ?s = "record_metric ''REQ'' s"
  from assms ClientReq have "handle_req env ops mops inp sub filters ?s = (rs, s')"
    by (simp add: handle_message_def)
  then show ?thesis
  proof (cases rule: handle_req_cases)
    case refused
    then show ?thesis by (intro quiet) simp_all
  next
    case (served parsed events made s1)
    with ClientReq show ?thesis using that(2) [of sub filters s1 parsed] by simp
  qed
next
  case (ClientClose sub)
  then show ?thesis
    using assms that(3) [of "record_metric ''CLOSE'' s" sub]
    by (auto simp: handle_message_def handle_close_def no_events_def)
next
  case (ClientAuth v)
  let ?s = "record_metric ''AUTH'' s"
  from assms ClientAuth have "handle_auth env inp v ?s = (rs, s')"
    by (simp add: handle_message_def)
  then show ?thesis
  proof (cases rule: handle_auth_cases)
    case refused
    then show ?thesis by (intro quiet) simp_all
  next
    case (accepted e auth)
    with ClientAuth show ?thesis using that(4) [of v e auth ?s] by simp
  qed
next
  case (ClientCount sub filters)
  from assms ClientCount have "handle_count env ops mops inp sub filters (record_metric ''COUNT'' s) = (rs, s')"
    by (simp add: handle_message_def)
  from handle_count_core [OF this] show ?thesis by (intro quiet) simp_all
qed

text \<open>A session's run: the messages it answered so far and the state it is in.\<close>

inductive session_run ::
  "session_env \<Rightarrow> 's store_ops \<Rightarrow> 'm membership_ops \<Rightarrow> ('s, 'm) session \<Rightarrow> server_message list \<Rightarrow>
   ('s, 'm) session \<Rightarrow> bool"
  for env :: session_env and ops :: "'s store_ops" and mops :: "'m membership_ops"
    and s0 :: "('s, 'm) session" where
  start: "session_run env ops mops s0 [] s0"
| message: "session_run env ops mops s0 out s \<Longrightarrow>
    handle_message env ops mops inp message s = Some (rs, s') \<Longrightarrow>
    session_run env ops mops s0 (out @ rs) s'"

text \<open>The configuration of a session never changes.\<close>

definition same_config :: "('s, 'm) session \<Rightarrow> ('s, 'm) session \<Rightarrow> bool" where
  "same_config s s' \<longleftrightarrow>
     se_policy s' = se_policy s \<and> se_admission s' = se_admission s \<and> se_relay_url s' = se_relay_url s \<and>
     se_read_auth_required s' = se_read_auth_required s \<and>
     se_write_auth_required s' = se_write_auth_required s \<and>
     se_read_membership_required s' = se_read_membership_required s \<and>
     se_write_membership_required s' = se_write_membership_required s"

lemma same_core_config: "same_core s s' \<Longrightarrow> same_config s s'"
  by (simp add: same_core_def same_config_def)

lemma handle_message_config:
  assumes "handle_message env ops mops inp message s = Some (rs, s')"
  shows "same_config s s'"
  using assms
proof (cases rule: handle_message_cases)
  case quiet
  then show ?thesis by (simp add: same_core_config)
next
  case (served sub filters parsed s1)
  with same_core_config [OF served(2)] show ?thesis by (simp add: same_config_def)
next
  case (closed sub s1)
  with same_core_config [OF closed(1)] show ?thesis by (simp add: same_config_def)
next
  case (authenticated v e auth s1)
  with same_core_config [OF authenticated(4)] show ?thesis by (simp add: same_config_def)
next
  case (stored v e s1)
  from same_core_config [OF stored(7)] same_core_config [OF store_event_core(1) [OF stored(8)]]
  show ?thesis by (simp add: same_config_def)
qed

lemma session_run_config: "session_run env ops mops s0 out s \<Longrightarrow> same_config s0 s"
proof (induction rule: session_run.induct)
  case (message out s inp message rs s')
  from handle_message_config [OF message(2)] message(3) show ?case by (simp add: same_config_def)
qed (simp add: same_config_def)

text \<open>What a stored message may change beyond the store: nothing of the registry or of the authentication.\<close>

lemma stored_registry_auth:
  assumes "same_core s s1" and "store_event env ops inp e s1 = Some (rs, s')"
  shows "se_registry s' = se_registry s \<and> se_auth s' = se_auth s"
  using assms(1) store_event_core(1) [OF assms(2)] by (simp add: same_core_def)

section \<open>A sample session\<close>

text \<open>
  Concrete instances of the parameters, for the witnesses: every event message carries the same
  event of the author \<open>k\<close>, an authentication event for the challenge \<open>c\<close>.
\<close>

definition sample_event :: "u32 \<Rightarrow> event" where
  "sample_event kind =
     \<lparr>ev_id = concat (map hex_byte [107]), ev_pubkey = ''k'', ev_created_at = 7, ev_kind = kind,
      ev_tags = [[''challenge'', ''c''], [''relay'', ''wss://r'']], ev_content = ''hi'', ev_sig = ''s''\<rparr>"

definition sample_env :: "u32 \<Rightarrow> session_env" where
  "sample_env kind =
     \<lparr>env_crypto = sample_crypto,
      env_from_str = (\<lambda>input. case input of
         CHR ''r'' # _ \<Rightarrow> Some (JArray [JString ''REQ'', JString ''x'', JObject []])
       | _ \<Rightarrow> Some (JArray [JString ''EVENT'', JNull])),
      env_event_from_json = (\<lambda>_. Some (sample_event kind)), env_event_to_json = (\<lambda>_. JNull),
      env_secret_key = (\<lambda>_. None)\<rparr>"

definition sample_inputs :: call_inputs where
  "sample_inputs = \<lparr>in_now = 7, in_instant = 0, in_invite_code = []\<rparr>"

abbreviation sample_mops :: "in_memory_memberships membership_ops" where
  "sample_mops \<equiv> in_memory_ops bytes_to_hex"

lemma sample_event_verify: "event_verify (env_crypto (sample_env kind)) (sample_event kind) = Ok ()"
  by (simp add: event_verify_def sample_env_def sample_crypto_def sample_event_def canonical_json_def
      canonical_payload_def)

lemma sample_auth:
  assumes "se_auth s = Some \<lparr>au_challenge = ''c'', au_authenticated_pubkey = None\<rparr>" and "se_relay_url s = None"
  shows "handle_message (sample_env 22242) ops mops sample_inputs (ClientAuth JNull) s =
    Some ([ServerOk (ev_id (sample_event 22242)) True ''authenticated''],
      (record_metric ''AUTH'' s)\<lparr>se_auth :=
         Some \<lparr>au_challenge = ''c'', au_authenticated_pubkey = Some ''k''\<rparr>\<rparr>)"
proof -
  have "auth_checks (sample_env 22242) sample_inputs (sample_event 22242) s =
      Ok \<lparr>au_challenge = ''c'', au_authenticated_pubkey = None\<rparr>"
    using assms sample_event_verify [of 22242]
    by (simp add: auth_checks_Ok sample_event_def find_tag_value_def has_name_def relay_tag_error_def
        AUTH_KIND_def AUTH_MAX_SKEW_SECS_def sample_inputs_def i64_abs_def wrap_i64_def)
  then show ?thesis
    by (simp add: handle_message_def handle_auth_def sample_env_def [of 22242] sample_event_def [of 22242])
qed

lemma first_query: "memory_query [f] memory_store_new = Ok []"
  by (simp add: memory_query_def memory_store_new_def ordered_events_def)

lemma sample_req:
  assumes "se_store s = memory_store_new" and "se_rate_limiter s = None" and "se_registry s = []"
    and "\<not> se_read_auth_required s \<or> is_authenticated s" and "\<not> se_read_membership_required s"
    and "max_limit (se_policy s) = None" and "\<not> too_many_subscriptions s ''x''"
  shows "handle_message (sample_env kind) memory_ops mops sample_inputs (ClientReq ''x'' [JObject []]) s =
    Some ([ServerEose ''x''], (record_metric ''REQ'' s)\<lparr>se_registry :=
      [(''x'', \<lparr>ss_eose_sent = True, ss_filters = [empty_filter]\<rparr>)]\<rparr>)"
proof -
  have "parse_filters [JObject []] = Ok [empty_filter]"
    by (simp add: parse_filters_def filter_from_json_def)
  moreover have "virtual_events (sample_env kind) mops sample_inputs [empty_filter] t = (Ok [], t)"
    for t :: "(memory_store, 'a) session"
    by (simp add: virtual_events_def virtual_invites_def filters_request_kind_def empty_filter_def)
  moreover have "rate_limit_request 0 (record_metric ''REQ'' s) = (False, record_metric ''REQ'' s)"
    using assms(2) by (simp add: rate_limit_request_def record_metric_def)
  ultimately show ?thesis
    using assms
    by (simp add: handle_message_def handle_req_def read_checks_def ensure_read_membership_def
        validate_filter_limits_def sample_inputs_def memory_ops_def first_query registry_insert_def mark_eose_def)
qed

section \<open>Subscriptions\<close>

definition registry_ok :: "nat \<Rightarrow> ('s, 'm) session \<Rightarrow> bool" where
  "registry_ok cap s \<longleftrightarrow> max_subscriptions (se_policy s) = Some cap \<and> bt_wf (se_registry s) \<and>
     registry_len (se_registry s) \<le> cap"

lemma handle_message_registry_ok:
  assumes "handle_message env ops mops inp message s = Some (rs, s')" and ok: "registry_ok cap s"
  shows "registry_ok cap s'"
proof -
  have cap: "max_subscriptions (se_policy s') = Some cap"
    using handle_message_config [OF assms(1)] ok by (simp add: same_config_def registry_ok_def)
  from assms(1) have "bt_wf (se_registry s') \<and> registry_len (se_registry s') \<le> cap"
  proof (cases rule: handle_message_cases)
    case quiet
    with ok show ?thesis by (simp add: same_core_def registry_ok_def)
  next
    case (served sub filters parsed s1)
    let ?r = "snd (registry_insert sub parsed (se_registry s))"
    have wf: "bt_wf (se_registry s)" using ok by (simp add: registry_ok_def)
    have "registry_len ?r \<le> cap"
      using ok served(5) wf
      by (auto simp: registry_len_insert registry_ok_def too_many_subscriptions_def)
    then show ?thesis
      using served(3) registry_insert_wf [OF wf] by (simp add: mark_eose_wf registry_len_mark)
  next
    case (closed sub s1)
    with ok registry_len_remove [of "se_registry s" sub] show ?thesis
      by (simp add: registry_ok_def registry_remove_wf)
  next
    case (authenticated v e auth s1)
    with ok show ?thesis by (simp add: same_core_def registry_ok_def)
  next
    case (stored v e s1)
    with ok stored_registry_auth [OF stored(7,8)] show ?thesis by (simp add: registry_ok_def)
  qed
  with cap show ?thesis by (simp add: registry_ok_def)
qed

text \<open>
  C16: whatever messages a client sends and whatever the store, the repositories and the clock answer,
  a session never holds more subscriptions than the policy's cap.\<close>

theorem subscriptions_capped:
  assumes "session_run env ops mops s0 out s" and "se_registry s0 = []"
    and "max_subscriptions (se_policy s0) = Some cap"
  shows "registry_len (se_registry s) \<le> cap"
proof -
  have "registry_ok cap s"
    using assms(1)
  proof (induction rule: session_run.induct)
    case start
    then show ?case
      using assms(2,3) by (simp add: registry_ok_def bt.wf_empty registry_len_def)
  next
    case (message out s inp message rs s')
    then show ?case using handle_message_registry_ok by blast
  qed
  then show ?thesis by (simp add: registry_ok_def)
qed

theorem subscriptions_capped_witness:
  "\<exists>out s. session_run (sample_env 1) memory_ops sample_mops
      (session_with_policy 0 memory_store_new (default_policy\<lparr>max_subscriptions := Some 1\<rparr>)) out s \<and>
    se_registry s \<noteq> [] \<and> registry_len (se_registry s) \<le> 1"
proof -
  let ?init = "session_with_policy 0 memory_store_new (default_policy\<lparr>max_subscriptions := Some 1\<rparr>)
    :: (memory_store, in_memory_memberships) session"
  let ?s = "(record_metric ''REQ'' ?init)\<lparr>se_registry :=
      [(''x'', \<lparr>ss_eose_sent = True, ss_filters = [empty_filter]\<rparr>)]\<rparr>"
  have "handle_message (sample_env 1) memory_ops sample_mops sample_inputs
      (ClientReq ''x'' [JObject []]) ?init = Some ([ServerEose ''x''], ?s)"
    by (rule sample_req) (simp_all add: session_with_policy_def session_base_def default_policy_def
        rate_limit_config_from_policy_def too_many_subscriptions_def registry_len_def registry_contains_def)
  from session_run.message [OF session_run.start this]
  have run: "session_run (sample_env 1) memory_ops sample_mops ?init ([] @ [ServerEose ''x'']) ?s" .
  have "registry_len (se_registry ?s) \<le> 1"
    by (rule subscriptions_capped [OF run])
      (simp_all add: session_with_policy_def session_base_def)
  with run show ?thesis by (intro exI [of _ "[] @ [ServerEose ''x'']"] exI [of _ ?s]) simp
qed

section \<open>Authentication\<close>

text \<open>The proof of identity a session accepts.\<close>

definition proves_identity ::
  "session_env \<Rightarrow> string \<Rightarrow> ('s, 'm) session \<Rightarrow> int \<Rightarrow> event \<Rightarrow> bool" where
  "proves_identity env challenge s now e \<longleftrightarrow>
     event_verify (env_crypto env) e = Ok () \<and> ev_kind e = 22242 \<and>
     find_tag_value (ev_tags e) ''challenge'' = Some challenge \<and>
     (\<exists>tag. find_tag_value (ev_tags e) ''relay'' = Some tag \<and> relay_tag_error s tag = None) \<and>
     i64_abs (wrap_i64 (now - ev_created_at e)) \<le> 600"

definition auth_inv :: "session_env \<Rightarrow> string \<Rightarrow> ('s, 'm) session \<Rightarrow> bool" where
  "auth_inv env challenge s \<longleftrightarrow>
     (\<exists>a. se_auth s = Some a \<and> au_challenge a = challenge \<and>
        (\<forall>pk. au_authenticated_pubkey a = Some pk \<longrightarrow>
           (\<exists>now e. proves_identity env challenge s now e \<and> ev_pubkey e = pk)))"

lemma proves_identity_cong:
  "se_relay_url s' = se_relay_url s \<Longrightarrow>
   proves_identity env challenge s' now e = proves_identity env challenge s now e"
  by (simp add: proves_identity_def relay_tag_error_def)

lemma auth_inv_cong:
  "se_relay_url s' = se_relay_url s \<Longrightarrow> se_auth s' = se_auth s \<Longrightarrow>
   auth_inv env challenge s \<Longrightarrow> auth_inv env challenge s'"
  by (simp add: auth_inv_def proves_identity_cong [of s' s])

lemma handle_message_auth_inv:
  assumes "handle_message env ops mops inp message s = Some (rs, s')" and inv: "auth_inv env challenge s"
  shows "auth_inv env challenge s'"
proof -
  have url: "se_relay_url s' = se_relay_url s"
    using handle_message_config [OF assms(1)] by (simp add: same_config_def)
  from assms(1) show ?thesis
  proof (cases rule: handle_message_cases)
    case quiet
    then show ?thesis by (intro auth_inv_cong [OF url _ inv]) (simp add: same_core_def)
  next
    case (served sub filters parsed s1)
    then show ?thesis by (intro auth_inv_cong [OF url _ inv]) (simp add: same_core_def)
  next
    case (closed sub s1)
    then show ?thesis by (intro auth_inv_cong [OF url _ inv]) (simp add: same_core_def)
  next
    case (authenticated v e auth s1)
    from inv authenticated(3) have "proves_identity env challenge s (in_now inp) e"
      and "au_challenge auth = challenge"
      by (auto simp: auth_inv_def auth_checks_Ok proves_identity_def AUTH_KIND_def AUTH_MAX_SKEW_SECS_def)
    with authenticated(6) url show ?thesis
      by (auto simp: auth_inv_def proves_identity_cong [OF url [symmetric]])
  next
    case (stored v e s1)
    with stored_registry_auth [OF stored(7,8)] show ?thesis
      by (intro auth_inv_cong [OF url _ inv]) simp
  qed
qed


abbreviation sample_auth_session :: "(memory_store, in_memory_memberships) session" where
  "sample_auth_session \<equiv> session_with_policy_and_auth 0 ''c'' memory_store_new default_policy True"


section \<open>Writing\<close>

lemma write_checks_Ok:
  assumes "write_checks env ops mops s e = Ok ()"
  shows "(se_write_auth_required s \<longrightarrow> authenticated_pubkey s = Some (ev_pubkey e)) \<and>
    (se_write_membership_required s \<longrightarrow> require_membership env mops s = Ok ()) \<and>
    check_admission ops s e = Ok ()"
  using assms
  by (auto simp: write_checks_def write_auth_error_def ensure_write_membership_def authenticated_pubkey_def
      split: option.splits sum.splits if_splits)

text \<open>
  C1: the store of a session changes only when it handles an event message whose event is correctly
  signed and within the policy's bounds, whose author is the authenticated key where writing needs
  authentication, who is an active member where writing needs membership, and which the admission
  decision does not reject.\<close>

theorem store_changes_only_by_checked_event:
  assumes "handle_message env ops mops inp message s = Some (rs, s')" and "se_store s' \<noteq> se_store s"
  shows "\<exists>v e. message = ClientEvent v \<and> env_event_from_json env v = Some e \<and>
    event_verify (env_crypto env) e = Ok () \<and> validate_event (se_policy s) e (in_now inp) = Ok () \<and>
    (se_write_auth_required s \<longrightarrow> authenticated_pubkey s = Some (ev_pubkey e)) \<and>
    (se_write_membership_required s \<longrightarrow> require_membership env mops s = Ok ()) \<and>
    check_admission ops s e = Ok ()"
  using assms(1)
proof (cases rule: handle_message_cases)
  case (stored v e s1)
  with write_checks_Ok [OF stored(6)] show ?thesis by blast
qed (use assms(2) in \<open>simp_all add: same_core_def\<close>)

lemma sample_indexed: "indexable (sample_event kind)"
proof -
  have "\<not> blank ''challenge''" "\<not> blank ''c''" "\<not> blank ''relay''" "\<not> blank ''wss://r''"
    by (rule not_blank_lead; simp)+
  then show ?thesis by (simp add: sample_event_def tag_indexable_def)
qed

lemma sample_saved:
  fixes s :: "(memory_store, 'm) session"
  assumes "se_policy s = default_policy" and "se_admission s = None" and "se_rate_limiter s = None"
    and "\<not> se_write_auth_required s" and "\<not> se_write_membership_required s" and "se_store s = memory_store_new"
  shows "\<exists>s'. handle_message (sample_env 1) memory_ops mops sample_inputs (ClientEvent JNull) s =
      Some (ServerOk (ev_id (sample_event 1)) True ''saved'' # dispatch_event (sample_env 1) (sample_event 1) s', s') \<and>
    se_store s' = \<lparr>ms_events = [(ev_id (sample_event 1), sample_event 1)], ms_replaceable = []\<rparr> \<and>
    se_broadcast s' = map_option (\<lambda>sent. sent @ [sample_event 1]) (se_broadcast s) \<and> se_registry s' = se_registry s"
proof -
  have key: "replaceable_key (sample_event 1) = None"
    by (simp add: replaceable_key_def is_replaceable_kind_def is_parameterized_replaceable_kind_def
        sample_event_def word_le_nat_alt)
  have ins: "so_insert memory_ops (sample_event 1) memory_store_new =
      (Ok Inserted, \<lparr>ms_events = [(ev_id (sample_event 1), sample_event 1)], ms_replaceable = []\<rparr>)"
    by (simp add: memory_ops_def memory_insert_def memory_store_new_def key put_event_def)
      (simp add: sample_event_def)
  have "validate_event default_policy (sample_event 1) 7 = Ok ()"
    by (simp add: validate_event_def default_policy_def sample_event_def check_tag_def result_simps
        wrap_i64_def hex_byte_def)
  moreover have "handle_membership_event (sample_env 1) mops (sample_event 1) 7 t = (None, t)"
    for t :: "(memory_store, 'm) session"
    by (simp add: handle_membership_event_def sample_event_def NIP43_JOIN_KIND_def NIP43_LEAVE_KIND_def)
  moreover have "ev_kind (sample_event 1) \<noteq> AUTH_KIND" by (simp add: sample_event_def AUTH_KIND_def)
  ultimately show ?thesis
    using sample_event_verify [of 1] ins assms
    by (simp add: handle_message_def handle_event_def sample_env_def
        record_metric_def rate_limit_event_def sample_inputs_def
        write_checks_def write_auth_error_def ensure_write_membership_def check_admission_def
        store_event_def apply_retention_def broadcast_event_def Let_def default_policy_def)
qed

lemma sample_write:
  fixes s0 :: "(memory_store, in_memory_memberships) session"
  assumes "s0 = session_new 0 memory_store_new"
  shows "\<exists>rs s. handle_message (sample_env 1) memory_ops sample_mops sample_inputs (ClientEvent JNull) s0 =
      Some (rs, s) \<and> se_store s = \<lparr>ms_events = [(ev_id (sample_event 1), sample_event 1)], ms_replaceable = []\<rparr>"
  using sample_saved [of s0 sample_mops] assms
  by (auto simp: session_new_def session_base_def rate_limit_config_from_policy_def default_policy_def)

theorem store_changes_only_by_checked_event_witness:
  "\<exists>rs s. handle_message (sample_env 1) memory_ops sample_mops sample_inputs (ClientEvent JNull)
      (session_new 0 memory_store_new) = Some (rs, s) \<and>
    (\<exists>v e. ClientEvent JNull = ClientEvent v \<and> env_event_from_json (sample_env 1) v = Some e \<and>
       event_verify (env_crypto (sample_env 1)) e = Ok ())"
proof -
  let ?init = "session_new 0 memory_store_new :: (memory_store, in_memory_memberships) session"
  obtain rs s where step: "handle_message (sample_env 1) memory_ops sample_mops sample_inputs
      (ClientEvent JNull) ?init = Some (rs, s)"
    and st: "se_store s = \<lparr>ms_events = [(ev_id (sample_event 1), sample_event 1)], ms_replaceable = []\<rparr>"
    using sample_write by blast
  have "se_store s \<noteq> se_store ?init"
    by (simp add: st session_new_def session_base_def memory_store_new_def)
  from store_changes_only_by_checked_event [OF step this] step show ?thesis by blast
qed

section \<open>Reading\<close>

definition read_inv :: "('s, 'm) session \<Rightarrow> server_message list \<Rightarrow> bool" where
  "read_inv s out \<longleftrightarrow>
     se_read_auth_required s \<and> (\<not> is_authenticated s \<longrightarrow> se_registry s = [] \<and> no_events out)"

lemma no_events_append [simp]: "no_events (a @ b) \<longleftrightarrow> no_events a \<and> no_events b"
  by (auto simp: no_events_def)

lemma handle_message_read_inv:
  assumes "handle_message env ops mops inp message s = Some (rs, s')" and inv: "read_inv s out"
  shows "read_inv s' (out @ rs)"
proof -
  have req: "se_read_auth_required s'"
    using handle_message_config [OF assms(1)] inv by (simp add: same_config_def read_inv_def)
  from assms(1) show ?thesis
  proof (cases rule: handle_message_cases)
    case quiet
    with inv req same_core_auth [OF quiet(1)] show ?thesis by (simp add: read_inv_def same_core_def)
  next
    case (served sub filters parsed s1)
    with inv have "is_authenticated s" by (simp add: read_inv_def)
    with served same_core_auth [OF served(2)] have "is_authenticated s'"
      by (simp add: is_authenticated_def)
    with req show ?thesis by (simp add: read_inv_def)
  next
    case (closed sub s1)
    with inv req same_core_auth [OF closed(1)] show ?thesis
      by (simp add: read_inv_def registry_remove_def bt_remove_def is_authenticated_def)
  next
    case (authenticated v e auth s1)
    then show ?thesis using req by (simp add: read_inv_def is_authenticated_def)
  next
    case (stored v e s1)
    note same = stored_registry_auth [OF stored(7,8)]
    have "se_registry s = [] \<Longrightarrow> no_events rs"
      using store_event_core(2) [OF stored(8)] stored(7) by (simp add: same_core_def)
    with inv req same show ?thesis by (simp add: read_inv_def is_authenticated_def)
  qed
qed



end
