(* ===== verification/Relay_Session_Live.thy ===== *)
theory Relay_Session_Live
  imports Relay_Session_Safety
begin

text \<open>
  What a session achieves: the rate limit lets at most the allowed number through a window,
  retention ends and leaves nothing old, every message is answered, a join uses up its invite, and
  what the related-events check and the clock-skew check of the code amount to.
\<close>

section \<open>Rate limits\<close>

text \<open>The answers of the limiter to calls at a list of instants.\<close>

fun limit_answers :: "rate_limit_counter \<Rightarrow> nat \<Rightarrow> nat \<Rightarrow> nat list \<Rightarrow> bool list" where
  "limit_answers c limit window [] = []"
| "limit_answers c limit window (t # ts) =
     (case hit_limit t c (Some limit) window of (hit, c') \<Rightarrow> hit # limit_answers c' limit window ts)"

lemma limit_answers_bound:
  assumes "0 < limit" and "\<forall>t \<in> set ts. t - ct_window_start c < window"
  shows "length (filter Not (limit_answers c limit window ts)) \<le> limit - ct_count c"
  using assms
proof (induction ts arbitrary: c)
  case Nil
  then show ?case by simp
next
  case (Cons t ts)
  show ?case
  proof (cases "ct_count c < limit")
    case True
    let ?c = "c\<lparr>ct_count := ct_count c + 1\<rparr>"
    have "hit_limit t c (Some limit) window = (False, ?c)"
      using Cons.prems True by (auto simp: hit_limit_def Let_def)
    moreover have "length (filter Not (limit_answers ?c limit window ts)) \<le> limit - ct_count ?c"
      using Cons.prems by (intro Cons.IH) auto
    ultimately show ?thesis using True by simp
  next
    case False
    have "hit_limit t c (Some limit) window = (True, c)"
      using Cons.prems False by (auto simp: hit_limit_def Let_def)
    with Cons show ?thesis by simp
  qed
qed

text \<open>
  Once a window has begun, at most the configured number of calls is let through before it ends,
  however many calls there are and however they are spread over the window.\<close>

theorem rate_limit_bound:
  assumes "0 < limit" and "hit_limit t0 c (Some limit) window = (hit, c')"
    and "t0 - ct_window_start c \<ge> window"
    and "\<forall>t \<in> set ts. t - t0 < window"
  shows "length (filter Not (hit # limit_answers c' limit window ts)) \<le> limit"
proof -
  have c': "c' = \<lparr>ct_count = 1, ct_window_start = t0\<rparr>" and hit: "\<not> hit"
    using assms(1-3) by (auto simp: hit_limit_def Let_def)
  have "length (filter Not (limit_answers c' limit window ts)) \<le> limit - 1"
    using limit_answers_bound [of limit ts c' window] assms(1,4) by (simp add: c')
  with assms(1) hit show ?thesis by simp
qed

theorem rate_limit_bound_witness:
  "length (filter Not (False # limit_answers \<lparr>ct_count = 1, ct_window_start = 60\<rparr> 2 60 [61, 62, 63])) \<le> 2"
proof (rule rate_limit_bound)
  show "hit_limit 60 \<lparr>ct_count = 5, ct_window_start = 0\<rparr> (Some 2) 60 =
      (False, \<lparr>ct_count = 1, ct_window_start = 60\<rparr>)"
    by (simp add: hit_limit_def)
qed simp_all

section \<open>Retention\<close>

context event_store
begin

lemma delete_all_effect:
  assumes "inv st" and "delete_all ops es st = (r, st')"
  shows "inv st' \<and>
    (r = Ok () \<longrightarrow> dom (abs st') = dom (abs st) - ev_id ` set es)"
  using assms
proof (induction es arbitrary: st)
  case Nil
  then show ?case by auto
next
  case (Cons e es)
  obtain q st1 where del: "so_delete ops (ev_id e) st = (q, st1)" by fastforce
  have st1: "inv st1" using delete_inv [OF Cons.prems(1), of "ev_id e"] del by simp
  show ?case
  proof (cases q)
    case (Inl err)
    with Cons.prems(2) del st1 show ?thesis by auto
  next
    case (Inr b)
    with Cons.prems(2) del have rest: "delete_all ops es st1 = (r, st')" by simp
    have "abs st1 = (abs st)(ev_id e := None)"
      using delete_abs [OF Cons.prems(1)] del Inr by blast
    with Cons.IH [OF st1 rest] show ?thesis by (auto split: if_splits)
  qed
qed

text \<open>The loop ends because every round that goes on removes at least one event.\<close>

lemma retention_loop_ends:
  "inv st \<Longrightarrow> \<exists>r st'. retention_loop ops f st = Some (r, st') \<and> inv st' \<and>
    (r = Ok () \<longrightarrow> so_query ops [f] st' = Ok [])"
proof (induction "card (dom (abs st))" arbitrary: st rule: less_induct)
  case less
  note inv = \<open>inv st\<close>
  show ?case
  proof (cases "so_query ops [f] st")
    case (Inl err)
    with inv show ?thesis by (simp add: retention_loop.simps [of ops f st])
  next
    case (Inr es)
    show ?thesis
    proof (cases "es = []")
      case True
      with Inr inv show ?thesis by (simp add: retention_loop.simps [of ops f st])
    next
      case False
      obtain r st1 where del: "delete_all ops es st = (r, st1)" by fastforce
      note eff = delete_all_effect [OF inv del]
      show ?thesis
      proof (cases r)
        case (Inl err)
        with Inr False del eff show ?thesis by (simp add: retention_loop.simps [of ops f st])
      next
        case r: (Inr u)
        obtain e where e: "e \<in> set es" using False by (cases es) auto
        have "abs st (ev_id e) = Some e" using query_sound [OF inv Inr e] by blast
        then have "ev_id e \<in> dom (abs st)" by blast
        with e r eff have "dom (abs st1) \<subset> dom (abs st)" by auto
        then have "card (dom (abs st1)) < card (dom (abs st))"
          using finite_abs [OF inv] by (rule psubset_card_mono [rotated])
        from less.hyps [OF this] eff have
          "\<exists>r st'. retention_loop ops f st1 = Some (r, st') \<and> inv st' \<and>
             (r = Ok () \<longrightarrow> so_query ops [f] st' = Ok [])" by blast
        then show ?thesis using Inr False del r by (simp add: retention_loop.simps [of ops f st])
      qed
    qed
  qed
qed

lemma apply_retention_ends:
  assumes "inv st"
  shows "\<exists>r st'. apply_retention ops now p st = Some (r, st') \<and> inv st'"
  using assms retention_loop_ends [OF assms]
  by (cases "retention_max_age_seconds p") (auto simp: apply_retention_def, metis)

lemma apply_retention_cleans:
  assumes "inv st" and "apply_retention ops now p st = Some (Ok (), st')"
    and "retention_max_age_seconds p = Some age" and "0 < age" and "abs st' i = Some e"
  shows "\<not> event_matches (retention_filter (saturate_i64 (now - age))) e"
proof -
  let ?f = "retention_filter (saturate_i64 (now - age))"
  have "retention_loop ops ?f st = Some (Ok (), st')"
    using assms(2-4) by (simp add: apply_retention_def)
  with retention_loop_ends [OF assms(1), of ?f] have "inv st'" "so_query ops [?f] st' = Ok []" by auto
  then show ?thesis
    using query_empty [OF _ _ _ assms(5), of ?f] by (simp add: retention_filter_def)
qed

lemma store_event_ends:
  assumes "inv (se_store s)"
  shows "\<exists>rs s'. store_event env ops inp e s = Some (rs, s') \<and> inv (se_store s')"
proof -
  obtain r st where ins: "so_insert ops e (se_store s) = (r, st)" by fastforce
  have st: "inv st" using insert_inv [OF assms, of e] ins by simp
  obtain r' st' where ret: "apply_retention ops (in_now inp) (se_policy s) st = Some (r', st')" "inv st'"
    using apply_retention_ends [OF st] by blast
  show ?thesis
    using ins st ret
    by (simp add: store_event_def Let_def split: sum.split store_outcome.split)
qed

lemma handle_message_ends:
  assumes "inv (se_store s)"
  shows "\<exists>rs s'. handle_message env ops mops inp message s = Some (rs, s') \<and> inv (se_store s')"
proof (cases message)
  case (ClientEvent v)
  let ?s = "record_metric ''EVENT'' s"
  have msg: "handle_message env ops mops inp message s = handle_event env ops mops inp v ?s"
    using ClientEvent by (simp add: handle_message_def)
  show ?thesis
  proof (cases rule: handle_event_cases [OF refl, of env ops mops inp v ?s])
    case (1 rs s')
    with assms msg show ?thesis by (simp add: same_core_def)
  next
    case (2 e s1)
    have "inv (se_store s1)" using 2(1) assms by (simp add: same_core_def)
    from store_event_ends [OF this] 2(8) msg show ?thesis by metis
  qed
next
  case (ClientReq sub filters)
  obtain rs s' where h: "handle_req env ops mops inp sub filters (record_metric ''REQ'' s) = (rs, s')"
    by fastforce
  then have "se_store s' = se_store s"
    by (cases rule: handle_req_cases) (simp_all add: same_core_def)
  with h ClientReq assms show ?thesis by (simp add: handle_message_def)
next
  case (ClientClose sub)
  then show ?thesis using assms by (simp add: handle_message_def handle_close_def)
next
  case (ClientAuth v)
  obtain rs s' where h: "handle_auth env inp v (record_metric ''AUTH'' s) = (rs, s')" by fastforce
  then have "se_store s' = se_store s" by (cases rule: handle_auth_cases) simp_all
  with h ClientAuth assms show ?thesis by (simp add: handle_message_def)
next
  case (ClientCount sub filters)
  obtain rs s' where h: "handle_count env ops mops inp sub filters (record_metric ''COUNT'' s) = (rs, s')"
    by fastforce
  with handle_count_core [OF h] ClientCount assms show ?thesis
    by (simp add: handle_message_def same_core_def)
qed

end

text \<open>
  C17: on the in-memory store every client message is answered: in particular the retention loop that
  runs after a stored event ends, whatever the store holds.\<close>

theorem every_message_answered:
  assumes "store_run (se_store s)"
  shows "\<exists>rs s'. handle_message env memory_ops mops inp message s = Some (rs, s') \<and> store_inv (se_store s')"
  using memory.handle_message_ends [OF store_run_inv [OF assms]] .

theorem every_message_answered_witness:
  "\<exists>rs s'. handle_message (sample_env 1) memory_ops sample_mops sample_inputs (ClientEvent JNull)
     (session_with_policy 0 memory_store_new (default_policy\<lparr>retention_max_age_seconds := Some 5\<rparr>)) =
       Some (rs, s') \<and> store_inv (se_store s')"
  by (rule every_message_answered) (simp add: session_with_policy_def session_base_def store_run.new)

text \<open>
  When retention reports success, no event with well-formed tags that is older than the maximal
  age is left in the store.\<close>

theorem retention_leaves_nothing_old:
  assumes "store_run st" and "apply_retention memory_ops now p st = Some (Ok (), st')"
    and "retention_max_age_seconds p = Some age" and "0 < age"
    and "memory_get i st' = Some e" and "indexable e"
  shows "saturate_i64 (now - age) < ev_created_at e"
proof -
  obtain idx where idx: "tag_index_from_tags (ev_tags e) = Ok idx" using tag_index_total assms(6) by blast
  have "\<not> event_matches (retention_filter (saturate_i64 (now - age))) e"
    using memory.apply_retention_cleans [OF store_run_inv [OF assms(1)] assms(2-4)] assms(5)
    by (simp add: memory_get_def store_map_def)
  then show ?thesis
    by (simp add: event_matches_def idx filter_matches_def retention_filter_def empty_filter_def
        split: if_splits)
qed

theorem retention_leaves_nothing_old_witness:
  "let st = snd (memory_insert (sample_event 1) memory_store_new);
       p = default_policy\<lparr>retention_max_age_seconds := Some 3\<rparr>
   in apply_retention memory_ops 8 p st = Some (Ok (), st) \<and> saturate_i64 (8 - 3) < ev_created_at (sample_event 1)"
proof -
  let ?st = "snd (memory_insert (sample_event 1) memory_store_new)"
  let ?p = "default_policy\<lparr>retention_max_age_seconds := Some 3\<rparr>"
  have st: "?st = \<lparr>ms_events = [(ev_id (sample_event 1), sample_event 1)], ms_replaceable = []\<rparr>"
    by (rule first_note) (simp add: sample_event_def)
  have run: "store_run ?st" by (intro store_run.intros)
  note ok = sample_indexed [of 1]
  then obtain idx where idx: "tag_index_from_tags (ev_tags (sample_event 1)) = Ok idx"
    using tag_index_total by blast
  have "so_query memory_ops [retention_filter (saturate_i64 (8 - 3))] ?st = Ok []"
    unfolding st
    by (simp add: memory_ops_def memory_query_def ordered_events_def idx retention_filter_def filter_limit_def
        filter_matches_def empty_filter_def saturate_i64_def i64_min_def i64_max_def)
      (simp add: sample_event_def)
  then have ret: "apply_retention memory_ops 8 ?p ?st = Some (Ok (), ?st)"
    by (simp add: apply_retention_def retention_loop.simps [of memory_ops])
  have get: "memory_get (ev_id (sample_event 1)) ?st = Some (sample_event 1)"
    unfolding st by (simp add: memory_get_def)
  have "saturate_i64 (8 - 3) < ev_created_at (sample_event 1)"
    by (rule retention_leaves_nothing_old [OF run ret _ _ get ok]) simp_all
  with ret show ?thesis unfolding Let_def by blast
qed

section \<open>Joining\<close>

context membership_repo
begin

lemma join_accepted:
  assumes inv: "inv m" and join: "membership_join ops t e pk now m = (''accepted'', rs, m')"
  shows "\<exists>code invite r. find_tag_value (ev_tags e) ''claim'' = Some code \<and>
    mo_invite_by_code ops t code m = Ok (Some invite) \<and>
    (\<forall>x. ri_expires_at invite = Some x \<longrightarrow> now \<le> x) \<and>
    (\<forall>k. ri_invitee_pubkey invite = Some k \<longrightarrow> k = pk) \<and>
    mo_membership_by_pubkey ops t pk m' = Ok (Some r) \<and> mr_status r = MEMBERSHIP_STATUS_ACTIVE \<and>
    mr_role r = ri_role invite \<and> mo_invite_by_code ops t code m' = Ok None"
proof -
  obtain code where code: "find_tag_value (ev_tags e) ''claim'' = Some code"
    using join by (auto simp: membership_join_def Let_def split: option.splits)
  obtain invite where invite: "mo_invite_by_code ops t code m = Ok (Some invite)"
    using join code by (auto simp: membership_join_def Let_def split: sum.splits option.splits)
  have valid: "\<not> (case ri_expires_at invite of Some x \<Rightarrow> x < now | None \<Rightarrow> False)"
    "\<not> (case ri_invitee_pubkey invite of Some k \<Rightarrow> k \<noteq> pk | None \<Rightarrow> False)"
    using join code invite by (auto simp: membership_join_def Let_def split: if_splits)
  obtain existing where existing: "membership_by_pubkey_bytes ops m t pk = Ok existing"
    using join code invite valid by (auto simp: membership_join_def Let_def split: sum.splits)
  let ?r = "\<lparr>mr_tenant_id = t, mr_pubkey = pk, mr_role = ri_role invite,
      mr_status = MEMBERSHIP_STATUS_ACTIVE,
      mr_created_at = (case existing of Some r \<Rightarrow> mr_created_at r | None \<Rightarrow> now), mr_updated_at = now\<rparr>"
  have inactive: "\<not> (case existing of Some r \<Rightarrow> mr_status r = MEMBERSHIP_STATUS_ACTIVE | None \<Rightarrow> False)"
    using join code invite valid existing by (auto simp: membership_join_def Let_def split: if_splits)
  from join code invite valid existing inactive obtain u m1 where
    up: "mo_upsert_membership ops ?r m = (Inr u, m1)"
    by (auto simp: membership_join_def Let_def split: prod.splits sum.splits)
  from join code invite valid existing inactive up obtain w where
    "mo_delete_invite ops t code m1 = (Inr w, m')"
    by (auto simp: membership_join_def Let_def split: prod.splits sum.splits)
  with up join_effect [OF inv, of ?r m1 t code m'] code invite valid show ?thesis
    by (auto split: option.splits)
qed

end

text \<open>
  A join request is accepted only with a code of this relay's tenant that has not expired and is
  not reserved for another key; afterwards the key is an active member in the invite's role and the
  code is gone, so that it can be used once.\<close>

theorem join_uses_up_invite:
  assumes "im_inv m" and "membership_join sample_mops t e pk now m = (''accepted'', rs, m')"
  shows "\<exists>code invite r. find_tag_value (ev_tags e) ''claim'' = Some code \<and>
    im_invite_by_code t code m = Some invite \<and>
    (\<forall>x. ri_expires_at invite = Some x \<longrightarrow> now \<le> x) \<and>
    (\<forall>k. ri_invitee_pubkey invite = Some k \<longrightarrow> k = pk) \<and>
    im_membership_by_pubkey bytes_to_hex t pk m' = Some r \<and> mr_status r = ''active'' \<and>
    mr_role r = ri_role invite \<and> im_invite_by_code t code m' = None"
  using hex.in_memory.join_accepted [OF assms]
  by (simp add: in_memory_ops_def MEMBERSHIP_STATUS_ACTIVE_def)

theorem join_uses_up_invite_witness:
  "let invite = \<lparr>ri_tenant_id = ''t'', ri_invite_code = ''code'', ri_role = ''member'',
         ri_inviter_pubkey = [], ri_invitee_pubkey = None, ri_expires_at = Some 9, ri_created_at = 1\<rparr>;
       m = im_insert_invite invite \<lparr>im_memberships = [], im_invites = []\<rparr>;
       e = (sample_event 28934)\<lparr>ev_tags := [[''claim'', ''code'']]\<rparr>
   in \<exists>rs m'. membership_join sample_mops ''t'' e [1] 5 m = (''accepted'', rs, m') \<and>
        im_invite_by_code ''t'' ''code'' m' = None"
proof -
  let ?invite = "\<lparr>ri_tenant_id = ''t'', ri_invite_code = ''code'', ri_role = ''member'',
         ri_inviter_pubkey = [], ri_invitee_pubkey = None, ri_expires_at = Some 9, ri_created_at = 1\<rparr>"
  let ?m = "im_insert_invite ?invite \<lparr>im_memberships = [], im_invites = []\<rparr>"
  let ?e = "(sample_event 28934)\<lparr>ev_tags := [[''claim'', ''code'']]\<rparr>"
  have inv: "im_inv ?m"
    by (simp add: im_inv_def im_insert_invite_def hm_wf_def)
  have claim: "find_tag_value [[''claim'', ''code'']] ''claim'' = Some ''code''"
    by (simp add: find_tag_value_def has_name_def)
  obtain rs m' where join: "membership_join sample_mops ''t'' ?e [1] 5 ?m = (''accepted'', rs, m')"
    by (simp add: membership_join_def claim in_memory_ops_def im_invite_by_code_def im_insert_invite_def
        invite_key_def membership_by_pubkey_bytes_def im_membership_by_pubkey_def Let_def)
  from join_uses_up_invite [OF inv join] claim join show ?thesis
    unfolding Let_def by fastforce
qed

section \<open>Related events\<close>

lemma check_related_iff:
  "check_related ops st i fs = Ok () \<longleftrightarrow>
     (\<forall>f \<in> set fs. \<exists>es. so_query ops [filter_from_event_filter f] st = Ok es \<and> es \<noteq> [])"
  by (induction ops st i fs rule: check_related.induct) (auto split: sum.splits)

text \<open>
  An event of a kind that is not addressable and that names no other event by identifier is never
  admitted under the related-events decision: the check wants a stored event for every filter, and
  the first filter asks for the event itself, which is not stored yet. An issue or a comment that
  refers to an announced repository only by address is refused.\<close>

theorem address_only_event_never_admitted:
  assumes "store_run st" and "\<not> is_addressable_kind kind"
    and "\<forall>tag \<in> set tags. \<forall>x. \<not> names_id tag x"
    and "\<forall>i e. memory_get i st = Some e \<longrightarrow> \<not> starts_with i event_id"
  shows "check_related memory_ops st event_id
    (build_related_event_filters kind pubkey event_id tags) \<noteq> Ok ()"
proof
  let ?refs = "collect_event_references_with_self kind pubkey event_id tags"
  assume ok: "check_related memory_ops st event_id (build_related_event_filters kind pubkey event_id tags) = Ok ()"
  have ids: "set (er_event_ids ?refs) = {event_id}"
    using assms(2,3) by (simp add: references_with_self_sets)
  let ?f = "with_limit (event_filter_new\<lparr>ef_ids := er_event_ids ?refs\<rparr>) 1"
  have some: "er_event_ids ?refs \<noteq> []" using ids by (metis list.set(1) insert_not_empty)
  then have f: "?f \<in> set (build_related_event_filters kind pubkey event_id tags)"
    by (simp add: build_related_event_filters_def Let_def)
  with ok have "\<exists>es. so_query memory_ops [filter_from_event_filter ?f] st = Ok es \<and> es \<noteq> []"
    unfolding check_related_iff by (rule bspec)
  then obtain es where q: "so_query memory_ops [filter_from_event_filter ?f] st = Ok es" "es \<noteq> []" by blast
  then have es: "so_query memory_ops [filter_from_event_filter ?f] st = Ok es" "hd es \<in> set es" by simp_all
  define e where "e = hd es"
  from memory.query_sound [OF store_run_inv [OF assms(1)] es, folded e_def]
  have get: "memory_get (ev_id e) st = Some e" and hit: "event_matches (filter_from_event_filter ?f) e"
    by (simp_all add: memory_get_def store_map_def)
  from hit have "starts_with (ev_id e) event_id"
    using some
    by (simp add: event_matches_def filter_matches_def filter_from_event_filter_def list_ex_iff ids
        split: sum.splits if_splits)
  with get assms(4) show False by blast
qed

theorem address_only_event_never_admitted_witness:
  "check_related memory_ops (snd (memory_insert (sample_event 1) memory_store_new)) ''new''
     (build_related_event_filters 1621 ''k'' ''new'' [[''a'', ''30617:k:repo'']]) \<noteq> Ok ()"
proof (rule address_only_event_never_admitted)
  show "store_run (snd (memory_insert (sample_event 1) memory_store_new))" by (intro store_run.intros)
  have "snd (memory_insert (sample_event 1) memory_store_new) =
      \<lparr>ms_events = [(ev_id (sample_event 1), sample_event 1)], ms_replaceable = []\<rparr>"
    by (rule first_note) (simp add: sample_event_def)
  then show "\<forall>i e. memory_get i (snd (memory_insert (sample_event 1) memory_store_new)) = Some e \<longrightarrow>
      \<not> starts_with i ''new''"
    by (auto simp: memory_get_def starts_with_def sample_event_def hex_byte_def split: if_splits)
qed (simp_all add: is_addressable_kind_def ADDRESSABLE_KIND_START_def word_le_nat_alt)

section \<open>Clock skew\<close>

text \<open>
  The skew check of authentication accepts exactly the times within ten minutes of the clock,
  and one more: the time two to the 63 seconds before the clock, whose difference wraps to the least
  64-bit integer, of which the absolute value is negative.\<close>

theorem auth_skew_exact:
  assumes "0 \<le> now" and "now < 2 ^ 62" and "in_i64 t"
  shows "i64_abs (wrap_i64 (now - t)) \<le> AUTH_MAX_SKEW_SECS \<longleftrightarrow> \<bar>now - t\<bar> \<le> 600 \<or> t = now - 2 ^ 63"
proof (cases "in_i64 (now - t)")
  case True
  note w = wrap_i64_id [OF True]
  show ?thesis
  proof (cases "now - t = - (2 ^ 63)")
    case True
    with assms show ?thesis by (simp add: in_i64_def i64_min_def i64_max_def)
  next
    case False
    with True have "in_i64 \<bar>now - t\<bar>" by (auto simp: in_i64_def i64_min_def i64_max_def)
    with True assms show ?thesis
      by (auto simp: w i64_abs_def wrap_i64_id AUTH_MAX_SKEW_SECS_def in_i64_def i64_min_def i64_max_def)
  qed
next
  case False
  with assms have big: "2 ^ 63 \<le> now - t" "now - t < 2 ^ 64 - 600"
    by (auto simp: in_i64_def i64_min_def i64_max_def)
  then have w: "wrap_i64 (now - t) = now - t - 2 ^ 64"
    by (simp add: wrap_i64_def) (simp add: mod_pos_pos_trivial minus_mod_self2 [symmetric, of "now - t + _"])
  show ?thesis
  proof (cases "now - t = 2 ^ 63")
    case True
    then show ?thesis by (simp add: w i64_abs_def wrap_i64_def AUTH_MAX_SKEW_SECS_def)
  next
    case False
    with big have "in_i64 \<bar>now - t - 2 ^ 64\<bar>" "600 < \<bar>now - t - 2 ^ 64\<bar>"
      by (auto simp: in_i64_def i64_min_def i64_max_def)
    with False big show ?thesis
      by (simp add: w i64_abs_def wrap_i64_id AUTH_MAX_SKEW_SECS_def)
  qed
qed

theorem auth_skew_exact_witness:
  "i64_abs (wrap_i64 (1700000000 - (1700000000 - 2 ^ 63))) \<le> AUTH_MAX_SKEW_SECS"
  by (subst auth_skew_exact) (simp_all add: in_i64_def i64_min_def i64_max_def)

end
