(* ===== verification/Rust_Hex.thy ===== *)
theory Rust_Hex
  imports Storage_Membership
begin

text \<open>
  The contract of the crate \<open>hex\<close> the components rely on: the decoder undoes the encoder, reads
  upper-case digits too, takes two digits for a byte and keeps the order (locale \<open>hex_pair\<close>). The crate is code
  outside the repository and a parameter of the model; \<open>bytes_of_hex\<close> with the encoder of
  \<open>repo_path.rs\<close> is a pair of functions that satisfies the contract.
\<close>

locale hex_pair = hex_codec enc for enc :: "u8 list \<Rightarrow> string" +
  fixes dec :: "string \<Rightarrow> u8 list option"
  assumes dec_enc: "dec (enc bs) = Some bs"
    and enc_dec: "dec s = Some bs \<Longrightarrow> enc bs = to_ascii_lowercase s"
    and enc_hex: "is_hex_len (enc bs) (2 * length bs)"
    and enc_mono: "enc a \<le> enc b \<longleftrightarrow> a \<le> b"
begin

lemma dec_length: "dec s = Some bs \<Longrightarrow> length s = 2 * length bs"
  using enc_dec [of s bs] enc_hex [of bs] by (simp add: is_hex_len_def to_ascii_lowercase_def)

lemma dec_lower:
  assumes "to_ascii_lowercase s = s"
  shows "dec s = Some bs \<longleftrightarrow> (s = enc bs)"
proof
  assume "dec s = Some bs"
  then show "s = enc bs" using enc_dec assms by simp
qed (simp add: dec_enc)

text \<open>A text of the length of an encoded key is a prefix of it only if it is all of it.\<close>

lemma prefix_enc:
  assumes "length s = 2 * length bs"
  shows "prefix s (enc bs) \<longleftrightarrow> s = enc bs"
proof
  assume "prefix s (enc bs)"
  then obtain t where t: "enc bs = s @ t" by (auto simp: prefix_def)
  then have "length t = 0" using assms enc_hex [of bs] by (simp add: is_hex_len_def)
  with t show "s = enc bs" by simp
qed simp

end

definition hex_value :: "char \<Rightarrow> nat option" where
  "hex_value c =
     (if is_ascii_digit c then Some (byte c - 48)
      else if 97 \<le> byte c \<and> byte c \<le> 102 then Some (byte c - 87)
      else if 65 \<le> byte c \<and> byte c \<le> 70 then Some (byte c - 55) else None)"

fun bytes_of_hex :: "string \<Rightarrow> u8 list option" where
  "bytes_of_hex [] = Some []"
| "bytes_of_hex [c] = None"
| "bytes_of_hex (a # b # s) =
     (case (hex_value a, hex_value b) of
        (Some x, Some y) \<Rightarrow> map_option (\<lambda>bs. of_nat (16 * x + y) # bs) (bytes_of_hex s)
      | _ \<Rightarrow> None)"

lemma hex_value_less: "hex_value c = Some n \<Longrightarrow> n < 16"
  by (auto simp: hex_value_def is_ascii_digit_def split: if_splits)

lemma hex_value_digit: "n < 16 \<Longrightarrow> hex_value (hex_digit n) = Some n"
  by (simp add: hex_value_def is_ascii_digit_def hex_digit_byte)

lemma hex_digit_value:
  assumes "hex_value c = Some n"
  shows "hex_digit n = (if 65 \<le> byte c \<and> byte c \<le> 90 then char_of (byte c + 32) else c)"
proof -
  have "char_of (byte c) = c" by simp
  moreover have "(if n < 10 then 48 + n else 87 + n) =
      (if 65 \<le> byte c \<and> byte c \<le> 90 then byte c + 32 else byte c)"
    using assms by (auto simp: hex_value_def is_ascii_digit_def split: if_splits)
  ultimately show ?thesis by (auto simp: hex_digit_def split: if_splits)
qed

lemma hex_byte_values:
  assumes "x < 16" and "y < 16"
  shows "hex_byte (of_nat (16 * x + y)) = [hex_digit x, hex_digit y]"
proof -
  have "16 * x + y < 256" using assms by simp
  then have "unat (of_nat (16 * x + y) :: u8) = 16 * x + y"
    by (subst unat_of_nat) simp
  then show ?thesis using assms(2) by (simp add: hex_byte_def)
qed

lemma bytes_of_hex_byte: "bytes_of_hex (hex_byte b @ s) = map_option (\<lambda>bs. b # bs) (bytes_of_hex s)"
proof -
  have "unat b < 256" using unsigned_less [of b, where 'a = nat] by simp
  then have "unat b div 16 < 16" "unat b mod 16 < 16" by simp_all
  then have "bytes_of_hex (hex_byte b @ s) =
      map_option (\<lambda>bs. of_nat (16 * (unat b div 16) + unat b mod 16) # bs) (bytes_of_hex s)"
    by (simp add: hex_byte_def hex_value_digit)
  then show ?thesis by simp
qed

lemma bytes_of_hex_encoded: "bytes_of_hex (bytes_to_hex bs) = Some bs"
  by (induction bs) (simp_all add: bytes_to_hex_def bytes_of_hex_byte)

lemma bytes_of_hex_lower: "bytes_of_hex s = Some bs \<Longrightarrow> bytes_to_hex bs = to_ascii_lowercase s"
proof (induction s arbitrary: bs rule: bytes_of_hex.induct)
  case 1
  then show ?case by (simp add: bytes_to_hex_def to_ascii_lowercase_def)
next
  case (3 a b s)
  then obtain x y rest where v: "hex_value a = Some x" "hex_value b = Some y"
    and bs: "bytes_of_hex s = Some rest" "bs = of_nat (16 * x + y) # rest"
    by (auto split: option.splits)
  have "bytes_to_hex bs = hex_byte (of_nat (16 * x + y)) @ bytes_to_hex rest"
    using bs(2) by (simp add: bytes_to_hex_def)
  also have "\<dots> = [hex_digit x, hex_digit y] @ to_ascii_lowercase s"
    using 3(1) [OF refl v bs(1)] hex_byte_values [OF hex_value_less [OF v(1)] hex_value_less [OF v(2)]]
    by (simp only: append_Cons append_Nil)
  finally show ?case using hex_digit_value v by (simp add: to_ascii_lowercase_def)
qed simp

lemma hex_digit_less: "a < 16 \<Longrightarrow> b < 16 \<Longrightarrow> hex_digit a < hex_digit b \<longleftrightarrow> a < b"
  by (simp add: less_char_def hex_digit_byte)

lemma nibbles_less:
  "(x::nat) < y \<longleftrightarrow> x div 16 < y div 16 \<or> x div 16 = y div 16 \<and> x mod 16 < y mod 16"
proof -
  have split: "16 * q + r < 16 * q' + r' \<longleftrightarrow> q < q' \<or> q = q' \<and> r < r'" if "r < 16" "r' < 16" for q r q' r' :: nat
    using that by arith
  have "16 * (x div 16) + x mod 16 < 16 * (y div 16) + y mod 16 \<longleftrightarrow>
      x div 16 < y div 16 \<or> x div 16 = y div 16 \<and> x mod 16 < y mod 16"
    by (rule split) simp_all
  then show ?thesis by simp
qed

lemma hex_byte_less: "hex_byte a @ s < hex_byte b @ t \<longleftrightarrow> a < b \<or> a = b \<and> s < t"
proof -
  have small: "unat x div 16 < 16" for x :: u8
    using unsigned_less [of x, where 'a = nat] by simp
  have "a < b \<longleftrightarrow> unat a div 16 < unat b div 16 \<or> unat a div 16 = unat b div 16 \<and> unat a mod 16 < unat b mod 16"
    unfolding word_less_nat_alt by (rule nibbles_less)
  moreover have "a = b \<longleftrightarrow> unat a div 16 = unat b div 16 \<and> unat a mod 16 = unat b mod 16"
    by (metis div_mult_mod_eq word_unat_eq_iff)
  ultimately show ?thesis
    using small [of a] small [of b]
    by (auto simp: hex_byte_def hex_digit_less hex_digit_inj)
qed

lemma bytes_to_hex_less: "bytes_to_hex a < bytes_to_hex b \<longleftrightarrow> a < b"
proof (induction a arbitrary: b)
  case Nil
  then show ?case by (cases b) (simp_all add: bytes_to_hex_def hex_byte_def)
next
  case (Cons x xs)
  then show ?case by (cases b) (simp_all add: bytes_to_hex_def hex_byte_less)
qed

lemma bytes_to_hex_mono: "bytes_to_hex a \<le> bytes_to_hex b \<longleftrightarrow> a \<le> b"
  using bytes_to_hex_less [of b a] by (simp add: linorder_not_less [symmetric])

interpretation hex_bytes: hex_pair bytes_to_hex bytes_of_hex
  by unfold_locales (simp_all add: bytes_of_hex_encoded bytes_of_hex_lower bytes_to_hex_is_hex bytes_to_hex_mono)

end
