(* ===== verification/Storage_Events.thy ===== *)
theory Storage_Events
  imports Rust_Hex Relay_Event "HOL-Library.Product_Lexorder"
begin

text \<open>
  Stored events: \<open>crates/storage/src/event.rs\<close>, the trait \<open>EventRepository\<close> and its in-memory
  implementation (\<open>crates/storage/src/repositories.rs\<close>). The repository keeps one record for an
  event identifier, whoever its tenant is; look-ups compare the tenant. Identifiers and keys are
  bytes, coded by the crate \<open>hex\<close>, whose functions are parameters.
\<close>

section \<open>Maps of lists\<close>

text \<open>Pushing values under a name, one at a time: every name has its values, in order.\<close>

locale group_map = key_map put del wf
  for put :: "'k \<Rightarrow> 'v list \<Rightarrow> ('k, 'v list) entries \<Rightarrow> ('k, 'v list) entries"
    and del :: "'k \<Rightarrow> ('k, 'v list) entries \<Rightarrow> ('k, 'v list) entries"
    and wf :: "('k, 'v list) entries \<Rightarrow> bool"
begin

lemma push_all:
  assumes "\<And>m x. push m x = put (key x) ((case map_of m (key x) of Some vs \<Rightarrow> vs | None \<Rightarrow> []) @ [val x]) m"
  shows "wf (foldl push [] xs) \<and> map_of (foldl push [] xs) k =
    (case filter (\<lambda>x. key x = k) xs of [] \<Rightarrow> None | ys \<Rightarrow> Some (map val ys))"
proof (induction xs arbitrary: k rule: rev_induct)
  case Nil
  then show ?case by (simp add: wf_empty)
next
  case (snoc x xs)
  have wf: "wf (foldl push [] xs)" using snoc by blast
  moreover have "map_of (foldl push [] xs) (key x) =
      (case filter (\<lambda>y. key y = key x) xs of [] \<Rightarrow> None | ys \<Rightarrow> Some (map val ys))" using snoc by blast
  ultimately show ?case
    using snoc [of k] by (auto simp: assms wf_put get_put split: list.splits)
qed

end

interpretation bt_group: group_map bt_insert bt_remove bt_wf ..

interpretation hm_group: group_map hm_insert AList.delete hm_wf ..

section \<open>Records\<close>

definition HEX_64_LEN :: nat where "HEX_64_LEN = 128"

record tag_record =
  tr_name :: string
  tr_value :: string

definition tag_record_new :: "string \<Rightarrow> string \<Rightarrow> tag_record" where
  "tag_record_new name v = \<lparr>tr_name = name, tr_value = v\<rparr>"

record event_record =
  xr_tenant_id :: string
  xr_id :: "u8 list"
  xr_pubkey :: "u8 list"
  xr_created_at :: int
  xr_kind :: u32
  xr_content :: string
  xr_sig :: "u8 list"
  xr_tags :: "tag_record list"

record event_query =
  eq_tenant_id :: "string option"
  eq_ids :: "string list"
  eq_authors :: "string list"
  eq_kinds :: "u32 list"
  eq_since :: "int option"
  eq_until :: "int option"
  eq_tags :: "tag_record list"
  eq_limit :: "nat option"

definition default_query :: event_query where
  "default_query =
     \<lparr>eq_tenant_id = None, eq_ids = [], eq_authors = [], eq_kinds = [], eq_since = None,
      eq_until = None, eq_tags = [], eq_limit = None\<rparr>"

definition query_for_tenant :: "string \<Rightarrow> event_query" where
  "query_for_tenant tenant = default_query\<lparr>eq_tenant_id := Some tenant\<rparr>"

definition query_for_ids :: "string list \<Rightarrow> event_query" where
  "query_for_ids ids = default_query\<lparr>eq_ids := ids\<rparr>"

definition query_for_authors :: "string list \<Rightarrow> event_query" where
  "query_for_authors authors = default_query\<lparr>eq_authors := authors\<rparr>"

definition query_for_kinds :: "u32 list \<Rightarrow> event_query" where
  "query_for_kinds kinds = default_query\<lparr>eq_kinds := kinds\<rparr>"

definition query_for_tag :: "string \<Rightarrow> string list \<Rightarrow> event_query" where
  "query_for_tag name values = default_query\<lparr>eq_tags := map (tag_record_new name) values\<rparr>"

definition tag_problem :: "string \<Rightarrow> storage_error" where
  "tag_problem what = StorageInvalidField ''tags'' what"

definition flatten_value ::
  "string \<Rightarrow> tag_record list \<Rightarrow> string \<Rightarrow> (storage_error, tag_record list) result" where
  "flatten_value name records v =
     (if v = [] then Err (tag_problem ''empty tag value'')
      else Ok (records @ [\<lparr>tr_name = name, tr_value = v\<rparr>]))"

definition flatten_tag :: "tag_record list \<Rightarrow> tag \<Rightarrow> (storage_error, tag_record list) result" where
  "flatten_tag records tag =
     (case tag of
        [] \<Rightarrow> Err (tag_problem ''empty tag'')
      | name # values \<Rightarrow>
          (if name = [] then Err (tag_problem ''empty tag name'')
           else try_fold (flatten_value name) records values))"

definition flatten_tags :: "tag list \<Rightarrow> (storage_error, tag_record list) result" where
  "flatten_tags tags = try_fold flatten_tag [] tags"

definition decode_hex_field ::
  "hex_decoder \<Rightarrow> string \<Rightarrow> string \<Rightarrow> nat \<Rightarrow> (storage_error, u8 list) result" where
  "decode_hex_field dec field v expected_len =
     (if length v \<noteq> expected_len then Err (StorageInvalidHex field v)
      else ok_or (StorageInvalidHex field v) (dec v))"

definition event_record_new ::
  "hex_decoder \<Rightarrow> string \<Rightarrow> string \<Rightarrow> string \<Rightarrow> int \<Rightarrow> u32 \<Rightarrow> string \<Rightarrow> string \<Rightarrow> tag list \<Rightarrow>
   (storage_error, event_record) result" where
  "event_record_new dec tenant_id i pubkey created_at kind content sig tags =
     and_then (flatten_tags tags) (\<lambda>records.
     and_then (ensure (\<not> blank tenant_id) (StorageInvalidField ''tenant_id'' tenant_id)) (\<lambda>_.
     and_then (decode_hex_field dec ''id'' i HEX_32_LEN) (\<lambda>id_bytes.
     and_then (decode_hex_field dec ''pubkey'' pubkey HEX_32_LEN) (\<lambda>pubkey_bytes.
     and_then (decode_hex_field dec ''sig'' sig HEX_64_LEN) (\<lambda>sig_bytes.
     Ok \<lparr>xr_tenant_id = tenant_id, xr_id = id_bytes, xr_pubkey = pubkey_bytes,
         xr_created_at = created_at, xr_kind = kind, xr_content = content, xr_sig = sig_bytes,
         xr_tags = records\<rparr>)))))"

section \<open>The repository\<close>

text \<open>The trait \<open>EventRepository\<close>: its operations over a state, failures as errors.\<close>

record 'r event_repo_ops =
  ro_insert_event :: "event_record \<Rightarrow> 'r \<Rightarrow> (storage_error, unit) result \<times> 'r"
  ro_get_event :: "string \<Rightarrow> u8 list \<Rightarrow> 'r \<Rightarrow> (storage_error, event_record option) result"
  ro_delete_event :: "string \<Rightarrow> u8 list \<Rightarrow> 'r \<Rightarrow> (storage_error, bool) result \<times> 'r"
  ro_query_events :: "event_query \<Rightarrow> 'r \<Rightarrow> (storage_error, event_record list) result"

type_synonym event_table = "(string, event_record) entries"

definition event_key :: "(u8 list \<Rightarrow> string) \<Rightarrow> u8 list \<Rightarrow> string" where
  "event_key enc event_id = enc event_id"

definition im_insert_event :: "(u8 list \<Rightarrow> string) \<Rightarrow> event_record \<Rightarrow> event_table \<Rightarrow> event_table" where
  "im_insert_event enc r m =
     (case map_of m (event_key enc (xr_id r)) of
        None \<Rightarrow> hm_insert (event_key enc (xr_id r)) r m
      | Some _ \<Rightarrow> m)"

definition im_get_event ::
  "(u8 list \<Rightarrow> string) \<Rightarrow> string \<Rightarrow> u8 list \<Rightarrow> event_table \<Rightarrow> event_record option" where
  "im_get_event enc tenant_id event_id m =
     (case map_of m (event_key enc event_id) of
        Some r \<Rightarrow> (if xr_tenant_id r = tenant_id then Some r else None)
      | None \<Rightarrow> None)"

definition im_delete_event ::
  "(u8 list \<Rightarrow> string) \<Rightarrow> string \<Rightarrow> u8 list \<Rightarrow> event_table \<Rightarrow> bool \<times> event_table" where
  "im_delete_event enc tenant_id event_id m =
     (case map_of m (event_key enc event_id) of
        Some r \<Rightarrow>
          (if xr_tenant_id r = tenant_id then (True, AList.delete (event_key enc event_id) m)
           else (False, m))
      | None \<Rightarrow> (False, m))"

definition push_grouped ::
  "(string, string list) entries \<Rightarrow> tag_record \<Rightarrow> (string, string list) entries" where
  "push_grouped groups tag =
     hm_insert (tr_name tag)
       ((case map_of groups (tr_name tag) of Some vs \<Rightarrow> vs | None \<Rightarrow> []) @ [tr_value tag]) groups"

definition values_by_name :: "tag_record list \<Rightarrow> (string, string list) entries" where
  "values_by_name tags = foldl push_grouped [] tags"

definition hex_is :: "hex_decoder \<Rightarrow> u8 list \<Rightarrow> string \<Rightarrow> bool" where
  "hex_is dec bytes text = (case dec text of Some bs \<Rightarrow> bs = bytes | None \<Rightarrow> False)"

definition query_selects :: "hex_decoder \<Rightarrow> event_query \<Rightarrow> event_record \<Rightarrow> bool" where
  "query_selects dec q r =
     (if (case eq_tenant_id q of Some t \<Rightarrow> xr_tenant_id r \<noteq> t | None \<Rightarrow> False) then False
      else if eq_ids q \<noteq> [] \<and> \<not> list_ex (hex_is dec (xr_id r)) (eq_ids q) then False
      else if eq_authors q \<noteq> [] \<and> \<not> list_ex (hex_is dec (xr_pubkey r)) (eq_authors q) then False
      else if eq_kinds q \<noteq> [] \<and> \<not> List.member (eq_kinds q) (xr_kind r) then False
      else if (case eq_since q of Some since \<Rightarrow> xr_created_at r < since | None \<Rightarrow> False) then False
      else if (case eq_until q of Some until \<Rightarrow> xr_created_at r > until | None \<Rightarrow> False) then False
      else
        (let by_name = values_by_name (xr_tags r) in
         list_all (\<lambda>(name, wanted).
           case map_of by_name name of
             None \<Rightarrow> False
           | Some values \<Rightarrow> list_ex (\<lambda>v. List.member wanted v) values) (values_by_name (eq_tags q))))"

definition record_order :: "event_record \<Rightarrow> int \<times> u8 list" where
  "record_order r = (- xr_created_at r, xr_id r)"

definition im_query_events :: "hex_decoder \<Rightarrow> event_query \<Rightarrow> event_table \<Rightarrow> event_record list" where
  "im_query_events dec q m =
     (let results = sort_key record_order (filter (query_selects dec q) (map snd m))
      in case eq_limit q of Some limit \<Rightarrow> take limit results | None \<Rightarrow> results)"

definition event_table_ops ::
  "(u8 list \<Rightarrow> string) \<Rightarrow> hex_decoder \<Rightarrow> event_table event_repo_ops" where
  "event_table_ops enc dec =
     \<lparr>ro_insert_event = (\<lambda>r m. (Ok (), im_insert_event enc r m)),
      ro_get_event = (\<lambda>t i m. Ok (im_get_event enc t i m)),
      ro_delete_event = (\<lambda>t i m. case im_delete_event enc t i m of (b, m') \<Rightarrow> (Ok b, m')),
      ro_query_events = (\<lambda>q m. Ok (im_query_events dec q m))\<rparr>"

lemma values_by_name:
  "hm_wf (values_by_name tags) \<and> map_of (values_by_name tags) name =
     (case filter (\<lambda>t. tr_name t = name) tags of [] \<Rightarrow> None | ts \<Rightarrow> Some (map tr_value ts))"
  unfolding values_by_name_def by (rule hm_group.push_all) (simp add: push_grouped_def)

section \<open>The contract of an event repository\<close>

text \<open>
  What a repository promises its clients, over what each tenant sees under an identifier: a record
  is found under its own tenant and identifier, a query of a tenant returns exactly the records it
  selects, a deletion removes at most the one record it names, and an insertion stores its record or
  leaves the repository as it is.
\<close>

locale event_repo =
  fixes ops :: "'r event_repo_ops"
    and dec :: hex_decoder
    and inv :: "'r \<Rightarrow> bool"
    and view :: "'r \<Rightarrow> string \<Rightarrow> u8 list \<Rightarrow> event_record option"
  assumes view_own: "inv m \<Longrightarrow> view m t i = Some r \<Longrightarrow> xr_tenant_id r = t \<and> xr_id r = i"
    and get_view: "inv m \<Longrightarrow> ro_get_event ops t i m = Ok x \<Longrightarrow> x = view m t i"
    and insert_inv: "inv m \<Longrightarrow> inv (snd (ro_insert_event ops r m))"
    and insert_view: "inv m \<Longrightarrow> view (snd (ro_insert_event ops r m)) t i = view m t i \<or>
      t = xr_tenant_id r \<and> i = xr_id r \<and> view m t i = None \<and>
      view (snd (ro_insert_event ops r m)) t i = Some r"
    and delete_inv: "inv m \<Longrightarrow> inv (snd (ro_delete_event ops t i m))"
    and delete_view: "inv m \<Longrightarrow> view (snd (ro_delete_event ops t i m)) t' i' = view m t' i' \<or>
      t' = t \<and> i' = i \<and> view (snd (ro_delete_event ops t i m)) t' i' = None"
    and query_view: "inv m \<Longrightarrow> ro_query_events ops q m = Ok rs \<Longrightarrow> eq_tenant_id q = Some t \<Longrightarrow>
      r \<in> set rs \<Longrightarrow> view m t (xr_id r) = Some r \<and> query_selects dec q r"
begin

lemma delete_keeps:
  "inv m \<Longrightarrow> view m t' i' = Some r \<Longrightarrow> t' \<noteq> t \<or> i' \<noteq> i \<Longrightarrow>
     view (snd (ro_delete_event ops t i m)) t' i' = Some r"
  using delete_view [of m t i t' i'] by auto

lemma delete_only_removes:
  "inv m \<Longrightarrow> view (snd (ro_delete_event ops t i m)) t' i' = Some r \<Longrightarrow> view m t' i' = Some r"
  using delete_view [of m t i t' i'] by auto

lemma insert_keeps:
  "inv m \<Longrightarrow> view m t i = Some r' \<Longrightarrow> view (snd (ro_insert_event ops r m)) t i = Some r'"
  using insert_view [of m r t i] by auto

end

section \<open>The in-memory table keeps the contract\<close>

definition table_inv :: "(u8 list \<Rightarrow> string) \<Rightarrow> event_table \<Rightarrow> bool" where
  "table_inv enc m \<longleftrightarrow> hm_wf m \<and> (\<forall>k r. map_of m k = Some r \<longrightarrow> k = event_key enc (xr_id r))"

definition table_view :: "(u8 list \<Rightarrow> string) \<Rightarrow> event_table \<Rightarrow> string \<Rightarrow> u8 list \<Rightarrow> event_record option" where
  "table_view enc m t i = im_get_event enc t i m"

context hex_codec
begin

lemma event_key_eq: "event_key enc a = event_key enc b \<longleftrightarrow> a = b"
  by (simp add: event_key_def enc_inj)

lemma table_view_iff:
  assumes "table_inv enc m"
  shows "table_view enc m t i = Some r \<longleftrightarrow> r \<in> set (map snd m) \<and> xr_tenant_id r = t \<and> xr_id r = i"
proof -
  have "map_of m (event_key enc i) = Some r \<longleftrightarrow> r \<in> set (map snd m) \<and> xr_id r = i"
  proof
    assume "map_of m (event_key enc i) = Some r"
    then have "(event_key enc i, r) \<in> set m" "event_key enc i = event_key enc (xr_id r)"
      using assms by (simp_all add: table_inv_def map_of_SomeD)
    then show "r \<in> set (map snd m) \<and> xr_id r = i" by (auto simp: event_key_eq rev_image_eqI)
  next
    assume "r \<in> set (map snd m) \<and> xr_id r = i"
    then obtain k where k: "(k, r) \<in> set m" and i: "xr_id r = i" by auto
    then have "map_of m k = Some r" using assms by (simp add: table_inv_def hm.get_in)
    with i show "map_of m (event_key enc i) = Some r" using assms by (auto simp: table_inv_def)
  qed
  then show ?thesis by (auto simp: table_view_def im_get_event_def split: option.split)
qed

lemma table_insert:
  assumes "table_inv enc m"
  shows "table_inv enc (im_insert_event enc r m)"
    and "table_view enc (im_insert_event enc r m) t i =
      (if t = xr_tenant_id r \<and> i = xr_id r \<and> map_of m (event_key enc i) = None then Some r
       else table_view enc m t i)"
  using assms
  by (auto simp: im_insert_event_def table_inv_def table_view_def im_get_event_def hm.wf_put hm.get_put
      event_key_eq split: option.splits if_splits)

lemma table_delete:
  assumes "table_inv enc m"
  shows "table_inv enc (snd (im_delete_event enc t i m))"
    and "table_view enc (snd (im_delete_event enc t i m)) t' i' =
      (if t' = t \<and> i' = i then None else table_view enc m t' i')"
  using assms
  by (auto simp: im_delete_event_def table_inv_def table_view_def im_get_event_def hm.wf_del hm.get_del
      event_key_eq split: option.splits if_splits)

end

lemma query_selects_tenant: "query_selects dec q r \<Longrightarrow> eq_tenant_id q = Some t \<Longrightarrow> xr_tenant_id r = t"
  by (auto simp: query_selects_def split: if_splits)

lemma im_query_events_set:
  "r \<in> set (im_query_events dec q m) \<Longrightarrow> r \<in> set (map snd m) \<and> query_selects dec q r"
  by (auto simp: im_query_events_def Let_def dest: in_set_takeD split: option.splits)

lemma event_table_ops_simps [simp]:
  "ro_insert_event (event_table_ops enc dec) r m = (Ok (), im_insert_event enc r m)"
  "ro_get_event (event_table_ops enc dec) t i m = Ok (table_view enc m t i)"
  "snd (ro_delete_event (event_table_ops enc dec) t i m) = snd (im_delete_event enc t i m)"
  "ro_query_events (event_table_ops enc dec) q m = Ok (im_query_events dec q m)"
  by (simp_all add: event_table_ops_def table_view_def split: prod.split)

sublocale hex_pair \<subseteq> table: event_repo "event_table_ops enc dec" dec "table_inv enc" "table_view enc"
proof unfold_locales
  fix m r t i
  assume inv: "table_inv enc m"
  show "table_view enc (snd (ro_insert_event (event_table_ops enc dec) r m)) t i = table_view enc m t i \<or>
      t = xr_tenant_id r \<and> i = xr_id r \<and> table_view enc m t i = None \<and>
      table_view enc (snd (ro_insert_event (event_table_ops enc dec) r m)) t i = Some r"
  proof (cases "map_of m (event_key enc i)")
    case None
    then have "table_view enc m t i = None" by (simp add: table_view_def im_get_event_def)
    then show ?thesis by (simp add: table_insert(2) [OF inv])
  qed (simp add: table_insert(2) [OF inv])
next
  fix m q rs t r
  assume "table_inv enc m" and "ro_query_events (event_table_ops enc dec) q m = Ok rs"
    and "eq_tenant_id q = Some t" and "r \<in> set rs"
  then show "table_view enc m t (xr_id r) = Some r \<and> query_selects dec q r"
    using im_query_events_set [of r dec q m] query_selects_tenant [of dec q r t]
    by (auto simp: table_view_iff)
qed (auto simp: table_view_iff table_insert table_delete)

end
