(* ===== verification/Rust_State.thy ===== *)
theory Rust_State
  imports Prelude
begin

text \<open>
  Stateful code that may fail: an operation takes the state and returns a result with the state it
  leaves, also when it fails. \<open>st_then\<close> is the question-mark operator on such calls, \<open>st_each\<close> a
  loop that returns at the first error. What every step keeps, the whole keeps.
\<close>

type_synonym ('e, 'a, 's) st_result = "('e, 'a) result \<times> 's"

definition st_then ::
  "('e, 'a, 's) st_result \<Rightarrow> ('a \<Rightarrow> 's \<Rightarrow> ('e, 'b, 's) st_result) \<Rightarrow> ('e, 'b, 's) st_result" where
  "st_then r f = (case r of (Inl e, s) \<Rightarrow> (Inl e, s) | (Inr x, s) \<Rightarrow> f x s)"

definition st_map_err :: "('e \<Rightarrow> 'f) \<Rightarrow> ('e, 'a, 's) st_result \<Rightarrow> ('f, 'a, 's) st_result" where
  "st_map_err f r = (case r of (x, s) \<Rightarrow> (map_err f x, s))"

text \<open>A call that only reads the state, and one that needs no state.\<close>

definition st_read :: "('e, 'a) result \<Rightarrow> 's \<Rightarrow> ('e, 'a, 's) st_result" where
  "st_read r s = (r, s)"

primrec st_each ::
  "('x \<Rightarrow> 's \<Rightarrow> ('e, unit, 's) st_result) \<Rightarrow> 'x list \<Rightarrow> 's \<Rightarrow> ('e, unit, 's) st_result" where
  "st_each f [] s = (Inr (), s)"
| "st_each f (x # xs) s = st_then (f x s) (\<lambda>_. st_each f xs)"

lemma st_then_simps [simp]: "st_then (Inl e, s) f = (Inl e, s)" "st_then (Inr x, s) f = f x s"
  by (simp_all add: st_then_def)

lemma st_read_then [simp]:
  "st_then (st_read r s) f = (case r of Inl e \<Rightarrow> (Inl e, s) | Inr x \<Rightarrow> f x s)"
  by (simp add: st_then_def st_read_def split: sum.split)

lemma st_map_err_simps [simp]:
  "snd (st_map_err f r) = snd r" "fst (st_map_err f r) = map_err f (fst r)"
  by (simp_all add: st_map_err_def split: prod.split)

lemma st_then_Ok:
  "st_then r f = (Inr y, s'') \<longleftrightarrow> (\<exists>x s'. r = (Inr x, s') \<and> f x s' = (Inr y, s''))"
  by (auto simp: st_then_def split: prod.splits sum.splits)

lemma snd_st_then:
  "snd (st_then r f) = (case fst r of Inl e \<Rightarrow> snd r | Inr x \<Rightarrow> snd (f x (snd r)))"
  by (simp add: st_then_def split: prod.split sum.split)

lemma st_then_keeps:
  assumes "P (snd r)" and "\<And>x s. r = (Inr x, s) \<Longrightarrow> P s \<Longrightarrow> P (snd (f x s))"
  shows "P (snd (st_then r f))"
  using assms by (auto simp: st_then_def split: prod.splits sum.splits)

lemma st_each_keeps:
  assumes "P s" and "\<And>x s. x \<in> set xs \<Longrightarrow> P s \<Longrightarrow> P (snd (f x s))"
  shows "P (snd (st_each f xs s))"
  using assms
proof (induction xs arbitrary: s)
  case (Cons x xs)
  then have "P (snd (f x s))" by simp
  then show ?case unfolding st_each.simps
    by (rule st_then_keeps) (use Cons in \<open>auto\<close>)
qed simp

end
