(* ===== verification/Relay_Repo_Store.thy ===== *)
theory Relay_Repo_Store
  imports Rust_Utf8 Storage_Events Relay_Store Rust_State
begin

text \<open>
  The store over an event repository: \<open>RepositoryStore\<close> of \<open>services/relay/src/store.rs\<close>, for any
  repository that implements \<open>EventRepository\<close>, and one tenant of it.
\<close>

section \<open>Coding events\<close>

definition DEFAULT_TENANT_ID :: string where "DEFAULT_TENANT_ID = ''default''"

definition map_repo_err :: "storage_error \<Rightarrow> store_error" where
  "map_repo_err err = Backend (storage_error_display err)"

definition event_to_record :: "hex_decoder \<Rightarrow> event \<Rightarrow> string \<Rightarrow> (store_error, event_record) result" where
  "event_to_record dec e tenant_id =
     map_err map_repo_err
       (event_record_new dec tenant_id (ev_id e) (ev_pubkey e) (ev_created_at e) (ev_kind e)
          (ev_content e) (ev_sig e) (ev_tags e))"

definition push_row ::
  "(string, string list) entries \<Rightarrow> tag_record \<Rightarrow> (string, string list) entries" where
  "push_row rows tag =
     bt_insert (tr_name tag)
       ((case map_of rows (tr_name tag) of Some vs \<Rightarrow> vs | None \<Rightarrow> []) @ [tr_value tag]) rows"

definition group_tags :: "tag_record list \<Rightarrow> tag list" where
  "group_tags tags = map (\<lambda>(name, values). name # values) (foldl push_row [] tags)"

definition stored_event :: "(u8 list \<Rightarrow> string) \<Rightarrow> event_record \<Rightarrow> event" where
  "stored_event enc r =
     \<lparr>ev_id = enc (xr_id r), ev_pubkey = enc (xr_pubkey r), ev_created_at = xr_created_at r,
      ev_kind = xr_kind r, ev_tags = group_tags (xr_tags r), ev_content = xr_content r,
      ev_sig = enc (xr_sig r)\<rparr>"

definition record_to_event :: "(u8 list \<Rightarrow> string) \<Rightarrow> event_record \<Rightarrow> (store_error, event) result" where
  "record_to_event enc r = Ok (stored_event enc r)"

definition decode_hex_id :: "hex_decoder \<Rightarrow> string \<Rightarrow> (store_error, u8 list) result" where
  "decode_hex_id dec v = ok_or (Backend ''invalid event id'') (dec v)"

definition decode_hex_pubkey :: "hex_decoder \<Rightarrow> string \<Rightarrow> (store_error, u8 list) result" where
  "decode_hex_pubkey dec v = ok_or (Backend ''invalid pubkey'') (dec v)"

section \<open>Query plans\<close>

record query_plan =
  qp_query :: event_query
  qp_needs_post_filter :: bool

definition exact_hex_filters :: "hex_decoder \<Rightarrow> string list \<Rightarrow> string list \<times> bool" where
  "exact_hex_filters dec values =
     (if values = [] then ([], False)
      else if list_all (\<lambda>v. length v = HEX_32_LEN \<and> dec v \<noteq> None) values then (values, False)
      else ([], True))"

definition build_query_plan :: "hex_decoder \<Rightarrow> filter_rec \<Rightarrow> query_plan" where
  "build_query_plan dec f =
     (let (ids, ids_need_post) = exact_hex_filters dec (fl_ids f);
          (authors, authors_need_post) = exact_hex_filters dec (fl_authors f);
          needs_post_filter = (ids_need_post \<or> authors_need_post);
          tags = concat (map (\<lambda>(name, values). map (\<lambda>v. \<lparr>tr_name = name, tr_value = v\<rparr>) values) (fl_tags f))
      in \<lparr>qp_query =
            \<lparr>eq_tenant_id = None, eq_ids = ids, eq_authors = authors, eq_kinds = fl_kinds f,
             eq_since = fl_since f, eq_until = fl_until f, eq_tags = tags,
             eq_limit = (if needs_post_filter then None else fl_limit f)\<rparr>,
          qp_needs_post_filter = needs_post_filter\<rparr>)"

section \<open>Deleting and replacing\<close>

definition delete_record ::
  "'r event_repo_ops \<Rightarrow> string \<Rightarrow> event_record \<Rightarrow> 'r \<Rightarrow> (store_error, unit, 'r) st_result" where
  "delete_record ops tenant r st =
     st_then (st_map_err map_repo_err (ro_delete_event ops tenant (xr_id r) st)) (\<lambda>_ st. (Ok (), st))"

definition repo_delete_target ::
  "hex_decoder \<Rightarrow> 'r event_repo_ops \<Rightarrow> string \<Rightarrow> u8 list \<Rightarrow> event \<Rightarrow> string \<Rightarrow> 'r \<Rightarrow>
   (store_error, unit, 'r) st_result" where
  "repo_delete_target dec ops tenant author e target st =
     (case dec target of
        None \<Rightarrow> (Ok (), st)
      | Some bytes \<Rightarrow>
          st_then (st_read (map_err map_repo_err (ro_get_event ops tenant bytes st)) st) (\<lambda>found st.
            case found of
              None \<Rightarrow> (Ok (), st)
            | Some r \<Rightarrow>
                (if xr_pubkey r = author \<and> xr_created_at r \<le> ev_created_at e
                 then delete_record ops tenant r st else (Ok (), st))))"

definition key_query :: "string \<Rightarrow> rkey \<Rightarrow> event_query" where
  "key_query tenant key =
     default_query\<lparr>eq_tenant_id := Some tenant, eq_kinds := [rk_kind key], eq_authors := [rk_pubkey key],
       eq_tags := (case rk_identifier key of Some ident \<Rightarrow> [tag_record_new ''d'' ident] | None \<Rightarrow> [])\<rparr>"

definition repo_delete_address ::
  "'r event_repo_ops \<Rightarrow> string \<Rightarrow> event \<Rightarrow> string \<Rightarrow> 'r \<Rightarrow> (store_error, unit, 'r) st_result" where
  "repo_delete_address ops tenant e address st =
     (case parse_address address of
        None \<Rightarrow> (Ok (), st)
      | Some key \<Rightarrow>
          (if rk_pubkey key \<noteq> ev_pubkey e then (Ok (), st)
           else
             st_then (st_read (map_err map_repo_err (ro_query_events ops (key_query tenant key) st)) st)
               (\<lambda>records. st_each (\<lambda>r st.
                  if xr_created_at r \<le> ev_created_at e then delete_record ops tenant r st
                  else (Ok (), st)) records)))"

definition apply_delete_repo ::
  "hex_decoder \<Rightarrow> 'r event_repo_ops \<Rightarrow> string \<Rightarrow> event \<Rightarrow> 'r \<Rightarrow> (store_error, unit, 'r) st_result" where
  "apply_delete_repo dec ops tenant e st =
     st_then (st_read (decode_hex_pubkey dec (ev_pubkey e)) st) (\<lambda>author st.
     st_then (st_each (repo_delete_target dec ops tenant author e) (store_tag_values (ev_tags e) ''e'') st)
       (\<lambda>_. st_each (repo_delete_address ops tenant e) (store_tag_values (ev_tags e) ''a'')))"

definition apply_replaceable_repo ::
  "'r event_repo_ops \<Rightarrow> string \<Rightarrow> event \<Rightarrow> rkey \<Rightarrow> 'r \<Rightarrow> (store_error, bool, 'r) st_result" where
  "apply_replaceable_repo ops tenant e key st =
     st_then (st_read (map_err map_repo_err (ro_query_events ops (key_query tenant key) st)) st)
       (\<lambda>records st.
          if list_ex (\<lambda>r. xr_created_at r \<ge> ev_created_at e) records then (Ok True, st)
          else st_then (st_each (delete_record ops tenant) records st) (\<lambda>_ st. (Ok False, st)))"

section \<open>The operations of the store\<close>

definition repo_insert ::
  "hex_decoder \<Rightarrow> 'r event_repo_ops \<Rightarrow> string \<Rightarrow> event \<Rightarrow> 'r \<Rightarrow> (store_error, store_outcome, 'r) st_result" where
  "repo_insert dec ops tenant e st =
     st_then (st_read (event_to_record dec e tenant) st) (\<lambda>record st.
     st_then (st_read (map_err map_repo_err (ro_get_event ops tenant (xr_id record) st)) st) (\<lambda>found st.
       if found \<noteq> None then (Ok Duplicate, st)
       else
         st_then (if ev_kind e = 5 then apply_delete_repo dec ops tenant e st else (Ok (), st)) (\<lambda>_ st.
         st_then (case replaceable_key e of
                    Some key \<Rightarrow> apply_replaceable_repo ops tenant e key st
                  | None \<Rightarrow> (Ok False, st)) (\<lambda>superseded st.
           if superseded then (Ok Duplicate, st)
           else
             st_then (st_map_err map_repo_err (ro_insert_event ops record st)) (\<lambda>_ st.
               (Ok Inserted, st))))))"

definition repo_get ::
  "(u8 list \<Rightarrow> string) \<Rightarrow> hex_decoder \<Rightarrow> 'r event_repo_ops \<Rightarrow> string \<Rightarrow> string \<Rightarrow> 'r \<Rightarrow>
   (store_error, event option) result" where
  "repo_get enc dec ops tenant i st =
     and_then (decode_hex_id dec i) (\<lambda>bytes.
     and_then (map_err map_repo_err (ro_get_event ops tenant bytes st)) (\<lambda>found.
       case found of
         None \<Rightarrow> Ok None
       | Some r \<Rightarrow> and_then (record_to_event enc r) (\<lambda>e. Ok (Some e))))"

definition repo_delete ::
  "hex_decoder \<Rightarrow> 'r event_repo_ops \<Rightarrow> string \<Rightarrow> string \<Rightarrow> 'r \<Rightarrow> (store_error, bool, 'r) st_result" where
  "repo_delete dec ops tenant i st =
     st_then (st_read (decode_hex_id dec i) st) (\<lambda>bytes st.
       st_map_err map_repo_err (ro_delete_event ops tenant bytes st))"

primrec repo_scan ::
  "(u8 list \<Rightarrow> string) \<Rightarrow> filter_rec \<Rightarrow> bool \<Rightarrow> nat \<Rightarrow> event_record list \<Rightarrow> string set \<times> event list \<Rightarrow>
   (store_error, string set \<times> event list) result" where
  "repo_scan enc f post remaining [] acc = Ok acc"
| "repo_scan enc f post remaining (r # rs) acc =
     (if remaining = 0 then Ok acc
      else
        and_then (record_to_event enc r) (\<lambda>e.
          if ev_id e \<in> fst acc then repo_scan enc f post remaining rs acc
          else
            and_then (if post
                      then map_err (\<lambda>err. Backend (tag_error_display err)) (tag_index_from_tags (ev_tags e))
                      else Ok []) (\<lambda>idx.
              if post \<and> \<not> filter_matches f e idx then repo_scan enc f post remaining rs acc
              else repo_scan enc f post (remaining - 1) rs (insert (ev_id e) (fst acc), snd acc @ [e]))))"

definition repo_query_filter ::
  "(u8 list \<Rightarrow> string) \<Rightarrow> hex_decoder \<Rightarrow> 'r event_repo_ops \<Rightarrow> string \<Rightarrow> 'r \<Rightarrow>
   string set \<times> event list \<Rightarrow> filter_rec \<Rightarrow> (store_error, string set \<times> event list) result" where
  "repo_query_filter enc dec ops tenant st acc f =
     (let plan = build_query_plan dec f;
          query = (qp_query plan)\<lparr>eq_tenant_id := Some tenant\<rparr>
      in and_then (map_err map_repo_err (ro_query_events ops query st)) (\<lambda>records.
           repo_scan enc f (qp_needs_post_filter plan) (filter_limit f) records acc))"

definition repo_query ::
  "(u8 list \<Rightarrow> string) \<Rightarrow> hex_decoder \<Rightarrow> 'r event_repo_ops \<Rightarrow> string \<Rightarrow> filter_rec list \<Rightarrow> 'r \<Rightarrow>
   (store_error, event list) result" where
  "repo_query enc dec ops tenant filters st =
     (if filters = [] then Ok []
      else and_then (try_fold (repo_query_filter enc dec ops tenant st) ({}, []) filters) (\<lambda>acc.
             Ok (sort_key query_order (snd acc))))"

text \<open>The store as the session sees it; the state is the repository's.\<close>

definition repo_store_ops ::
  "(u8 list \<Rightarrow> string) \<Rightarrow> hex_decoder \<Rightarrow> 'r event_repo_ops \<Rightarrow> string \<Rightarrow> 'r store_ops" where
  "repo_store_ops enc dec ops tenant =
     \<lparr>so_insert = repo_insert dec ops tenant,
      so_get = repo_get enc dec ops tenant,
      so_delete = repo_delete dec ops tenant,
      so_query = repo_query enc dec ops tenant\<rparr>"

section \<open>What an insertion may touch\<close>

text \<open>Only records of the tenant and of the event's author are gone, and none is new.\<close>

definition own_removed ::
  "hex_decoder \<Rightarrow> string \<Rightarrow> event \<Rightarrow> (string \<Rightarrow> u8 list \<Rightarrow> event_record option) \<Rightarrow>
   (string \<Rightarrow> u8 list \<Rightarrow> event_record option) \<Rightarrow> bool" where
  "own_removed dec tenant e v v' \<longleftrightarrow>
     (\<forall>t i r. v t i = Some r \<longrightarrow> t \<noteq> tenant \<or> dec (ev_pubkey e) \<noteq> Some (xr_pubkey r) \<longrightarrow> v' t i = Some r) \<and>
     (\<forall>t i r. v' t i = Some r \<longrightarrow> v t i = Some r)"

lemma own_removed_refl: "own_removed dec tenant e v v"
  by (simp add: own_removed_def)

lemma own_removed_back: "own_removed dec tenant e v v' \<Longrightarrow> v' t i = Some r \<Longrightarrow> v t i = Some r"
  unfolding own_removed_def by blast

lemma own_removed_keeps:
  "own_removed dec tenant e v v' \<Longrightarrow> v t i = Some r \<Longrightarrow>
     t \<noteq> tenant \<or> dec (ev_pubkey e) \<noteq> Some (xr_pubkey r) \<Longrightarrow> v' t i = Some r"
  unfolding own_removed_def by blast

lemma own_removedI:
  assumes "\<And>t i r. v t i = Some r \<Longrightarrow> t \<noteq> tenant \<or> dec (ev_pubkey e) \<noteq> Some (xr_pubkey r) \<Longrightarrow> v' t i = Some r"
    and "\<And>t i r. v' t i = Some r \<Longrightarrow> v t i = Some r"
  shows "own_removed dec tenant e v v'"
  unfolding own_removed_def using assms by blast

lemma snd_delete_record:
  "snd (delete_record ops tenant r st) = snd (ro_delete_event ops tenant (xr_id r) st)"
  by (cases "ro_delete_event ops tenant (xr_id r) st"; cases "fst (ro_delete_event ops tenant (xr_id r) st)")
    (simp_all add: delete_record_def st_map_err_def)

lemma query_selects_author:
  assumes "query_selects dec q r" and "eq_authors q = [a]"
  shows "dec a = Some (xr_pubkey r)"
  using assms by (auto simp: query_selects_def hex_is_def split: if_splits option.splits)

lemma replaceable_key_pubkey: "replaceable_key e = Some k \<Longrightarrow> rk_pubkey k = ev_pubkey e"
  by (auto simp: replaceable_key_def split: if_splits list.splits)

context event_repo
begin

lemma delete_record_own:
  assumes "inv st" and own: "own_removed dec tenant e (view st0) (view st)"
    and r: "view st0 tenant (xr_id r) = Some r" "dec (ev_pubkey e) = Some (xr_pubkey r)"
  shows "inv (snd (delete_record ops tenant r st)) \<and>
    own_removed dec tenant e (view st0) (view (snd (delete_record ops tenant r st)))"
proof -
  let ?st = "snd (ro_delete_event ops tenant (xr_id r) st)"
  have "own_removed dec tenant e (view st0) (view ?st)"
  proof (rule own_removedI)
    fix t i x
    assume x: "view st0 t i = Some x" "t \<noteq> tenant \<or> dec (ev_pubkey e) \<noteq> Some (xr_pubkey x)"
    with r have "t \<noteq> tenant \<or> i \<noteq> xr_id r" by auto
    then show "view ?st t i = Some x"
      using delete_keeps [OF assms(1) own_removed_keeps [OF own x]] by blast
  next
    fix t i x
    assume "view ?st t i = Some x"
    then show "view st0 t i = Some x"
      by (rule own_removed_back [OF own delete_only_removes [OF assms(1)]])
  qed
  then show ?thesis using delete_inv [OF assms(1)] unfolding snd_delete_record by blast
qed

lemma delete_records_own:
  assumes "inv st" and "own_removed dec tenant e (view st0) (view st)"
    and "\<And>r. r \<in> set rs \<Longrightarrow> view st0 tenant (xr_id r) = Some r \<and> dec (ev_pubkey e) = Some (xr_pubkey r)"
    and "\<And>r s. f r s = delete_record ops tenant r s \<or> f r s = (Ok (), s)"
  shows "inv (snd (st_each f rs st)) \<and> own_removed dec tenant e (view st0) (view (snd (st_each f rs st)))"
proof (rule st_each_keeps [of "\<lambda>s. inv s \<and> own_removed dec tenant e (view st0) (view s)"])
  show "inv st \<and> own_removed dec tenant e (view st0) (view st)" using assms(1,2) by blast
next
  fix r s
  assume r: "r \<in> set rs" and s: "inv s \<and> own_removed dec tenant e (view st0) (view s)"
  from assms(4) [of r s] show "inv (snd (f r s)) \<and> own_removed dec tenant e (view st0) (view (snd (f r s)))"
  proof
    assume f: "f r s = delete_record ops tenant r s"
    show ?thesis unfolding f using s assms(3) [OF r] delete_record_own by blast
  next
    assume f: "f r s = (Ok (), s)"
    show ?thesis unfolding f using s by simp
  qed
qed

lemma query_own:
  assumes "inv st" and "own_removed dec tenant e (view st0) (view st)"
    and "ro_query_events ops (key_query tenant key) st = Ok rs" and "rk_pubkey key = ev_pubkey e"
    and "r \<in> set rs"
  shows "view st0 tenant (xr_id r) = Some r \<and> dec (ev_pubkey e) = Some (xr_pubkey r)"
proof -
  have "eq_tenant_id (key_query tenant key) = Some tenant" by (simp add: key_query_def)
  from query_view [OF assms(1,3) this assms(5)]
  have "view st tenant (xr_id r) = Some r" "query_selects dec (key_query tenant key) r" by simp_all
  moreover from this(2) have "dec (rk_pubkey key) = Some (xr_pubkey r)"
    by (rule query_selects_author) (simp add: key_query_def)
  ultimately show ?thesis using own_removed_back [OF assms(2)] assms(4) by metis
qed

lemma delete_target_own:
  assumes "inv st" and own: "own_removed dec tenant e (view st0) (view st)"
    and "dec (ev_pubkey e) = Some author"
  shows "inv (snd (repo_delete_target dec ops tenant author e target st)) \<and>
    own_removed dec tenant e (view st0) (view (snd (repo_delete_target dec ops tenant author e target st)))"
proof (cases "\<exists>bytes r. dec target = Some bytes \<and> ro_get_event ops tenant bytes st = Ok (Some r) \<and>
    xr_pubkey r = author \<and> xr_created_at r \<le> ev_created_at e")
  case True
  then obtain bytes r where r: "dec target = Some bytes" "ro_get_event ops tenant bytes st = Ok (Some r)"
    "xr_pubkey r = author" "xr_created_at r \<le> ev_created_at e" by blast
  then have "view st tenant bytes = Some r" using get_view [OF assms(1) r(2)] by simp
  then have "view st0 tenant (xr_id r) = Some r"
    using own_removed_back [OF own] view_own [OF assms(1)] by blast
  moreover have "repo_delete_target dec ops tenant author e target st = delete_record ops tenant r st"
    using r by (simp add: repo_delete_target_def)
  ultimately show ?thesis using delete_record_own [OF assms(1,2)] assms(3) r(3) by simp
next
  case False
  then have "snd (repo_delete_target dec ops tenant author e target st) = st"
    by (auto simp: repo_delete_target_def split: option.splits sum.splits)
      (metis map_err_eq_Ok)+
  then show ?thesis using assms by simp
qed

lemma delete_address_own:
  assumes "inv st" and own: "own_removed dec tenant e (view st0) (view st)"
  shows "inv (snd (repo_delete_address ops tenant e a st)) \<and>
    own_removed dec tenant e (view st0) (view (snd (repo_delete_address ops tenant e a st)))"
proof (cases "\<exists>key rs. parse_address a = Some key \<and> rk_pubkey key = ev_pubkey e \<and>
    ro_query_events ops (key_query tenant key) st = Ok rs")
  case True
  then obtain key rs where k: "parse_address a = Some key" "rk_pubkey key = ev_pubkey e"
    and q: "ro_query_events ops (key_query tenant key) st = Ok rs" by blast
  have "repo_delete_address ops tenant e a st = st_each (\<lambda>r st.
      if xr_created_at r \<le> ev_created_at e then delete_record ops tenant r st else (Ok (), st)) rs st"
    using k q by (simp add: repo_delete_address_def)
  then show ?thesis
    using delete_records_own [OF assms, of rs] query_own [OF assms q k(2)] by simp
next
  case False
  then have "snd (repo_delete_address ops tenant e a st) = st"
    by (auto simp: repo_delete_address_def split: option.splits sum.splits) (metis map_err_eq_Ok)
  then show ?thesis using assms by simp
qed

lemma apply_delete_own:
  assumes "inv st" and "own_removed dec tenant e (view st0) (view st)"
  shows "inv (snd (apply_delete_repo dec ops tenant e st)) \<and>
    own_removed dec tenant e (view st0) (view (snd (apply_delete_repo dec ops tenant e st)))"
proof (cases "dec (ev_pubkey e)")
  case None
  then show ?thesis using assms by (simp add: apply_delete_repo_def decode_hex_pubkey_def)
next
  case (Some author)
  let ?P = "\<lambda>s. inv s \<and> own_removed dec tenant e (view st0) (view s)"
  have start: "?P st" using assms by blast
  have "?P (snd (st_each (repo_delete_target dec ops tenant author e) ts s))" if "?P s" for ts s
    by (rule st_each_keeps [of ?P, OF that]) (use delete_target_own Some in blast)
  moreover have "?P (snd (st_each (repo_delete_address ops tenant e) as s))" if "?P s" for as s
    by (rule st_each_keeps [of ?P, OF that]) (use delete_address_own in blast)
  ultimately have "?P (snd (st_then
      (st_each (repo_delete_target dec ops tenant author e) (store_tag_values (ev_tags e) ''e'') st)
      (\<lambda>_. st_each (repo_delete_address ops tenant e) (store_tag_values (ev_tags e) ''a''))))"
    using start by (intro st_then_keeps [of ?P]) blast+
  then show ?thesis using Some by (simp add: apply_delete_repo_def decode_hex_pubkey_def)
qed

lemma apply_replaceable_own:
  assumes "inv st" and "own_removed dec tenant e (view st0) (view st)" and "rk_pubkey key = ev_pubkey e"
  shows "inv (snd (apply_replaceable_repo ops tenant e key st)) \<and>
    own_removed dec tenant e (view st0) (view (snd (apply_replaceable_repo ops tenant e key st)))"
proof (cases "ro_query_events ops (key_query tenant key) st")
  case (Inl err)
  then show ?thesis using assms by (simp add: apply_replaceable_repo_def)
next
  case (Inr rs)
  let ?P = "\<lambda>s. inv s \<and> own_removed dec tenant e (view st0) (view s)"
  have "?P (snd (st_each (delete_record ops tenant) rs st))"
    using delete_records_own [OF assms(1,2), of rs] query_own [OF assms(1,2) Inr assms(3)] by blast
  then have "?P (snd (st_then (st_each (delete_record ops tenant) rs st) (\<lambda>_ st. (Ok False, st))))"
    by (rule st_then_keeps [of ?P]) simp
  then show ?thesis using Inr assms by (simp add: apply_replaceable_repo_def)
qed

lemma repo_insert_own:
  assumes "inv st" and "repo_insert dec ops tenant e st = (res, st')"
  shows "\<exists>mid. inv mid \<and> own_removed dec tenant e (view st) (view mid) \<and>
    (st' = mid \<and> res \<noteq> Ok Inserted \<or>
     (\<exists>record. event_to_record dec e tenant = Ok record \<and> ro_get_event ops tenant (xr_id record) st = Ok None \<and>
        st' = snd (ro_insert_event ops record mid)))"
proof (cases "\<exists>record. event_to_record dec e tenant = Ok record \<and>
    ro_get_event ops tenant (xr_id record) st = Ok None")
  case False
  then have "st' = st \<and> res \<noteq> Ok Inserted"
    using assms(2) by (auto simp: repo_insert_def map_err_eq_Ok split: sum.splits if_splits)
  then show ?thesis using assms(1) own_removed_refl by blast
next
  case True
  then obtain rcd where rcd: "event_to_record dec e tenant = Ok rcd"
    "ro_get_event ops tenant (xr_id rcd) st = Ok None" by blast
  let ?P = "\<lambda>s. inv s \<and> own_removed dec tenant e (view st) (view s)"
  define del where "del = (if ev_kind e = 5 then apply_delete_repo dec ops tenant e st else (Ok (), st))"
  define repl where "repl s = (case replaceable_key e of
      Some key \<Rightarrow> apply_replaceable_repo ops tenant e key s | None \<Rightarrow> (Ok False, s))" for s
  define put where "put s = st_then (st_map_err map_repo_err (ro_insert_event ops rcd s))
      (\<lambda>_ st. (Ok Inserted, st))" for s
  have run: "(res, st') = st_then del (\<lambda>_ s. st_then (repl s) (\<lambda>b s. if b then (Ok Duplicate, s) else put s))"
    using assms(2) rcd unfolding repo_insert_def del_def repl_def put_def by simp
  have del: "?P (snd del)"
    using apply_delete_own [OF assms(1) own_removed_refl] assms(1) own_removed_refl
    by (simp add: del_def)
  have repl: "?P (snd (repl s))" if "?P s" for s
    using apply_replaceable_own [of s tenant e st] replaceable_key_pubkey [of e] that
    by (auto simp: repl_def split: option.split)
  have put: "snd (put s) = snd (ro_insert_event ops rcd s)" for s
    by (cases "ro_insert_event ops rcd s"; cases "fst (ro_insert_event ops rcd s)")
      (simp_all add: put_def st_map_err_def)
  consider (fail) x where "del = (Inl x, st')" "res = Err x"
    | (go) u s where "del = (Inr u, s)" "(res, st') = st_then (repl s) (\<lambda>b s. if b then (Ok Duplicate, s) else put s)"
    using run by (cases del; cases "fst del") auto
  then show ?thesis
  proof cases
    case fail
    then show ?thesis using del by auto
  next
    case (go u s)
    then have s: "?P s" using del by simp
    obtain b m where rm: "repl s = (b, m)" by (cases "repl s")
    then have m: "?P m" using repl [OF s] by simp
    show ?thesis
    proof (cases "b = Inr False")
      case True
      then have "(res, st') = put m" using go(2) rm by simp
      then have "st' = snd (ro_insert_event ops rcd m)" using put [of m] by (metis snd_conv)
      then show ?thesis using m rcd by blast
    next
      case False
      then have "st' = m \<and> res \<noteq> Ok Inserted"
        using go(2) rm by (cases b) (auto split: if_splits)
      then show ?thesis using m by blast
    qed
  qed
qed

lemma repo_insert_keeps:
  assumes "inv st" and "repo_insert dec ops tenant e st = (res, st')"
    and "view st t i = Some r" and "t \<noteq> tenant \<or> dec (ev_pubkey e) \<noteq> Some (xr_pubkey r)"
  shows "view st' t i = Some r"
proof -
  obtain mid where mid: "inv mid" "own_removed dec tenant e (view st) (view mid)"
    and st': "st' = mid \<or> (\<exists>record. st' = snd (ro_insert_event ops record mid))"
    using repo_insert_own [OF assms(1,2)] by blast
  have "view mid t i = Some r" by (rule own_removed_keeps [OF mid(2) assms(3,4)])
  then show ?thesis using st' insert_keeps [OF mid(1)] by blast
qed

lemma repo_insert_inv: "inv st \<Longrightarrow> inv (snd (repo_insert dec ops tenant e st))"
  using repo_insert_own [of st tenant e] insert_inv by (metis prod.collapse)

lemma repo_delete_inv: "inv st \<Longrightarrow> inv (snd (repo_delete dec ops tenant i st))"
  using delete_inv [of st tenant] by (simp add: repo_delete_def split: sum.split)

end

section \<open>What is stored\<close>

lemma flatten_values:
  "try_fold (flatten_value n) records vs = Ok records' \<Longrightarrow>
     map tr_value (filter (\<lambda>t. tr_name t = name) records') =
     map tr_value (filter (\<lambda>t. tr_name t = name) records) @ (if n = name then vs else [])"
  by (induction vs arbitrary: records) (auto simp: flatten_value_def split: if_splits)

lemma store_tag_values_Cons:
  "store_tag_values (tag # tags) name =
     (case tag of [] \<Rightarrow> [] | n # vs \<Rightarrow> if n = name then vs else []) @ store_tag_values tags name"
proof -
  let ?f = "\<lambda>values tag. case tag of [] \<Rightarrow> values | first # rest \<Rightarrow> if first = name then values @ rest else values"
  have "foldl ?f acc tags = acc @ foldl ?f [] tags" for acc
  proof (induction tags rule: rev_induct)
    case (snoc tag tags)
    then show ?case by (cases tag) simp_all
  qed simp
  from this [of "?f [] tag"] show ?thesis
    by (cases tag) (simp_all add: store_tag_values_def)
qed

lemma flatten_tags_values:
  "try_fold flatten_tag records tags = Ok records' \<Longrightarrow>
     map tr_value (filter (\<lambda>t. tr_name t = name) records') =
     map tr_value (filter (\<lambda>t. tr_name t = name) records) @ store_tag_values tags name"
proof (induction tags arbitrary: records)
  case Nil
  then show ?case by (simp add: store_tag_values_def)
next
  case (Cons tag tags)
  then obtain n vs mid where tag: "tag = n # vs" and mid: "try_fold (flatten_value n) records vs = Ok mid"
    and rest: "try_fold flatten_tag mid tags = Ok records'"
  proof -
    from Cons.prems obtain mid where "flatten_tag records tag = Ok mid" "try_fold flatten_tag mid tags = Ok records'"
      by (auto split: sum.splits)
    then show thesis using that by (cases tag) (auto simp: flatten_tag_def split: if_splits)
  qed
  have "store_tag_values (tag # tags) name = (if n = name then vs else []) @ store_tag_values tags name"
    by (simp add: store_tag_values_Cons tag)
  then show ?case using Cons.IH [OF rest] flatten_values [OF mid] by simp
qed

lemma entries_named:
  "distinct (map fst m) \<Longrightarrow> filter (\<lambda>e. fst e = k) m = (case map_of m k of None \<Rightarrow> [] | Some v \<Rightarrow> [(k, v)])"
proof (induction m)
  case (Cons e m)
  then have "fst e \<notin> set (map fst m)" by simp
  then have "fst e = k \<Longrightarrow> map_of m k = None" by (auto simp: map_of_eq_None_iff)
  with Cons show ?case by (cases e) (auto split: option.splits)
qed simp

lemma group_tags_map:
  "bt_wf (foldl push_row [] tags) \<and> map_of (foldl push_row [] tags) name =
     (case filter (\<lambda>t. tr_name t = name) tags of [] \<Rightarrow> None | ts \<Rightarrow> Some (map tr_value ts))"
  by (rule bt_group.push_all) (simp add: push_row_def)

lemma group_tags_values: "store_tag_values (group_tags tags) name = map tr_value (filter (\<lambda>t. tr_name t = name) tags)"
proof -
  let ?m = "foldl push_row [] tags"
  have "store_tag_values (map (\<lambda>(name, values). name # values) m) name =
      concat (map snd (filter (\<lambda>e. fst e = name) m))" for m :: "(string, string list) entries"
  proof (induction m)
    case Nil
    then show ?case by (simp add: store_tag_values_def)
  next
    case (Cons e m)
    then show ?case by (cases e) (simp add: store_tag_values_Cons)
  qed
  then show ?thesis
    using group_tags_map [of tags name] entries_named [OF bt_wf_distinct, of ?m name]
    by (simp add: group_tags_def split: list.splits)
qed

lemma event_to_record_Ok:
  assumes "event_to_record dec e tenant = Ok r"
  shows "dec (ev_id e) = Some (xr_id r) \<and> dec (ev_pubkey e) = Some (xr_pubkey r) \<and> dec (ev_sig e) = Some (xr_sig r) \<and>
    xr_tenant_id r = tenant \<and> xr_created_at r = ev_created_at e \<and> xr_kind r = ev_kind e \<and>
    xr_content r = ev_content e \<and> flatten_tags (ev_tags e) = Ok (xr_tags r)"
  using assms by (auto simp: event_to_record_def event_record_new_def decode_hex_field_def result_simps
      split: if_splits)

lemma record_values:
  assumes "event_to_record dec e tenant = Ok r"
  shows "store_tag_values (group_tags (xr_tags r)) name = store_tag_values (ev_tags e) name"
  using event_to_record_Ok [OF assms] flatten_tags_values [of "[]" "ev_tags e" "xr_tags r" name]
  by (simp add: group_tags_values flatten_tags_def)

section \<open>Properties\<close>

text \<open>The states of a table that any number of tenants use through their stores.\<close>

inductive table_run :: "(u8 list \<Rightarrow> string) \<Rightarrow> hex_decoder \<Rightarrow> event_table \<Rightarrow> bool" for enc dec where
  new: "table_run enc dec []"
| insert: "table_run enc dec st \<Longrightarrow> table_run enc dec (snd (repo_insert dec (event_table_ops enc dec) t e st))"
| delete: "table_run enc dec st \<Longrightarrow> table_run enc dec (snd (repo_delete dec (event_table_ops enc dec) t i st))"

context hex_pair
begin

lemma table_run_inv: "table_run enc dec st \<Longrightarrow> table_inv enc st"
proof (induction rule: table_run.induct)
  case new
  then show ?case by (simp add: table_inv_def hm.wf_empty)
qed (simp_all add: table.repo_insert_inv table.repo_delete_inv)

lemma table_insert_keeps:
  assumes "table_run enc dec st" and "repo_insert dec (event_table_ops enc dec) t e st = (res, st')"
    and "table_view enc st t' i = Some r" and "t' \<noteq> t \<or> dec (ev_pubkey e) \<noteq> Some (xr_pubkey r)"
  shows "table_view enc st' t' i = Some r"
  by (rule table.repo_insert_keeps [OF table_run_inv [OF assms(1)] assms(2-4)])

lemma insert_then_view:
  assumes inv: "table_inv enc st" and ins: "repo_insert dec (event_table_ops enc dec) t e st = (Ok Inserted, st')"
  obtains r where "event_to_record dec e t = Ok r"
    and "table_view enc st' t (xr_id r) = (if \<exists>t'. table_view enc st t' (xr_id r) \<noteq> None then None else Some r)"
proof -
  obtain mid r where mid: "table_inv enc mid" "own_removed dec t e (table_view enc st) (table_view enc mid)"
    and r: "event_to_record dec e t = Ok r" "table_view enc st t (xr_id r) = None"
    and st': "st' = im_insert_event enc r mid"
    using table.repo_insert_own [OF inv ins] by auto
  have tenant: "xr_tenant_id r = t" using event_to_record_Ok [OF r(1)] by simp
  have "map_of mid (event_key enc (xr_id r)) = None \<longleftrightarrow> (\<forall>t'. table_view enc mid t' (xr_id r) = None)"
    by (auto simp: table_view_def im_get_event_def split: option.splits)
  moreover have "table_view enc mid t' (xr_id r) = None \<longleftrightarrow> table_view enc st t' (xr_id r) = None" for t'
    using r(2) own_removed_back [OF mid(2)] own_removed_keeps [OF mid(2), of t' "xr_id r"]
    by (metis not_None_eq)
  ultimately have "table_view enc st' t (xr_id r) =
      (if \<exists>t'. table_view enc st t' (xr_id r) \<noteq> None then None else Some r)"
    using table_insert(2) [OF mid(1), of r t "xr_id r"] r(2) tenant st' by auto
  then show thesis using that r(1) by blast
qed

end

text \<open>
  C38: tenants and authors are isolated from each other: whatever event a tenant's store takes in,
  deletion events and replacements included, no record of another tenant and no record of another
  author is removed or changed.\<close>

theorem repo_store_isolation:
  assumes "hex_pair enc dec" and "table_run enc dec st"
    and "repo_insert dec (event_table_ops enc dec) t e st = (res, st')"
    and "im_get_event enc t' i st = Some r"
    and "t' \<noteq> t \<or> enc (xr_pubkey r) \<noteq> to_ascii_lowercase (ev_pubkey e)"
  shows "im_get_event enc t' i st' = Some r"
proof -
  have "t' \<noteq> t \<or> dec (ev_pubkey e) \<noteq> Some (xr_pubkey r)"
    using assms(5) hex_pair.enc_dec [OF assms(1)] by blast
  then show ?thesis
    using hex_pair.table_insert_keeps [OF assms(1-3)] assms(4) by (simp add: table_view_def)
qed

text \<open>
  An event a store takes in can be read back with the same identifier, author and signature (in
  lower case), time, kind and content, and with the same values under every tag name, in order --
  unless another tenant of the in-memory repository holds the same event: then the store reports
  it as inserted, but does not find it.\<close>

theorem repo_insert_get:
  assumes "hex_pair enc dec" and "table_run enc dec st"
    and "repo_insert dec (event_table_ops enc dec) t e st = (Ok Inserted, st')"
    and "dec (ev_id e) = Some i"
  shows "if \<exists>t'. im_get_event enc t' i st \<noteq> None
    then repo_get enc dec (event_table_ops enc dec) t (ev_id e) st' = Ok None
    else \<exists>e'. repo_get enc dec (event_table_ops enc dec) t (ev_id e) st' = Ok (Some e') \<and>
      ev_id e' = to_ascii_lowercase (ev_id e) \<and> ev_pubkey e' = to_ascii_lowercase (ev_pubkey e) \<and>
      ev_sig e' = to_ascii_lowercase (ev_sig e) \<and> ev_created_at e' = ev_created_at e \<and>
      ev_kind e' = ev_kind e \<and> ev_content e' = ev_content e \<and>
      (\<forall>name. store_tag_values (ev_tags e') name = store_tag_values (ev_tags e) name)"
proof -
  obtain r where r: "event_to_record dec e t = Ok r"
    and view: "table_view enc st' t (xr_id r) =
      (if \<exists>t'. table_view enc st t' (xr_id r) \<noteq> None then None else Some r)"
    using hex_pair.insert_then_view [OF assms(1) hex_pair.table_run_inv [OF assms(1,2)] assms(3)] by blast
  from event_to_record_Ok [OF r] have eq: "xr_id r = i" using assms(4) by simp
  have get: "repo_get enc dec (event_table_ops enc dec) t (ev_id e) st' =
      Ok (map_option (stored_event enc) (table_view enc st' t i))"
    using assms(4) by (simp add: repo_get_def decode_hex_id_def record_to_event_def split: option.split)
  show ?thesis
    using event_to_record_Ok [OF r] record_values [OF r] hex_pair.enc_dec [OF assms(1)]
    unfolding get view [unfolded eq] by (simp add: table_view_def stored_event_def)
qed

section \<open>Query plans are exact\<close>

definition record_wf :: "event_record \<Rightarrow> bool" where
  "record_wf r \<longleftrightarrow> length (xr_id r) = 32 \<and> length (xr_pubkey r) = 32 \<and>
     list_all (\<lambda>t. tr_name t \<noteq> [] \<and> trim (tr_name t) = tr_name t \<and> \<not> blank (tr_value t)) (xr_tags r)"

definition filter_wf :: "filter_rec \<Rightarrow> bool" where
  "filter_wf f \<longleftrightarrow> list_all (\<lambda>v. to_ascii_lowercase v = v) (fl_ids f @ fl_authors f) \<and>
     distinct (map fst (fl_tags f)) \<and> list_all (\<lambda>(name, values). values \<noteq> []) (fl_tags f)"

definition tenant_events :: "(u8 list \<Rightarrow> string) \<Rightarrow> string \<Rightarrow> event_table \<Rightarrow> event list" where
  "tenant_events enc t m =
     map (stored_event enc) (filter (\<lambda>r. xr_tenant_id r = t) (sort_key record_order (map snd m)))"

lemma group_tags_rows:
  assumes "tag \<in> set (group_tags tags)"
  shows "\<exists>name. tag = name # map tr_value (filter (\<lambda>t. tr_name t = name) tags) \<and> name \<in> tr_name ` set tags"
proof -
  from assms obtain name vs where tag: "tag = name # vs" and "(name, vs) \<in> set (foldl push_row [] tags)"
    by (auto simp: group_tags_def)
  then have "map_of (foldl push_row [] tags) name = Some vs"
    using bt.get_in [of "foldl push_row [] tags" name vs] group_tags_map [of tags name] by simp
  then have "vs = map tr_value (filter (\<lambda>t. tr_name t = name) tags)" "filter (\<lambda>t. tr_name t = name) tags \<noteq> []"
    using group_tags_map [of tags name] by (auto split: list.splits)
  then show ?thesis using tag by (auto simp: filter_empty_conv)
qed

lemma stored_indexable:
  assumes "record_wf r"
  shows "indexable (stored_event enc r)"
proof -
  have "tag_indexable tag" if "tag \<in> set (group_tags (xr_tags r))" for tag
    using group_tags_rows [OF that] assms
    by (auto simp: tag_indexable_def record_wf_def list_all_iff)
  then show ?thesis by (simp add: stored_event_def list_all_iff)
qed

lemma index_spec_group_tags:
  assumes "record_wf r"
  shows "index_spec (group_tags (xr_tags r)) name =
    (case filter (\<lambda>t. tr_name t = name) (xr_tags r) of
       [] \<Rightarrow> None | ts \<Rightarrow> Some (extend_unique [] (map tr_value ts)))"
proof -
  let ?m = "foldl push_row [] (xr_tags r)"
  have trimmed: "trim n = n" if "(n, vs) \<in> set ?m" for n vs
  proof -
    have "n # vs \<in> set (group_tags (xr_tags r))" using that by (force simp: group_tags_def)
    from group_tags_rows [OF this] show ?thesis using assms by (auto simp: record_wf_def list_all_iff)
  qed
  have filter: "filter (index_names name) (map (\<lambda>(n, vs). n # vs) ?m) =
      map (\<lambda>(n, vs). n # vs) (filter (\<lambda>e. fst e = name) ?m)"
    unfolding filter_map comp_def
    by (intro arg_cong [where f = "map (\<lambda>(n, vs). n # vs)"] filter_cong)
      (auto simp: index_names_def trimmed)
  have ex: "list_ex (index_names name) tags \<longleftrightarrow> filter (index_names name) tags \<noteq> []" for tags
    by (simp add: list_ex_iff filter_empty_conv)
  show ?thesis
    using group_tags_map [of "xr_tags r" name] entries_named [OF bt_wf_distinct, of ?m name]
    by (auto simp: index_spec_def ex group_tags_def filter split: list.splits)
qed

text \<open>Grouping the tag records a plan makes gives the filter's tags back.\<close>

definition plan_tags :: "(string, string list) entries \<Rightarrow> tag_record list" where
  "plan_tags tags = concat (map (\<lambda>(name, values). map (\<lambda>v. \<lparr>tr_name = name, tr_value = v\<rparr>) values) tags)"

lemma plan_tags_named:
  assumes "distinct (map fst tags)"
  shows "map tr_value (filter (\<lambda>t. tr_name t = name) (plan_tags tags)) =
    (case map_of tags name of None \<Rightarrow> [] | Some vs \<Rightarrow> vs)"
  using assms
proof (induction tags)
  case Nil
  then show ?case by (simp add: plan_tags_def)
next
  case (Cons e tags)
  obtain n vs where e: "e = (n, vs)" by (cases e)
  have "n \<notin> set (map fst tags)" using Cons.prems e by simp
  then have "n = name \<Longrightarrow> map_of tags name = None" by (auto simp: map_of_eq_None_iff)
  moreover have "filter (\<lambda>t. tr_name t = name) (map (\<lambda>v. \<lparr>tr_name = n, tr_value = v\<rparr>) vs) =
      (if n = name then map (\<lambda>v. \<lparr>tr_name = n, tr_value = v\<rparr>) vs else [])"
    by (induction vs) simp_all
  ultimately show ?case
    using Cons by (auto simp: plan_tags_def e comp_def)
qed

lemma values_by_plan_tags:
  assumes "distinct (map fst tags)" and "list_all (\<lambda>(name, values). values \<noteq> []) tags"
  shows "map_of (values_by_name (plan_tags tags)) = map_of tags"
proof
  fix name
  let ?ts = "filter (\<lambda>t. tr_name t = name) (plan_tags tags)"
  have vals: "map tr_value ?ts = (case map_of tags name of None \<Rightarrow> [] | Some vs \<Rightarrow> vs)"
    by (rule plan_tags_named [OF assms(1)])
  have "map_of (values_by_name (plan_tags tags)) name = (if ?ts = [] then None else Some (map tr_value ?ts))"
    using values_by_name [of "plan_tags tags" name] by (simp split: list.splits)
  moreover have "?ts = [] \<longleftrightarrow> map_of tags name = None"
  proof (cases "map_of tags name")
    case (Some vs)
    then have "vs \<noteq> []" using assms(2) map_of_SomeD [OF Some] by (auto simp: list_all_iff)
    with Some vals show ?thesis by auto
  qed (use vals in simp)
  ultimately show "map_of (values_by_name (plan_tags tags)) name = map_of tags name"
    using vals by (auto split: option.splits)
qed

lemma list_all_entries:
  "distinct (map fst m) \<Longrightarrow> list_all P m \<longleftrightarrow> (\<forall>k v. map_of m k = Some v \<longrightarrow> P (k, v))"
  by (force simp: list_all_iff map_of_eq_Some_iff)

lemma tag_filters_agree:
  assumes "record_wf r" and "distinct (map fst tags)" and "list_all (\<lambda>(name, values). values \<noteq> []) tags"
    and idx: "map_of idx = index_spec (group_tags (xr_tags r))"
  shows "list_all (\<lambda>(name, wanted). case map_of (values_by_name (xr_tags r)) name of
       None \<Rightarrow> False | Some values \<Rightarrow> list_ex (\<lambda>v. List.member wanted v) values)
         (values_by_name (plan_tags tags)) \<longleftrightarrow>
    list_all (\<lambda>(tag, values). case tag_index_values idx tag of
       None \<Rightarrow> False | Some existing \<Rightarrow> list_ex (\<lambda>v. list_ex (\<lambda>x. x = v) existing) values) tags"
proof -
  have "(case map_of (values_by_name (xr_tags r)) name of
       None \<Rightarrow> False | Some values \<Rightarrow> list_ex (\<lambda>v. List.member wanted v) values) \<longleftrightarrow>
     (case tag_index_values idx name of
       None \<Rightarrow> False | Some existing \<Rightarrow> list_ex (\<lambda>v. list_ex (\<lambda>x. x = v) existing) wanted)" for name wanted
    using values_by_name [of "xr_tags r" name] index_spec_group_tags [OF assms(1), of name]
    by (auto simp: tag_index_values_def idx list_ex_iff set_extend_unique split: list.splits)
  then show ?thesis
    using values_by_plan_tags [OF assms(2,3)] values_by_name [of "plan_tags tags"]
    by (simp add: list_all_entries hm_wf_def assms(2))
qed

lemma query_selects_iff:
  "query_selects dec q r \<longleftrightarrow>
     pred_option (\<lambda>t. xr_tenant_id r = t) (eq_tenant_id q) \<and>
     (eq_ids q = [] \<or> list_ex (hex_is dec (xr_id r)) (eq_ids q)) \<and>
     (eq_authors q = [] \<or> list_ex (hex_is dec (xr_pubkey r)) (eq_authors q)) \<and>
     (eq_kinds q = [] \<or> xr_kind r \<in> set (eq_kinds q)) \<and>
     pred_option (\<lambda>since. since \<le> xr_created_at r) (eq_since q) \<and>
     pred_option (\<lambda>until. xr_created_at r \<le> until) (eq_until q) \<and>
     list_all (\<lambda>(name, wanted). case map_of (values_by_name (xr_tags r)) name of
        None \<Rightarrow> False | Some values \<Rightarrow> list_ex (\<lambda>v. List.member wanted v) values) (values_by_name (eq_tags q))"
  unfolding query_selects_def Let_def
  by (cases "eq_tenant_id q"; cases "eq_since q"; cases "eq_until q") (simp_all add: not_less)

lemma filter_matches_iff:
  "filter_matches f e idx \<longleftrightarrow>
     (fl_ids f = [] \<or> list_ex (\<lambda>p. starts_with (ev_id e) p) (fl_ids f)) \<and>
     (fl_authors f = [] \<or> list_ex (\<lambda>p. starts_with (ev_pubkey e) p) (fl_authors f)) \<and>
     (fl_kinds f = [] \<or> ev_kind e \<in> set (fl_kinds f)) \<and>
     pred_option (\<lambda>since. since \<le> ev_created_at e) (fl_since f) \<and>
     pred_option (\<lambda>until. ev_created_at e \<le> until) (fl_until f) \<and>
     list_all (\<lambda>(tag, values). case tag_index_values idx tag of
        None \<Rightarrow> False | Some existing \<Rightarrow> list_ex (\<lambda>v. list_ex (\<lambda>x. x = v) existing) values) (fl_tags f)"
proof -
  have "list_ex (\<lambda>k. k = ev_kind e) (fl_kinds f) \<longleftrightarrow> ev_kind e \<in> set (fl_kinds f)"
    by (auto simp: list_ex_iff)
  then show ?thesis unfolding filter_matches_def
    by (cases "fl_since f"; cases "fl_until f") (simp_all add: not_less)
qed

context hex_pair
begin

lemma exact_filters_agree:
  assumes "list_all (\<lambda>v. to_ascii_lowercase v = v) vs" and "length bs = 32"
    and "exact_hex_filters dec vs = (us, need)"
  shows "us = [] \<or> list_ex (hex_is dec bs) us \<longleftrightarrow> need \<or> vs = [] \<or> list_ex (\<lambda>p. starts_with (enc bs) p) vs"
proof (cases "vs \<noteq> [] \<and> list_all (\<lambda>v. length v = HEX_32_LEN \<and> dec v \<noteq> None) vs")
  case True
  then have us: "us = vs" "\<not> need" using assms(3) by (auto simp: exact_hex_filters_def)
  have "hex_is dec bs v \<longleftrightarrow> starts_with (enc bs) v" if "v \<in> set vs" for v
  proof -
    have "to_ascii_lowercase v = v" "length v = 2 * length bs"
      using that True assms(1,2) by (auto simp: list_all_iff HEX_32_LEN_def)
    then show ?thesis
      using dec_lower [of v bs] prefix_enc [of v bs]
      by (auto simp: hex_is_def starts_with_def split: option.split)
  qed
  then show ?thesis using True us by (auto simp: list_ex_iff)
next
  case False
  then show ?thesis using assms(3) by (auto simp: exact_hex_filters_def split: if_splits)
qed

lemma plan_selects:
  assumes r: "record_wf r" and f: "filter_wf f" and t: "xr_tenant_id r = t"
  shows "query_selects dec ((qp_query (build_query_plan dec f))\<lparr>eq_tenant_id := Some t\<rparr>) r \<and>
     (qp_needs_post_filter (build_query_plan dec f) \<longrightarrow> event_matches f (stored_event enc r)) \<longleftrightarrow>
     event_matches f (stored_event enc r)"
proof -
  obtain ids ids_post where ids: "exact_hex_filters dec (fl_ids f) = (ids, ids_post)" by fastforce
  obtain authors authors_post where authors: "exact_hex_filters dec (fl_authors f) = (authors, authors_post)"
    by fastforce
  obtain idx where ok: "tag_index_from_tags (group_tags (xr_tags r)) = Ok idx"
    using tag_index_total stored_indexable [OF r, of enc] by (auto simp: stored_event_def)
  then have idx: "map_of idx = index_spec (group_tags (xr_tags r))" using tag_index_exact by blast
  have f': "list_all (\<lambda>v. to_ascii_lowercase v = v) (fl_ids f)" "list_all (\<lambda>v. to_ascii_lowercase v = v) (fl_authors f)"
    "distinct (map fst (fl_tags f))" "list_all (\<lambda>(name, values). values \<noteq> []) (fl_tags f)"
    using f by (simp_all add: filter_wf_def)
  have len: "length (xr_id r) = 32" "length (xr_pubkey r) = 32" using r by (simp_all add: record_wf_def)
  let ?K = "fl_kinds f = [] \<or> xr_kind r \<in> set (fl_kinds f)"
  let ?S = "pred_option (\<lambda>since. since \<le> xr_created_at r) (fl_since f)"
  let ?U = "pred_option (\<lambda>until. xr_created_at r \<le> until) (fl_until f)"
  let ?plan = "build_query_plan dec f"
  have plan: "qp_needs_post_filter ?plan \<longleftrightarrow> ids_post \<or> authors_post"
    "eq_ids (qp_query ?plan) = ids" "eq_authors (qp_query ?plan) = authors"
    "eq_kinds (qp_query ?plan) = fl_kinds f" "eq_since (qp_query ?plan) = fl_since f"
    "eq_until (qp_query ?plan) = fl_until f" "eq_tags (qp_query ?plan) = plan_tags (fl_tags f)"
    by (simp_all add: build_query_plan_def ids authors plan_tags_def Let_def)
  have sel: "query_selects dec ((qp_query ?plan)\<lparr>eq_tenant_id := Some t\<rparr>) r \<longleftrightarrow>
      (ids = [] \<or> list_ex (hex_is dec (xr_id r)) ids) \<and>
      (authors = [] \<or> list_ex (hex_is dec (xr_pubkey r)) authors) \<and> ?K \<and> ?S \<and> ?U \<and>
      list_all (\<lambda>(name, wanted). case map_of (values_by_name (xr_tags r)) name of
         None \<Rightarrow> False | Some values \<Rightarrow> list_ex (\<lambda>v. List.member wanted v) values)
        (values_by_name (plan_tags (fl_tags f)))"
    by (simp add: query_selects_iff plan t)
  have match: "event_matches f (stored_event enc r) \<longleftrightarrow>
      (fl_ids f = [] \<or> list_ex (\<lambda>p. starts_with (enc (xr_id r)) p) (fl_ids f)) \<and>
      (fl_authors f = [] \<or> list_ex (\<lambda>p. starts_with (enc (xr_pubkey r)) p) (fl_authors f)) \<and> ?K \<and> ?S \<and> ?U \<and>
      list_all (\<lambda>(tag, values). case tag_index_values idx tag of
       None \<Rightarrow> False | Some existing \<Rightarrow> list_ex (\<lambda>v. list_ex (\<lambda>x. x = v) existing) values) (fl_tags f)"
    by (simp add: event_matches_def stored_event_def ok filter_matches_iff)
  show ?thesis
    unfolding sel match plan(1) tag_filters_agree [OF r f'(3,4) idx]
      exact_filters_agree [OF f'(1) len(1) ids] exact_filters_agree [OF f'(2) len(2) authors]
    by argo
qed

lemma repo_scan_Ok:
  assumes "distinct (map xr_id rs)" and "list_all record_wf rs"
  shows "\<exists>seen. repo_scan enc f post n rs acc = Ok (seen, snd acc @ take n
    (filter (\<lambda>e. ev_id e \<notin> fst acc \<and> (post \<longrightarrow> event_matches f e)) (map (stored_event enc) rs)))"
  using assms
proof (induction rs arbitrary: n acc)
  case Nil
  then show ?case by (cases acc) simp
next
  case (Cons r rs)
  let ?e = "stored_event enc r"
  obtain idx where idx: "tag_index_from_tags (ev_tags ?e) = Ok idx"
    using Cons.prems(2) tag_index_total stored_indexable [of r enc] by auto
  then have match: "event_matches f ?e \<longleftrightarrow> filter_matches f ?e idx" by (simp add: event_matches_def)
  have others: "ev_id (stored_event enc x) \<noteq> ev_id ?e" if "x \<in> set rs" for x
    using that Cons.prems(1) by (auto simp: stored_event_def enc_inj) (metis image_eqI)
  have rest: "filter (\<lambda>e. ev_id e \<noteq> ev_id ?e \<and> ev_id e \<notin> fst acc \<and> (post \<longrightarrow> event_matches f e)) (map (stored_event enc) rs) =
      filter (\<lambda>e. ev_id e \<notin> fst acc \<and> (post \<longrightarrow> event_matches f e)) (map (stored_event enc) rs)"
    using others by (intro filter_cong) auto
  have ih: "\<exists>seen. repo_scan enc f post m rs acc' = Ok (seen, snd acc' @ take m
      (filter (\<lambda>e. ev_id e \<notin> fst acc' \<and> (post \<longrightarrow> event_matches f e)) (map (stored_event enc) rs)))" for m acc'
    using Cons by simp
  show ?case
  proof (cases "n = 0 \<or> ev_id ?e \<in> fst acc \<or> post \<and> \<not> event_matches f ?e")
    case True
    then show ?thesis using ih [of n acc] idx match
      by (cases acc) (auto simp: record_to_event_def)
  next
    case False
    then obtain k where "n = Suc k" by (cases n) auto
    then show ?thesis using False ih [of k "(insert (ev_id ?e) (fst acc), snd acc @ [?e])"] idx match rest
      by (auto simp: record_to_event_def)
  qed
qed

lemma table_ids_distinct:
  assumes "table_inv enc m"
  shows "distinct (map xr_id (map snd m))"
proof -
  have "fst e = event_key enc (xr_id (snd e))" if "e \<in> set m" for e
    using that assms hm.get_in [of m "fst e" "snd e"] by (auto simp: table_inv_def)
  then have "map fst m = map (\<lambda>i. event_key enc i) (map xr_id (map snd m))" by simp
  then have "distinct (map (\<lambda>i. event_key enc i) (map xr_id (map snd m)))"
    using assms unfolding table_inv_def hm_wf_def by metis
  then show ?thesis by (rule distinct_map [THEN iffD1, THEN conjunct1])
qed

lemma im_query_own:
  assumes "eq_tenant_id q = Some t"
  shows "im_query_events dec q m =
    (case eq_limit q of
       Some l \<Rightarrow> take l (filter (query_selects dec q) (filter (\<lambda>r. xr_tenant_id r = t) (sort_key record_order (map snd m))))
     | None \<Rightarrow> filter (query_selects dec q) (filter (\<lambda>r. xr_tenant_id r = t) (sort_key record_order (map snd m))))"
proof -
  have own: "filter (query_selects dec q) rs = filter (query_selects dec q) (filter (\<lambda>r. xr_tenant_id r = t) rs)" for rs
    using query_selects_tenant [of dec q _ t] assms by (auto simp: filter_filter intro!: filter_cong)
  show ?thesis
    unfolding im_query_events_def Let_def filter_sort [symmetric]
    by (subst (1 2) own) (rule refl)
qed

lemma tenant_events_sorted: "sorted (map query_order (tenant_events enc t m))"
proof -
  have ord: "query_order (stored_event enc a) \<le> query_order (stored_event enc b) \<longleftrightarrow> record_order a \<le> record_order b" for a b
    by (simp add: record_order_def query_order_def stored_event_def less_eq_prod_def enc_mono)
  have "sorted_wrt (\<lambda>a b. record_order a \<le> record_order b) (sort_key record_order (map snd m))"
    using sorted_sort_key [of record_order "map snd m"] by (simp add: sorted_map)
  then have "sorted_wrt (\<lambda>a b. query_order (stored_event enc a) \<le> query_order (stored_event enc b))
      (filter (\<lambda>r. xr_tenant_id r = t) (sort_key record_order (map snd m)))"
    unfolding ord by (rule sorted_wrt_filter)
  then show ?thesis by (simp add: tenant_events_def sorted_map sorted_wrt_map)
qed

lemma table_query:
  assumes inv: "table_inv enc m" and wf: "\<forall>r \<in> snd ` set m. xr_tenant_id r = t \<longrightarrow> record_wf r"
    and f: "filter_wf f"
  shows "repo_query enc dec (event_table_ops enc dec) t [f] m =
    Ok (take (filter_limit f) (filter (event_matches f) (tenant_events enc t m)))"
proof -
  let ?plan = "build_query_plan dec f" and ?n = "filter_limit f"
  let ?q = "(qp_query ?plan)\<lparr>eq_tenant_id := Some t\<rparr>" and ?post = "qp_needs_post_filter ?plan"
  let ?all = "sort_key record_order (map snd m)"
  let ?own = "filter (\<lambda>r. xr_tenant_id r = t) ?all"
  let ?rs = "im_query_events dec ?q m"
  have rs: "?rs = (case eq_limit ?q of Some l \<Rightarrow> take l (filter (query_selects dec ?q) ?own)
      | None \<Rightarrow> filter (query_selects dec ?q) ?own)"
    by (rule im_query_own) simp
  have lim: "eq_limit ?q = (if ?post then None else fl_limit f)"
    by (simp add: build_query_plan_def Let_def split: prod.split)
  have ids: "distinct (map xr_id ?all)"
    using table_ids_distinct [OF inv] by (metis distinct_sort set_sort sort_key_def distinct_map set_map)
  have own_wf: "record_wf r" if "r \<in> set ?own" for r using that wf by auto
  have sub: "set ?rs \<subseteq> set ?own" and dist: "distinct (map xr_id ?rs)"
    using ids unfolding rs
    by (auto simp: distinct_map_filter dest: in_set_takeD split: option.splits
        intro!: distinct_take simp flip: take_map)
  obtain seen where scan: "repo_scan enc f ?post ?n ?rs ({}, []) =
      Ok (seen, take ?n (filter (\<lambda>e. ?post \<longrightarrow> event_matches f e) (map (stored_event enc) ?rs)))"
    using repo_scan_Ok [OF dist, of f ?post ?n "({}, [])"] sub own_wf by (force simp: list_all_iff)
  have "take ?n (filter (\<lambda>e. ?post \<longrightarrow> event_matches f e) (map (stored_event enc) ?rs)) =
      take ?n (map (stored_event enc) (filter (\<lambda>r. query_selects dec ?q r \<and>
        (?post \<longrightarrow> event_matches f (stored_event enc r))) ?own))"
    by (cases ?post; cases "fl_limit f")
      (simp_all add: rs lim filter_limit_def filter_map comp_def filter_filter take_map conj_ac)
  also have "filter (\<lambda>r. query_selects dec ?q r \<and> (?post \<longrightarrow> event_matches f (stored_event enc r))) ?own =
      filter (\<lambda>r. event_matches f (stored_event enc r)) ?own"
    using plan_selects [OF own_wf f] by (intro filter_cong) auto
  finally have found: "take ?n (filter (\<lambda>e. ?post \<longrightarrow> event_matches f e) (map (stored_event enc) ?rs)) =
      take ?n (filter (event_matches f) (tenant_events enc t m))"
    by (simp add: tenant_events_def filter_map comp_def)
  have "sorted (map query_order (tenant_events enc t m))" by (rule tenant_events_sorted)
  then have "sorted (map query_order (take ?n (filter (event_matches f) (tenant_events enc t m))))"
    by (simp add: sorted_map sorted_wrt_filter sorted_wrt_take)
  then have "sort_key query_order (take ?n (filter (event_matches f) (tenant_events enc t m))) =
      take ?n (filter (event_matches f) (tenant_events enc t m))"
    by (simp add: sort_key_id_if_sorted)
  then show ?thesis
    using scan found by (simp add: repo_query_def repo_query_filter_def Let_def)
qed

end

text \<open>
  C21: the query plan computes what filtering every event would: a query with one filter returns the
  tenant's newest matching events, as many as the limit allows, whether the plan hands the
  identifiers and authors to the repository as exact values or filters prefixes afterwards. This
  needs a filter with lower-case values and no empty list of tag values, and stored tags whose names
  have no white space around them and whose values are not blank.\<close>

theorem repo_query_exact:
  assumes "hex_pair enc dec" and "table_run enc dec st"
    and "\<forall>r \<in> snd ` set st. xr_tenant_id r = t \<longrightarrow> record_wf r" and "filter_wf f"
  shows "repo_query enc dec (event_table_ops enc dec) t [f] st =
    Ok (take (filter_limit f) (filter (event_matches f) (tenant_events enc t st)))"
  by (rule hex_pair.table_query [OF assms(1) hex_pair.table_run_inv [OF assms(1,2)] assms(3,4)])

subsection \<open>A table with one event\<close>

definition sample_note :: event where
  "sample_note =
     \<lparr>ev_id = bytes_to_hex (replicate 32 1), ev_pubkey = bytes_to_hex (replicate 32 2), ev_created_at = 7,
      ev_kind = 1, ev_tags = [[''t'', ''x'']], ev_content = ''hi'', ev_sig = bytes_to_hex (replicate 64 3)\<rparr>"

definition sample_record :: "string \<Rightarrow> event_record" where
  "sample_record t =
     \<lparr>xr_tenant_id = t, xr_id = replicate 32 1, xr_pubkey = replicate 32 2, xr_created_at = 7, xr_kind = 1,
      xr_content = ''hi'', xr_sig = replicate 64 3, xr_tags = [\<lparr>tr_name = ''t'', tr_value = ''x''\<rparr>]\<rparr>"

definition sample_filter :: filter_rec where
  "sample_filter = empty_filter\<lparr>fl_kinds := [1], fl_limit := Some 1, fl_tags := [(''t'', [''x''])]\<rparr>"

abbreviation hex_table_ops :: "event_table event_repo_ops" where
  "hex_table_ops \<equiv> event_table_ops bytes_to_hex bytes_of_hex"

lemma bytes_to_hex_length [simp]: "length (bytes_to_hex bs) = 2 * length bs"
  using bytes_to_hex_is_hex [of bs] by (simp add: is_hex_len_def)

lemma decode_encoded:
  "n = 2 * length bs \<Longrightarrow> decode_hex_field bytes_of_hex field (bytes_to_hex bs) n = Ok bs"
  by (simp add: decode_hex_field_def bytes_of_hex_encoded)

lemma sample_tags: "flatten_tags [[''t'', ''x'']] = Ok [\<lparr>tr_name = ''t'', tr_value = ''x''\<rparr>]"
  by code_simp

lemma sample_to_record:
  assumes "\<not> blank t"
  shows "event_to_record bytes_of_hex sample_note t = Ok (sample_record t)"
proof -
  obtain a b c :: "8 word list" where abc: "a = replicate 32 1" "b = replicate 32 2" "c = replicate 64 3" by blast
  have len: "length a = 32" "length b = 32" "length c = 64" by (simp_all only: abc length_replicate)
  show ?thesis
    using assms len
    unfolding event_to_record_def event_record_new_def sample_note_def sample_record_def abc [symmetric]
    by (simp add: decode_encoded sample_tags HEX_32_LEN_def HEX_64_LEN_def)
qed

lemma sample_not_replaceable: "replaceable_key sample_note = None"
  by (simp add: sample_note_def replaceable_key_def is_replaceable_kind_def
      is_parameterized_replaceable_kind_def word_le_nat_alt)

lemma sample_insert:
  assumes "\<not> blank t" and "im_get_event bytes_to_hex t (replicate 32 1) m = None"
  shows "repo_insert bytes_of_hex hex_table_ops t sample_note m =
    (Ok Inserted, im_insert_event bytes_to_hex (sample_record t) m)"
proof -
  have "xr_id (sample_record t) = replicate 32 1" "ev_kind sample_note \<noteq> 5"
    by (simp_all add: sample_record_def sample_note_def)
  then show ?thesis
    using assms by (simp add: repo_insert_def sample_to_record sample_not_replaceable table_view_def st_map_err_def)
qed

lemma sample_names: "\<not> blank ''a''" "\<not> blank ''b''" "\<not> blank ''x''" "trim ''t'' = ''t''"
  by (simp_all add: trim_plain_ends)

lemma sample_table:
  "snd (repo_insert bytes_of_hex hex_table_ops ''a'' sample_note []) =
     [(bytes_to_hex (replicate 32 1), sample_record ''a'')]"
  using sample_insert [of "''a''" "[]"] sample_names(1)
  by (simp add: im_get_event_def im_insert_event_def event_key_def sample_record_def)

lemma sample_table_run:
  "table_run bytes_to_hex bytes_of_hex [(bytes_to_hex (replicate 32 1), sample_record ''a'')]"
  using table_run.insert [OF table_run.new, of bytes_to_hex bytes_of_hex "''a''" sample_note]
  by (simp only: sample_table)

lemma sample_get: "im_get_event bytes_to_hex ''a'' (replicate 32 1)
    [(bytes_to_hex (replicate 32 1), sample_record ''a'')] = Some (sample_record ''a'')"
  by (simp add: im_get_event_def event_key_def sample_record_def)

lemma sample_other_get: "im_get_event bytes_to_hex ''b'' i [(bytes_to_hex (replicate 32 1), sample_record ''a'')] = None"
  by (simp add: im_get_event_def event_key_def sample_record_def)

theorem repo_store_isolation_witness:
  "im_get_event bytes_to_hex ''a'' (replicate 32 1)
     (snd (repo_insert bytes_of_hex hex_table_ops ''b'' sample_note
       [(bytes_to_hex (replicate 32 1), sample_record ''a'')])) = Some (sample_record ''a'')"
  by (rule repo_store_isolation [OF hex_bytes.hex_pair_axioms sample_table_run surjective_pairing sample_get]) simp

theorem repo_insert_get_witness:
  "\<exists>e'. repo_get bytes_to_hex bytes_of_hex hex_table_ops ''a'' (ev_id sample_note)
      [(bytes_to_hex (replicate 32 1), sample_record ''a'')] = Ok (Some e') \<and> ev_content e' = ''hi''"
proof -
  have id: "bytes_of_hex (ev_id sample_note) = Some (replicate 32 1)"
    unfolding sample_note_def event.simps by (rule bytes_of_hex_encoded)
  have "repo_insert bytes_of_hex hex_table_ops ''a'' sample_note [] =
      (Ok Inserted, [(bytes_to_hex (replicate 32 1), sample_record ''a'')])"
    using sample_insert [of "''a''" "[]"] sample_table sample_names(1) by (simp add: im_get_event_def)
  from repo_insert_get [OF hex_bytes.hex_pair_axioms table_run.new this id]
  show ?thesis by (auto simp: im_get_event_def sample_note_def)
qed

theorem repo_query_exact_witness:
  "repo_query bytes_to_hex bytes_of_hex hex_table_ops ''a'' [sample_filter]
     [(bytes_to_hex (replicate 32 1), sample_record ''a'')] =
   Ok (take 1 (filter (event_matches sample_filter)
     (tenant_events bytes_to_hex ''a'' [(bytes_to_hex (replicate 32 1), sample_record ''a'')])))"
proof -
  have "record_wf (sample_record ''a'')"
    using sample_names by (simp add: record_wf_def sample_record_def)
  moreover have "filter_wf sample_filter" by (simp add: filter_wf_def sample_filter_def empty_filter_def)
  moreover have "filter_limit sample_filter = 1" by (simp add: filter_limit_def sample_filter_def)
  ultimately show ?thesis
    using repo_query_exact [OF hex_bytes.hex_pair_axioms sample_table_run, of "''a''" sample_filter] by simp
qed

end
