(* ===== verification/Storage_Records.thy ===== *)
theory Storage_Records
  imports Rust_Utf8 Rust_Hex Core_Announcement Core_State Core_Compat
begin

text \<open>
  The records the services store (\<open>crates/storage/src/repo.rs\<close>, \<open>repo_mapping.rs\<close>,
  \<open>account.rs\<close>, \<open>profile.rs\<close>, \<open>relay_tenant.rs\<close>, \<open>relay_compat.rs\<close>,
  \<open>command_state.rs\<close>, \<open>config.rs\<close>) and their checked constructors. The crate
  \<open>serde_json\<close> and the decoder of the crate \<open>hex\<close> are parameters.
\<close>

section \<open>Repositories\<close>

record repo_announcement_record =
  rr_event_id :: "u8 list"
  rr_pubkey :: "u8 list"
  rr_identifier :: string
  rr_name :: "string option"
  rr_description :: "string option"
  rr_root_commit :: "string option"
  rr_clone_urls :: "string list"
  rr_web_urls :: "string list"
  rr_relays :: "string list"
  rr_blossoms :: "string list"
  rr_hashtags :: "string list"
  rr_maintainers :: "string list"
  rr_created_at :: int

definition announcement_record_new ::
  "hex_decoder \<Rightarrow> string \<Rightarrow> string \<Rightarrow> int \<Rightarrow> repo_announcement \<Rightarrow>
   (storage_error, repo_announcement_record) result" where
  "announcement_record_new dec event_id pubkey created_at a =
     and_then (map_err (\<lambda>e. StorageInvalidField ''announcement'' (core_error_display e))
       (announcement_validate a)) (\<lambda>_.
     and_then (decode_hex_32 dec ''event_id'' event_id) (\<lambda>event_id.
     and_then (decode_hex_32 dec ''pubkey'' pubkey) (\<lambda>pubkey.
     Ok \<lparr>rr_event_id = event_id, rr_pubkey = pubkey, rr_identifier = ann_identifier a,
         rr_name = ann_name a, rr_description = ann_description a, rr_root_commit = ann_root_commit a,
         rr_clone_urls = ann_clone a, rr_web_urls = ann_web a, rr_relays = ann_relays a,
         rr_blossoms = ann_blossoms a, rr_hashtags = ann_hashtags a,
         rr_maintainers = ann_maintainers a, rr_created_at = created_at\<rparr>)))"

record repo_state_record =
  sr_event_id :: "u8 list"
  sr_pubkey :: "u8 list"
  sr_identifier :: string
  sr_created_at :: int
  sr_state_json :: string

type_synonym ref_entries = "(string, string) entries"

definition state_record_new ::
  "(ref_entries \<Rightarrow> string) \<Rightarrow> hex_decoder \<Rightarrow> string \<Rightarrow> string \<Rightarrow> int \<Rightarrow> repo_state \<Rightarrow>
   (storage_error, repo_state_record) result" where
  "state_record_new to_json dec event_id pubkey created_at st =
     and_then (map_err (\<lambda>e. StorageInvalidField ''state'' (core_error_display e)) (repo_state_validate st)) (\<lambda>_.
     and_then (decode_hex_32 dec ''event_id'' event_id) (\<lambda>event_id.
     and_then (decode_hex_32 dec ''pubkey'' pubkey) (\<lambda>pubkey.
     Ok \<lparr>sr_event_id = event_id, sr_pubkey = pubkey, sr_identifier = rs_identifier st,
         sr_created_at = created_at, sr_state_json = to_json (rs_state st)\<rparr>)))"

definition state_map ::
  "(string \<Rightarrow> (string, ref_entries) result) \<Rightarrow> repo_state_record \<Rightarrow> (storage_error, ref_entries) result" where
  "state_map from_json r = map_err (StorageSerialization ''state'') (from_json (sr_state_json r))"

record repo_mapping_record =
  mp_forgejo_owner :: string
  mp_forgejo_repo :: string
  mp_pubkey :: "u8 list"
  mp_identifier :: string

definition mapping_record_new :: "hex_decoder \<Rightarrow> repo_mapping \<Rightarrow> (storage_error, repo_mapping_record) result" where
  "mapping_record_new dec mapping =
     and_then (decode_hex_32 dec ''pubkey'' (rm_pubkey mapping)) (\<lambda>pubkey.
     Ok \<lparr>mp_forgejo_owner = fr_owner (rm_forgejo mapping), mp_forgejo_repo = fr_name (rm_forgejo mapping),
         mp_pubkey = pubkey, mp_identifier = rm_identifier mapping\<rparr>)"

definition forgejo_full_name :: "repo_mapping_record \<Rightarrow> string" where
  "forgejo_full_name r = mp_forgejo_owner r @ ''/'' @ mp_forgejo_repo r"

section \<open>Accounts and profiles\<close>

record account_record =
  ac_pubkey :: "u8 list"
  ac_forgejo_username :: string

definition account_record_new :: "hex_decoder \<Rightarrow> string \<Rightarrow> string \<Rightarrow> (storage_error, account_record) result" where
  "account_record_new dec pubkey forgejo_username =
     and_then (ensure (\<not> blank forgejo_username) (StorageInvalidField ''forgejo_username'' forgejo_username)) (\<lambda>_.
     and_then (decode_hex_32 dec ''pubkey'' pubkey) (\<lambda>pubkey.
     Ok \<lparr>ac_pubkey = pubkey, ac_forgejo_username = forgejo_username\<rparr>))"

definition MAX_DISPLAY_NAME :: nat where "MAX_DISPLAY_NAME = 80"
definition MAX_BIO :: nat where "MAX_BIO = 500"
definition MAX_AVATAR_URL :: nat where "MAX_AVATAR_URL = 300"
definition MAX_WEBSITE_URL :: nat where "MAX_WEBSITE_URL = 300"
definition MAX_LOCATION :: nat where "MAX_LOCATION = 120"

datatype profile_visibility = VisPrivate | VisPublic

fun visibility_as_str :: "profile_visibility \<Rightarrow> string" where
  "visibility_as_str VisPrivate = ''private''"
| "visibility_as_str VisPublic = ''public''"

definition visibility_parse :: "string \<Rightarrow> (storage_error, profile_visibility) result" where
  "visibility_parse v =
     (let s = to_ascii_lowercase (trim v) in
      if s = ''private'' then Ok VisPrivate
      else if s = ''public'' then Ok VisPublic
      else Err (StorageInvalidField ''visibility'' v))"

record profile_record =
  pf_pubkey :: "u8 list"
  pf_display_name :: "string option"
  pf_bio :: "string option"
  pf_avatar_url :: "string option"
  pf_website_url :: "string option"
  pf_location :: "string option"
  pf_visibility :: profile_visibility
  pf_created_at :: int
  pf_updated_at :: int

definition normalize_optional ::
  "string \<Rightarrow> string option \<Rightarrow> nat \<Rightarrow> (storage_error, string option) result" where
  "normalize_optional field v max_len =
     (case map_option trim v of
        None \<Rightarrow> Ok None
      | Some v \<Rightarrow>
          (if v = [] then Ok None
           else if length v > max_len then Err (StorageInvalidField field v)
           else Ok (Some v)))"

definition is_http_url :: "string \<Rightarrow> bool" where
  "is_http_url url \<longleftrightarrow>
     (let lower = to_ascii_lowercase url in starts_with lower ''http://'' \<or> starts_with lower ''https://'')"

definition normalize_optional_url ::
  "string \<Rightarrow> string option \<Rightarrow> nat \<Rightarrow> (storage_error, string option) result" where
  "normalize_optional_url field v max_len =
     and_then (normalize_optional field v max_len) (\<lambda>v.
     and_then (ensure_opt is_http_url (StorageInvalidField field) v) (\<lambda>_. Ok v))"

definition profile_record_new ::
  "hex_decoder \<Rightarrow> string \<Rightarrow> string option \<Rightarrow> string option \<Rightarrow> string option \<Rightarrow> string option \<Rightarrow>
   string option \<Rightarrow> profile_visibility \<Rightarrow> int \<Rightarrow> int \<Rightarrow> (storage_error, profile_record) result" where
  "profile_record_new dec pubkey display_name bio avatar_url website_url location visibility created_at updated_at =
     and_then (ensure (\<not> updated_at < created_at)
        (StorageInvalidField ''updated_at'' (show_int updated_at))) (\<lambda>_.
     and_then (decode_hex_32 dec ''pubkey'' pubkey) (\<lambda>pubkey.
     and_then (normalize_optional ''display_name'' display_name MAX_DISPLAY_NAME) (\<lambda>display_name.
     and_then (normalize_optional ''bio'' bio MAX_BIO) (\<lambda>bio.
     and_then (normalize_optional_url ''avatar_url'' avatar_url MAX_AVATAR_URL) (\<lambda>avatar_url.
     and_then (normalize_optional_url ''website_url'' website_url MAX_WEBSITE_URL) (\<lambda>website_url.
     and_then (normalize_optional ''location'' location MAX_LOCATION) (\<lambda>location.
     Ok \<lparr>pf_pubkey = pubkey, pf_display_name = display_name, pf_bio = bio, pf_avatar_url = avatar_url,
         pf_website_url = website_url, pf_location = location, pf_visibility = visibility,
         pf_created_at = created_at, pf_updated_at = updated_at\<rparr>)))))))"

section \<open>Tenants of the relay\<close>

definition MAX_HOST_LEN :: nat where "MAX_HOST_LEN = 255"
definition MAX_NAME_LEN :: nat where "MAX_NAME_LEN = 120"
definition MAX_DESC_LEN :: nat where "MAX_DESC_LEN = 500"
definition MAX_URL_LEN :: nat where "MAX_URL_LEN = 300"

record relay_tenant_record =
  tn_id :: string
  tn_host :: string
  tn_relay_pubkey :: "u8 list"
  tn_relay_secret :: "u8 list"
  tn_relay_secret_nonce :: "u8 list"
  tn_relay_secret_kid :: string
  tn_name :: "string option"
  tn_description :: "string option"
  tn_icon :: "string option"
  tn_banner :: "string option"
  tn_contact :: "string option"
  tn_auth_required :: bool
  tn_public_read :: bool
  tn_public_write :: bool
  tn_created_at :: int
  tn_updated_at :: int

definition tenant_record_new ::
  "hex_decoder \<Rightarrow> string \<Rightarrow> string \<Rightarrow> string \<Rightarrow> u8 list \<Rightarrow> u8 list \<Rightarrow> string \<Rightarrow> string option \<Rightarrow> string option \<Rightarrow>
   string option \<Rightarrow> string option \<Rightarrow> string option \<Rightarrow> bool \<Rightarrow> bool \<Rightarrow> bool \<Rightarrow> int \<Rightarrow> int \<Rightarrow>
   (storage_error, relay_tenant_record) result" where
  "tenant_record_new dec i host relay_pubkey relay_secret relay_secret_nonce relay_secret_kid name description icon
     banner contact auth_required public_read public_write created_at updated_at =
     (let host = to_ascii_lowercase (trim host) in
     and_then (ensure (\<not> blank i) (StorageInvalidField ''tenant_id'' ''empty'')) (\<lambda>_.
     and_then (ensure (\<not> (host = [] \<or> length host > MAX_HOST_LEN \<or> CHR '' '' \<in> set host))
        (StorageInvalidField ''host'' host)) (\<lambda>_.
     and_then (ensure (relay_secret \<noteq> []) (StorageInvalidField ''relay_secret'' ''empty'')) (\<lambda>_.
     and_then (ensure (relay_secret_nonce \<noteq> []) (StorageInvalidField ''relay_secret_nonce'' ''empty'')) (\<lambda>_.
     and_then (ensure (\<not> blank relay_secret_kid) (StorageInvalidField ''relay_secret_kid'' relay_secret_kid)) (\<lambda>_.
     and_then (ensure (\<not> updated_at < created_at)
        (StorageInvalidField ''updated_at'' (show_int updated_at))) (\<lambda>_.
     and_then (decode_hex_32 dec ''relay_pubkey'' relay_pubkey) (\<lambda>relay_pubkey.
     and_then (normalize_optional ''name'' name MAX_NAME_LEN) (\<lambda>name.
     and_then (normalize_optional ''description'' description MAX_DESC_LEN) (\<lambda>description.
     and_then (normalize_optional_url ''icon'' icon MAX_URL_LEN) (\<lambda>icon.
     and_then (normalize_optional_url ''banner'' banner MAX_URL_LEN) (\<lambda>banner.
     and_then (normalize_optional ''contact'' contact MAX_URL_LEN) (\<lambda>contact.
     Ok \<lparr>tn_id = i, tn_host = host, tn_relay_pubkey = relay_pubkey, tn_relay_secret = relay_secret,
         tn_relay_secret_nonce = relay_secret_nonce, tn_relay_secret_kid = relay_secret_kid, tn_name = name,
         tn_description = description, tn_icon = icon, tn_banner = banner, tn_contact = contact,
         tn_auth_required = auth_required, tn_public_read = public_read, tn_public_write = public_write,
         tn_created_at = created_at, tn_updated_at = updated_at\<rparr>)))))))))))))"

section \<open>Relay compatibility\<close>

record relay_probe_metadata =
  pm_nip11_url :: "string option"
  pm_nip11_available :: bool
  pm_active_probe_ok :: "bool option"
  pm_active_probe_error :: "string option"

definition default_probe_metadata :: relay_probe_metadata where
  "default_probe_metadata =
     \<lparr>pm_nip11_url = None, pm_nip11_available = False, pm_active_probe_ok = None, pm_active_probe_error = None\<rparr>"

record relay_compatibility_record =
  rc_relay_url :: string
  rc_compatible :: bool
  rc_supported_capabilities :: "string list"
  rc_missing_required :: "string list"
  rc_missing_optional :: "string list"
  rc_report_json :: string
  rc_nip11_url :: "string option"
  rc_nip11_available :: bool
  rc_active_probe_ok :: "bool option"
  rc_active_probe_error :: "string option"
  rc_checked_at :: int

definition capabilities_as_strings :: "relay_capability list \<Rightarrow> string list" where
  "capabilities_as_strings caps = map capability_as_str caps"

definition compatibility_record_new ::
  "(compatibility_report \<Rightarrow> string) \<Rightarrow> compatibility_report \<Rightarrow> int \<Rightarrow> relay_probe_metadata \<Rightarrow>
   (storage_error, relay_compatibility_record) result" where
  "compatibility_record_new to_json report checked_at metadata =
     and_then (ensure (\<not> blank (cr_relay_url report)) (StorageInvalidField ''relay_url'' ''empty'')) (\<lambda>_.
     Ok \<lparr>rc_relay_url = cr_relay_url report, rc_compatible = is_compatible report,
         rc_supported_capabilities = capabilities_as_strings (cr_supported report),
         rc_missing_required = capabilities_as_strings (cr_missing_required report),
         rc_missing_optional = capabilities_as_strings (cr_missing_optional report),
         rc_report_json = to_json report, rc_nip11_url = pm_nip11_url metadata,
         rc_nip11_available = pm_nip11_available metadata, rc_active_probe_ok = pm_active_probe_ok metadata,
         rc_active_probe_error = pm_active_probe_error metadata, rc_checked_at = checked_at\<rparr>)"

definition compatibility_report_of ::
  "(string \<Rightarrow> (string, compatibility_report) result) \<Rightarrow> relay_compatibility_record \<Rightarrow>
   (storage_error, compatibility_report) result" where
  "compatibility_report_of from_json r = map_err (StorageSerialization ''report'') (from_json (rc_report_json r))"

section \<open>Connection settings\<close>

record storage_config =
  st_read_connection :: string
  st_write_connection :: "string option"
  st_max_connections :: u32
  st_min_connections :: u32
  st_idle_timeout_secs :: "nat option"
  st_max_lifetime_secs :: "nat option"
  st_application_name :: "string option"

definition storage_config_validate :: "storage_config \<Rightarrow> (storage_error, unit) result" where
  "storage_config_validate c =
     and_then (ensure (st_max_connections c \<noteq> 0)
       (StorageInvalidPoolConfig ''max_connections'' (st_max_connections c))) (\<lambda>_.
     ensure (\<not> st_min_connections c > st_max_connections c)
       (StorageInvalidPoolConfig ''min_connections'' (st_min_connections c)))"

section \<open>What the constructors let through\<close>

lemma decode_hex_32_Ok [result_simps]:
  "decode_hex_32 dec field v = Ok bs \<longleftrightarrow> length v = 64 \<and> dec v = Some bs"
  by (auto simp: decode_hex_32_def HEX_32_LEN_def ok_or_eq_Ok split: if_splits)

context hex_pair
begin

lemma decode_hex_32_bytes:
  assumes "decode_hex_32 dec field v = Ok bs"
  shows "length bs = 32" and "enc bs = to_ascii_lowercase v"
  using assms dec_length [of v bs] enc_dec [of v bs] by (simp_all add: decode_hex_32_Ok)

end

lemma lowercase_idem [simp]: "to_ascii_lowercase (to_ascii_lowercase s) = to_ascii_lowercase s"
proof -
  have "\<not> (65 \<le> byte (char_of (n + 32 :: nat)) \<and> byte (char_of (n + 32)) \<le> 90)" if "65 \<le> n" "n \<le> 90" for n :: nat
    using that by simp
  then show ?thesis by (auto simp: to_ascii_lowercase_def)
qed

definition text_wf :: "nat \<Rightarrow> string option \<Rightarrow> bool" where
  "text_wf max_len v \<longleftrightarrow> pred_option (\<lambda>t. t \<noteq> [] \<and> length t \<le> max_len) v"

definition url_wf :: "nat \<Rightarrow> string option \<Rightarrow> bool" where
  "url_wf max_len v \<longleftrightarrow> text_wf max_len v \<and> pred_option is_http_url v"

lemma normalize_optional_wf: "normalize_optional field v max_len = Ok w \<Longrightarrow> text_wf max_len w"
  by (auto simp: normalize_optional_def text_wf_def split: option.splits if_splits)

lemma normalize_optional_url_wf: "normalize_optional_url field v max_len = Ok w \<Longrightarrow> url_wf max_len w"
  using normalize_optional_wf
  by (auto simp: normalize_optional_url_def url_wf_def and_then_eq_Ok ensure_opt_eq_Ok)

definition profile_record_wf :: "profile_record \<Rightarrow> bool" where
  "profile_record_wf p \<longleftrightarrow> length (pf_pubkey p) = 32 \<and> pf_created_at p \<le> pf_updated_at p \<and>
     text_wf 80 (pf_display_name p) \<and> text_wf 500 (pf_bio p) \<and> url_wf 300 (pf_avatar_url p) \<and>
     url_wf 300 (pf_website_url p) \<and> text_wf 120 (pf_location p)"

definition tenant_record_wf :: "relay_tenant_record \<Rightarrow> bool" where
  "tenant_record_wf r \<longleftrightarrow> \<not> blank (tn_id r) \<and> length (tn_relay_pubkey r) = 32 \<and>
     tn_relay_secret r \<noteq> [] \<and> tn_relay_secret_nonce r \<noteq> [] \<and> \<not> blank (tn_relay_secret_kid r) \<and>
     tn_host r \<noteq> [] \<and> length (tn_host r) \<le> 255 \<and> CHR '' '' \<notin> set (tn_host r) \<and>
     to_ascii_lowercase (tn_host r) = tn_host r \<and> tn_created_at r \<le> tn_updated_at r \<and>
     text_wf 120 (tn_name r) \<and> text_wf 500 (tn_description r) \<and> url_wf 300 (tn_icon r) \<and>
     url_wf 300 (tn_banner r) \<and> text_wf 300 (tn_contact r)"

lemmas record_limits = MAX_DISPLAY_NAME_def MAX_BIO_def MAX_AVATAR_URL_def MAX_WEBSITE_URL_def MAX_LOCATION_def
  MAX_HOST_LEN_def MAX_NAME_LEN_def MAX_DESC_LEN_def MAX_URL_LEN_def

context hex_pair
begin

lemma profile_record_new_wf:
  assumes "profile_record_new dec pubkey display_name bio avatar_url website_url location visibility created updated = Ok p"
  shows "profile_record_wf p" and "dec pubkey = Some (pf_pubkey p)" and "pf_visibility p = visibility"
  using assms decode_hex_32_bytes(1)
    normalize_optional_wf [of _ _ "80"] normalize_optional_wf [of _ _ "500"] normalize_optional_wf [of _ _ "120"]
    normalize_optional_url_wf [of _ _ "300"]
  by (auto simp: profile_record_new_def profile_record_wf_def and_then_eq_Ok ensure_eq_Ok record_limits decode_hex_32_Ok)

end



end
