(* ===== verification/Storage_Directory.thy ===== *)
theory Storage_Directory
  imports Storage_Records Rust_State
begin

text \<open>
  The in-memory repositories of announcements, states, mappings, accounts, profiles, relay
  compatibility and tenants (\<open>crates/storage/src/repositories.rs\<close>). Accounts are indexed by key
  and by user name; the locale \<open>account_repo\<close> is the contract of \<open>AccountRepository\<close>, the two
  indexes as one relation. The locks of the repository are never poisoned: no operation panics
  while it holds one.
\<close>

record in_memory_directory =
  dr_announcements :: "(string, repo_announcement_record list) entries"
  dr_states :: "(string, repo_state_record list) entries"
  dr_mappings_by_forgejo :: "(string, repo_mapping_record) entries"
  dr_mappings_by_repo :: "(string, repo_mapping_record) entries"
  dr_accounts_by_pubkey :: "(string, account_record) entries"
  dr_accounts_by_username :: "(string, account_record) entries"
  dr_profiles_by_pubkey :: "(string, profile_record) entries"
  dr_relay_compatibility :: "(string, relay_compatibility_record) entries"
  dr_tenants_by_id :: "(string, relay_tenant_record) entries"
  dr_tenants_by_host :: "(string, string) entries"

definition new_directory :: in_memory_directory where
  "new_directory =
     \<lparr>dr_announcements = [], dr_states = [], dr_mappings_by_forgejo = [], dr_mappings_by_repo = [],
      dr_accounts_by_pubkey = [], dr_accounts_by_username = [], dr_profiles_by_pubkey = [],
      dr_relay_compatibility = [], dr_tenants_by_id = [], dr_tenants_by_host = []\<rparr>"

type_synonym encoder = "u8 list \<Rightarrow> string"

definition repo_key :: "encoder \<Rightarrow> u8 list \<Rightarrow> string \<Rightarrow> string" where
  "repo_key enc pubkey ident = enc pubkey @ '':'' @ ident"

definition forgejo_key :: "string \<Rightarrow> string \<Rightarrow> string" where
  "forgejo_key owner repo = owner @ ''/'' @ repo"

definition account_key :: "encoder \<Rightarrow> u8 list \<Rightarrow> string" where
  "account_key enc pubkey = enc pubkey"

definition profile_key :: "encoder \<Rightarrow> u8 list \<Rightarrow> string" where
  "profile_key enc pubkey = account_key enc pubkey"

definition tenant_key :: "string \<Rightarrow> string" where
  "tenant_key tenant_id = tenant_id"

section \<open>Announcements and states\<close>

text \<open>\<open>entry(key).or_default().push(record)\<close>, and the last of a stable sort by time.\<close>

definition push_record :: "string \<Rightarrow> 'v \<Rightarrow> (string, 'v list) entries \<Rightarrow> (string, 'v list) entries" where
  "push_record key r m = hm_insert key ((case map_of m key of Some rs \<Rightarrow> rs | None \<Rightarrow> []) @ [r]) m"

definition records_at :: "string \<Rightarrow> (string, 'v list) entries \<Rightarrow> 'v list" where
  "records_at key m = (case map_of m key of Some rs \<Rightarrow> rs | None \<Rightarrow> [])"

definition latest_by :: "('v \<Rightarrow> int) \<Rightarrow> 'v list \<Rightarrow> 'v option" where
  "latest_by time rs = (case sort_key time rs of [] \<Rightarrow> None | rs' \<Rightarrow> Some (last rs'))"

definition insert_announcement :: "encoder \<Rightarrow> repo_announcement_record \<Rightarrow> in_memory_directory \<Rightarrow> in_memory_directory" where
  "insert_announcement enc r d =
     d\<lparr>dr_announcements := push_record (repo_key enc (rr_pubkey r) (rr_identifier r)) r (dr_announcements d)\<rparr>"

definition list_announcements :: "encoder \<Rightarrow> u8 list \<Rightarrow> string \<Rightarrow> in_memory_directory \<Rightarrow> repo_announcement_record list" where
  "list_announcements enc pubkey ident d = records_at (repo_key enc pubkey ident) (dr_announcements d)"

definition latest_announcement :: "encoder \<Rightarrow> u8 list \<Rightarrow> string \<Rightarrow> in_memory_directory \<Rightarrow> repo_announcement_record option" where
  "latest_announcement enc pubkey ident d = latest_by rr_created_at (list_announcements enc pubkey ident d)"

definition insert_state :: "encoder \<Rightarrow> repo_state_record \<Rightarrow> in_memory_directory \<Rightarrow> in_memory_directory" where
  "insert_state enc r d =
     d\<lparr>dr_states := push_record (repo_key enc (sr_pubkey r) (sr_identifier r)) r (dr_states d)\<rparr>"

definition latest_state_record :: "encoder \<Rightarrow> u8 list \<Rightarrow> string \<Rightarrow> in_memory_directory \<Rightarrow> repo_state_record option" where
  "latest_state_record enc pubkey ident d =
     latest_by sr_created_at (records_at (repo_key enc pubkey ident) (dr_states d))"

section \<open>Mappings\<close>

definition upsert_mapping :: "encoder \<Rightarrow> repo_mapping_record \<Rightarrow> in_memory_directory \<Rightarrow> in_memory_directory" where
  "upsert_mapping enc r d =
     d\<lparr>dr_mappings_by_forgejo :=
         hm_insert (forgejo_key (mp_forgejo_owner r) (mp_forgejo_repo r)) r (dr_mappings_by_forgejo d),
       dr_mappings_by_repo := hm_insert (repo_key enc (mp_pubkey r) (mp_identifier r)) r (dr_mappings_by_repo d)\<rparr>"

definition mapping_by_forgejo :: "string \<Rightarrow> string \<Rightarrow> in_memory_directory \<Rightarrow> repo_mapping_record option" where
  "mapping_by_forgejo owner repo d = map_of (dr_mappings_by_forgejo d) (forgejo_key owner repo)"

definition mapping_by_repo :: "encoder \<Rightarrow> u8 list \<Rightarrow> string \<Rightarrow> in_memory_directory \<Rightarrow> repo_mapping_record option" where
  "mapping_by_repo enc pubkey ident d = map_of (dr_mappings_by_repo d) (repo_key enc pubkey ident)"

definition list_mappings :: "in_memory_directory \<Rightarrow> repo_mapping_record list" where
  "list_mappings d = sort_key forgejo_full_name (map snd (dr_mappings_by_repo d))"

section \<open>Accounts, profiles, compatibility and tenants\<close>

definition upsert_account ::
  "encoder \<Rightarrow> account_record \<Rightarrow> in_memory_directory \<Rightarrow> (storage_error, unit, in_memory_directory) st_result" where
  "upsert_account enc r d =
     (let key = account_key enc (ac_pubkey r);
          by_pubkey = dr_accounts_by_pubkey d;
          by_username = dr_accounts_by_username d
      in if (case map_of by_username (ac_forgejo_username r) of
               Some existing \<Rightarrow> ac_pubkey existing \<noteq> ac_pubkey r
             | None \<Rightarrow> False)
         then (Err (StorageInternal ''account username already exists''), d)
         else
           (let by_username =
                  (case map_of by_pubkey key of
                     Some existing \<Rightarrow>
                       (if ac_forgejo_username existing \<noteq> ac_forgejo_username r
                        then AList.delete (ac_forgejo_username existing) by_username else by_username)
                   | None \<Rightarrow> by_username)
            in (Ok (), d\<lparr>dr_accounts_by_pubkey := hm_insert key r by_pubkey,
                  dr_accounts_by_username := hm_insert (ac_forgejo_username r) r by_username\<rparr>)))"

definition account_by_pubkey :: "encoder \<Rightarrow> u8 list \<Rightarrow> in_memory_directory \<Rightarrow> account_record option" where
  "account_by_pubkey enc pubkey d = map_of (dr_accounts_by_pubkey d) (account_key enc pubkey)"

definition account_by_username :: "string \<Rightarrow> in_memory_directory \<Rightarrow> account_record option" where
  "account_by_username username d = map_of (dr_accounts_by_username d) username"

definition upsert_profile :: "encoder \<Rightarrow> profile_record \<Rightarrow> in_memory_directory \<Rightarrow> in_memory_directory" where
  "upsert_profile enc r d =
     d\<lparr>dr_profiles_by_pubkey := hm_insert (profile_key enc (pf_pubkey r)) r (dr_profiles_by_pubkey d)\<rparr>"

definition profile_by_pubkey :: "encoder \<Rightarrow> u8 list \<Rightarrow> in_memory_directory \<Rightarrow> profile_record option" where
  "profile_by_pubkey enc pubkey d = map_of (dr_profiles_by_pubkey d) (profile_key enc pubkey)"

definition upsert_relay_compatibility ::
  "relay_compatibility_record \<Rightarrow> in_memory_directory \<Rightarrow> in_memory_directory" where
  "upsert_relay_compatibility r d =
     d\<lparr>dr_relay_compatibility := hm_insert (rc_relay_url r) r (dr_relay_compatibility d)\<rparr>"

definition relay_compatibility :: "string \<Rightarrow> in_memory_directory \<Rightarrow> relay_compatibility_record option" where
  "relay_compatibility relay_url d = map_of (dr_relay_compatibility d) relay_url"

definition upsert_tenant :: "relay_tenant_record \<Rightarrow> in_memory_directory \<Rightarrow> in_memory_directory" where
  "upsert_tenant r d =
     d\<lparr>dr_tenants_by_host := hm_insert (tn_host r) (tn_id r) (dr_tenants_by_host d),
       dr_tenants_by_id := hm_insert (tenant_key (tn_id r)) r (dr_tenants_by_id d)\<rparr>"

definition tenant_by_id :: "string \<Rightarrow> in_memory_directory \<Rightarrow> relay_tenant_record option" where
  "tenant_by_id tenant_id d = map_of (dr_tenants_by_id d) tenant_id"

definition tenant_by_host :: "string \<Rightarrow> in_memory_directory \<Rightarrow> relay_tenant_record option" where
  "tenant_by_host host d =
     (case map_of (dr_tenants_by_host d) host of
        None \<Rightarrow> None
      | Some tenant_id \<Rightarrow> map_of (dr_tenants_by_id d) tenant_id)"

definition list_tenants :: "in_memory_directory \<Rightarrow> relay_tenant_record list" where
  "list_tenants d = map snd (dr_tenants_by_id d)"

section \<open>The latest record\<close>

lemma sort_key_Nil: "sort_key f xs = [] \<longleftrightarrow> xs = []"
  by (simp only: length_0_conv [symmetric] length_sort)

lemma latest_by_None: "latest_by time rs = None \<longleftrightarrow> rs = []"
  using sort_key_Nil [of time rs] by (cases "sort_key time rs") (auto simp: latest_by_def)

lemma latest_by_newest:
  assumes "latest_by time rs = Some r"
  obtains before after where "rs = before @ r # after" and "\<forall>x \<in> set before. time x \<le> time r"
    and "\<forall>x \<in> set after. time x < time r"
proof -
  let ?s = "sort_key time rs" and ?P = "\<lambda>x. time x = time r"
  have ne: "?s \<noteq> []" and r: "r = last ?s"
    using assms by (auto simp: latest_by_def split: list.splits)
  then obtain init where init: "?s = init @ [r]" by (metis append_butlast_last_id)
  have le: "time x \<le> time r" if "x \<in> set rs" for x
  proof -
    have "sorted (map time (init @ [r]))" using sorted_sort_key [of time rs] init by simp
    moreover have "x \<in> set (init @ [r])" using that init by (metis set_sort)
    ultimately show ?thesis by (auto simp: sorted_append)
  qed
  have "r \<in> set rs" using init by (metis in_set_conv_decomp set_sort)
  then obtain before x after where split: "rs = before @ x # after" "?P x" "\<forall>z \<in> set after. \<not> ?P z"
    using split_list_last_prop [of rs ?P] by blast
  have "last (filter ?P ?s) = r"
    using init by simp
  moreover have "last (filter ?P rs) = x" using split by (simp add: filter_False)
  ultimately have "x = r" by (simp add: sort_key_stable)
  then show thesis using that [of before after] split le by force
qed

section \<open>Accounts\<close>

record 'r account_ops =
  ao_upsert_account :: "account_record \<Rightarrow> 'r \<Rightarrow> (storage_error, unit, 'r) st_result"
  ao_account_by_pubkey :: "u8 list \<Rightarrow> 'r \<Rightarrow> (storage_error, account_record option) result"
  ao_account_by_username :: "string \<Rightarrow> 'r \<Rightarrow> (storage_error, account_record option) result"

text \<open>
  The contract of \<open>AccountRepository\<close>: both look-ups read one set of accounts, in which a key has
  one user name and a user name one key; an account is refused exactly when its name is taken.\<close>

locale account_repo =
  fixes ops :: "'r account_ops"
    and inv :: "'r \<Rightarrow> bool"
    and accounts :: "'r \<Rightarrow> account_record set"
  assumes one_name: "inv s \<Longrightarrow> a \<in> accounts s \<Longrightarrow> b \<in> accounts s \<Longrightarrow> ac_pubkey a = ac_pubkey b \<Longrightarrow> a = b"
    and one_key: "inv s \<Longrightarrow> a \<in> accounts s \<Longrightarrow> b \<in> accounts s \<Longrightarrow>
      ac_forgejo_username a = ac_forgejo_username b \<Longrightarrow> a = b"
    and by_pubkey: "inv s \<Longrightarrow> ao_account_by_pubkey ops pk s = Ok (Some a) \<longleftrightarrow> a \<in> accounts s \<and> ac_pubkey a = pk"
    and by_username: "inv s \<Longrightarrow> ao_account_by_username ops u s = Ok (Some a) \<longleftrightarrow>
      a \<in> accounts s \<and> ac_forgejo_username a = u"
    and upsert_inv: "inv s \<Longrightarrow> inv (snd (ao_upsert_account ops r s))"
    and upsert_Ok: "inv s \<Longrightarrow> ao_upsert_account ops r s = (Ok (), s') \<Longrightarrow>
      accounts s' = insert r {a \<in> accounts s. ac_pubkey a \<noteq> ac_pubkey r}"
    and upsert_Err: "inv s \<Longrightarrow> ao_upsert_account ops r s = (Err e, s') \<Longrightarrow>
      accounts s' = accounts s \<and> (\<exists>a \<in> accounts s. ac_forgejo_username a = ac_forgejo_username r \<and> ac_pubkey a \<noteq> ac_pubkey r)"
begin

text \<open>A user that takes a new name gives up the old one, which is free again.\<close>

lemma rename_frees:
  assumes "inv s" and "ao_upsert_account ops r s = (Ok (), s')"
    and "a \<in> accounts s" and "ac_pubkey a = ac_pubkey r" and "ac_forgejo_username a \<noteq> ac_forgejo_username r"
  shows "ao_account_by_username ops (ac_forgejo_username a) s' \<noteq> Ok (Some b)"
proof
  assume "ao_account_by_username ops (ac_forgejo_username a) s' = Ok (Some b)"
  moreover have "inv s'" using upsert_inv [OF assms(1), of r] assms(2) by simp
  ultimately have "b \<in> accounts s'" "ac_forgejo_username b = ac_forgejo_username a" by (simp_all add: by_username)
  then show False using upsert_Ok [OF assms(1,2)] one_key [OF assms(1,3)] assms(4,5) by force
qed

end

definition accounts_inv :: "encoder \<Rightarrow> in_memory_directory \<Rightarrow> bool" where
  "accounts_inv enc d \<longleftrightarrow> hm_wf (dr_accounts_by_pubkey d) \<and> hm_wf (dr_accounts_by_username d) \<and>
     (\<forall>k a. map_of (dr_accounts_by_pubkey d) k = Some a \<longrightarrow>
        k = enc (ac_pubkey a) \<and> map_of (dr_accounts_by_username d) (ac_forgejo_username a) = Some a) \<and>
     (\<forall>u a. map_of (dr_accounts_by_username d) u = Some a \<longrightarrow>
        u = ac_forgejo_username a \<and> map_of (dr_accounts_by_pubkey d) (enc (ac_pubkey a)) = Some a)"

definition directory_accounts :: "in_memory_directory \<Rightarrow> account_record set" where
  "directory_accounts d = ran (map_of (dr_accounts_by_pubkey d))"

definition directory_account_ops :: "encoder \<Rightarrow> in_memory_directory account_ops" where
  "directory_account_ops enc =
     \<lparr>ao_upsert_account = upsert_account enc,
      ao_account_by_pubkey = (\<lambda>pk d. Ok (account_by_pubkey enc pk d)),
      ao_account_by_username = (\<lambda>u d. Ok (account_by_username u d))\<rparr>"

lemma accounts_invD:
  assumes "accounts_inv enc d"
  shows "a \<in> directory_accounts d \<longleftrightarrow> map_of (dr_accounts_by_pubkey d) (enc (ac_pubkey a)) = Some a"
    and "a \<in> directory_accounts d \<longleftrightarrow> map_of (dr_accounts_by_username d) (ac_forgejo_username a) = Some a"
    and "map_of (dr_accounts_by_username d) u = Some a \<Longrightarrow> ac_forgejo_username a = u"
    and "map_of (dr_accounts_by_pubkey d) k = Some a \<Longrightarrow> enc (ac_pubkey a) = k"
proof -
  have P: "map_of (dr_accounts_by_pubkey d) k = Some a \<Longrightarrow>
      k = enc (ac_pubkey a) \<and> map_of (dr_accounts_by_username d) (ac_forgejo_username a) = Some a" for k a
    using assms unfolding accounts_inv_def by blast
  have U: "map_of (dr_accounts_by_username d) u = Some a \<Longrightarrow>
      u = ac_forgejo_username a \<and> map_of (dr_accounts_by_pubkey d) (enc (ac_pubkey a)) = Some a" for u a
    using assms unfolding accounts_inv_def by blast
  show "a \<in> directory_accounts d \<longleftrightarrow> map_of (dr_accounts_by_pubkey d) (enc (ac_pubkey a)) = Some a"
    "a \<in> directory_accounts d \<longleftrightarrow> map_of (dr_accounts_by_username d) (ac_forgejo_username a) = Some a"
    using P U unfolding directory_accounts_def ran_def by blast+
qed (use assms in \<open>simp_all add: accounts_inv_def\<close>)

context hex_codec
begin

lemma upsert_account_Ok:
  assumes "accounts_inv enc d" and "upsert_account enc r d = (Ok (), d')"
  shows "accounts_inv enc d'" and "directory_accounts d' = insert r {a \<in> directory_accounts d. ac_pubkey a \<noteq> ac_pubkey r}"
proof -
  let ?k = "enc (ac_pubkey r)" and ?u = "ac_forgejo_username r"
  let ?P = "map_of (dr_accounts_by_pubkey d)" and ?U = "map_of (dr_accounts_by_username d)"
  note D = accounts_invD [OF assms(1)]
  have wf: "hm_wf (dr_accounts_by_pubkey d)" "hm_wf (dr_accounts_by_username d)"
    using assms(1) by (simp_all add: accounts_inv_def)
  have free: "ac_pubkey a = ac_pubkey r" if "?U ?u = Some a" for a
    using that assms(2) by (auto simp: upsert_account_def Let_def split: if_splits)
  define freed where "freed = (case ?P ?k of
      Some old \<Rightarrow> (if ac_forgejo_username old \<noteq> ?u then ?U(ac_forgejo_username old := None) else ?U)
    | None \<Rightarrow> ?U)"
  have maps: "map_of (dr_accounts_by_pubkey d') = ?P(?k \<mapsto> r)" "map_of (dr_accounts_by_username d') = freed(?u \<mapsto> r)"
    and wf': "hm_wf (dr_accounts_by_pubkey d')" "hm_wf (dr_accounts_by_username d')"
    using assms(2) wf by (auto simp: upsert_account_def Let_def account_key_def freed_def hm.get_put hm.get_del
        hm.wf_put hm.wf_del split: if_splits option.splits)
  have freed: "freed u = Some a \<longleftrightarrow> ?U u = Some a \<and> ac_pubkey a \<noteq> ac_pubkey r" if "u \<noteq> ?u" for u a
  proof (cases "?P ?k")
    case None
    then show ?thesis using D(1) [of a] D(2) [of a] D(3) [of u a] by (auto simp: freed_def)
  next
    case (Some old)
    then have old: "ac_pubkey old = ac_pubkey r" using D(4) [OF Some] by (simp add: enc_inj)
    have same: "a = old" if "?U u = Some a" "ac_pubkey a = ac_pubkey r"
      using that D(1) [of a] D(2) [of a] D(3) [of u a] Some by simp
    have name: "?U (ac_forgejo_username old) = Some old"
      using Some old D(1) [of old] D(2) [of old] by simp
    have "freed u = (if u = ac_forgejo_username old then None else ?U u)"
      using that Some by (simp add: freed_def)
    moreover have "ac_pubkey a \<noteq> ac_pubkey r" if "?U u = Some a" "u \<noteq> ac_forgejo_username old"
      using that same D(3) [OF that(1)] by blast
    ultimately show ?thesis using name old by (cases "u = ac_forgejo_username old") auto
  qed
  show inv': "accounts_inv enc d'"
    unfolding accounts_inv_def maps
  proof (intro conjI allI impI)
    fix k a
    assume ka: "(?P(?k \<mapsto> r)) k = Some a"
    show "k = enc (ac_pubkey a)" using ka D(4) [of k a] by (auto split: if_splits)
    show "(freed(?u \<mapsto> r)) (ac_forgejo_username a) = Some a"
    proof (cases "k = ?k")
      case False
      then have "?P k = Some a" using ka by simp
      moreover from D(4) [OF this] have k: "enc (ac_pubkey a) = k" .
      ultimately have U: "?U (ac_forgejo_username a) = Some a"
        using D(1) [of a] D(2) [of a] by (simp only:)
      have other: "ac_pubkey a \<noteq> ac_pubkey r" using False k by auto
      then have "ac_forgejo_username a \<noteq> ?u" using U free by metis
      then show ?thesis using freed [of "ac_forgejo_username a" a] U other by simp
    qed (use ka in simp)
  next
    fix u a
    assume ua: "(freed(?u \<mapsto> r)) u = Some a"
    have "u = ac_forgejo_username a \<and> (?P(?k \<mapsto> r)) (enc (ac_pubkey a)) = Some a"
    proof (cases "u = ?u")
      case False
      then have "?U u = Some a" "ac_pubkey a \<noteq> ac_pubkey r" using ua freed by simp_all
      then show ?thesis using D(1) [of a] D(2) [of a] D(3) [of u a] by (simp add: enc_inj)
    qed (use ua in simp)
    then show "u = ac_forgejo_username a" "(?P(?k \<mapsto> r)) (enc (ac_pubkey a)) = Some a" by blast+
  qed (use wf' in simp_all)
  show "directory_accounts d' = insert r {a \<in> directory_accounts d. ac_pubkey a \<noteq> ac_pubkey r}"
    using accounts_invD(1) [OF inv'] D(1) by (auto simp: maps enc_inj split: if_splits)
qed

lemma upsert_account_Err:
  assumes "accounts_inv enc d" and "upsert_account enc r d = (Err e, d')"
  shows "d' = d" and "\<exists>a \<in> directory_accounts d. ac_forgejo_username a = ac_forgejo_username r \<and> ac_pubkey a \<noteq> ac_pubkey r"
proof -
  let ?U = "map_of (dr_accounts_by_username d)"
  from assms(2) show "d' = d" by (auto simp: upsert_account_def Let_def split: if_splits)
  from assms(2) obtain a where a: "?U (ac_forgejo_username r) = Some a" "ac_pubkey a \<noteq> ac_pubkey r"
    by (auto simp: upsert_account_def Let_def split: if_splits option.splits)
  from accounts_invD(3) [OF assms(1) a(1)] have name: "ac_forgejo_username a = ac_forgejo_username r" .
  have "a \<in> directory_accounts d" using accounts_invD(2) [OF assms(1), of a] a(1) unfolding name by blast
  then show "\<exists>a \<in> directory_accounts d. ac_forgejo_username a = ac_forgejo_username r \<and> ac_pubkey a \<noteq> ac_pubkey r"
    using a(2) name by blast
qed

end

sublocale hex_codec \<subseteq> directory: account_repo "directory_account_ops enc" "accounts_inv enc" directory_accounts
proof
  fix s r
  assume inv: "accounts_inv enc s"
  show "accounts_inv enc (snd (ao_upsert_account (directory_account_ops enc) r s))"
    using upsert_account_Ok(1) [OF inv, of r] upsert_account_Err(1) [OF inv, of r] inv
    by (cases "upsert_account enc r s"; cases "fst (upsert_account enc r s)") (auto simp: directory_account_ops_def)
next
  fix s a b
  assume "accounts_inv enc s" "a \<in> directory_accounts s" "b \<in> directory_accounts s"
  then show "ac_pubkey a = ac_pubkey b \<Longrightarrow> a = b" "ac_forgejo_username a = ac_forgejo_username b \<Longrightarrow> a = b"
    by (metis accounts_invD(1) option.inject, metis accounts_invD(2) option.inject)
next
  fix s pk u a
  assume inv: "accounts_inv enc s"
  show "ao_account_by_pubkey (directory_account_ops enc) pk s = Ok (Some a) \<longleftrightarrow> a \<in> directory_accounts s \<and> ac_pubkey a = pk"
    using accounts_invD(1) [OF inv, of a] accounts_invD(4) [OF inv, of "enc pk" a]
    by (auto simp: directory_account_ops_def account_by_pubkey_def account_key_def enc_inj)
  show "ao_account_by_username (directory_account_ops enc) u s = Ok (Some a) \<longleftrightarrow>
      a \<in> directory_accounts s \<and> ac_forgejo_username a = u"
    using accounts_invD(2) [OF inv, of a] accounts_invD(3) [OF inv, of u a]
    by (auto simp: directory_account_ops_def account_by_username_def)
next
  fix s r s' e
  assume inv: "accounts_inv enc s"
  show "directory_accounts s' = insert r {a \<in> directory_accounts s. ac_pubkey a \<noteq> ac_pubkey r}"
    if "ao_upsert_account (directory_account_ops enc) r s = (Ok (), s')"
    using that upsert_account_Ok(2) [OF inv] by (simp add: directory_account_ops_def)
  show "directory_accounts s' = directory_accounts s \<and>
      (\<exists>a \<in> directory_accounts s. ac_forgejo_username a = ac_forgejo_username r \<and> ac_pubkey a \<noteq> ac_pubkey r)"
    if "ao_upsert_account (directory_account_ops enc) r s = (Err e, s')"
    using that upsert_account_Err [OF inv, of r e s'] by (simp add: directory_account_ops_def)
qed

inductive account_run :: "encoder \<Rightarrow> in_memory_directory \<Rightarrow> bool" for enc where
  new: "account_run enc new_directory"
| upsert: "account_run enc d \<Longrightarrow> account_run enc (snd (upsert_account enc r d))"

context hex_codec
begin

lemma account_run_inv: "account_run enc d \<Longrightarrow> accounts_inv enc d"
proof (induction rule: account_run.induct)
  case new
  then show ?case by (simp add: accounts_inv_def new_directory_def hm.wf_empty)
next
  case (upsert d r)
  then show ?case using directory.upsert_inv [of d r] by (simp add: directory_account_ops_def)
qed

lemma account_lookups:
  assumes "account_run enc d"
  shows "account_by_username u d = Some a \<longleftrightarrow> ac_forgejo_username a = u \<and> account_by_pubkey enc (ac_pubkey a) d = Some a"
proof -
  have "account_by_pubkey enc (ac_pubkey a) d = Some a \<longleftrightarrow> a \<in> directory_accounts d"
    using directory.by_pubkey [OF account_run_inv [OF assms], of "ac_pubkey a" a]
    by (simp add: directory_account_ops_def)
  then show ?thesis
    using directory.by_username [OF account_run_inv [OF assms], of u a] by (auto simp: directory_account_ops_def)
qed

lemma account_refused:
  "(\<exists>e. fst (upsert_account enc r d) = Err e) \<longleftrightarrow>
     (\<exists>a. account_by_username (ac_forgejo_username r) d = Some a \<and> ac_pubkey a \<noteq> ac_pubkey r)"
  by (auto simp: upsert_account_def account_by_username_def Let_def split: option.splits)

lemma account_stored:
  assumes "account_run enc d" and "upsert_account enc r d = (Ok (), d')"
  shows "account_by_username u d' =
    (if u = ac_forgejo_username r then Some r
     else case account_by_username u d of
       Some a \<Rightarrow> if ac_pubkey a = ac_pubkey r then None else Some a
     | None \<Rightarrow> None)"
proof -
  have inv: "accounts_inv enc d" by (rule account_run_inv [OF assms(1)])
  have inv': "accounts_inv enc d'" by (rule upsert_account_Ok(1) [OF inv assms(2)])
  have look: "account_by_username u d = Some a \<longleftrightarrow> a \<in> directory_accounts d \<and> ac_forgejo_username a = u"
    "account_by_username u d' = Some a \<longleftrightarrow> a \<in> directory_accounts d' \<and> ac_forgejo_username a = u" for a
    using directory.by_username [OF inv, of u a] directory.by_username [OF inv', of u a]
    by (simp_all add: directory_account_ops_def)
  have acc: "directory_accounts d' = insert r {a \<in> directory_accounts d. ac_pubkey a \<noteq> ac_pubkey r}"
    by (rule upsert_account_Ok(2) [OF inv assms(2)])
  show ?thesis
  proof (cases "u = ac_forgejo_username r")
    case True
    then show ?thesis using look(2) [of r] acc by simp
  next
    case False
    have same: "account_by_username u d' = Some a \<longleftrightarrow> account_by_username u d = Some a \<and> ac_pubkey a \<noteq> ac_pubkey r" for a
      unfolding look acc using False by auto
    show ?thesis
    proof (cases "account_by_username u d")
      case None
      then have "account_by_username u d' = None" using same by (metis not_None_eq)
      then show ?thesis using False None by simp
    next
      case (Some b)
      then have "account_by_username u d' = (if ac_pubkey b = ac_pubkey r then None else Some b)"
        using same by (metis not_None_eq option.inject)
      then show ?thesis using False Some by simp
    qed
  qed
qed

end

text \<open>
  Accounts pair keys with user names, one to one, however accounts were stored before: looking up
  a name finds the account whose key has that name; storing an account is refused exactly when its
  name belongs to another key; otherwise the name leads to it, the key's former name leads nowhere
  and no other name changes.\<close>

theorem account_directory:
  assumes "hex_codec enc" and "account_run enc d"
  shows "(account_by_username u d = Some a \<longleftrightarrow>
      ac_forgejo_username a = u \<and> account_by_pubkey enc (ac_pubkey a) d = Some a) \<and>
    (case upsert_account enc r d of
       (Inl e, d') \<Rightarrow> d' = d \<and>
         (\<exists>b. account_by_username (ac_forgejo_username r) d = Some b \<and> ac_pubkey b \<noteq> ac_pubkey r)
     | (Inr _, d') \<Rightarrow> account_by_username u d' =
         (if u = ac_forgejo_username r then Some r
          else case account_by_username u d of
            Some b \<Rightarrow> if ac_pubkey b = ac_pubkey r then None else Some b
          | None \<Rightarrow> None))"
proof -
  obtain x d' where up: "upsert_account enc r d = (x, d')" by force
  have look: "account_by_username u d = Some a \<longleftrightarrow>
      ac_forgejo_username a = u \<and> account_by_pubkey enc (ac_pubkey a) d = Some a"
    by (rule hex_codec.account_lookups [OF assms])
  show ?thesis
  proof (cases x)
    case (Inl e)
    have "d' = d"
      by (rule hex_codec.upsert_account_Err(1) [OF assms(1) hex_codec.account_run_inv [OF assms] up [unfolded Inl]])
    moreover have "\<exists>b. account_by_username (ac_forgejo_username r) d = Some b \<and> ac_pubkey b \<noteq> ac_pubkey r"
      using hex_codec.account_refused [OF assms(1), of r d] up Inl by auto
    ultimately show ?thesis unfolding up Inl using look by simp
  next
    case (Inr y)
    then have x: "x = Ok ()" by simp
    show ?thesis
      unfolding up x using look hex_codec.account_stored [OF assms up [unfolded x], of u] by simp
  qed
qed

section \<open>Mappings and tenants\<close>

context hex_codec
begin

lemma repo_key_eq: "repo_key enc a i = repo_key enc b j \<longleftrightarrow> a = b \<and> i = j"
proof
  assume "repo_key enc a i = repo_key enc b j"
  then have "split_once (enc a @ CHR '':'' # i) CHR '':'' = split_once (enc b @ CHR '':'' # j) CHR '':''"
    by (simp add: repo_key_def)
  then show "a = b \<and> i = j"
    using split_once_append [OF enc_no_colon] by (simp add: enc_inj)
qed simp

end

lemma forgejo_key_eq:
  assumes "CHR ''/'' \<notin> set a" and "CHR ''/'' \<notin> set b"
  shows "forgejo_key a x = forgejo_key b y \<longleftrightarrow> a = b \<and> x = y"
proof
  assume "forgejo_key a x = forgejo_key b y"
  then have "split_once (a @ CHR ''/'' # x) CHR ''/'' = split_once (b @ CHR ''/'' # y) CHR ''/''"
    by (simp add: forgejo_key_def)
  then show "a = b \<and> x = y"
    using split_once_append [OF assms(1), of x] split_once_append [OF assms(2), of y] by simp
qed simp

definition directory_wf :: "in_memory_directory \<Rightarrow> bool" where
  "directory_wf d \<longleftrightarrow> hm_wf (dr_mappings_by_forgejo d) \<and> hm_wf (dr_mappings_by_repo d) \<and>
     hm_wf (dr_tenants_by_id d) \<and> hm_wf (dr_tenants_by_host d)"

lemma directory_wf_new: "directory_wf new_directory"
  by (simp add: directory_wf_def new_directory_def hm.wf_empty)

lemma directory_wf_upsert:
  "directory_wf d \<Longrightarrow> directory_wf (upsert_mapping enc r d)"
  "directory_wf d \<Longrightarrow> directory_wf (upsert_tenant t d)"
  by (simp_all add: directory_wf_def upsert_mapping_def upsert_tenant_def hm.wf_put)

text \<open>
  Storing the mapping of a repository: its address and its Forgejo name lead to it, every other
  address and every other name lead where they did. A repository that moved to another Forgejo name
  is still found under the old one.\<close>

theorem mapping_lookups:
  assumes "hex_codec enc" and "directory_wf d"
    and "CHR ''/'' \<notin> set (mp_forgejo_owner r)" and "CHR ''/'' \<notin> set owner"
  shows "mapping_by_repo enc pubkey ident (upsert_mapping enc r d) =
      (if pubkey = mp_pubkey r \<and> ident = mp_identifier r then Some r else mapping_by_repo enc pubkey ident d) \<and>
    mapping_by_forgejo owner repo (upsert_mapping enc r d) =
      (if owner = mp_forgejo_owner r \<and> repo = mp_forgejo_repo r then Some r else mapping_by_forgejo owner repo d)"
  using assms(2) hex_codec.repo_key_eq [OF assms(1)] forgejo_key_eq [OF assms(4,3)]
  by (simp add: mapping_by_repo_def mapping_by_forgejo_def upsert_mapping_def directory_wf_def hm.get_put)

text \<open>
  A tenant is found under the host it was last stored with, and under every host it had before:
  giving a tenant another host does not free the old one.\<close>

theorem tenant_hosts:
  assumes "directory_wf d"
  shows "tenant_by_id (tn_id r) (upsert_tenant r d) = Some r \<and>
    tenant_by_host (tn_host r) (upsert_tenant r d) = Some r \<and>
    (tenant_by_host host d = Some old \<and> map_of (dr_tenants_by_host d) host = Some (tn_id r) \<longrightarrow>
      tenant_by_host host (upsert_tenant r d) = Some r)"
  using assms by (auto simp: tenant_by_id_def tenant_by_host_def upsert_tenant_def tenant_key_def
      directory_wf_def hm.get_put)

section \<open>Witnesses\<close>

definition sample_account :: "u8 \<Rightarrow> string \<Rightarrow> account_record" where
  "sample_account k name = \<lparr>ac_pubkey = [k], ac_forgejo_username = name\<rparr>"

lemma sample_account_run: "account_run bytes_to_hex (snd (upsert_account bytes_to_hex (sample_account 1 ''ada'') new_directory))"
  by (rule account_run.upsert [OF account_run.new])

theorem account_directory_witness:
  "account_by_username ''ada'' (snd (upsert_account bytes_to_hex (sample_account 1 ''ada'') new_directory)) =
     Some (sample_account 1 ''ada'')"
  using account_directory [OF hex.hex_codec_axioms sample_account_run, of "''ada''" "sample_account 1 ''ada''"]
  by (simp add: upsert_account_def new_directory_def account_by_pubkey_def account_key_def sample_account_def)

definition sample_mapping :: repo_mapping_record where
  "sample_mapping = \<lparr>mp_forgejo_owner = ''o'', mp_forgejo_repo = ''r'', mp_pubkey = [1], mp_identifier = ''app''\<rparr>"

theorem mapping_lookups_witness:
  "mapping_by_repo bytes_to_hex [1] ''app'' (upsert_mapping bytes_to_hex sample_mapping new_directory) = Some sample_mapping"
  using mapping_lookups [OF hex.hex_codec_axioms directory_wf_new, of sample_mapping "''o''" "[1]" "''app''"]
  by (simp add: sample_mapping_def)

definition sample_tenant :: "string \<Rightarrow> relay_tenant_record" where
  "sample_tenant host =
     \<lparr>tn_id = ''t'', tn_host = host, tn_relay_pubkey = [], tn_relay_secret = [], tn_relay_secret_nonce = [],
      tn_relay_secret_kid = ''k'', tn_name = None, tn_description = None, tn_icon = None, tn_banner = None,
      tn_contact = None, tn_auth_required = False, tn_public_read = True, tn_public_write = True,
      tn_created_at = 0, tn_updated_at = 0\<rparr>"

theorem tenant_hosts_witness:
  "tenant_by_host ''old'' (upsert_tenant (sample_tenant ''new'') (upsert_tenant (sample_tenant ''old'') new_directory)) =
     Some (sample_tenant ''new'')"
  using tenant_hosts [OF directory_wf_upsert(2) [OF directory_wf_new], of "sample_tenant ''new''" "sample_tenant ''old''"
      "''old''" "sample_tenant ''old''"]
  by (simp add: upsert_tenant_def new_directory_def tenant_by_host_def tenant_key_def sample_tenant_def)

end
