(* ===== verification/Storage_Cache.thy ===== *)
theory Storage_Cache
  imports Storage_Directory
begin

text \<open>
  The cache in front of the repositories (\<open>crates/storage/src/cache.rs\<close>): four maps whose entries
  carry the instant they were stored, are used while they are younger than the time to live and are
  evicted, oldest first, when a map outgrows its limit. The repository behind it is a record of
  operations; the locale \<open>newest_repo\<close> is what the cache may expect of the look-up of the newest
  record. One call of the cache reads one instant, its argument \<open>now\<close> (nanoseconds).
\<close>

section \<open>Entries\<close>

record cache_config =
  cc_ttl :: "int option"
  cc_max_entries :: nat

definition cache_config_disabled :: cache_config where
  "cache_config_disabled = \<lparr>cc_ttl = None, cc_max_entries = 0\<rparr>"

definition cache_config_default :: cache_config where
  "cache_config_default = \<lparr>cc_ttl = Some (30 * 10 ^ 9), cc_max_entries = 1024\<rparr>"

record 'v cache_entry =
  cn_value :: 'v
  cn_stored_at :: int

type_synonym 'v cache_map = "(string, 'v cache_entry) entries"

definition cache_enabled :: "cache_config \<Rightarrow> bool" where
  "cache_enabled config \<longleftrightarrow> cc_max_entries config > 0"

definition is_fresh :: "cache_config \<Rightarrow> int \<Rightarrow> 'v cache_entry \<Rightarrow> bool" where
  "is_fresh config now entry \<longleftrightarrow>
     (case cc_ttl config of Some ttl \<Rightarrow> now - cn_stored_at entry < ttl | None \<Rightarrow> True)"

text \<open>The first entry, in the order of iteration, of those stored first.\<close>

definition oldest_key :: "'v cache_map \<Rightarrow> string" where
  "oldest_key m = fst (hd (filter (\<lambda>e. cn_stored_at (snd e) = Min ((\<lambda>e. cn_stored_at (snd e)) ` set m)) m))"

lemma ne_Nil_if_mem: "x \<in> set xs \<Longrightarrow> xs \<noteq> []"
  by auto

lemma oldest_key_in:
  assumes "m \<noteq> []"
  shows "oldest_key m \<in> fst ` set m"
proof -
  let ?f = "\<lambda>e :: string \<times> 'a cache_entry. cn_stored_at (snd e)"
  have "Min (?f ` set m) \<in> ?f ` set m" using assms by (intro Min_in) simp_all
  then obtain x where "Min (?f ` set m) = ?f x" "x \<in> set m" by (rule imageE)
  then have "x \<in> set (filter (\<lambda>e. ?f e = Min (?f ` set m)) m)" by simp
  then have "filter (\<lambda>e. ?f e = Min (?f ` set m)) m \<noteq> []" by (rule ne_Nil_if_mem)
  from hd_in_set [OF this] show ?thesis unfolding oldest_key_def set_filter by blast
qed

lemma delete_shorter: "k \<in> fst ` set m \<Longrightarrow> length (AList.delete k m) < length m"
  by (force simp: AList.delete_eq intro!: length_filter_less)

function evict_while :: "nat \<Rightarrow> 'v cache_map \<Rightarrow> 'v cache_map" where
  "evict_while max_entries m =
     (if length m > max_entries then evict_while max_entries (AList.delete (oldest_key m) m) else m)"
  by auto

termination evict_while
  by (relation "measure (\<lambda>(_, m). length m)") (auto intro!: delete_shorter oldest_key_in)

declare evict_while.simps [simp del]

definition evict_if_needed :: "cache_config \<Rightarrow> 'v cache_map \<Rightarrow> 'v cache_map" where
  "evict_if_needed config m =
     (if cc_max_entries config = 0 then [] else evict_while (cc_max_entries config) m)"

text \<open>A look-up that forgets a stale entry, and an insertion.\<close>

definition cache_lookup :: "cache_config \<Rightarrow> int \<Rightarrow> string \<Rightarrow> 'v cache_map \<Rightarrow> 'v option \<times> 'v cache_map" where
  "cache_lookup config now key m =
     (case map_of m key of
        Some entry \<Rightarrow>
          (if is_fresh config now entry then (Some (cn_value entry), m) else (None, AList.delete key m))
      | None \<Rightarrow> (None, m))"

definition cache_store :: "cache_config \<Rightarrow> int \<Rightarrow> string \<Rightarrow> 'v \<Rightarrow> 'v cache_map \<Rightarrow> 'v cache_map" where
  "cache_store config now key v m =
     evict_if_needed config (hm_insert key \<lparr>cn_value = v, cn_stored_at = now\<rparr> m)"

text \<open>Whether a stored record replaces what the cache has as the newest.\<close>

definition should_update :: "cache_config \<Rightarrow> ('v \<Rightarrow> int) \<Rightarrow> int \<Rightarrow> string \<Rightarrow> 'v \<Rightarrow> 'v cache_map \<Rightarrow> bool" where
  "should_update config time now key r m =
     (case map_of m key of
        Some entry \<Rightarrow> \<not> (is_fresh config now entry \<and> time (cn_value entry) > time r)
      | None \<Rightarrow> True)"

definition cache_newest :: "cache_config \<Rightarrow> ('v \<Rightarrow> int) \<Rightarrow> int \<Rightarrow> string \<Rightarrow> 'v \<Rightarrow> 'v cache_map \<Rightarrow> 'v cache_map" where
  "cache_newest config time now key r m =
     (if should_update config time now key r m then cache_store config now key r m else m)"

section \<open>The cached repositories\<close>

text \<open>The operations of the traits the cache wraps; those of the outbox are passed on unchanged.\<close>

record 'r repository_ops =
  ri_insert_announcement :: "repo_announcement_record \<Rightarrow> 'r \<Rightarrow> (storage_error, unit, 'r) st_result"
  ri_list_announcements :: "u8 list \<Rightarrow> string \<Rightarrow> 'r \<Rightarrow> (storage_error, repo_announcement_record list) result"
  ri_latest_announcement :: "u8 list \<Rightarrow> string \<Rightarrow> 'r \<Rightarrow> (storage_error, repo_announcement_record option) result"
  ri_insert_state :: "repo_state_record \<Rightarrow> 'r \<Rightarrow> (storage_error, unit, 'r) st_result"
  ri_latest_state :: "u8 list \<Rightarrow> string \<Rightarrow> 'r \<Rightarrow> (storage_error, repo_state_record option) result"
  ri_upsert_compatibility :: "relay_compatibility_record \<Rightarrow> 'r \<Rightarrow> (storage_error, unit, 'r) st_result"
  ri_compatibility :: "string \<Rightarrow> 'r \<Rightarrow> (storage_error, relay_compatibility_record option) result"

record 'r cached_repositories =
  cx_inner :: 'r
  cx_announcements :: "repo_announcement_record list cache_map"
  cx_latest_announcements :: "repo_announcement_record cache_map"
  cx_latest_states :: "repo_state_record cache_map"
  cx_relay_compatibility :: "relay_compatibility_record cache_map"

definition cached_new :: "'r \<Rightarrow> 'r cached_repositories" where
  "cached_new inner =
     \<lparr>cx_inner = inner, cx_announcements = [], cx_latest_announcements = [], cx_latest_states = [],
      cx_relay_compatibility = []\<rparr>"

definition with_inner ::
  "('r \<Rightarrow> ('e, 'a, 'r) st_result) \<Rightarrow> 'r cached_repositories \<Rightarrow> ('e, 'a, 'r cached_repositories) st_result" where
  "with_inner f c = (case f (cx_inner c) of (x, r) \<Rightarrow> (x, c\<lparr>cx_inner := r\<rparr>))"

text \<open>A list of announcements that is cached and fresh grows with the record; a stale one is dropped.\<close>

definition push_cached_list ::
  "cache_config \<Rightarrow> int \<Rightarrow> string \<Rightarrow> 'v \<Rightarrow> 'v list cache_map \<Rightarrow> 'v list cache_map" where
  "push_cached_list config now key r m =
     (case map_of m key of
        Some entry \<Rightarrow>
          (if is_fresh config now entry
           then hm_insert key \<lparr>cn_value = cn_value entry @ [r], cn_stored_at = now\<rparr> m
           else AList.delete key m)
      | None \<Rightarrow> m)"

definition cached_insert_announcement ::
  "encoder \<Rightarrow> cache_config \<Rightarrow> 'r repository_ops \<Rightarrow> int \<Rightarrow> repo_announcement_record \<Rightarrow> 'r cached_repositories \<Rightarrow>
   (storage_error, unit, 'r cached_repositories) st_result" where
  "cached_insert_announcement enc config ops now r c =
     (if \<not> cache_enabled config then with_inner (ri_insert_announcement ops r) c
      else st_then (with_inner (ri_insert_announcement ops r) c) (\<lambda>_ c.
        let key = repo_key enc (rr_pubkey r) (rr_identifier r)
        in (Ok (), c\<lparr>cx_announcements := push_cached_list config now key r (cx_announcements c),
             cx_latest_announcements := cache_newest config rr_created_at now key r (cx_latest_announcements c)\<rparr>)))"

text \<open>\<open>max_by_key\<close> returns the last of the newest records.\<close>

definition cached_list_announcements ::
  "encoder \<Rightarrow> cache_config \<Rightarrow> 'r repository_ops \<Rightarrow> int \<Rightarrow> u8 list \<Rightarrow> string \<Rightarrow> 'r cached_repositories \<Rightarrow>
   (storage_error, repo_announcement_record list, 'r cached_repositories) st_result" where
  "cached_list_announcements enc config ops now pubkey ident c =
     (if \<not> cache_enabled config then (ri_list_announcements ops pubkey ident (cx_inner c), c)
      else
        (let key = repo_key enc pubkey ident in
         case cache_lookup config now key (cx_announcements c) of
           (Some cached, m) \<Rightarrow> (Ok cached, c\<lparr>cx_announcements := m\<rparr>)
         | (None, m) \<Rightarrow>
             (case ri_list_announcements ops pubkey ident (cx_inner c) of
                Inl err \<Rightarrow> (Err err, c\<lparr>cx_announcements := m\<rparr>)
              | Inr records \<Rightarrow>
                  (Ok records, c\<lparr>cx_announcements := cache_store config now key records m,
                     cx_latest_announcements :=
                       (case latest_by rr_created_at records of
                          None \<Rightarrow> AList.delete key (cx_latest_announcements c)
                        | Some r \<Rightarrow> cache_store config now key r (cx_latest_announcements c))\<rparr>))))"

text \<open>The look-ups of the newest announcement, of the newest state and of a relay are alike.\<close>

definition read_through ::
  "cache_config \<Rightarrow> int \<Rightarrow> string \<Rightarrow> ('e, 'v option) result \<Rightarrow> 'v cache_map \<Rightarrow> ('e, 'v option) result \<times> 'v cache_map" where
  "read_through config now key inner m =
     (if \<not> cache_enabled config then (inner, m)
      else case cache_lookup config now key m of
        (Some cached, m) \<Rightarrow> (Ok (Some cached), m)
      | (None, m) \<Rightarrow>
          (case inner of
             Inr (Some r) \<Rightarrow> (inner, cache_store config now key r m)
           | _ \<Rightarrow> (inner, m)))"

definition cached_latest_announcement ::
  "encoder \<Rightarrow> cache_config \<Rightarrow> 'r repository_ops \<Rightarrow> int \<Rightarrow> u8 list \<Rightarrow> string \<Rightarrow> 'r cached_repositories \<Rightarrow>
   (storage_error, repo_announcement_record option, 'r cached_repositories) st_result" where
  "cached_latest_announcement enc config ops now pubkey ident c =
     (case read_through config now (repo_key enc pubkey ident) (ri_latest_announcement ops pubkey ident (cx_inner c))
        (cx_latest_announcements c) of
        (r, m) \<Rightarrow> (r, c\<lparr>cx_latest_announcements := m\<rparr>))"

definition cached_insert_state ::
  "encoder \<Rightarrow> cache_config \<Rightarrow> 'r repository_ops \<Rightarrow> int \<Rightarrow> repo_state_record \<Rightarrow> 'r cached_repositories \<Rightarrow>
   (storage_error, unit, 'r cached_repositories) st_result" where
  "cached_insert_state enc config ops now r c =
     (if \<not> cache_enabled config then with_inner (ri_insert_state ops r) c
      else st_then (with_inner (ri_insert_state ops r) c) (\<lambda>_ c.
        (Ok (), c\<lparr>cx_latest_states := cache_newest config sr_created_at now
           (repo_key enc (sr_pubkey r) (sr_identifier r)) r (cx_latest_states c)\<rparr>)))"

definition cached_latest_state ::
  "encoder \<Rightarrow> cache_config \<Rightarrow> 'r repository_ops \<Rightarrow> int \<Rightarrow> u8 list \<Rightarrow> string \<Rightarrow> 'r cached_repositories \<Rightarrow>
   (storage_error, repo_state_record option, 'r cached_repositories) st_result" where
  "cached_latest_state enc config ops now pubkey ident c =
     (case read_through config now (repo_key enc pubkey ident) (ri_latest_state ops pubkey ident (cx_inner c))
        (cx_latest_states c) of
        (r, m) \<Rightarrow> (r, c\<lparr>cx_latest_states := m\<rparr>))"

definition cached_upsert_compatibility ::
  "cache_config \<Rightarrow> 'r repository_ops \<Rightarrow> int \<Rightarrow> relay_compatibility_record \<Rightarrow> 'r cached_repositories \<Rightarrow>
   (storage_error, unit, 'r cached_repositories) st_result" where
  "cached_upsert_compatibility config ops now r c =
     (if \<not> cache_enabled config then with_inner (ri_upsert_compatibility ops r) c
      else st_then (with_inner (ri_upsert_compatibility ops r) c) (\<lambda>_ c.
        (Ok (), c\<lparr>cx_relay_compatibility := cache_store config now (rc_relay_url r) r (cx_relay_compatibility c)\<rparr>)))"

definition cached_compatibility ::
  "cache_config \<Rightarrow> 'r repository_ops \<Rightarrow> int \<Rightarrow> string \<Rightarrow> 'r cached_repositories \<Rightarrow>
   (storage_error, relay_compatibility_record option, 'r cached_repositories) st_result" where
  "cached_compatibility config ops now relay_url c =
     (case read_through config now relay_url (ri_compatibility ops relay_url (cx_inner c)) (cx_relay_compatibility c) of
        (r, m) \<Rightarrow> (r, c\<lparr>cx_relay_compatibility := m\<rparr>))"

section \<open>Evicting entries\<close>

lemma evict_while_bound: "length (evict_while n m) \<le> n"
  by (induction n m rule: evict_while.induct) (subst evict_while.simps, simp)

lemma evict_while_sub:
  "hm_wf m \<Longrightarrow> hm_wf (evict_while n m) \<and> map_of (evict_while n m) \<subseteq>\<^sub>m map_of m"
proof (induction n m rule: evict_while.induct)
  case (1 n m)
  let ?m = "AList.delete (oldest_key m) m"
  have "hm_wf ?m" "map_of ?m \<subseteq>\<^sub>m map_of m"
    using 1 by (simp_all add: hm.wf_del hm.get_del map_le_def)
  with 1 show ?case by (subst (1 2) evict_while.simps) (auto intro: map_le_trans)
qed

lemma evict_sub:
  assumes "hm_wf m"
  shows "hm_wf (evict_if_needed config m)" and "map_of (evict_if_needed config m) k = Some e \<Longrightarrow> map_of m k = Some e"
    and "length (evict_if_needed config m) \<le> cc_max_entries config"
proof -
  have "map_of (evict_if_needed config m) \<subseteq>\<^sub>m map_of m"
    using evict_while_sub [OF assms] by (simp add: evict_if_needed_def)
  then show "map_of (evict_if_needed config m) k = Some e \<Longrightarrow> map_of m k = Some e"
    by (metis domI map_le_def)
qed (use evict_while_sub [OF assms] in \<open>simp_all add: evict_if_needed_def hm.wf_empty evict_while_bound\<close>)

text \<open>
  What holds of every entry of a map within its limit: \<open>P key value\<close>. Each way the cache changes
  a map keeps it, and the entry that is stored may change what is asked of the others' keys not.\<close>

definition cached_all :: "cache_config \<Rightarrow> (string \<Rightarrow> 'v \<Rightarrow> bool) \<Rightarrow> 'v cache_map \<Rightarrow> bool" where
  "cached_all config P m \<longleftrightarrow> hm_wf m \<and> length m \<le> cc_max_entries config \<and>
     (\<forall>k e. map_of m k = Some e \<longrightarrow> P k (cn_value e))"

lemma cached_all_empty [simp]: "cached_all config P []"
  by (simp add: cached_all_def hm.wf_empty)

lemma cached_all_wf: "cached_all config P m \<Longrightarrow> hm_wf m"
  by (simp add: cached_all_def)

lemma cached_all_get: "cached_all config P m \<Longrightarrow> map_of m k = Some e \<Longrightarrow> P k (cn_value e)"
  by (simp add: cached_all_def)

lemma cached_all_off: "\<not> cache_enabled config \<Longrightarrow> cached_all config P m \<longleftrightarrow> m = []"
  by (auto simp: cached_all_def cache_enabled_def hm.wf_empty)

lemma cached_all_mono: "cached_all config P m \<Longrightarrow> (\<And>k v. P k v \<Longrightarrow> Q k v) \<Longrightarrow> cached_all config Q m"
  by (simp add: cached_all_def)

lemma cached_all_delete:
  assumes "cached_all config P m" and "\<And>k' v. k' \<noteq> k \<Longrightarrow> P k' v \<Longrightarrow> Q k' v"
  shows "cached_all config Q (AList.delete k m)"
  using assms hm.length_del(1) [of m k] by (auto simp: cached_all_def hm.wf_del hm.get_del split: if_splits)

lemma cached_all_store:
  assumes "cached_all config P m" and "\<And>k' v. k' \<noteq> k \<Longrightarrow> P k' v \<Longrightarrow> Q k' v" and "Q k v"
  shows "cached_all config Q (cache_store config now k v m)"
proof -
  let ?m = "hm_insert k \<lparr>cn_value = v, cn_stored_at = now\<rparr> m"
  have wf: "hm_wf m" by (rule cached_all_wf [OF assms(1)])
  then have wf': "hm_wf ?m" by (rule hm.wf_put)
  have "Q k' (cn_value e)" if "map_of ?m k' = Some e" for k' e
    using that assms cached_all_get [OF assms(1)] hm.get_put [OF wf] by (auto split: if_splits)
  then show ?thesis
    unfolding cached_all_def cache_store_def using evict_sub [OF wf'] by blast
qed

lemma cache_lookup_all:
  assumes "cached_all config P m" and "cache_lookup config now k m = (x, m')"
  shows "cached_all config P m'" and "x = Some v \<Longrightarrow> P k v" and "x = Some v \<Longrightarrow> m' = m"
proof -
  have *: "cached_all config P (AList.delete k m)" by (rule cached_all_delete [OF assms(1)])
  show "cached_all config P m'" "x = Some v \<Longrightarrow> P k v" "x = Some v \<Longrightarrow> m' = m"
    using assms * cached_all_get [OF assms(1), of k]
    by (auto simp: cache_lookup_def split: option.splits if_splits)
qed

lemma push_cached_all:
  assumes "cached_all config P m" and "\<And>k' v. k' \<noteq> k \<Longrightarrow> P k' v \<Longrightarrow> Q k' v" and "\<And>v. P k v \<Longrightarrow> Q k (v @ [r])"
  shows "cached_all config Q (push_cached_list config now k r m)"
proof (cases "map_of m k")
  case None
  then have "Q k' (cn_value e)" if "map_of m k' = Some e" for k' e
    using that assms(2) [of k' "cn_value e"] cached_all_get [OF assms(1) that] by (cases "k' = k") auto
  then show ?thesis using assms(1) None by (simp add: cached_all_def push_cached_list_def)
next
  case (Some e)
  let ?m = "hm_insert k \<lparr>cn_value = cn_value e @ [r], cn_stored_at = now\<rparr> m"
  have wf: "hm_wf m" by (rule cached_all_wf [OF assms(1)])
  have "Q k' (cn_value e')" if "map_of ?m k' = Some e'" for k' e'
    using that assms(2) assms(3) [OF cached_all_get [OF assms(1) Some]] cached_all_get [OF assms(1), of k']
      hm.get_put [OF wf] by (auto split: if_splits)
  moreover have "length ?m = length m" using hm.length_put [OF wf] Some by simp
  ultimately have "cached_all config Q ?m"
    using assms(1) hm.wf_put [OF wf] by (auto simp: cached_all_def)
  then show ?thesis
    using Some cached_all_delete [OF assms(1,2)] by (simp add: push_cached_list_def)
qed

text \<open>A look-up through the cache: the answer is what the entries say or the answer of the repository.\<close>

lemma read_through_all:
  assumes "cached_all config P m" and "\<And>r. inner = Ok (Some r) \<Longrightarrow> P key r"
    and "read_through config now key inner m = (x, m')"
  shows "cached_all config P m'" and "x = inner \<or> (\<exists>r. x = Ok (Some r) \<and> P key r)"
proof -
  obtain y m1 where y: "cache_lookup config now key m = (y, m1)" by (rule prod.exhaust)
  note all = cache_lookup_all [OF assms(1) y]
  have st: "inner = Ok (Some r) \<Longrightarrow> cached_all config P (cache_store config now key r m1)" for r
    by (rule cached_all_store [OF all(1)]) (use assms(2) in auto)
  show "cached_all config P m'" "x = inner \<or> (\<exists>r. x = Ok (Some r) \<and> P key r)"
    using assms(1,3) y all st unfolding read_through_def
    by (auto split: if_splits option.splits sum.splits)
qed

section \<open>Calls\<close>

text \<open>The calls of the three traits and their replies, on the repository and on the cache before it.\<close>

datatype cache_call =
    InsertAnnouncement repo_announcement_record
  | ListAnnouncements "u8 list" string
  | LatestAnnouncement "u8 list" string
  | InsertState repo_state_record
  | LatestState "u8 list" string
  | UpsertCompatibility relay_compatibility_record
  | Compatibility string

datatype cache_reply =
    Stored "(storage_error, unit) result"
  | Announcements "(storage_error, repo_announcement_record list) result"
  | Announcement "(storage_error, repo_announcement_record option) result"
  | State "(storage_error, repo_state_record option) result"
  | RelayReport "(storage_error, relay_compatibility_record option) result"

fun inner_call :: "'r repository_ops \<Rightarrow> cache_call \<Rightarrow> 'r \<Rightarrow> cache_reply \<times> 'r" where
  "inner_call ops (InsertAnnouncement r) s = map_prod Stored id (ri_insert_announcement ops r s)"
| "inner_call ops (ListAnnouncements p i) s = (Announcements (ri_list_announcements ops p i s), s)"
| "inner_call ops (LatestAnnouncement p i) s = (Announcement (ri_latest_announcement ops p i s), s)"
| "inner_call ops (InsertState r) s = map_prod Stored id (ri_insert_state ops r s)"
| "inner_call ops (LatestState p i) s = (State (ri_latest_state ops p i s), s)"
| "inner_call ops (UpsertCompatibility r) s = map_prod Stored id (ri_upsert_compatibility ops r s)"
| "inner_call ops (Compatibility url) s = (RelayReport (ri_compatibility ops url s), s)"

fun cached_call ::
  "encoder \<Rightarrow> cache_config \<Rightarrow> 'r repository_ops \<Rightarrow> int \<Rightarrow> cache_call \<Rightarrow> 'r cached_repositories \<Rightarrow>
   cache_reply \<times> 'r cached_repositories" where
  "cached_call enc config ops now (InsertAnnouncement r) c =
     map_prod Stored id (cached_insert_announcement enc config ops now r c)"
| "cached_call enc config ops now (ListAnnouncements p i) c =
     map_prod Announcements id (cached_list_announcements enc config ops now p i c)"
| "cached_call enc config ops now (LatestAnnouncement p i) c =
     map_prod Announcement id (cached_latest_announcement enc config ops now p i c)"
| "cached_call enc config ops now (InsertState r) c =
     map_prod Stored id (cached_insert_state enc config ops now r c)"
| "cached_call enc config ops now (LatestState p i) c =
     map_prod State id (cached_latest_state enc config ops now p i c)"
| "cached_call enc config ops now (UpsertCompatibility r) c =
     map_prod Stored id (cached_upsert_compatibility config ops now r c)"
| "cached_call enc config ops now (Compatibility url) c =
     map_prod RelayReport id (cached_compatibility config ops now url c)"

primrec inner_run :: "'r repository_ops \<Rightarrow> (int \<times> cache_call) list \<Rightarrow> 'r \<Rightarrow> cache_reply list" where
  "inner_run ops [] s = []"
| "inner_run ops (x # xs) s = (case inner_call ops (snd x) s of (y, s') \<Rightarrow> y # inner_run ops xs s')"

primrec cached_run ::
  "encoder \<Rightarrow> cache_config \<Rightarrow> 'r repository_ops \<Rightarrow> (int \<times> cache_call) list \<Rightarrow> 'r cached_repositories \<Rightarrow> cache_reply list" where
  "cached_run enc config ops [] c = []"
| "cached_run enc config ops (x # xs) c =
     (case cached_call enc config ops (fst x) (snd x) c of (y, c') \<Rightarrow> y # cached_run enc config ops xs c')"

text \<open>The maps as the calls leave them, and whether what is stored is never older than what the repository has.\<close>

primrec cached_final ::
  "encoder \<Rightarrow> cache_config \<Rightarrow> 'r repository_ops \<Rightarrow> (int \<times> cache_call) list \<Rightarrow> 'r cached_repositories \<Rightarrow> 'r cached_repositories" where
  "cached_final enc config ops [] c = c"
| "cached_final enc config ops (x # xs) c =
     cached_final enc config ops xs (snd (cached_call enc config ops (fst x) (snd x) c))"

fun not_older :: "('v \<Rightarrow> int) \<Rightarrow> 'v \<Rightarrow> (storage_error, 'v option) result \<Rightarrow> bool" where
  "not_older time r (Inr (Some x)) \<longleftrightarrow> time x \<le> time r"
| "not_older time r _ \<longleftrightarrow> True"

fun call_in_order :: "'r repository_ops \<Rightarrow> cache_call \<Rightarrow> 'r \<Rightarrow> bool" where
  "call_in_order ops (InsertAnnouncement r) s \<longleftrightarrow>
     not_older rr_created_at r (ri_latest_announcement ops (rr_pubkey r) (rr_identifier r) s)"
| "call_in_order ops (InsertState r) s \<longleftrightarrow>
     not_older sr_created_at r (ri_latest_state ops (sr_pubkey r) (sr_identifier r) s)"
| "call_in_order ops _ s \<longleftrightarrow> True"

primrec in_order :: "'r repository_ops \<Rightarrow> (int \<times> cache_call) list \<Rightarrow> 'r \<Rightarrow> bool" where
  "in_order ops [] s \<longleftrightarrow> True"
| "in_order ops (x # xs) s \<longleftrightarrow>
     call_in_order ops (snd x) s \<and> in_order ops xs (snd (inner_call ops (snd x) s))"

section \<open>What the cache may expect\<close>

text \<open>
  The laws of the repository behind the cache: look-ups depend on the key of the cache only, a record that
  is stored joins the list of its repository, the newest of a list is the latest, a failed call changes
  nothing that can be looked up.\<close>

text \<open>The entries of the cache say what the repository says.\<close>

definition lists_ok :: "encoder \<Rightarrow> 'r repository_ops \<Rightarrow> 'r \<Rightarrow> string \<Rightarrow> repo_announcement_record list \<Rightarrow> bool" where
  "lists_ok enc ops s k v \<longleftrightarrow> (\<forall>p i. repo_key enc p i = k \<longrightarrow> ri_list_announcements ops p i s = Ok v)"

definition newest_ok :: "encoder \<Rightarrow> 'r repository_ops \<Rightarrow> 'r \<Rightarrow> string \<Rightarrow> repo_announcement_record \<Rightarrow> bool" where
  "newest_ok enc ops s k v \<longleftrightarrow> (\<forall>p i. repo_key enc p i = k \<longrightarrow> ri_latest_announcement ops p i s = Ok (Some v))"

definition states_ok :: "encoder \<Rightarrow> 'r repository_ops \<Rightarrow> 'r \<Rightarrow> string \<Rightarrow> repo_state_record \<Rightarrow> bool" where
  "states_ok enc ops s k v \<longleftrightarrow> (\<forall>p i. repo_key enc p i = k \<longrightarrow> ri_latest_state ops p i s = Ok (Some v))"

definition reports_ok :: "'r repository_ops \<Rightarrow> 'r \<Rightarrow> string \<Rightarrow> relay_compatibility_record \<Rightarrow> bool" where
  "reports_ok ops s u v \<longleftrightarrow> ri_compatibility ops u s = Ok (Some v)"

definition coherent :: "encoder \<Rightarrow> 'r repository_ops \<Rightarrow> cache_config \<Rightarrow> 'r cached_repositories \<Rightarrow> bool" where
  "coherent enc ops config c \<longleftrightarrow>
     cached_all config (lists_ok enc ops (cx_inner c)) (cx_announcements c) \<and>
     cached_all config (newest_ok enc ops (cx_inner c)) (cx_latest_announcements c) \<and>
     cached_all config (states_ok enc ops (cx_inner c)) (cx_latest_states c) \<and>
     cached_all config (reports_ok ops (cx_inner c)) (cx_relay_compatibility c)"

lemma latest_by_snoc:
  assumes "\<And>x. latest_by time l = Some x \<Longrightarrow> time x \<le> time r"
  shows "latest_by time (l @ [r]) = Some r"
proof -
  have le: "time x \<le> time r" if x: "x \<in> set l" for x
  proof -
    obtain y where y: "latest_by time l = Some y" using x latest_by_None [of time l] by fastforce
    from y have "\<forall>x \<in> set l. time x \<le> time y" by (rule latest_by_newest) (auto intro: less_imp_le)
    then show ?thesis using assms [OF y] x by fastforce
  qed
  obtain y where y: "latest_by time (l @ [r]) = Some y" using latest_by_None [of time "l @ [r]"] by fastforce
  then obtain before after where "l @ [r] = before @ y # after" "\<forall>x \<in> set after. time x < time y"
    "\<forall>x \<in> set before. time x \<le> time y"
    by (rule latest_by_newest)
  then have "y = r" using le [of y] by (cases after rule: rev_cases) auto
  with y show ?thesis by simp
qed

locale cache_source =
  fixes enc :: encoder and ops :: "'r repository_ops"
  assumes same_list: "repo_key enc p i = repo_key enc p' i' \<Longrightarrow>
      ri_list_announcements ops p i s = ri_list_announcements ops p' i' s"
    and same_state: "repo_key enc p i = repo_key enc p' i' \<Longrightarrow> ri_latest_state ops p i s = ri_latest_state ops p' i' s"
    and latest: "ri_latest_announcement ops p i s = map_sum id (latest_by rr_created_at) (ri_list_announcements ops p i s)"
    and announce_other: "ri_insert_announcement ops r s = (x, s') \<Longrightarrow>
      x \<noteq> Ok () \<or> repo_key enc p i \<noteq> repo_key enc (rr_pubkey r) (rr_identifier r) \<Longrightarrow>
      ri_list_announcements ops p i s' = ri_list_announcements ops p i s"
    and announce_list: "ri_insert_announcement ops r s = (Ok (), s') \<Longrightarrow>
      \<exists>l. ri_list_announcements ops (rr_pubkey r) (rr_identifier r) s = Ok l \<and>
        ri_list_announcements ops (rr_pubkey r) (rr_identifier r) s' = Ok (l @ [r])"
    and announce_state: "ri_insert_announcement ops r s = (x, s') \<Longrightarrow> ri_latest_state ops p i s' = ri_latest_state ops p i s"
    and announce_report: "ri_insert_announcement ops r s = (x, s') \<Longrightarrow> ri_compatibility ops u s' = ri_compatibility ops u s"
    and state_list: "ri_insert_state ops t s = (x, s') \<Longrightarrow> ri_list_announcements ops p i s' = ri_list_announcements ops p i s"
    and state_other: "ri_insert_state ops t s = (x, s') \<Longrightarrow>
      x \<noteq> Ok () \<or> repo_key enc p i \<noteq> repo_key enc (sr_pubkey t) (sr_identifier t) \<Longrightarrow>
      ri_latest_state ops p i s' = ri_latest_state ops p i s"
    and state_newest: "ri_insert_state ops t s = (Ok (), s') \<Longrightarrow>
      not_older sr_created_at t (ri_latest_state ops (sr_pubkey t) (sr_identifier t) s) \<Longrightarrow>
      ri_latest_state ops (sr_pubkey t) (sr_identifier t) s' = Ok (Some t)"
    and state_report: "ri_insert_state ops t s = (x, s') \<Longrightarrow> ri_compatibility ops u s' = ri_compatibility ops u s"
    and report_list: "ri_upsert_compatibility ops q s = (x, s') \<Longrightarrow> ri_list_announcements ops p i s' = ri_list_announcements ops p i s"
    and report_state: "ri_upsert_compatibility ops q s = (x, s') \<Longrightarrow> ri_latest_state ops p i s' = ri_latest_state ops p i s"
    and report_get: "ri_upsert_compatibility ops q s = (x, s') \<Longrightarrow>
      ri_compatibility ops u s' = (if x = Ok () \<and> u = rc_relay_url q then Ok (Some q) else ri_compatibility ops u s)"
begin

lemma coherent_new: "coherent enc ops config (cached_new s)"
  by (simp add: coherent_def cached_new_def)

lemma same_latest:
  "repo_key enc p i = repo_key enc p' i' \<Longrightarrow> ri_latest_announcement ops p i s = ri_latest_announcement ops p' i' s"
  unfolding latest using same_list by metis

lemma insert_announcement_ok:
  assumes "coherent enc ops config c"
    and "not_older rr_created_at r (ri_latest_announcement ops (rr_pubkey r) (rr_identifier r) (cx_inner c))"
    and "cached_insert_announcement enc config ops now r c = (x, c')"
  shows "coherent enc ops config c' \<and> ri_insert_announcement ops r (cx_inner c) = (x, cx_inner c')"
proof -
  let ?s = "cx_inner c" and ?key = "repo_key enc (rr_pubkey r) (rr_identifier r)"
  obtain y s' where y: "ri_insert_announcement ops r ?s = (y, s')" by (rule prod.exhaust)
  note coh = assms(1) [unfolded coherent_def]
  have "states_ok enc ops s' = states_ok enc ops ?s" "reports_ok ops s' = reports_ok ops ?s"
    using announce_state [OF y] announce_report [OF y] by (simp_all add: fun_eq_iff states_ok_def reports_ok_def)
  then have states: "cached_all config (states_ok enc ops s') (cx_latest_states c)"
    and reports: "cached_all config (reports_ok ops s') (cx_relay_compatibility c)"
    using coh by simp_all
  have lists: "k' \<noteq> ?key \<or> y \<noteq> Ok () \<Longrightarrow> lists_ok enc ops ?s k' v \<Longrightarrow> lists_ok enc ops s' k' v" for k' v
    using announce_other [OF y] by (auto simp: lists_ok_def)
  have newest: "k' \<noteq> ?key \<or> y \<noteq> Ok () \<Longrightarrow> newest_ok enc ops ?s k' v \<Longrightarrow> newest_ok enc ops s' k' v" for k' v
    using announce_other [OF y] by (auto simp: newest_ok_def latest)
  show ?thesis
  proof (cases "y = Ok ()")
    case False
    then have "cached_all config (lists_ok enc ops s') (cx_announcements c)"
      "cached_all config (newest_ok enc ops s') (cx_latest_announcements c)"
      using coh lists newest by (auto elim: cached_all_mono)
    then have "coherent enc ops config (c\<lparr>cx_inner := s'\<rparr>)" using states reports by (simp add: coherent_def)
    with False show ?thesis
      using assms(3) y by (cases y) (auto simp: cached_insert_announcement_def with_inner_def split: if_splits)
  next
    case True
    obtain l where l: "ri_list_announcements ops (rr_pubkey r) (rr_identifier r) ?s = Ok l"
      "ri_list_announcements ops (rr_pubkey r) (rr_identifier r) s' = Ok (l @ [r])"
      using announce_list y True by blast
    have "latest_by rr_created_at (l @ [r]) = Some r"
      using assms(2) by (intro latest_by_snoc) (auto simp: latest l split: option.splits)
    then have top: "newest_ok enc ops s' ?key r"
      using same_latest l unfolding newest_ok_def by (metis latest map_sum.simps(2))
    have ls: "cached_all config (lists_ok enc ops s') (push_cached_list config now ?key r (cx_announcements c))"
    proof (rule push_cached_all)
      show "cached_all config (lists_ok enc ops ?s) (cx_announcements c)" using coh by simp
      show "lists_ok enc ops s' ?key (v @ [r])" if "lists_ok enc ops ?s ?key v" for v
        using that same_list l unfolding lists_ok_def by (metis sum.inject(2))
    qed (use lists in blast)
    have up: "should_update config rr_created_at now ?key r (cx_latest_announcements c)"
      using assms(2) cached_all_get [of config "newest_ok enc ops ?s" "cx_latest_announcements c" ?key] coh
      by (auto simp: should_update_def newest_ok_def split: option.splits)
    have ns: "cached_all config (newest_ok enc ops s') (cache_store config now ?key r (cx_latest_announcements c))"
      using coh newest top by (intro cached_all_store [of config "newest_ok enc ops ?s"]) auto
    have off: "cached_all config (lists_ok enc ops s') (cx_announcements c)"
      "cached_all config (newest_ok enc ops s') (cx_latest_announcements c)" if "\<not> cache_enabled config"
      using that coh by (simp_all add: cached_all_off)
    from True show ?thesis
      using assms(3) y states reports ls ns off up
      by (auto simp: cached_insert_announcement_def with_inner_def cache_newest_def coherent_def Let_def split: if_splits)
  qed
qed

lemma list_announcements_ok:
  assumes "coherent enc ops config c" and "cached_list_announcements enc config ops now p i c = (x, c')"
  shows "coherent enc ops config c' \<and> x = ri_list_announcements ops p i (cx_inner c) \<and> cx_inner c' = cx_inner c"
proof (cases "cache_enabled config")
  case False
  then show ?thesis using assms by (auto simp: cached_list_announcements_def)
next
  case True
  let ?s = "cx_inner c" and ?key = "repo_key enc p i"
  obtain y m where y: "cache_lookup config now ?key (cx_announcements c) = (y, m)" by (rule prod.exhaust)
  note coh = assms(1) [unfolded coherent_def]
  note look = cache_lookup_all [OF coh [THEN conjunct1] y]
  show ?thesis
  proof (cases y)
    case (Some l)
    then have "ri_list_announcements ops p i ?s = Ok l" using look(2) unfolding lists_ok_def by blast
    then show ?thesis
      using assms(2) True y Some look(3) coh by (auto simp: cached_list_announcements_def coherent_def)
  next
    case None
    show ?thesis
    proof (cases "ri_list_announcements ops p i ?s")
      case (Inl e)
      then show ?thesis
        using assms(2) True y None coh look(1) by (auto simp: cached_list_announcements_def coherent_def)
    next
      case (Inr l)
      have ls: "cached_all config (lists_ok enc ops ?s) (cache_store config now ?key l m)"
        using same_list Inr by (intro cached_all_store [OF look(1)]) (metis lists_ok_def)+
      have gone: "cached_all config (newest_ok enc ops ?s) (AList.delete ?key (cx_latest_announcements c))"
        using coh by (intro cached_all_delete) auto
      have "cached_all config (newest_ok enc ops ?s) (cache_store config now ?key r (cx_latest_announcements c))"
        if "latest_by rr_created_at l = Some r" for r
      proof (rule cached_all_store)
        show "newest_ok enc ops ?s ?key r"
          using that Inr same_latest unfolding newest_ok_def by (metis latest map_sum.simps(2))
      qed (use coh in auto)
      then show ?thesis
        using assms(2) True y None coh Inr ls gone
        by (auto simp: cached_list_announcements_def coherent_def Let_def split: option.splits)
    qed
  qed
qed

lemma latest_announcement_ok:
  assumes "coherent enc ops config c" and "cached_latest_announcement enc config ops now p i c = (x, c')"
  shows "coherent enc ops config c' \<and> x = ri_latest_announcement ops p i (cx_inner c) \<and> cx_inner c' = cx_inner c"
proof -
  let ?s = "cx_inner c" and ?key = "repo_key enc p i"
  obtain y m where y: "read_through config now ?key (ri_latest_announcement ops p i ?s) (cx_latest_announcements c) = (y, m)"
    by (rule prod.exhaust)
  have "newest_ok enc ops ?s ?key r" if "ri_latest_announcement ops p i ?s = Ok (Some r)" for r
    using that same_latest by (metis newest_ok_def)
  from read_through_all [where P = "newest_ok enc ops (cx_inner c)", OF _ this y] assms y show ?thesis
    by (auto simp: coherent_def cached_latest_announcement_def newest_ok_def)
qed

lemma latest_state_ok:
  assumes "coherent enc ops config c" and "cached_latest_state enc config ops now p i c = (x, c')"
  shows "coherent enc ops config c' \<and> x = ri_latest_state ops p i (cx_inner c) \<and> cx_inner c' = cx_inner c"
proof -
  let ?s = "cx_inner c" and ?key = "repo_key enc p i"
  obtain y m where y: "read_through config now ?key (ri_latest_state ops p i ?s) (cx_latest_states c) = (y, m)"
    by (rule prod.exhaust)
  have "states_ok enc ops ?s ?key r" if "ri_latest_state ops p i ?s = Ok (Some r)" for r
    using that same_state by (metis states_ok_def)
  from read_through_all [where P = "states_ok enc ops (cx_inner c)", OF _ this y] assms y show ?thesis
    by (auto simp: coherent_def cached_latest_state_def states_ok_def)
qed

lemma compatibility_ok:
  assumes "coherent enc ops config c" and "cached_compatibility config ops now u c = (x, c')"
  shows "coherent enc ops config c' \<and> x = ri_compatibility ops u (cx_inner c) \<and> cx_inner c' = cx_inner c"
proof -
  obtain y m where y: "read_through config now u (ri_compatibility ops u (cx_inner c)) (cx_relay_compatibility c) = (y, m)"
    by (rule prod.exhaust)
  have "reports_ok ops (cx_inner c) u r" if "ri_compatibility ops u (cx_inner c) = Ok (Some r)" for r
    using that by (simp add: reports_ok_def)
  from read_through_all [where P = "reports_ok ops (cx_inner c)", OF _ this y] assms y show ?thesis
    by (auto simp: coherent_def cached_compatibility_def reports_ok_def)
qed

lemma insert_state_ok:
  assumes "coherent enc ops config c"
    and "not_older sr_created_at r (ri_latest_state ops (sr_pubkey r) (sr_identifier r) (cx_inner c))"
    and "cached_insert_state enc config ops now r c = (x, c')"
  shows "coherent enc ops config c' \<and> ri_insert_state ops r (cx_inner c) = (x, cx_inner c')"
proof -
  let ?s = "cx_inner c" and ?key = "repo_key enc (sr_pubkey r) (sr_identifier r)"
  obtain y s' where y: "ri_insert_state ops r ?s = (y, s')" by (rule prod.exhaust)
  note coh = assms(1) [unfolded coherent_def]
  have "lists_ok enc ops s' = lists_ok enc ops ?s" "newest_ok enc ops s' = newest_ok enc ops ?s"
    "reports_ok ops s' = reports_ok ops ?s"
    using state_list [OF y] state_report [OF y]
    by (simp_all add: fun_eq_iff lists_ok_def newest_ok_def reports_ok_def latest)
  then have rest: "coherent enc ops config (c\<lparr>cx_inner := s', cx_latest_states := m\<rparr>) \<longleftrightarrow>
      cached_all config (states_ok enc ops s') m" for m
    using coh by (simp add: coherent_def)
  have other: "k' \<noteq> ?key \<or> y \<noteq> Ok () \<Longrightarrow> states_ok enc ops ?s k' v \<Longrightarrow> states_ok enc ops s' k' v" for k' v
    using state_other [OF y] by (auto simp: states_ok_def)
  have same: "c\<lparr>cx_inner := s'\<rparr> = c\<lparr>cx_inner := s', cx_latest_states := cx_latest_states c\<rparr>" by simp
  show ?thesis
  proof (cases "y = Ok () \<and> cache_enabled config")
    case False
    then have "cached_all config (states_ok enc ops s') (cx_latest_states c)"
      using coh other by (cases "cache_enabled config") (auto elim: cached_all_mono simp: cached_all_off)
    then have "coherent enc ops config (c\<lparr>cx_inner := s'\<rparr>)" using rest by (metis same)
    with False show ?thesis
      using assms(3) y by (cases y) (auto simp: cached_insert_state_def with_inner_def split: if_splits)
  next
    case True
    then have "states_ok enc ops s' ?key r"
      using state_newest y assms(2) same_state unfolding states_ok_def by metis
    then have st: "cached_all config (states_ok enc ops s') (cache_store config now ?key r (cx_latest_states c))"
      using coh other by (intro cached_all_store [of config "states_ok enc ops ?s"]) auto
    have "should_update config sr_created_at now ?key r (cx_latest_states c)"
      using assms(2) cached_all_get [of config "states_ok enc ops ?s" "cx_latest_states c" ?key] coh
      by (auto simp: should_update_def states_ok_def split: option.splits)
    with True st rest show ?thesis
      using assms(3) y by (auto simp: cached_insert_state_def with_inner_def cache_newest_def)
  qed
qed

lemma upsert_compatibility_ok:
  assumes "coherent enc ops config c" and "cached_upsert_compatibility config ops now r c = (x, c')"
  shows "coherent enc ops config c' \<and> ri_upsert_compatibility ops r (cx_inner c) = (x, cx_inner c')"
proof -
  let ?s = "cx_inner c"
  obtain y s' where y: "ri_upsert_compatibility ops r ?s = (y, s')" by (rule prod.exhaust)
  note coh = assms(1) [unfolded coherent_def]
  have "lists_ok enc ops s' = lists_ok enc ops ?s" "newest_ok enc ops s' = newest_ok enc ops ?s"
    "states_ok enc ops s' = states_ok enc ops ?s"
    using report_list [OF y] report_state [OF y]
    by (simp_all add: fun_eq_iff lists_ok_def newest_ok_def states_ok_def latest)
  then have rest: "coherent enc ops config (c\<lparr>cx_inner := s', cx_relay_compatibility := m\<rparr>) \<longleftrightarrow>
      cached_all config (reports_ok ops s') m" for m
    using coh by (simp add: coherent_def)
  have same: "c\<lparr>cx_inner := s'\<rparr> = c\<lparr>cx_inner := s', cx_relay_compatibility := cx_relay_compatibility c\<rparr>" by simp
  show ?thesis
  proof (cases "y = Ok () \<and> cache_enabled config")
    case False
    then have "cached_all config (reports_ok ops s') (cx_relay_compatibility c)"
      using coh report_get [OF y]
      by (cases "cache_enabled config") (auto elim!: cached_all_mono simp: reports_ok_def cached_all_off)
    then have "coherent enc ops config (c\<lparr>cx_inner := s'\<rparr>)" using rest by (metis same)
    with False show ?thesis
      using assms(2) y by (cases y) (auto simp: cached_upsert_compatibility_def with_inner_def split: if_splits)
  next
    case True
    then have "cached_all config (reports_ok ops s') (cache_store config now (rc_relay_url r) r (cx_relay_compatibility c))"
      using coh report_get [OF y] by (intro cached_all_store [of config "reports_ok ops ?s"]) (auto simp: reports_ok_def)
    with True rest show ?thesis
      using assms(2) y by (auto simp: cached_upsert_compatibility_def with_inner_def)
  qed
qed

text \<open>A call through a coherent cache is the call on the repository.\<close>

lemma call_ok:
  assumes "coherent enc ops config c" and "call_in_order ops call (cx_inner c)"
    and "cached_call enc config ops now call c = (y, c')"
  shows "coherent enc ops config c' \<and> inner_call ops call (cx_inner c) = (y, cx_inner c')"
proof (cases call)
  case (InsertAnnouncement r)
  then show ?thesis using assms insert_announcement_ok [OF assms(1), of r now] by (fastforce simp: map_prod_def split: prod.splits)
next
  case (ListAnnouncements p i)
  then show ?thesis using assms list_announcements_ok [OF assms(1), of now p i] by (fastforce simp: map_prod_def split: prod.splits)
next
  case (LatestAnnouncement p i)
  then show ?thesis using assms latest_announcement_ok [OF assms(1), of now p i] by (fastforce simp: map_prod_def split: prod.splits)
next
  case (InsertState r)
  then show ?thesis using assms insert_state_ok [OF assms(1), of r now] by (fastforce simp: map_prod_def split: prod.splits)
next
  case (LatestState p i)
  then show ?thesis using assms latest_state_ok [OF assms(1), of now p i] by (fastforce simp: map_prod_def split: prod.splits)
next
  case (UpsertCompatibility r)
  then show ?thesis using assms upsert_compatibility_ok [OF assms(1), of now r] by (fastforce simp: map_prod_def split: prod.splits)
next
  case (Compatibility u)
  then show ?thesis using assms compatibility_ok [OF assms(1), of now u] by (fastforce simp: map_prod_def split: prod.splits)
qed

lemma run_ok:
  "coherent enc ops config c \<Longrightarrow> in_order ops calls (cx_inner c) \<Longrightarrow>
   cached_run enc config ops calls c = inner_run ops calls (cx_inner c)"
proof (induction calls arbitrary: c)
  case (Cons x xs)
  obtain y c' where y: "cached_call enc config ops (fst x) (snd x) c = (y, c')" by (rule prod.exhaust)
  with Cons.prems call_ok [OF Cons.prems(1) _ y] have "coherent enc ops config c'"
    and inner: "inner_call ops (snd x) (cx_inner c) = (y, cx_inner c')" by simp_all
  with Cons.IH [of c'] Cons.prems(2) show ?case by (simp add: y inner)
qed simp

end

section \<open>The in-memory repositories behind the cache\<close>

definition memory_repository_ops :: "encoder \<Rightarrow> in_memory_directory repository_ops" where
  "memory_repository_ops enc =
     \<lparr>ri_insert_announcement = (\<lambda>r d. (Ok (), insert_announcement enc r d)),
      ri_list_announcements = (\<lambda>p i d. Ok (list_announcements enc p i d)),
      ri_latest_announcement = (\<lambda>p i d. Ok (latest_announcement enc p i d)),
      ri_insert_state = (\<lambda>r d. (Ok (), insert_state enc r d)),
      ri_latest_state = (\<lambda>p i d. Ok (latest_state_record enc p i d)),
      ri_upsert_compatibility = (\<lambda>r d. (Ok (), upsert_relay_compatibility r d)),
      ri_compatibility = (\<lambda>u d. Ok (relay_compatibility u d))\<rparr>"

lemma records_at_push:
  "records_at k (push_record k' r m) = (if k = k' then records_at k m @ [r] else records_at k m)"
  by (simp add: records_at_def push_record_def update_conv')

lemmas memory_repository_defs =
  memory_repository_ops_def insert_announcement_def list_announcements_def latest_announcement_def insert_state_def
  latest_state_record_def upsert_relay_compatibility_def relay_compatibility_def records_at_push

interpretation memory_cache: cache_source enc "memory_repository_ops enc"
proof unfold_locales
  fix t :: repo_state_record and s s' :: in_memory_directory
  assume "ri_insert_state (memory_repository_ops enc) t s = (Ok (), s')"
    and "not_older sr_created_at t (ri_latest_state (memory_repository_ops enc) (sr_pubkey t) (sr_identifier t) s)"
  then show "ri_latest_state (memory_repository_ops enc) (sr_pubkey t) (sr_identifier t) s' = Ok (Some t)"
    by (auto simp: memory_repository_defs intro!: latest_by_snoc split: option.splits)
qed (auto simp: memory_repository_defs update_conv')

text \<open>
  C27: A cache is transparent as long as what is stored is never older than what its repository has: whatever
  the time to live, the number of entries and the instants of the calls, every call through a cache before
  the in-memory repositories has the reply it would have without the cache.\<close>

theorem cache_transparent:
  assumes "in_order (memory_repository_ops enc) calls d"
  shows "cached_run enc config (memory_repository_ops enc) calls (cached_new d) =
    inner_run (memory_repository_ops enc) calls d"
  using memory_cache.run_ok [OF memory_cache.coherent_new, of enc calls d config] assms by (simp add: cached_new_def)

definition cache_example_state :: "u8 \<Rightarrow> int \<Rightarrow> repo_state_record" where
  "cache_example_state ident created =
     \<lparr>sr_event_id = [ident], sr_pubkey = [1], sr_identifier = ''r'', sr_created_at = created, sr_state_json = ''{}''\<rparr>"

lemmas cache_example_defs =
  memory_repository_defs insert_state_def push_record_def records_at_def latest_by_def new_directory_def
  cache_example_state_def repo_key_def

theorem cache_transparent_witness:
  "in_order (memory_repository_ops (\<lambda>_. ''01''))
     [(0, InsertState (cache_example_state 1 10)), (1, InsertState (cache_example_state 2 10)), (2, LatestState [1] ''r'')]
     new_directory \<and>
   cached_run (\<lambda>_. ''01'') cache_config_default (memory_repository_ops (\<lambda>_. ''01''))
     [(0, InsertState (cache_example_state 1 10)), (1, InsertState (cache_example_state 2 10)), (2, LatestState [1] ''r'')]
     (cached_new new_directory) =
   [Stored (Ok ()), Stored (Ok ()), State (Ok (Some (cache_example_state 2 10)))]"
proof
  let ?ops = "memory_repository_ops (\<lambda>_. ''01'')"
  let ?calls = "[(0, InsertState (cache_example_state 1 10)), (1, InsertState (cache_example_state 2 10)), (2, LatestState [1] ''r'')]"
  show ok: "in_order ?ops ?calls new_directory" by (simp add: cache_example_defs)
  show "cached_run (\<lambda>_. ''01'') cache_config_default ?ops ?calls (cached_new new_directory) =
      [Stored (Ok ()), Stored (Ok ()), State (Ok (Some (cache_example_state 2 10)))]"
    unfolding cache_transparent [OF ok] by (simp add: cache_example_defs)
qed

section \<open>The size of the cache\<close>

definition cache_within :: "cache_config \<Rightarrow> 'r cached_repositories \<Rightarrow> bool" where
  "cache_within config c \<longleftrightarrow>
     length (cx_announcements c) \<le> cc_max_entries config \<and> length (cx_latest_announcements c) \<le> cc_max_entries config \<and>
     length (cx_latest_states c) \<le> cc_max_entries config \<and> length (cx_relay_compatibility c) \<le> cc_max_entries config"

definition cache_sound :: "cache_config \<Rightarrow> 'r cached_repositories \<Rightarrow> bool" where
  "cache_sound config c \<longleftrightarrow>
     cached_all config (\<lambda>_ _. True) (cx_announcements c) \<and> cached_all config (\<lambda>_ _. True) (cx_latest_announcements c) \<and>
     cached_all config (\<lambda>_ _. True) (cx_latest_states c) \<and> cached_all config (\<lambda>_ _. True) (cx_relay_compatibility c)"

lemma cache_newest_sound:
  "cached_all config (\<lambda>_ _. True) m \<Longrightarrow> cached_all config (\<lambda>_ _. True) (cache_newest config time now key r m)"
  by (simp add: cache_newest_def cached_all_store [of config "\<lambda>_ _. True"])

lemma cache_sound_inner: "cache_sound config c \<Longrightarrow> with_inner f c = (x, c') \<Longrightarrow> cache_sound config c'"
  by (auto simp: with_inner_def cache_sound_def split: prod.splits)

lemma read_through_sound:
  "cached_all config (\<lambda>_ _. True) m \<Longrightarrow> read_through config now key inner m = (x, m') \<Longrightarrow>
   cached_all config (\<lambda>_ _. True) m'"
  by (rule read_through_all(1) [where P = "\<lambda>_ _. True"]) simp_all

lemma list_announcements_sound:
  assumes "cache_sound config c"
  shows "cache_sound config (snd (cached_list_announcements enc config ops now p i c))"
proof -
  obtain y m where y: "cache_lookup config now (repo_key enc p i) (cx_announcements c) = (y, m)" by (rule prod.exhaust)
  have "cached_all config (\<lambda>_ _. True) m"
    using assms y by (intro cache_lookup_all(1) [of config "\<lambda>_ _. True" "cx_announcements c" now _ y m]) (auto simp: cache_sound_def)
  then show ?thesis
    using assms y unfolding cached_list_announcements_def Let_def cache_sound_def
    by (auto simp: cached_all_store [of config "\<lambda>_ _. True"] cached_all_delete [of config "\<lambda>_ _. True"]
        split: option.splits sum.splits)
qed

lemma if_keeps:
  "cache_sound config (snd x) \<Longrightarrow> cache_sound config (snd y) \<Longrightarrow> cache_sound config (snd (if b then x else y))"
  by simp

lemma cached_call_sound:
  assumes "cache_sound config c"
  shows "cache_sound config (snd (cached_call enc config ops now call c))"
proof -
  note inner = cache_sound_inner [OF assms]
  have st: "cache_sound config (snd (st_then (with_inner f c) g))"
    if "\<And>x c. cache_sound config c \<Longrightarrow> cache_sound config (snd (g x c))" for f g
    by (rule st_then_keeps) (auto intro: that inner [where f = f] simp: prod_eq_iff)
  have wi: "cache_sound config (snd (with_inner f c))" for f
    by (rule inner [where f = f and x = "fst (with_inner f c)"]) simp
  show ?thesis
  proof (cases call)
    case (InsertAnnouncement r)
    have "cache_sound config (snd (cached_insert_announcement enc config ops now r c))"
      unfolding cached_insert_announcement_def Let_def
      by (rule if_keeps; (rule wi | rule st))
        (simp add: cache_sound_def cache_newest_sound push_cached_all [of config "\<lambda>_ _. True"])
    with InsertAnnouncement show ?thesis by simp
  next
    case (ListAnnouncements p i)
    then show ?thesis using list_announcements_sound [OF assms] by simp
  next
    case (InsertState r)
    have "cache_sound config (snd (cached_insert_state enc config ops now r c))"
      unfolding cached_insert_state_def
      by (rule if_keeps; (rule wi | rule st)) (simp add: cache_sound_def cache_newest_sound)
    with InsertState show ?thesis by simp
  next
    case (UpsertCompatibility r)
    have "cache_sound config (snd (cached_upsert_compatibility config ops now r c))"
      unfolding cached_upsert_compatibility_def
      by (rule if_keeps; (rule wi | rule st)) (simp add: cache_sound_def cached_all_store [of config "\<lambda>_ _. True"])
    with UpsertCompatibility show ?thesis by simp
  qed (use assms in \<open>auto simp: cached_latest_announcement_def cached_latest_state_def cached_compatibility_def
        cache_sound_def dest: read_through_sound split: prod.splits\<close>)
qed

text \<open>
  No map of a cache ever has more entries than its configuration allows: whatever is called, at whatever
  instants and with whatever repository behind the cache, also one that fails.\<close>

theorem cache_bounded: "cache_within config (cached_final enc config ops calls (cached_new d))"
proof -
  have "cache_sound config c \<Longrightarrow> cache_sound config (cached_final enc config ops calls c)" for c
    by (induction calls arbitrary: c) (simp_all add: cached_call_sound)
  moreover have "cache_sound config (cached_new d)" by (simp add: cache_sound_def cached_new_def)
  ultimately have "cache_sound config (cached_final enc config ops calls (cached_new d))" by blast
  then show ?thesis by (simp add: cache_sound_def cache_within_def cached_all_def)
qed

text \<open>
  Without that order a cache changes what is answered: a state older than the one the repository has, stored
  through a cache that has no entry of the repository, is answered as the latest state; the repository itself
  answers the newer one.\<close>

theorem cache_regresses:
  assumes "0 < cc_max_entries config" and "\<And>ttl. cc_ttl config = Some ttl \<Longrightarrow> 0 < ttl"
    and "sr_pubkey old = sr_pubkey new" and "sr_identifier old = sr_identifier new"
    and "sr_created_at old < sr_created_at new"
  shows "cached_run enc config (memory_repository_ops enc)
      [(now, InsertState old), (now, LatestState (sr_pubkey old) (sr_identifier old))]
      (cached_new (insert_state enc new new_directory)) = [Stored (Ok ()), State (Ok (Some old))] \<and>
    inner_run (memory_repository_ops enc)
      [(now, InsertState old), (now, LatestState (sr_pubkey old) (sr_identifier old))]
      (insert_state enc new new_directory) = [Stored (Ok ()), State (Ok (Some new))]"
proof
  have one: "evict_if_needed config [e] = [e]" for e :: "string \<times> repo_state_record cache_entry"
    using assms(1) by (simp add: evict_if_needed_def evict_while.simps)
  have fresh: "is_fresh config now \<lparr>cn_value = old, cn_stored_at = now\<rparr>"
    using assms(2) by (auto simp: is_fresh_def split: option.splits)
  show "cached_run enc config (memory_repository_ops enc)
      [(now, InsertState old), (now, LatestState (sr_pubkey old) (sr_identifier old))]
      (cached_new (insert_state enc new new_directory)) = [Stored (Ok ()), State (Ok (Some old))]"
    using assms(1) one fresh
    by (simp add: cached_new_def cached_insert_state_def cached_latest_state_def read_through_def cache_newest_def
        should_update_def cache_store_def cache_lookup_def with_inner_def cache_enabled_def memory_repository_defs)
  show "inner_run (memory_repository_ops enc)
      [(now, InsertState old), (now, LatestState (sr_pubkey old) (sr_identifier old))]
      (insert_state enc new new_directory) = [Stored (Ok ()), State (Ok (Some new))]"
    using assms(3-5) by (simp add: memory_repository_defs latest_by_def records_at_def new_directory_def push_record_def)
qed

theorem cache_regresses_witness:
  "cached_run (\<lambda>_. ''01'') cache_config_default (memory_repository_ops (\<lambda>_. ''01''))
     [(0, InsertState (cache_example_state 1 10)), (0, LatestState [1] ''r'')]
     (cached_new (insert_state (\<lambda>_. ''01'') (cache_example_state 2 20) new_directory)) =
   [Stored (Ok ()), State (Ok (Some (cache_example_state 1 10)))]"
  using cache_regresses [of cache_config_default "cache_example_state 1 10" "cache_example_state 2 20" "\<lambda>_. ''01''" 0]
  by (simp add: cache_config_default_def cache_example_state_def)

end
