(* ===== verification/Rust_Net.thy ===== *)
theory Rust_Net
  imports Rust_Str
begin

text \<open>
  Rust's \<open>std::net::SocketAddr\<close> and its \<open>FromStr\<close>: an address of version 4 with a port, or one of version 6
  in brackets, with an optional scope and a port. A reader takes what it recognises off the front of the
  text; the parse succeeds when nothing is left.
\<close>

section \<open>Reading\<close>

type_synonym 'a reader = "string \<Rightarrow> ('a \<times> string) option"

definition to_digit :: "nat \<Rightarrow> char \<Rightarrow> nat option" where
  "to_digit radix c =
     (let n = (if is_ascii_digit c then byte c - 48
               else if 97 \<le> byte c \<and> byte c \<le> 122 then byte c - 87
               else if 65 \<le> byte c \<and> byte c \<le> 90 then byte c - 55 else 36)
      in if n < radix then Some n else None)"

definition radix_value :: "nat \<Rightarrow> string \<Rightarrow> nat" where
  "radix_value radix s = foldl (\<lambda>n c. radix * n + (case to_digit radix c of Some d \<Rightarrow> d | None \<Rightarrow> 0)) 0 s"

definition read_number :: "nat \<Rightarrow> nat option \<Rightarrow> bool \<Rightarrow> nat \<Rightarrow> nat reader" where
  "read_number radix max_digits allow_zero_prefix width s =
     (let digits = takeWhile (\<lambda>c. to_digit radix c \<noteq> None) s;
          v = radix_value radix digits
      in if digits = [] \<or> (case max_digits of Some m \<Rightarrow> m < length digits | None \<Rightarrow> False) \<or>
            (\<not> allow_zero_prefix \<and> hd digits = CHR ''0'' \<and> 1 < length digits) \<or> 2 ^ width \<le> v
         then None else Some (v, drop (length digits) s))"

fun read_given_char :: "char \<Rightarrow> unit reader" where
  "read_given_char c [] = None"
| "read_given_char c (a # s) = (if a = c then Some ((), s) else None)"

definition read_then :: "'a reader \<Rightarrow> ('a \<Rightarrow> 'b reader) \<Rightarrow> 'b reader" where
  "read_then p f s = (case p s of None \<Rightarrow> None | Some (x, rest) \<Rightarrow> f x rest)"

definition read_separator :: "char \<Rightarrow> nat \<Rightarrow> 'a reader \<Rightarrow> 'a reader" where
  "read_separator sep index inner =
     (if index > 0 then read_then (read_given_char sep) (\<lambda>_. inner) else inner)"

fun read_octets :: "nat \<Rightarrow> nat \<Rightarrow> nat list reader" where
  "read_octets 0 i s = Some ([], s)"
| "read_octets (Suc n) i s =
     read_then (read_separator CHR ''.'' i (read_number 10 (Some 3) False 8))
       (\<lambda>octet. read_then (read_octets n (Suc i)) (\<lambda>octets rest. Some (octet # octets, rest))) s"

definition read_ipv4_addr :: "nat list reader" where
  "read_ipv4_addr = read_octets 4 0"

definition octet_groups :: "nat list \<Rightarrow> nat list" where
  "octet_groups os = [256 * os ! 0 + os ! 1, 256 * os ! 2 + os ! 3]"

fun read_groups :: "nat \<Rightarrow> nat \<Rightarrow> string \<Rightarrow> nat list \<times> bool \<times> string" where
  "read_groups 0 i s = ([], False, s)"
| "read_groups (Suc n) i s =
     (case (if n > 0 then read_separator CHR '':'' i read_ipv4_addr s else None) of
        Some (octets, rest) \<Rightarrow> (octet_groups octets, True, rest)
      | None \<Rightarrow>
          (case read_separator CHR '':'' i (read_number 16 (Some 4) True 16) s of
             None \<Rightarrow> ([], False, s)
           | Some (g, rest) \<Rightarrow>
               (case read_groups n (Suc i) rest of (gs, v4, rest) \<Rightarrow> (g # gs, v4, rest))))"

definition read_ipv6_addr :: "nat list reader" where
  "read_ipv6_addr s =
     (case read_groups 8 0 s of
        (head, head_ipv4, rest) \<Rightarrow>
          (if length head = 8 then Some (head, rest)
           else if head_ipv4 then None
           else read_then (read_given_char CHR '':'') (\<lambda>_. read_then (read_given_char CHR '':'') (\<lambda>_ rest.
             case read_groups (8 - (length head + 1)) 0 rest of
               (tail, _, rest) \<Rightarrow> Some (head @ replicate (8 - length head - length tail) 0 @ tail, rest))) rest))"

section \<open>Socket addresses\<close>

datatype socket_addr = SocketV4 "nat list" nat | SocketV6 "nat list" nat nat

datatype ip_addr = IpV4 "nat list" | IpV6 "nat list"

fun socket_ip :: "socket_addr \<Rightarrow> ip_addr" where
  "socket_ip (SocketV4 octets port) = IpV4 octets"
| "socket_ip (SocketV6 groups scope port) = IpV6 groups"

fun socket_port :: "socket_addr \<Rightarrow> nat" where
  "socket_port (SocketV4 octets port) = port"
| "socket_port (SocketV6 groups scope port) = port"

definition read_port :: "nat reader" where
  "read_port = read_then (read_given_char CHR '':'') (\<lambda>_. read_number 10 None True 16)"

definition read_scope_id :: "nat reader" where
  "read_scope_id = read_then (read_given_char CHR ''%'') (\<lambda>_. read_number 10 None True 32)"

definition read_socket_addr_v4 :: "socket_addr reader" where
  "read_socket_addr_v4 =
     read_then read_ipv4_addr (\<lambda>ip. read_then read_port (\<lambda>port rest. Some (SocketV4 ip port, rest)))"

definition read_socket_addr_v6 :: "socket_addr reader" where
  "read_socket_addr_v6 =
     read_then (read_given_char CHR ''['') (\<lambda>_. read_then read_ipv6_addr (\<lambda>ip s.
       case (case read_scope_id s of Some r \<Rightarrow> r | None \<Rightarrow> (0, s)) of
         (scope, s) \<Rightarrow>
           read_then (read_given_char CHR '']'') (\<lambda>_. read_then read_port
             (\<lambda>port rest. Some (SocketV6 ip scope port, rest))) s))"

definition socket_addr_parse :: "string \<Rightarrow> socket_addr option" where
  "socket_addr_parse s =
     (case (case read_socket_addr_v4 s of Some r \<Rightarrow> Some r | None \<Rightarrow> read_socket_addr_v6 s) of
        Some (address, []) \<Rightarrow> Some address
      | _ \<Rightarrow> None)"

section \<open>Facts\<close>

lemma to_digit_decimal: "to_digit 10 c = (if is_ascii_digit c then Some (byte c - 48) else None)"
  by (auto simp: to_digit_def Let_def is_ascii_digit_def)

lemma radix_value_decimal: "list_all is_ascii_digit s \<Longrightarrow> radix_value 10 s = digits_value s"
proof -
  have "list_all is_ascii_digit s \<Longrightarrow>
      foldl (\<lambda>n c. 10 * n + (case to_digit 10 c of Some d \<Rightarrow> d | None \<Rightarrow> 0)) a s = foldl (\<lambda>n c. 10 * n + (byte c - 48)) a s"
    for a by (induction s arbitrary: a) (simp_all add: to_digit_decimal)
  then show "list_all is_ascii_digit s \<Longrightarrow> radix_value 10 s = digits_value s"
    by (simp add: radix_value_def digits_value_def)
qed

lemma digit_chars:
  "digit_char 0 = CHR ''0''" "digit_char (Suc 0) = CHR ''1''" "digit_char 2 = CHR ''2''" "digit_char 3 = CHR ''3''"
  "digit_char 4 = CHR ''4''" "digit_char 5 = CHR ''5''" "digit_char 6 = CHR ''6''" "digit_char 7 = CHR ''7''"
  "digit_char 8 = CHR ''8''" "digit_char 9 = CHR ''9''"
  by code_simp+

lemma show_nat_zero: "hd (show_nat n) = CHR ''0'' \<Longrightarrow> n = 0"
proof (induction n rule: show_nat.induct)
  case (1 n)
  show ?case
  proof (cases "n < 10")
    case True
    have "byte (CHR ''0'') = (48 :: nat)" by simp
    then show ?thesis using 1(2) True byte_digit_char [of n] by (simp add: show_nat.simps [of n])
  next
    case False
    then have "n div 10 = 0" using 1 by (simp add: show_nat.simps [of n])
    then show ?thesis using False by simp
  qed
qed

text \<open>A printed number is read back, with whatever follows it left over.\<close>

lemma read_show_nat:
  assumes "n < 2 ^ width" and "case max_digits of Some m \<Rightarrow> length (show_nat n) \<le> m | None \<Rightarrow> True"
    and "rest = [] \<or> \<not> is_ascii_digit (hd rest)"
  shows "read_number 10 max_digits zeros width (show_nat n @ rest) = Some (n, rest)"
proof -
  have all: "\<forall>c \<in> set (show_nat n). to_digit 10 c \<noteq> None"
    using show_nat_digits [of n] by (auto simp: list_all_iff to_digit_decimal)
  then have "takeWhile (\<lambda>c. to_digit 10 c \<noteq> None) (show_nat n @ rest) = show_nat n"
    using assms(3) by (cases rest) (auto simp: takeWhile_append to_digit_decimal)
  moreover have "radix_value 10 (show_nat n) = n"
    using radix_value_decimal [OF show_nat_digits] digits_value_show_nat by simp
  moreover have "hd (show_nat n) = CHR ''0'' \<Longrightarrow> length (show_nat n) = 1"
    using show_nat_zero [of n] by (simp add: show_nat.simps)
  ultimately show ?thesis
    using assms(1,2) by (auto simp: read_number_def Let_def split: option.splits)
qed

lemma show_nat_length: "n < 10 ^ Suc k \<Longrightarrow> length (show_nat n) \<le> Suc k"
proof (induction k arbitrary: n)
  case 0
  then show ?case by (simp add: show_nat.simps)
next
  case (Suc k)
  then have "length (show_nat (n div 10)) \<le> Suc k" by (intro Suc.IH) (simp add: less_mult_imp_div_less)
  then show ?case by (simp add: show_nat.simps [of n])
qed

definition show_socket_v4 :: "nat list \<Rightarrow> nat \<Rightarrow> string" where
  "show_socket_v4 octets port =
     show_nat (octets ! 0) @ ''.'' @ show_nat (octets ! 1) @ ''.'' @ show_nat (octets ! 2) @ ''.'' @
     show_nat (octets ! 3) @ '':'' @ show_nat port"

lemma not_digit_punct [simp]: "\<not> is_ascii_digit (CHR ''.'')" "\<not> is_ascii_digit (CHR '':'')"
  by (simp_all add: is_ascii_digit_def)

lemma read_show_octet:
  "n < 256 \<Longrightarrow> rest = [] \<or> \<not> is_ascii_digit (hd rest) \<Longrightarrow>
     read_number 10 (Some 3) False 8 (show_nat n @ rest) = Some (n, rest)"
  using show_nat_length [of n 2] by (intro read_show_nat) simp_all

lemma socket_addr_round_trip:
  assumes "a < 256" "b < 256" "c < 256" "d < 256" "port < 65536"
  shows "socket_addr_parse (show_socket_v4 [a, b, c, d] port) = Some (SocketV4 [a, b, c, d] port)"
proof -
  have four: "(4 :: nat) = Suc (Suc (Suc (Suc 0)))" by simp
  have "read_number 10 None True 16 (show_nat port) = Some (port, [])"
    using read_show_nat [of port 16 None "[]" True] assms(5) by simp
  then show ?thesis
    using assms(1-4)
    by (simp add: socket_addr_parse_def read_socket_addr_v4_def read_ipv4_addr_def four read_then_def
        read_separator_def show_socket_v4_def read_port_def read_show_octet)
qed

text \<open>A port that was read fits sixteen bits.\<close>

lemma read_number_bound: "read_number radix m z w s = Some (n, rest) \<Longrightarrow> n < 2 ^ w"
  by (auto simp: read_number_def Let_def split: if_splits)

lemma socket_port_bound: "socket_addr_parse s = Some address \<Longrightarrow> socket_port address < 65536"
  by (auto simp: socket_addr_parse_def read_socket_addr_v4_def read_socket_addr_v6_def read_then_def read_port_def
      dest!: read_number_bound split: option.splits prod.splits list.splits)

end
