(* ===== verification/Config.thy ===== *)
theory Config
  imports Relay_Event Core_Grasp Rust_Net Rust_Utf8
begin

text \<open>
  The configuration crate (\<open>crates/config/src/lib.rs\<close>): the addresses of the services, the relays, Forgejo, the
  web interface, the control and authentication services and the policy of the relay, each read from the
  environment or from a TOML document and validated. The environment is a function from names to values. The
  parser of TOML, which gives the documents' structures, and the parser of addresses of the web are parameters;
  a file is read by a function.
\<close>

section \<open>Errors\<close>

datatype config_error =
    InvalidRelayBind string
  | ConfigRelayUrl string
  | InvalidRelayCompatibilityMode string
  | InvalidRelayProbeConfig string string
  | InvalidRelayPolicyConfig string string
  | InvalidServiceBind string string
  | ConfigMissingEnv string
  | InvalidConfig string string
  | ReadConfig string string
  | TomlParse "string option" string

fun config_error_display :: "config_error \<Rightarrow> string" where
  "config_error_display (InvalidRelayBind v) = ''invalid relay bind address: '' @ v"
| "config_error_display (ConfigRelayUrl v) = ''invalid relay url: '' @ v"
| "config_error_display (InvalidRelayCompatibilityMode v) = ''invalid relay compatibility mode: '' @ v"
| "config_error_display (InvalidRelayProbeConfig field v) = ''invalid relay probe config '' @ field @ '': '' @ v"
| "config_error_display (InvalidRelayPolicyConfig field v) = ''invalid relay policy config '' @ field @ '': '' @ v"
| "config_error_display (InvalidServiceBind service v) = ''invalid '' @ service @ '' bind address: '' @ v"
| "config_error_display (ConfigMissingEnv key) = ''missing env '' @ key"
| "config_error_display (InvalidConfig field v) = ''invalid config '' @ field @ '': '' @ v"
| "config_error_display (ReadConfig path source) = ''failed to read config file '' @ path @ '': '' @ source"
| "config_error_display (TomlParse (Some path) source) = ''failed to parse config file '' @ path @ '': '' @ source"
| "config_error_display (TomlParse None source) = ''failed to parse config: '' @ source"

fun with_path :: "string \<Rightarrow> config_error \<Rightarrow> config_error" where
  "with_path path (TomlParse None source) = TomlParse (Some path) source"
| "with_path path other = other"

type_synonym 'a config_result = "(config_error, 'a) result"
type_synonym environment = "string \<Rightarrow> string option"
type_synonym file_reader = "string \<Rightarrow> (string, string) result"
type_synonym 'a toml_parser = "string \<Rightarrow> (string, 'a) result"

text \<open>\<open>toml::from_str\<close> with the error of the crate wrapped, and the way every \<open>from_toml_file\<close> reads its file.\<close>

definition toml_from_str :: "'a toml_parser \<Rightarrow> string \<Rightarrow> 'a config_result" where
  "toml_from_str toml input = map_err (TomlParse None) (toml input)"

definition from_toml_file :: "file_reader \<Rightarrow> (string \<Rightarrow> 'a config_result) \<Rightarrow> string \<Rightarrow> 'a config_result" where
  "from_toml_file read from_toml_str path =
     and_then (map_err (ReadConfig path) (read path)) (\<lambda>contents. map_err (with_path path) (from_toml_str contents))"

definition validated :: "('a \<Rightarrow> unit config_result) \<Rightarrow> 'a \<Rightarrow> 'a config_result" where
  "validated validate config = and_then (validate config) (\<lambda>_. Ok config)"

section \<open>Variables of the environment\<close>

definition parse_bool :: "string \<Rightarrow> bool option" where
  "parse_bool v =
     (let s = to_ascii_lowercase (trim v) in
      if s \<in> {''true'', ''1'', ''yes''} then Some True
      else if s \<in> {''false'', ''0'', ''no''} then Some False else None)"

definition env_or_default :: "environment \<Rightarrow> string \<Rightarrow> string \<Rightarrow> string" where
  "env_or_default env key dflt = (case env key of Some v \<Rightarrow> v | None \<Rightarrow> dflt)"

definition env_required_string :: "environment \<Rightarrow> string \<Rightarrow> string config_result" where
  "env_required_string env key =
     and_then (ok_or (ConfigMissingEnv key) (env key)) (\<lambda>v. if blank v then Err (ConfigMissingEnv key) else Ok v)"

definition env_optional_string :: "environment \<Rightarrow> string \<Rightarrow> string option" where
  "env_optional_string env key = (case env key of Some v \<Rightarrow> if blank v then None else Some v | None \<Rightarrow> None)"

definition env_parsed ::
  "(string \<Rightarrow> 'a option) \<Rightarrow> (string \<Rightarrow> config_error) \<Rightarrow> string option \<Rightarrow> 'a option config_result" where
  "env_parsed parse err found =
     (case found of
        None \<Rightarrow> Ok None
      | Some v \<Rightarrow> if blank v then Ok None else map_err (\<lambda>_. err v) (ok_or () (map_option Some (parse v))))"

definition env_bool_default :: "environment \<Rightarrow> string \<Rightarrow> bool \<Rightarrow> bool config_result" where
  "env_bool_default env key dflt =
     (case env key of
        Some v \<Rightarrow> if blank v then Ok dflt else ok_or (InvalidConfig key v) (parse_bool v)
      | None \<Rightarrow> Ok dflt)"

definition env_bool :: "environment \<Rightarrow> string \<Rightarrow> bool option config_result" where
  "env_bool env key = env_parsed parse_bool (InvalidRelayProbeConfig key) (env key)"

definition probe_env_u64 :: "environment \<Rightarrow> string \<Rightarrow> nat option config_result" where
  "probe_env_u64 env key = env_parsed (parse_unsigned 64) (InvalidRelayProbeConfig key) (env key)"

definition env_bool_policy :: "environment \<Rightarrow> string \<Rightarrow> string \<Rightarrow> bool option config_result" where
  "env_bool_policy env key field = env_parsed parse_bool (InvalidRelayPolicyConfig field) (env key)"

definition env_u64_policy :: "environment \<Rightarrow> string \<Rightarrow> string \<Rightarrow> nat option config_result" where
  "env_u64_policy env key field = env_parsed (parse_unsigned 64) (InvalidRelayPolicyConfig field) (env key)"

definition unwrap_or :: "'a option \<Rightarrow> 'a \<Rightarrow> 'a" where
  "unwrap_or x dflt = (case x of Some v \<Rightarrow> v | None \<Rightarrow> dflt)"

definition require_toml_field :: "'a option \<Rightarrow> string \<Rightarrow> 'a config_result" where
  "require_toml_field v field = ok_or (InvalidConfig field ''missing'') v"

section \<open>Checks of a value\<close>

definition validate_service_bind :: "string \<Rightarrow> string \<Rightarrow> unit config_result" where
  "validate_service_bind service v = ensure (socket_addr_parse v \<noteq> None) (InvalidServiceBind service v)"

definition validate_relay_url :: "url_parser \<Rightarrow> string \<Rightarrow> unit config_result" where
  "validate_relay_url url_parse v =
     and_then (ok_or (ConfigRelayUrl v) (url_parse v)) (\<lambda>parsed.
     ensure (url_scheme parsed \<in> {''ws'', ''wss'', ''http'', ''https''}) (ConfigRelayUrl v))"

definition validate_http_url :: "url_parser \<Rightarrow> string \<Rightarrow> string \<Rightarrow> unit config_result" where
  "validate_http_url url_parse field v =
     and_then (ok_or (InvalidConfig field v) (url_parse v)) (\<lambda>parsed.
     ensure (url_scheme parsed \<in> {''http'', ''https''}) (InvalidConfig field v))"

definition validate_policy_limit :: "string \<Rightarrow> nat \<Rightarrow> unit config_result" where
  "validate_policy_limit field v = ensure (v \<noteq> 0) (InvalidRelayPolicyConfig field (show_nat v))"

definition csv_values :: "string \<Rightarrow> string list" where
  "csv_values raw = filter (\<lambda>entry. entry \<noteq> []) (map trim (str_split raw CHR '',''))"

definition parse_relay_urls :: "string \<Rightarrow> string list" where
  "parse_relay_urls raw = filter (\<lambda>entry. entry \<noteq> []) (map trim (str_split raw CHR '',''))"

section \<open>The relay on its own\<close>

definition DEFAULT_RELAY_BIND :: string where
  "DEFAULT_RELAY_BIND = ''0.0.0.0:8080''"

record gittree_config =
  gc_relay_bind :: string

definition gittree_config_from_env_with_keys :: "environment \<Rightarrow> string \<Rightarrow> gittree_config" where
  "gittree_config_from_env_with_keys env relay_bind_key =
     \<lparr>gc_relay_bind = (case env relay_bind_key of Some v \<Rightarrow> v | None \<Rightarrow> DEFAULT_RELAY_BIND)\<rparr>"

definition gittree_config_from_env :: "environment \<Rightarrow> gittree_config" where
  "gittree_config_from_env env =
     \<lparr>gc_relay_bind = (case env ''GITTREE_RELAY_BIND'' of Some v \<Rightarrow> v | None \<Rightarrow> DEFAULT_RELAY_BIND)\<rparr>"

record toml_config =
  tc_relay_bind :: "string option"

definition toml_into_config :: "toml_config \<Rightarrow> gittree_config" where
  "toml_into_config t = \<lparr>gc_relay_bind = (case tc_relay_bind t of Some v \<Rightarrow> v | None \<Rightarrow> DEFAULT_RELAY_BIND)\<rparr>"

definition gittree_config_from_toml_str :: "toml_config toml_parser \<Rightarrow> string \<Rightarrow> gittree_config config_result" where
  "gittree_config_from_toml_str toml input =
     and_then (toml_from_str toml input) (\<lambda>parsed. Ok (toml_into_config parsed))"

definition relay_bind_addr :: "gittree_config \<Rightarrow> socket_addr config_result" where
  "relay_bind_addr c = ok_or (InvalidRelayBind (gc_relay_bind c)) (socket_addr_parse (gc_relay_bind c))"

definition gittree_config_validate :: "gittree_config \<Rightarrow> unit config_result" where
  "gittree_config_validate c =
     and_then (ok_or (InvalidRelayBind (gc_relay_bind c)) (socket_addr_parse (gc_relay_bind c))) (\<lambda>_. Ok ())"

definition relay_bind_ip :: "gittree_config \<Rightarrow> ip_addr config_result" where
  "relay_bind_ip c = and_then (relay_bind_addr c) (\<lambda>addr. Ok (socket_ip addr))"

definition relay_bind_port :: "gittree_config \<Rightarrow> nat config_result" where
  "relay_bind_port c = and_then (relay_bind_addr c) (\<lambda>addr. Ok (socket_port addr))"

definition gittree_config_from_env_validated :: "environment \<Rightarrow> gittree_config config_result" where
  "gittree_config_from_env_validated env = validated gittree_config_validate (gittree_config_from_env env)"

definition gittree_config_from_toml_file_validated ::
  "file_reader \<Rightarrow> toml_config toml_parser \<Rightarrow> string \<Rightarrow> gittree_config config_result" where
  "gittree_config_from_toml_file_validated read toml path =
     and_then (from_toml_file read (gittree_config_from_toml_str toml) path) (validated gittree_config_validate)"

section \<open>The services\<close>

record service_config =
  sc_bind :: string

record services_config =
  sv_relay :: service_config
  sv_admission :: service_config
  sv_state :: service_config
  sv_coordinator :: service_config
  sv_sync :: service_config
  sv_git_http :: service_config
  sv_ui :: service_config
  sv_webhook :: service_config
  sv_control :: service_config
  sv_auth :: service_config

definition service_config_new :: "string \<Rightarrow> service_config" where
  "service_config_new bind = \<lparr>sc_bind = bind\<rparr>"

definition services_default :: services_config where
  "services_default =
     \<lparr>sv_relay = service_config_new DEFAULT_RELAY_BIND, sv_admission = service_config_new ''127.0.0.1:8081'',
      sv_state = service_config_new ''127.0.0.1:8082'', sv_coordinator = service_config_new ''127.0.0.1:8083'',
      sv_sync = service_config_new ''127.0.0.1:8084'', sv_git_http = service_config_new ''127.0.0.1:8085'',
      sv_ui = service_config_new ''127.0.0.1:8086'', sv_webhook = service_config_new ''127.0.0.1:8087'',
      sv_control = service_config_new ''127.0.0.1:8088'', sv_auth = service_config_new ''127.0.0.1:8089''\<rparr>"

definition services_from_env :: "environment \<Rightarrow> services_config" where
  "services_from_env env =
     \<lparr>sv_relay = service_config_new (env_or_default env ''GITTREE_RELAY_BIND'' DEFAULT_RELAY_BIND),
      sv_admission = service_config_new (env_or_default env ''GITTREE_ADMISSION_BIND'' ''127.0.0.1:8081''),
      sv_state = service_config_new (env_or_default env ''GITTREE_STATE_BIND'' ''127.0.0.1:8082''),
      sv_coordinator = service_config_new (env_or_default env ''GITTREE_COORDINATOR_BIND'' ''127.0.0.1:8083''),
      sv_sync = service_config_new (env_or_default env ''GITTREE_SYNC_BIND'' ''127.0.0.1:8084''),
      sv_git_http = service_config_new (env_or_default env ''GITTREE_GIT_HTTP_BIND'' ''127.0.0.1:8085''),
      sv_ui = service_config_new (env_or_default env ''GITTREE_UI_BIND'' ''127.0.0.1:8086''),
      sv_webhook = service_config_new (env_or_default env ''GITTREE_WEBHOOK_BIND'' ''127.0.0.1:8087''),
      sv_control = service_config_new (env_or_default env ''GITTREE_CONTROL_BIND'' ''127.0.0.1:8088''),
      sv_auth = service_config_new (env_or_default env ''GITTREE_AUTH_BIND'' ''127.0.0.1:8089'')\<rparr>"

record toml_service_config =
  ts_bind :: "string option"

record toml_services_config =
  ts_relay :: "toml_service_config option"
  ts_admission :: "toml_service_config option"
  ts_state :: "toml_service_config option"
  ts_coordinator :: "toml_service_config option"
  ts_sync :: "toml_service_config option"
  ts_git_http :: "toml_service_config option"
  ts_ui :: "toml_service_config option"
  ts_webhook :: "toml_service_config option"
  ts_control :: "toml_service_config option"
  ts_auth :: "toml_service_config option"

definition toml_services_default :: toml_services_config where
  "toml_services_default =
     \<lparr>ts_relay = None, ts_admission = None, ts_state = None, ts_coordinator = None, ts_sync = None,
      ts_git_http = None, ts_ui = None, ts_webhook = None, ts_control = None, ts_auth = None\<rparr>"

record toml_services_root =
  tr_services :: "toml_services_config option"

definition bind_or_default :: "toml_service_config option \<Rightarrow> string \<Rightarrow> string" where
  "bind_or_default config dflt = unwrap_or (Option.bind config ts_bind) dflt"

definition into_services :: "toml_services_root \<Rightarrow> services_config" where
  "into_services root =
     (let services = unwrap_or (tr_services root) toml_services_default in
      \<lparr>sv_relay = service_config_new (bind_or_default (ts_relay services) DEFAULT_RELAY_BIND),
       sv_admission = service_config_new (bind_or_default (ts_admission services) ''127.0.0.1:8081''),
       sv_state = service_config_new (bind_or_default (ts_state services) ''127.0.0.1:8082''),
       sv_coordinator = service_config_new (bind_or_default (ts_coordinator services) ''127.0.0.1:8083''),
       sv_sync = service_config_new (bind_or_default (ts_sync services) ''127.0.0.1:8084''),
       sv_git_http = service_config_new (bind_or_default (ts_git_http services) ''127.0.0.1:8085''),
       sv_ui = service_config_new (bind_or_default (ts_ui services) ''127.0.0.1:8086''),
       sv_webhook = service_config_new (bind_or_default (ts_webhook services) ''127.0.0.1:8087''),
       sv_control = service_config_new (bind_or_default (ts_control services) ''127.0.0.1:8088''),
       sv_auth = service_config_new (bind_or_default (ts_auth services) ''127.0.0.1:8089'')\<rparr>)"

definition services_validate :: "services_config \<Rightarrow> unit config_result" where
  "services_validate c =
     and_then (validate_service_bind ''relay'' (sc_bind (sv_relay c))) (\<lambda>_.
     and_then (validate_service_bind ''admission'' (sc_bind (sv_admission c))) (\<lambda>_.
     and_then (validate_service_bind ''state'' (sc_bind (sv_state c))) (\<lambda>_.
     and_then (validate_service_bind ''coordinator'' (sc_bind (sv_coordinator c))) (\<lambda>_.
     and_then (validate_service_bind ''sync'' (sc_bind (sv_sync c))) (\<lambda>_.
     and_then (validate_service_bind ''git_http'' (sc_bind (sv_git_http c))) (\<lambda>_.
     and_then (validate_service_bind ''ui'' (sc_bind (sv_ui c))) (\<lambda>_.
     and_then (validate_service_bind ''webhook'' (sc_bind (sv_webhook c))) (\<lambda>_.
     and_then (validate_service_bind ''control'' (sc_bind (sv_control c))) (\<lambda>_.
     validate_service_bind ''auth'' (sc_bind (sv_auth c)))))))))))"

definition services_from_toml_str :: "toml_services_root toml_parser \<Rightarrow> string \<Rightarrow> services_config config_result" where
  "services_from_toml_str toml input = and_then (toml_from_str toml input) (\<lambda>parsed. Ok (into_services parsed))"

definition services_from_env_validated :: "environment \<Rightarrow> services_config config_result" where
  "services_from_env_validated env = validated services_validate (services_from_env env)"

definition services_from_toml_file_validated ::
  "file_reader \<Rightarrow> toml_services_root toml_parser \<Rightarrow> string \<Rightarrow> services_config config_result" where
  "services_from_toml_file_validated read toml path =
     and_then (from_toml_file read (services_from_toml_str toml) path) (validated services_validate)"

section \<open>Relays\<close>

record relay_targets_config =
  rt_relay_urls :: "string list"

record toml_relay_targets =
  trt_relay_urls :: "string list option"

definition relay_targets_from_env :: "environment \<Rightarrow> relay_targets_config" where
  "relay_targets_from_env env = \<lparr>rt_relay_urls = parse_relay_urls (unwrap_or (env ''GITTREE_RELAY_URLS'') [])\<rparr>"

definition relay_targets_validate :: "url_parser \<Rightarrow> relay_targets_config \<Rightarrow> unit config_result" where
  "relay_targets_validate url_parse c = try_fold (\<lambda>_. validate_relay_url url_parse) () (rt_relay_urls c)"

definition relay_targets_from_env_validated :: "url_parser \<Rightarrow> environment \<Rightarrow> relay_targets_config config_result" where
  "relay_targets_from_env_validated url_parse env =
     validated (relay_targets_validate url_parse) (relay_targets_from_env env)"

definition relay_targets_from_toml_str ::
  "url_parser \<Rightarrow> toml_relay_targets toml_parser \<Rightarrow> string \<Rightarrow> relay_targets_config config_result" where
  "relay_targets_from_toml_str url_parse toml input =
     and_then (toml_from_str toml input) (\<lambda>parsed.
     validated (relay_targets_validate url_parse) \<lparr>rt_relay_urls = unwrap_or (trt_relay_urls parsed) []\<rparr>)"

datatype relay_compatibility_mode = ModeStrict | ModeWarn | ModeAllow

definition compatibility_mode_parse :: "string \<Rightarrow> relay_compatibility_mode option" where
  "compatibility_mode_parse v =
     (let s = to_ascii_lowercase (trim v) in
      if s = ''strict'' then Some ModeStrict
      else if s = ''warn'' \<or> s = ''warning'' then Some ModeWarn
      else if s = ''allow'' then Some ModeAllow else None)"

fun compatibility_mode_as_str :: "relay_compatibility_mode \<Rightarrow> string" where
  "compatibility_mode_as_str ModeStrict = ''strict''"
| "compatibility_mode_as_str ModeWarn = ''warn''"
| "compatibility_mode_as_str ModeAllow = ''allow''"

record relay_compatibility_config =
  cm_mode :: relay_compatibility_mode

definition relay_compatibility_default :: relay_compatibility_config where
  "relay_compatibility_default = \<lparr>cm_mode = ModeStrict\<rparr>"

definition relay_compatibility_from_env :: "environment \<Rightarrow> relay_compatibility_config config_result" where
  "relay_compatibility_from_env env =
     (let mode = env_or_default env ''GITTREE_RELAY_COMPAT_MODE'' (compatibility_mode_as_str ModeStrict) in
      and_then (ok_or (InvalidRelayCompatibilityMode mode) (compatibility_mode_parse mode)) (\<lambda>mode.
      Ok \<lparr>cm_mode = mode\<rparr>))"

record toml_relay_compatibility =
  tcm_mode :: "string option"

record toml_relay_compatibility_root =
  tcr_relay_compatibility :: "toml_relay_compatibility option"

definition toml_into_compatibility :: "toml_relay_compatibility_root \<Rightarrow> relay_compatibility_config config_result" where
  "toml_into_compatibility root =
     (let mode = unwrap_or (Option.bind (tcr_relay_compatibility root) tcm_mode) (compatibility_mode_as_str ModeStrict) in
      and_then (ok_or (InvalidRelayCompatibilityMode mode) (compatibility_mode_parse mode)) (\<lambda>mode.
      Ok \<lparr>cm_mode = mode\<rparr>))"

definition relay_compatibility_from_toml_str ::
  "toml_relay_compatibility_root toml_parser \<Rightarrow> string \<Rightarrow> relay_compatibility_config config_result" where
  "relay_compatibility_from_toml_str toml input = and_then (toml_from_str toml input) toml_into_compatibility"

record relay_probe_config =
  rb_active :: bool
  rb_timeout_secs :: nat
  rb_secret_key :: "string option"

definition relay_probe_default :: relay_probe_config where
  "relay_probe_default = \<lparr>rb_active = False, rb_timeout_secs = 5, rb_secret_key = None\<rparr>"

definition relay_probe_validate :: "relay_probe_config \<Rightarrow> unit config_result" where
  "relay_probe_validate c =
     and_then (ensure (rb_timeout_secs c \<noteq> 0) (InvalidRelayProbeConfig ''relay_probe.timeout_secs'' ''0'')) (\<lambda>_.
     ensure_opt (\<lambda>secret. is_hex_len secret 64) (InvalidRelayProbeConfig ''relay_probe.secret_key'') (rb_secret_key c))"

definition relay_probe_from_env :: "environment \<Rightarrow> relay_probe_config config_result" where
  "relay_probe_from_env env =
     and_then (env_bool env ''GITTREE_RELAY_PROBE_ACTIVE'') (\<lambda>active.
     and_then (probe_env_u64 env ''GITTREE_RELAY_PROBE_TIMEOUT_SECS'') (\<lambda>timeout_secs.
     validated relay_probe_validate
       \<lparr>rb_active = unwrap_or active False, rb_timeout_secs = unwrap_or timeout_secs 5,
        rb_secret_key = env_optional_string env ''GITTREE_RELAY_PROBE_SECRET_KEY''\<rparr>))"

record toml_relay_probe_config =
  trp_active :: "bool option"
  trp_timeout_secs :: "nat option"
  trp_secret_key :: "string option"

record toml_relay_probe_root =
  trp_relay_probe :: "toml_relay_probe_config option"

definition toml_into_probe :: "toml_relay_probe_root \<Rightarrow> relay_probe_config" where
  "toml_into_probe root =
     (let config = unwrap_or (trp_relay_probe root)
            \<lparr>trp_active = None, trp_timeout_secs = None, trp_secret_key = None\<rparr> in
      \<lparr>rb_active = unwrap_or (trp_active config) False, rb_timeout_secs = unwrap_or (trp_timeout_secs config) 5,
       rb_secret_key = trp_secret_key config\<rparr>)"

definition relay_probe_from_toml_str ::
  "toml_relay_probe_root toml_parser \<Rightarrow> string \<Rightarrow> relay_probe_config config_result" where
  "relay_probe_from_toml_str toml input =
     and_then (toml_from_str toml input) (\<lambda>parsed. validated relay_probe_validate (toml_into_probe parsed))"

section \<open>The policy of the relay\<close>

definition policy_config_default :: relay_policy_config where
  "policy_config_default =
     \<lparr>cfg_max_content_len = 8192, cfg_max_tags = 128, cfg_max_tag_values = 16, cfg_max_tag_value_len = 512,
      cfg_max_future_seconds = 60, cfg_max_subscriptions = None, cfg_max_limit = None, cfg_max_message_bytes = None,
      cfg_max_events_per_min = None, cfg_max_requests_per_min = None, cfg_retention_max_age_seconds = None,
      cfg_auth_required = False\<rparr>"

definition validate_opt_limit :: "string \<Rightarrow> nat option \<Rightarrow> unit config_result" where
  "validate_opt_limit field limit = (case limit of Some v \<Rightarrow> validate_policy_limit field v | None \<Rightarrow> Ok ())"

definition policy_config_validate :: "relay_policy_config \<Rightarrow> unit config_result" where
  "policy_config_validate c =
     and_then (validate_policy_limit ''relay_policy.max_content_len'' (cfg_max_content_len c)) (\<lambda>_.
     and_then (validate_policy_limit ''relay_policy.max_tags'' (cfg_max_tags c)) (\<lambda>_.
     and_then (validate_policy_limit ''relay_policy.max_tag_values'' (cfg_max_tag_values c)) (\<lambda>_.
     and_then (validate_policy_limit ''relay_policy.max_tag_value_len'' (cfg_max_tag_value_len c)) (\<lambda>_.
     and_then (validate_policy_limit ''relay_policy.max_future_seconds'' (cfg_max_future_seconds c)) (\<lambda>_.
     and_then (validate_opt_limit ''relay_policy.max_subscriptions'' (cfg_max_subscriptions c)) (\<lambda>_.
     and_then (validate_opt_limit ''relay_policy.max_limit'' (cfg_max_limit c)) (\<lambda>_.
     and_then (validate_opt_limit ''relay_policy.max_message_bytes'' (cfg_max_message_bytes c)) (\<lambda>_.
     and_then (validate_opt_limit ''relay_policy.max_events_per_min'' (cfg_max_events_per_min c)) (\<lambda>_.
     and_then (validate_opt_limit ''relay_policy.max_requests_per_min'' (cfg_max_requests_per_min c)) (\<lambda>_.
     validate_opt_limit ''relay_policy.retention_max_age_seconds'' (cfg_retention_max_age_seconds c)))))))))))"

definition policy_config_from_env :: "environment \<Rightarrow> relay_policy_config config_result" where
  "policy_config_from_env env =
     and_then (env_u64_policy env ''GITTREE_RELAY_POLICY_MAX_CONTENT_LEN'' ''relay_policy.max_content_len'') (\<lambda>content_len.
     and_then (env_u64_policy env ''GITTREE_RELAY_POLICY_MAX_TAGS'' ''relay_policy.max_tags'') (\<lambda>tags.
     and_then (env_u64_policy env ''GITTREE_RELAY_POLICY_MAX_TAG_VALUES'' ''relay_policy.max_tag_values'') (\<lambda>tag_values.
     and_then (env_u64_policy env ''GITTREE_RELAY_POLICY_MAX_TAG_VALUE_LEN'' ''relay_policy.max_tag_value_len'') (\<lambda>value_len.
     and_then (env_u64_policy env ''GITTREE_RELAY_POLICY_MAX_FUTURE_SECS'' ''relay_policy.max_future_seconds'') (\<lambda>future.
     and_then (env_u64_policy env ''GITTREE_RELAY_POLICY_MAX_SUBSCRIPTIONS'' ''relay_policy.max_subscriptions'') (\<lambda>subscriptions.
     and_then (env_u64_policy env ''GITTREE_RELAY_POLICY_MAX_LIMIT'' ''relay_policy.max_limit'') (\<lambda>limit.
     and_then (env_u64_policy env ''GITTREE_RELAY_POLICY_MAX_MESSAGE_BYTES'' ''relay_policy.max_message_bytes'') (\<lambda>message_bytes.
     and_then (env_u64_policy env ''GITTREE_RELAY_POLICY_MAX_EVENTS_PER_MIN'' ''relay_policy.max_events_per_min'') (\<lambda>events.
     and_then (env_u64_policy env ''GITTREE_RELAY_POLICY_MAX_REQUESTS_PER_MIN'' ''relay_policy.max_requests_per_min'') (\<lambda>requests.
     and_then (env_u64_policy env ''GITTREE_RELAY_POLICY_RETENTION_MAX_AGE_SECS'' ''relay_policy.retention_max_age_seconds'')
       (\<lambda>retention.
     and_then (env_bool_policy env ''GITTREE_RELAY_POLICY_AUTH_REQUIRED'' ''relay_policy.auth_required'') (\<lambda>auth_required.
     validated policy_config_validate
       \<lparr>cfg_max_content_len = unwrap_or content_len 8192, cfg_max_tags = unwrap_or tags 128,
        cfg_max_tag_values = unwrap_or tag_values 16, cfg_max_tag_value_len = unwrap_or value_len 512,
        cfg_max_future_seconds = unwrap_or future 60, cfg_max_subscriptions = subscriptions, cfg_max_limit = limit,
        cfg_max_message_bytes = message_bytes, cfg_max_events_per_min = events, cfg_max_requests_per_min = requests,
        cfg_retention_max_age_seconds = retention, cfg_auth_required = unwrap_or auth_required False\<rparr>))))))))))))"

record toml_relay_policy_config =
  tp_max_content_len :: "nat option"
  tp_max_tags :: "nat option"
  tp_max_tag_values :: "nat option"
  tp_max_tag_value_len :: "nat option"
  tp_max_future_seconds :: "nat option"
  tp_max_subscriptions :: "nat option"
  tp_max_limit :: "nat option"
  tp_max_message_bytes :: "nat option"
  tp_max_events_per_min :: "nat option"
  tp_max_requests_per_min :: "nat option"
  tp_retention_max_age_seconds :: "nat option"
  tp_auth_required :: "bool option"

record toml_relay_policy_root =
  tpr_relay_policy :: "toml_relay_policy_config option"

definition toml_policy_none :: toml_relay_policy_config where
  "toml_policy_none =
     \<lparr>tp_max_content_len = None, tp_max_tags = None, tp_max_tag_values = None, tp_max_tag_value_len = None,
      tp_max_future_seconds = None, tp_max_subscriptions = None, tp_max_limit = None, tp_max_message_bytes = None,
      tp_max_events_per_min = None, tp_max_requests_per_min = None, tp_retention_max_age_seconds = None,
      tp_auth_required = None\<rparr>"

definition toml_into_policy :: "toml_relay_policy_root \<Rightarrow> relay_policy_config" where
  "toml_into_policy root =
     (let config = unwrap_or (tpr_relay_policy root) toml_policy_none in
      \<lparr>cfg_max_content_len = unwrap_or (tp_max_content_len config) 8192,
       cfg_max_tags = unwrap_or (tp_max_tags config) 128,
       cfg_max_tag_values = unwrap_or (tp_max_tag_values config) 16,
       cfg_max_tag_value_len = unwrap_or (tp_max_tag_value_len config) 512,
       cfg_max_future_seconds = unwrap_or (tp_max_future_seconds config) 60,
       cfg_max_subscriptions = tp_max_subscriptions config, cfg_max_limit = tp_max_limit config,
       cfg_max_message_bytes = tp_max_message_bytes config, cfg_max_events_per_min = tp_max_events_per_min config,
       cfg_max_requests_per_min = tp_max_requests_per_min config,
       cfg_retention_max_age_seconds = tp_retention_max_age_seconds config,
       cfg_auth_required = unwrap_or (tp_auth_required config) False\<rparr>)"

definition policy_config_from_toml_str ::
  "toml_relay_policy_root toml_parser \<Rightarrow> string \<Rightarrow> relay_policy_config config_result" where
  "policy_config_from_toml_str toml input =
     and_then (toml_from_str toml input) (\<lambda>parsed. validated policy_config_validate (toml_into_policy parsed))"

section \<open>Forgejo, the web interface, control and authentication\<close>

record forgejo_config =
  fc_base_url :: string
  fc_api_token :: string
  fc_owner :: string
  fc_webhook_url :: string
  fc_webhook_secret :: string
  fc_repo_private :: bool

definition forgejo_config_validate :: "url_parser \<Rightarrow> forgejo_config \<Rightarrow> unit config_result" where
  "forgejo_config_validate url_parse c =
     and_then (validate_http_url url_parse ''forgejo.base_url'' (fc_base_url c)) (\<lambda>_.
     and_then (validate_http_url url_parse ''forgejo.webhook_url'' (fc_webhook_url c)) (\<lambda>_.
     and_then (ensure (\<not> blank (fc_api_token c)) (InvalidConfig ''forgejo.api_token'' (fc_api_token c))) (\<lambda>_.
     and_then (ensure (\<not> blank (fc_owner c)) (InvalidConfig ''forgejo.owner'' (fc_owner c))) (\<lambda>_.
     ensure (\<not> blank (fc_webhook_secret c)) (InvalidConfig ''forgejo.webhook_secret'' (fc_webhook_secret c))))))"

definition forgejo_config_from_env :: "url_parser \<Rightarrow> environment \<Rightarrow> forgejo_config config_result" where
  "forgejo_config_from_env url_parse env =
     and_then (env_required_string env ''GITTREE_FORGEJO_BASE_URL'') (\<lambda>base_url.
     and_then (env_required_string env ''GITTREE_FORGEJO_API_TOKEN'') (\<lambda>api_token.
     and_then (env_required_string env ''GITTREE_FORGEJO_OWNER'') (\<lambda>owner.
     and_then (env_required_string env ''GITTREE_FORGEJO_WEBHOOK_URL'') (\<lambda>webhook_url.
     and_then (env_required_string env ''GITTREE_FORGEJO_WEBHOOK_SECRET'') (\<lambda>webhook_secret.
     and_then (env_bool_default env ''GITTREE_FORGEJO_REPO_PRIVATE'' True) (\<lambda>repo_private.
     validated (forgejo_config_validate url_parse)
       \<lparr>fc_base_url = base_url, fc_api_token = api_token, fc_owner = owner, fc_webhook_url = webhook_url,
        fc_webhook_secret = webhook_secret, fc_repo_private = repo_private\<rparr>))))))"

record toml_forgejo_config =
  tf_base_url :: "string option"
  tf_api_token :: "string option"
  tf_owner :: "string option"
  tf_webhook_url :: "string option"
  tf_webhook_secret :: "string option"
  tf_repo_private :: "bool option"

record toml_forgejo_root =
  tfr_forgejo :: "toml_forgejo_config option"

definition toml_into_forgejo :: "toml_forgejo_root \<Rightarrow> forgejo_config config_result" where
  "toml_into_forgejo root =
     and_then (ok_or (InvalidConfig ''forgejo'' ''missing'') (tfr_forgejo root)) (\<lambda>config.
     and_then (require_toml_field (tf_base_url config) ''forgejo.base_url'') (\<lambda>base_url.
     and_then (require_toml_field (tf_api_token config) ''forgejo.api_token'') (\<lambda>api_token.
     and_then (require_toml_field (tf_owner config) ''forgejo.owner'') (\<lambda>owner.
     and_then (require_toml_field (tf_webhook_url config) ''forgejo.webhook_url'') (\<lambda>webhook_url.
     and_then (require_toml_field (tf_webhook_secret config) ''forgejo.webhook_secret'') (\<lambda>webhook_secret.
     Ok \<lparr>fc_base_url = base_url, fc_api_token = api_token, fc_owner = owner, fc_webhook_url = webhook_url,
         fc_webhook_secret = webhook_secret, fc_repo_private = unwrap_or (tf_repo_private config) True\<rparr>))))))"

definition forgejo_config_from_toml_str ::
  "url_parser \<Rightarrow> toml_forgejo_root toml_parser \<Rightarrow> string \<Rightarrow> forgejo_config config_result" where
  "forgejo_config_from_toml_str url_parse toml input =
     and_then (toml_from_str toml input) (\<lambda>parsed.
     and_then (toml_into_forgejo parsed) (validated (forgejo_config_validate url_parse)))"

record ui_config =
  ui_repo_root :: string
  ui_public_git_url :: string
  ui_auth_url :: string
  ui_app_url :: string
  ui_state_url :: string
  ui_control_url :: string

definition ui_config_validate :: "url_parser \<Rightarrow> ui_config \<Rightarrow> unit config_result" where
  "ui_config_validate url_parse c =
     and_then (ensure (ui_repo_root c \<noteq> []) (InvalidConfig ''ui.repo_root'' [])) (\<lambda>_.
     and_then (validate_http_url url_parse ''ui.public_git_url'' (ui_public_git_url c)) (\<lambda>_.
     and_then (validate_http_url url_parse ''ui.auth_url'' (ui_auth_url c)) (\<lambda>_.
     and_then (validate_http_url url_parse ''ui.app_url'' (ui_app_url c)) (\<lambda>_.
     and_then (validate_http_url url_parse ''ui.state_url'' (ui_state_url c)) (\<lambda>_.
     validate_http_url url_parse ''ui.control_url'' (ui_control_url c))))))"

definition ui_config_from_env :: "url_parser \<Rightarrow> environment \<Rightarrow> ui_config config_result" where
  "ui_config_from_env url_parse env =
     and_then (env_required_string env ''GITTREE_UI_REPO_ROOT'') (\<lambda>repo_root.
     and_then (env_required_string env ''GITTREE_UI_PUBLIC_GIT_URL'') (\<lambda>public_git_url.
     validated (ui_config_validate url_parse)
       \<lparr>ui_repo_root = repo_root, ui_public_git_url = public_git_url,
        ui_auth_url = unwrap_or (env_optional_string env ''GITTREE_UI_AUTH_URL'') ''http://localhost:8089'',
        ui_app_url = unwrap_or (env_optional_string env ''GITTREE_UI_APP_URL'') ''http://localhost:8090'',
        ui_state_url = unwrap_or (env_optional_string env ''GITTREE_UI_STATE_URL'') ''http://localhost:8082'',
        ui_control_url = unwrap_or (env_optional_string env ''GITTREE_UI_CONTROL_URL'') ''http://localhost:8088''\<rparr>))"

record toml_ui_config =
  tu_repo_root :: "string option"
  tu_public_git_url :: "string option"
  tu_auth_url :: "string option"
  tu_app_url :: "string option"
  tu_state_url :: "string option"
  tu_control_url :: "string option"

record toml_ui_root =
  tur_ui :: "toml_ui_config option"

definition toml_into_ui :: "toml_ui_root \<Rightarrow> ui_config config_result" where
  "toml_into_ui root =
     and_then (ok_or (InvalidConfig ''ui'' ''missing'') (tur_ui root)) (\<lambda>config.
     and_then (require_toml_field (tu_repo_root config) ''ui.repo_root'') (\<lambda>repo_root.
     and_then (require_toml_field (tu_public_git_url config) ''ui.public_git_url'') (\<lambda>public_git_url.
     Ok \<lparr>ui_repo_root = repo_root, ui_public_git_url = public_git_url,
         ui_auth_url = unwrap_or (tu_auth_url config) ''http://localhost:8089'',
         ui_app_url = unwrap_or (tu_app_url config) ''http://localhost:8090'',
         ui_state_url = unwrap_or (tu_state_url config) ''http://localhost:8082'',
         ui_control_url = unwrap_or (tu_control_url config) ''http://localhost:8088''\<rparr>)))"

definition ui_config_from_toml_str :: "url_parser \<Rightarrow> toml_ui_root toml_parser \<Rightarrow> string \<Rightarrow> ui_config config_result" where
  "ui_config_from_toml_str url_parse toml input =
     and_then (toml_from_str toml input) (\<lambda>parsed.
     and_then (toml_into_ui parsed) (validated (ui_config_validate url_parse)))"

record control_auth_config =
  ca_token :: string
  ca_admin_keys :: "string list"

definition control_auth_from_env :: "environment \<Rightarrow> control_auth_config config_result" where
  "control_auth_from_env env =
     and_then (env_required_string env ''GITTREE_CONTROL_TOKEN'') (\<lambda>token.
     Ok \<lparr>ca_token = token,
         ca_admin_keys = unwrap_or (map_option csv_values (env_optional_string env ''GITTREE_CONTROL_ADMIN_KEYS'')) []\<rparr>)"

definition control_auth_validate :: "control_auth_config \<Rightarrow> unit config_result" where
  "control_auth_validate c =
     and_then (ensure (\<not> blank (ca_token c)) (InvalidConfig ''control.token'' (ca_token c))) (\<lambda>_.
     ensure (\<not> list_ex blank (ca_admin_keys c)) (InvalidConfig ''control.admin_keys'' ''empty key''))"

record auth_config =
  ac_email_domain :: string
  ac_max_skew_seconds :: nat

definition auth_config_validate :: "auth_config \<Rightarrow> unit config_result" where
  "auth_config_validate c =
     and_then (ensure (\<not> blank (ac_email_domain c)) (InvalidConfig ''auth.email_domain'' (ac_email_domain c))) (\<lambda>_.
     ensure (ac_max_skew_seconds c \<noteq> 0) (InvalidConfig ''auth.max_skew_seconds'' (show_nat (ac_max_skew_seconds c))))"

definition auth_config_from_env :: "environment \<Rightarrow> auth_config config_result" where
  "auth_config_from_env env =
     (let email_domain = (case env_optional_string env ''GITTREE_AUTH_EMAIL_DOMAIN'' of Some v \<Rightarrow> v | None \<Rightarrow> ''local.test'') in
      and_then (case env_optional_string env ''GITTREE_AUTH_MAX_SKEW_SECONDS'' of
          Some v \<Rightarrow> ok_or (InvalidConfig ''auth.max_skew_seconds'' v) (parse_unsigned 64 v)
        | None \<Rightarrow> Ok 60) (\<lambda>max_skew_seconds.
      validated auth_config_validate \<lparr>ac_email_domain = email_domain, ac_max_skew_seconds = max_skew_seconds\<rparr>))"

section \<open>Reading back\<close>

lemma env_parsed_None [simp]: "env_parsed parse err None = Ok None"
  by (simp add: env_parsed_def)

lemma env_parsed_show:
  assumes "\<forall>v. x = Some v \<longrightarrow> v < 2 ^ 64"
  shows "env_parsed (parse_unsigned 64) err (map_option show_nat x) = Ok x"
proof (cases x)
  case (Some v)
  have "\<not> blank (show_nat v)"
    using show_nat_digits [of v] by (intro hex_not_blank) (auto simp: list_all_iff is_ascii_hexdigit_def)
  then show ?thesis using assms Some by (simp add: env_parsed_def parse_unsigned_show_nat ok_or_def)
qed simp

lemma env_parsed_range: "env_parsed (parse_unsigned 64) err found = Ok (Some v) \<Longrightarrow> v < 2 ^ 64"
  by (auto simp: env_parsed_def ok_or_def map_err_def dest: parse_unsigned_range split: option.splits if_splits)

lemma parse_bool_text: "env_parsed parse_bool err (Some (if b then ''true'' else ''false'')) = Ok (Some b)"
proof -
  have "\<not> blank ''true''" "\<not> blank ''false''" by (rule not_blank_lead, simp_all)+
  moreover have "trim ''true'' = ''true''" "trim ''false'' = ''false''" by (rule trim_plain_ends, simp_all)+
  ultimately show ?thesis by (simp add: env_parsed_def parse_bool_def ok_or_def to_ascii_lowercase_def)
qed

text \<open>The environment that carries a policy, and the document that does.\<close>

definition policy_env :: "relay_policy_config \<Rightarrow> environment" where
  "policy_env c key =
     (if key = ''GITTREE_RELAY_POLICY_MAX_CONTENT_LEN'' then map_option show_nat (Some (cfg_max_content_len c))
      else if key = ''GITTREE_RELAY_POLICY_MAX_TAGS'' then map_option show_nat (Some (cfg_max_tags c))
      else if key = ''GITTREE_RELAY_POLICY_MAX_TAG_VALUES'' then map_option show_nat (Some (cfg_max_tag_values c))
      else if key = ''GITTREE_RELAY_POLICY_MAX_TAG_VALUE_LEN'' then map_option show_nat (Some (cfg_max_tag_value_len c))
      else if key = ''GITTREE_RELAY_POLICY_MAX_FUTURE_SECS'' then map_option show_nat (Some (cfg_max_future_seconds c))
      else if key = ''GITTREE_RELAY_POLICY_MAX_SUBSCRIPTIONS'' then map_option show_nat (cfg_max_subscriptions c)
      else if key = ''GITTREE_RELAY_POLICY_MAX_LIMIT'' then map_option show_nat (cfg_max_limit c)
      else if key = ''GITTREE_RELAY_POLICY_MAX_MESSAGE_BYTES'' then map_option show_nat (cfg_max_message_bytes c)
      else if key = ''GITTREE_RELAY_POLICY_MAX_EVENTS_PER_MIN'' then map_option show_nat (cfg_max_events_per_min c)
      else if key = ''GITTREE_RELAY_POLICY_MAX_REQUESTS_PER_MIN'' then map_option show_nat (cfg_max_requests_per_min c)
      else if key = ''GITTREE_RELAY_POLICY_RETENTION_MAX_AGE_SECS'' then map_option show_nat (cfg_retention_max_age_seconds c)
      else if key = ''GITTREE_RELAY_POLICY_AUTH_REQUIRED'' then Some (if cfg_auth_required c then ''true'' else ''false'')
      else None)"

definition policy_document :: "relay_policy_config \<Rightarrow> toml_relay_policy_root" where
  "policy_document c = \<lparr>tpr_relay_policy = Some
     \<lparr>tp_max_content_len = Some (cfg_max_content_len c), tp_max_tags = Some (cfg_max_tags c),
      tp_max_tag_values = Some (cfg_max_tag_values c), tp_max_tag_value_len = Some (cfg_max_tag_value_len c),
      tp_max_future_seconds = Some (cfg_max_future_seconds c), tp_max_subscriptions = cfg_max_subscriptions c,
      tp_max_limit = cfg_max_limit c, tp_max_message_bytes = cfg_max_message_bytes c,
      tp_max_events_per_min = cfg_max_events_per_min c, tp_max_requests_per_min = cfg_max_requests_per_min c,
      tp_retention_max_age_seconds = cfg_retention_max_age_seconds c, tp_auth_required = Some (cfg_auth_required c)\<rparr>\<rparr>"

definition policy_limits :: "relay_policy_config \<Rightarrow> nat list" where
  "policy_limits c =
     [cfg_max_content_len c, cfg_max_tags c, cfg_max_tag_values c, cfg_max_tag_value_len c, cfg_max_future_seconds c] @
     filter_map id [cfg_max_subscriptions c, cfg_max_limit c, cfg_max_message_bytes c, cfg_max_events_per_min c,
       cfg_max_requests_per_min c, cfg_retention_max_age_seconds c]"

lemma set_filter_map_id: "set (filter_map id xs) = {v. Some v \<in> set xs}"
  by (induction xs) (auto split: option.splits)

lemma policy_validate_iff: "policy_config_validate c = Ok () \<longleftrightarrow> (\<forall>v \<in> set (policy_limits c). v \<noteq> 0)"
  by (auto simp: policy_config_validate_def policy_limits_def validate_policy_limit_def validate_opt_limit_def
      ensure_def and_then_eq_Ok split: option.splits)

lemma policy_env_read:
  assumes "policy_config_validate c = Ok ()" and "list_all (\<lambda>v. v < 2 ^ 64) (policy_limits c)"
  shows "policy_config_from_env (policy_env c) = Ok c"
proof -
  have limits: "env_parsed (parse_unsigned 64) err (map_option show_nat x) = Ok x"
    if "\<forall>v. x = Some v \<longrightarrow> v \<in> set (policy_limits c)" for err x
    using that assms(2) by (intro env_parsed_show) (auto simp only: list_all_iff)
  have some: "env_parsed (parse_unsigned 64) err (Some (show_nat v)) = Ok (Some v)" if "v \<in> set (policy_limits c)" for err v
    using limits [of "Some v"] that by simp
  have "policy_config_from_env (policy_env c) = validated policy_config_validate c"
    unfolding policy_config_from_env_def env_u64_policy_def env_bool_policy_def
    by (simp add: policy_env_def parse_bool_text unwrap_or_def limits some policy_limits_def set_filter_map_id
        del: filter_map.simps) (rule arg_cong [where f = "validated policy_config_validate"], simp)
  then show ?thesis using assms(1) by (simp add: validated_def)
qed

text \<open>
  Every policy that passes validation can be configured, and both ways of configuring it give exactly that
  policy: as variables of the environment, printed in decimal, and as a TOML document.\<close>

theorem policy_config_round_trip:
  assumes "policy_config_validate c = Ok ()" and "list_all (\<lambda>v. v < 2 ^ 64) (policy_limits c)"
    and "toml input = Ok (policy_document c)"
  shows "policy_config_from_env (policy_env c) = Ok c \<and> policy_config_from_toml_str toml input = Ok c"
proof -
  have "toml_into_policy (policy_document c) = c"
    by (simp add: toml_into_policy_def policy_document_def unwrap_or_def)
  then show ?thesis
    using policy_env_read [OF assms(1,2)] assms(1,3)
    by (simp add: policy_config_from_toml_str_def toml_from_str_def validated_def)
qed

definition sample_policy_config :: relay_policy_config where
  "sample_policy_config = policy_config_default\<lparr>cfg_max_subscriptions := Some 20, cfg_auth_required := True\<rparr>"

theorem policy_config_round_trip_witness:
  "policy_config_from_env (policy_env sample_policy_config) = Ok sample_policy_config \<and>
   policy_config_from_toml_str (\<lambda>_. Ok (policy_document sample_policy_config)) [] = Ok sample_policy_config"
  by (rule policy_config_round_trip)
    (simp_all add: policy_validate_iff, simp_all add: sample_policy_config_def policy_config_default_def policy_limits_def)

lemma env_u64_policy_range: "env_u64_policy env key field = Ok x \<Longrightarrow> pred_option (\<lambda>v. v < 2 ^ 64) x"
  using env_parsed_range by (cases x) (auto simp: env_u64_policy_def)

lemma list_all_filter_map_id: "list_all P (filter_map id xs) \<longleftrightarrow> list_all (pred_option P) xs"
  by (induction xs) (auto split: option.splits)

lemma unwrap_or_pred: "pred_option P x \<Longrightarrow> P d \<Longrightarrow> P (unwrap_or x d)"
  by (cases x) (simp_all add: unwrap_or_def)

lemma policy_env_range:
  assumes "policy_config_from_env env = Ok c"
  shows "list_all (\<lambda>v. v < 2 ^ 64) (policy_limits c)"
proof -
  define P where "P = (\<lambda>v. v < (2 ^ 64 :: nat))"
  have d: "P 8192" "P 128" "P 16" "P 512" "P 60" by (simp_all add: P_def)
  note range = env_u64_policy_range [folded P_def]
  from assms obtain a b e f g h i j k l m n where
    "pred_option P a" "pred_option P b" "pred_option P e" "pred_option P f" "pred_option P g" "pred_option P h"
    "pred_option P i" "pred_option P j" "pred_option P k" "pred_option P l" "pred_option P m"
    and c: "c = \<lparr>cfg_max_content_len = unwrap_or a 8192, cfg_max_tags = unwrap_or b 128,
        cfg_max_tag_values = unwrap_or e 16, cfg_max_tag_value_len = unwrap_or f 512,
        cfg_max_future_seconds = unwrap_or g 60, cfg_max_subscriptions = h, cfg_max_limit = i,
        cfg_max_message_bytes = j, cfg_max_events_per_min = k, cfg_max_requests_per_min = l,
        cfg_retention_max_age_seconds = m, cfg_auth_required = n\<rparr>"
    by (auto simp: policy_config_from_env_def validated_def and_then_eq_Ok dest!: range)
  then have "list_all P (policy_limits c)"
    by (simp add: policy_limits_def list_all_filter_map_id d unwrap_or_pred del: filter_map.simps)
  then show ?thesis by (simp add: P_def)
qed

text \<open>
  Limits of time are unsigned in the configuration and signed in the relay. A policy read from the environment
  has limits from 1 to $2^{64} - 1$ only; one below $2^{63}$ reaches the relay as it is, but a larger one, which
  validation accepts, turns negative: the relay then refuses events that are not old enough, and keeps nothing.\<close>

theorem policy_config_time_limits:
  assumes "policy_config_from_env env = Ok c"
  shows "list_all (\<lambda>v. 0 < v \<and> v < 2 ^ 64) (policy_limits c) \<and>
    max_future_seconds (policy_from_config c) =
      (if cfg_max_future_seconds c < 2 ^ 63 then int (cfg_max_future_seconds c) else int (cfg_max_future_seconds c) - 2 ^ 64) \<and>
    retention_max_age_seconds (policy_from_config c) =
      map_option (\<lambda>v. if v < 2 ^ 63 then int v else int v - 2 ^ 64) (cfg_retention_max_age_seconds c)"
proof -
  have wrap: "wrap_i64 (int v) = (if v < 2 ^ 63 then int v else int v - 2 ^ 64)" if "v < 2 ^ 64" for v :: nat
  proof (cases "v < 2 ^ 63")
    case True
    then show ?thesis using wrap_i64_id [of "int v"] by (simp add: in_i64_def i64_min_def i64_max_def)
  next
    case False
    have "int v + 2 ^ 63 = (int v - 2 ^ 63) + 2 ^ 64" by simp
    then have "(int v + 2 ^ 63) mod 2 ^ 64 = (int v - 2 ^ 63) mod 2 ^ 64" by (simp only: mod_add_self2)
    also have "\<dots> = int v - 2 ^ 63" using False that by (intro mod_pos_pos_trivial) simp_all
    finally show ?thesis using False by (simp add: wrap_i64_def)
  qed
  have valid: "policy_config_validate c = Ok ()"
    using assms by (auto simp: policy_config_from_env_def validated_def and_then_eq_Ok)
  have range: "v < 2 ^ 64" if "v \<in> set (policy_limits c)" for v
    using policy_env_range [OF assms] that by (simp add: list_all_iff)
  have "list_all (\<lambda>v. 0 < v \<and> v < 2 ^ 64) (policy_limits c)"
    using valid range by (simp only: policy_validate_iff list_all_iff neq0_conv) blast
  moreover have "cfg_max_future_seconds c \<in> set (policy_limits c)" by (simp add: policy_limits_def)
  moreover have "v \<in> set (policy_limits c)" if "cfg_retention_max_age_seconds c = Some v" for v
    using that by (simp add: policy_limits_def set_filter_map_id del: filter_map.simps)
  ultimately show ?thesis
    using wrap range by (cases "cfg_retention_max_age_seconds c") (simp_all only: policy_from_config_def policy.simps option.map refl)
qed

definition sample_long_retention :: relay_policy_config where
  "sample_long_retention = policy_config_default\<lparr>cfg_retention_max_age_seconds := Some (2 ^ 64 - 1)\<rparr>"

theorem policy_config_time_limits_witness:
  "policy_config_from_env (policy_env sample_long_retention) = Ok sample_long_retention \<and>
   retention_max_age_seconds (policy_from_config sample_long_retention) = Some (- 1)"
proof -
  have "policy_config_from_env (policy_env sample_long_retention) = Ok sample_long_retention"
    by (rule policy_env_read)
      (simp_all add: policy_validate_iff, simp_all add: sample_long_retention_def policy_config_default_def policy_limits_def)
  then show ?thesis
    using policy_config_time_limits [of "policy_env sample_long_retention" sample_long_retention]
    by (simp add: sample_long_retention_def)
qed

definition toml_bind :: "string \<Rightarrow> toml_service_config" where
  "toml_bind b = \<lparr>ts_bind = Some b\<rparr>"

definition services_document :: "environment \<Rightarrow> toml_services_root" where
  "services_document env = \<lparr>tr_services = Some
     \<lparr>ts_relay = map_option toml_bind (env ''GITTREE_RELAY_BIND''),
      ts_admission = map_option toml_bind (env ''GITTREE_ADMISSION_BIND''),
      ts_state = map_option toml_bind (env ''GITTREE_STATE_BIND''),
      ts_coordinator = map_option toml_bind (env ''GITTREE_COORDINATOR_BIND''),
      ts_sync = map_option toml_bind (env ''GITTREE_SYNC_BIND''),
      ts_git_http = map_option toml_bind (env ''GITTREE_GIT_HTTP_BIND''),
      ts_ui = map_option toml_bind (env ''GITTREE_UI_BIND''),
      ts_webhook = map_option toml_bind (env ''GITTREE_WEBHOOK_BIND''),
      ts_control = map_option toml_bind (env ''GITTREE_CONTROL_BIND''),
      ts_auth = map_option toml_bind (env ''GITTREE_AUTH_BIND'')\<rparr>\<rparr>"

definition service_binds :: "services_config \<Rightarrow> string list" where
  "service_binds c = map sc_bind [sv_relay c, sv_admission c, sv_state c, sv_coordinator c, sv_sync c, sv_git_http c,
     sv_ui c, sv_webhook c, sv_control c, sv_auth c]"

lemma services_validate_iff:
  "services_validate c = Ok () \<longleftrightarrow> list_all (\<lambda>b. socket_addr_parse b \<noteq> None) (service_binds c)"
  by (auto simp: services_validate_def validate_service_bind_def ensure_def and_then_eq_Ok service_binds_def)

lemma default_binds:
  "service_binds services_default = show_socket_v4 [0, 0, 0, 0] 8080 #
     map (show_socket_v4 [127, 0, 0, 1]) [8081, 8082, 8083, 8084, 8085, 8086, 8087, 8088, 8089]"
  by (simp add: service_binds_def services_default_def service_config_new_def DEFAULT_RELAY_BIND_def show_socket_v4_def
      show_nat.simps digit_chars)

lemma default_services:
  "services_validate services_default = Ok ()" "distinct (service_binds services_default)"
proof -
  show "services_validate services_default = Ok ()"
    by (simp add: services_validate_iff default_binds socket_addr_round_trip)
  show "distinct (service_binds services_default)"
    by (simp add: service_binds_def services_default_def service_config_new_def DEFAULT_RELAY_BIND_def)
qed

text \<open>
  With nothing in the environment the services start where the documentation says, at ten addresses that are
  all valid and all different. What the environment sets replaces the default of that service alone, exactly as
  the same entries of a TOML document do, and no configuration passes validation unless every address in it is a
  socket address, with a port of sixteen bits.\<close>

theorem services_sources:
  "services_from_env_validated (\<lambda>_. None) = Ok services_default \<and> distinct (service_binds services_default) \<and>
   services_from_env env = into_services (services_document env) \<and>
   (services_from_env_validated env = Ok c \<longleftrightarrow>
     c = services_from_env env \<and>
     list_all (\<lambda>b. \<exists>address. socket_addr_parse b = Some address \<and> socket_port address < 65536) (service_binds c))"
proof -
  have "services_from_env (\<lambda>_. None) = services_default"
    by (simp add: services_from_env_def services_default_def env_or_default_def)
  moreover have "services_from_env env = into_services (services_document env)"
    by (simp add: services_from_env_def into_services_def services_document_def unwrap_or_def bind_or_default_def
        env_or_default_def toml_bind_def split: option.split)
  moreover have "socket_addr_parse b \<noteq> None \<longleftrightarrow> (\<exists>address. socket_addr_parse b = Some address \<and> socket_port address < 65536)" for b
    using socket_port_bound by auto
  ultimately show ?thesis
    using default_services
    by (auto simp: services_from_env_validated_def validated_def and_then_eq_Ok services_validate_iff)
qed

text \<open>
  A relay bound to an address of version 4, written with its port, listens on that address and that port.\<close>

theorem relay_bind_round_trip:
  assumes "a < 256" "b < 256" "c < 256" "d < 256" "port < 65536"
    and "env ''GITTREE_RELAY_BIND'' = Some (show_socket_v4 [a, b, c, d] port)"
  shows "\<exists>config. gittree_config_from_env_validated env = Ok config \<and>
    relay_bind_ip config = Ok (IpV4 [a, b, c, d]) \<and> relay_bind_port config = Ok port"
  using socket_addr_round_trip [OF assms(1-5)] assms(6)
  by (simp add: gittree_config_from_env_validated_def validated_def gittree_config_from_env_def
      gittree_config_validate_def relay_bind_ip_def relay_bind_port_def relay_bind_addr_def ok_or_def)

theorem relay_bind_round_trip_witness:
  "\<exists>config. gittree_config_from_env_validated (\<lambda>_. Some (show_socket_v4 [127, 0, 0, 1] 8080)) = Ok config \<and>
    relay_bind_ip config = Ok (IpV4 [127, 0, 0, 1]) \<and> relay_bind_port config = Ok 8080"
  by (rule relay_bind_round_trip) simp_all

text \<open>
  The credentials of the control service are read without a validation of their own, and need none: what the
  environment gives always passes it. The token is the variable's value and not blank, and the administrators'
  keys are the entries of the list between commas, trimmed, in their order, without the blank ones.\<close>

theorem control_credentials_valid:
  assumes "control_auth_from_env env = Ok c"
  shows "control_auth_validate c = Ok () \<and> env ''GITTREE_CONTROL_TOKEN'' = Some (ca_token c) \<and>
    ca_admin_keys c = filter (\<lambda>key. \<not> blank key)
      (map trim (str_split (unwrap_or (env ''GITTREE_CONTROL_ADMIN_KEYS'') []) CHR '',''))"
proof -
  have blanks: "csv_values raw = filter (\<lambda>key. \<not> blank key) (map trim (str_split raw CHR '',''))" for raw
    by (auto simp: csv_values_def intro!: filter_cong)
  have "\<not> list_ex blank (csv_values raw)" for raw by (auto simp: blanks list_ex_iff)
  moreover have "csv_values raw = []" if "blank raw" for raw
  proof -
    have "\<forall>w \<in> set ws_encodings. CHR '','' \<notin> set w" using plain_not_ws(3) [of "CHR '',''"] by simp
    then have "CHR '','' \<notin> set raw" using trim_keeps [of "CHR '',''" raw] that by auto
    then show ?thesis using that by (simp add: csv_values_def str_split_no_sep)
  qed
  moreover from assms have "\<not> blank (ca_token c)" "env ''GITTREE_CONTROL_TOKEN'' = Some (ca_token c)"
    by (auto simp: control_auth_from_env_def and_then_eq_Ok env_required_string_def ok_or_eq_Ok split: if_splits)
  moreover from assms have "ca_admin_keys c =
      unwrap_or (map_option csv_values (env_optional_string env ''GITTREE_CONTROL_ADMIN_KEYS'')) []"
    by (auto simp: control_auth_from_env_def and_then_eq_Ok)
  ultimately have "ca_admin_keys c = csv_values (unwrap_or (env ''GITTREE_CONTROL_ADMIN_KEYS'') [])"
    and "\<not> list_ex blank (ca_admin_keys c)"
    by (auto simp: env_optional_string_def unwrap_or_def csv_values_def [of "[]"] split: option.split)
  then show ?thesis
    using \<open>\<not> blank (ca_token c)\<close> \<open>env ''GITTREE_CONTROL_TOKEN'' = Some (ca_token c)\<close>
    by (simp add: control_auth_validate_def ensure_def blanks)
qed

theorem control_credentials_valid_witness:
  "control_auth_from_env (\<lambda>key. Some ''t'') = Ok \<lparr>ca_token = ''t'', ca_admin_keys = [''t'']\<rparr> \<and>
   control_auth_validate \<lparr>ca_token = ''t'', ca_admin_keys = [''t'']\<rparr> = Ok ()"
proof -
  have "\<not> blank ''t''" by (rule not_blank_lead) simp_all
  moreover have "trim ''t'' = ''t''" by (rule trim_plain_ends) simp_all
  ultimately have "control_auth_from_env (\<lambda>key. Some ''t'') = Ok \<lparr>ca_token = ''t'', ca_admin_keys = [''t'']\<rparr>"
    by (simp add: control_auth_from_env_def env_required_string_def env_optional_string_def ok_or_def csv_values_def unwrap_or_def)
  then show ?thesis using control_credentials_valid by blast
qed

end
