(* ===== verification/Storage_Outbox.thy ===== *)
theory Storage_Outbox
  imports Storage_Events Rust_State
begin

text \<open>
  The outbox of events that wait to be published on relays: \<open>crates/storage/src/outbox.rs\<close>, the
  trait \<open>RelayPublishRepository\<close> and its in-memory implementation
  (\<open>crates/storage/src/repositories.rs\<close>). A job is pending, then claimed by a worker
  (publishing), then published, or pending again at a later time. The locale \<open>publish_queue\<close> is
  what a worker may rely on; the in-memory outbox fulfils it. Instants are nanoseconds since the
  epoch; the clock is an argument of the operations that read it.
\<close>

section \<open>Records\<close>

record relay_publish_request =
  pq_relay_url :: string
  pq_event_id :: string
  pq_pubkey :: string
  pq_created_at :: int
  pq_kind :: u32
  pq_tags :: "tag list"
  pq_content :: string
  pq_sig :: string
  pq_forgejo_owner :: string
  pq_forgejo_repo :: string
  pq_identifier :: string

record relay_publish_entry =
  pe_relay_url :: string
  pe_event_id :: "u8 list"
  pe_pubkey :: "u8 list"
  pe_created_at :: int
  pe_kind :: u32
  pe_tags :: "tag list"
  pe_content :: string
  pe_sig :: "u8 list"
  pe_forgejo_owner :: string
  pe_forgejo_repo :: string
  pe_identifier :: string

record relay_publish_job =
  pj_id :: int
  pj_relay_url :: string
  pj_event_id :: "u8 list"
  pj_pubkey :: "u8 list"
  pj_created_at :: int
  pj_kind :: u32
  pj_tags :: "tag list"
  pj_content :: string
  pj_sig :: "u8 list"
  pj_forgejo_owner :: string
  pj_forgejo_repo :: string
  pj_identifier :: string
  pj_attempt_count :: int
  pj_publish_after :: int

datatype relay_publish_status = PublishPending | Publishing | Published

fun publish_status_as_str :: "relay_publish_status \<Rightarrow> string" where
  "publish_status_as_str PublishPending = ''pending''"
| "publish_status_as_str Publishing = ''publishing''"
| "publish_status_as_str Published = ''published''"

definition publish_status_parse :: "string \<Rightarrow> (storage_error, relay_publish_status) result" where
  "publish_status_parse v =
     (if v = ''pending'' then Ok PublishPending
      else if v = ''publishing'' then Ok Publishing
      else if v = ''published'' then Ok Published
      else Err (StorageInvalidField ''status'' v))"

definition require_non_empty :: "string \<Rightarrow> string \<Rightarrow> (storage_error, unit) result" where
  "require_non_empty field v = ensure (\<not> blank v) (StorageInvalidField field '''')"

definition publish_request_decode ::
  "hex_decoder \<Rightarrow> relay_publish_request \<Rightarrow> (storage_error, relay_publish_entry) result" where
  "publish_request_decode dec r =
     and_then (require_non_empty ''relay_url'' (pq_relay_url r)) (\<lambda>_.
     and_then (require_non_empty ''forgejo_owner'' (pq_forgejo_owner r)) (\<lambda>_.
     and_then (require_non_empty ''forgejo_repo'' (pq_forgejo_repo r)) (\<lambda>_.
     and_then (require_non_empty ''identifier'' (pq_identifier r)) (\<lambda>_.
     and_then (decode_hex_field dec ''event_id'' (pq_event_id r) HEX_32_LEN) (\<lambda>event_id.
     and_then (decode_hex_field dec ''pubkey'' (pq_pubkey r) HEX_32_LEN) (\<lambda>pubkey.
     and_then (decode_hex_field dec ''sig'' (pq_sig r) HEX_64_LEN) (\<lambda>sig.
     Ok \<lparr>pe_relay_url = pq_relay_url r, pe_event_id = event_id, pe_pubkey = pubkey,
         pe_created_at = pq_created_at r, pe_kind = pq_kind r, pe_tags = pq_tags r,
         pe_content = pq_content r, pe_sig = sig, pe_forgejo_owner = pq_forgejo_owner r,
         pe_forgejo_repo = pq_forgejo_repo r, pe_identifier = pq_identifier r\<rparr>)))))))"

section \<open>The in-memory outbox\<close>

record outbox_entry =
  oe_job :: relay_publish_job
  oe_status :: relay_publish_status
  oe_last_error :: "string option"

record outbox =
  ob_entries :: "(int, outbox_entry) entries"
  ob_seq :: int

definition new_outbox :: outbox where
  "new_outbox = \<lparr>ob_entries = [], ob_seq = 0\<rparr>"

text \<open>The sequence counts in an \<open>i64\<close>, attempts in an \<open>i32\<close>; both wrap around.\<close>

definition wrap_i32 :: "int \<Rightarrow> int" where
  "wrap_i32 x = (x + 2 ^ 31) mod 2 ^ 32 - 2 ^ 31"

definition next_outbox_id :: "outbox \<Rightarrow> int \<times> outbox" where
  "next_outbox_id ob = (wrap_i64 (ob_seq ob + 1), ob\<lparr>ob_seq := wrap_i64 (ob_seq ob + 1)\<rparr>)"

definition job_of_entry :: "int \<Rightarrow> int \<Rightarrow> relay_publish_entry \<Rightarrow> relay_publish_job" where
  "job_of_entry i now entry =
     \<lparr>pj_id = i, pj_relay_url = pe_relay_url entry, pj_event_id = pe_event_id entry,
      pj_pubkey = pe_pubkey entry, pj_created_at = pe_created_at entry, pj_kind = pe_kind entry,
      pj_tags = pe_tags entry, pj_content = pe_content entry, pj_sig = pe_sig entry,
      pj_forgejo_owner = pe_forgejo_owner entry, pj_forgejo_repo = pe_forgejo_repo entry,
      pj_identifier = pe_identifier entry, pj_attempt_count = 0, pj_publish_after = now\<rparr>"

definition enqueue_relay_publish ::
  "hex_decoder \<Rightarrow> relay_publish_request \<Rightarrow> int \<Rightarrow> outbox \<Rightarrow> (storage_error, unit, outbox) st_result" where
  "enqueue_relay_publish dec request now ob =
     (case publish_request_decode dec request of
        Inl e \<Rightarrow> (Err e, ob)
      | Inr entry \<Rightarrow>
          (case next_outbox_id ob of
             (i, ob) \<Rightarrow>
               (Ok (), ob\<lparr>ob_entries := hm_insert i
                  \<lparr>oe_job = job_of_entry i now entry, oe_status = PublishPending, oe_last_error = None\<rparr>
                  (ob_entries ob)\<rparr>)))"

text \<open>The loop of \<open>claim_relay_publish\<close> over the entries: the smallest identifier that is due.\<close>

definition claim_step :: "int \<Rightarrow> int option \<Rightarrow> int \<times> outbox_entry \<Rightarrow> int option" where
  "claim_step now selected p =
     (case p of (i, entry) \<Rightarrow>
        if oe_status entry \<noteq> PublishPending then selected
        else if pj_publish_after (oe_job entry) > now then selected
        else (case selected of
                Some current \<Rightarrow> if current \<le> i then Some current else Some i
              | None \<Rightarrow> Some i))"

definition claim_entry :: "int \<Rightarrow> outbox_entry \<Rightarrow> outbox_entry" where
  "claim_entry now entry =
     entry\<lparr>oe_status := Publishing,
       oe_job := (oe_job entry)\<lparr>pj_attempt_count := wrap_i32 (pj_attempt_count (oe_job entry) + 1),
         pj_publish_after := now\<rparr>\<rparr>"

text \<open>The entry that was selected is in the map (\<open>expect("entry")\<close>).\<close>

definition claim_relay_publish ::
  "int \<Rightarrow> outbox \<Rightarrow> (storage_error, relay_publish_job option, outbox) st_result" where
  "claim_relay_publish now ob =
     (case foldl (claim_step now) None (ob_entries ob) of
        None \<Rightarrow> (Ok None, ob)
      | Some i \<Rightarrow>
          (let entry = claim_entry now (the (map_of (ob_entries ob) i))
           in (Ok (Some (oe_job entry)), ob\<lparr>ob_entries := hm_insert i entry (ob_entries ob)\<rparr>)))"

definition outbox_update ::
  "int \<Rightarrow> (outbox_entry \<Rightarrow> outbox_entry) \<Rightarrow> outbox \<Rightarrow> (storage_error, unit, outbox) st_result" where
  "outbox_update i f ob =
     (case map_of (ob_entries ob) i of
        None \<Rightarrow> (Err (StorageInternal ''outbox entry not found''), ob)
      | Some entry \<Rightarrow> (Ok (), ob\<lparr>ob_entries := hm_insert i (f entry) (ob_entries ob)\<rparr>))"

definition mark_relay_publish_succeeded :: "int \<Rightarrow> outbox \<Rightarrow> (storage_error, unit, outbox) st_result" where
  "mark_relay_publish_succeeded i =
     outbox_update i (\<lambda>entry. entry\<lparr>oe_status := Published, oe_last_error := None\<rparr>)"

definition mark_relay_publish_failed ::
  "int \<Rightarrow> string \<Rightarrow> int \<Rightarrow> outbox \<Rightarrow> (storage_error, unit, outbox) st_result" where
  "mark_relay_publish_failed i err retry_at =
     outbox_update i (\<lambda>entry. entry\<lparr>oe_status := PublishPending,
       oe_job := (oe_job entry)\<lparr>pj_publish_after := retry_at\<rparr>, oe_last_error := Some err\<rparr>)"

definition counts_as_pending :: "u8 list \<Rightarrow> string \<Rightarrow> u32 \<Rightarrow> outbox_entry \<Rightarrow> bool" where
  "counts_as_pending pubkey ident kind entry \<longleftrightarrow>
     oe_status entry \<noteq> Published \<and> pj_kind (oe_job entry) = kind \<and>
     pj_identifier (oe_job entry) = ident \<and> pj_pubkey (oe_job entry) = pubkey"

definition pending_relay_publishes ::
  "u8 list \<Rightarrow> string \<Rightarrow> u32 \<Rightarrow> outbox \<Rightarrow> (storage_error, int) result" where
  "pending_relay_publishes pubkey ident kind ob =
     Ok (wrap_i64 (int (length (filter (\<lambda>p. counts_as_pending pubkey ident kind (snd p)) (ob_entries ob)))))"

text \<open>The trait \<open>RelayPublishRepository\<close>.\<close>

record 'r publish_repo_ops =
  po_enqueue :: "relay_publish_request \<Rightarrow> int \<Rightarrow> 'r \<Rightarrow> (storage_error, unit, 'r) st_result"
  po_claim :: "int \<Rightarrow> 'r \<Rightarrow> (storage_error, relay_publish_job option, 'r) st_result"
  po_succeeded :: "int \<Rightarrow> 'r \<Rightarrow> (storage_error, unit, 'r) st_result"
  po_failed :: "int \<Rightarrow> string \<Rightarrow> int \<Rightarrow> 'r \<Rightarrow> (storage_error, unit, 'r) st_result"
  po_pending :: "u8 list \<Rightarrow> string \<Rightarrow> u32 \<Rightarrow> 'r \<Rightarrow> (storage_error, int) result"

definition outbox_ops :: "hex_decoder \<Rightarrow> outbox publish_repo_ops" where
  "outbox_ops dec =
     \<lparr>po_enqueue = enqueue_relay_publish dec, po_claim = claim_relay_publish,
      po_succeeded = mark_relay_publish_succeeded, po_failed = mark_relay_publish_failed,
      po_pending = pending_relay_publishes\<rparr>"

lemma outbox_ops_sel [simp]:
  "po_enqueue (outbox_ops dec) = enqueue_relay_publish dec"
  "po_claim (outbox_ops dec) = claim_relay_publish"
  "po_succeeded (outbox_ops dec) = mark_relay_publish_succeeded"
  "po_failed (outbox_ops dec) = mark_relay_publish_failed"
  "po_pending (outbox_ops dec) = pending_relay_publishes"
  by (simp_all add: outbox_ops_def)

section \<open>What a worker relies on\<close>

definition due :: "int \<Rightarrow> outbox_entry \<Rightarrow> bool" where
  "due now entry \<longleftrightarrow> oe_status entry = PublishPending \<and> pj_publish_after (oe_job entry) \<le> now"

text \<open>
  The contract of the trait for the worker: the repository is a finite map of entries by the
  identifier of their job. A claim takes the due job with the smallest identifier and marks it; it
  finds none only when none is due. Reporting an outcome changes the reported job alone. An
  operation that fails changes nothing.\<close>

locale publish_queue =
  fixes ops :: "'r publish_repo_ops"
    and inv :: "'r \<Rightarrow> bool"
    and view :: "'r \<Rightarrow> int \<Rightarrow> outbox_entry option"
  assumes finite_view: "inv s \<Longrightarrow> finite (dom (view s))"
    and job_id: "inv s \<Longrightarrow> view s i = Some entry \<Longrightarrow> pj_id (oe_job entry) = i"
    and claim_inv: "inv s \<Longrightarrow> inv (snd (po_claim ops now s))"
    and claim_Err: "inv s \<Longrightarrow> po_claim ops now s = (Err e, s') \<Longrightarrow> view s' = view s"
    and claim_None: "inv s \<Longrightarrow> po_claim ops now s = (Ok None, s') \<Longrightarrow>
      view s' = view s \<and> (view s i = Some entry \<longrightarrow> \<not> due now entry)"
    and claim_Some: "inv s \<Longrightarrow> po_claim ops now s = (Ok (Some job), s') \<Longrightarrow>
      \<exists>entry. view s (pj_id job) = Some entry \<and> due now entry \<and> job = oe_job (claim_entry now entry) \<and>
        view s' = (view s)(pj_id job \<mapsto> claim_entry now entry) \<and>
        (\<forall>j other. view s j = Some other \<longrightarrow> due now other \<longrightarrow> pj_id job \<le> j)"
    and succeeded_inv: "inv s \<Longrightarrow> inv (snd (po_succeeded ops i s))"
    and succeeded: "inv s \<Longrightarrow> po_succeeded ops i s = (r, s') \<Longrightarrow> view s' =
      (case (r, view s i) of (Inr _, Some entry) \<Rightarrow> (view s)(i \<mapsto> entry\<lparr>oe_status := Published, oe_last_error := None\<rparr>)
       | _ \<Rightarrow> view s)"
    and failed_inv: "inv s \<Longrightarrow> inv (snd (po_failed ops i err t s))"
    and failed: "inv s \<Longrightarrow> po_failed ops i err t s = (r, s') \<Longrightarrow> view s' =
      (case (r, view s i) of
         (Inr _, Some entry) \<Rightarrow> (view s)(i \<mapsto> entry\<lparr>oe_status := PublishPending,
           oe_job := (oe_job entry)\<lparr>pj_publish_after := t\<rparr>, oe_last_error := Some err\<rparr>)
       | _ \<Rightarrow> view s)"
    and pending: "inv s \<Longrightarrow> po_pending ops pubkey ident kind s = Ok n \<Longrightarrow>
      n = 0 \<longleftrightarrow> (\<forall>i entry. view s i = Some entry \<longrightarrow> \<not> counts_as_pending pubkey ident kind entry)"
begin

lemma claim_takes:
  assumes "inv s" and "po_claim ops now s = (Ok (Some job), s')"
  shows "\<exists>entry. view s' (pj_id job) = Some entry \<and> oe_status entry = Publishing \<and> oe_job entry = job"
  using claim_Some [OF assms] by (auto simp: claim_entry_def)

lemma other_entries:
  assumes "inv s"
  shows "j \<noteq> i \<Longrightarrow> view (snd (po_succeeded ops i s)) j = view s j"
    and "j \<noteq> i \<Longrightarrow> view (snd (po_failed ops i err t s)) j = view s j"
  using succeeded [OF assms, of i] failed [OF assms, of i err t]
  by (cases "po_succeeded ops i s"; cases "po_failed ops i err t s"; force split: sum.splits option.splits)+

end

section \<open>The in-memory outbox fulfils the contract\<close>

definition outbox_inv :: "outbox \<Rightarrow> bool" where
  "outbox_inv ob \<longleftrightarrow> hm_wf (ob_entries ob) \<and> 0 \<le> ob_seq ob \<and> ob_seq ob \<le> i64_max \<and>
     list_all (\<lambda>(i, entry). pj_id (oe_job entry) = i \<and> 1 \<le> i \<and> i \<le> ob_seq ob) (ob_entries ob)"

definition outbox_view :: "outbox \<Rightarrow> int \<Rightarrow> outbox_entry option" where
  "outbox_view ob = map_of (ob_entries ob)"

lemma claim_step_due:
  "claim_step now sel p =
     (if due now (snd p) then Some (case sel of None \<Rightarrow> fst p | Some current \<Rightarrow> min current (fst p)) else sel)"
  by (cases p) (simp add: claim_step_def due_def min_def split: option.split)

lemma claim_fold_None:
  "foldl (claim_step now) sel m = None \<longleftrightarrow> sel = None \<and> (\<forall>p \<in> set m. \<not> due now (snd p))"
  by (induction m arbitrary: sel) (auto simp: claim_step_due)

lemma claim_fold_Some:
  "foldl (claim_step now) sel m = Some i \<Longrightarrow>
     (sel = Some i \<or> (\<exists>entry. (i, entry) \<in> set m \<and> due now entry)) \<and>
     (\<forall>c. sel = Some c \<longrightarrow> i \<le> c) \<and> (\<forall>p \<in> set m. due now (snd p) \<longrightarrow> i \<le> fst p)"
proof (induction m arbitrary: sel)
  case (Cons p m)
  then have ih: "foldl (claim_step now) (claim_step now sel p) m = Some i" by simp
  show ?case
  proof (cases "due now (snd p)")
    case False
    then show ?thesis using Cons.IH [OF ih] by (auto simp: claim_step_due)
  next
    case True
    then have "claim_step now sel p = Some (case sel of None \<Rightarrow> fst p | Some c \<Rightarrow> min c (fst p))"
      by (simp add: claim_step_due)
    then show ?thesis using Cons.IH [OF ih] True
      by (cases p; cases sel) (auto simp: min_def split: if_splits)
  qed
qed simp

lemma outbox_get: "outbox_inv ob \<Longrightarrow> (i, entry) \<in> set (ob_entries ob) \<longleftrightarrow> outbox_view ob i = Some entry"
  unfolding outbox_inv_def outbox_view_def using hm.get_in [of "ob_entries ob" i entry] by blast

lemma outbox_ids:
  assumes "outbox_inv ob" and "outbox_view ob i = Some entry"
  shows "pj_id (oe_job entry) = i" and "1 \<le> i" and "i \<le> ob_seq ob"
  using assms outbox_get [of ob i entry] by (auto simp: outbox_inv_def list_all_iff)

lemmas outbox_job_id = outbox_ids(1)

lemma outbox_length: "outbox_inv ob \<Longrightarrow> int (length (ob_entries ob)) \<le> i64_max"
proof -
  assume inv: "outbox_inv ob"
  then have "dom (outbox_view ob) \<subseteq> {1..ob_seq ob}" using outbox_ids by auto
  then have "card (dom (outbox_view ob)) \<le> nat (ob_seq ob)"
    using card_mono [of "{1..ob_seq ob}"] by fastforce
  moreover have "length (ob_entries ob) = card (dom (outbox_view ob))"
    using inv hm.length_card by (auto simp: outbox_inv_def outbox_view_def)
  ultimately show ?thesis using inv by (auto simp: outbox_inv_def)
qed

text \<open>Every operation but enqueueing rewrites one entry that is there.\<close>

lemma outbox_put:
  assumes "outbox_inv ob" and "outbox_view ob i = Some entry" and "pj_id (oe_job entry') = i"
  shows "outbox_inv (ob\<lparr>ob_entries := hm_insert i entry' (ob_entries ob)\<rparr>)"
    and "outbox_view (ob\<lparr>ob_entries := hm_insert i entry' (ob_entries ob)\<rparr>) = (outbox_view ob)(i \<mapsto> entry')"
proof -
  let ?m = "ob_entries ob" and ?m' = "hm_insert i entry' (ob_entries ob)"
  have wf: "hm_wf ?m" "hm_wf ?m'" using assms(1) hm.wf_put by (auto simp: outbox_inv_def)
  have upd: "map_of ?m' = (map_of ?m)(i \<mapsto> entry')" using hm.get_put [OF wf(1)] by simp
  then show "outbox_view (ob\<lparr>ob_entries := ?m'\<rparr>) = (outbox_view ob)(i \<mapsto> entry')"
    by (simp add: outbox_view_def)
  have "pj_id (oe_job e) = j \<and> 1 \<le> j \<and> j \<le> ob_seq ob" if "(j, e) \<in> set ?m'" for j e
    using that hm.get_in [OF wf(2), of j e] upd assms(3) outbox_ids [OF assms(1), of j e]
      outbox_ids(2,3) [OF assms(1,2)]
    by (auto simp: outbox_view_def split: if_splits)
  then show "outbox_inv (ob\<lparr>ob_entries := ?m'\<rparr>)"
    using assms(1) wf(2) by (auto simp: outbox_inv_def list_all_iff)
qed

lemma outbox_update_view:
  assumes "outbox_inv ob" and "\<And>entry. pj_id (oe_job (f entry)) = pj_id (oe_job entry)"
  shows "outbox_inv (snd (outbox_update i f ob))"
    and "outbox_update i f ob = (r, ob') \<Longrightarrow> outbox_view ob' =
      (case (r, outbox_view ob i) of (Inr _, Some entry) \<Rightarrow> (outbox_view ob)(i \<mapsto> f entry) | _ \<Rightarrow> outbox_view ob)"
  using assms outbox_put [OF assms(1), of i _ "f _"] outbox_job_id [OF assms(1), of i]
  by (auto simp: outbox_update_def outbox_view_def split: option.splits)

lemma claim_relay_publish_Some:
  assumes "outbox_inv ob" and "foldl (claim_step now) None (ob_entries ob) = Some i"
  obtains entry where "outbox_view ob i = Some entry" and "due now entry"
    and "claim_relay_publish now ob =
      (Ok (Some (oe_job (claim_entry now entry))),
       ob\<lparr>ob_entries := hm_insert i (claim_entry now entry) (ob_entries ob)\<rparr>)"
    and "\<And>j other. outbox_view ob j = Some other \<Longrightarrow> due now other \<Longrightarrow> i \<le> j"
proof -
  obtain entry where "outbox_view ob i = Some entry" "due now entry"
    using claim_fold_Some [OF assms(2)] outbox_get [OF assms(1)] by auto
  moreover have "claim_relay_publish now ob =
      (Ok (Some (oe_job (claim_entry now entry))),
       ob\<lparr>ob_entries := hm_insert i (claim_entry now entry) (ob_entries ob)\<rparr>)"
    using assms(2) calculation(1) by (simp add: claim_relay_publish_def outbox_view_def Let_def)
  moreover have "i \<le> j" if "outbox_view ob j = Some other" "due now other" for j other
    using that claim_fold_Some [OF assms(2)] outbox_get [OF assms(1), of j other] by force
  ultimately show thesis using that by blast
qed

lemma claim_entry_id [simp]: "pj_id (oe_job (claim_entry now entry)) = pj_id (oe_job entry)"
  by (simp add: claim_entry_def)

lemma outbox_claim:
  assumes "outbox_inv ob"
  shows "outbox_inv (snd (claim_relay_publish now ob))"
    and "claim_relay_publish now ob \<noteq> (Err e, ob')"
    and "claim_relay_publish now ob = (Ok None, ob') \<Longrightarrow>
      ob' = ob \<and> (outbox_view ob i = Some entry \<longrightarrow> \<not> due now entry)"
    and "claim_relay_publish now ob = (Ok (Some job), ob') \<Longrightarrow>
      \<exists>entry. outbox_view ob (pj_id job) = Some entry \<and> due now entry \<and> job = oe_job (claim_entry now entry) \<and>
        outbox_view ob' = (outbox_view ob)(pj_id job \<mapsto> claim_entry now entry) \<and>
        (\<forall>j other. outbox_view ob j = Some other \<longrightarrow> due now other \<longrightarrow> pj_id job \<le> j)"
proof -
  let ?sel = "foldl (claim_step now) None (ob_entries ob)"
  have none: "claim_relay_publish now ob = (Ok None, ob)" if "?sel = None"
    using that by (simp add: claim_relay_publish_def)
  have quiet: "\<not> due now entry" if "?sel = None" "outbox_view ob i = Some entry" for i entry
    using that claim_fold_None [of now None "ob_entries ob"] outbox_get [OF assms, of i entry] by force
  show "outbox_inv (snd (claim_relay_publish now ob))"
  proof (cases ?sel)
    case (Some i)
    obtain entry where entry: "outbox_view ob i = Some entry"
      and "claim_relay_publish now ob = (Ok (Some (oe_job (claim_entry now entry))),
         ob\<lparr>ob_entries := hm_insert i (claim_entry now entry) (ob_entries ob)\<rparr>)"
      by (rule claim_relay_publish_Some [OF assms Some])
    then show ?thesis using outbox_put(1) [OF assms entry] outbox_job_id [OF assms entry] by simp
  qed (simp add: none assms)
  show "claim_relay_publish now ob \<noteq> (Err e, ob')"
    by (simp add: claim_relay_publish_def Let_def split: option.split)
  show "ob' = ob \<and> (outbox_view ob i = Some entry \<longrightarrow> \<not> due now entry)"
    if "claim_relay_publish now ob = (Ok None, ob')"
    using that none quiet [of i entry] by (cases ?sel) (auto simp: claim_relay_publish_def Let_def)
  assume claim: "claim_relay_publish now ob = (Ok (Some job), ob')"
  then obtain i where i: "?sel = Some i" using none by (cases ?sel) auto
  obtain entry where entry: "outbox_view ob i = Some entry" "due now entry"
    and res: "claim_relay_publish now ob = (Ok (Some (oe_job (claim_entry now entry))),
       ob\<lparr>ob_entries := hm_insert i (claim_entry now entry) (ob_entries ob)\<rparr>)"
    and least: "\<And>j other. outbox_view ob j = Some other \<Longrightarrow> due now other \<Longrightarrow> i \<le> j"
    by (rule claim_relay_publish_Some [OF assms i]) blast
  have job: "job = oe_job (claim_entry now entry)"
    and ob': "ob' = ob\<lparr>ob_entries := hm_insert i (claim_entry now entry) (ob_entries ob)\<rparr>"
    using claim res by simp_all
  moreover have "pj_id job = i" using job outbox_job_id [OF assms entry(1)] by simp
  ultimately show "\<exists>entry. outbox_view ob (pj_id job) = Some entry \<and> due now entry \<and>
      job = oe_job (claim_entry now entry) \<and>
      outbox_view ob' = (outbox_view ob)(pj_id job \<mapsto> claim_entry now entry) \<and>
      (\<forall>j other. outbox_view ob j = Some other \<longrightarrow> due now other \<longrightarrow> pj_id job \<le> j)"
    using entry least outbox_put(2) [OF assms entry(1), of "claim_entry now entry"] outbox_job_id [OF assms entry(1)]
    by auto
qed

lemma outbox_pending_zero:
  assumes "outbox_inv ob" and "pending_relay_publishes pubkey ident kind ob = Ok n"
  shows "n = 0 \<longleftrightarrow> (\<forall>i entry. outbox_view ob i = Some entry \<longrightarrow> \<not> counts_as_pending pubkey ident kind entry)"
proof -
  let ?ps = "filter (\<lambda>p. counts_as_pending pubkey ident kind (snd p)) (ob_entries ob)"
  have "int (length ?ps) \<le> i64_max"
    using outbox_length [OF assms(1)]
      length_filter_le [of "\<lambda>p. counts_as_pending pubkey ident kind (snd p)" "ob_entries ob"] by linarith
  then have "in_i64 (int (length ?ps))" by (simp add: in_i64_def i64_min_def)
  then have "n = int (length ?ps)"
    using assms(2) by (simp add: pending_relay_publishes_def wrap_i64_id)
  then show ?thesis using outbox_get [OF assms(1)] by (force simp: filter_empty_conv)
qed

interpretation memory_outbox: publish_queue "outbox_ops dec" outbox_inv outbox_view
proof
  fix s i err t
  assume inv: "outbox_inv s"
  show "finite (dom (outbox_view s))" by (simp add: outbox_view_def finite_dom_map_of)
  show "outbox_inv (snd (po_succeeded (outbox_ops dec) i s))"
    "outbox_inv (snd (po_failed (outbox_ops dec) i err t s))"
    using inv by (simp_all add: mark_relay_publish_succeeded_def mark_relay_publish_failed_def outbox_update_view)
next
  fix s i r s'
  assume "outbox_inv s" and "po_succeeded (outbox_ops dec) i s = (r, s')"
  then show "outbox_view s' = (case (r, outbox_view s i) of
      (Inr _, Some entry) \<Rightarrow> (outbox_view s)(i \<mapsto> entry\<lparr>oe_status := Published, oe_last_error := None\<rparr>)
    | _ \<Rightarrow> outbox_view s)"
    unfolding outbox_ops_sel mark_relay_publish_succeeded_def by (intro outbox_update_view(2)) simp_all
next
  fix s i err t r s'
  assume "outbox_inv s" and "po_failed (outbox_ops dec) i err t s = (r, s')"
  then show "outbox_view s' = (case (r, outbox_view s i) of
      (Inr _, Some entry) \<Rightarrow> (outbox_view s)(i \<mapsto> entry\<lparr>oe_status := PublishPending,
        oe_job := (oe_job entry)\<lparr>pj_publish_after := t\<rparr>, oe_last_error := Some err\<rparr>)
    | _ \<Rightarrow> outbox_view s)"
    unfolding outbox_ops_sel mark_relay_publish_failed_def by (intro outbox_update_view(2)) simp_all
next
  fix s now s' i entry
  assume "outbox_inv s" and "po_claim (outbox_ops dec) now s = (Ok None, s')"
  then show "outbox_view s' = outbox_view s \<and> (outbox_view s i = Some entry \<longrightarrow> \<not> due now entry)"
    using outbox_claim(3) [of s now s' i entry] by simp
qed (simp_all add: outbox_job_id outbox_claim outbox_pending_zero)

lemma outbox_inv_new: "outbox_inv new_outbox"
  by (simp add: outbox_inv_def new_outbox_def hm.wf_empty i64_max_def)

lemma outbox_enqueue:
  assumes "outbox_inv ob" and "ob_seq ob < i64_max"
    and "enqueue_relay_publish dec request now ob = (r, ob')"
  shows "outbox_inv ob' \<and> ob_seq ob' \<le> ob_seq ob + 1 \<and> outbox_view ob' =
    (case publish_request_decode dec request of
       Inl _ \<Rightarrow> outbox_view ob
     | Inr entry \<Rightarrow> (outbox_view ob)(ob_seq ob + 1 \<mapsto>
         \<lparr>oe_job = job_of_entry (ob_seq ob + 1) now entry, oe_status = PublishPending, oe_last_error = None\<rparr>))"
proof (cases "publish_request_decode dec request")
  case (Inl e)
  then show ?thesis using assms by (simp add: enqueue_relay_publish_def)
next
  case (Inr entry)
  let ?i = "ob_seq ob + 1"
  let ?e = "\<lparr>oe_job = job_of_entry ?i now entry, oe_status = PublishPending, oe_last_error = None\<rparr>"
  have "in_i64 ?i" using assms(1,2) by (auto simp: in_i64_def i64_min_def outbox_inv_def)
  then have ob': "ob' = ob\<lparr>ob_seq := ?i, ob_entries := hm_insert ?i ?e (ob_entries ob)\<rparr>"
    using assms(3) Inr by (auto simp: enqueue_relay_publish_def next_outbox_id_def wrap_i64_id)
  have wf: "hm_wf (ob_entries ob)" "hm_wf (hm_insert ?i ?e (ob_entries ob))"
    using assms(1) hm.wf_put by (auto simp: outbox_inv_def)
  have upd: "map_of (hm_insert ?i ?e (ob_entries ob)) = (map_of (ob_entries ob))(?i \<mapsto> ?e)"
    using hm.get_put [OF wf(1)] by simp
  have "pj_id (oe_job e) = j \<and> 1 \<le> j \<and> j \<le> ?i" if "(j, e) \<in> set (hm_insert ?i ?e (ob_entries ob))" for j e
  proof -
    have "((map_of (ob_entries ob))(?i \<mapsto> ?e)) j = Some e"
      using that hm.get_in [OF wf(2), of j e] upd by simp
    then show ?thesis
      using outbox_ids [OF assms(1), of j e] assms(1)
      by (cases "j = ?i") (auto simp: outbox_view_def job_of_entry_def outbox_inv_def)
  qed
  then have "outbox_inv ob'" using assms(1,2) wf(2) by (auto simp: ob' outbox_inv_def list_all_iff)
  then show ?thesis using Inr upd by (simp add: ob' outbox_view_def)
qed

section \<open>Runs of the outbox\<close>

datatype publish_call =
    CallEnqueue relay_publish_request int
  | CallClaim int
  | CallSucceeded int
  | CallFailed int string int

fun outbox_call :: "hex_decoder \<Rightarrow> publish_call \<Rightarrow> outbox \<Rightarrow> relay_publish_job option \<times> outbox" where
  "outbox_call dec (CallEnqueue request now) ob = (None, snd (enqueue_relay_publish dec request now ob))"
| "outbox_call dec (CallClaim now) ob =
     (case claim_relay_publish now ob of (Inr job, ob') \<Rightarrow> (job, ob') | (Inl _, ob') \<Rightarrow> (None, ob'))"
| "outbox_call dec (CallSucceeded i) ob = (None, snd (mark_relay_publish_succeeded i ob))"
| "outbox_call dec (CallFailed i err t) ob = (None, snd (mark_relay_publish_failed i err t ob))"

text \<open>The jobs that the claims of a run hand out, in order.\<close>

fun outbox_exec :: "hex_decoder \<Rightarrow> publish_call list \<Rightarrow> outbox \<Rightarrow> relay_publish_job list \<times> outbox" where
  "outbox_exec dec [] ob = ([], ob)"
| "outbox_exec dec (c # cs) ob =
     (case outbox_call dec c ob of (job, ob') \<Rightarrow>
      case outbox_exec dec cs ob' of (jobs, ob'') \<Rightarrow>
        ((case job of None \<Rightarrow> jobs | Some j \<Rightarrow> j # jobs), ob''))"

fun reports_failure :: "int \<Rightarrow> publish_call \<Rightarrow> bool" where
  "reports_failure i (CallFailed j err t) = (i = j)"
| "reports_failure i _ = False"

lemma outbox_update_seq: "ob_seq (snd (outbox_update i f ob)) = ob_seq ob"
  by (simp add: outbox_update_def split: option.split)

lemma outbox_call_inv:
  assumes "outbox_inv ob" and "ob_seq ob < i64_max" and "outbox_call dec c ob = (job, ob')"
  shows "outbox_inv ob' \<and> ob_seq ob' \<le> ob_seq ob + 1"
proof (cases c)
  case (CallEnqueue request now)
  then show ?thesis
    using outbox_enqueue [OF assms(1,2), of dec request now] assms(3)
    by (cases "enqueue_relay_publish dec request now ob") auto
next
  case (CallClaim now)
  have "ob_seq (snd (claim_relay_publish now ob)) = ob_seq ob"
    by (simp add: claim_relay_publish_def Let_def split: option.split)
  then show ?thesis
    using CallClaim assms(3) outbox_claim(1) [OF assms(1), of now]
    by (cases "claim_relay_publish now ob") (auto split: sum.splits)
next
  case (CallSucceeded i)
  then show ?thesis using assms memory_outbox.succeeded_inv [OF assms(1), where i = i]
    by (auto simp: mark_relay_publish_succeeded_def outbox_update_seq)
next
  case (CallFailed i err t)
  then show ?thesis using assms memory_outbox.failed_inv [OF assms(1), where i = i and err = err and t = t]
    by (auto simp: mark_relay_publish_failed_def outbox_update_seq)
qed

lemma outbox_exec_inv:
  assumes "outbox_exec dec cs ob = (jobs, ob')" and "outbox_inv ob"
    and "ob_seq ob + int (length cs) \<le> i64_max"
  shows "outbox_inv ob' \<and> ob_seq ob' \<le> ob_seq ob + int (length cs)"
  using assms
proof (induction cs arbitrary: ob jobs)
  case (Cons c cs)
  obtain job mid where step: "outbox_call dec c ob = (job, mid)" by force
  moreover obtain js where "outbox_exec dec cs mid = (js, ob')"
    using Cons.prems(1) step by (auto split: prod.splits)
  moreover have "outbox_inv mid \<and> ob_seq mid \<le> ob_seq ob + 1"
    using outbox_call_inv [OF Cons.prems(2) _ step] Cons.prems(3) by simp
  ultimately show ?case using Cons.IH [of mid js] Cons.prems(3) by auto
qed simp

text \<open>A job that is not pending stays so, and is not handed out, until a failure is reported for it.\<close>

definition held :: "int \<Rightarrow> outbox \<Rightarrow> bool" where
  "held i ob \<longleftrightarrow> (\<exists>entry. outbox_view ob i = Some entry \<and> oe_status entry \<noteq> PublishPending)"

lemma held_call:
  assumes inv: "outbox_inv ob" and room: "ob_seq ob < i64_max" and "held i ob"
    and call: "outbox_call dec c ob = (job, ob')" and "\<not> reports_failure i c"
  shows "held i ob' \<and> (job = Some j \<longrightarrow> pj_id j \<noteq> i)"
proof (cases c)
  case (CallEnqueue request now)
  moreover have "i \<noteq> ob_seq ob + 1" using assms(3) outbox_ids(3) [OF inv, of i] by (auto simp: held_def)
  ultimately show ?thesis
    using outbox_enqueue [OF inv room, of dec request now] assms(3) call
    by (cases "enqueue_relay_publish dec request now ob") (auto simp: held_def split: sum.splits)
next
  case (CallClaim now)
  obtain r mid where claim: "claim_relay_publish now ob = (r, mid)" by force
  show ?thesis
  proof (cases r)
    case (Inl e)
    then show ?thesis using outbox_claim(2) [OF inv] claim by blast
  next
    case (Inr res)
    show ?thesis
    proof (cases res)
      case None
      then show ?thesis using outbox_claim(3) [OF inv, of now mid] claim Inr CallClaim call assms(3) by auto
    next
      case (Some k)
      then obtain entry where "outbox_view ob (pj_id k) = Some entry" "due now entry"
        "outbox_view mid = (outbox_view ob)(pj_id k \<mapsto> claim_entry now entry)"
        using outbox_claim(4) [OF inv, of now k mid] claim Inr by blast
      moreover have "job = Some k" "ob' = mid" using claim Inr Some CallClaim call by auto
      ultimately show ?thesis using assms(3) by (auto simp: held_def due_def)
    qed
  qed
next
  case (CallSucceeded k)
  have ob': "ob' = snd (mark_relay_publish_succeeded k ob)" "job = None" using CallSucceeded call by auto
  show ?thesis
    using memory_outbox.succeeded [OF inv, where i = k] memory_outbox.other_entries(1) [OF inv, where j = i and i = k] assms(3)
    by (cases "mark_relay_publish_succeeded k ob"; cases "k = i")
      (auto simp: ob' held_def split: sum.splits option.splits)
next
  case (CallFailed k err t)
  then show ?thesis
    using memory_outbox.other_entries(2) [OF inv, where j = i and i = k] assms by (auto simp: held_def)
qed

lemma held_exec:
  assumes "outbox_exec dec cs ob = (jobs, ob')" and "outbox_inv ob" and "held i ob"
    and "ob_seq ob + int (length cs) \<le> i64_max" and "\<forall>c \<in> set cs. \<not> reports_failure i c"
  shows "i \<notin> pj_id ` set jobs"
  using assms
proof (induction cs arbitrary: ob jobs)
  case (Cons c cs)
  obtain job mid where step: "outbox_call dec c ob = (job, mid)" by force
  obtain js where rest: "outbox_exec dec cs mid = (js, ob')"
    and jobs: "jobs = (case job of None \<Rightarrow> js | Some j \<Rightarrow> j # js)"
    using Cons.prems(1) step by (auto split: prod.splits)
  have room: "ob_seq ob < i64_max" using Cons.prems(4) by simp
  have "held i mid \<and> (job = Some j \<longrightarrow> pj_id j \<noteq> i)" for j
    using held_call [OF Cons.prems(2) room Cons.prems(3) step] Cons.prems(5) by simp
  moreover have "i \<notin> pj_id ` set js"
    using Cons.IH [OF rest] outbox_call_inv [OF Cons.prems(2) room step] calculation Cons.prems(4,5) by auto
  ultimately show ?case using jobs by (auto split: option.splits)
qed simp

text \<open>
  C26: a job is never handed out twice: once a claim has returned it, no later claim of the run
  returns it, whatever is enqueued, claimed or reported in between, unless a failure is reported for
  it. (The run has at most as many calls as the sequence of identifiers can number.)\<close>

theorem outbox_claims_once:
  assumes "outbox_exec dec before new_outbox = (jobs, ob)"
    and "claim_relay_publish now ob = (Ok (Some job), ob')"
    and "outbox_exec dec after ob' = (jobs', ob'')"
    and "\<forall>c \<in> set after. \<not> reports_failure (pj_id job) c"
    and "int (length before) + 1 + int (length after) \<le> i64_max"
  shows "pj_id job \<notin> pj_id ` set jobs'"
proof -
  have inv: "outbox_inv ob" "ob_seq ob \<le> int (length before)"
    using outbox_exec_inv [OF assms(1) outbox_inv_new] assms(5) by (auto simp: new_outbox_def)
  then have "outbox_inv ob' \<and> ob_seq ob' \<le> int (length before) + 1"
    using outbox_call_inv [OF inv(1), of dec "CallClaim now" "Some job" ob'] assms(2,5) by force
  moreover have "held (pj_id job) ob'"
    using memory_outbox.claim_takes [OF inv(1), of dec now job ob'] assms(2) by (auto simp: held_def)
  ultimately show ?thesis using held_exec [OF assms(3)] assms(4,5) by auto
qed

definition sample_request :: "string \<Rightarrow> relay_publish_request" where
  "sample_request relay =
     \<lparr>pq_relay_url = relay, pq_event_id = replicate 64 CHR ''1'', pq_pubkey = replicate 64 CHR ''2'',
      pq_created_at = 7, pq_kind = 30617, pq_tags = [], pq_content = [], pq_sig = replicate 128 CHR ''3'',
      pq_forgejo_owner = ''owner'', pq_forgejo_repo = ''repo'', pq_identifier = ''app''\<rparr>"

definition sample_calls :: "publish_call list" where
  "sample_calls = [CallEnqueue (sample_request ''ws://a'') 0, CallEnqueue (sample_request ''ws://b'') 0]"

definition sample_outbox :: outbox where
  "sample_outbox = snd (outbox_exec (\<lambda>_. Some []) sample_calls new_outbox)"

definition sample_entry :: "string \<Rightarrow> relay_publish_entry" where
  "sample_entry relay =
     \<lparr>pe_relay_url = relay, pe_event_id = [], pe_pubkey = [], pe_created_at = 7, pe_kind = 30617, pe_tags = [],
      pe_content = [], pe_sig = [], pe_forgejo_owner = ''owner'', pe_forgejo_repo = ''repo'', pe_identifier = ''app''\<rparr>"

lemma sample_decode:
  assumes "\<not> blank relay"
  shows "publish_request_decode (\<lambda>_. Some []) (sample_request relay) = Ok (sample_entry relay)"
proof -
  have "\<not> blank ''owner''" "\<not> blank ''repo''" "\<not> blank ''app''" by (rule not_blank_lead; simp)+
  then show ?thesis
    using assms by (simp add: publish_request_decode_def sample_request_def sample_entry_def require_non_empty_def
        decode_hex_field_def HEX_32_LEN_def HEX_64_LEN_def)
qed

lemma sample_outbox_eq: "sample_outbox =
  \<lparr>ob_entries = map (\<lambda>(i, relay). (i, \<lparr>oe_job = job_of_entry i 0 (sample_entry relay), oe_status = PublishPending,
     oe_last_error = None\<rparr>)) [(1, ''ws://a''), (2, ''ws://b'')], ob_seq = 2\<rparr>"
proof -
  have "\<not> blank ''ws://a''" "\<not> blank ''ws://b''" by (rule not_blank_lead; simp)+
  then show ?thesis
    by (simp add: sample_outbox_def sample_calls_def enqueue_relay_publish_def sample_decode new_outbox_def
        next_outbox_id_def wrap_i64_def)
qed

lemma sample_claim: "map_option pj_id (fst (outbox_call (\<lambda>_. Some []) (CallClaim 0) sample_outbox)) = Some 1"
  by (simp add: sample_outbox_eq claim_relay_publish_def claim_step_def job_of_entry_def Let_def)

theorem outbox_claims_once_witness:
  "1 \<notin> pj_id ` set (fst (outbox_exec (\<lambda>_. Some []) [CallClaim 1, CallSucceeded 1, CallClaim 2]
    (snd (claim_relay_publish 0 sample_outbox))))"
proof -
  obtain r ob' where claim: "claim_relay_publish 0 sample_outbox = (r, ob')" by force
  with sample_claim obtain job where job: "r = Ok (Some job)" "pj_id job = 1" by (cases r) auto
  have before: "outbox_exec (\<lambda>_. Some []) sample_calls new_outbox = (fst (outbox_exec (\<lambda>_. Some []) sample_calls new_outbox), sample_outbox)"
    by (simp add: sample_outbox_def)
  show ?thesis
    using outbox_claims_once [OF before, of 0 job ob' "[CallClaim 1, CallSucceeded 1, CallClaim 2]",
        OF _ surjective_pairing] claim job
    by (simp add: i64_max_def sample_calls_def del: outbox_exec.simps)
qed

end
