(* ===== verification/Forgejo_Client.thy ===== *)
theory Forgejo_Client
  imports Rust_State Json Rust_Str Config
begin

text \<open>
  The client of the Forgejo server (\<open>crates/forgejo/src/lib.rs\<close>). The transport takes a request
  and the state of the world behind it and answers with the state it leaves; it, the printer of
  JSON texts and the parsers of the answers (\<open>serde_json\<close>) are fields of the client, because
  their code is outside the repository. Payloads are JSON objects with their fields in the order of
  their declaration, absent ones left out where the code leaves them out.
\<close>

section \<open>Requests, answers and errors\<close>

datatype forgejo_method = MethodGet | MethodPost

record forgejo_request =
  fq_method :: forgejo_method
  fq_url :: string
  fq_body :: "string option"

record forgejo_response =
  fs_status :: u16
  fs_body :: string

datatype forgejo_error =
    ForgejoRequestError string
  | ForgejoResponseError u16 string
  | ForgejoParseError string
  | ForgejoNotFound string

fun forgejo_error_display :: "forgejo_error \<Rightarrow> string" where
  "forgejo_error_display (ForgejoRequestError message) = ''forgejo request error: '' @ message"
| "forgejo_error_display (ForgejoResponseError status body) =
     ''forgejo response '' @ show_nat (unat status) @ '': '' @ body"
| "forgejo_error_display (ForgejoParseError message) = ''forgejo parse error: '' @ message"
| "forgejo_error_display (ForgejoNotFound message) = ''forgejo not found: '' @ message"

record forgejo_repo_info =
  fi_owner :: string
  fi_name :: string
  fi_full_name :: string
  fi_html_url :: "string option"

record forgejo_user =
  fu_username :: string
  fu_email :: "string option"

record forgejo_org =
  fg_name :: string
  fg_full_name :: "string option"

record forgejo_pull_request =
  fp_number :: nat
  fp_url :: string
  fp_html_url :: "string option"

record forgejo_create_user =
  cu_username :: string
  cu_email :: string
  cu_password :: string
  cu_full_name :: "string option"
  cu_must_change_password :: "bool option"
  cu_send_notify :: "bool option"

record forgejo_create_org =
  co_username :: string
  co_full_name :: "string option"
  co_description :: "string option"
  co_visibility :: "string option"

record forgejo_create_repo =
  cp_name :: string
  cp_description :: "string option"
  cp_private :: "bool option"
  cp_auto_init :: "bool option"

record forgejo_create_pull_request =
  cq_head :: string
  cq_base :: string
  cq_title :: string
  cq_body :: "string option"

text \<open>The answers as the parsers return them; the owner of a repository is its user name.\<close>

record forgejo_repo_response =
  rp_resp_full_name :: string
  rp_resp_name :: string
  rp_resp_owner_username :: string
  rp_resp_html_url :: "string option"

definition into_repo :: "forgejo_repo_response \<Rightarrow> forgejo_repo_info" where
  "into_repo r =
     \<lparr>fi_owner = rp_resp_owner_username r, fi_name = rp_resp_name r, fi_full_name = rp_resp_full_name r,
      fi_html_url = rp_resp_html_url r\<rparr>"

record forgejo_user_response =
  us_login :: "string option"
  us_username :: "string option"
  us_email :: "string option"

definition into_user :: "forgejo_user_response \<Rightarrow> (forgejo_error, forgejo_user) result" where
  "into_user r =
     (case (us_login r, us_username r) of
        (Some login, Some username) \<Rightarrow>
          (if login \<noteq> username
           then Err (ForgejoParseError ''forgejo user response has mismatched login and username'')
           else Ok \<lparr>fu_username = login, fu_email = us_email r\<rparr>)
      | (Some login, None) \<Rightarrow> Ok \<lparr>fu_username = login, fu_email = us_email r\<rparr>
      | (None, Some username) \<Rightarrow> Ok \<lparr>fu_username = username, fu_email = us_email r\<rparr>
      | (None, None) \<Rightarrow> Err (ForgejoParseError ''forgejo user response missing username''))"

record forgejo_org_response =
  og_name :: string
  og_full_name :: "string option"

definition into_org :: "forgejo_org_response \<Rightarrow> forgejo_org" where
  "into_org r = \<lparr>fg_name = og_name r, fg_full_name = og_full_name r\<rparr>"

record forgejo_pull_request_response =
  pl_number :: int
  pl_url :: string
  pl_html_url :: "string option"

definition into_pull_request :: "forgejo_pull_request_response \<Rightarrow> (forgejo_error, forgejo_pull_request) result" where
  "into_pull_request r =
     (if pl_number r < 0
      then Err (ForgejoParseError (''invalid pull request number: '' @ show_int (pl_number r)))
      else Ok \<lparr>fp_number = nat (pl_number r), fp_url = pl_url r, fp_html_url = pl_html_url r\<rparr>)"

text \<open>A hook is read as the address in its configuration.\<close>

type_synonym forgejo_hook_response = "string option"

section \<open>The client\<close>

record 'w forgejo_client =
  fo_config :: forgejo_config
  fo_send :: "forgejo_request \<Rightarrow> 'w \<Rightarrow> (forgejo_error, forgejo_response, 'w) st_result"
  fo_to_string :: "json \<Rightarrow> string"
  fo_parse_repo :: "string \<Rightarrow> (string, forgejo_repo_response) result"
  fo_parse_user :: "string \<Rightarrow> (string, forgejo_user_response) result"
  fo_parse_org :: "string \<Rightarrow> (string, forgejo_org_response) result"
  fo_parse_pull :: "string \<Rightarrow> (string, forgejo_pull_request_response) result"
  fo_parse_hooks :: "string \<Rightarrow> (string, forgejo_hook_response list) result"

definition join_url :: "string \<Rightarrow> string \<Rightarrow> string" where
  "join_url base path = trim_end_char CHR ''/'' base @ ''/'' @ trim_start_char CHR ''/'' path"

definition opt_field :: "string \<Rightarrow> ('a \<Rightarrow> json) \<Rightarrow> 'a option \<Rightarrow> (string \<times> json) list" where
  "opt_field name f v = (case v of None \<Rightarrow> [] | Some x \<Rightarrow> [(name, f x)])"

definition opt_json :: "('a \<Rightarrow> json) \<Rightarrow> 'a option \<Rightarrow> json" where
  "opt_json f v = (case v of None \<Rightarrow> JNull | Some x \<Rightarrow> f x)"

definition create_user_json :: "forgejo_create_user \<Rightarrow> json" where
  "create_user_json u = JObject
     ([(''username'', JString (cu_username u)), (''email'', JString (cu_email u)),
       (''password'', JString (cu_password u))] @
      opt_field ''full_name'' JString (cu_full_name u) @
      opt_field ''must_change_password'' JBool (cu_must_change_password u) @
      opt_field ''send_notify'' JBool (cu_send_notify u))"

definition create_org_json :: "forgejo_create_org \<Rightarrow> json" where
  "create_org_json g = JObject
     ([(''username'', JString (co_username g))] @
      opt_field ''full_name'' JString (co_full_name g) @
      opt_field ''description'' JString (co_description g) @
      opt_field ''visibility'' JString (co_visibility g))"

definition create_pull_request_json :: "forgejo_create_pull_request \<Rightarrow> json" where
  "create_pull_request_json r = JObject
     ([(''head'', JString (cq_head r)), (''base'', JString (cq_base r)), (''title'', JString (cq_title r))] @
      opt_field ''body'' JString (cq_body r))"

definition create_repo_json :: "string \<Rightarrow> string option \<Rightarrow> bool \<Rightarrow> json" where
  "create_repo_json name description private = JObject
     [(''name'', JString name), (''description'', opt_json JString description), (''private'', JBool private)]"

definition create_admin_repo_json :: "string \<Rightarrow> string option \<Rightarrow> bool \<Rightarrow> bool \<Rightarrow> json" where
  "create_admin_repo_json name description private auto_init = JObject
     ([(''name'', JString name), (''description'', opt_json JString description), (''private'', JBool private)] @
      (if auto_init then [(''auto_init'', JBool auto_init)] else []))"

definition create_hook_json :: "forgejo_config \<Rightarrow> json" where
  "create_hook_json config = JObject
     [(''type'', JString ''gitea''),
      (''config'', JObject [(''url'', JString (fc_webhook_url config)), (''content_type'', JString ''json''),
         (''secret'', JString (fc_webhook_secret config))]),
      (''events'', JArray [JString ''push'']),
      (''active'', JBool True)]"

definition forgejo_get :: "'w forgejo_client \<Rightarrow> string \<Rightarrow> 'w \<Rightarrow> (forgejo_error, forgejo_response, 'w) st_result" where
  "forgejo_get c path = fo_send c
     \<lparr>fq_method = MethodGet, fq_url = join_url (fc_base_url (fo_config c)) path, fq_body = None\<rparr>"

definition forgejo_post ::
  "'w forgejo_client \<Rightarrow> string \<Rightarrow> json \<Rightarrow> 'w \<Rightarrow> (forgejo_error, forgejo_response, 'w) st_result" where
  "forgejo_post c path payload = fo_send c
     \<lparr>fq_method = MethodPost, fq_url = join_url (fc_base_url (fo_config c)) path,
      fq_body = Some (fo_to_string c payload)\<rparr>"

definition unexpected :: "forgejo_response \<Rightarrow> (forgejo_error, 'a) result" where
  "unexpected response = Err (ForgejoResponseError (fs_status response) (fs_body response))"

abbreviation parse_answer :: "(string \<Rightarrow> (string, 'a) result) \<Rightarrow> forgejo_response \<Rightarrow> (forgejo_error, 'a) result" where
  "parse_answer parse response \<equiv> map_err ForgejoParseError (parse (fs_body response))"

definition get_user ::
  "'w forgejo_client \<Rightarrow> string \<Rightarrow> 'w \<Rightarrow> (forgejo_error, forgejo_user option, 'w) st_result" where
  "get_user c username w =
     st_then (forgejo_get c (''/api/v1/users/'' @ username) w) (\<lambda>response w.
       (if fs_status response = 200
        then and_then (parse_answer (fo_parse_user c) response) (\<lambda>user.
               and_then (into_user user) (\<lambda>user. Ok (Some user)))
        else if fs_status response = 404 then Ok None
        else unexpected response, w))"

definition get_repo_for_owner ::
  "'w forgejo_client \<Rightarrow> string \<Rightarrow> string \<Rightarrow> 'w \<Rightarrow> (forgejo_error, forgejo_repo_info option, 'w) st_result" where
  "get_repo_for_owner c owner name w =
     st_then (forgejo_get c (''/api/v1/repos/'' @ owner @ ''/'' @ name) w) (\<lambda>response w.
       (if fs_status response = 200
        then and_then (parse_answer (fo_parse_repo c) response) (\<lambda>repo. Ok (Some (into_repo repo)))
        else if fs_status response = 404 then Ok None
        else unexpected response, w))"

definition get_repo ::
  "'w forgejo_client \<Rightarrow> string \<Rightarrow> 'w \<Rightarrow> (forgejo_error, forgejo_repo_info option, 'w) st_result" where
  "get_repo c name = get_repo_for_owner c (fc_owner (fo_config c)) name"

definition create_user ::
  "'w forgejo_client \<Rightarrow> forgejo_create_user \<Rightarrow> 'w \<Rightarrow> (forgejo_error, forgejo_user, 'w) st_result" where
  "create_user c user w =
     st_then (forgejo_post c ''/api/v1/admin/users'' (create_user_json user) w) (\<lambda>response w.
       (if fs_status response = 200 \<or> fs_status response = 201
        then and_then (parse_answer (fo_parse_user c) response) into_user
        else unexpected response, w))"

definition create_org ::
  "'w forgejo_client \<Rightarrow> string \<Rightarrow> forgejo_create_org \<Rightarrow> 'w \<Rightarrow> (forgejo_error, forgejo_org, 'w) st_result" where
  "create_org c owner org w =
     st_then (forgejo_post c (''/api/v1/admin/users/'' @ owner @ ''/orgs'') (create_org_json org) w) (\<lambda>response w.
       (if fs_status response = 200 \<or> fs_status response = 201
        then and_then (parse_answer (fo_parse_org c) response) (\<lambda>org. Ok (into_org org))
        else unexpected response, w))"

text \<open>A conflict means that the repository is there: it is looked up.\<close>

definition existing_repo ::
  "'w forgejo_client \<Rightarrow> string \<Rightarrow> string \<Rightarrow> 'w \<Rightarrow> (forgejo_error, forgejo_repo_info, 'w) st_result" where
  "existing_repo c owner name w =
     st_then (get_repo_for_owner c owner name w) (\<lambda>repo w. (ok_or (ForgejoNotFound name) repo, w))"

definition create_repo_for_owner ::
  "'w forgejo_client \<Rightarrow> string \<Rightarrow> forgejo_create_repo \<Rightarrow> 'w \<Rightarrow> (forgejo_error, forgejo_repo_info, 'w) st_result" where
  "create_repo_for_owner c owner repo w =
     (let private = (case cp_private repo of Some b \<Rightarrow> b | None \<Rightarrow> fc_repo_private (fo_config c));
          auto_init = (case cp_auto_init repo of Some b \<Rightarrow> b | None \<Rightarrow> False)
      in st_then (forgejo_post c (''/api/v1/admin/users/'' @ owner @ ''/repos'')
           (create_admin_repo_json (cp_name repo) (cp_description repo) private auto_init) w) (\<lambda>response w.
         if fs_status response = 201
         then (and_then (parse_answer (fo_parse_repo c) response) (\<lambda>repo. Ok (into_repo repo)), w)
         else if fs_status response = 409 then existing_repo c owner (cp_name repo) w
         else (unexpected response, w)))"

definition create_pull_request ::
  "'w forgejo_client \<Rightarrow> string \<Rightarrow> string \<Rightarrow> forgejo_create_pull_request \<Rightarrow> 'w \<Rightarrow>
   (forgejo_error, forgejo_pull_request, 'w) st_result" where
  "create_pull_request c owner repo request w =
     st_then (forgejo_post c (''/api/v1/repos/'' @ owner @ ''/'' @ repo @ ''/pulls'')
       (create_pull_request_json request) w) (\<lambda>response w.
       (if fs_status response = 201
        then and_then (parse_answer (fo_parse_pull c) response) into_pull_request
        else unexpected response, w))"

text \<open>The organisation of the owner first; where there is none, the user of the token.\<close>

definition create_repo ::
  "'w forgejo_client \<Rightarrow> string \<Rightarrow> string option \<Rightarrow> 'w \<Rightarrow> (forgejo_error, forgejo_repo_info, 'w) st_result" where
  "create_repo c name description w =
     (let owner = fc_owner (fo_config c);
          payload = create_repo_json name description (fc_repo_private (fo_config c));
          created = (\<lambda>response. and_then (parse_answer (fo_parse_repo c) response) (\<lambda>repo. Ok (into_repo repo)))
      in st_then (forgejo_post c (''/api/v1/orgs/'' @ owner @ ''/repos'') payload w) (\<lambda>response w.
         if fs_status response = 201 then (created response, w)
         else if fs_status response = 409 then existing_repo c owner name w
         else if \<not> (fs_status response = 403 \<or> fs_status response = 404) then (unexpected response, w)
         else st_then (forgejo_post c ''/api/v1/user/repos'' payload w) (\<lambda>response w.
           if fs_status response = 201 then (created response, w)
           else if fs_status response = 409 then existing_repo c owner name w
           else (unexpected response, w))))"

definition list_hooks_for_owner ::
  "'w forgejo_client \<Rightarrow> string \<Rightarrow> string \<Rightarrow> 'w \<Rightarrow> (forgejo_error, forgejo_hook_response list, 'w) st_result" where
  "list_hooks_for_owner c owner repo w =
     st_then (forgejo_get c (''/api/v1/repos/'' @ owner @ ''/'' @ repo @ ''/hooks'') w) (\<lambda>response w.
       (if fs_status response = 200 then parse_answer (fo_parse_hooks c) response else unexpected response, w))"

definition create_hook_for_owner ::
  "'w forgejo_client \<Rightarrow> string \<Rightarrow> string \<Rightarrow> 'w \<Rightarrow> (forgejo_error, unit, 'w) st_result" where
  "create_hook_for_owner c owner repo w =
     st_then (forgejo_post c (''/api/v1/repos/'' @ owner @ ''/'' @ repo @ ''/hooks'') (create_hook_json (fo_config c)) w)
       (\<lambda>response w.
         (if fs_status response = 200 \<or> fs_status response = 201 then Ok () else unexpected response, w))"

definition ensure_repo ::
  "'w forgejo_client \<Rightarrow> string \<Rightarrow> string option \<Rightarrow> 'w \<Rightarrow> (forgejo_error, forgejo_repo_info, 'w) st_result" where
  "ensure_repo c name description w =
     st_then (get_repo c name w) (\<lambda>repo w.
       case repo of Some repo \<Rightarrow> (Ok repo, w) | None \<Rightarrow> create_repo c name description w)"

definition ensure_repo_for_owner ::
  "'w forgejo_client \<Rightarrow> string \<Rightarrow> string \<Rightarrow> string option \<Rightarrow> 'w \<Rightarrow> (forgejo_error, forgejo_repo_info, 'w) st_result" where
  "ensure_repo_for_owner c owner name description w =
     st_then (get_repo_for_owner c owner name w) (\<lambda>repo w.
       case repo of
         Some repo \<Rightarrow> (Ok repo, w)
       | None \<Rightarrow> create_repo_for_owner c owner
           \<lparr>cp_name = name, cp_description = description, cp_private = None, cp_auto_init = None\<rparr> w)"

definition ensure_user ::
  "'w forgejo_client \<Rightarrow> forgejo_create_user \<Rightarrow> 'w \<Rightarrow> (forgejo_error, forgejo_user, 'w) st_result" where
  "ensure_user c user w =
     st_then (get_user c (cu_username user) w) (\<lambda>existing w.
       case existing of Some existing \<Rightarrow> (Ok existing, w) | None \<Rightarrow> create_user c user w)"

definition ensure_webhook_for_owner ::
  "'w forgejo_client \<Rightarrow> string \<Rightarrow> string \<Rightarrow> 'w \<Rightarrow> (forgejo_error, unit, 'w) st_result" where
  "ensure_webhook_for_owner c owner repo w =
     st_then (list_hooks_for_owner c owner repo w) (\<lambda>hooks w.
       if list_ex (\<lambda>url. url = Some (fc_webhook_url (fo_config c))) hooks then (Ok (), w)
       else create_hook_for_owner c owner repo w)"

definition ensure_webhook :: "'w forgejo_client \<Rightarrow> string \<Rightarrow> 'w \<Rightarrow> (forgejo_error, unit, 'w) st_result" where
  "ensure_webhook c repo = ensure_webhook_for_owner c (fc_owner (fo_config c)) repo"

section \<open>Where the requests go\<close>

locale api_only =
  fixes c :: "'w forgejo_client"
    and P :: "'w \<Rightarrow> bool"
  assumes send: "prefix (trim_end_char CHR ''/'' (fc_base_url (fo_config c)) @ ''/api/v1/'') (fq_url request) \<Longrightarrow>
    P w \<Longrightarrow> P (snd (fo_send c request w))"
begin

lemma kept: "P (snd r) \<Longrightarrow> (\<And>x s. P s \<Longrightarrow> P (snd (f x s))) \<Longrightarrow> P (snd (st_then r f))"
  by (rule st_then_keeps [of P]) auto

lemma get: "P w \<Longrightarrow> P (snd (forgejo_get c (''/api/v1/'' @ path) w))"
  unfolding forgejo_get_def by (rule send) (simp_all add: join_url_def trim_start_char_def)

lemma post: "P w \<Longrightarrow> P (snd (forgejo_post c (''/api/v1/'' @ path) payload w))"
  unfolding forgejo_post_def by (rule send) (simp_all add: join_url_def trim_start_char_def)

lemma get_path: "P w \<Longrightarrow> path = ''/api/v1/'' @ rest \<Longrightarrow> P (snd (forgejo_get c path w))"
  using get by blast

lemma post_path: "P w \<Longrightarrow> path = ''/api/v1/'' @ rest \<Longrightarrow> P (snd (forgejo_post c path payload w))"
  using post by blast

lemma get_repo_kept: "P w \<Longrightarrow> P (snd (get_repo_for_owner c owner name w))"
  unfolding get_repo_for_owner_def by (rule kept, erule get_path) simp_all

lemma existing_repo_kept: "P w \<Longrightarrow> P (snd (existing_repo c owner name w))"
  unfolding existing_repo_def by (rule kept, erule get_repo_kept) simp

lemma get_user_kept: "P w \<Longrightarrow> P (snd (get_user c username w))"
  unfolding get_user_def by (rule kept, erule get_path) simp_all

lemma list_hooks_kept: "P w \<Longrightarrow> P (snd (list_hooks_for_owner c owner repo w))"
  unfolding list_hooks_for_owner_def by (rule kept, erule get_path) simp_all

lemma create_user_kept: "P w \<Longrightarrow> P (snd (create_user c user w))"
  unfolding create_user_def by (rule kept, erule post_path) simp_all

lemma create_org_kept: "P w \<Longrightarrow> P (snd (create_org c owner org w))"
  unfolding create_org_def by (rule kept, erule post_path) simp_all

lemma create_pull_request_kept: "P w \<Longrightarrow> P (snd (create_pull_request c owner repo request w))"
  unfolding create_pull_request_def by (rule kept, erule post_path) simp_all

lemma create_hook_kept: "P w \<Longrightarrow> P (snd (create_hook_for_owner c owner repo w))"
  unfolding create_hook_for_owner_def by (rule kept, erule post_path) simp_all

lemma create_repo_for_owner_kept: "P w \<Longrightarrow> P (snd (create_repo_for_owner c owner r w))"
  unfolding create_repo_for_owner_def Let_def
  by (rule kept, erule post_path) (simp_all add: existing_repo_kept)

lemma create_repo_kept: "P w \<Longrightarrow> P (snd (create_repo c name description w))"
proof -
  assume "P w"
  have user: "P w \<Longrightarrow> P (snd (st_then (forgejo_post c ''/api/v1/user/repos'' payload w) (\<lambda>response w.
      if fs_status response = 201 then (f response, w)
      else if fs_status response = 409 then existing_repo c owner name w
      else (g response, w))))" for w f g owner payload
    by (rule kept, erule post_path) (simp_all add: existing_repo_kept)
  show ?thesis
    unfolding create_repo_def Let_def
    by (rule kept, rule post_path [OF \<open>P w\<close>]) (simp_all add: existing_repo_kept user)
qed

lemmas requests_kept = get_repo_kept get_user_kept list_hooks_kept create_user_kept create_org_kept
  create_pull_request_kept create_hook_kept create_repo_for_owner_kept create_repo_kept

lemma ensure_kept:
  assumes "P w"
  shows "P (snd (ensure_repo c name description w))" and "P (snd (ensure_repo_for_owner c owner name description w))"
    and "P (snd (ensure_user c user w))" and "P (snd (ensure_webhook_for_owner c owner repo w))"
    and "P (snd (ensure_webhook c repo w))"
proof -
  show "P (snd (ensure_repo c name description w))"
    unfolding ensure_repo_def get_repo_def
    by (rule kept, rule get_repo_kept [OF assms]) (simp add: create_repo_kept split: option.split)
  show "P (snd (ensure_repo_for_owner c owner name description w))"
    unfolding ensure_repo_for_owner_def
    by (rule kept, rule get_repo_kept [OF assms]) (simp add: create_repo_for_owner_kept split: option.split)
  show "P (snd (ensure_user c user w))"
    unfolding ensure_user_def
    by (rule kept, rule get_user_kept [OF assms]) (simp add: create_user_kept split: option.split)
  show hook: "P (snd (ensure_webhook_for_owner c owner repo w))" for owner
    unfolding ensure_webhook_for_owner_def
    by (rule kept, rule list_hooks_kept [OF assms]) (simp add: create_hook_kept)
  show "P (snd (ensure_webhook c repo w))" unfolding ensure_webhook_def by (rule hook)
qed

end

text \<open>A client that also writes down the requests it sends.\<close>

definition logged :: "'w forgejo_client \<Rightarrow> ('w \<times> forgejo_request list) forgejo_client" where
  "logged c =
     \<lparr>fo_config = fo_config c,
      fo_send = (\<lambda>request (w, sent). case fo_send c request w of (r, w') \<Rightarrow> (r, (w', sent @ [request]))),
      fo_to_string = fo_to_string c, fo_parse_repo = fo_parse_repo c, fo_parse_user = fo_parse_user c,
      fo_parse_org = fo_parse_org c, fo_parse_pull = fo_parse_pull c, fo_parse_hooks = fo_parse_hooks c\<rparr>"

definition sent_to_api :: "'w forgejo_client \<Rightarrow> 'w \<times> forgejo_request list \<Rightarrow> bool" where
  "sent_to_api c = (\<lambda>(w, sent). list_all (\<lambda>request.
     prefix (trim_end_char CHR ''/'' (fc_base_url (fo_config c)) @ ''/api/v1/'') (fq_url request)) sent)"

interpretation logged: api_only "logged c" "sent_to_api c"
  by unfold_locales (auto simp: logged_def sent_to_api_def split: prod.splits)

text \<open>
  Whatever the client is asked to do and whatever the server answers, every request it sends, with
  the token of the administrator, goes to the interface of the configured server.\<close>

theorem forgejo_requests_stay:
  "sent_to_api c (snd (ensure_repo (logged c) name description (w, []))) \<and>
   sent_to_api c (snd (ensure_repo_for_owner (logged c) owner name description (w, []))) \<and>
   sent_to_api c (snd (ensure_user (logged c) user (w, []))) \<and>
   sent_to_api c (snd (ensure_webhook (logged c) repo (w, []))) \<and>
   sent_to_api c (snd (ensure_webhook_for_owner (logged c) owner repo (w, []))) \<and>
   sent_to_api c (snd (create_org (logged c) owner org (w, []))) \<and>
   sent_to_api c (snd (create_repo_for_owner (logged c) owner r (w, []))) \<and>
   sent_to_api c (snd (create_pull_request (logged c) owner repo request (w, [])))"
proof -
  have "sent_to_api c (w, [])" by (simp add: sent_to_api_def)
  then show ?thesis
    by (intro conjI logged.ensure_kept logged.requests_kept)
qed

end
