(* ===== verification/Coordinator.thy ===== *)
theory Coordinator
  imports Core_Events Storage_Outbox Storage_Directory Forgejo_Client
begin

text \<open>
  The coordinator (\<open>services/coordinator/src/lib.rs\<close>): it provisions a bare repository for an
  announcement and publishes the jobs of the outbox on relays, entering an announcement once all
  its jobs are published. Its state is a pair: the repositories of the storage crate and the world
  outside (file system, git, Forgejo, relays), whose operations are fields of \<open>coordinator\<close>. Paths
  are the strings of \<open>std::path\<close> on Unix. Logging is left out.
\<close>

section \<open>The environment\<close>

text \<open>A run of git returns whether it succeeded and what it printed on standard error.\<close>

record 'w system_ops =
  sy_exists :: "string \<Rightarrow> 'w \<Rightarrow> bool"
  sy_is_dir :: "string \<Rightarrow> 'w \<Rightarrow> bool"
  sy_git :: "string list \<Rightarrow> 'w \<Rightarrow> (string, bool \<times> string, 'w) st_result"
  sy_create_dir_all :: "string \<Rightarrow> 'w \<Rightarrow> (string, unit, 'w) st_result"
  sy_copy :: "string \<Rightarrow> string \<Rightarrow> 'w \<Rightarrow> (string, unit, 'w) st_result"
  sy_metadata :: "string \<Rightarrow> 'w \<Rightarrow> (string, unit) result"
  sy_set_mode :: "string \<Rightarrow> nat \<Rightarrow> 'w \<Rightarrow> (string, unit, 'w) st_result"

record hook_install_config =
  hk_pre_receive_source :: string
  hk_post_receive_source :: string

record ('r, 'w) coordinator =
  cd_publish_repo :: "'r publish_repo_ops"
  cd_insert_announcement :: "repo_announcement_record \<Rightarrow> 'r \<Rightarrow> (storage_error, unit, 'r) st_result"
  cd_upsert_mapping :: "repo_mapping_record \<Rightarrow> 'r \<Rightarrow> (storage_error, unit, 'r) st_result"
  cd_repo_root :: string
  cd_hooks :: hook_install_config
  cd_forgejo :: "'w forgejo_client"
  cd_system :: "'w system_ops"
  cd_hex_encode :: encoder
  cd_hex_decode :: hex_decoder
  cd_bech32_decode :: bech32_decoder
  cd_url_parse :: url_parser

definition on_repo :: "('r \<Rightarrow> ('e, 'a, 'r) st_result) \<Rightarrow> 'r \<times> 'w \<Rightarrow> ('e, 'a, 'r \<times> 'w) st_result" where
  "on_repo f s = (case f (fst s) of (x, r) \<Rightarrow> (x, (r, snd s)))"

definition on_world :: "('w \<Rightarrow> ('e, 'a, 'w) st_result) \<Rightarrow> 'r \<times> 'w \<Rightarrow> ('e, 'a, 'r \<times> 'w) st_result" where
  "on_world f s = (case f (snd s) of (x, w) \<Rightarrow> (x, (fst s, w)))"

text \<open>\<open>Path::join\<close>: an absolute path replaces the one before it.\<close>

definition path_join :: "string \<Rightarrow> string \<Rightarrow> string" where
  "path_join base p =
     (if starts_with p ''/'' then p
      else if base \<noteq> [] \<and> last base \<noteq> CHR ''/'' then base @ ''/'' @ p
      else base @ p)"

section \<open>Provisioning a repository\<close>

record git_config_entry =
  gc_key :: string
  gc_value :: string

record repo_provision_plan =
  pv_npub :: string
  pv_identifier :: string
  pv_repo_path :: string
  pv_hooks_dir :: string
  pv_pre_receive_hook :: string
  pv_post_receive_hook :: string
  pv_git_config :: "git_config_entry list"

datatype provision_plan_error = PlanInvalidRepo string

fun provision_plan_error_display :: "provision_plan_error \<Rightarrow> string" where
  "provision_plan_error_display (PlanInvalidRepo message) = message"

definition default_repo_config :: "git_config_entry list" where
  "default_repo_config =
     [\<lparr>gc_key = ''core.bare'', gc_value = ''true''\<rparr>,
      \<lparr>gc_key = ''receive.advertisePushOptions'', gc_value = ''true''\<rparr>]"

definition build_provision_plan ::
  "bech32_decoder \<Rightarrow> string \<Rightarrow> string \<Rightarrow> repo_announcement \<Rightarrow> (provision_plan_error, repo_provision_plan) result" where
  "build_provision_plan bech32_decode root npub a =
     (let repo_path = path_join (path_join root npub) (ann_identifier a @ ''.git'') in
      case parse_repo_path bech32_decode repo_path of
        Inl err \<Rightarrow> Err (PlanInvalidRepo (core_error_display err))
      | Inr _ \<Rightarrow>
          (let hooks_dir = path_join repo_path ''hooks''
           in Ok \<lparr>pv_npub = npub, pv_identifier = ann_identifier a, pv_repo_path = repo_path,
                pv_hooks_dir = hooks_dir, pv_pre_receive_hook = path_join hooks_dir ''pre-receive'',
                pv_post_receive_hook = path_join hooks_dir ''post-receive'',
                pv_git_config = default_repo_config\<rparr>))"

record repo_init_report =
  ir_created :: bool
  ir_configured :: nat

datatype repo_init_error = InitIo string | InitInvalidRepo string | InitInvalidPath string | InitGit string

fun repo_init_error_display :: "repo_init_error \<Rightarrow> string" where
  "repo_init_error_display (InitIo err) = ''repo init io error: '' @ err"
| "repo_init_error_display (InitInvalidRepo message) = message"
| "repo_init_error_display (InitInvalidPath message) = message"
| "repo_init_error_display (InitGit message) = message"

definition run_git ::
  "'w system_ops \<Rightarrow> string \<Rightarrow> string \<Rightarrow> string list \<Rightarrow> 'w \<Rightarrow> (repo_init_error, unit, 'w) st_result" where
  "run_git sys path what args w =
     (if os_to_str path = None then (Err (InitInvalidPath ''repo path is not utf-8''), w)
      else st_then (st_map_err InitIo (sy_git sys args w)) (\<lambda>(ok, stderr) w.
        (ensure ok (InitGit (''git '' @ what @ '' failed: '' @ stderr)), w)))"

definition create_bare_repo :: "'w system_ops \<Rightarrow> string \<Rightarrow> 'w \<Rightarrow> (repo_init_error, unit, 'w) st_result" where
  "create_bare_repo sys path = run_git sys path ''init'' [''init'', ''--bare'', path]"

definition apply_git_config ::
  "'w system_ops \<Rightarrow> string \<Rightarrow> git_config_entry \<Rightarrow> 'w \<Rightarrow> (repo_init_error, unit, 'w) st_result" where
  "apply_git_config sys path entry =
     run_git sys path ''config'' [''-C'', path, ''config'', gc_key entry, gc_value entry]"

definition init_repo ::
  "'w system_ops \<Rightarrow> repo_provision_plan \<Rightarrow> 'w \<Rightarrow> (repo_init_error, repo_init_report, 'w) st_result" where
  "init_repo sys plan w =
     (let path = pv_repo_path plan in
      st_then
        (if sy_exists sys path w
         then (if \<not> sy_is_dir sys path w
               then (Err (InitInvalidRepo (''repo path is not a directory: '' @ path)), w)
               else if \<not> sy_exists sys (path_join path ''HEAD'') w
               then (Err (InitInvalidRepo (''repo path missing HEAD: '' @ path)), w)
               else (Ok False, w))
         else st_then (create_bare_repo sys path w) (\<lambda>_ w. (Ok True, w)))
        (\<lambda>created w.
          st_then (st_each (apply_git_config sys path) (pv_git_config plan) w) (\<lambda>_ w.
            (Ok \<lparr>ir_created = created, ir_configured = length (pv_git_config plan)\<rparr>, w))))"

datatype hook_install_error = HookIo string | HookMissingSource string

fun hook_install_error_display :: "hook_install_error \<Rightarrow> string" where
  "hook_install_error_display (HookIo err) = ''hook install io error: '' @ err"
| "hook_install_error_display (HookMissingSource path) = ''missing hook source: '' @ path"

definition ensure_source_exists :: "'w system_ops \<Rightarrow> string \<Rightarrow> 'w \<Rightarrow> (hook_install_error, unit, 'w) st_result" where
  "ensure_source_exists sys path w = (ensure (sy_exists sys path w) (HookMissingSource path), w)"

definition ensure_executable :: "'w system_ops \<Rightarrow> string \<Rightarrow> 'w \<Rightarrow> (hook_install_error, unit, 'w) st_result" where
  "ensure_executable sys path w =
     st_then (map_err HookIo (sy_metadata sys path w), w) (\<lambda>_ w.
       st_map_err HookIo (sy_set_mode sys path 493 w))"

definition install_hook ::
  "'w system_ops \<Rightarrow> string \<Rightarrow> string \<Rightarrow> 'w \<Rightarrow> (hook_install_error, unit, 'w) st_result" where
  "install_hook sys source destination w =
     st_then (st_map_err HookIo (sy_copy sys source destination w)) (\<lambda>_. ensure_executable sys destination)"

text \<open>The report counts the hooks: always two.\<close>

definition install_hooks ::
  "'w system_ops \<Rightarrow> repo_provision_plan \<Rightarrow> hook_install_config \<Rightarrow> 'w \<Rightarrow> (hook_install_error, nat, 'w) st_result" where
  "install_hooks sys plan config w =
     st_then (ensure_source_exists sys (hk_pre_receive_source config) w) (\<lambda>_ w.
     st_then (ensure_source_exists sys (hk_post_receive_source config) w) (\<lambda>_ w.
     st_then (st_map_err HookIo (sy_create_dir_all sys (pv_hooks_dir plan) w)) (\<lambda>_ w.
     st_then (install_hook sys (hk_pre_receive_source config) (pv_pre_receive_hook plan) w) (\<lambda>_ w.
     st_then (install_hook sys (hk_post_receive_source config) (pv_post_receive_hook plan) w) (\<lambda>_ w.
     (Ok 2, w))))))"

section \<open>Announcements\<close>

record coordinator_event =
  ce_kind :: u32
  ce_event_id :: string
  ce_pubkey :: string
  ce_created_at :: int
  ce_tags :: "tag list"

datatype coordinator_action = Provisioned string | SkippedExisting string | Ignored

datatype coordinator_event_error =
    EventParse string
  | EventMissingNpub
  | EventPlan provision_plan_error
  | EventInit repo_init_error
  | EventHooks hook_install_error
  | EventStorage storage_error
  | EventForgejo forgejo_error
  | EventMapping core_error

fun coordinator_event_error_display :: "coordinator_event_error \<Rightarrow> string" where
  "coordinator_event_error_display (EventParse message) = message"
| "coordinator_event_error_display EventMissingNpub = ''missing npub in clone urls''"
| "coordinator_event_error_display (EventPlan err) = provision_plan_error_display err"
| "coordinator_event_error_display (EventInit err) = repo_init_error_display err"
| "coordinator_event_error_display (EventHooks err) = hook_install_error_display err"
| "coordinator_event_error_display (EventStorage err) = ''storage error: '' @ storage_error_display err"
| "coordinator_event_error_display (EventForgejo err) = forgejo_error_display err"
| "coordinator_event_error_display (EventMapping err) = core_error_display err"

definition parse_event :: "url_parser \<Rightarrow> coordinator_event \<Rightarrow> (coordinator_event_error, nip34_event) result" where
  "parse_event url_parse e =
     map_err (\<lambda>err. EventParse (core_error_display err)) (nip34_parse_validated url_parse (ce_kind e) (ce_tags e))"

definition handle_announcement_event ::
  "('r, 'w) coordinator \<Rightarrow> coordinator_event \<Rightarrow> 'w \<Rightarrow> (coordinator_event_error, coordinator_action, 'w) st_result" where
  "handle_announcement_event c e w =
     st_then (parse_event (cd_url_parse c) e, w) (\<lambda>parsed w.
       case parsed of
         RepoAnnouncementEvent a \<Rightarrow>
           st_then (ok_or EventMissingNpub
               (find_map (\<lambda>url. result_ok (extract_npub (cd_bech32_decode c) url)) (ann_clone a)), w) (\<lambda>npub w.
           st_then (map_err EventPlan (build_provision_plan (cd_bech32_decode c) (cd_repo_root c) npub a), w) (\<lambda>plan w.
           if sy_exists (cd_system c) (pv_repo_path plan) w then (Ok (SkippedExisting (pv_repo_path plan)), w)
           else
             st_then (st_map_err EventInit (init_repo (cd_system c) plan w)) (\<lambda>_ w.
             st_then (st_map_err EventHooks (install_hooks (cd_system c) plan (cd_hooks c) w)) (\<lambda>_ w.
             (Ok (Provisioned (pv_repo_path plan)), w)))))
       | _ \<Rightarrow> (Ok Ignored, w))"

text \<open>
  The first eight bytes of the key, or all of it where that is not on a character boundary or the
  key is shorter.\<close>

definition forgejo_repo_name :: "string \<Rightarrow> string \<Rightarrow> string" where
  "forgejo_repo_name ident pubkey =
     (let suffix = (if 8 \<le> length pubkey \<and> is_char_boundary pubkey 8 then take 8 pubkey else pubkey)
      in ident @ ''--'' @ suffix)"

text \<open>
  What \<open>finalize_outbox_job\<close> and \<open>handle_announcement_event_with_storage\<close> share: the record of the
  announcement, the repository on the Forgejo side (found or created by \<open>ensure_forgejo\<close>, with its
  web hook), the mapping, the bare repository.\<close>

definition enter_announcement ::
  "('r, 'w) coordinator \<Rightarrow> (repo_announcement \<Rightarrow> 'w \<Rightarrow> (forgejo_error, forgejo_repo_info, 'w) st_result) \<Rightarrow>
   coordinator_event \<Rightarrow> 'r \<times> 'w \<Rightarrow> (coordinator_event_error, coordinator_action, 'r \<times> 'w) st_result" where
  "enter_announcement c ensure_forgejo e s =
     st_then (parse_event (cd_url_parse c) e, s) (\<lambda>parsed s.
       case parsed of
         RepoAnnouncementEvent a \<Rightarrow>
           st_then (map_err EventStorage (announcement_record_new (cd_hex_decode c) (ce_event_id e) (ce_pubkey e)
               (ce_created_at e) a), s) (\<lambda>rec s.
           st_then (st_map_err EventStorage (on_repo (cd_insert_announcement c rec) s)) (\<lambda>_ s.
           st_then (st_map_err EventForgejo (on_world (ensure_forgejo a) s)) (\<lambda>repo s.
           st_then (map_err EventMapping (repo_mapping_new (fi_owner repo) (fi_name repo) (ce_pubkey e)
               (ann_identifier a)), s) (\<lambda>mapping s.
           st_then (st_map_err EventStorage (on_repo (cd_upsert_mapping c
               \<lparr>mp_forgejo_owner = fr_owner (rm_forgejo mapping), mp_forgejo_repo = fr_name (rm_forgejo mapping),
                mp_pubkey = rr_pubkey rec, mp_identifier = rm_identifier mapping\<rparr>) s)) (\<lambda>_ s.
           on_world (handle_announcement_event c e) s)))))
       | _ \<Rightarrow> (Ok Ignored, s))"

definition handle_announcement_event_with_storage ::
  "('r, 'w) coordinator \<Rightarrow> coordinator_event \<Rightarrow> 'r \<times> 'w \<Rightarrow>
   (coordinator_event_error, coordinator_action, 'r \<times> 'w) st_result" where
  "handle_announcement_event_with_storage c e =
     enter_announcement c (\<lambda>a w.
       st_then (ensure_repo (cd_forgejo c) (forgejo_repo_name (ann_identifier a) (ce_pubkey e)) (ann_description a) w)
         (\<lambda>repo w. st_then (ensure_webhook (cd_forgejo c) (fi_name repo) w) (\<lambda>_ w. (Ok repo, w)))) e"

section \<open>The outbox\<close>

definition OUTBOX_RETRY_BASE_SECS :: int where "OUTBOX_RETRY_BASE_SECS = 30"
definition OUTBOX_RETRY_MAX_SECS :: int where "OUTBOX_RETRY_MAX_SECS = 30 * 60"

record signed_nostr_event =
  sn_id :: string
  sn_pubkey :: string
  sn_created_at :: int
  sn_kind :: u32
  sn_tags :: "tag list"
  sn_content :: string
  sn_sig :: string

definition signed_event_from_job :: "encoder \<Rightarrow> relay_publish_job \<Rightarrow> signed_nostr_event" where
  "signed_event_from_job enc job =
     \<lparr>sn_id = enc (pj_event_id job), sn_pubkey = enc (pj_pubkey job), sn_created_at = pj_created_at job,
      sn_kind = pj_kind job, sn_tags = pj_tags job, sn_content = pj_content job, sn_sig = enc (pj_sig job)\<rparr>"

definition relay_event_from_job :: "encoder \<Rightarrow> relay_publish_job \<Rightarrow> coordinator_event" where
  "relay_event_from_job enc job =
     \<lparr>ce_kind = pj_kind job, ce_event_id = enc (pj_event_id job), ce_pubkey = enc (pj_pubkey job),
      ce_created_at = pj_created_at job, ce_tags = pj_tags job\<rparr>"

definition retry_after :: "int \<Rightarrow> int \<Rightarrow> int" where
  "retry_after now attempt_count =
     (let attempt = max attempt_count 1;
          delay = min (saturate_i64 (OUTBOX_RETRY_BASE_SECS * attempt)) OUTBOX_RETRY_MAX_SECS
      in now + delay * 10 ^ 9)"

definition finalize_outbox_job ::
  "('r, 'w) coordinator \<Rightarrow> relay_publish_job \<Rightarrow> 'r \<times> 'w \<Rightarrow> (coordinator_event_error, unit, 'r \<times> 'w) st_result" where
  "finalize_outbox_job c job s =
     st_then (enter_announcement c (\<lambda>a w.
       st_then (ensure_repo_for_owner (cd_forgejo c) (pj_forgejo_owner job) (pj_forgejo_repo job) (ann_description a) w)
         (\<lambda>repo w. st_then (ensure_webhook_for_owner (cd_forgejo c) (pj_forgejo_owner job) (fi_name repo) w)
           (\<lambda>_ w. (Ok repo, w))))
       (relay_event_from_job (cd_hex_encode c) job) s) (\<lambda>_ s. (Ok (), s))"

text \<open>How a round of the loop went; after the first two the loop sleeps.\<close>

datatype round_outcome =
    RoundClaimFailed storage_error
  | RoundIdle
  | RoundMarkFailed relay_publish_job storage_error
  | RoundPublished relay_publish_job "(coordinator_event_error, unit) result option"
  | RoundPendingFailed relay_publish_job storage_error
  | RoundRetry relay_publish_job string

type_synonym 'w publisher = "string \<Rightarrow> signed_nostr_event \<Rightarrow> 'w \<Rightarrow> (string, unit, 'w) st_result"

definition outbox_round ::
  "('r, 'w) coordinator \<Rightarrow> 'w publisher \<Rightarrow> int \<Rightarrow> 'r \<times> 'w \<Rightarrow> round_outcome \<times> 'r \<times> 'w" where
  "outbox_round c publish now s =
     (let ops = cd_publish_repo c in
      case on_repo (po_claim ops now) s of
        (Inl err, s) \<Rightarrow> (RoundClaimFailed err, s)
      | (Inr None, s) \<Rightarrow> (RoundIdle, s)
      | (Inr (Some job), s) \<Rightarrow>
          (case on_world (publish (pj_relay_url job) (signed_event_from_job (cd_hex_encode c) job)) s of
             (Inr _, s) \<Rightarrow>
               (case on_repo (po_succeeded ops (pj_id job)) s of
                  (Inl err, s) \<Rightarrow> (RoundMarkFailed job err, s)
                | (Inr _, s) \<Rightarrow>
                    (case po_pending ops (pj_pubkey job) (pj_identifier job) (pj_kind job) (fst s) of
                       Inl err \<Rightarrow> (RoundPendingFailed job err, s)
                     | Inr n \<Rightarrow>
                         (if n = 0
                          then (case finalize_outbox_job c job s of (r, s) \<Rightarrow> (RoundPublished job (Some r), s))
                          else (RoundPublished job None, s))))
           | (Inl err, s) \<Rightarrow>
               (case on_repo (po_failed ops (pj_id job) err (retry_after now (pj_attempt_count job))) s of
                  (_, s) \<Rightarrow> (RoundRetry job err, s))))"

text \<open>The loop, one instant per round.\<close>

primrec outbox_rounds ::
  "('r, 'w) coordinator \<Rightarrow> 'w publisher \<Rightarrow> int list \<Rightarrow> 'r \<times> 'w \<Rightarrow> round_outcome list \<times> 'r \<times> 'w" where
  "outbox_rounds c publish [] s = ([], s)"
| "outbox_rounds c publish (now # nows) s =
     (case outbox_round c publish now s of (outcome, s) \<Rightarrow>
      case outbox_rounds c publish nows s of (outcomes, s) \<Rightarrow> (outcome # outcomes, s))"

section \<open>The interface\<close>

record coordinator_event_payload =
  cy_kind :: nat
  cy_event_id :: string
  cy_pubkey :: string
  cy_created_at :: int
  cy_tags :: "tag list"

datatype coordinator_http_error = HttpBadRequest string | HttpInternal string

fun http_error_from :: "coordinator_event_error \<Rightarrow> coordinator_http_error" where
  "http_error_from (EventParse message) = HttpBadRequest message"
| "http_error_from EventMissingNpub = HttpBadRequest ''missing npub''"
| "http_error_from (EventPlan err) = HttpInternal (provision_plan_error_display err)"
| "http_error_from (EventInit err) = HttpInternal (repo_init_error_display err)"
| "http_error_from (EventHooks err) = HttpInternal (hook_install_error_display err)"
| "http_error_from (EventStorage err) = HttpInternal (storage_error_display err)"
| "http_error_from (EventForgejo err) = HttpInternal (forgejo_error_display err)"
| "http_error_from (EventMapping err) = HttpInternal (core_error_display err)"

fun http_error_response :: "coordinator_http_error \<Rightarrow> nat \<times> string" where
  "http_error_response (HttpBadRequest message) = (400, message)"
| "http_error_response (HttpInternal message) = (500, message)"

text \<open>The action as it is sent back has the same constructors; paths are UTF-8 and print as they are.\<close>

definition announcement_handler ::
  "('r, 'w) coordinator \<Rightarrow> coordinator_event_payload \<Rightarrow> 'r \<times> 'w \<Rightarrow>
   (coordinator_http_error, coordinator_action, 'r \<times> 'w) st_result" where
  "announcement_handler c payload s =
     (if cy_kind payload \<ge> 2 ^ 32 then (Err (HttpBadRequest ''invalid kind''), s)
      else st_map_err http_error_from (handle_announcement_event_with_storage c
        \<lparr>ce_kind = of_nat (cy_kind payload), ce_event_id = cy_event_id payload, ce_pubkey = cy_pubkey payload,
         ce_created_at = cy_created_at payload, ce_tags = cy_tags payload\<rparr> s))"

section \<open>The rounds of the worker\<close>

lemma outbox_round_cases:
  assumes "outbox_round c publish now s = (outcome, s')"
  obtains
    (claim_failed) err r where "po_claim (cd_publish_repo c) now (fst s) = (Err err, r)"
      and "outcome = RoundClaimFailed err" and "s' = (r, snd s)"
  | (idle) r where "po_claim (cd_publish_repo c) now (fst s) = (Ok None, r)"
      and "outcome = RoundIdle" and "s' = (r, snd s)"
  | (refused) job r err w x r' where "po_claim (cd_publish_repo c) now (fst s) = (Ok (Some job), r)"
      and "publish (pj_relay_url job) (signed_event_from_job (cd_hex_encode c) job) (snd s) = (Err err, w)"
      and "po_failed (cd_publish_repo c) (pj_id job) err (retry_after now (pj_attempt_count job)) r = (x, r')"
      and "outcome = RoundRetry job err" and "s' = (r', w)"
  | (mark_failed) job r w err r' where "po_claim (cd_publish_repo c) now (fst s) = (Ok (Some job), r)"
      and "publish (pj_relay_url job) (signed_event_from_job (cd_hex_encode c) job) (snd s) = (Ok (), w)"
      and "po_succeeded (cd_publish_repo c) (pj_id job) r = (Err err, r')"
      and "outcome = RoundMarkFailed job err" and "s' = (r', w)"
  | (open_jobs) job r w r' where "po_claim (cd_publish_repo c) now (fst s) = (Ok (Some job), r)"
      and "publish (pj_relay_url job) (signed_event_from_job (cd_hex_encode c) job) (snd s) = (Ok (), w)"
      and "po_succeeded (cd_publish_repo c) (pj_id job) r = (Ok (), r')" and "s' = (r', w)"
      and "\<And>res. outcome \<noteq> RoundPublished job (Some res)" and "outcome \<noteq> RoundIdle"
      and "\<And>j res. outcome = RoundPublished j res \<Longrightarrow> res = None"
  | (complete) job r w r' res where "po_claim (cd_publish_repo c) now (fst s) = (Ok (Some job), r)"
      and "publish (pj_relay_url job) (signed_event_from_job (cd_hex_encode c) job) (snd s) = (Ok (), w)"
      and "po_succeeded (cd_publish_repo c) (pj_id job) r = (Ok (), r')"
      and "po_pending (cd_publish_repo c) (pj_pubkey job) (pj_identifier job) (pj_kind job) r' = Ok 0"
      and "finalize_outbox_job c job (r', w) = (res, s')" and "outcome = RoundPublished job (Some res)"
proof -
  let ?ops = "cd_publish_repo c"
  obtain x r where claim: "po_claim ?ops now (fst s) = (x, r)" by force
  show thesis
  proof (cases x)
    case (Inl err)
    then show ?thesis using assms claim claim_failed by (simp add: outbox_round_def on_repo_def)
  next
    case (Inr found)
    show ?thesis
    proof (cases found)
      case None
      then show ?thesis using assms claim Inr idle by (simp add: outbox_round_def on_repo_def)
    next
      case (Some job)
      obtain y w where pub: "publish (pj_relay_url job) (signed_event_from_job (cd_hex_encode c) job) (snd s) = (y, w)"
        by force
      show ?thesis
      proof (cases y)
        case (Inl err)
        then show ?thesis using assms claim Inr Some pub refused
          by (auto simp: outbox_round_def on_repo_def on_world_def split: prod.splits)
      next
        case (Inr u)
        obtain z r' where mark: "po_succeeded ?ops (pj_id job) r = (z, r')" by force
        obtain n where n: "po_pending ?ops (pj_pubkey job) (pj_identifier job) (pj_kind job) r' = n" by blast
        show ?thesis
          using assms claim \<open>x = Inr found\<close> Some pub Inr mark n mark_failed open_jobs complete
          by (auto simp: outbox_round_def on_repo_def on_world_def split: prod.splits sum.splits if_splits)
      qed
    qed
  qed
qed

section \<open>The worker over any repository\<close>

text \<open>
  A repository whose entries of announcements and mappings leave the outbox alone; with
  \<open>reliable_repo\<close>, one that does not fail on jobs it has.\<close>

locale coordinator_repo = publish_queue "cd_publish_repo c" inv view
  for c :: "('r, 'w) coordinator" and inv :: "'r \<Rightarrow> bool" and view :: "'r \<Rightarrow> int \<Rightarrow> outbox_entry option" +
  assumes insert_announcement_keeps:
      "inv r \<Longrightarrow> inv (snd (cd_insert_announcement c a r)) \<and> view (snd (cd_insert_announcement c a r)) = view r"
    and upsert_mapping_keeps:
      "inv r \<Longrightarrow> inv (snd (cd_upsert_mapping c m r)) \<and> view (snd (cd_upsert_mapping c m r)) = view r"
begin

abbreviation keeps :: "'r \<Rightarrow> 'r \<times> 'w \<Rightarrow> bool" where
  "keeps r s \<equiv> inv (fst s) \<and> view (fst s) = view r"

lemma keeps_then: "keeps r (snd x) \<Longrightarrow> (\<And>y s. keeps r s \<Longrightarrow> keeps r (snd (f y s))) \<Longrightarrow> keeps r (snd (st_then x f))"
  by (rule st_then_keeps [of "keeps r"]) auto

lemma keeps_world: "keeps r s \<Longrightarrow> keeps r (snd (on_world f s))"
  by (simp add: on_world_def split: prod.split)

lemma keeps_announcement: "keeps r s \<Longrightarrow> keeps r (snd (on_repo (cd_insert_announcement c a) s))"
  using insert_announcement_keeps [of "fst s" a]
  by (cases "cd_insert_announcement c a (fst s)") (simp add: on_repo_def)

lemma keeps_mapping: "keeps r s \<Longrightarrow> keeps r (snd (on_repo (cd_upsert_mapping c m) s))"
  using upsert_mapping_keeps [of "fst s" m]
  by (cases "cd_upsert_mapping c m (fst s)") (simp add: on_repo_def)

lemma enter_announcement_keeps: "keeps r s \<Longrightarrow> keeps r (snd (enter_announcement c f e s))"
proof -
  assume s: "keeps r s"
  have ann: "keeps r s \<Longrightarrow> keeps r (snd (st_map_err g (on_repo (cd_insert_announcement c a) s)))" for s a g
    using keeps_announcement by (simp only: st_map_err_simps)
  have map: "keeps r s \<Longrightarrow> keeps r (snd (st_map_err g (on_repo (cd_upsert_mapping c m) s)))" for s m g
    using keeps_mapping by (simp only: st_map_err_simps)
  have world: "keeps r s \<Longrightarrow> keeps r (snd (st_map_err g (on_world h s)))" for s h g
    using keeps_world by (simp only: st_map_err_simps)
  show ?thesis
    unfolding enter_announcement_def
    apply (rule keeps_then, use s in simp)
    subgoal for parsed s
      apply (cases parsed)
             apply simp_all
      apply (rule keeps_then, simp)
      apply (rule keeps_then, erule ann)
      apply (rule keeps_then, erule world)
      apply (rule keeps_then, simp)
      apply (rule keeps_then, erule map)
      apply (erule keeps_world)
      done
    done
qed

lemma finalize_keeps: "keeps r s \<Longrightarrow> keeps r (snd (finalize_outbox_job c job s))"
  unfolding finalize_outbox_job_def by (rule keeps_then, erule enter_announcement_keeps) simp

lemma claim_keeps_inv: "inv r \<Longrightarrow> po_claim (cd_publish_repo c) now r = (x, r') \<Longrightarrow> inv r'"
  using claim_inv [of r now] by simp

lemma succeeded_keeps_inv: "inv r \<Longrightarrow> po_succeeded (cd_publish_repo c) i r = (x, r') \<Longrightarrow> inv r'"
  using succeeded_inv [of r i] by simp

text \<open>A relay took the event and the repository recorded that.\<close>

lemma published_view:
  assumes "inv r" and "po_claim (cd_publish_repo c) now r = (Ok (Some job), r1)"
    and "po_succeeded (cd_publish_repo c) (pj_id job) r1 = (Ok (), r2)"
  obtains entry entry' where "view r (pj_id job) = Some entry" and "due now entry"
    and "view r2 = (view r)(pj_id job \<mapsto> entry')" and "oe_status entry' = Published"
proof -
  obtain entry where entry: "view r (pj_id job) = Some entry" "due now entry"
    and r1: "view r1 = (view r)(pj_id job \<mapsto> claim_entry now entry)"
    using claim_Some [OF assms(1,2)] by blast
  have "view r2 = (view r1)(pj_id job \<mapsto> (claim_entry now entry)\<lparr>oe_status := Published, oe_last_error := None\<rparr>)"
    using succeeded [OF claim_keeps_inv [OF assms(1,2)] assms(3)] r1 by simp
  then show thesis using that entry r1 by simp
qed

text \<open>
  An announcement is entered only when the round has published the last job of its event: no job
  with its author, identifier and kind is left open.\<close>

lemma complete_round:
  assumes "inv (fst s)" and "outbox_round c publish now s = (RoundPublished job (Some res), s')"
    and "view (fst s') i = Some entry"
  shows "\<not> counts_as_pending (pj_pubkey job) (pj_identifier job) (pj_kind job) entry"
  using assms(2)
proof (cases rule: outbox_round_cases)
  case (complete job' r w r' res')
  then have inv: "inv r'"
    using assms(1) claim_keeps_inv succeeded_keeps_inv by metis
  then have "view (fst s') = view r'"
    using finalize_keeps [where r = r' and s = "(r', w)" and job = job'] complete(5) by simp
  then show ?thesis
    using pending [OF inv complete(4)] assms(3) complete(6) by auto
next
  case (open_jobs job' r w r')
  from open_jobs(7) [OF refl] show ?thesis by simp
qed simp_all

lemma round_inv:
  assumes "inv (fst s)" and "outbox_round c publish now s = (outcome, s')"
  shows "inv (fst s')"
  using assms(2)
proof (cases rule: outbox_round_cases)
  case (refused job r err w x r')
  then show ?thesis
    using claim_keeps_inv [OF assms(1)] failed_inv [of r "pj_id job" err "retry_after now (pj_attempt_count job)"] by simp
next
  case (complete job r w r' res)
  then have "inv r'" using assms(1) claim_keeps_inv succeeded_keeps_inv by metis
  then show ?thesis using finalize_keeps [where r = r' and s = "(r', w)" and job = job] complete(5) by simp
next
  case (mark_failed job r w err r')
  then show ?thesis using succeeded_keeps_inv [OF claim_keeps_inv [OF assms(1) mark_failed(1)] mark_failed(3)] by simp
next
  case (open_jobs job r w r')
  then show ?thesis using succeeded_keeps_inv [OF claim_keeps_inv [OF assms(1) open_jobs(1)] open_jobs(3)] by simp
next
  case (claim_failed err r)
  then show ?thesis using claim_keeps_inv [OF assms(1) claim_failed(1)] by simp
next
  case (idle r)
  then show ?thesis using claim_keeps_inv [OF assms(1) idle(1)] by simp
qed

end

text \<open>A repository that does not fail on what it has.\<close>

locale reliable_repo = coordinator_repo +
  assumes claim_total: "inv r \<Longrightarrow> \<exists>found r'. po_claim (cd_publish_repo c) now r = (Ok found, r')"
    and succeeded_total: "inv r \<Longrightarrow> view r i = Some entry \<Longrightarrow> \<exists>r'. po_succeeded (cd_publish_repo c) i r = (Ok (), r')"
begin

lemma accepted_round:
  assumes inv: "inv (fst s)" and relay: "\<And>url e w. \<exists>w'. publish url e w = (Ok (), w')"
    and round: "outbox_round c publish now s = (outcome, s')"
  shows "(view (fst s') = view (fst s) \<and> (\<forall>i entry. view (fst s) i = Some entry \<longrightarrow> \<not> due now entry)) \<or>
    (\<exists>i entry entry'. view (fst s) i = Some entry \<and> due now entry \<and>
      view (fst s') = (view (fst s))(i \<mapsto> entry') \<and> oe_status entry' = Published)"
  using round
proof (cases rule: outbox_round_cases)
  case (claim_failed err r)
  then show ?thesis using claim_total [OF inv, of now] by simp
next
  case (idle r)
  then show ?thesis using claim_None [OF inv idle(1)] by simp
next
  case (refused job r err w x r')
  then show ?thesis using relay by (metis Inl_Inr_False prod.inject)
next
  case (mark_failed job r w err r')
  obtain entry where "view r (pj_id job) = Some entry" using claim_takes [OF inv mark_failed(1)] by blast
  then show ?thesis using succeeded_total [OF claim_keeps_inv [OF inv mark_failed(1)]] mark_failed(3)
    by (metis Inl_Inr_False prod.inject)
next
  case (open_jobs job r w r')
  then show ?thesis using published_view [OF inv open_jobs(1,3)] by (metis fst_conv)
next
  case (complete job r w r' res)
  have "inv r'" using succeeded_keeps_inv [OF claim_keeps_inv [OF inv complete(1)] complete(3)] .
  then have "view (fst s') = view r'"
    using finalize_keeps [where r = r' and s = "(r', w)" and job = job] complete(5) by simp
  then show ?thesis using published_view [OF inv complete(1,3)] by metis
qed

definition open_ids :: "'a \<Rightarrow> int set" where
  "open_ids r = {i. \<exists>entry. view r i = Some entry \<and> oe_status entry = PublishPending}"

lemma rounds_keep_published:
  assumes "inv (fst s)" and "\<And>url e w. \<exists>w'. publish url e w = (Ok (), w')"
    and "outbox_rounds c publish nows s = (outcomes, s')"
    and "view (fst s) i = Some entry" and "oe_status entry = Published"
  shows "\<exists>entry'. view (fst s') i = Some entry' \<and> oe_status entry' = Published"
  using assms(1,3-5)
proof (induction nows arbitrary: s outcomes entry)
  case (Cons now nows)
  obtain outcome mid where round: "outbox_round c publish now s = (outcome, mid)"
    by (rule prod.exhaust)
  obtain os where rest: "outbox_rounds c publish nows mid = (os, s')"
    using Cons.prems(2) round by (auto split: prod.splits)
  have "\<exists>entry'. view (fst mid) i = Some entry' \<and> oe_status entry' = Published"
    using accepted_round [OF Cons.prems(1) assms(2) round] Cons.prems(3,4)
    by (elim disjE exE conjE) (auto simp: due_def)
  then show ?case
    using Cons.IH [OF round_inv [OF Cons.prems(1) round] rest] by blast
qed auto

lemma drained:
  assumes "inv (fst s)" and relay: "\<And>url e w. \<exists>w'. publish url e w = (Ok (), w')"
    and "outbox_rounds c publish nows s = (outcomes, s')"
    and "\<forall>now \<in> set nows. t \<le> now" and "card (open_ids (fst s)) \<le> length nows"
    and "view (fst s) i = Some entry" and "due t entry"
  shows "\<exists>entry'. view (fst s') i = Some entry' \<and> oe_status entry' = Published"
  using assms(1,3-7)
proof (induction nows arbitrary: s outcomes)
  case Nil
  have "finite (open_ids (fst s))"
    using finite_view [OF Nil.prems(1)] by (rule rev_finite_subset) (auto simp: open_ids_def)
  then show ?case using Nil by (auto simp: open_ids_def due_def)
next
  case (Cons now nows)
  obtain outcome mid where round: "outbox_round c publish now s = (outcome, mid)"
    by (rule prod.exhaust)
  obtain os where rest: "outbox_rounds c publish nows mid = (os, s')"
    using Cons.prems(2) round by (auto split: prod.splits)
  have inv': "inv (fst mid)" by (rule round_inv [OF Cons.prems(1) round])
  have "due now entry" using Cons.prems(3,6) by (auto simp: due_def)
  then obtain j other other' where j: "view (fst s) j = Some other" "due now other"
      "view (fst mid) = (view (fst s))(j \<mapsto> other')" "oe_status other' = Published"
    using accepted_round [OF Cons.prems(1) relay round] Cons.prems(5) by blast
  show ?case
  proof (cases "j = i")
    case True
    then show ?thesis using rounds_keep_published [OF inv' relay rest, of i other'] j by simp
  next
    case False
    have "open_ids (fst mid) = open_ids (fst s) - {j}" "j \<in> open_ids (fst s)"
      using j by (auto simp: open_ids_def due_def)
    moreover have "finite (open_ids (fst s))"
      using finite_view [OF Cons.prems(1)] by (rule rev_finite_subset) (auto simp: open_ids_def)
    ultimately have "card (open_ids (fst mid)) \<le> length nows" using Cons.prems(4) by simp
    then show ?thesis
      using Cons.IH [OF inv' rest] Cons.prems(3,5,6) j(3) False by simp
  qed
qed

end

section \<open>The coordinator over the in-memory repositories\<close>

record memory_repos =
  mm_outbox :: outbox
  mm_directory :: in_memory_directory

definition lift_outbox ::
  "(outbox \<Rightarrow> ('e, 'a, outbox) st_result) \<Rightarrow> memory_repos \<Rightarrow> ('e, 'a, memory_repos) st_result" where
  "lift_outbox f m = (case f (mm_outbox m) of (x, ob) \<Rightarrow> (x, m\<lparr>mm_outbox := ob\<rparr>))"

definition memory_publish_ops :: "hex_decoder \<Rightarrow> memory_repos publish_repo_ops" where
  "memory_publish_ops dec =
     \<lparr>po_enqueue = (\<lambda>request now. lift_outbox (enqueue_relay_publish dec request now)),
      po_claim = (\<lambda>now. lift_outbox (claim_relay_publish now)),
      po_succeeded = (\<lambda>i. lift_outbox (mark_relay_publish_succeeded i)),
      po_failed = (\<lambda>i err t. lift_outbox (mark_relay_publish_failed i err t)),
      po_pending = (\<lambda>pubkey ident kind m. pending_relay_publishes pubkey ident kind (mm_outbox m))\<rparr>"

definition memory_coordinator ::
  "string \<Rightarrow> hook_install_config \<Rightarrow> 'w forgejo_client \<Rightarrow> 'w system_ops \<Rightarrow> encoder \<Rightarrow> hex_decoder \<Rightarrow>
   bech32_decoder \<Rightarrow> url_parser \<Rightarrow> (memory_repos, 'w) coordinator" where
  "memory_coordinator root hooks forgejo sys enc dec bech32_decode url_parse =
     \<lparr>cd_publish_repo = memory_publish_ops dec,
      cd_insert_announcement = (\<lambda>r m. (Ok (), m\<lparr>mm_directory := insert_announcement enc r (mm_directory m)\<rparr>)),
      cd_upsert_mapping = (\<lambda>r m. (Ok (), m\<lparr>mm_directory := upsert_mapping enc r (mm_directory m)\<rparr>)),
      cd_repo_root = root, cd_hooks = hooks, cd_forgejo = forgejo, cd_system = sys, cd_hex_encode = enc,
      cd_hex_decode = dec, cd_bech32_decode = bech32_decode, cd_url_parse = url_parse\<rparr>"

abbreviation memory_inv :: "memory_repos \<Rightarrow> bool" where
  "memory_inv m \<equiv> outbox_inv (mm_outbox m)"

abbreviation memory_view :: "memory_repos \<Rightarrow> int \<Rightarrow> outbox_entry option" where
  "memory_view m \<equiv> outbox_view (mm_outbox m)"

lemma lift_outbox_eq:
  "lift_outbox f m = (x, m') \<longleftrightarrow> (\<exists>ob. f (mm_outbox m) = (x, ob) \<and> m' = m\<lparr>mm_outbox := ob\<rparr>)"
  "mm_outbox (snd (lift_outbox f m)) = snd (f (mm_outbox m))"
  "mm_directory (snd (lift_outbox f m)) = mm_directory m"
  by (auto simp: lift_outbox_def split: prod.split)

lemma memory_ops_sel [simp]:
  "cd_publish_repo (memory_coordinator root hooks forgejo sys enc dec b32 up) = memory_publish_ops dec"
  "po_claim (memory_publish_ops dec) now = lift_outbox (claim_relay_publish now)"
  "po_succeeded (memory_publish_ops dec) i = lift_outbox (mark_relay_publish_succeeded i)"
  "po_failed (memory_publish_ops dec) i err t = lift_outbox (mark_relay_publish_failed i err t)"
  "po_pending (memory_publish_ops dec) pubkey ident kind m = pending_relay_publishes pubkey ident kind (mm_outbox m)"
  by (simp_all add: memory_coordinator_def memory_publish_ops_def)

lemma memory_publish_queue: "publish_queue (memory_publish_ops dec) memory_inv memory_view"
proof
  fix s
  assume inv: "memory_inv s"
  show "finite (dom (memory_view s))" by (rule memory_outbox.finite_view [OF inv])
  show "pj_id (oe_job entry) = i" if "memory_view s i = Some entry" for i entry
    using memory_outbox.job_id [OF inv that] .
  show "memory_inv (snd (po_claim (memory_publish_ops dec) now s))" for now
    using outbox_claim(1) [OF inv] by (simp add: lift_outbox_eq)
  show "memory_inv (snd (po_succeeded (memory_publish_ops dec) i s))" for i
    using memory_outbox.succeeded_inv [OF inv, where i = i] by (simp add: lift_outbox_eq)
  show "memory_inv (snd (po_failed (memory_publish_ops dec) i err t s))" for i err t
    using memory_outbox.failed_inv [OF inv, where i = i and err = err and t = t] by (simp add: lift_outbox_eq)
next
  fix s s' now e
  assume "memory_inv s" and "po_claim (memory_publish_ops dec) now s = (Err e, s')"
  then show "memory_view s' = memory_view s" using outbox_claim(2) by (auto simp: lift_outbox_eq)
next
  fix s s' now i entry
  assume "memory_inv s" and "po_claim (memory_publish_ops dec) now s = (Ok None, s')"
  then show "memory_view s' = memory_view s \<and> (memory_view s i = Some entry \<longrightarrow> \<not> due now entry)"
    using outbox_claim(3) [of "mm_outbox s" now _ i entry] by (auto simp: lift_outbox_eq)
next
  fix s s' now job
  assume "memory_inv s" and "po_claim (memory_publish_ops dec) now s = (Ok (Some job), s')"
  then show "\<exists>entry. memory_view s (pj_id job) = Some entry \<and> due now entry \<and> job = oe_job (claim_entry now entry) \<and>
      memory_view s' = (memory_view s)(pj_id job \<mapsto> claim_entry now entry) \<and>
      (\<forall>j other. memory_view s j = Some other \<longrightarrow> due now other \<longrightarrow> pj_id job \<le> j)"
    using outbox_claim(4) [of "mm_outbox s" now job "mm_outbox s'"] by (auto simp: lift_outbox_eq)
next
  fix s s' i r
  assume "memory_inv s" and "po_succeeded (memory_publish_ops dec) i s = (r, s')"
  then show "memory_view s' = (case (r, memory_view s i) of
      (Inr _, Some entry) \<Rightarrow> (memory_view s)(i \<mapsto> entry\<lparr>oe_status := Published, oe_last_error := None\<rparr>)
    | _ \<Rightarrow> memory_view s)"
    using memory_outbox.succeeded [of "mm_outbox s" dec i r "mm_outbox s'"] by (auto simp: lift_outbox_eq)
next
  fix s s' i err t r
  assume "memory_inv s" and "po_failed (memory_publish_ops dec) i err t s = (r, s')"
  then show "memory_view s' = (case (r, memory_view s i) of
      (Inr _, Some entry) \<Rightarrow> (memory_view s)(i \<mapsto> entry\<lparr>oe_status := PublishPending,
        oe_job := (oe_job entry)\<lparr>pj_publish_after := t\<rparr>, oe_last_error := Some err\<rparr>)
    | _ \<Rightarrow> memory_view s)"
    using memory_outbox.failed [of "mm_outbox s" dec i err t r "mm_outbox s'"] by (auto simp: lift_outbox_eq)
next
  fix s pubkey ident kind n
  assume "memory_inv s" and "po_pending (memory_publish_ops dec) pubkey ident kind s = Ok n"
  then show "n = 0 \<longleftrightarrow> (\<forall>i entry. memory_view s i = Some entry \<longrightarrow> \<not> counts_as_pending pubkey ident kind entry)"
    using outbox_pending_zero [of "mm_outbox s" pubkey ident kind n] by simp
qed

interpretation memory: reliable_repo
  "memory_coordinator root hooks forgejo sys enc dec b32 up" memory_inv memory_view
proof -
  let ?c = "memory_coordinator root hooks forgejo sys enc dec b32 up"
  have queue: "publish_queue (cd_publish_repo ?c) memory_inv memory_view"
    using memory_publish_queue by simp
  have claim: "\<exists>found r'. po_claim (cd_publish_repo ?c) now r = (Ok found, r')" for now r
    by (simp add: lift_outbox_eq claim_relay_publish_def Let_def split: option.split)
  have succeeded: "\<exists>r'. po_succeeded (cd_publish_repo ?c) i r = (Ok (), r')" if "memory_view r i = Some entry" for i r entry
    using that by (simp add: lift_outbox_eq mark_relay_publish_succeeded_def outbox_update_def outbox_view_def)
  show "reliable_repo ?c memory_inv memory_view"
    by (intro reliable_repo.intro coordinator_repo.intro coordinator_repo_axioms.intro
        reliable_repo_axioms.intro queue claim succeeded) (simp_all add: memory_coordinator_def)
qed

section \<open>Properties\<close>


text \<open>
  An announcement is entered last: a round of the worker touches the records of announcements and
  mappings only when it has published the last open job of that event's author, identifier and
  kind.\<close>

theorem announcement_entered_last:
  assumes "outbox_exec dec calls new_outbox = (jobs, mm_outbox r)" and "int (length calls) \<le> i64_max"
    and "outbox_round (memory_coordinator root hooks forgejo sys enc dec b32 up) publish now (r, w) = (outcome, (r', w'))"
    and "mm_directory r' \<noteq> mm_directory r"
  shows "\<exists>job res. outcome = RoundPublished job (Some res) \<and>
    (\<forall>i entry. outbox_view (mm_outbox r') i = Some entry \<and> pj_pubkey (oe_job entry) = pj_pubkey job \<and>
      pj_identifier (oe_job entry) = pj_identifier job \<and> pj_kind (oe_job entry) = pj_kind job \<longrightarrow>
      oe_status entry = Published)"
proof -
  have inv: "outbox_inv (mm_outbox r)"
    using outbox_exec_inv [OF assms(1) outbox_inv_new] assms(2) by (simp add: new_outbox_def)
  obtain job res where outcome: "outcome = RoundPublished job (Some res)"
    using assms(3) by (cases rule: outbox_round_cases) (use assms(4) in \<open>auto simp: lift_outbox_eq(1)\<close>)
  then show ?thesis
    using memory.complete_round [of "(r, w)", OF _ assms(3) [unfolded outcome]] inv
    by (auto simp: counts_as_pending_def)
qed

text \<open>
  A job that a relay refused is tried again after thirty seconds at the earliest and half an hour
  at the latest, and never sooner after more attempts.\<close>

theorem retry_after_bounds:
  "now + 30 * 10 ^ 9 \<le> retry_after now n \<and> retry_after now n \<le> now + 1800 * 10 ^ 9 \<and>
   (n \<le> m \<longrightarrow> retry_after now n \<le> retry_after now m)"
proof -
  have "min (saturate_i64 (30 * max n 1)) 1800 \<le> min (saturate_i64 (30 * max m 1)) 1800" if "n \<le> m"
    using that by (auto simp: saturate_i64_def)
  moreover have "30 \<le> min (saturate_i64 (30 * max n 1)) 1800"
    by (auto simp: saturate_i64_def i64_max_def i64_min_def)
  ultimately show ?thesis
    by (auto simp: retry_after_def Let_def OUTBOX_RETRY_BASE_SECS_def OUTBOX_RETRY_MAX_SECS_def)
qed

theorem retry_after_bounds_witness: "retry_after 0 1 \<le> retry_after 0 (2 ^ 31 - 1)"
  using retry_after_bounds [of 0 1 "2 ^ 31 - 1"] by simp

text \<open>
  The bare repository of an announcement is the directory of its identifier below that of the
  owner's npub below the root -- unless the identifier starts with a slash: nothing refuses that, and
  the identifier is then itself the path, outside the root.\<close>

theorem provision_plan_path:
  assumes "build_provision_plan bech32_decode root npub a = Ok plan"
    and "root \<noteq> []" and "last root \<noteq> CHR ''/''" and "npub \<noteq> []" and "CHR ''/'' \<notin> set npub"
  shows "pv_repo_path plan =
    (if starts_with (ann_identifier a) ''/'' then ann_identifier a @ ''.git''
     else root @ ''/'' @ npub @ ''/'' @ ann_identifier a @ ''.git'')"
proof -
  have "\<not> prefix ''/'' npub" using assms(4,5) by (cases npub) simp_all
  then have first: "path_join root npub = root @ ''/'' @ npub"
    using assms(2,3) by (simp add: path_join_def starts_with_def)
  have "last npub \<noteq> CHR ''/''" using assms(4,5) last_in_set [of npub] by metis
  moreover have "prefix ''/'' (ident @ ''.git'') \<longleftrightarrow> prefix ''/'' ident" for ident :: string
    by (cases ident) simp_all
  ultimately have "path_join (root @ ''/'' @ npub) (ident @ ''.git'') =
      (if starts_with ident ''/'' then ident @ ''.git'' else root @ ''/'' @ npub @ ''/'' @ ident @ ''.git'')" for ident
    using assms(4) by (simp add: path_join_def starts_with_def)
  moreover have "pv_repo_path plan = path_join (path_join root npub) (ann_identifier a @ ''.git'')"
    using assms(1) unfolding build_provision_plan_def Let_def by (auto split: sum.splits)
  ultimately show ?thesis by (simp only: first)
qed

section \<open>Witnesses\<close>

definition sample_announcement :: "string \<Rightarrow> repo_announcement" where
  "sample_announcement ident =
     \<lparr>ann_identifier = ident, ann_name = None, ann_description = None, ann_root_commit = None,
      ann_clone = [''https://git.example/npub1x/app.git''], ann_web = [], ann_relays = [''wss://relay.example''],
      ann_blossoms = [], ann_hashtags = [], ann_maintainers = []\<rparr>"

lemma sample_escape:
  "is_ok (build_provision_plan (\<lambda>_. Some (''npub'', replicate 32 7)) ''/srv/git'' ''npub1x''
     (sample_announcement ''/etc/npub1x/app''))"
  by code_simp

theorem provision_plan_path_witness:
  "\<exists>plan. build_provision_plan (\<lambda>_. Some (''npub'', replicate 32 7)) ''/srv/git'' ''npub1x''
     (sample_announcement ''/etc/npub1x/app'') = Ok plan \<and> pv_repo_path plan = ''/etc/npub1x/app.git''"
proof -
  obtain plan where plan: "build_provision_plan (\<lambda>_. Some (''npub'', replicate 32 7)) ''/srv/git'' ''npub1x''
     (sample_announcement ''/etc/npub1x/app'') = Ok plan"
    using sample_escape unfolding is_ok_iff by blast
  have "pv_repo_path plan = ''/etc/npub1x/app.git''"
    using provision_plan_path [OF plan] by (simp add: sample_announcement_def starts_with_def)
  with plan show ?thesis by blast
qed

text \<open>A world that is nothing and a relay that takes everything.\<close>

definition quiet_client :: "unit forgejo_client" where
  "quiet_client =
     \<lparr>fo_config = \<lparr>fc_base_url = ''https://forge.example'', fc_api_token = ''t'', fc_owner = ''o'', fc_webhook_url = ''u'',
        fc_webhook_secret = ''s'', fc_repo_private = False\<rparr>,
      fo_send = (\<lambda>_ w. (Err (ForgejoRequestError ''off''), w)), fo_to_string = (\<lambda>_. []),
      fo_parse_repo = (\<lambda>_. Err []), fo_parse_user = (\<lambda>_. Err []), fo_parse_org = (\<lambda>_. Err []),
      fo_parse_pull = (\<lambda>_. Err []), fo_parse_hooks = (\<lambda>_. Err [])\<rparr>"

definition quiet_system :: "unit system_ops" where
  "quiet_system =
     \<lparr>sy_exists = (\<lambda>_ _. False), sy_is_dir = (\<lambda>_ _. False), sy_git = (\<lambda>_ w. (Err ''off'', w)),
      sy_create_dir_all = (\<lambda>_ w. (Err ''off'', w)), sy_copy = (\<lambda>_ _ w. (Err ''off'', w)),
      sy_metadata = (\<lambda>_ _. Err ''off''), sy_set_mode = (\<lambda>_ _ w. (Err ''off'', w))\<rparr>"

abbreviation sample_coordinator :: "(memory_repos, unit) coordinator" where
  "sample_coordinator \<equiv> memory_coordinator ''/srv/git'' \<lparr>hk_pre_receive_source = ''a'', hk_post_receive_source = ''b''\<rparr>
     quiet_client quiet_system bytes_to_hex (\<lambda>_. Some []) (\<lambda>_. None) (\<lambda>_. None)"

definition sample_repos :: memory_repos where
  "sample_repos = \<lparr>mm_outbox = sample_outbox, mm_directory = new_directory\<rparr>"

lemma sample_reached: "outbox_exec (\<lambda>_. Some []) sample_calls new_outbox =
    (fst (outbox_exec (\<lambda>_. Some []) sample_calls new_outbox), mm_outbox sample_repos)"
  by (simp add: sample_repos_def sample_outbox_def)

lemma sample_calls_few: "int (length sample_calls) \<le> i64_max"
  by (simp add: sample_calls_def i64_max_def)


definition sample_tags :: "tag list" where
  "sample_tags = announcement_to_tags (sample_announcement ''app'')"

definition announcing_calls :: "publish_call list" where
  "announcing_calls = [CallEnqueue ((sample_request ''ws://a'')\<lparr>pq_tags := sample_tags\<rparr>) 0]"

abbreviation announcing_coordinator :: "(memory_repos, unit) coordinator" where
  "announcing_coordinator \<equiv> memory_coordinator ''/srv/git'' \<lparr>hk_pre_receive_source = ''a'', hk_post_receive_source = ''b''\<rparr>
     quiet_client quiet_system (\<lambda>_. replicate 64 CHR ''a'') (\<lambda>_. Some []) (\<lambda>_. None) (\<lambda>_. None)"

definition announcing_repos :: memory_repos where
  "announcing_repos = \<lparr>mm_outbox = snd (outbox_exec (\<lambda>_. Some []) announcing_calls new_outbox), mm_directory = new_directory\<rparr>"

lemma announcing_outbox: "mm_outbox announcing_repos =
  \<lparr>ob_entries = [(1, \<lparr>oe_job = (job_of_entry 1 0 (sample_entry ''ws://a''))\<lparr>pj_tags := sample_tags\<rparr>,
     oe_status = PublishPending, oe_last_error = None\<rparr>)], ob_seq = 1\<rparr>"
proof -
  have blank: "\<not> blank ''ws://a''" "\<not> blank ''owner''" "\<not> blank ''repo''" "\<not> blank ''app''"
    by (rule not_blank_lead; simp)+
  show ?thesis
    using blank by (simp add: announcing_repos_def announcing_calls_def enqueue_relay_publish_def new_outbox_def
        next_outbox_id_def wrap_i64_def publish_request_decode_def sample_request_def sample_entry_def job_of_entry_def
        require_non_empty_def decode_hex_field_def HEX_32_LEN_def HEX_64_LEN_def)
qed

lemma announcing_valid: "announcement_validate (sample_announcement ''app'') = Ok ()"
proof -
  have "\<not> blank ''app''" "\<not> blank ''https://git.example/npub1x/app.git''" "\<not> blank ''wss://relay.example''"
    by (rule not_blank_lead; simp)+
  then show ?thesis by (simp add: announcement_validate_iff sample_announcement_def)
qed

lemma announcing_parse:
  "nip34_parse_validated (\<lambda>_. None) 30617 sample_tags = Ok (RepoAnnouncementEvent (sample_announcement ''app''))"
proof -
  have "announcement_from_tags sample_tags = Ok (sample_announcement ''app'')"
    unfolding sample_tags_def by (rule announcement_round_trip) (simp add: announcement_wf_def sample_announcement_def)
  then show ?thesis
    using announcing_valid
    by (auto simp: nip34_parse_validated_def and_then_eq_Ok nip34_parse_iff parses_to.simps)
qed

lemma announcing_finalize:
  assumes "pj_kind job = 30617" and "pj_tags job = sample_tags" and "mm_directory r = new_directory"
  shows "mm_directory (fst (snd (finalize_outbox_job announcing_coordinator job (r, ())))) \<noteq> new_directory"
proof -
  obtain hex :: string where hex: "hex = replicate 64 CHR ''a''" by blast
  then have "length hex = 64" by simp
  then have dec: "decode_hex_32 (\<lambda>_. Some []) field hex = Ok []" for field
    by (simp add: decode_hex_32_def HEX_32_LEN_def)
  show ?thesis
    using assms announcing_parse announcing_valid unfolding hex [symmetric]
    by (simp add: finalize_outbox_job_def enter_announcement_def parse_event_def relay_event_from_job_def
        memory_coordinator_def announcement_record_new_def dec on_repo_def on_world_def ensure_repo_for_owner_def
        get_repo_for_owner_def forgejo_get_def quiet_client_def st_map_err_def insert_announcement_def push_record_def
        new_directory_def)
qed

lemma announcing_round:
  "\<exists>job m. snd (outbox_round announcing_coordinator (\<lambda>_ _ w. (Ok (), w)) 0 (announcing_repos, ())) =
     snd (finalize_outbox_job announcing_coordinator job (m, ())) \<and> pj_kind job = 30617 \<and>
     pj_tags job = sample_tags \<and> mm_directory m = new_directory"
proof -
  obtain ob where ob: "announcing_repos = \<lparr>mm_outbox = ob, mm_directory = new_directory\<rparr>"
    by (simp add: announcing_repos_def)
  show ?thesis
    using announcing_outbox unfolding ob
    by (simp add: outbox_round_def on_repo_def on_world_def lift_outbox_def claim_relay_publish_def claim_step_def
        claim_entry_def job_of_entry_def sample_entry_def mark_relay_publish_succeeded_def outbox_update_def
        pending_relay_publishes_def counts_as_pending_def wrap_i64_def Let_def prod.case_eq_if)
      (intro exI conjI, rule refl, simp_all)
qed

theorem announcement_entered_last_witness:
  "\<exists>job res. fst (outbox_round announcing_coordinator (\<lambda>_ _ w. (Ok (), w)) 0 (announcing_repos, ())) =
     RoundPublished job (Some res)"
proof -
  obtain outcome r w where round: "outbox_round announcing_coordinator (\<lambda>_ _ w. (Ok (), w)) 0 (announcing_repos, ()) =
      (outcome, (r, w))" by (metis prod.exhaust)
  have reached: "outbox_exec (\<lambda>_. Some []) announcing_calls new_outbox =
      (fst (outbox_exec (\<lambda>_. Some []) announcing_calls new_outbox), mm_outbox announcing_repos)"
    by (simp add: announcing_repos_def)
  have few: "int (length announcing_calls) \<le> i64_max" by (simp add: announcing_calls_def i64_max_def)
  have "mm_directory r \<noteq> mm_directory announcing_repos"
    using announcing_round announcing_finalize round by (auto simp: announcing_repos_def) (metis fst_conv snd_conv)
  from announcement_entered_last [OF reached few round this] show ?thesis unfolding round by auto
qed

end
