(* ===== verification/Service_Settings.thy ===== *)
theory Service_Settings
  imports Config Coordinator
begin

text \<open>
  How the services read their settings: the storage of \<open>storage_from_env\<close>, which every service has a copy of,
  and \<open>from_env\<close> of the configurations of the coordinator, sync, state, admission and webhook services. The
  services differ in the name their errors start with and in the variables they ask for; an error of the storage
  settings is wrapped by the service.
\<close>

section \<open>Storage\<close>

datatype storage_config_error =
    StorageMissingEnv string
  | StorageInvalidEnv string string
  | StorageInvalidConfig string

fun storage_config_error_display :: "storage_config_error \<Rightarrow> string" where
  "storage_config_error_display (StorageMissingEnv key) = ''missing env '' @ key"
| "storage_config_error_display (StorageInvalidEnv key v) = ''invalid env '' @ key @ '': '' @ v"
| "storage_config_error_display (StorageInvalidConfig message) = message"

definition env_number :: "environment \<Rightarrow> nat \<Rightarrow> string \<Rightarrow> (storage_config_error, nat option) result" where
  "env_number env width key =
     (case env key of
        None \<Rightarrow> Ok None
      | Some v \<Rightarrow>
          (if blank v then Ok None
           else case parse_unsigned width v of
             Some n \<Rightarrow> Ok (Some n)
           | None \<Rightarrow> Err (StorageInvalidEnv key v)))"

definition env_u32 :: "environment \<Rightarrow> string \<Rightarrow> (storage_config_error, u32 option) result" where
  "env_u32 env key = map_ok (map_option of_nat) (env_number env 32 key)"

definition env_u64 :: "environment \<Rightarrow> string \<Rightarrow> (storage_config_error, nat option) result" where
  "env_u64 env key = env_number env 64 key"

definition storage_from_env :: "environment \<Rightarrow> (storage_config_error, storage_config) result" where
  "storage_from_env env =
     and_then (ok_or (StorageMissingEnv ''GITTREE_STORAGE_READ_URL'') (env ''GITTREE_STORAGE_READ_URL''))
       (\<lambda>read_connection.
     and_then (env_u32 env ''GITTREE_STORAGE_MAX_CONNECTIONS'') (\<lambda>max_connections.
     and_then (env_u32 env ''GITTREE_STORAGE_MIN_CONNECTIONS'') (\<lambda>min_connections.
     and_then (env_u64 env ''GITTREE_STORAGE_IDLE_TIMEOUT_SECS'') (\<lambda>idle_timeout_secs.
     and_then (env_u64 env ''GITTREE_STORAGE_MAX_LIFETIME_SECS'') (\<lambda>max_lifetime_secs.
       let config =
         \<lparr>st_read_connection = read_connection, st_write_connection = env ''GITTREE_STORAGE_WRITE_URL'',
          st_max_connections = (case max_connections of Some n \<Rightarrow> n | None \<Rightarrow> 10),
          st_min_connections = (case min_connections of Some n \<Rightarrow> n | None \<Rightarrow> 2),
          st_idle_timeout_secs = idle_timeout_secs, st_max_lifetime_secs = max_lifetime_secs,
          st_application_name = env ''GITTREE_STORAGE_APP_NAME''\<rparr>
       in and_then (map_err (\<lambda>err. StorageInvalidConfig (storage_error_display err))
            (storage_config_validate config)) (\<lambda>_. Ok config))))))"

section \<open>Services\<close>

datatype service_config_error =
    ServiceConfigFailed config_error
  | ServiceStorage storage_config_error
  | ServiceMissingEnv string
  | ServiceInvalidEnv string string

fun service_config_error_display :: "string \<Rightarrow> service_config_error \<Rightarrow> string" where
  "service_config_error_display service (ServiceConfigFailed err) = service @ '' config error: '' @ config_error_display err"
| "service_config_error_display service (ServiceStorage err) =
     service @ '' storage config error: '' @ storage_config_error_display err"
| "service_config_error_display service (ServiceMissingEnv key) = ''missing env '' @ key"
| "service_config_error_display service (ServiceInvalidEnv key v) = ''invalid env '' @ key @ '': '' @ v"

type_synonym 'a settings = "(service_config_error, 'a) result"

text \<open>\<open>env_path\<close> of the coordinator and sync, and \<open>env_required_string\<close> of the webhook service.\<close>

definition env_path :: "environment \<Rightarrow> string \<Rightarrow> string settings" where
  "env_path env key =
     (case env key of
        None \<Rightarrow> Err (ServiceMissingEnv key)
      | Some v \<Rightarrow> if blank v then Err (ServiceInvalidEnv key v) else Ok v)"

record coordinator_config =
  cc_bind :: string
  cc_storage :: storage_config
  cc_relay_urls :: "string list"
  cc_repo_root :: string
  cc_hooks :: hook_install_config
  cc_forgejo :: forgejo_config

definition coordinator_config_from_env :: "url_parser \<Rightarrow> environment \<Rightarrow> coordinator_config settings" where
  "coordinator_config_from_env url_parse env =
     and_then (map_err ServiceConfigFailed (services_from_env_validated env)) (\<lambda>services.
     and_then (map_err ServiceStorage (storage_from_env env)) (\<lambda>storage.
     and_then (map_err ServiceConfigFailed (relay_targets_from_env_validated url_parse env)) (\<lambda>relay_targets.
     and_then (env_path env ''GITTREE_COORDINATOR_REPO_ROOT'') (\<lambda>repo_root.
     and_then (env_path env ''GITTREE_COORDINATOR_PRE_RECEIVE_HOOK'') (\<lambda>pre_receive.
     and_then (env_path env ''GITTREE_COORDINATOR_POST_RECEIVE_HOOK'') (\<lambda>post_receive.
     and_then (map_err ServiceConfigFailed (forgejo_config_from_env url_parse env)) (\<lambda>forgejo.
     Ok \<lparr>cc_bind = sc_bind (sv_coordinator services), cc_storage = storage,
         cc_relay_urls = rt_relay_urls relay_targets, cc_repo_root = repo_root,
         cc_hooks = \<lparr>hk_pre_receive_source = pre_receive, hk_post_receive_source = post_receive\<rparr>,
         cc_forgejo = forgejo\<rparr>)))))))"

record sync_config =
  sy_bind :: string
  sy_storage :: storage_config
  sy_relay_urls :: "string list"
  sy_repo_root :: string

definition sync_config_from_env :: "url_parser \<Rightarrow> environment \<Rightarrow> sync_config settings" where
  "sync_config_from_env url_parse env =
     and_then (map_err ServiceConfigFailed (services_from_env_validated env)) (\<lambda>services.
     and_then (map_err ServiceStorage (storage_from_env env)) (\<lambda>storage.
     and_then (map_err ServiceConfigFailed (relay_targets_from_env_validated url_parse env)) (\<lambda>relay_targets.
     and_then (env_path env ''GITTREE_SYNC_REPO_ROOT'') (\<lambda>repo_root.
     Ok \<lparr>sy_bind = sc_bind (sv_sync services), sy_storage = storage, sy_relay_urls = rt_relay_urls relay_targets,
         sy_repo_root = repo_root\<rparr>))))"

record state_config =
  sf_bind :: string
  sf_storage :: storage_config
  sf_relay_urls :: "string list"

definition state_config_from_env :: "url_parser \<Rightarrow> environment \<Rightarrow> state_config settings" where
  "state_config_from_env url_parse env =
     and_then (map_err ServiceConfigFailed (services_from_env_validated env)) (\<lambda>services.
     and_then (map_err ServiceStorage (storage_from_env env)) (\<lambda>storage.
     and_then (map_err ServiceConfigFailed (relay_targets_from_env_validated url_parse env)) (\<lambda>relay_targets.
     Ok \<lparr>sf_bind = sc_bind (sv_state services), sf_storage = storage, sf_relay_urls = rt_relay_urls relay_targets\<rparr>)))"

record webhook_config =
  wc_bind :: string
  wc_storage :: storage_config
  wc_sync_url :: string
  wc_forgejo_secret :: string

definition webhook_config_from_env :: "environment \<Rightarrow> webhook_config settings" where
  "webhook_config_from_env env =
     and_then (map_err ServiceConfigFailed (services_from_env_validated env)) (\<lambda>services.
     and_then (map_err ServiceStorage (storage_from_env env)) (\<lambda>storage.
     and_then (env_path env ''GITTREE_SYNC_URL'') (\<lambda>sync_url.
     and_then (env_path env ''GITTREE_FORGEJO_WEBHOOK_SECRET'') (\<lambda>forgejo_secret.
     Ok \<lparr>wc_bind = sc_bind (sv_webhook services), wc_storage = storage, wc_sync_url = sync_url,
         wc_forgejo_secret = forgejo_secret\<rparr>))))"

section \<open>One environment for all\<close>

lemma forgejo_config_env:
  assumes "forgejo_config_from_env url_parse env = Ok c"
  shows "env ''GITTREE_FORGEJO_WEBHOOK_SECRET'' = Some (fc_webhook_secret c)" "\<not> blank (fc_webhook_secret c)"
  using assms
  by (auto simp: forgejo_config_from_env_def env_required_string_def validated_def and_then_eq_Ok ok_or_def
      split: option.splits if_splits)

text \<open>
  Services started from one environment work on one system: a coordinator that starts can be joined by the
  sync, state and webhook services as soon as the directory of the repositories and the address of sync are set.
  They then share the storage and the relays, listen where the services' configuration says, and the webhook
  service checks signatures with the secret, never blank, that the coordinator gives to Forgejo.\<close>

theorem services_share_environment:
  assumes "coordinator_config_from_env url_parse env = Ok c"
    and "env ''GITTREE_SYNC_REPO_ROOT'' = Some root" and "\<not> blank root"
    and "env ''GITTREE_SYNC_URL'' = Some sync_url" and "\<not> blank sync_url"
  shows "\<exists>services. services_from_env_validated env = Ok services \<and> cc_bind c = sc_bind (sv_coordinator services) \<and>
    sync_config_from_env url_parse env =
      Ok \<lparr>sy_bind = sc_bind (sv_sync services), sy_storage = cc_storage c, sy_relay_urls = cc_relay_urls c, sy_repo_root = root\<rparr> \<and>
    state_config_from_env url_parse env =
      Ok \<lparr>sf_bind = sc_bind (sv_state services), sf_storage = cc_storage c, sf_relay_urls = cc_relay_urls c\<rparr> \<and>
    webhook_config_from_env env =
      Ok \<lparr>wc_bind = sc_bind (sv_webhook services), wc_storage = cc_storage c, wc_sync_url = sync_url,
          wc_forgejo_secret = fc_webhook_secret (cc_forgejo c)\<rparr> \<and>
    \<not> blank (fc_webhook_secret (cc_forgejo c))"
proof -
  from assms(1) obtain services storage targets where parts:
    "services_from_env_validated env = Ok services" "storage_from_env env = Ok storage"
    "relay_targets_from_env_validated url_parse env = Ok targets"
    "forgejo_config_from_env url_parse env = Ok (cc_forgejo c)"
    "cc_bind c = sc_bind (sv_coordinator services)" "cc_storage c = storage" "cc_relay_urls c = rt_relay_urls targets"
    by (auto simp: coordinator_config_from_env_def and_then_eq_Ok map_err_eq_Ok)
  with assms(2-5) forgejo_config_env [OF parts(4)] show ?thesis
    by (simp add: sync_config_from_env_def state_config_from_env_def webhook_config_from_env_def env_path_def)
qed

definition sample_environment :: environment where
  "sample_environment key =
     (if key \<in> {''GITTREE_STORAGE_READ_URL'', ''GITTREE_COORDINATOR_REPO_ROOT'', ''GITTREE_COORDINATOR_PRE_RECEIVE_HOOK'',
        ''GITTREE_COORDINATOR_POST_RECEIVE_HOOK'', ''GITTREE_FORGEJO_BASE_URL'', ''GITTREE_FORGEJO_API_TOKEN'',
        ''GITTREE_FORGEJO_OWNER'', ''GITTREE_FORGEJO_WEBHOOK_URL'', ''GITTREE_FORGEJO_WEBHOOK_SECRET'',
        ''GITTREE_SYNC_REPO_ROOT'', ''GITTREE_SYNC_URL''} then Some ''x'' else None)"

abbreviation sample_url_parse :: url_parser where
  "sample_url_parse \<equiv> \<lambda>_. Some \<lparr>url_scheme = ''https'', url_host_str = None, url_port = None, url_path = []\<rparr>"

lemma sample_environment_services: "services_from_env_validated sample_environment = Ok services_default"
proof -
  have "services_from_env sample_environment = services_default"
    by (simp add: sample_environment_def services_from_env_def services_default_def env_or_default_def)
  then show ?thesis by (simp add: services_from_env_validated_def validated_def default_services)
qed

lemma sample_environment_storage: "\<exists>storage. storage_from_env sample_environment = Ok storage"
  by (simp add: storage_from_env_def sample_environment_def env_u32_def env_u64_def env_number_def map_ok_def
      storage_config_validate_def ok_or_def ensure_def)

lemma sample_environment_webhook: "\<exists>config. webhook_config_from_env sample_environment = Ok config"
proof -
  have "\<not> blank ''x''" by (rule not_blank_lead) simp_all
  then show ?thesis
    using sample_environment_storage sample_environment_services
    by (auto simp: webhook_config_from_env_def env_path_def sample_environment_def)
qed

theorem services_share_environment_witness:
  "\<exists>c services. coordinator_config_from_env sample_url_parse sample_environment = Ok c \<and>
    services_from_env_validated sample_environment = Ok services \<and>
    webhook_config_from_env sample_environment =
      Ok \<lparr>wc_bind = sc_bind (sv_webhook services), wc_storage = cc_storage c, wc_sync_url = ''x'',
          wc_forgejo_secret = fc_webhook_secret (cc_forgejo c)\<rparr>"
proof -
  have blank: "\<not> blank ''x''" by (rule not_blank_lead) simp_all
  note sample_environment_storage
  moreover have "relay_targets_from_env_validated sample_url_parse sample_environment = Ok \<lparr>rt_relay_urls = []\<rparr>"
    by (simp add: relay_targets_from_env_validated_def relay_targets_from_env_def relay_targets_validate_def
        parse_relay_urls_def unwrap_or_def sample_environment_def validated_def)
  moreover have "\<exists>f. forgejo_config_from_env sample_url_parse sample_environment = Ok f"
    by (simp add: forgejo_config_from_env_def env_required_string_def env_bool_default_def sample_environment_def blank
        validated_def forgejo_config_validate_def validate_http_url_def ok_or_def ensure_def)
  ultimately obtain c where c: "coordinator_config_from_env sample_url_parse sample_environment = Ok c"
    by (auto simp: coordinator_config_from_env_def sample_environment_services env_path_def sample_environment_def blank)
  have "sample_environment ''GITTREE_SYNC_REPO_ROOT'' = Some ''x''" "sample_environment ''GITTREE_SYNC_URL'' = Some ''x''"
    by (simp_all add: sample_environment_def)
  from services_share_environment [OF c this(1) blank this(2) blank] c show ?thesis by blast
qed

end
