(* ===== verification/Sync.thy ===== *)
theory Sync
  imports Core_Repo_Events Service_Settings
begin

text \<open>
  The synchronisation service (\<open>services/sync/src/lib.rs\<close>): the
  plan that brings a repository's references to the announced state, its execution through git, the
  choice of relays, and the limit on repositories that are synchronised at once. A hash map is the
  list of its entries, a hash set the list of its elements. The delays of \<open>SyncScheduler\<close> are
  computed in floating point and are left out.
\<close>

section \<open>The interface\<close>

record ref_update_payload =
  ru_old :: string
  ru_new :: string
  ru_reference :: string

record post_receive_payload =
  py_pubkey :: string
  py_identifier :: string
  py_updates :: "ref_update_payload list"

record sync_ack_payload =
  ak_repo_path :: string
  ak_updates :: nat

datatype sync_http_error = SyncBadRequest string | SyncInternal string

fun sync_http_response :: "sync_http_error \<Rightarrow> nat \<times> string" where
  "sync_http_response (SyncBadRequest message) = (400, message)"
| "sync_http_response (SyncInternal message) = (500, message)"

definition encode_npub_bytes :: "(u8 list \<Rightarrow> string option) \<Rightarrow> u8 list \<Rightarrow> (sync_http_error, string) result" where
  "encode_npub_bytes bech32_encode_npub bytes =
     ok_or (SyncInternal ''npub encode failed'') (bech32_encode_npub bytes)"

definition npub_from_hex ::
  "(u8 list \<Rightarrow> string option) \<Rightarrow> hex_decoder \<Rightarrow> string \<Rightarrow> (sync_http_error, string) result" where
  "npub_from_hex bech32_encode_npub dec pubkey =
     and_then (ensure (length pubkey = 64) (SyncBadRequest ''invalid pubkey'')) (\<lambda>_.
     and_then (ok_or (SyncBadRequest ''invalid pubkey'') (dec pubkey)) (\<lambda>bytes.
     encode_npub_bytes bech32_encode_npub bytes))"

text \<open>\<open>None\<close> is the panic of \<open>expect\<close>.\<close>

definition post_receive_handler ::
  "(u8 list \<Rightarrow> string option) \<Rightarrow> hex_decoder \<Rightarrow> string \<Rightarrow> post_receive_payload \<Rightarrow>
   (sync_http_error, sync_ack_payload) result option" where
  "post_receive_handler bech32_encode_npub dec repo_root payload =
     (case repo_address_new (py_pubkey payload) (py_identifier payload) of
        Inl err \<Rightarrow> Some (Err (SyncBadRequest (''invalid repo address: '' @ core_error_display err)))
      | Inr address \<Rightarrow>
          (case npub_from_hex bech32_encode_npub dec (addr_pubkey address) of
             Inl _ \<Rightarrow> None
           | Inr npub \<Rightarrow> Some (Ok
               \<lparr>ak_repo_path = path_join (path_join repo_root npub) (addr_identifier address @ ''.git''),
                ak_updates = length (py_updates payload)\<rparr>)))"

section \<open>Plans\<close>

record ref_update_plan =
  up_reference :: string
  up_target :: string

record sync_plan =
  sp_identifier :: string
  sp_clone_urls :: "string list"
  sp_updates :: "ref_update_plan list"
  sp_deletions :: "string list"

record relay_selection =
  sl_relays :: "string list"
  sl_warnings :: "string list"

definition select_relay_urls :: "string list \<Rightarrow> relay_compatibility_record list \<Rightarrow> relay_selection" where
  "select_relay_urls configured compatibility =
     (let compatible = filter (\<lambda>url. list_ex (\<lambda>r. rc_relay_url r = url \<and> rc_compatible r) compatibility) configured
      in if compatible \<noteq> [] then \<lparr>sl_relays = compatible, sl_warnings = []\<rparr>
         else \<lparr>sl_relays = configured,
           sl_warnings = (if configured = [] then [''no relay urls configured'']
             else [''no compatible relays found; using configured list''])\<rparr>)"

definition build_sync_plan ::
  "repo_state \<Rightarrow> (string, string) entries \<Rightarrow> nostr_event list \<Rightarrow> string list \<Rightarrow> sync_plan" where
  "build_sync_plan st local_refs events maintainers =
     (let desired = ref_map st
      in \<lparr>sp_identifier = rs_identifier st,
          sp_clone_urls = collect_clone_urls events maintainers (rs_identifier st),
          sp_updates = map (\<lambda>(reference, target). \<lparr>up_reference = reference, up_target = target\<rparr>)
            (filter (\<lambda>(reference, target). map_of local_refs reference \<noteq> Some target) desired),
          sp_deletions = filter (\<lambda>reference. reference \<noteq> ''HEAD'' \<and> map_of desired reference = None)
            (map fst local_refs)\<rparr>)"

section \<open>Execution\<close>

datatype git_exec_error = ExecIo string | ExecTimeout | ExecInvalidPath string | ExecCommandFailed string

fun git_exec_error_display :: "git_exec_error \<Rightarrow> string" where
  "git_exec_error_display (ExecIo err) = ''git io error: '' @ err"
| "git_exec_error_display ExecTimeout = ''git command timed out''"
| "git_exec_error_display (ExecInvalidPath message) = message"
| "git_exec_error_display (ExecCommandFailed message) = message"

text \<open>The trait \<open>GitExecutor\<close>; times are milliseconds.\<close>

record 'w git_executor =
  gx_fetch :: "string \<Rightarrow> string \<Rightarrow> nat \<Rightarrow> 'w \<Rightarrow> (git_exec_error, unit, 'w) st_result"
  gx_update_ref :: "string \<Rightarrow> string \<Rightarrow> string \<Rightarrow> 'w \<Rightarrow> (git_exec_error, unit, 'w) st_result"
  gx_delete_ref :: "string \<Rightarrow> string \<Rightarrow> 'w \<Rightarrow> (git_exec_error, unit, 'w) st_result"

text \<open>
  A child process that is polled: the \<open>n\<close>-th poll either fails, or says that the child runs, or gives
  its exit status (and whether that is success); \<open>elapsed n\<close> is the time that has passed at that
  poll. The loop is given the number of the poll it is at and a bound on further polls; \<open>None\<close> means
  that the bound was reached.\<close>

type_synonym poll = "(string, (bool \<times> string) option) result"

primrec wait_loop :: "(nat \<Rightarrow> poll) \<Rightarrow> (nat \<Rightarrow> nat) \<Rightarrow> nat \<Rightarrow> nat \<Rightarrow> nat \<Rightarrow> (git_exec_error, unit) result option" where
  "wait_loop try_wait elapsed timeout n 0 = None"
| "wait_loop try_wait elapsed timeout n (Suc fuel) =
     (case try_wait n of
        Inl err \<Rightarrow> Some (Err (ExecIo err))
      | Inr (Some (success, status)) \<Rightarrow>
          Some (if success then Ok () else Err (ExecCommandFailed (''git command failed with status '' @ status)))
      | Inr None \<Rightarrow>
          (if elapsed n \<ge> timeout then Some (Err ExecTimeout)
           else wait_loop try_wait elapsed timeout (Suc n) fuel))"

text \<open>Running a command: how the child behaves is given by \<open>spawn\<close>, with the state it leaves.\<close>

type_synonym 'w spawner = "string list \<Rightarrow> 'w \<Rightarrow> (string, (nat \<Rightarrow> poll) \<times> (nat \<Rightarrow> nat), 'w) st_result"

definition run_with_timeout ::
  "'w spawner \<Rightarrow> nat \<Rightarrow> string list \<Rightarrow> nat \<Rightarrow> 'w \<Rightarrow> (git_exec_error, unit) result option \<times> 'w" where
  "run_with_timeout spawn fuel args timeout w =
     (case spawn args w of
        (Inl err, w) \<Rightarrow> (Some (Err (ExecIo err)), w)
      | (Inr (try_wait, elapsed), w) \<Rightarrow> (wait_loop try_wait elapsed timeout 0 fuel, w))"

definition path_to_str :: "string \<Rightarrow> (git_exec_error, string) result" where
  "path_to_str path = ok_or (ExecInvalidPath ''repo path is not utf-8'') (os_to_str path)"

definition fetch_args :: "string \<Rightarrow> string \<Rightarrow> string list" where
  "fetch_args repo_path remote = [''-C'', repo_path, ''fetch'', remote, ''--prune'']"

definition update_ref_args :: "string \<Rightarrow> string \<Rightarrow> string \<Rightarrow> string list" where
  "update_ref_args repo_path reference target = [''-C'', repo_path, ''update-ref'', reference, target]"

definition delete_ref_args :: "string \<Rightarrow> string \<Rightarrow> string list" where
  "delete_ref_args repo_path reference = [''-C'', repo_path, ''update-ref'', ''-d'', reference]"

record remote_fetch_result =
  rf_url :: string
  rf_success :: bool
  rf_error :: "string option"

record ref_change_result =
  rx_reference :: string
  rx_success :: bool
  rx_error :: "string option"

record sync_report =
  sx_remote_results :: "remote_fetch_result list"
  sx_update_results :: "ref_change_result list"
  sx_delete_results :: "ref_change_result list"

text \<open>A loop that goes on whatever a step returns and collects what it reports.\<close>

primrec run_all :: "('x \<Rightarrow> 'w \<Rightarrow> (git_exec_error, unit, 'w) st_result) \<Rightarrow> ('x \<Rightarrow> bool \<Rightarrow> string option \<Rightarrow> 'y) \<Rightarrow>
   'x list \<Rightarrow> 'w \<Rightarrow> 'y list \<times> 'w" where
  "run_all step report [] w = ([], w)"
| "run_all step report (x # xs) w =
     (case step x w of (r, w) \<Rightarrow>
      case run_all step report xs w of (ys, w) \<Rightarrow>
        ((case r of
            Inr _ \<Rightarrow> report x True None
          | Inl err \<Rightarrow> report x False (Some (git_exec_error_display err))) # ys, w))"

definition execute_sync_plan ::
  "'w git_executor \<Rightarrow> string \<Rightarrow> sync_plan \<Rightarrow> nat \<Rightarrow> 'w \<Rightarrow> sync_report \<times> 'w" where
  "execute_sync_plan executor repo_path plan timeout w =
     (let change = (\<lambda>reference success err. \<lparr>rx_reference = reference, rx_success = success, rx_error = err\<rparr>) in
      case run_all (\<lambda>remote. gx_fetch executor repo_path remote timeout)
        (\<lambda>remote success err. \<lparr>rf_url = remote, rf_success = success, rf_error = err\<rparr>) (sp_clone_urls plan) w of
        (remote_results, w) \<Rightarrow>
      case run_all (\<lambda>u. gx_update_ref executor repo_path (up_reference u) (up_target u))
        (\<lambda>u. change (up_reference u)) (sp_updates plan) w of
        (update_results, w) \<Rightarrow>
      case run_all (gx_delete_ref executor repo_path) change (sp_deletions plan) w of
        (delete_results, w) \<Rightarrow>
          (\<lparr>sx_remote_results = remote_results, sx_update_results = update_results,
            sx_delete_results = delete_results\<rparr>, w))"

section \<open>The limit on concurrent work\<close>

record sync_limiter =
  lm_max_concurrent :: nat
  lm_active :: "string list"

definition limiter_new :: "nat \<Rightarrow> sync_limiter" where
  "limiter_new max_concurrent = \<lparr>lm_max_concurrent = max max_concurrent 1, lm_active = []\<rparr>"

definition try_start :: "string \<Rightarrow> sync_limiter \<Rightarrow> bool \<times> sync_limiter" where
  "try_start key l =
     (if key \<in> set (lm_active l) then (False, l)
      else if length (lm_active l) \<ge> lm_max_concurrent l then (False, l)
      else (True, l\<lparr>lm_active := key # lm_active l\<rparr>))"

definition finish :: "string \<Rightarrow> sync_limiter \<Rightarrow> sync_limiter" where
  "finish key l = l\<lparr>lm_active := removeAll key (lm_active l)\<rparr>"

section \<open>Properties\<close>

text \<open>
  Waiting for git ends: the loop sleeps twenty milliseconds between polls, so that after at most
  one poll more than the time-out has such steps it has returned, whatever the child does.\<close>

theorem wait_loop_ends:
  assumes "\<And>n. 20 * n \<le> elapsed n"
  shows "wait_loop try_wait elapsed timeout 0 (timeout div 20 + 2) \<noteq> None"
proof -
  have ends: "wait_loop try_wait elapsed timeout n fuel \<noteq> None" if "timeout \<le> 20 * (n + fuel - 1)" "0 < fuel" for n fuel
    using that
  proof (induction fuel arbitrary: n)
    case (Suc fuel)
    show ?case
    proof (cases "timeout \<le> elapsed n")
      case False
      then have "0 < fuel" using Suc.prems assms [of n] by (cases fuel) auto
      then have "wait_loop try_wait elapsed timeout (Suc n) fuel \<noteq> None"
        using Suc.IH [of "Suc n"] Suc.prems(1) by simp
      then show ?thesis using False by (auto split: sum.split option.split)
    qed (auto split: sum.split option.split)
  qed simp
  show ?thesis by (rule ends) presburger+
qed

theorem wait_loop_ends_witness:
  "wait_loop (\<lambda>_. Ok None) (\<lambda>n. 20 * n) 5000 0 (5000 div 20 + 2) \<noteq> None"
  by (rule wait_loop_ends) simp

lemma run_all_state:
  assumes "\<And>x w. x \<in> set xs \<Longrightarrow> \<exists>w'. step x w = (Ok (), w') \<and> f w' = g x (f w)"
  shows "f (snd (run_all step report xs w)) = foldl (\<lambda>m x. g x m) (f w) xs"
  using assms
proof (induction xs arbitrary: w)
  case (Cons x xs)
  obtain w' where "step x w = (Ok (), w')" "f w' = g x (f w)" using Cons.prems [of x w] by auto
  moreover have "f (snd (run_all step report xs w')) = foldl (\<lambda>m x. g x m) (f w') xs"
    using Cons by simp
  ultimately show ?case by (cases "run_all step report xs w'") simp
qed simp

lemma foldl_updates:
  "foldl (\<lambda>m u. m(up_reference u \<mapsto> up_target u)) m
     (map (\<lambda>(reference, target). \<lparr>up_reference = reference, up_target = target\<rparr>) es) = m ++ map_of (rev es)"
proof (induction es arbitrary: m)
  case (Cons e es)
  then show ?case by (cases e) (simp add: map_add_def fun_eq_iff split: option.split)
qed simp

lemma foldl_deletions: "foldl (\<lambda>m r. m(r := None)) m rs = (\<lambda>r. if r \<in> set rs then None else m r)"
  by (induction rs arbitrary: m) (auto simp: fun_eq_iff)

lemma map_of_filter_value:
  assumes "distinct (map fst es)"
  shows "map_of (filter (\<lambda>(k, v). P k v) es) k =
    (case map_of es k of Some v \<Rightarrow> if P k v then Some v else None | None \<Rightarrow> None)"
  using assms
proof (induction es)
  case (Cons e es)
  have "fst e = k \<Longrightarrow> map_of es k = None" using Cons.prems by (auto simp: map_of_eq_None_iff)
  then show ?case using Cons by (cases e; cases "fst e = k") auto
qed simp


definition map_executor :: "(string \<rightharpoonup> string) git_executor" where
  "map_executor =
     \<lparr>gx_fetch = (\<lambda>_ _ _ w. (Ok (), w)), gx_update_ref = (\<lambda>_ r t w. (Ok (), w(r \<mapsto> t))),
      gx_delete_ref = (\<lambda>_ r w. (Ok (), w(r := None)))\<rparr>"


section \<open>Concurrent work\<close>

datatype limiter_call = StartRepo string | FinishRepo string

text \<open>The repositories whose start was granted and that have not finished, as a run goes on.\<close>

fun limiter_run :: "limiter_call list \<Rightarrow> sync_limiter \<times> string list \<Rightarrow> sync_limiter \<times> string list" where
  "limiter_run [] s = s"
| "limiter_run (StartRepo k # calls) (l, running) =
     (case try_start k l of (granted, l') \<Rightarrow> limiter_run calls (l', if granted then k # running else running))"
| "limiter_run (FinishRepo k # calls) (l, running) = limiter_run calls (finish k l, removeAll k running)"

lemma limiter_run_inv:
  assumes "distinct running" and "length running \<le> lm_max_concurrent l" and "lm_active l = running"
  shows "case limiter_run calls (l, running) of (l', running') \<Rightarrow>
    distinct running' \<and> length running' \<le> lm_max_concurrent l \<and> lm_active l' = running'"
  using assms
proof (induction calls arbitrary: l running)
  case (Cons call calls)
  show ?case
  proof (cases call)
    case (StartRepo k)
    obtain granted l' where start: "try_start k l = (granted, l')" by force
    moreover have "lm_max_concurrent l' = lm_max_concurrent l"
      "distinct (if granted then k # running else running)"
      "length (if granted then k # running else running) \<le> lm_max_concurrent l"
      "lm_active l' = (if granted then k # running else running)"
      using start Cons.prems by (auto simp: try_start_def split: if_splits)
    ultimately show ?thesis
      using StartRepo Cons.IH [of "if granted then k # running else running" l'] by (simp del: if_split)
  next
    case (FinishRepo k)
    have "length (removeAll k running) \<le> lm_max_concurrent l"
      unfolding removeAll_filter_not_eq by (rule le_trans [OF length_filter_le Cons.prems(2)])
    then show ?thesis
      using FinishRepo Cons.IH [of "removeAll k running" "finish k l"] Cons.prems
      by (simp add: finish_def distinct_removeAll)
  qed
qed simp

text \<open>
  Whatever starts and finishes are reported in whatever order, no repository is synchronised twice
  at once and no more than the configured number of repositories are (at least one).\<close>

theorem limiter_bounds:
  "case limiter_run calls (limiter_new n, []) of
     (l, running) \<Rightarrow> distinct running \<and> length running \<le> max n 1 \<and> set (lm_active l) = set running"
  using limiter_run_inv [of "[]" "limiter_new n" calls] by (auto simp: limiter_new_def split: prod.splits)

end
