(* ===== verification/Git_Hook.thy ===== *)
theory Git_Hook
  imports Core_Receive Core_Repo Sync
begin

text \<open>
  The hooks git runs on a push (\<open>services/git-hook/src/lib.rs\<close>). The pre-receive hook asks the state
  service for the latest state of the repository and lets \<open>evaluate_updates\<close> decide; the post-receive
  hook and the webhook of Forgejo tell the sync service what has moved. The environment, the HTTP
  client, the decoders of \<open>serde\<close> and the keyed hash are parameters. \<open>None\<close> is a panic.
\<close>

section \<open>Configuration\<close>

datatype hook_mode = PreReceive | PostReceive

record hook_config =
  hc_state_url :: string
  hc_sync_url :: "string option"
  hc_mode :: hook_mode

datatype hook_config_error =
    HookConfigInvalid config_error
  | HookMissingEnv string
  | HookInvalidMode string

fun hook_config_error_display :: "hook_config_error \<Rightarrow> string" where
  "hook_config_error_display (HookConfigInvalid err) = ''hook config error: '' @ config_error_display err"
| "hook_config_error_display (HookMissingEnv key) = ''missing env '' @ key"
| "hook_config_error_display (HookInvalidMode v) = ''invalid hook mode: '' @ v"

definition hook_mode_from_env :: "environment \<Rightarrow> (hook_config_error, hook_mode) result" where
  "hook_mode_from_env env =
     (let mode = (case env ''GITTREE_HOOK_MODE'' of Some mode \<Rightarrow> mode | None \<Rightarrow> ''pre-receive'') in
      if mode = ''pre-receive'' then Ok PreReceive
      else if mode = ''post-receive'' then Ok PostReceive
      else Err (HookInvalidMode mode))"

text \<open>
  \<open>unwrap_or\<close> evaluates its argument: the mode of the environment is read, and may be refused, also
  when the caller gives one.\<close>

definition hook_config_from_env_with_overrides ::
  "environment \<Rightarrow> hook_mode option \<Rightarrow> string option \<Rightarrow> string option \<Rightarrow>
   (hook_config_error, hook_config) result" where
  "hook_config_from_env_with_overrides env mode state_url sync_url =
     and_then (map_err HookConfigInvalid (services_from_env_validated env)) (\<lambda>_.
     and_then (case state_url of
         Some url \<Rightarrow> Ok url
       | None \<Rightarrow> ok_or (HookMissingEnv ''GITTREE_STATE_URL'') (env ''GITTREE_STATE_URL'')) (\<lambda>state_url.
     and_then (hook_mode_from_env env) (\<lambda>env_mode.
       let mode = (case mode of Some m \<Rightarrow> m | None \<Rightarrow> env_mode);
           sync_url = (case sync_url of Some url \<Rightarrow> Some url | None \<Rightarrow> env ''GITTREE_SYNC_URL'')
       in if mode = PostReceive \<and> sync_url = None then Err (HookMissingEnv ''GITTREE_SYNC_URL'')
          else Ok \<lparr>hc_state_url = state_url, hc_sync_url = sync_url, hc_mode = mode\<rparr>)))"

definition hook_config_from_env ::
  "environment \<Rightarrow> (hook_config_error, hook_config) result" where
  "hook_config_from_env env = hook_config_from_env_with_overrides env None None None"

section \<open>Errors\<close>

datatype hook_error =
    InvalidLine string
  | HookInvalidPayload string
  | HookInvalidSignature string

fun hook_error_display :: "hook_error \<Rightarrow> string" where
  "hook_error_display (InvalidLine line) = ''invalid ref line: '' @ line"
| "hook_error_display (HookInvalidPayload message) = ''invalid payload: '' @ message"
| "hook_error_display (HookInvalidSignature message) = ''invalid signature: '' @ message"

datatype hook_service_error =
    HookConfigFailed hook_config_error
  | HookParse hook_error
  | HookCore string
  | HookState string
  | HookReject string

fun hook_service_error_display :: "hook_service_error \<Rightarrow> string" where
  "hook_service_error_display (HookConfigFailed err) = ''hook config error: '' @ hook_config_error_display err"
| "hook_service_error_display (HookParse err) = ''hook parse error: '' @ hook_error_display err"
| "hook_service_error_display (HookCore err) = ''hook core error: '' @ err"
| "hook_service_error_display (HookState err) = ''hook state error: '' @ err"
| "hook_service_error_display (HookReject reason) = reason"

section \<open>Parsing\<close>

record hook_update =
  hu_old :: string
  hu_new :: string
  hu_reference :: string

definition parse_update_line :: "string \<Rightarrow> (hook_error, hook_update) result" where
  "parse_update_line line =
     (case split_whitespace line of
        old # new # reference # _ \<Rightarrow> Ok \<lparr>hu_old = old, hu_new = new, hu_reference = reference\<rparr>
      | _ \<Rightarrow> Err (InvalidLine line))"

text \<open>A line that is not blank has a first word, so \<open>expect\<close> does not panic (\<open>first_word\<close> below).\<close>

definition parse_updates :: "string \<Rightarrow> (hook_error, hook_update list) result" where
  "parse_updates input =
     collect_results parse_update_line (filter (\<lambda>line. line \<noteq> []) (map trim (lines_split input)))"

record forgejo_push_payload =
  fp_reference :: string
  fp_before :: string
  fp_after :: string
  fp_name :: string
  fp_full_name :: "string option"
  fp_username :: string

record forgejo_push_event =
  fe_owner :: string
  fe_repo :: string
  fe_full_name :: string
  fe_reference :: string
  fe_before :: string
  fe_after :: string

definition ensure_non_empty :: "string \<Rightarrow> string \<Rightarrow> (hook_error, unit) result" where
  "ensure_non_empty field v =
     ensure (\<not> blank v) (HookInvalidPayload (''missing required field: '' @ field))"

definition parse_forgejo_push ::
  "(string \<Rightarrow> (string, forgejo_push_payload) result) \<Rightarrow> string \<Rightarrow> (hook_error, forgejo_push_event) result" where
  "parse_forgejo_push decode payload =
     and_then (map_err HookInvalidPayload (decode payload)) (\<lambda>parsed.
     and_then (ensure_non_empty ''ref'' (fp_reference parsed)) (\<lambda>_.
     and_then (ensure_non_empty ''before'' (fp_before parsed)) (\<lambda>_.
     and_then (ensure_non_empty ''after'' (fp_after parsed)) (\<lambda>_.
     and_then (ensure_non_empty ''repository.name'' (fp_name parsed)) (\<lambda>_.
     and_then (ensure_non_empty ''repository.owner.username'' (fp_username parsed)) (\<lambda>_.
       let name = (case fp_full_name parsed of
             Some name \<Rightarrow> name
           | None \<Rightarrow> fp_username parsed @ ''/'' @ fp_name parsed)
       in if CHR ''/'' \<notin> set name then Err (HookInvalidPayload (''invalid repository full_name: '' @ name))
          else Ok \<lparr>fe_owner = fp_username parsed, fe_repo = fp_name parsed, fe_full_name = name,
            fe_reference = fp_reference parsed, fe_before = fp_before parsed, fe_after = fp_after parsed\<rparr>))))))"

text \<open>\<open>mac secret payload\<close> is the keyed hash; \<open>verify_slice\<close> compares the whole of it.\<close>

definition verify_forgejo_signature ::
  "hex_decoder \<Rightarrow> (string \<Rightarrow> u8 list \<Rightarrow> u8 list) \<Rightarrow> string \<Rightarrow> u8 list \<Rightarrow> string \<Rightarrow> (hook_error, unit) result" where
  "verify_forgejo_signature dec mac secret payload signature_header =
     and_then (ensure (secret \<noteq> []) (HookInvalidSignature ''missing webhook secret'')) (\<lambda>_.
       let signature_header = trim signature_header in
       and_then (ensure (signature_header \<noteq> []) (HookInvalidSignature ''missing signature header'')) (\<lambda>_.
         let signature = (case strip_prefix signature_header ''sha256='' of Some s \<Rightarrow> s | None \<Rightarrow> signature_header) in
         and_then (ok_or (HookInvalidSignature ''invalid signature encoding'') (dec signature)) (\<lambda>provided.
           ensure (mac secret payload = provided) (HookInvalidSignature ''signature mismatch''))))"

section \<open>The state service and the sync service\<close>

record http_reply =
  hr_status :: nat
  hr_text :: "string option"

definition is_success :: "http_reply \<Rightarrow> bool" where
  "is_success r \<longleftrightarrow> 200 \<le> hr_status r \<and> hr_status r < 300"

text \<open>What the hook calls: a \<open>GET\<close>, the decoding of a reply, a \<open>POST\<close> and the text of a status code.\<close>

record hook_http =
  hh_get :: "string \<Rightarrow> (string, http_reply) result"
  hh_decode_state :: "http_reply \<Rightarrow> (string, repo_state) result"
  hh_post :: "string \<Rightarrow> post_receive_payload \<Rightarrow> (string, http_reply) result"
  hh_status_display :: "nat \<Rightarrow> string"

definition state_endpoint :: "string \<Rightarrow> string \<Rightarrow> string \<Rightarrow> string" where
  "state_endpoint base_url pubkey ident =
     trim_end_char CHR ''/'' base_url @ ''/state/'' @ pubkey @ ''/'' @ ident"

definition body_or_empty :: "http_reply \<Rightarrow> string" where
  "body_or_empty r = (case hr_text r of Some body \<Rightarrow> body | None \<Rightarrow> [])"

definition http_latest_state ::
  "hook_http \<Rightarrow> string \<Rightarrow> string \<Rightarrow> string \<Rightarrow> (hook_service_error, repo_state option) result" where
  "http_latest_state http base_url pubkey ident =
     (case hh_get http (state_endpoint base_url pubkey ident) of
        Inl err \<Rightarrow> Err (HookState err)
      | Inr response \<Rightarrow>
          (if hr_status response = 404 then Ok None
           else if \<not> is_success response
           then Err (HookState (''state service error '' @ hh_status_display http (hr_status response) @ '': '' @
             body_or_empty response))
           else case hh_decode_state http response of
             Inl err \<Rightarrow> Err (HookState err)
           | Inr st \<Rightarrow> Ok (Some st)))"

definition core_update :: "hook_update \<Rightarrow> ref_update" where
  "core_update u = \<lparr>old_rev = hu_old u, new_rev = hu_new u, ref_name = hu_reference u\<rparr>"

definition evaluate_pre_receive ::
  "bech32_decoder \<Rightarrow> (string \<Rightarrow> string \<Rightarrow> (hook_service_error, repo_state option) result) \<Rightarrow> string \<Rightarrow>
   hook_update list \<Rightarrow> (hook_service_error, update_decision) result option" where
  "evaluate_pre_receive bech32 fetch repo_path updates =
     (case parse_repo_path bech32 repo_path of
        Inl err \<Rightarrow> Some (Err (HookCore (core_error_display err)))
      | Inr repo \<Rightarrow>
          (let core_updates = map core_update updates;
               needs_state = list_ex (\<lambda>u. \<not> starts_with (ref_name u) ''refs/nostr/'') core_updates
           in case (if needs_state then fetch (rp_pubkey repo) (rp_identifier repo) else Ok None) of
                Inl err \<Rightarrow> Some (Err err)
              | Inr st \<Rightarrow> map_option Ok (evaluate_updates core_updates st)))"

definition update_payload :: "hook_update \<Rightarrow> ref_update_payload" where
  "update_payload u = \<lparr>ru_old = hu_old u, ru_new = hu_new u, ru_reference = hu_reference u\<rparr>"

definition http_notify :: "hook_http \<Rightarrow> string \<Rightarrow> post_receive_payload \<Rightarrow> (hook_service_error, unit) result" where
  "http_notify http endpoint payload =
     (case hh_post http endpoint payload of
        Inl err \<Rightarrow> Err (HookState err)
      | Inr response \<Rightarrow>
          (if \<not> is_success response
           then Err (HookState (''post-receive error '' @ hh_status_display http (hr_status response) @ '': '' @
             body_or_empty response))
           else Ok ()))"

definition handle_post_receive ::
  "bech32_decoder \<Rightarrow> (post_receive_payload \<Rightarrow> (hook_service_error, unit) result) \<Rightarrow> string \<Rightarrow> hook_update list \<Rightarrow>
   (hook_service_error, unit) result" where
  "handle_post_receive bech32 notify repo_path updates =
     and_then (map_err (\<lambda>err. HookCore (core_error_display err)) (parse_repo_path bech32 repo_path)) (\<lambda>repo.
       notify \<lparr>py_pubkey = rp_pubkey repo, py_identifier = rp_identifier repo, py_updates = map update_payload updates\<rparr>)"

definition handle_forgejo_push ::
  "(string \<Rightarrow> (string, forgejo_push_payload) result) \<Rightarrow>
   (string \<Rightarrow> string \<Rightarrow> (hook_service_error, repo_mapping option) result) \<Rightarrow>
   (post_receive_payload \<Rightarrow> (hook_service_error, unit) result) \<Rightarrow> string \<Rightarrow> (hook_service_error, unit) result" where
  "handle_forgejo_push decode resolve notify payload =
     and_then (map_err HookParse (parse_forgejo_push decode payload)) (\<lambda>event.
     and_then (resolve (fe_owner event) (fe_repo event)) (\<lambda>found.
     case found of
       None \<Rightarrow> Err (HookReject ''missing repo mapping'')
     | Some mapping \<Rightarrow>
         notify \<lparr>py_pubkey = rm_pubkey mapping, py_identifier = rm_identifier mapping,
           py_updates = [\<lparr>ru_old = fe_before event, ru_new = fe_after event, ru_reference = fe_reference event\<rparr>]\<rparr>))"

section \<open>Running a hook\<close>

record hook_process =
  hp_env :: environment
  hp_current_dir :: "(string, string) result"
  hp_stdin_is_terminal :: bool
  hp_stdin :: "(string, string) result"
  hp_read_file :: "string \<Rightarrow> (string, string) result"

definition hook_env_path :: "environment \<Rightarrow> string \<Rightarrow> string option" where
  "hook_env_path env key = (case env key of Some v \<Rightarrow> if blank v then None else Some v | None \<Rightarrow> None)"

definition validate_input_source :: "bool \<Rightarrow> string option \<Rightarrow> (hook_service_error, unit) result" where
  "validate_input_source stdin_is_tty stdin_file =
     ensure (\<not> (stdin_is_tty \<and> stdin_file = None))
       (HookCore ''refusing to run interactively; provide --stdin-file or pipe hook input'')"

definition read_input :: "hook_process \<Rightarrow> string option \<Rightarrow> (hook_service_error, string) result" where
  "read_input p stdin_file =
     (case stdin_file of
        Some path \<Rightarrow>
          map_err (\<lambda>err. HookCore (''failed to read stdin file '' @ path @ '': '' @ err)) (hp_read_file p path)
      | None \<Rightarrow> map_err (\<lambda>err. HookCore (''failed to read stdin: '' @ err)) (hp_stdin p))"

definition hook_repo_path :: "hook_process \<Rightarrow> (hook_service_error, string) result" where
  "hook_repo_path p =
     (case hp_env p ''GITTREE_HOOK_REPO_PATH'' of
        Some path \<Rightarrow> Ok path
      | None \<Rightarrow>
          (case hp_env p ''GIT_DIR'' of
             Some path \<Rightarrow> Ok path
           | None \<Rightarrow> map_err (\<lambda>err. HookCore (''failed to read repo path: '' @ err)) (hp_current_dir p)))"

definition run_hook_mode ::
  "bech32_decoder \<Rightarrow> hook_http \<Rightarrow> hook_config \<Rightarrow> string \<Rightarrow> hook_update list \<Rightarrow> (hook_service_error, unit) result option" where
  "run_hook_mode bech32 http config repo_path updates =
     (case hc_mode config of
        PreReceive \<Rightarrow>
          map_option (\<lambda>r. and_then r (\<lambda>decision.
              case decision of Reject reason \<Rightarrow> Err (HookReject reason) | Accept \<Rightarrow> Ok ()))
            (evaluate_pre_receive bech32 (http_latest_state http (hc_state_url config)) repo_path updates)
      | PostReceive \<Rightarrow>
          Some (case hc_sync_url config of
             None \<Rightarrow> Err (HookConfigFailed (HookMissingEnv ''GITTREE_SYNC_URL''))
           | Some sync_url \<Rightarrow>
               (case handle_post_receive bech32 (http_notify http sync_url) repo_path updates of _ \<Rightarrow> Ok ())))"

definition run_hook ::
  "bech32_decoder \<Rightarrow> hook_http \<Rightarrow> hook_process \<Rightarrow> hook_config \<Rightarrow> string option \<Rightarrow>
   (hook_service_error, unit) result option" where
  "run_hook bech32 http p config stdin_file =
     (case and_then (validate_input_source (hp_stdin_is_terminal p) stdin_file) (\<lambda>_. read_input p stdin_file) of
        Inl err \<Rightarrow> Some (Err err)
      | Inr input \<Rightarrow>
          (case parse_updates input of
             Inl err \<Rightarrow> Some (if hc_mode config = PostReceive then Ok () else Err (HookParse err))
           | Inr updates \<Rightarrow>
               (case hook_repo_path p of
                  Inl err \<Rightarrow> Some (Err err)
                | Inr repo_path \<Rightarrow> run_hook_mode bech32 http config repo_path updates)))"

definition run_hook_from_env ::
  "bech32_decoder \<Rightarrow> hook_http \<Rightarrow> hook_process \<Rightarrow> hook_mode \<Rightarrow>
   (hook_service_error, unit) result option" where
  "run_hook_from_env bech32 http p mode =
     (case hook_config_from_env_with_overrides (hp_env p) (Some mode) None None of
        Inl err \<Rightarrow> Some (Err (HookConfigFailed err))
      | Inr config \<Rightarrow> run_hook bech32 http p config (hook_env_path (hp_env p) ''GITTREE_HOOK_STDIN_FILE''))"

section \<open>Words and lines\<close>

text \<open>A line that has more than white space has a first word: the \<open>expect\<close> of the parser holds.\<close>

abbreviation word_step :: "string list \<times> string \<Rightarrow> string \<Rightarrow> string list \<times> string" where
  "word_step \<equiv> \<lambda>(ws, w) ch. if is_whitespace ch then (flush_word ws w, []) else (ws, w @ ch)"

lemma words_some:
  assumes "\<forall>ch \<in> set chs. ch \<noteq> []" and "ws \<noteq> [] \<or> w \<noteq> [] \<or> (\<exists>ch \<in> set chs. \<not> is_whitespace ch)"
  shows "(case foldl word_step (ws, w) chs of (ws, w) \<Rightarrow> flush_word ws w) \<noteq> []"
  using assms
proof (induction chs arbitrary: ws w)
  case (Cons ch chs)
  then show ?case by (cases "is_whitespace ch") (auto simp: flush_word_def)
qed (auto simp: flush_word_def)

lemma first_word:
  assumes "trim line \<noteq> []"
  shows "split_whitespace (trim line) \<noteq> []"
proof -
  obtain ch chs where ch: "chars (trim line) = ch # chs"
    using assms concat_chars [of "trim line"] by (cases "chars (trim line)") auto
  then have "trim line = ch @ concat chs" using concat_chars [of "trim line"] by simp
  then have "prefix ch (trim_start line)"
    using trim_end_prefix [of "trim_start line"] by (metis prefixI prefix_order.trans trim_def)
  then have "\<not> is_whitespace ch" using trim_start_no_ws by (auto simp: is_whitespace_def)
  then show ?thesis
    unfolding split_whitespace_def using ch chars_nonempty [of _ "trim line"]
    by (intro words_some) auto
qed

text \<open>Printed in ASCII without blanks, words and lines are read back.\<close>

definition plain_word :: "string \<Rightarrow> bool" where
  "plain_word w \<longleftrightarrow> w \<noteq> [] \<and> list_all (\<lambda>c. 33 \<le> byte c \<and> byte c \<le> 126) w"

lemma words_plain:
  assumes "list_all (\<lambda>c. 33 \<le> byte c \<and> byte c \<le> 126) s"
  shows "foldl word_step (ws, w) (map (\<lambda>c. [c]) s) = (ws, w @ s)"
  using assms
proof (induction s arbitrary: w)
  case (Cons c s)
  have "\<not> is_whitespace [c]"
    using Cons.prems plain_not_ws(2) [of c "[c]"] by (auto simp: is_whitespace_def)
  with Cons show ?case by simp
qed simp

lemma split_whitespace_words:
  assumes "plain_word a" and "plain_word b" and "plain_word c"
  shows "split_whitespace (a @ '' '' @ b @ '' '' @ c) = [a, b, c]"
proof -
  have "is_ascii (a @ '' '' @ b @ '' '' @ c)"
    using assms by (auto simp: is_ascii_def plain_word_def list_all_conv_set)
  moreover have "CHR '' '' = char_of (32 :: nat)" using char_of_char [of "CHR '' ''", where ?'a = nat] by simp
  then have "is_whitespace '' ''" by (simp add: is_whitespace_def ws_encodings_def)
  ultimately show ?thesis
    using assms by (simp add: split_whitespace_def chars_ascii words_plain plain_word_def flush_word_def)
qed

lemma lines_split_line:
  "CHR 0x0A \<notin> set l \<Longrightarrow> CHR 0x0D \<notin> set l \<Longrightarrow> lines_split (l @ CHR 0x0A # s) = l # lines_split s"
  by (induction l) auto

definition print_update :: "hook_update \<Rightarrow> string" where
  "print_update u = hu_old u @ '' '' @ hu_new u @ '' '' @ hu_reference u"

definition update_plain :: "hook_update \<Rightarrow> bool" where
  "update_plain u \<longleftrightarrow> plain_word (hu_old u) \<and> plain_word (hu_new u) \<and> plain_word (hu_reference u)"

lemma print_update_line:
  assumes "update_plain u"
  shows "trim (print_update u) = print_update u" and "print_update u \<noteq> []"
    and "CHR 0x0A \<notin> set (print_update u)" and "CHR 0x0D \<notin> set (print_update u)"
    and "parse_update_line (print_update u) = Ok u"
proof -
  show "print_update u \<noteq> []" by (simp add: print_update_def)
  have "hd (print_update u) = hd (hu_old u)" "last (print_update u) = last (hu_reference u)"
    using assms by (simp_all add: print_update_def update_plain_def plain_word_def)
  moreover have "33 \<le> byte (hd (hu_old u))" "byte (hd (hu_old u)) \<le> 126"
    "33 \<le> byte (last (hu_reference u))" "byte (last (hu_reference u)) \<le> 126"
    using assms by (auto simp: update_plain_def plain_word_def list_all_conv_set)
  ultimately show "trim (print_update u) = print_update u"
    using \<open>print_update u \<noteq> []\<close> by (intro trim_plain_ends) simp_all
  show "CHR 0x0A \<notin> set (print_update u)" "CHR 0x0D \<notin> set (print_update u)"
    using assms by (auto simp: print_update_def update_plain_def plain_word_def list_all_conv_set)
  show "parse_update_line (print_update u) = Ok u"
    using assms split_whitespace_words [of "hu_old u" "hu_new u" "hu_reference u"]
    by (simp add: parse_update_line_def print_update_def update_plain_def)
qed

section \<open>Properties\<close>

text \<open>
  What git writes to a hook is read back: one line for every update with the old object, the new object
  and the reference, printed with single blanks and ended by line feeds, with blank lines anywhere between.\<close>

theorem parse_updates_round_trip:
  assumes "\<forall>u \<in> set us. update_plain u"
  shows "parse_updates (concat (map (\<lambda>u. print_update u @ ''\<newline>'' @ replicate n CHR 0x0A) us)) = Ok us"
proof -
  have blanks: "filter (\<lambda>l. l \<noteq> []) (map trim (lines_split (replicate n CHR 0x0A @ s))) =
      filter (\<lambda>l. l \<noteq> []) (map trim (lines_split s))" for s
    by (induction n) simp_all
  show ?thesis
    using assms
  proof (induction us)
    case Nil
    then show ?case by (simp add: parse_updates_def)
  next
    case (Cons u us)
    then have "update_plain u" by simp
    note line = print_update_line [OF this]
    let ?rest = "concat (map (\<lambda>u. print_update u @ ''\<newline>'' @ replicate n CHR 0x0A) us)"
    have "lines_split (print_update u @ CHR 0x0A # (replicate n CHR 0x0A @ ?rest)) =
        print_update u # lines_split (replicate n CHR 0x0A @ ?rest)"
      by (rule lines_split_line [OF line(3,4)])
    then show ?case using Cons line blanks [of ?rest] by (simp add: parse_updates_def)
  qed
qed

theorem parse_updates_round_trip_witness:
  "parse_updates (concat (map (\<lambda>u. print_update u @ ''\<newline>'' @ replicate 1 CHR 0x0A)
     [\<lparr>hu_old = ''00'', hu_new = ''a1'', hu_reference = ''refs/heads/main''\<rparr>])) =
   Ok [\<lparr>hu_old = ''00'', hu_new = ''a1'', hu_reference = ''refs/heads/main''\<rparr>]"
  by (rule parse_updates_round_trip) (simp add: update_plain_def plain_word_def)

lemma run_hook_pre_iff:
  assumes "hc_mode config = PreReceive"
  shows "run_hook bech32 http p config stdin_file = Some (Ok ()) \<longleftrightarrow>
    (\<exists>input updates path repo st.
       (hp_stdin_is_terminal p \<longrightarrow> stdin_file \<noteq> None) \<and> read_input p stdin_file = Ok input \<and>
       parse_updates input = Ok updates \<and> hook_repo_path p = Ok path \<and> parse_repo_path bech32 path = Ok repo \<and>
       (if \<forall>u \<in> set updates. prefix ''refs/nostr/'' (hu_reference u) then st = None
        else http_latest_state http (hc_state_url config) (rp_pubkey repo) (rp_identifier repo) = Ok st) \<and>
       (\<forall>s. st = Some s \<longrightarrow> repo_state_validate s = Ok ()) \<and>
       (\<forall>u \<in> set updates. ref_update_allowed (core_update u) st))"
proof -
  let ?fetch = "http_latest_state http (hc_state_url config)"
  have accept: "evaluate_updates (map core_update us) st = Some Accept \<longleftrightarrow>
      (\<forall>s. st = Some s \<longrightarrow> repo_state_validate s = Ok ()) \<and> (\<forall>u \<in> set us. ref_update_allowed (core_update u) st)" for us st
    by (auto simp: evaluate_updates_def evaluate_each_Accept split: option.splits sum.splits)
  have needs: "list_ex (\<lambda>u. \<not> starts_with (ref_name u) ''refs/nostr/'') (map core_update us) \<longleftrightarrow>
      \<not> (\<forall>u \<in> set us. prefix ''refs/nostr/'' (hu_reference u))" for us
    by (simp add: list_ex_iff core_update_def starts_with_def)
  have mode: "run_hook_mode bech32 http config path us = Some (Ok ()) \<longleftrightarrow>
      evaluate_pre_receive bech32 ?fetch path us = Some (Ok Accept)" for path us
    using assms
    by (cases "evaluate_pre_receive bech32 ?fetch path us")
      (auto simp: run_hook_mode_def and_then_def split: sum.splits update_decision.splits)
  have pre: "evaluate_pre_receive bech32 ?fetch path us = Some (Ok Accept) \<longleftrightarrow>
      (\<exists>repo st. parse_repo_path bech32 path = Ok repo \<and>
        (if \<forall>u \<in> set us. prefix ''refs/nostr/'' (hu_reference u) then st = None
         else ?fetch (rp_pubkey repo) (rp_identifier repo) = Ok st) \<and>
        evaluate_updates (map core_update us) st = Some Accept)" for path us
    unfolding evaluate_pre_receive_def Let_def needs by (auto split: sum.splits)
  show ?thesis
    unfolding run_hook_def
    using assms by (auto simp: mode pre accept validate_input_source_def ensure_def and_then_def split: sum.splits)
qed

text \<open>
  C8: The pre-receive hook lets a push through exactly when its input can be read, the path names a repository,
  the state service answered with a valid state or with none (it is asked only if a reference is not a
  nostr reference), and every update is allowed by that state. Any failure on the way refuses the push.\<close>

theorem pre_receive_gate:
  assumes "hc_mode config = PreReceive"
  shows "run_hook bech32 http p config stdin_file = Some (Ok ()) \<longleftrightarrow>
    (\<exists>input updates path repo st.
       (hp_stdin_is_terminal p \<longrightarrow> stdin_file \<noteq> None) \<and> read_input p stdin_file = Ok input \<and>
       parse_updates input = Ok updates \<and> hook_repo_path p = Ok path \<and> parse_repo_path bech32 path = Ok repo \<and>
       (if \<forall>u \<in> set updates. prefix ''refs/nostr/'' (hu_reference u) then st = None
        else http_latest_state http (hc_state_url config) (rp_pubkey repo) (rp_identifier repo) = Ok st) \<and>
       (\<forall>s. st = Some s \<longrightarrow> repo_state_validate s = Ok ()) \<and>
       (\<forall>u \<in> set updates. ref_update_allowed (core_update u) st))"
  using assms by (rule run_hook_pre_iff)

text \<open>
  The post-receive hook never fails a push that has already happened: once its configuration is valid and its
  input and repository path can be read, it succeeds, whatever the lines hold and whatever the sync service does.\<close>

theorem post_receive_never_fails:
  assumes "hook_config_from_env_with_overrides (hp_env p) (Some PostReceive) None None = Ok config"
    and "hp_stdin_is_terminal p \<Longrightarrow> hook_env_path (hp_env p) ''GITTREE_HOOK_STDIN_FILE'' \<noteq> None"
    and "read_input p (hook_env_path (hp_env p) ''GITTREE_HOOK_STDIN_FILE'') = Ok input"
    and "hook_repo_path p = Ok path"
  shows "run_hook_from_env bech32 http p PostReceive = Some (Ok ())"
proof -
  have "hc_mode config = PostReceive" "\<exists>url. hc_sync_url config = Some url"
    using assms(1)
    by (auto simp: hook_config_from_env_with_overrides_def and_then_def Let_def split: sum.splits if_splits)
  then show ?thesis
    using assms
    by (auto simp: run_hook_from_env_def run_hook_def run_hook_mode_def validate_input_source_def ensure_def
        split: sum.splits)
qed

text \<open>
  A webhook is taken as Forgejo's exactly when a secret is configured and the header, trimmed and without the
  prefix that names the hash, is the hexadecimal form of the whole keyed hash of the payload.\<close>

theorem webhook_signature_iff:
  "verify_forgejo_signature dec mac secret payload header = Ok () \<longleftrightarrow>
     secret \<noteq> [] \<and> trim header \<noteq> [] \<and>
     dec (if prefix ''sha256='' (trim header) then drop 7 (trim header) else trim header) = Some (mac secret payload)"
proof -
  have "strip_prefix h ''sha256='' = (if prefix ''sha256='' h then Some (drop 7 h) else None)" for h
    by (simp add: strip_prefix_def eval_nat_numeral)
  then show ?thesis
    by (auto simp: verify_forgejo_signature_def and_then_def ensure_def ok_or_def Let_def
        split: option.splits sum.splits if_splits)
qed

text \<open>
  The post-receive hook and the sync service agree on the repository: what the hook sends for the bare
  repository of an owner reaches the service as a payload whose handling names, below the service's root, the
  directory of the same owner and identifier, with as many updates as git reported.\<close>

theorem push_reaches_its_repository:
  assumes "parse_repo_path bech32 path = Ok repo"
    and "\<And>data. bech32 (rp_npub repo) = Some (''npub'', data) \<Longrightarrow> enc data = Some (rp_npub repo)"
    and "\<And>data. dec (bytes_to_hex data) = Some data"
    and "handle_post_receive bech32 (http_notify http url) path updates = Ok ()"
  shows "\<exists>payload reply. hh_post http url payload = Ok reply \<and> is_success reply \<and>
    post_receive_handler enc dec root payload =
      Some (Ok \<lparr>ak_repo_path = path_join (path_join root (rp_npub repo)) (rp_identifier repo @ ''.git''),
                ak_updates = length updates\<rparr>)"
proof -
  let ?payload = "\<lparr>py_pubkey = rp_pubkey repo, py_identifier = rp_identifier repo, py_updates = map update_payload updates\<rparr>"
  obtain reply where "hh_post http url ?payload = Ok reply" "is_success reply"
    using assms(1,4) by (auto simp: handle_post_receive_def http_notify_def split: sum.splits if_splits)
  moreover have ident: "\<not> blank (rp_identifier repo)"
    and pubkey: "decode_npub_pubkey bech32 (rp_npub repo) = Ok (rp_pubkey repo)"
    using assms(1) by (auto simp: parse_repo_path_def Let_def and_then_def ensure_def split: sum.splits if_splits)
  from pubkey obtain data where data: "bech32 (rp_npub repo) = Some (''npub'', data)" "rp_pubkey repo = bytes_to_hex data"
    by (auto simp: decode_npub_pubkey_def split: option.splits if_splits)
  have hex: "is_hex_len (rp_pubkey repo) 64" using decode_npub_hex [OF pubkey] .
  then have "repo_address_new (rp_pubkey repo) (rp_identifier repo) =
      Ok \<lparr>addr_pubkey = rp_pubkey repo, addr_identifier = rp_identifier repo\<rparr>"
    using ident by (auto simp: repo_address_new_def is_hex_len_def HEX_PUBKEY_LEN_def)
  then have "post_receive_handler enc dec root ?payload =
      Some (Ok \<lparr>ak_repo_path = path_join (path_join root (rp_npub repo)) (rp_identifier repo @ ''.git''),
                ak_updates = length updates\<rparr>)"
    using hex data assms(2) [OF data(1)] assms(3)
    by (simp add: post_receive_handler_def npub_from_hex_def encode_npub_bytes_def is_hex_len_def)
  ultimately show ?thesis by blast
qed

text \<open>Sample calls: a push of one nostr reference, and a push to a service that takes it.\<close>

abbreviation sample_bech32 :: bech32_decoder where
  "sample_bech32 \<equiv> \<lambda>_. Some (''npub'', replicate 32 7)"

abbreviation sample_hook_path :: string where
  "sample_hook_path \<equiv> ''/srv/npub1x/app.git''"

definition sample_http :: hook_http where
  "sample_http =
     \<lparr>hh_get = (\<lambda>_. Err ''offline''), hh_decode_state = (\<lambda>_. Err ''no state''),
      hh_post = (\<lambda>_ _. Ok \<lparr>hr_status = 202, hr_text = None\<rparr>), hh_status_display = (\<lambda>_. [])\<rparr>"

definition sample_process :: "string \<Rightarrow> hook_process" where
  "sample_process input =
     \<lparr>hp_env = (\<lambda>key. if key = ''GIT_DIR'' then Some sample_hook_path
        else if key \<in> {''GITTREE_STATE_URL'', ''GITTREE_SYNC_URL''} then Some ''http://s'' else None),
      hp_current_dir = Err ''gone'', hp_stdin_is_terminal = False, hp_stdin = Ok input, hp_read_file = (\<lambda>_. Err ''none'')\<rparr>"

lemma sample_hook_repo:
  "parse_repo_path sample_bech32 sample_hook_path =
     Ok \<lparr>rp_npub = ''npub1x'', rp_identifier = ''app'', rp_pubkey = bytes_to_hex (replicate 32 7)\<rparr>"
proof -
  have "valid_utf8 ''npub1x''" "valid_utf8 ''app.git''" by (rule valid_utf8_ascii, simp add: is_ascii_def)+
  moreover have "\<not> blank ''app''" by (rule not_blank_lead) simp_all
  moreover obtain cs where "path_components sample_hook_path = cs @ [Normal ''npub1x'', Normal ''app.git'']"
    using path_components_two [of "''npub1x''" "''app.git''" "''/srv''"] by (auto simp: part_component_def)
  moreover have "\<exists>zs. ''app.git'' = zs @ ''.git''" by (rule exI [of _ "''app''"]) simp
  ultimately show ?thesis
    by (simp add: parse_repo_path_def path_file_name_def path_parent_def os_to_str_def decode_npub_pubkey_def
        part_component_def strip_suffix_def suffix_def)
qed

theorem pre_receive_gate_witness:
  "run_hook sample_bech32 sample_http (sample_process [])
     \<lparr>hc_state_url = ''http://s'', hc_sync_url = None, hc_mode = PreReceive\<rparr> None = Some (Ok ())"
  by (subst pre_receive_gate)
    (simp_all add: sample_process_def read_input_def parse_updates_def hook_repo_path_def sample_hook_repo)

lemma sample_services: "services_from_env_validated (hp_env (sample_process input)) = Ok services_default"
proof -
  have "services_from_env (hp_env (sample_process input)) = services_default"
    by (simp add: sample_process_def services_from_env_def services_default_def env_or_default_def)
  then show ?thesis by (simp add: services_from_env_validated_def validated_def default_services)
qed

theorem post_receive_never_fails_witness:
  "run_hook_from_env sample_bech32 sample_http (sample_process ''nonsense'') PostReceive = Some (Ok ())"
  by (rule post_receive_never_fails [of _ "\<lparr>hc_state_url = ''http://s'', hc_sync_url = Some ''http://s'', hc_mode = PostReceive\<rparr>"
        "''nonsense''" sample_hook_path])
    (simp_all add: hook_config_from_env_with_overrides_def sample_services,
      simp_all add: sample_process_def read_input_def hook_repo_path_def hook_env_path_def hook_mode_from_env_def)

theorem push_reaches_its_repository_witness:
  "\<exists>payload reply. hh_post sample_http ''http://s'' payload = Ok reply \<and> is_success reply \<and>
    post_receive_handler (\<lambda>_. Some ''npub1x'') bytes_of_hex ''/git'' payload =
      Some (Ok \<lparr>ak_repo_path = path_join (path_join ''/git'' ''npub1x'') (''app'' @ ''.git''), ak_updates = 0\<rparr>)"
  using push_reaches_its_repository [OF sample_hook_repo, of "\<lambda>_. Some ''npub1x''" bytes_of_hex sample_http
      "''http://s''" "[]" "''/git''"]
  by (simp add: handle_post_receive_def http_notify_def sample_hook_repo sample_http_def is_success_def
      hex_bytes.dec_enc)

end
