(* ===== verification/Nostr_Auth.thy ===== *)
theory Nostr_Auth
  imports Relay_Event Rust_Hex
begin

text \<open>
  Requests signed after NIP-98: the crate that makes them (\<open>crates/app-core\<close>, \<open>lib.rs\<close> and
  \<open>nip98.rs\<close>) and the crate that checks them (\<open>crates/nostr-auth/src/lib.rs\<close>). The hash, hexadecimal text,
  JSON text and signatures are the parameters of the record \<open>crypto\<close>; the checks \<open>secp256k1\<close> makes of
  a public key and the key pair of a secret are parameters of their own. A time difference is computed in 128
  bits, where it cannot overflow.
\<close>

section \<open>Names and keys\<close>

datatype app_core_error =
    AppInvalidPubkey
  | AppInvalidSecretKey
  | AppInvalidEventEncoding string
  | AppInvalidSignature

fun app_core_error_display :: "app_core_error \<Rightarrow> string" where
  "app_core_error_display AppInvalidPubkey = ''invalid pubkey''"
| "app_core_error_display AppInvalidSecretKey = ''invalid secret key''"
| "app_core_error_display (AppInvalidEventEncoding message) = ''invalid event encoding: '' @ message"
| "app_core_error_display AppInvalidSignature = ''invalid signature''"

definition normalize_identifier :: "string \<Rightarrow> string" where
  "normalize_identifier ident = (case strip_suffix ident ''.git'' of Some s \<Rightarrow> s | None \<Rightarrow> ident)"

definition clone_url :: "string \<Rightarrow> string \<Rightarrow> string \<Rightarrow> string" where
  "clone_url public_git_url npub ident =
     trim_end_char CHR ''/'' public_git_url @ ''/'' @ npub @ ''/'' @ ident @ ''.git''"

type_synonym npub_encoder = "u8 list \<Rightarrow> string option"

definition npub_from_bytes :: "npub_encoder \<Rightarrow> u8 list \<Rightarrow> (app_core_error, string) result" where
  "npub_from_bytes encode bytes = ok_or AppInvalidPubkey (encode bytes)"

definition pubkey_bytes_from_npub :: "bech32_decoder \<Rightarrow> string \<Rightarrow> (app_core_error, u8 list) result" where
  "pubkey_bytes_from_npub bech32 npub =
     and_then (ok_or AppInvalidPubkey (bech32 npub)) (\<lambda>(hrp, data).
       if hrp \<noteq> ''npub'' \<or> length data \<noteq> 32 then Err AppInvalidPubkey else Ok data)"

section \<open>Signing a request\<close>

definition NIP98_KIND :: u32 where "NIP98_KIND = 27235"

record nip98_unsigned_event =
  nu_pubkey :: string
  nu_created_at :: int
  nu_kind :: u32
  nu_tags :: "tag list"
  nu_content :: string

record nip98_event =
  ne_id :: string
  ne_pubkey :: string
  ne_created_at :: int
  ne_kind :: u32
  ne_tags :: "tag list"
  ne_content :: string
  ne_sig :: string

definition nip98_payload_hash :: "crypto \<Rightarrow> string \<Rightarrow> string option" where
  "nip98_payload_hash cr payload = (if payload = [] then None else Some (hex_encode cr (sha256 cr payload)))"

definition nip98_tags :: "string \<Rightarrow> string \<Rightarrow> string option \<Rightarrow> tag list" where
  "nip98_tags method url payload_sha256 =
     [[''u'', url], [''method'', method]] @
     (case payload_sha256 of Some payload \<Rightarrow> [[''payload'', payload]] | None \<Rightarrow> [])"

definition make_unsigned_event :: "string \<Rightarrow> string \<Rightarrow> string \<Rightarrow> string option \<Rightarrow> int \<Rightarrow> nip98_unsigned_event" where
  "make_unsigned_event pubkey method url payload_sha256 created_at =
     \<lparr>nu_pubkey = pubkey, nu_created_at = created_at, nu_kind = NIP98_KIND,
      nu_tags = nip98_tags method url payload_sha256, nu_content = []\<rparr>"

definition id_payload :: "string \<Rightarrow> int \<Rightarrow> u32 \<Rightarrow> tag list \<Rightarrow> string \<Rightarrow> json" where
  "id_payload pubkey created_at kind tags content =
     JArray [JInt 0, JString pubkey, JInt created_at, JInt (uint kind),
       JArray (map (\<lambda>tag. JArray (map JString tag)) tags), JString content]"

definition nip98_event_id_bytes :: "crypto \<Rightarrow> nip98_unsigned_event \<Rightarrow> u8 list" where
  "nip98_event_id_bytes cr u =
     sha256 cr (json_text cr (id_payload (nu_pubkey u) (nu_created_at u) (nu_kind u) (nu_tags u) (nu_content u)))"

definition nip98_event_id :: "crypto \<Rightarrow> nip98_unsigned_event \<Rightarrow> string" where
  "nip98_event_id cr u = hex_encode cr (nip98_event_id_bytes cr u)"

text \<open>\<open>verifying_key secret\<close> is the public key of a secret that is a valid one.\<close>

definition nip98_sign_event ::
  "crypto \<Rightarrow> (u8 list \<Rightarrow> u8 list option) \<Rightarrow> u8 list \<Rightarrow> string \<Rightarrow> string \<Rightarrow> string option \<Rightarrow> int \<Rightarrow>
   (app_core_error, nip98_event) result" where
  "nip98_sign_event cr verifying_key secret_key method url payload_sha256 created_at =
     (case verifying_key secret_key of
        None \<Rightarrow> Err AppInvalidSecretKey
      | Some key \<Rightarrow>
          (let unsigned = make_unsigned_event (hex_encode cr key) method url payload_sha256 created_at;
               id_bytes = nip98_event_id_bytes cr unsigned;
               sig = sign_schnorr cr secret_key id_bytes
           in Ok \<lparr>ne_id = hex_encode cr id_bytes, ne_pubkey = nu_pubkey unsigned,
                ne_created_at = nu_created_at unsigned, ne_kind = nu_kind unsigned, ne_tags = nu_tags unsigned,
                ne_content = nu_content unsigned, ne_sig = hex_encode cr sig\<rparr>))"

section \<open>Checking a request\<close>

record nip98_request =
  nq_method :: string
  nq_url :: string
  nq_payload_sha256 :: "string option"
  nq_now :: int
  nq_max_skew_seconds :: int

record nip98_auth =
  na_pubkey :: string
  na_pubkey_bytes :: "u8 list"
  na_event_id :: string

datatype nip98_error =
    Nip98InvalidKind u32
  | Nip98MissingTag string
  | Nip98InvalidHex string string
  | Nip98InvalidMethod string string
  | Nip98InvalidUrl string string
  | Nip98PayloadMismatch string string
  | Nip98TimeSkew int int int
  | Nip98InvalidEventId string string
  | Nip98InvalidSignature
  | Nip98InvalidEventEncoding string
  | Nip98InvalidPublicKey
  | Nip98InvalidSignatureEncoding
  | Nip98InvalidEventIdEncoding

fun nip98_error_display :: "nip98_error \<Rightarrow> string" where
  "nip98_error_display (Nip98InvalidKind kind) = ''invalid kind: '' @ show_nat (unat kind)"
| "nip98_error_display (Nip98MissingTag tag) = ''missing tag: '' @ tag"
| "nip98_error_display (Nip98InvalidHex field v) = ''invalid hex for '' @ field @ '': '' @ v"
| "nip98_error_display (Nip98InvalidMethod expected found) =
     ''method mismatch (expected '' @ expected @ '', got '' @ found @ '')''"
| "nip98_error_display (Nip98InvalidUrl expected found) =
     ''url mismatch (expected '' @ expected @ '', got '' @ found @ '')''"
| "nip98_error_display (Nip98PayloadMismatch expected found) =
     ''payload mismatch (expected '' @ expected @ '', got '' @ found @ '')''"
| "nip98_error_display (Nip98TimeSkew created_at now max_skew) =
     ''created_at outside skew (created_at '' @ show_int created_at @ '', now '' @ show_int now @
     '', max '' @ show_int max_skew @ '')''"
| "nip98_error_display (Nip98InvalidEventId expected found) =
     ''event id mismatch (expected '' @ expected @ '', got '' @ found @ '')''"
| "nip98_error_display Nip98InvalidSignature = ''invalid signature''"
| "nip98_error_display (Nip98InvalidEventEncoding message) = ''invalid event encoding: '' @ message"
| "nip98_error_display Nip98InvalidPublicKey = ''invalid public key''"
| "nip98_error_display Nip98InvalidSignatureEncoding = ''invalid signature encoding''"
| "nip98_error_display Nip98InvalidEventIdEncoding = ''invalid event id encoding''"

definition require_hex :: "string \<Rightarrow> string \<Rightarrow> nat \<Rightarrow> (nip98_error, unit) result" where
  "require_hex field v len = ensure (is_hex_len v len) (Nip98InvalidHex field v)"

definition auth_tag_value :: "tag list \<Rightarrow> string \<Rightarrow> string option" where
  "auth_tag_value tags key =
     find_map (\<lambda>tag. case tag of k # v # _ \<Rightarrow> if k = key then Some v else None | _ \<Rightarrow> None) tags"

definition build_event_id :: "crypto \<Rightarrow> nip98_event \<Rightarrow> string" where
  "build_event_id cr e = hex_encode cr (sha256 cr (json_text cr
     (id_payload (ne_pubkey e) (ne_created_at e) (ne_kind e) (ne_tags e) (ne_content e))))"

text \<open>A message is 32 bytes, a signature 64; \<open>xonly\<close> says which 32 bytes are a public key.\<close>

definition verify_signature :: "crypto \<Rightarrow> (u8 list \<Rightarrow> bool) \<Rightarrow> nip98_event \<Rightarrow> (nip98_error, u8 list) result" where
  "verify_signature cr xonly e =
     and_then (ok_or Nip98InvalidEventIdEncoding (hex_decode cr (ne_id e))) (\<lambda>event_id.
     and_then (ensure (length event_id = 32) Nip98InvalidEventIdEncoding) (\<lambda>_.
     and_then (ok_or Nip98InvalidSignatureEncoding (hex_decode cr (ne_sig e))) (\<lambda>sig.
     and_then (ensure (length sig = 64) Nip98InvalidSignatureEncoding) (\<lambda>_.
     and_then (ok_or Nip98InvalidPublicKey (hex_decode cr (ne_pubkey e))) (\<lambda>pubkey.
     and_then (ensure (length pubkey = 32) Nip98InvalidPublicKey) (\<lambda>_.
     and_then (ensure (xonly pubkey) Nip98InvalidPublicKey) (\<lambda>_.
     and_then (ensure (verify_schnorr cr sig event_id pubkey) Nip98InvalidSignature) (\<lambda>_.
     Ok pubkey))))))))"

abbreviation same_text :: "string \<Rightarrow> string \<Rightarrow> bool" where
  "same_text a b \<equiv> to_ascii_lowercase a = to_ascii_lowercase b"

definition validate_nip98 ::
  "crypto \<Rightarrow> (u8 list \<Rightarrow> bool) \<Rightarrow> nip98_event \<Rightarrow> nip98_request \<Rightarrow> (nip98_error, nip98_auth) result" where
  "validate_nip98 cr xonly e q =
     and_then (ensure (ne_kind e = NIP98_KIND) (Nip98InvalidKind (ne_kind e))) (\<lambda>_.
     and_then (require_hex ''event.id'' (ne_id e) 64) (\<lambda>_.
     and_then (require_hex ''event.pubkey'' (ne_pubkey e) 64) (\<lambda>_.
     and_then (require_hex ''event.sig'' (ne_sig e) 128) (\<lambda>_.
     and_then (ok_or (Nip98MissingTag ''u'') (auth_tag_value (ne_tags e) ''u'')) (\<lambda>url.
     and_then (ensure (url = nq_url q) (Nip98InvalidUrl (nq_url q) url)) (\<lambda>_.
     and_then (ok_or (Nip98MissingTag ''method'') (auth_tag_value (ne_tags e) ''method'')) (\<lambda>method.
     and_then (ensure (same_text method (nq_method q)) (Nip98InvalidMethod (nq_method q) method)) (\<lambda>_.
     and_then (case nq_payload_sha256 q of
         None \<Rightarrow> Ok ()
       | Some expected \<Rightarrow>
           and_then (ok_or (Nip98MissingTag ''payload'') (auth_tag_value (ne_tags e) ''payload'')) (\<lambda>payload.
           ensure (payload = expected) (Nip98PayloadMismatch expected payload))) (\<lambda>_.
     and_then (ensure (\<bar>nq_now q - ne_created_at e\<bar> \<le> nq_max_skew_seconds q)
         (Nip98TimeSkew (ne_created_at e) (nq_now q) (nq_max_skew_seconds q))) (\<lambda>_.
     and_then (ensure (same_text (build_event_id cr e) (ne_id e)) (Nip98InvalidEventId (build_event_id cr e) (ne_id e))) (\<lambda>_.
     and_then (verify_signature cr xonly e) (\<lambda>pubkey_bytes.
     Ok \<lparr>na_pubkey = ne_pubkey e, na_pubkey_bytes = pubkey_bytes, na_event_id = ne_id e\<rparr>))))))))))))"

section \<open>Properties\<close>

text \<open>What the code relies on of the parameters: hexadecimal text and signatures.\<close>

definition crypto_sound :: "crypto \<Rightarrow> (u8 list \<Rightarrow> u8 list option) \<Rightarrow> (u8 list \<Rightarrow> bool) \<Rightarrow> bool" where
  "crypto_sound cr verifying_key xonly \<longleftrightarrow>
     (\<forall>bs. hex_decode cr (hex_encode cr bs) = Some bs \<and> is_hex_len (hex_encode cr bs) (2 * length bs)) \<and>
     (\<forall>body. length (sha256 cr body) = 32) \<and>
     (\<forall>secret key digest. verifying_key secret = Some key \<longrightarrow> length key = 32 \<and> xonly key \<and>
        length (sign_schnorr cr secret digest) = 64 \<and> verify_schnorr cr (sign_schnorr cr secret digest) digest key)"

text \<open>
  A request signed by the client is accepted by the service as the request of that key: for the same address,
  method (in any case) and payload, as long as the clocks differ by no more than the allowed skew. The key of
  the answer is the key of the secret.\<close>

theorem nip98_round_trip:
  assumes "crypto_sound cr verifying_key xonly"
    and "verifying_key secret = Some key"
    and "\<bar>now - created_at\<bar> \<le> skew"
    and "to_ascii_lowercase method = to_ascii_lowercase method'"
  shows "\<exists>e. nip98_sign_event cr verifying_key secret method url payload created_at = Ok e \<and>
    validate_nip98 cr xonly e
      \<lparr>nq_method = method', nq_url = url, nq_payload_sha256 = payload, nq_now = now, nq_max_skew_seconds = skew\<rparr> =
    Ok \<lparr>na_pubkey = hex_encode cr key, na_pubkey_bytes = key, na_event_id = ne_id e\<rparr>"
proof -
  have hex: "hex_decode cr (hex_encode cr bs) = Some bs" "is_hex_len (hex_encode cr bs) (2 * length bs)" for bs
    using assms(1) by (simp_all add: crypto_sound_def)
  have hash: "length (sha256 cr body) = 32" for body using assms(1) by (simp add: crypto_sound_def)
  have key: "length key = 32" "xonly key" "length (sign_schnorr cr secret digest) = 64"
    "verify_schnorr cr (sign_schnorr cr secret digest) digest key" for digest
    using assms(1,2) unfolding crypto_sound_def by blast+
  define u where "u = make_unsigned_event (hex_encode cr key) method url payload created_at"
  define e where "e = \<lparr>ne_id = hex_encode cr (nip98_event_id_bytes cr u), ne_pubkey = nu_pubkey u,
      ne_created_at = nu_created_at u, ne_kind = nu_kind u, ne_tags = nu_tags u, ne_content = nu_content u,
      ne_sig = hex_encode cr (sign_schnorr cr secret (nip98_event_id_bytes cr u))\<rparr>"
  have signed: "nip98_sign_event cr verifying_key secret method url payload created_at = Ok e"
    using assms(2) by (simp add: nip98_sign_event_def u_def e_def Let_def)
  have tags: "auth_tag_value (ne_tags e) ''u'' = Some url" "auth_tag_value (ne_tags e) ''method'' = Some method"
    "payload = Some h \<Longrightarrow> auth_tag_value (ne_tags e) ''payload'' = Some h" for h
    by (simp_all add: auth_tag_value_def e_def u_def make_unsigned_event_def nip98_tags_def)
  have ids: "build_event_id cr e = ne_id e"
    by (simp add: build_event_id_def e_def nip98_event_id_bytes_def)
  have digest: "length (nip98_event_id_bytes cr u) = 32" by (simp add: nip98_event_id_bytes_def hash)
  have lens: "is_hex_len (ne_id e) 64" "is_hex_len (ne_pubkey e) 64" "is_hex_len (ne_sig e) 128"
    using hex(2) [of "nip98_event_id_bytes cr u"] hex(2) [of key]
      hex(2) [of "sign_schnorr cr secret (nip98_event_id_bytes cr u)"] key digest
    by (simp_all add: e_def u_def make_unsigned_event_def)
  have verified: "verify_signature cr xonly e = Ok key"
    using hex(1) key digest by (simp add: verify_signature_def e_def u_def make_unsigned_event_def)
  show ?thesis
    using signed tags ids lens verified assms(3,4)
    by (intro exI [of _ e], cases payload)
      (simp_all add: validate_nip98_def require_hex_def, simp_all add: e_def u_def make_unsigned_event_def)
qed

text \<open>
  C29: Nothing else is accepted: whoever passes has an event of the right kind whose tags name this address, this
  method and, where a body is expected, the hash of this body, made within the allowed skew, whose identifier is
  the hash of its content and which the key in it has signed.\<close>

theorem nip98_accepts_only:
  assumes "validate_nip98 cr xonly e q = Ok auth"
  shows "ne_kind e = NIP98_KIND \<and> auth_tag_value (ne_tags e) ''u'' = Some (nq_url q) \<and>
    (\<exists>m. auth_tag_value (ne_tags e) ''method'' = Some m \<and> to_ascii_lowercase m = to_ascii_lowercase (nq_method q)) \<and>
    (nq_payload_sha256 q \<noteq> None \<longrightarrow> auth_tag_value (ne_tags e) ''payload'' = nq_payload_sha256 q) \<and>
    \<bar>nq_now q - ne_created_at e\<bar> \<le> nq_max_skew_seconds q \<and>
    to_ascii_lowercase (ne_id e) = to_ascii_lowercase (build_event_id cr e) \<and>
    (\<exists>sig digest. hex_decode cr (ne_sig e) = Some sig \<and> hex_decode cr (ne_id e) = Some digest \<and>
       hex_decode cr (ne_pubkey e) = Some (na_pubkey_bytes auth) \<and> verify_schnorr cr sig digest (na_pubkey_bytes auth)) \<and>
    na_pubkey auth = ne_pubkey e \<and> na_event_id auth = ne_id e"
proof -
  have sig: "verify_signature cr xonly e = Ok key \<Longrightarrow>
      \<exists>sig digest. hex_decode cr (ne_sig e) = Some sig \<and> hex_decode cr (ne_id e) = Some digest \<and>
        hex_decode cr (ne_pubkey e) = Some key \<and> verify_schnorr cr sig digest key" for key
    by (auto simp: verify_signature_def result_simps)
  show ?thesis
    using assms unfolding validate_nip98_def
    by (auto simp: result_simps require_hex_def split: option.splits dest!: sig)
qed

text \<open>A toy instance of the parameters: digests of zeros, a signature that repeats its digest.\<close>

definition toy_auth_crypto :: crypto where
  "toy_auth_crypto =
     \<lparr>json_text = (\<lambda>_. []), sha256 = (\<lambda>_. replicate 32 0), hex_encode = bytes_to_hex, hex_decode = bytes_of_hex,
      parse_signature = (\<lambda>_. None), parse_xonly_key = (\<lambda>_. None),
      verify_schnorr = (\<lambda>sig digest key. sig = replicate 64 1), sign_schnorr = (\<lambda>_ _. replicate 64 1)\<rparr>"

lemma toy_auth_crypto_sound: "crypto_sound toy_auth_crypto (\<lambda>_. Some (replicate 32 7)) (\<lambda>_. True)"
  by (auto simp: crypto_sound_def toy_auth_crypto_def hex_bytes.dec_enc hex_bytes.enc_hex)

theorem nip98_round_trip_witness:
  "\<exists>e. nip98_sign_event toy_auth_crypto (\<lambda>_. Some (replicate 32 7)) [1] ''POST'' ''https://g/x'' None 100 = Ok e \<and>
    validate_nip98 toy_auth_crypto (\<lambda>_. True) e
      \<lparr>nq_method = ''post'', nq_url = ''https://g/x'', nq_payload_sha256 = None, nq_now = 130, nq_max_skew_seconds = 60\<rparr> =
    Ok \<lparr>na_pubkey = hex_encode toy_auth_crypto (replicate 32 7), na_pubkey_bytes = replicate 32 7, na_event_id = ne_id e\<rparr>"
  by (rule nip98_round_trip [OF toy_auth_crypto_sound]) (simp, simp, code_simp)

lemma toy_auth_accepted:
  "\<exists>e auth. validate_nip98 toy_auth_crypto (\<lambda>_. True) e
     \<lparr>nq_method = ''GET'', nq_url = ''https://g/x'', nq_payload_sha256 = None, nq_now = 7, nq_max_skew_seconds = 60\<rparr> = Ok auth"
proof -
  let ?e = "\<lparr>ne_id = bytes_to_hex (replicate 32 0), ne_pubkey = bytes_to_hex (replicate 32 7), ne_created_at = 7,
    ne_kind = NIP98_KIND, ne_tags = [[''u'', ''https://g/x''], [''method'', ''GET'']], ne_content = [],
    ne_sig = bytes_to_hex (replicate 64 1)\<rparr>"
  have "is_hex_len (bytes_to_hex (replicate 32 0)) 64" "is_hex_len (bytes_to_hex (replicate 32 7)) 64"
    "is_hex_len (bytes_to_hex (replicate 64 1)) 128"
    using bytes_to_hex_is_hex [of "replicate 32 0"] bytes_to_hex_is_hex [of "replicate 32 7"]
      bytes_to_hex_is_hex [of "replicate 64 1"] by simp_all
  then show ?thesis
    by (intro exI [of _ ?e])
      (simp add: validate_nip98_def require_hex_def auth_tag_value_def build_event_id_def verify_signature_def
        toy_auth_crypto_def hex_bytes.dec_enc)
qed

theorem nip98_accepts_only_witness:
  "\<exists>e auth. validate_nip98 toy_auth_crypto (\<lambda>_. True) e
     \<lparr>nq_method = ''GET'', nq_url = ''https://g/x'', nq_payload_sha256 = None, nq_now = 7, nq_max_skew_seconds = 60\<rparr> = Ok auth \<and>
   auth_tag_value (ne_tags e) ''u'' = Some ''https://g/x'' \<and> \<bar>7 - ne_created_at e\<bar> \<le> 60"
  using toy_auth_accepted nip98_accepts_only by fastforce

end
