(* ===== verification/State_Service.thy ===== *)
theory State_Service
  imports Storage_Cache Nostr_Auth Git_Hook
begin

text \<open>
  The state service (\<open>services/state/src/lib.rs\<close>): the latest state of a repository, its
  maintainers and the compatibility of a relay, read from the repositories through a cache of answers, and the
  views of accounts, profiles and repositories that the projections of commands feed
  (\<open>crates/storage/src/command_state.rs\<close>, \<open>queries.rs\<close>). The resolution of maintainers is a
  work-list loop that need not end; \<open>None\<close> is a loop that does not.
\<close>

section \<open>Records of the projections\<close>

datatype command_status = CommandOk | CommandError

fun command_status_as_str :: "command_status \<Rightarrow> string" where
  "command_status_as_str CommandOk = ''ok''"
| "command_status_as_str CommandError = ''error''"

record command_log_record =
  cl_event_id :: "u8 list"
  cl_pubkey :: "u8 list"
  cl_namespace :: string
  cl_action :: string
  cl_target :: "string option"
  cl_args_json :: json
  cl_status :: command_status
  cl_code :: string
  cl_message :: string
  cl_created_at :: int

datatype account_lifecycle = AccountActive | AccountDeleted

fun account_lifecycle_as_str :: "account_lifecycle \<Rightarrow> string" where
  "account_lifecycle_as_str AccountActive = ''active''"
| "account_lifecycle_as_str AccountDeleted = ''deleted''"

record account_state_record =
  as_pubkey :: "u8 list"
  as_status :: account_lifecycle
  as_created_at :: int
  as_updated_at :: int
  as_deleted_at :: "int option"

datatype visibility_v1 = V1Public | V1Private

fun visibility_v1_as_str :: "visibility_v1 \<Rightarrow> string" where
  "visibility_v1_as_str V1Public = ''public''"
| "visibility_v1_as_str V1Private = ''private''"

definition visibility_v1_parse :: "string \<Rightarrow> (storage_error, visibility_v1) result" where
  "visibility_v1_parse v =
     (if v = ''public'' then Ok V1Public else if v = ''private'' then Ok V1Private
      else Err (StorageInvalidField ''visibility'' v))"

record profile_state_record =
  ps_pubkey :: "u8 list"
  ps_display_name :: "string option"
  ps_bio :: "string option"
  ps_avatar_url :: "string option"
  ps_website_url :: "string option"
  ps_location :: "string option"
  ps_visibility :: visibility_v1
  ps_updated_at :: int

record repo_state_v1_record =
  rv_owner_pubkey :: "u8 list"
  rv_repo_name :: string
  rv_description :: "string option"
  rv_website_url :: "string option"
  rv_visibility :: visibility_v1
  rv_default_branch :: string
  rv_archived :: bool
  rv_updated_at :: int

record repo_maintainer_v1_record =
  rn_owner_pubkey :: "u8 list"
  rn_repo_name :: string
  rn_maintainer_pubkey :: "u8 list"
  rn_active :: bool
  rn_updated_at :: int

record repo_filter =
  rf_pubkey :: "u8 list"
  rf_identifier :: string

definition repo_filter_from_hex :: "hex_decoder \<Rightarrow> string \<Rightarrow> string \<Rightarrow> (storage_error, repo_filter) result" where
  "repo_filter_from_hex dec pubkey_hex ident =
     and_then (ok_or (StorageInvalidHex ''pubkey'' pubkey_hex) (dec pubkey_hex)) (\<lambda>pubkey.
     Ok \<lparr>rf_pubkey = pubkey, rf_identifier = ident\<rparr>)"

section \<open>Answers\<close>

datatype state_service_error =
    StateInvalidInput string string
  | StateNotFound string string
  | StateRelayNotFound string
  | StateStorage storage_error

fun state_service_error_display :: "state_service_error \<Rightarrow> string" where
  "state_service_error_display (StateInvalidInput field v) = ''invalid '' @ field @ '': '' @ v"
| "state_service_error_display (StateNotFound pubkey ident) = ''state not found for '' @ pubkey @ '':'' @ ident"
| "state_service_error_display (StateRelayNotFound relay_url) = ''relay compatibility not found for '' @ relay_url"
| "state_service_error_display (StateStorage err) = ''storage error: '' @ storage_error_display err"

record state_response =
  sp_event_id :: string
  sp_pubkey :: string
  sp_identifier :: string
  sp_created_at :: int
  sp_state :: ref_entries

record maintainers_response =
  mr_identifier :: string
  mr_maintainers :: "string list"

record relay_compatibility_response =
  rp_relay_url :: string
  rp_compatible :: bool
  rp_supported_capabilities :: "string list"
  rp_missing_required :: "string list"
  rp_missing_optional :: "string list"
  rp_nip11_url :: "string option"
  rp_nip11_available :: bool
  rp_active_probe_ok :: "bool option"
  rp_active_probe_error :: "string option"
  rp_checked_at :: int

text \<open>What the service reads the text with: hexadecimal and the JSON of a state.\<close>

record state_codecs =
  sd_enc :: encoder
  sd_dec :: hex_decoder
  sd_from_json :: "string \<Rightarrow> (string, ref_entries) result"

definition service_latest_state ::
  "state_codecs \<Rightarrow> (u8 list \<Rightarrow> string \<Rightarrow> (storage_error, repo_state_record option) result) \<Rightarrow> string \<Rightarrow> string \<Rightarrow>
   (state_service_error, state_response) result" where
  "service_latest_state cod lookup pubkey_hex ident =
     and_then (ensure (\<not> blank ident) (StateInvalidInput ''identifier'' ident)) (\<lambda>_.
     and_then (map_err StateStorage (repo_filter_from_hex (sd_dec cod) pubkey_hex ident)) (\<lambda>filter.
     and_then (map_err StateStorage (lookup (rf_pubkey filter) (rf_identifier filter))) (\<lambda>record.
     and_then (ok_or (StateNotFound pubkey_hex ident) record) (\<lambda>record.
     and_then (map_err StateStorage (state_map (sd_from_json cod) record)) (\<lambda>st.
     Ok \<lparr>sp_event_id = sd_enc cod (sr_event_id record), sp_pubkey = sd_enc cod (sr_pubkey record),
         sp_identifier = sr_identifier record, sp_created_at = sr_created_at record, sp_state = st\<rparr>)))))"

definition service_relay_compatibility ::
  "(string \<Rightarrow> (storage_error, relay_compatibility_record option) result) \<Rightarrow> string \<Rightarrow>
   (state_service_error, relay_compatibility_response) result" where
  "service_relay_compatibility lookup relay_url =
     and_then (ensure (\<not> blank relay_url) (StateInvalidInput ''relay_url'' relay_url)) (\<lambda>_.
     and_then (map_err StateStorage (lookup relay_url)) (\<lambda>record.
     and_then (ok_or (StateRelayNotFound relay_url) record) (\<lambda>record.
     Ok \<lparr>rp_relay_url = rc_relay_url record, rp_compatible = rc_compatible record,
         rp_supported_capabilities = rc_supported_capabilities record,
         rp_missing_required = rc_missing_required record, rp_missing_optional = rc_missing_optional record,
         rp_nip11_url = rc_nip11_url record, rp_nip11_available = rc_nip11_available record,
         rp_active_probe_ok = rc_active_probe_ok record, rp_active_probe_error = rc_active_probe_error record,
         rp_checked_at = rc_checked_at record\<rparr>)))"

section \<open>Maintainers\<close>

text \<open>The stack \<open>pending\<close> is held with its top first; \<open>ann p\<close> is the look-up of the announcement of \<open>p\<close>.\<close>

partial_function (option) resolve_loop ::
  "(string \<Rightarrow> (state_service_error, repo_announcement_record option) result) \<Rightarrow> string list \<Rightarrow> string list \<Rightarrow>
   (state_service_error, string list) result option" where
  "resolve_loop ann pending seen =
     (case pending of
        [] \<Rightarrow> Some (Ok seen)
      | pubkey # pending \<Rightarrow>
          (if pubkey \<in> set seen then resolve_loop ann pending seen
           else case ann pubkey of
             Inl err \<Rightarrow> Some (Err err)
           | Inr None \<Rightarrow> resolve_loop ann pending seen
           | Inr (Some a) \<Rightarrow>
               resolve_loop ann (rev (filter (\<lambda>m. m \<notin> set (pubkey # seen)) (rr_maintainers a)) @ pending) (pubkey # seen)))"

definition find_announcement ::
  "hex_decoder \<Rightarrow> (u8 list \<Rightarrow> string \<Rightarrow> (storage_error, repo_announcement_record option) result) \<Rightarrow> string \<Rightarrow> string \<Rightarrow>
   (state_service_error, repo_announcement_record option) result" where
  "find_announcement dec lookup ident pubkey =
     map_err StateStorage (and_then (repo_filter_from_hex dec pubkey ident) (\<lambda>filter.
       lookup (rf_pubkey filter) (rf_identifier filter)))"

definition resolve_maintainers ::
  "hex_decoder \<Rightarrow> (u8 list \<Rightarrow> string \<Rightarrow> (storage_error, repo_announcement_record option) result) \<Rightarrow> string \<Rightarrow> string \<Rightarrow>
   (state_service_error, maintainers_response) result option" where
  "resolve_maintainers dec lookup pubkey_hex ident =
     (if blank ident then Some (Err (StateInvalidInput ''identifier'' ident))
      else map_option (map_sum id (\<lambda>seen. \<lparr>mr_identifier = ident, mr_maintainers = sort seen\<rparr>))
        (resolve_loop (find_announcement dec lookup ident) [pubkey_hex] []))"

section \<open>The cache of answers\<close>

definition answer_get :: "cache_config \<Rightarrow> int \<Rightarrow> string \<Rightarrow> 'v cache_map \<Rightarrow> 'v option \<times> 'v cache_map" where
  "answer_get config now key m = (if \<not> cache_enabled config then (None, m) else cache_lookup config now key m)"

definition answer_put :: "cache_config \<Rightarrow> int \<Rightarrow> string \<Rightarrow> 'v \<Rightarrow> 'v cache_map \<Rightarrow> 'v cache_map" where
  "answer_put config now key v m =
     (if \<not> cache_enabled config then m
      else evict_while (cc_max_entries config) (hm_insert key \<lparr>cn_value = v, cn_stored_at = now\<rparr> m))"

record state_cache =
  sx_states :: "state_response cache_map"
  sx_maintainers :: "maintainers_response cache_map"
  sx_relays :: "relay_compatibility_response cache_map"

definition state_cache_new :: state_cache where
  "state_cache_new = \<lparr>sx_states = [], sx_maintainers = [], sx_relays = []\<rparr>"

definition state_cache_key :: "string \<Rightarrow> string \<Rightarrow> string" where
  "state_cache_key pubkey_hex ident = pubkey_hex @ '':'' @ ident"

definition cached_answer ::
  "cache_config \<Rightarrow> int \<Rightarrow> string \<Rightarrow> ('e, 'v) result \<Rightarrow> 'v cache_map \<Rightarrow> ('e, 'v) result \<times> 'v cache_map" where
  "cached_answer config now key response m =
     (case answer_get config now key m of
        (Some v, m) \<Rightarrow> (Ok v, m)
      | (None, m) \<Rightarrow>
          (case response of
             Inl err \<Rightarrow> (Err err, m)
           | Inr v \<Rightarrow> (Ok v, answer_put config now key v m)))"

definition latest_state_cached ::
  "state_codecs \<Rightarrow> cache_config \<Rightarrow> int \<Rightarrow> (u8 list \<Rightarrow> string \<Rightarrow> (storage_error, repo_state_record option) result) \<Rightarrow>
   string \<Rightarrow> string \<Rightarrow> state_cache \<Rightarrow> (state_service_error, state_response) result \<times> state_cache" where
  "latest_state_cached cod config now lookup pubkey_hex ident c =
     (case cached_answer config now (state_cache_key pubkey_hex ident)
         (service_latest_state cod lookup pubkey_hex ident) (sx_states c) of
        (r, m) \<Rightarrow> (r, c\<lparr>sx_states := m\<rparr>))"

text \<open>A hit does not resolve; the answer of a loop that does not end is none.\<close>

definition resolve_maintainers_cached ::
  "hex_decoder \<Rightarrow> cache_config \<Rightarrow> int \<Rightarrow>
   (u8 list \<Rightarrow> string \<Rightarrow> (storage_error, repo_announcement_record option) result) \<Rightarrow> string \<Rightarrow> string \<Rightarrow> state_cache \<Rightarrow>
   ((state_service_error, maintainers_response) result \<times> state_cache) option" where
  "resolve_maintainers_cached dec config now lookup pubkey_hex ident c =
     (let key = state_cache_key pubkey_hex ident in
      case answer_get config now key (sx_maintainers c) of
        (Some v, m) \<Rightarrow> Some (Ok v, c\<lparr>sx_maintainers := m\<rparr>)
      | (None, m) \<Rightarrow>
          (case resolve_maintainers dec lookup pubkey_hex ident of
             None \<Rightarrow> None
           | Some (Inl err) \<Rightarrow> Some (Err err, c\<lparr>sx_maintainers := m\<rparr>)
           | Some (Inr v) \<Rightarrow> Some (Ok v, c\<lparr>sx_maintainers := answer_put config now key v m\<rparr>)))"

definition relay_compatibility_cached ::
  "cache_config \<Rightarrow> int \<Rightarrow> (string \<Rightarrow> (storage_error, relay_compatibility_record option) result) \<Rightarrow> string \<Rightarrow>
   state_cache \<Rightarrow> (state_service_error, relay_compatibility_response) result \<times> state_cache" where
  "relay_compatibility_cached config now lookup relay_url c =
     (case cached_answer config now relay_url (service_relay_compatibility lookup relay_url) (sx_relays c) of
        (r, m) \<Rightarrow> (r, c\<lparr>sx_relays := m\<rparr>))"

section \<open>Views and routes\<close>

datatype state_http_error = StateBadRequest string | StateHttpNotFound string | StateHttpStorage string

fun state_http_error_from :: "state_service_error \<Rightarrow> state_http_error" where
  "state_http_error_from (StateInvalidInput field v) = StateBadRequest (field @ '': '' @ v)"
| "state_http_error_from (StateNotFound pubkey ident) = StateHttpNotFound (pubkey @ '':'' @ ident)"
| "state_http_error_from (StateRelayNotFound relay_url) = StateHttpNotFound relay_url"
| "state_http_error_from (StateStorage err) = StateHttpStorage (storage_error_display err)"

fun state_http_response :: "state_http_error \<Rightarrow> nat \<times> string" where
  "state_http_response (StateBadRequest message) = (400, message)"
| "state_http_response (StateHttpNotFound message) = (404, message)"
| "state_http_response (StateHttpStorage message) = (500, message)"

record projections =
  pj_account :: "u8 list \<Rightarrow> (storage_error, account_state_record option) result"
  pj_profile :: "u8 list \<Rightarrow> (storage_error, profile_state_record option) result"
  pj_repo :: "u8 list \<Rightarrow> string \<Rightarrow> (storage_error, repo_state_v1_record option) result"
  pj_maintainers :: "u8 list \<Rightarrow> string \<Rightarrow> (storage_error, u8 list list) result"

definition parse_npub_param :: "bech32_decoder \<Rightarrow> string \<Rightarrow> (state_http_error, u8 list) result" where
  "parse_npub_param bech32 npub =
     map_err (\<lambda>_. StateBadRequest (''invalid npub: '' @ npub)) (pubkey_bytes_from_npub bech32 npub)"

definition projected ::
  "string \<Rightarrow> (storage_error, 'a option) result \<Rightarrow> (state_http_error, 'a) result" where
  "projected what r =
     and_then (map_err (\<lambda>err. StateHttpStorage (storage_error_display err)) r) (\<lambda>record.
     ok_or (StateHttpNotFound what) record)"

record account_view =
  av_npub :: string
  av_status :: string
  av_created_at :: int
  av_updated_at :: int
  av_deleted_at :: "int option"

definition account_view_handler ::
  "bech32_decoder \<Rightarrow> projections \<Rightarrow> string \<Rightarrow> (state_http_error, account_view) result" where
  "account_view_handler bech32 pj npub =
     and_then (parse_npub_param bech32 npub) (\<lambda>pubkey.
     and_then (projected ''account'' (pj_account pj pubkey)) (\<lambda>record.
     Ok \<lparr>av_npub = npub, av_status = account_lifecycle_as_str (as_status record), av_created_at = as_created_at record,
         av_updated_at = as_updated_at record, av_deleted_at = as_deleted_at record\<rparr>))"

record profile_view =
  pw_npub :: string
  pw_display_name :: "string option"
  pw_bio :: "string option"
  pw_avatar_url :: "string option"
  pw_website_url :: "string option"
  pw_location :: "string option"
  pw_visibility :: string
  pw_updated_at :: int

definition profile_view_handler ::
  "bech32_decoder \<Rightarrow> projections \<Rightarrow> string \<Rightarrow> (state_http_error, profile_view) result" where
  "profile_view_handler bech32 pj npub =
     and_then (parse_npub_param bech32 npub) (\<lambda>pubkey.
     and_then (projected ''profile'' (pj_profile pj pubkey)) (\<lambda>record.
     if visibility_v1_as_str (ps_visibility record) = ''private'' then Err (StateHttpNotFound ''profile'')
     else Ok \<lparr>pw_npub = npub, pw_display_name = ps_display_name record, pw_bio = ps_bio record,
         pw_avatar_url = ps_avatar_url record, pw_website_url = ps_website_url record,
         pw_location = ps_location record, pw_visibility = visibility_v1_as_str (ps_visibility record),
         pw_updated_at = ps_updated_at record\<rparr>))"

record repo_view =
  rw_owner :: string
  rw_repo :: string
  rw_description :: "string option"
  rw_website_url :: "string option"
  rw_visibility :: string
  rw_default_branch :: string
  rw_archived :: bool
  rw_updated_at :: int

definition repo_view_handler ::
  "bech32_decoder \<Rightarrow> projections \<Rightarrow> string \<Rightarrow> string \<Rightarrow> (state_http_error, repo_view) result" where
  "repo_view_handler bech32 pj owner repo =
     and_then (parse_npub_param bech32 owner) (\<lambda>owner_pubkey.
     and_then (projected ''repo'' (pj_repo pj owner_pubkey repo)) (\<lambda>record.
     Ok \<lparr>rw_owner = owner, rw_repo = rv_repo_name record, rw_description = rv_description record,
         rw_website_url = rv_website_url record, rw_visibility = visibility_v1_as_str (rv_visibility record),
         rw_default_branch = rv_default_branch record, rw_archived = rv_archived record,
         rw_updated_at = rv_updated_at record\<rparr>))"

record repo_maintainers_view =
  rm_owner :: string
  rm_repo :: string
  rm_maintainers :: "string list"

definition repo_maintainers_view_handler ::
  "bech32_decoder \<Rightarrow> npub_encoder \<Rightarrow> projections \<Rightarrow> string \<Rightarrow> string \<Rightarrow>
   (state_http_error, repo_maintainers_view) result" where
  "repo_maintainers_view_handler bech32 encode pj owner repo =
     and_then (parse_npub_param bech32 owner) (\<lambda>owner_pubkey.
     and_then (map_err (\<lambda>err. StateHttpStorage (storage_error_display err)) (pj_maintainers pj owner_pubkey repo)) (\<lambda>keys.
     Ok \<lparr>rm_owner = owner, rm_repo = repo,
         rm_maintainers = sort (filter_map (\<lambda>key. result_ok (npub_from_bytes encode key)) keys)\<rparr>))"

text \<open>The routes of \<open>build_router\<close> by the segments of the path, and what they serve.\<close>

datatype state_route =
    RouteHealth
  | RouteRelayCompatibility
  | RouteAccount string
  | RouteProfile string
  | RouteRepo string string
  | RouteMaintainers string string
  | RouteActivity string string

definition state_router :: "string list \<Rightarrow> state_route option" where
  "state_router segments =
     (if segments = [''health''] then Some RouteHealth
      else if segments = [''relay-compatibility''] then Some RouteRelayCompatibility
      else case segments of
        [v1, kind, npub] \<Rightarrow>
          (if v1 = ''v1'' \<and> kind = ''accounts'' then Some (RouteAccount npub)
           else if v1 = ''v1'' \<and> kind = ''profiles'' then Some (RouteProfile npub) else None)
      | [v1, kind, owner, repo] \<Rightarrow>
          (if v1 = ''v1'' \<and> kind = ''repos'' then Some (RouteRepo owner repo) else None)
      | [v1, kind, owner, repo, view] \<Rightarrow>
          (if v1 = ''v1'' \<and> kind = ''repos'' \<and> view = ''maintainers'' then Some (RouteMaintainers owner repo)
           else if v1 = ''v1'' \<and> kind = ''repos'' \<and> view = ''activity'' then Some (RouteActivity owner repo)
           else None)
      | _ \<Rightarrow> None)"

section \<open>The resolution of maintainers\<close>

text \<open>The keys that are looked up: the one asked for, and whom an announcement of such a key names.\<close>

inductive asked :: "(string \<Rightarrow> ('e, repo_announcement_record option) result) \<Rightarrow> string \<Rightarrow> string \<Rightarrow> bool"
  for ann root where
  asked_root: "asked ann root root"
| asked_step: "asked ann root p \<Longrightarrow> ann p = Ok (Some a) \<Longrightarrow> q \<in> set (rr_maintainers a) \<Longrightarrow> asked ann root q"

text \<open>What holds of the loop: \<open>known\<close> is what has been settled about a key.\<close>

definition loop_inv ::
  "(string \<Rightarrow> (state_service_error, repo_announcement_record option) result) \<Rightarrow> string \<Rightarrow> string list \<Rightarrow> string list \<Rightarrow> bool" where
  "loop_inv ann root pending seen \<longleftrightarrow> distinct seen \<and>
     (\<forall>p \<in> set seen. asked ann root p \<and> (\<exists>a. ann p = Ok (Some a))) \<and> (\<forall>p \<in> set pending. asked ann root p) \<and>
     (root \<in> set seen \<union> set pending \<or> ann root = Ok None) \<and>
     (\<forall>p a q. p \<in> set seen \<longrightarrow> ann p = Ok (Some a) \<longrightarrow> q \<in> set (rr_maintainers a) \<longrightarrow>
        q \<in> set seen \<union> set pending \<or> ann q = Ok None)"

lemma loop_inv_init: "loop_inv ann root [root] []"
  by (simp add: loop_inv_def asked_root)

lemma loop_inv_skip:
  "loop_inv ann root (p # pending) seen \<Longrightarrow> p \<in> set seen \<or> ann p = Ok None \<Longrightarrow> loop_inv ann root pending seen"
  by (auto simp: loop_inv_def; blast)

lemma loop_inv_push:
  assumes "loop_inv ann root (p # pending) seen" and "p \<notin> set seen" and "ann p = Ok (Some a)"
  shows "loop_inv ann root (rev (filter (\<lambda>m. m \<notin> set (p # seen)) (rr_maintainers a)) @ pending) (p # seen)"
  using assms by (auto simp: loop_inv_def intro: asked_step; blast)

text \<open>At the end the seen keys are the announced ones among those asked for, and no look-up failed.\<close>

lemma loop_inv_done:
  assumes "loop_inv ann root [] seen"
  shows "set seen = {p. asked ann root p \<and> (\<exists>a. ann p = Ok (Some a))}"
    and "asked ann root p \<Longrightarrow> \<exists>x. ann p = Ok x"
proof -
  have settled: "p \<in> set seen \<or> ann p = Ok None" if "asked ann root p" for p
    using that by induction (use assms in \<open>auto simp: loop_inv_def\<close>)
  then show "set seen = {p. asked ann root p \<and> (\<exists>a. ann p = Ok (Some a))}"
    using assms by (fastforce simp: loop_inv_def)
  show "asked ann root p \<Longrightarrow> \<exists>x. ann p = Ok x" using settled [of p] assms by (auto simp: loop_inv_def)
qed

lemma resolve_loop_returns:
  assumes "finite {p. asked ann root p}" and "loop_inv ann root pending seen"
  shows "\<exists>r. resolve_loop ann pending seen = Some r \<and>
    (case r of Inl e \<Rightarrow> \<exists>p. asked ann root p \<and> ann p = Err e | Inr s \<Rightarrow> loop_inv ann root [] s)"
  using assms(2)
proof (induction "(card ({p. asked ann root p} - set seen), length pending)" arbitrary: pending seen
    rule: wf_induct_rule [OF wf_lex_prod [OF wf_less_than wf_less_than]])
  case 1
  note IH = 1(1)
  show ?case
  proof (cases pending)
    case Nil
    then show ?thesis using 1(2) by (subst resolve_loop.simps) auto
  next
    case (Cons p rest)
    have shorter: "loop_inv ann root rest seen \<Longrightarrow> ?thesis" if "p \<in> set seen \<or> ann p = Ok None"
      using IH [of seen rest] Cons that by (subst resolve_loop.simps) auto
    show ?thesis
    proof (cases "p \<in> set seen \<or> ann p = Ok None")
      case True
      then show ?thesis using shorter loop_inv_skip 1(2) Cons by blast
    next
      case False
      show ?thesis
      proof (cases "ann p")
        case (Inl e)
        then show ?thesis using False Cons 1(2) by (subst resolve_loop.simps) (auto simp: loop_inv_def)
      next
        case (Inr x)
        then obtain a where a: "ann p = Ok (Some a)" using False by auto
        let ?pending = "rev (filter (\<lambda>m. m \<notin> set (p # seen)) (rr_maintainers a)) @ rest"
        have inv: "loop_inv ann root ?pending (p # seen)" using loop_inv_push 1(2) Cons False a by blast
        have "p \<in> {p. asked ann root p} - set seen" using 1(2) Cons False by (auto simp: loop_inv_def)
        then have "card ({p. asked ann root p} - set (p # seen)) < card ({p. asked ann root p} - set seen)"
          using assms(1) by (intro psubset_card_mono) auto
        then show ?thesis using IH [OF _ inv] False a Cons by (subst resolve_loop.simps) auto
      qed
    qed
  qed
qed

text \<open>Over the in-memory repositories only finitely many keys are named.\<close>

lemma latest_announcement_in:
  assumes "latest_announcement enc p i d = Some a"
  shows "\<exists>rs \<in> snd ` set (dr_announcements d). a \<in> set rs"
proof -
  have "a \<in> set (records_at (repo_key enc p i) (dr_announcements d))"
    using assms by (auto simp: latest_announcement_def list_announcements_def elim: latest_by_newest)
  then obtain rs where "map_of (dr_announcements d) (repo_key enc p i) = Some rs" "a \<in> set rs"
    by (cases "map_of (dr_announcements d) (repo_key enc p i)") (auto simp: records_at_def)
  then show ?thesis by (metis image_eqI map_of_SomeD snd_conv)
qed

abbreviation memory_find :: "encoder \<Rightarrow> hex_decoder \<Rightarrow> in_memory_directory \<Rightarrow> string \<Rightarrow> string \<Rightarrow>
    (state_service_error, repo_announcement_record option) result" where
  "memory_find enc dec d ident \<equiv> find_announcement dec (\<lambda>p i. Ok (latest_announcement enc p i d)) ident"

lemma memory_find_iff:
  "memory_find enc dec d ident p = Ok x \<longleftrightarrow> (\<exists>b. dec p = Some b \<and> x = latest_announcement enc b ident d)"
  "memory_find enc dec d ident p = Err e \<longleftrightarrow> dec p = None \<and> e = StateStorage (StorageInvalidHex ''pubkey'' p)"
  by (auto simp: find_announcement_def repo_filter_from_hex_def ok_or_def split: option.splits)

lemma memory_asked_finite: "finite {p. asked (memory_find enc dec d ident) root p}"
proof (rule finite_subset)
  let ?named = "insert root (\<Union>rs \<in> snd ` set (dr_announcements d). \<Union>a \<in> set rs. set (rr_maintainers a))"
  have "p \<in> ?named" if "asked (memory_find enc dec d ident) root p" for p
    using that by induction (auto simp: memory_find_iff dest!: sym [of "Some _"] latest_announcement_in)
  then show "{p. asked (memory_find enc dec d ident) root p} \<subseteq> ?named" by blast
qed simp

section \<open>Properties\<close>


definition sample_owner_record :: repo_announcement_record where
  "sample_owner_record =
     \<lparr>rr_event_id = [], rr_pubkey = [1], rr_identifier = ''r'', rr_name = None, rr_description = None,
      rr_root_commit = None, rr_clone_urls = [], rr_web_urls = [], rr_relays = [], rr_blossoms = [],
      rr_hashtags = [], rr_maintainers = [''02''], rr_created_at = 5\<rparr>"


record state_query =
  sq_now :: int
  sq_lookup :: "u8 list \<Rightarrow> string \<Rightarrow> (storage_error, repo_state_record option) result"
  sq_pubkey :: string
  sq_ident :: string

definition ask_state :: "state_codecs \<Rightarrow> cache_config \<Rightarrow> state_query \<Rightarrow> state_cache \<Rightarrow>
    (state_service_error, state_response) result \<times> state_cache" where
  "ask_state cod config q c = latest_state_cached cod config (sq_now q) (sq_lookup q) (sq_pubkey q) (sq_ident q) c"

definition cache_after :: "state_codecs \<Rightarrow> cache_config \<Rightarrow> state_query list \<Rightarrow> state_cache" where
  "cache_after cod config qs = foldl (\<lambda>c q. snd (ask_state cod config q c)) state_cache_new qs"

definition read_by :: "state_codecs \<Rightarrow> state_query \<Rightarrow> string \<Rightarrow> state_response \<Rightarrow> bool" where
  "read_by cod q key v \<longleftrightarrow> state_cache_key (sq_pubkey q) (sq_ident q) = key \<and>
     service_latest_state cod (sq_lookup q) (sq_pubkey q) (sq_ident q) = Ok v"

definition entries_read :: "state_codecs \<Rightarrow> state_query list \<Rightarrow> state_response cache_map \<Rightarrow> bool" where
  "entries_read cod qs m \<longleftrightarrow> hm_wf m \<and>
     (\<forall>key e. map_of m key = Some e \<longrightarrow> (\<exists>q \<in> set qs. sq_now q = cn_stored_at e \<and> read_by cod q key (cn_value e)))"

lemma ask_state_cases:
  assumes "entries_read cod qs (sx_states c)" and "ask_state cod config q c = (r, c')"
  shows "entries_read cod (qs @ [q]) (sx_states c')"
    and "r = Ok v \<Longrightarrow> \<exists>q' \<in> set (qs @ [q]). read_by cod q' (state_cache_key (sq_pubkey q) (sq_ident q)) v \<and>
      (q' = q \<or> (\<forall>ttl. cc_ttl config = Some ttl \<longrightarrow> sq_now q - sq_now q' < ttl))"
proof -
  let ?key = "state_cache_key (sq_pubkey q) (sq_ident q)"
  let ?resp = "service_latest_state cod (sq_lookup q) (sq_pubkey q) (sq_ident q)"
  let ?m = "sx_states c"
  have wf: "hm_wf ?m" using assms(1) by (simp add: entries_read_def)
  have old: "\<exists>q' \<in> set qs. sq_now q' = cn_stored_at e \<and> read_by cod q' k (cn_value e)" if "map_of ?m k = Some e" for k e
    using assms(1) that by (auto simp: entries_read_def)
  have more: "entries_read cod qs m \<Longrightarrow> entries_read cod (qs @ [q]) m" for m by (fastforce simp: entries_read_def)
  obtain y m where y: "answer_get config (sq_now q) ?key ?m = (y, m)" by (rule prod.exhaust)
  have m: "entries_read cod qs m"
    using y assms(1) wf by (auto simp: answer_get_def cache_lookup_def entries_read_def hm.wf_del hm.get_del
        split: if_splits option.splits)
  have hit: "\<exists>q' \<in> set qs. read_by cod q' ?key v \<and> (\<forall>ttl. cc_ttl config = Some ttl \<longrightarrow> sq_now q - sq_now q' < ttl)"
    if "y = Some v" for v
    using y that old by (fastforce simp: answer_get_def cache_lookup_def is_fresh_def split: if_splits option.splits)
  have put: "entries_read cod (qs @ [q]) (answer_put config (sq_now q) ?key v m)" if "?resp = Ok v" for v
  proof -
    let ?m' = "hm_insert ?key \<lparr>cn_value = v, cn_stored_at = sq_now q\<rparr> m"
    have mwf: "hm_wf m" using m by (simp add: entries_read_def)
    have "entries_read cod (qs @ [q]) ?m'"
      using m that by (auto simp: entries_read_def hm.wf_put hm.get_put [OF mwf] read_by_def)
    moreover have "hm_wf (evict_while n ?m')" "map_of (evict_while n ?m') k = Some e \<Longrightarrow> map_of ?m' k = Some e" for n k e
      using evict_while_sub [OF hm.wf_put [OF mwf]] by (auto simp: map_le_def dom_def) (metis (mono_tags) domI map_le_def)
    ultimately show ?thesis using more [OF m] by (auto simp: answer_put_def entries_read_def)
  qed
  have r: "(r, sx_states c') = cached_answer config (sq_now q) ?key ?resp ?m"
    using assms(2) by (auto simp: ask_state_def latest_state_cached_def split: prod.splits)
  show "entries_read cod (qs @ [q]) (sx_states c')"
    using r y put more [OF m] by (auto simp: cached_answer_def split: option.splits sum.splits)
  show "r = Ok v \<Longrightarrow> \<exists>q' \<in> set (qs @ [q]). read_by cod q' ?key v \<and>
      (q' = q \<or> (\<forall>ttl. cc_ttl config = Some ttl \<longrightarrow> sq_now q - sq_now q' < ttl))"
    using r y hit by (auto simp: cached_answer_def read_by_def split: option.splits sum.splits)
qed

text \<open>
  An answer from the cache is never older than its time to live: after any queries at any instants, over
  repositories that may have changed between any two of them, what is answered for a repository is what some query
  under the same key read from the repository of its time, this one or one made less than the time to live ago.\<close>

theorem cached_state_age:
  assumes "ask_state cod config q (cache_after cod config before) = (Ok v, c')"
  shows "\<exists>q' \<in> set (before @ [q]). state_cache_key (sq_pubkey q') (sq_ident q') = state_cache_key (sq_pubkey q) (sq_ident q) \<and>
    service_latest_state cod (sq_lookup q') (sq_pubkey q') (sq_ident q') = Ok v \<and>
    (q' = q \<or> (\<forall>ttl. cc_ttl config = Some ttl \<longrightarrow> sq_now q - sq_now q' < ttl))"
proof -
  have "entries_read cod qs (sx_states (cache_after cod config qs))" for qs
  proof (induction qs rule: rev_induct)
    case Nil
    then show ?case by (simp add: entries_read_def cache_after_def state_cache_new_def hm.wf_empty)
  next
    case (snoc q qs)
    have "ask_state cod config q (cache_after cod config qs) =
        (fst (ask_state cod config q (cache_after cod config qs)), cache_after cod config (qs @ [q]))"
      by (simp add: cache_after_def)
    from ask_state_cases(1) [OF snoc this] show ?case .
  qed
  from ask_state_cases(2) [OF this assms] show ?thesis by (fastforce simp: read_by_def)
qed

definition sample_codecs :: state_codecs where
  "sample_codecs = \<lparr>sd_enc = bytes_to_hex, sd_dec = bytes_of_hex, sd_from_json = (\<lambda>_. Ok [])\<rparr>"

definition sample_query :: "int \<Rightarrow> repo_state_record option \<Rightarrow> state_query" where
  "sample_query now found = \<lparr>sq_now = now, sq_lookup = (\<lambda>_ _. Ok found), sq_pubkey = ''01'', sq_ident = ''r''\<rparr>"

theorem cached_state_age_witness:
  "\<exists>q' \<in> set [sample_query 0 (Some (cache_example_state 1 10)), sample_query 5 None].
     service_latest_state sample_codecs (sq_lookup q') (sq_pubkey q') (sq_ident q') =
       Ok \<lparr>sp_event_id = ''01'', sp_pubkey = ''01'', sp_identifier = ''r'', sp_created_at = 10, sp_state = []\<rparr>"
proof -
  let ?v = "\<lparr>sp_event_id = ''01'', sp_pubkey = ''01'', sp_identifier = ''r'', sp_created_at = 10, sp_state = []\<rparr>"
  let ?q = "sample_query 0 (Some (cache_example_state 1 10))"
  have "bytes_of_hex ''01'' = Some [1]" "bytes_to_hex [1] = ''01''" by code_simp+
  moreover have "\<not> blank ''r''" by (rule not_blank_lead) simp_all
  ultimately have "service_latest_state sample_codecs (sq_lookup ?q) (sq_pubkey ?q) (sq_ident ?q) = Ok ?v"
    by (simp add: service_latest_state_def sample_codecs_def sample_query_def repo_filter_from_hex_def state_map_def
        cache_example_state_def)
  then have c: "sx_states (cache_after sample_codecs cache_config_default [?q]) =
      [(''01:r'', \<lparr>cn_value = ?v, cn_stored_at = 0\<rparr>)]"
    by (simp add: cache_after_def ask_state_def latest_state_cached_def cached_answer_def answer_get_def cache_lookup_def
        answer_put_def state_cache_new_def state_cache_key_def cache_enabled_def cache_config_default_def
        evict_while.simps sample_query_def)
  have "sx_states c = [(''01:r'', \<lparr>cn_value = ?v, cn_stored_at = 0\<rparr>)] \<Longrightarrow>
      fst (ask_state sample_codecs cache_config_default (sample_query 5 None) c) = Ok ?v" for c
    by (simp add: ask_state_def latest_state_cached_def cached_answer_def answer_get_def cache_lookup_def
        state_cache_key_def cache_enabled_def cache_config_default_def is_fresh_def sample_query_def)
  from this [OF c] obtain c' where "ask_state sample_codecs cache_config_default (sample_query 5 None)
      (cache_after sample_codecs cache_config_default [?q]) = (Ok ?v, c')" by (metis prod.collapse)
  from cached_state_age [OF this] show ?thesis by auto
qed



end
