(* ===== verification/Admission_Service.thy ===== *)
theory Admission_Service
  imports Relay_Protocol Storage_Cache Service_Settings
begin

text \<open>
  The admission service (\<open>services/admission/src/lib.rs\<close>): what the relay's admission client asks. A
  request is checked, decided by \<open>evaluate_admission\<close> of the core crate or by the list of control keys, then
  by what is stored of the relay and of the repository, and the decision is cached. The rate limiter of the crate
  is modelled too. The repositories are the operations \<open>repository_ops\<close> of the storage crate, instants and
  spans are nanoseconds.
\<close>

section \<open>Requests\<close>

record admission_query =
  aq_kind :: nat
  aq_pubkey :: string
  aq_event_id :: string
  aq_tags :: "tag list"
  aq_relay_url :: "string option"
  aq_source_ip :: "string option"

datatype admission_query_error =
    QueryMissingField string
  | QueryInvalidTag
  | QueryInvalidKind nat
  | QueryInvalidRelayUrl

fun admission_query_error_display :: "admission_query_error \<Rightarrow> string" where
  "admission_query_error_display (QueryMissingField field) = ''missing admission field '' @ field"
| "admission_query_error_display QueryInvalidTag = ''invalid admission tag''"
| "admission_query_error_display (QueryInvalidKind kind) = ''invalid admission kind '' @ show_nat kind"
| "admission_query_error_display QueryInvalidRelayUrl = ''invalid admission relay url''"

definition admission_query_new ::
  "nat \<Rightarrow> string \<Rightarrow> string \<Rightarrow> tag list \<Rightarrow> string option \<Rightarrow> string option \<Rightarrow> (admission_query_error, admission_query) result" where
  "admission_query_new kind pubkey event_id tags relay_url source_ip =
     (if pubkey = [] then Err (QueryMissingField ''pubkey'')
      else if event_id = [] then Err (QueryMissingField ''event_id'')
      else if list_ex (\<lambda>tag. tag = []) tags then Err QueryInvalidTag
      else if (case relay_url of Some url \<Rightarrow> blank url | None \<Rightarrow> False) then Err QueryInvalidRelayUrl
      else Ok \<lparr>aq_kind = kind, aq_pubkey = pubkey, aq_event_id = event_id, aq_tags = tags,
        aq_relay_url = relay_url, aq_source_ip = source_ip\<rparr>)"

definition kind_u32 :: "admission_query \<Rightarrow> (admission_query_error, u32) result" where
  "kind_u32 q = (if aq_kind q < 2 ^ 32 then Ok (of_nat (aq_kind q)) else Err (QueryInvalidKind (aq_kind q)))"

datatype admission_decision_error = MissingReason | MissingFilters

fun admission_decision_error_display :: "admission_decision_error \<Rightarrow> string" where
  "admission_decision_error_display MissingReason = ''missing admission rejection reason''"
| "admission_decision_error_display MissingFilters = ''missing related event filters''"

definition decision_reject :: "string \<Rightarrow> (admission_decision_error, admission_decision) result" where
  "decision_reject reason = (if blank reason then Err MissingReason else Ok (Reject reason))"

definition decision_requires_related :: "event_filter list \<Rightarrow> (admission_decision_error, admission_decision) result" where
  "decision_requires_related filters = (if filters = [] then Err MissingFilters else Ok (RequiresRelatedEvents filters))"

text \<open>The errors of the tracing set-up come as their text.\<close>

datatype admission_error =
    AdmissionConfigFailed service_config_error
  | AdmissionRequestFailed admission_query_error
  | AdmissionCoreFailed core_error
  | AdmissionObservabilityConfig string
  | AdmissionObservability string
  | AdmissionStorageFailed storage_error
  | AdmissionServe string

fun admission_error_display :: "admission_error \<Rightarrow> string" where
  "admission_error_display (AdmissionConfigFailed err) = ''admission config error: '' @ service_config_error_display ''admission'' err"
| "admission_error_display (AdmissionRequestFailed err) = ''admission request error: '' @ admission_query_error_display err"
| "admission_error_display (AdmissionCoreFailed err) = ''admission core error: '' @ core_error_display err"
| "admission_error_display (AdmissionObservabilityConfig err) = ''admission observability config error: '' @ err"
| "admission_error_display (AdmissionObservability err) = ''admission observability error: '' @ err"
| "admission_error_display (AdmissionStorageFailed err) = ''admission storage error: '' @ storage_error_display err"
| "admission_error_display (AdmissionServe err) = ''admission serve error: '' @ err"

definition parse_csv_values :: "string \<Rightarrow> string list" where
  "parse_csv_values raw = filter (\<lambda>entry. entry \<noteq> []) (map trim (str_split raw CHR '',''))"

definition admin_keys_from_env :: "environment \<Rightarrow> string list" where
  "admin_keys_from_env env =
     (case env ''GITTREE_CONTROL_ADMIN_KEYS'' of Some v \<Rightarrow> parse_csv_values v | None \<Rightarrow> [])"

record admission_config =
  ad_bind :: string
  ad_compatibility :: relay_compatibility_config
  ad_storage :: storage_config
  ad_control_admin_keys :: "string list"

definition admission_config_from_env :: "environment \<Rightarrow> admission_config settings" where
  "admission_config_from_env env =
     and_then (map_err ServiceConfigFailed (services_from_env_validated env)) (\<lambda>services.
     and_then (map_err ServiceConfigFailed (relay_compatibility_from_env env)) (\<lambda>compatibility.
     and_then (map_err ServiceStorage (storage_from_env env)) (\<lambda>storage.
     Ok \<lparr>ad_bind = sc_bind (sv_admission services), ad_compatibility = compatibility, ad_storage = storage,
         ad_control_admin_keys = admin_keys_from_env env\<rparr>)))"

section \<open>The decision\<close>

definition is_control_admin :: "string \<Rightarrow> string list \<Rightarrow> bool" where
  "is_control_admin pubkey admin_keys \<longleftrightarrow>
     list_ex (\<lambda>key. to_ascii_lowercase key = to_ascii_lowercase pubkey) admin_keys"

definition evaluate_request_with_admin_keys ::
  "url_parser \<Rightarrow> admission_query \<Rightarrow> string list \<Rightarrow> (admission_error, admission_decision) result" where
  "evaluate_request_with_admin_keys url_parse q admin_keys =
     and_then (map_err AdmissionRequestFailed (kind_u32 q)) (\<lambda>kind.
       if kind = kind_value KIND_GITTREE_CONTROL then
         (if is_control_admin (aq_pubkey q) admin_keys then Ok Accept else Ok (Reject ''control event not authorized''))
       else map_err AdmissionCoreFailed
         (evaluate_admission url_parse kind (aq_pubkey q) (aq_event_id q) (aq_tags q) (aq_relay_url q)))"

definition evaluate_request :: "url_parser \<Rightarrow> admission_query \<Rightarrow> (admission_error, admission_decision) result" where
  "evaluate_request url_parse q = evaluate_request_with_admin_keys url_parse q []"

fun repo_address_from_tags :: "tag list \<Rightarrow> repo_address core_result" where
  "repo_address_from_tags [] = Err (MissingField ''a'')"
| "repo_address_from_tags ([] # tags) = repo_address_from_tags tags"
| "repo_address_from_tags ((kind # rest) # tags) =
     (if kind = ''a'' \<or> kind = ''A'' then
        (case rest of [] \<Rightarrow> Err (InvalidTag ''a'' []) | v # _ \<Rightarrow> repo_address_parse v)
      else repo_address_from_tags tags)"

definition repo_address_from_filters :: "event_filter list \<Rightarrow> repo_address option" where
  "repo_address_from_filters filters =
     find_map (\<lambda>f. case map_of (ef_tags f) ''a'' of
         Some addresses \<Rightarrow> find_map (\<lambda>v. result_ok (repo_address_parse v)) addresses
       | None \<Rightarrow> None) filters"

text \<open>The repositories read the three look-ups; the state of the repository is given.\<close>

definition repo_exists :: "hex_decoder \<Rightarrow> 'r repository_ops \<Rightarrow> 'r \<Rightarrow> repo_address \<Rightarrow> (storage_error, bool) result" where
  "repo_exists dec ops s address =
     and_then (ok_or (StorageInvalidHex ''pubkey'' (addr_pubkey address)) (dec (addr_pubkey address))) (\<lambda>pubkey.
     and_then (ri_latest_announcement ops pubkey (addr_identifier address) s) (\<lambda>announcement.
       if announcement \<noteq> None then Ok True
       else and_then (ri_latest_state ops pubkey (addr_identifier address) s) (\<lambda>st. Ok (st \<noteq> None))))"

text \<open>The answer to what is stored of the relay: \<open>Some\<close> returns at once, \<open>None\<close> goes on.\<close>

definition relay_verdict ::
  "relay_compatibility_mode \<Rightarrow> string \<Rightarrow> (storage_error, relay_compatibility_record option) result \<Rightarrow>
   admission_decision \<Rightarrow> admission_decision option" where
  "relay_verdict mode relay_url found decision =
     (case found of
        Inr (Some record) \<Rightarrow>
          (if \<not> rc_compatible record
           then Some (if mode = ModeStrict then Reject (''relay incompatible: '' @ relay_url) else decision)
           else None)
      | Inr None \<Rightarrow> Some (if mode = ModeStrict then Reject (''relay compatibility missing: '' @ relay_url) else decision)
      | Inl err \<Rightarrow> Some (if mode = ModeStrict then Reject (''storage error: '' @ storage_error_display err) else decision))"

definition related_verdict ::
  "hex_decoder \<Rightarrow> 'r repository_ops \<Rightarrow> 'r \<Rightarrow> tag list \<Rightarrow> event_filter list \<Rightarrow> admission_decision" where
  "related_verdict dec ops s tags filters =
     (case (case repo_address_from_filters filters of
              Some address \<Rightarrow> Some address
            | None \<Rightarrow> result_ok (repo_address_from_tags tags)) of
        None \<Rightarrow> Reject ''missing repo address for related event checks''
      | Some address \<Rightarrow>
          (case repo_exists dec ops s address of
             Inr True \<Rightarrow> RequiresRelatedEvents filters
           | Inr False \<Rightarrow> Reject ''repository not found for related event checks''
           | Inl err \<Rightarrow> Reject (''storage error: '' @ storage_error_display err)))"

definition evaluate_request_with_storage_mode ::
  "url_parser \<Rightarrow> hex_decoder \<Rightarrow> 'r repository_ops \<Rightarrow> 'r \<Rightarrow> relay_compatibility_mode \<Rightarrow> string list \<Rightarrow> admission_query \<Rightarrow>
   (admission_error, admission_decision) result" where
  "evaluate_request_with_storage_mode url_parse dec ops s mode admin_keys q =
     and_then (evaluate_request_with_admin_keys url_parse q admin_keys) (\<lambda>decision.
       case Option.bind (aq_relay_url q) (\<lambda>url. relay_verdict mode url (ri_compatibility ops url s) decision) of
         Some verdict \<Rightarrow> Ok verdict
       | None \<Rightarrow>
           (case decision of
              RequiresRelatedEvents filters \<Rightarrow> Ok (related_verdict dec ops s (aq_tags q) filters)
            | _ \<Rightarrow> Ok decision))"

section \<open>The cache of decisions\<close>

definition admission_cache_key :: "admission_query \<Rightarrow> string" where
  "admission_cache_key q = show_nat (aq_kind q) @ '':'' @ aq_pubkey q @ '':'' @ aq_event_id q"

definition evict_oldest :: "cache_config \<Rightarrow> 'v cache_map \<Rightarrow> 'v cache_map" where
  "evict_oldest config m =
     (let max_entries = cc_max_entries config in
      if max_entries = 0 then []
      else if length m \<le> max_entries then m
      else
        (let oldest = sort_key fst (map (\<lambda>(key, e). (cn_stored_at e, key)) m)
         in foldl (\<lambda>m (_, key). AList.delete key m) m (take (length m - max_entries) oldest)))"

definition admission_cache_get ::
  "cache_config \<Rightarrow> int \<Rightarrow> string \<Rightarrow> admission_decision cache_map \<Rightarrow> admission_decision option \<times> admission_decision cache_map" where
  "admission_cache_get config now key m = (if \<not> cache_enabled config then (None, m) else cache_lookup config now key m)"

definition admission_cache_insert ::
  "cache_config \<Rightarrow> int \<Rightarrow> string \<Rightarrow> admission_decision \<Rightarrow> admission_decision cache_map \<Rightarrow> admission_decision cache_map" where
  "admission_cache_insert config now key decision m =
     (if \<not> cache_enabled config then m
      else evict_oldest config (hm_insert key \<lparr>cn_value = decision, cn_stored_at = now\<rparr> m))"

definition evaluate_request_cached_mode ::
  "url_parser \<Rightarrow> hex_decoder \<Rightarrow> 'r repository_ops \<Rightarrow> 'r \<Rightarrow> cache_config \<Rightarrow> int \<Rightarrow> relay_compatibility_mode \<Rightarrow> string list \<Rightarrow>
   admission_query \<Rightarrow> admission_decision cache_map \<Rightarrow>
   (admission_error, admission_decision, admission_decision cache_map) st_result" where
  "evaluate_request_cached_mode url_parse dec ops s config now mode admin_keys q m =
     (let key = admission_cache_key q in
      case admission_cache_get config now key m of
        (Some cached, m) \<Rightarrow> (Ok cached, m)
      | (None, m) \<Rightarrow>
          (case evaluate_request_with_storage_mode url_parse dec ops s mode admin_keys q of
             Inl err \<Rightarrow> (Err err, m)
           | Inr decision \<Rightarrow> (Ok decision, admission_cache_insert config now key decision m)))"

section \<open>The rate limiter\<close>

record ip_limit_config =
  il_per_ip :: u32
  il_per_pubkey :: u32
  il_window :: nat

record limit_counter =
  lc_count :: u32
  lc_window_start :: nat

record ip_limiter =
  li_config :: ip_limit_config
  li_ip_counters :: "(string, limit_counter) entries"
  li_pubkey_counters :: "(string, limit_counter) entries"

definition ip_limit_default :: ip_limit_config where
  "ip_limit_default = \<lparr>il_per_ip = 120, il_per_pubkey = 60, il_window = 60 * 10 ^ 9\<rparr>"

definition ip_limiter_new :: "ip_limit_config \<Rightarrow> ip_limiter" where
  "ip_limiter_new config = \<lparr>li_config = config, li_ip_counters = [], li_pubkey_counters = []\<rparr>"

definition limiter_hit ::
  "nat \<Rightarrow> nat \<Rightarrow> string \<Rightarrow> u32 \<Rightarrow> (string, limit_counter) entries \<Rightarrow> bool \<times> (string, limit_counter) entries" where
  "limiter_hit window now key limit counters =
     (if limit = 0 then (False, counters)
      else
        (let entry = (case map_of counters key of Some e \<Rightarrow> e | None \<Rightarrow> \<lparr>lc_count = 0, lc_window_start = now\<rparr>);
             entry = (if now - lc_window_start entry \<ge> window then \<lparr>lc_count = 0, lc_window_start = now\<rparr> else entry)
         in if lc_count entry \<ge> limit then (True, hm_insert key entry counters)
            else (False, hm_insert key (entry\<lparr>lc_count := lc_count entry + 1\<rparr>) counters)))"

definition limiter_check :: "nat \<Rightarrow> admission_query \<Rightarrow> ip_limiter \<Rightarrow> admission_decision option \<times> ip_limiter" where
  "limiter_check now q l =
     (let window = il_window (li_config l);
          (hit, ips) = (case aq_source_ip q of
             Some ip \<Rightarrow> limiter_hit window now ip (il_per_ip (li_config l)) (li_ip_counters l)
           | None \<Rightarrow> (False, li_ip_counters l));
          l = l\<lparr>li_ip_counters := ips\<rparr>
      in if hit then (Some (Reject ''rate limit exceeded for ip''), l)
         else
           (case limiter_hit window now (aq_pubkey q) (il_per_pubkey (li_config l)) (li_pubkey_counters l) of
              (hit, keys) \<Rightarrow>
                (if hit then Some (Reject ''rate limit exceeded for pubkey'') else None, l\<lparr>li_pubkey_counters := keys\<rparr>)))"

section \<open>The interface\<close>

fun decision_payload :: "admission_decision \<Rightarrow> admission_decision_payload" where
  "decision_payload Accept = PayloadAccept"
| "decision_payload (Reject reason) = PayloadReject reason"
| "decision_payload (RequiresRelatedEvents filters) = PayloadRequiresRelatedEvents (map admission_filter_of filters)"

datatype admission_http_error = AdmissionBadRequest string | AdmissionInternal string

fun admission_http_error_from :: "admission_error \<Rightarrow> admission_http_error" where
  "admission_http_error_from (AdmissionRequestFailed err) = AdmissionBadRequest (admission_query_error_display err)"
| "admission_http_error_from (AdmissionCoreFailed err) = AdmissionBadRequest (core_error_display err)"
| "admission_http_error_from (AdmissionStorageFailed err) = AdmissionInternal (storage_error_display err)"
| "admission_http_error_from (AdmissionConfigFailed err) = AdmissionInternal (service_config_error_display ''admission'' err)"
| "admission_http_error_from (AdmissionObservabilityConfig err) = AdmissionInternal err"
| "admission_http_error_from (AdmissionObservability err) = AdmissionInternal err"
| "admission_http_error_from (AdmissionServe err) = AdmissionInternal err"

fun admission_http_response :: "admission_http_error \<Rightarrow> nat \<times> string" where
  "admission_http_response (AdmissionBadRequest message) = (400, message)"
| "admission_http_response (AdmissionInternal message) = (500, message)"

record 'r admission_state =
  as_url_parse :: url_parser
  as_dec :: hex_decoder
  as_ops :: "'r repository_ops"
  as_cache_config :: cache_config
  as_mode :: relay_compatibility_mode
  as_admin_keys :: "string list"

definition decide_handler ::
  "'r admission_state \<Rightarrow> 'r \<Rightarrow> int \<Rightarrow> admission_request_payload \<Rightarrow> admission_decision cache_map \<Rightarrow>
   (admission_http_error, admission_decision_payload, admission_decision cache_map) st_result" where
  "decide_handler st s now payload m =
     (case admission_query_new (ap_kind payload) (ap_pubkey payload) (ap_event_id payload) (ap_tags payload)
         (ap_relay_url payload) (ap_source_ip payload) of
        Inl err \<Rightarrow> (Err (AdmissionBadRequest (admission_query_error_display err)), m)
      | Inr q \<Rightarrow>
          (case evaluate_request_cached_mode (as_url_parse st) (as_dec st) (as_ops st) s (as_cache_config st) now
              (as_mode st) (as_admin_keys st) q m of
             (Inl err, m) \<Rightarrow> (Err (admission_http_error_from err), m)
           | (Inr decision, m) \<Rightarrow> (Ok (decision_payload decision), m)))"

section \<open>Eviction in one pass\<close>

text \<open>Sorting by age puts the entry \<open>oldest_key\<close> finds first, and what follows is the sorted rest.\<close>

abbreviation first_min :: "('a \<Rightarrow> int) \<Rightarrow> 'a list \<Rightarrow> 'a" where
  "first_min f xs \<equiv> hd (filter (\<lambda>x. f x = Min (f ` set xs)) xs)"

lemma first_min_Cons:
  assumes "xs \<noteq> []"
  shows "first_min f (y # xs) = (if f y \<le> Min (f ` set xs) then y else first_min f xs)"
  using assms by (auto simp: min_def)

lemma first_min_value: "xs \<noteq> [] \<Longrightarrow> first_min f xs \<in> set xs \<and> f (first_min f xs) = Min (f ` set xs)"
proof (induction xs)
  case (Cons y xs)
  show ?case
  proof (cases "xs = []")
    case False
    with Cons have "first_min f xs \<in> set xs" "f (first_min f xs) = Min (f ` set xs)" by blast+
    with False show ?thesis unfolding first_min_Cons [OF False] by (auto simp: min_def)
  qed simp
qed simp

lemma sort_key_first: "xs \<noteq> [] \<Longrightarrow> sort_key f xs = first_min f xs # sort_key f (remove1 (first_min f xs) xs)"
proof (induction xs)
  case (Cons y xs)
  show ?case
  proof (cases "xs = []")
    case False
    let ?x = "first_min f xs"
    have IH: "sort_key f xs = ?x # sort_key f (remove1 ?x xs)" using Cons False by blast
    have x: "f ?x = Min (f ` set xs)" using first_min_value [OF False] by blast
    show ?thesis
    proof (cases "f y \<le> f ?x")
      case True
      then show ?thesis unfolding first_min_Cons [OF False] using IH x by simp
    next
      case less: False
      have "sort_key f (y # xs) = insort_key f y (?x # sort_key f (remove1 ?x xs))" using IH by simp
      also have "\<dots> = ?x # insort_key f y (sort_key f (remove1 ?x xs))" using less by simp
      also have "\<dots> = ?x # sort_key f (remove1 ?x (y # xs))" using less by auto
      finally show ?thesis unfolding first_min_Cons [OF False] using less x by simp
    qed
  qed simp
qed simp

lemma delete_remove1: "hm_wf m \<Longrightarrow> (k, e) \<in> set m \<Longrightarrow> AList.delete k m = remove1 (k, e) m"
proof (induction m)
  case (Cons x m)
  then show ?case
    by (cases "fst x = k") (auto simp: hm_wf_def AList.delete_eq filter_id_conv rev_image_eqI)
qed simp

lemma oldest_entry:
  assumes "hm_wf m" and "m \<noteq> []"
  obtains x where "x \<in> set m" and "first_min (\<lambda>e. cn_stored_at (snd e)) m = x" and "fst x = oldest_key m"
    and "AList.delete (oldest_key m) m = remove1 x m"
proof
  let ?x = "first_min (\<lambda>e. cn_stored_at (snd e)) m"
  show mem: "?x \<in> set m" using first_min_value [OF assms(2), of "\<lambda>e. cn_stored_at (snd e)"] by simp
  show key: "fst ?x = oldest_key m" by (simp add: oldest_key_def)
  obtain k e where x: "?x = (k, e)" by (rule prod.exhaust)
  then have "oldest_key m = k" "(k, e) \<in> set m" using mem key by simp_all
  then show "AList.delete (oldest_key m) m = remove1 ?x m" unfolding x using delete_remove1 [OF assms(1)] by simp
qed simp

lemma oldest_first:
  assumes "hm_wf m" and "m \<noteq> []"
  shows "map fst (sort_key (\<lambda>e. cn_stored_at (snd e)) m) =
    oldest_key m # map fst (sort_key (\<lambda>e. cn_stored_at (snd e)) (AList.delete (oldest_key m) m))"
proof -
  obtain x where "first_min (\<lambda>e. cn_stored_at (snd e)) m = x" "fst x = oldest_key m"
    "AList.delete (oldest_key m) m = remove1 x m"
    using assms by (rule oldest_entry)
  then show ?thesis using sort_key_first [OF assms(2), of "\<lambda>e. cn_stored_at (snd e)"] by simp
qed

lemma sort_ages:
  "map snd (sort_key fst (map (\<lambda>(key, e). (cn_stored_at e, key)) m)) = map fst (sort_key (\<lambda>e. cn_stored_at (snd e)) m)"
proof -
  have "map snd (insort_key fst (case x of (key, e) \<Rightarrow> (cn_stored_at e, key)) (map (\<lambda>(key, e). (cn_stored_at e, key)) xs)) =
      map fst (insort_key (\<lambda>e. cn_stored_at (snd e)) x xs)" for x and xs :: "(string \<times> 'a cache_entry) list"
    by (induction xs) (auto split: prod.splits)
  moreover have "sort_key fst (map (\<lambda>(key, e). (cn_stored_at e, key)) m) =
      map (\<lambda>(key, e). (cn_stored_at e, key)) (sort_key (\<lambda>e. cn_stored_at (snd e)) m)"
  proof (induction m)
    case (Cons x m)
    have "insort_key fst (case x of (key, e) \<Rightarrow> (cn_stored_at e, key)) (map (\<lambda>(key, e). (cn_stored_at e, key)) xs) =
        map (\<lambda>(key, e). (cn_stored_at e, key)) (insort_key (\<lambda>e. cn_stored_at (snd e)) x xs)" for xs
      by (induction xs) (auto split: prod.splits)
    with Cons show ?case by simp
  qed simp
  ultimately show ?thesis by (simp add: case_prod_unfold)
qed

lemma evict_while_fold:
  "hm_wf m \<Longrightarrow> evict_while n m =
     foldl (\<lambda>m key. AList.delete key m) m (take (length m - n) (map fst (sort_key (\<lambda>e. cn_stored_at (snd e)) m)))"
proof (induction n m rule: evict_while.induct)
  case (1 n m)
  show ?case
  proof (cases "length m > n")
    case True
    let ?m = "AList.delete (oldest_key m) m"
    have ne: "m \<noteq> []" using True by auto
    obtain x where "x \<in> set m" "?m = remove1 x m" using 1(2) ne by (rule oldest_entry)
    then have "Suc (length ?m) = length m" using ne by (simp add: length_remove1)
    then have len: "length m - n = Suc (length ?m - n)" using True by simp
    have "evict_while n m = evict_while n ?m" using True by (subst evict_while.simps) simp
    also have "\<dots> = foldl (\<lambda>m key. AList.delete key m) ?m (take (length ?m - n) (map fst (sort_key (\<lambda>e. cn_stored_at (snd e)) ?m)))"
      using 1(1) [OF True] 1(2) by (simp add: hm.wf_del)
    also have "\<dots> = foldl (\<lambda>m key. AList.delete key m) m (take (length m - n) (map fst (sort_key (\<lambda>e. cn_stored_at (snd e)) m)))"
      unfolding oldest_first [OF 1(2) ne] len by simp
    finally show ?thesis .
  next
    case False
    then show ?thesis by (subst evict_while.simps) simp
  qed
qed

section \<open>Properties\<close>

text \<open>
  Evicting the oldest entries in one pass over the sorted ages leaves the very map that removing one oldest entry
  after the other leaves, which is how the storage crate's cache does it: two implementations of one policy.\<close>

theorem evict_oldest_equiv:
  assumes "hm_wf m"
  shows "evict_oldest config m = evict_if_needed config m"
proof -
  have "foldl (\<lambda>m (_, key). AList.delete key m) m xs = foldl (\<lambda>m key. AList.delete key m) m (map snd xs)"
    for m :: "'a cache_map" and xs :: "(int \<times> string) list"
    by (induction xs arbitrary: m) auto
  then show ?thesis
    using evict_while_fold [OF assms, of "cc_max_entries config"]
    by (simp add: evict_oldest_def evict_if_needed_def Let_def take_map [symmetric] sort_ages)
qed

theorem evict_oldest_equiv_witness:
  "evict_oldest \<lparr>cc_ttl = None, cc_max_entries = 1\<rparr>
     [(''a'', \<lparr>cn_value = 1 :: nat, cn_stored_at = 5\<rparr>), (''b'', \<lparr>cn_value = 2, cn_stored_at = 3\<rparr>)] =
   evict_if_needed \<lparr>cc_ttl = None, cc_max_entries = 1\<rparr>
     [(''a'', \<lparr>cn_value = 1, cn_stored_at = 5\<rparr>), (''b'', \<lparr>cn_value = 2, cn_stored_at = 3\<rparr>)]"
  by (rule evict_oldest_equiv) (simp add: hm_wf_def)

definition service_send ::
  "'r admission_state \<Rightarrow> 'r \<Rightarrow> int \<Rightarrow> admission_decision cache_map \<Rightarrow> admission_transport" where
  "service_send st s now m = (\<lambda>_ payload.
     map_err (\<lambda>err. HookTransport (snd (admission_http_response err))) (fst (decide_handler st s now payload m)))"

lemma admission_request_query:
  "admission_request e = Ok payload \<Longrightarrow> pred_option (\<lambda>url. \<not> blank url) (re_relay_url e) \<Longrightarrow>
   admission_query_new (ap_kind payload) (ap_pubkey payload) (ap_event_id payload) (ap_tags payload)
     (ap_relay_url payload) (ap_source_ip payload) =
   Ok \<lparr>aq_kind = re_kind e, aq_pubkey = re_pubkey e, aq_event_id = re_event_id e, aq_tags = re_tags e,
     aq_relay_url = re_relay_url e, aq_source_ip = re_source_ip e\<rparr>"
  by (auto simp: admission_request_def admission_query_new_def split: if_splits option.splits)

lemma blank_relay_url:
  "admission_request e = Ok payload \<Longrightarrow> re_relay_url e = Some url \<Longrightarrow> blank url \<Longrightarrow>
   admission_query_new (ap_kind payload) (ap_pubkey payload) (ap_event_id payload) (ap_tags payload)
     (ap_relay_url payload) (ap_source_ip payload) = Err QueryInvalidRelayUrl"
  by (auto simp: admission_request_def admission_query_new_def split: if_splits)

lemma decide_fresh:
  "admission_query_new (ap_kind payload) (ap_pubkey payload) (ap_event_id payload) (ap_tags payload)
     (ap_relay_url payload) (ap_source_ip payload) = Ok q \<Longrightarrow>
   fst (decide_handler st s now payload []) = map_sum admission_http_error_from decision_payload
     (evaluate_request_with_storage_mode (as_url_parse st) (as_dec st) (as_ops st) s (as_mode st) (as_admin_keys st) q)"
  by (simp add: decide_handler_def evaluate_request_cached_mode_def admission_cache_get_def cache_lookup_def Let_def
      split: sum.splits)

lemma strict_accept:
  "evaluate_request_with_storage_mode url_parse dec ops s ModeStrict keys q = Ok Accept \<longleftrightarrow>
     aq_kind q < 2 ^ 32 \<and>
     (\<forall>url. aq_relay_url q = Some url \<longrightarrow> (\<exists>r. ri_compatibility ops url s = Ok (Some r) \<and> rc_compatible r)) \<and>
     (if of_nat (aq_kind q) = kind_value KIND_GITTREE_CONTROL then is_control_admin (aq_pubkey q) keys
      else evaluate_admission url_parse (of_nat (aq_kind q)) (aq_pubkey q) (aq_event_id q) (aq_tags q) (aq_relay_url q) =
        Ok Accept)"
proof -
  have first: "evaluate_request_with_admin_keys url_parse q keys = Ok Accept \<longleftrightarrow> aq_kind q < 2 ^ 32 \<and>
      (if of_nat (aq_kind q) = kind_value KIND_GITTREE_CONTROL then is_control_admin (aq_pubkey q) keys
       else evaluate_admission url_parse (of_nat (aq_kind q)) (aq_pubkey q) (aq_event_id q) (aq_tags q) (aq_relay_url q) =
        Ok Accept)"
    by (auto simp: evaluate_request_with_admin_keys_def kind_u32_def result_simps)
  have related: "related_verdict dec ops s tags filters \<noteq> Accept" for tags filters
    by (auto simp: related_verdict_def split: option.splits sum.splits bool.splits)
  have verdict: "relay_verdict ModeStrict url found decision \<noteq> Some Accept" for url found decision
    by (auto simp: relay_verdict_def split: sum.splits option.splits)
  have none: "relay_verdict ModeStrict url found decision = None \<longleftrightarrow> (\<exists>r. found = Ok (Some r) \<and> rc_compatible r)"
    for url found decision
    by (auto simp: relay_verdict_def split: sum.splits option.splits)
  have "evaluate_request_with_storage_mode url_parse dec ops s ModeStrict keys q = Ok Accept \<longleftrightarrow>
      evaluate_request_with_admin_keys url_parse q keys = Ok Accept \<and>
      (\<forall>url. aq_relay_url q = Some url \<longrightarrow> (\<exists>r. ri_compatibility ops url s = Ok (Some r) \<and> rc_compatible r))"
  proof (cases "evaluate_request_with_admin_keys url_parse q keys")
    case (Inl err)
    then show ?thesis by (simp add: evaluate_request_with_storage_mode_def)
  next
    case (Inr d)
    let ?v = "Option.bind (aq_relay_url q) (\<lambda>url. relay_verdict ModeStrict url (ri_compatibility ops url s) d)"
    have "?v \<noteq> Some Accept" using verdict by (cases "aq_relay_url q") auto
    moreover have "?v = None \<longleftrightarrow>
        (\<forall>url. aq_relay_url q = Some url \<longrightarrow> (\<exists>r. ri_compatibility ops url s = Ok (Some r) \<and> rc_compatible r))"
      using none by (cases "aq_relay_url q") auto
    ultimately show ?thesis
      using Inr related by (cases d; cases ?v) (auto simp: evaluate_request_with_storage_mode_def)
  qed
  then show ?thesis using first by blast
qed


definition sample_admission :: "in_memory_directory admission_state" where
  "sample_admission =
     \<lparr>as_url_parse = (\<lambda>_. None), as_dec = bytes_of_hex, as_ops = memory_repository_ops bytes_to_hex,
      as_cache_config = cache_config_default, as_mode = ModeStrict, as_admin_keys = [''aa'']\<rparr>"

definition sample_control :: relay_event where
  "sample_control =
     \<lparr>re_kind = unat (kind_value KIND_GITTREE_CONTROL), re_pubkey = ''aa'', re_event_id = ''e1'', re_tags = [],
      re_relay_url = None, re_source_ip = None\<rparr>"


text \<open>
  A cached decision answers for the identifier alone: once an event was decided, every later request with the same
  kind, key and event identifier is given that decision as long as it is fresh, whatever tags or relay it names, whatever
  the repository holds by then and whoever the administrators are.\<close>

theorem cached_decision_ignores_request:
  assumes "evaluate_request_with_storage_mode url_parse dec ops s mode keys q = Ok decision"
    and "0 < cc_max_entries config" and "\<And>ttl. cc_ttl config = Some ttl \<Longrightarrow> now' - now < ttl"
    and "aq_kind q' = aq_kind q" and "aq_pubkey q' = aq_pubkey q" and "aq_event_id q' = aq_event_id q"
  shows "fst (evaluate_request_cached_mode url_parse dec ops s' config now' mode keys' q'
      (snd (evaluate_request_cached_mode url_parse dec ops s config now mode keys q []))) = Ok decision"
proof -
  have key: "admission_cache_key q' = admission_cache_key q" using assms(4-6) by (simp add: admission_cache_key_def)
  let ?m = "[(admission_cache_key q, \<lparr>cn_value = decision, cn_stored_at = now\<rparr>)]"
  have "snd (evaluate_request_cached_mode url_parse dec ops s config now mode keys q []) = ?m"
    using assms(1,2)
    by (simp add: evaluate_request_cached_mode_def admission_cache_get_def cache_lookup_def admission_cache_insert_def
        cache_enabled_def evict_oldest_def Let_def)
  moreover have "is_fresh config now' \<lparr>cn_value = decision, cn_stored_at = now\<rparr>"
    using assms(3) by (auto simp: is_fresh_def split: option.splits)
  ultimately show ?thesis
    using assms(2)
    by (simp add: evaluate_request_cached_mode_def admission_cache_get_def cache_lookup_def cache_enabled_def key Let_def)
qed

definition sample_state_query :: "string option \<Rightarrow> admission_query" where
  "sample_state_query relay =
     \<lparr>aq_kind = 30618, aq_pubkey = ''aa'', aq_event_id = ''e1'', aq_tags = [], aq_relay_url = relay, aq_source_ip = None\<rparr>"

theorem cached_decision_ignores_request_witness:
  "fst (evaluate_request_cached_mode (\<lambda>_. None) bytes_of_hex (memory_repository_ops bytes_to_hex) new_directory
      cache_config_default 5 ModeStrict [] (sample_state_query (Some ''wss://unknown''))
      (snd (evaluate_request_cached_mode (\<lambda>_. None) bytes_of_hex (memory_repository_ops bytes_to_hex) new_directory
         cache_config_default 0 ModeStrict [] (sample_state_query None) []))) = Ok Accept \<and>
   evaluate_request_with_storage_mode (\<lambda>_. None) bytes_of_hex (memory_repository_ops bytes_to_hex) new_directory
      ModeStrict [] (sample_state_query (Some ''wss://unknown'')) = Ok (Reject ''relay compatibility missing: wss://unknown'')"
proof
  have "evaluate_request_with_storage_mode (\<lambda>_. None) bytes_of_hex (memory_repository_ops bytes_to_hex) new_directory
      ModeStrict [] (sample_state_query None) = Ok Accept"
    by (subst strict_accept) (simp add: sample_state_query_def evaluate_admission_def kind_defs)
  then show "fst (evaluate_request_cached_mode (\<lambda>_. None) bytes_of_hex (memory_repository_ops bytes_to_hex) new_directory
      cache_config_default 5 ModeStrict [] (sample_state_query (Some ''wss://unknown''))
      (snd (evaluate_request_cached_mode (\<lambda>_. None) bytes_of_hex (memory_repository_ops bytes_to_hex) new_directory
         cache_config_default 0 ModeStrict [] (sample_state_query None) []))) = Ok Accept"
    by (rule cached_decision_ignores_request) (simp_all add: cache_config_default_def sample_state_query_def)
  show "evaluate_request_with_storage_mode (\<lambda>_. None) bytes_of_hex (memory_repository_ops bytes_to_hex) new_directory
      ModeStrict [] (sample_state_query (Some ''wss://unknown'')) = Ok (Reject ''relay compatibility missing: wss://unknown'')"
    by (simp add: evaluate_request_with_storage_mode_def evaluate_request_with_admin_keys_def kind_u32_def kind_defs
        sample_state_query_def evaluate_admission_def relay_verdict_def memory_repository_defs new_directory_def)
qed

primrec limiter_hits :: "nat \<Rightarrow> string \<Rightarrow> u32 \<Rightarrow> nat list \<Rightarrow> (string, limit_counter) entries \<Rightarrow> bool list" where
  "limiter_hits window key limit [] counters = []"
| "limiter_hits window key limit (now # ts) counters =
     (case limiter_hit window now key limit counters of
        (hit, counters) \<Rightarrow> hit # limiter_hits window key limit ts counters)"

lemma word_pred:
  fixes w :: u32
  assumes "w \<noteq> 0"
  shows "unat w = Suc (unat (w - 1))"
proof -
  have "0 < unat w" using assms by (simp add: unat_gt_0)
  then show ?thesis using unat_minus_one [OF assms] by simp
qed

lemma limiter_hits_within:
  assumes "limit \<noteq> 0" and "hm_wf counters"
    and "map_of counters key = Some \<lparr>lc_count = c, lc_window_start = t\<rparr>" and "c \<le> limit"
    and "\<forall>now \<in> set ts. now - t < window"
  shows "limiter_hits window key limit ts counters =
    replicate (min (length ts) (unat (limit - c))) False @ replicate (length ts - unat (limit - c)) True"
  using assms(2-5)
proof (induction ts arbitrary: counters c)
  case (Cons now ts)
  show ?case
  proof (cases "c = limit")
    case True
    let ?counters = "hm_insert key \<lparr>lc_count = c, lc_window_start = t\<rparr> counters"
    have "limiter_hit window now key limit counters = (True, ?counters)"
      using Cons.prems True assms(1) by (simp add: limiter_hit_def Let_def)
    moreover have "limiter_hits window key limit ts ?counters = replicate (length ts) True"
      using Cons.IH [of ?counters c] Cons.prems True by (simp add: hm.wf_put hm.get_put)
    ultimately show ?thesis using True by simp
  next
    case False
    then have less: "c < limit" using Cons.prems(3) by simp
    let ?counters = "hm_insert key \<lparr>lc_count = c + 1, lc_window_start = t\<rparr> counters"
    have "limiter_hit window now key limit counters = (False, ?counters)"
      using Cons.prems less assms(1) by (simp add: limiter_hit_def Let_def)
    moreover have step: "unat (limit - c) = Suc (unat (limit - (c + 1)))"
      using word_pred [of "limit - c"] False by (simp add: diff_diff_eq)
    moreover have "c + 1 \<le> limit" using less by (rule inc_le)
    then have "limiter_hits window key limit ts ?counters =
        replicate (min (length ts) (unat (limit - (c + 1)))) False @ replicate (length ts - unat (limit - (c + 1))) True"
      using Cons.IH [of ?counters "c + 1"] Cons.prems by (simp add: hm.wf_put hm.get_put)
    ultimately show ?thesis by simp
  qed
qed simp

text \<open>
  A limiter admits exactly its limit within a window: of any number of calls for one key, in order and less than a
  window apart from the first, the first ones up to the limit pass and all others are held back.\<close>

theorem limiter_admits_limit:
  assumes "limit \<noteq> 0" and "\<forall>now \<in> set ts. now - first < window" and "0 < window"
  shows "limiter_hits window key limit (first # ts) [] =
    replicate (min (length (first # ts)) (unat limit)) False @ replicate (length (first # ts) - unat limit) True"
proof -
  have pos: "0 < limit" using assms(1) by (simp add: word_neq_0_conv)
  let ?counters = "[(key, \<lparr>lc_count = 1, lc_window_start = first\<rparr>)] :: (string, limit_counter) entries"
  have "limiter_hit window first key limit [] = (False, ?counters)"
    using assms pos by (simp add: limiter_hit_def Let_def)
  moreover have "1 \<le> limit" using inc_le [OF pos] by simp
  then have "limiter_hits window key limit ts ?counters =
      replicate (min (length ts) (unat (limit - 1))) False @ replicate (length ts - unat (limit - 1)) True"
    using limiter_hits_within [of limit ?counters key 1 first ts window] assms by (simp add: hm_wf_def)
  moreover have "unat limit = Suc (unat (limit - 1))"
    using word_pred [OF assms(1)] .
  ultimately show ?thesis by simp
qed

theorem limiter_admits_limit_witness:
  "limiter_hits 60 ''k'' 2 [0, 1, 2] [] = [False, False, True]"
proof -
  have "unat (2 :: u32) = 2" by simp
  with limiter_admits_limit [of 2 "[1, 2]" 0 60 "''k''"] show ?thesis
    by (simp add: numeral_2_eq_2 numeral_3_eq_3)
qed

end
