(* ===== verification/Webhook.thy ===== *)
theory Webhook
  imports Git_Hook Storage_Directory
begin

text \<open>
  The webhook service (\<open>services/webhook/src/lib.rs\<close>): Forgejo reports a push, the service checks the signature
  of the report, finds the nostr repository the Forgejo repository belongs to and tells the sync service. The
  settings are in \<open>Service_Settings\<close>. A header is absent, unreadable (\<open>Some None\<close>) or a text; the body of
  a request is its bytes. The handler returns its answer and the notifications it has sent.
\<close>

datatype webhook_error =
    WebhookConfigFailed service_config_error
  | WebhookObservabilityConfig string
  | WebhookObservability string
  | WebhookStorage storage_error
  | WebhookNotify string
  | WebhookServe string

fun webhook_error_display :: "webhook_error \<Rightarrow> string" where
  "webhook_error_display (WebhookConfigFailed err) = ''webhook error: '' @ service_config_error_display ''webhook'' err"
| "webhook_error_display (WebhookObservabilityConfig err) = ''webhook observability config error: '' @ err"
| "webhook_error_display (WebhookObservability err) = ''webhook observability error: '' @ err"
| "webhook_error_display (WebhookStorage err) = ''webhook storage error: '' @ storage_error_display err"
| "webhook_error_display (WebhookNotify err) = ''webhook notify error: '' @ err"
| "webhook_error_display (WebhookServe err) = ''webhook serve error: '' @ err"

definition sync_notify :: "hook_http \<Rightarrow> string \<Rightarrow> post_receive_payload \<Rightarrow> (string, unit) result" where
  "sync_notify http endpoint payload =
     and_then (hh_post http endpoint payload) (\<lambda>response.
       if \<not> is_success response
       then Err (''sync error '' @ hh_status_display http (hr_status response) @ '': '' @ body_or_empty response)
       else Ok ())"

text \<open>\<open>client\<close> is the outcome of building the HTTP client.\<close>

definition build_http_notifier ::
  "url_parser \<Rightarrow> (string, hook_http) result \<Rightarrow> string \<Rightarrow>
   (webhook_error, post_receive_payload \<Rightarrow> (string, unit) result) result" where
  "build_http_notifier url_parse client endpoint =
     (if url_parse endpoint = None then Err (WebhookNotify (''invalid sync url: '' @ endpoint))
      else and_then (map_err WebhookNotify client) (\<lambda>http. Ok (sync_notify http endpoint)))"

record webhook_ack_payload =
  wa_repo :: string
  wa_updates :: nat

datatype webhook_http_error =
    WebhookBadRequest string
  | WebhookUnauthorized string
  | WebhookNotFound string
  | WebhookUpstream string
  | WebhookInternal string

fun webhook_http_response :: "webhook_http_error \<Rightarrow> nat \<times> string" where
  "webhook_http_response (WebhookBadRequest message) = (400, message)"
| "webhook_http_response (WebhookUnauthorized message) = (401, message)"
| "webhook_http_response (WebhookNotFound message) = (404, message)"
| "webhook_http_response (WebhookUpstream message) = (502, message)"
| "webhook_http_response (WebhookInternal message) = (500, message)"

type_synonym header_map = "string \<Rightarrow> string option option"

definition SIGNATURE_HEADERS :: "string list" where
  "SIGNATURE_HEADERS = [''x-gitea-signature'', ''x-forgejo-signature'', ''x-hub-signature-256'']"

primrec signature_of :: "header_map \<Rightarrow> string list \<Rightarrow> (webhook_http_error, string) result" where
  "signature_of headers [] = Err (WebhookUnauthorized ''missing signature'')"
| "signature_of headers (name # names) =
     (case headers name of
        Some v \<Rightarrow> ok_or (WebhookUnauthorized ''invalid signature'') v
      | None \<Rightarrow> signature_of headers names)"

definition extract_signature :: "header_map \<Rightarrow> (webhook_http_error, string) result" where
  "extract_signature headers = signature_of headers SIGNATURE_HEADERS"

definition bytes_text :: "u8 list \<Rightarrow> string" where
  "bytes_text body = map (\<lambda>b. char_of (unat b)) body"

definition str_from_utf8 :: "u8 list \<Rightarrow> string option" where
  "str_from_utf8 body = (if valid_utf8 (bytes_text body) then Some (bytes_text body) else None)"

text \<open>What the handler calls: the keyed hash, the codecs, the decoder of the report, the mappings and the notifier.\<close>

record webhook_state =
  wh_dec :: hex_decoder
  wh_enc :: encoder
  wh_mac :: "string \<Rightarrow> u8 list \<Rightarrow> u8 list"
  wh_decode :: "string \<Rightarrow> (string, forgejo_push_payload) result"
  wh_mapping_by_forgejo :: "string \<Rightarrow> string \<Rightarrow> (storage_error, repo_mapping_record option) result"
  wh_notify :: "post_receive_payload \<Rightarrow> (string, unit) result"
  wh_forgejo_secret :: string

definition mapped_push :: "encoder \<Rightarrow> repo_mapping_record \<Rightarrow> forgejo_push_event \<Rightarrow> post_receive_payload" where
  "mapped_push enc mapping event =
     \<lparr>py_pubkey = enc (mp_pubkey mapping), py_identifier = mp_identifier mapping,
      py_updates = [\<lparr>ru_old = fe_before event, ru_new = fe_after event, ru_reference = fe_reference event\<rparr>]\<rparr>"

definition resolve_push ::
  "webhook_state \<Rightarrow> header_map \<Rightarrow> u8 list \<Rightarrow> (webhook_http_error, repo_mapping_record \<times> forgejo_push_event) result" where
  "resolve_push st headers body =
     and_then (extract_signature headers) (\<lambda>signature.
     and_then (map_err (\<lambda>err. WebhookUnauthorized (hook_error_display err))
       (verify_forgejo_signature (wh_dec st) (wh_mac st) (wh_forgejo_secret st) body signature)) (\<lambda>_.
     and_then (ok_or (WebhookBadRequest ''invalid payload'') (str_from_utf8 body)) (\<lambda>payload.
     and_then (map_err (\<lambda>err. WebhookBadRequest (hook_error_display err)) (parse_forgejo_push (wh_decode st) payload))
       (\<lambda>event.
     and_then (map_err (\<lambda>err. WebhookInternal (storage_error_display err))
       (wh_mapping_by_forgejo st (fe_owner event) (fe_repo event))) (\<lambda>found.
     and_then (ok_or (WebhookNotFound ''missing repo mapping'') found) (\<lambda>mapping.
     Ok (mapping, event)))))))"

definition forgejo_handler ::
  "webhook_state \<Rightarrow> header_map \<Rightarrow> u8 list \<Rightarrow> (webhook_http_error, webhook_ack_payload) result \<times> post_receive_payload list" where
  "forgejo_handler st headers body =
     (case resolve_push st headers body of
        Inl err \<Rightarrow> (Err err, [])
      | Inr (mapping, event) \<Rightarrow>
          (let payload = mapped_push (wh_enc st) mapping event in
           case wh_notify st payload of
             Inl err \<Rightarrow> (Err (WebhookUpstream err), [payload])
           | Inr _ \<Rightarrow> (Ok \<lparr>wa_repo = forgejo_full_name mapping, wa_updates = 1\<rparr>, [payload])))"

text \<open>The service over the directory of the storage crate and the HTTP client.\<close>

definition webhook_service ::
  "encoder \<Rightarrow> hex_decoder \<Rightarrow> (string \<Rightarrow> u8 list \<Rightarrow> u8 list) \<Rightarrow> (string \<Rightarrow> (string, forgejo_push_payload) result) \<Rightarrow>
   in_memory_directory \<Rightarrow> (post_receive_payload \<Rightarrow> (string, unit) result) \<Rightarrow> webhook_config \<Rightarrow> webhook_state" where
  "webhook_service enc dec mac decode d notify config =
     \<lparr>wh_dec = dec, wh_enc = enc, wh_mac = mac, wh_decode = decode,
      wh_mapping_by_forgejo = (\<lambda>owner repo. Ok (mapping_by_forgejo owner repo d)), wh_notify = notify,
      wh_forgejo_secret = wc_forgejo_secret config\<rparr>"

section \<open>Only a signed push of a mapped repository\<close>

lemma resolve_push_Ok:
  "resolve_push st headers body = Ok (mapping, event) \<longleftrightarrow>
     (\<exists>signature. extract_signature headers = Ok signature \<and>
        verify_forgejo_signature (wh_dec st) (wh_mac st) (wh_forgejo_secret st) body signature = Ok ()) \<and>
     valid_utf8 (bytes_text body) \<and> parse_forgejo_push (wh_decode st) (bytes_text body) = Ok event \<and>
     wh_mapping_by_forgejo st (fe_owner event) (fe_repo event) = Ok (Some mapping)"
  by (auto simp: resolve_push_def and_then_eq_Ok map_err_eq_Ok ok_or_eq_Ok str_from_utf8_def)


lemma signature_header_trim:
  assumes "hex_pair enc dec"
  shows "trim (''sha256='' @ enc bs) = ''sha256='' @ enc bs"
proof -
  have "list_all is_ascii_hexdigit (enc bs)" using hex_pair.enc_hex [OF assms, of bs] by (simp add: is_hex_len_def)
  then have "33 \<le> byte (last (''sha256='' @ enc bs)) \<and> byte (last (''sha256='' @ enc bs)) \<le> 126"
    by (cases "enc bs = []") (auto simp: list_all_iff is_ascii_hexdigit_def is_ascii_digit_def dest!: last_in_set)
  then show ?thesis by (intro trim_plain_ends) simp_all
qed


text \<open>A push to the mapped repository, with a keyed hash that is always the same.\<close>

definition sample_mapping :: repo_mapping_record where
  "sample_mapping = \<lparr>mp_forgejo_owner = ''o'', mp_forgejo_repo = ''r'', mp_pubkey = replicate 32 7, mp_identifier = ''r''\<rparr>"

definition sample_report :: forgejo_push_payload where
  "sample_report = \<lparr>fp_reference = ''r'', fp_before = ''b'', fp_after = ''a'', fp_name = ''r'', fp_full_name = None, fp_username = ''o''\<rparr>"

definition sample_push :: forgejo_push_event where
  "sample_push = \<lparr>fe_owner = ''o'', fe_repo = ''r'', fe_full_name = ''o/r'', fe_reference = ''r'', fe_before = ''b'', fe_after = ''a''\<rparr>"


end
