(* ===== verification/Command_Store.thy ===== *)
theory Command_Store
  imports State_Service
begin

text \<open>
  The tables the commands of users are projected to (\<open>migrations/0013_v1_command_state.sql\<close>) and the operations
  \<open>v1_*\<close> of \<open>crates/storage/src/postgres.rs\<close> on them, which the dispatch service calls through the trait
  \<open>CommandStore\<close> and the state service reads. A table is the list of its rows under the primary key; a
  statement does what its SQL text says. \<open>valid_time\<close> tells which times \<open>OffsetDateTime\<close> of the crate
  \<open>time\<close> represents. The text of an enumeration is what a column holds and what a read parses.
\<close>

section \<open>Rows\<close>

record account_row =
  aw_status :: string
  aw_created_at :: int
  aw_updated_at :: int
  aw_deleted_at :: "int option"

record profile_row =
  pr_display_name :: "string option"
  pr_bio :: "string option"
  pr_avatar_url :: "string option"
  pr_website_url :: "string option"
  pr_location :: "string option"
  pr_visibility :: string
  pr_updated_at :: int

record repo_row =
  rr_row_description :: "string option"
  rr_row_website_url :: "string option"
  rr_row_visibility :: string
  rr_row_default_branch :: string
  rr_row_archived :: bool
  rr_row_updated_at :: int

record maintainer_row =
  mw_active :: bool
  mw_updated_at :: int

record command_tables =
  ct_log :: "(u8 list, command_log_record) entries"
  ct_accounts :: "(u8 list, account_row) entries"
  ct_profiles :: "(u8 list, profile_row) entries"
  ct_repos :: "(u8 list \<times> string, repo_row) entries"
  ct_maintainers :: "(u8 list \<times> string \<times> u8 list, maintainer_row) entries"

definition empty_tables :: command_tables where
  "empty_tables = \<lparr>ct_log = [], ct_accounts = [], ct_profiles = [], ct_repos = [], ct_maintainers = []\<rparr>"

section \<open>Statements\<close>

type_synonym 'a statement = "command_tables \<Rightarrow> (storage_error, 'a, command_tables) st_result"

definition to_offset_datetime :: "(int \<Rightarrow> bool) \<Rightarrow> int \<Rightarrow> (storage_error, int) result" where
  "to_offset_datetime valid_time created_at =
     (if valid_time created_at then Ok created_at else Err (StorageInvalidField ''created_at'' (show_int created_at)))"

definition v1_insert_command_log :: "(int \<Rightarrow> bool) \<Rightarrow> command_log_record \<Rightarrow> bool statement" where
  "v1_insert_command_log valid_time r t =
     st_then (st_read (to_offset_datetime valid_time (cl_created_at r)) t) (\<lambda>created_at t.
       case map_of (ct_log t) (cl_event_id r) of
         Some _ \<Rightarrow> (Ok False, t)
       | None \<Rightarrow> (Ok True, t\<lparr>ct_log := AList.update (cl_event_id r) (r\<lparr>cl_created_at := created_at\<rparr>) (ct_log t)\<rparr>))"

definition v1_update_command_log_outcome ::
  "u8 list \<Rightarrow> command_status \<Rightarrow> string \<Rightarrow> string \<Rightarrow> unit statement" where
  "v1_update_command_log_outcome event_id status code message t =
     (Ok (), t\<lparr>ct_log := (case map_of (ct_log t) event_id of
        Some r \<Rightarrow> AList.update event_id (r\<lparr>cl_status := status, cl_code := code, cl_message := message\<rparr>) (ct_log t)
      | None \<Rightarrow> ct_log t)\<rparr>)"

definition v1_upsert_account_state :: "(int \<Rightarrow> bool) \<Rightarrow> account_state_record \<Rightarrow> unit statement" where
  "v1_upsert_account_state valid_time r t =
     st_then (st_read (to_offset_datetime valid_time (as_created_at r)) t) (\<lambda>created_at t.
     st_then (st_read (to_offset_datetime valid_time (as_updated_at r)) t) (\<lambda>updated_at t.
     st_then (st_read (case as_deleted_at r of
         Some v \<Rightarrow> and_then (to_offset_datetime valid_time v) (\<lambda>v. Ok (Some v))
       | None \<Rightarrow> Ok None) t) (\<lambda>deleted_at t.
       (Ok (), t\<lparr>ct_accounts := AList.update (as_pubkey r)
          (case map_of (ct_accounts t) (as_pubkey r) of
             Some row \<Rightarrow> row\<lparr>aw_status := account_lifecycle_as_str (as_status r), aw_updated_at := updated_at,
               aw_deleted_at := deleted_at\<rparr>
           | None \<Rightarrow> \<lparr>aw_status = account_lifecycle_as_str (as_status r), aw_created_at = created_at,
               aw_updated_at = updated_at, aw_deleted_at = deleted_at\<rparr>) (ct_accounts t)\<rparr>))))"

definition v1_account_state :: "u8 list \<Rightarrow> command_tables \<Rightarrow> (storage_error, account_state_record option) result" where
  "v1_account_state pubkey t =
     (case map_of (ct_accounts t) pubkey of
        None \<Rightarrow> Ok None
      | Some row \<Rightarrow>
          and_then (if aw_status row = ''active'' then Ok AccountActive
            else if aw_status row = ''deleted'' then Ok AccountDeleted
            else Err (StorageInvalidField ''status'' (aw_status row))) (\<lambda>status.
          Ok (Some \<lparr>as_pubkey = pubkey, as_status = status, as_created_at = aw_created_at row,
            as_updated_at = aw_updated_at row, as_deleted_at = aw_deleted_at row\<rparr>)))"

definition v1_upsert_profile_state :: "(int \<Rightarrow> bool) \<Rightarrow> profile_state_record \<Rightarrow> unit statement" where
  "v1_upsert_profile_state valid_time r t =
     st_then (st_read (to_offset_datetime valid_time (ps_updated_at r)) t) (\<lambda>updated_at t.
       (Ok (), t\<lparr>ct_profiles := AList.update (ps_pubkey r)
          \<lparr>pr_display_name = ps_display_name r, pr_bio = ps_bio r, pr_avatar_url = ps_avatar_url r,
           pr_website_url = ps_website_url r, pr_location = ps_location r,
           pr_visibility = visibility_v1_as_str (ps_visibility r), pr_updated_at = updated_at\<rparr> (ct_profiles t)\<rparr>))"

definition v1_profile_state :: "u8 list \<Rightarrow> command_tables \<Rightarrow> (storage_error, profile_state_record option) result" where
  "v1_profile_state pubkey t =
     (case map_of (ct_profiles t) pubkey of
        None \<Rightarrow> Ok None
      | Some row \<Rightarrow>
          and_then (visibility_v1_parse (pr_visibility row)) (\<lambda>visibility.
          Ok (Some \<lparr>ps_pubkey = pubkey, ps_display_name = pr_display_name row, ps_bio = pr_bio row,
            ps_avatar_url = pr_avatar_url row, ps_website_url = pr_website_url row, ps_location = pr_location row,
            ps_visibility = visibility, ps_updated_at = pr_updated_at row\<rparr>)))"

definition v1_upsert_repo_state :: "(int \<Rightarrow> bool) \<Rightarrow> repo_state_v1_record \<Rightarrow> unit statement" where
  "v1_upsert_repo_state valid_time r t =
     st_then (st_read (to_offset_datetime valid_time (rv_updated_at r)) t) (\<lambda>updated_at t.
       (Ok (), t\<lparr>ct_repos := AList.update (rv_owner_pubkey r, rv_repo_name r)
          \<lparr>rr_row_description = rv_description r, rr_row_website_url = rv_website_url r,
           rr_row_visibility = visibility_v1_as_str (rv_visibility r), rr_row_default_branch = rv_default_branch r,
           rr_row_archived = rv_archived r, rr_row_updated_at = updated_at\<rparr> (ct_repos t)\<rparr>))"

definition v1_repo_state ::
  "u8 list \<Rightarrow> string \<Rightarrow> command_tables \<Rightarrow> (storage_error, repo_state_v1_record option) result" where
  "v1_repo_state owner repo_name t =
     (case map_of (ct_repos t) (owner, repo_name) of
        None \<Rightarrow> Ok None
      | Some row \<Rightarrow>
          and_then (visibility_v1_parse (rr_row_visibility row)) (\<lambda>visibility.
          Ok (Some \<lparr>rv_owner_pubkey = owner, rv_repo_name = repo_name, rv_description = rr_row_description row,
            rv_website_url = rr_row_website_url row, rv_visibility = visibility,
            rv_default_branch = rr_row_default_branch row, rv_archived = rr_row_archived row,
            rv_updated_at = rr_row_updated_at row\<rparr>)))"

definition v1_set_repo_maintainer :: "(int \<Rightarrow> bool) \<Rightarrow> repo_maintainer_v1_record \<Rightarrow> unit statement" where
  "v1_set_repo_maintainer valid_time r t =
     st_then (st_read (to_offset_datetime valid_time (rn_updated_at r)) t) (\<lambda>updated_at t.
       (Ok (), t\<lparr>ct_maintainers := AList.update (rn_owner_pubkey r, rn_repo_name r, rn_maintainer_pubkey r)
          \<lparr>mw_active = rn_active r, mw_updated_at = updated_at\<rparr> (ct_maintainers t)\<rparr>))"

definition v1_list_active_repo_maintainers ::
  "u8 list \<Rightarrow> string \<Rightarrow> command_tables \<Rightarrow> (storage_error, u8 list list) result" where
  "v1_list_active_repo_maintainers owner repo_name t =
     Ok (filter_map (\<lambda>((o', name, maintainer), row).
       if o' = owner \<and> name = repo_name \<and> mw_active row then Some maintainer else None) (ct_maintainers t))"

text \<open>What the state service reads.\<close>

definition table_projections :: "command_tables \<Rightarrow> projections" where
  "table_projections t =
     \<lparr>pj_account = (\<lambda>pubkey. v1_account_state pubkey t), pj_profile = (\<lambda>pubkey. v1_profile_state pubkey t),
      pj_repo = (\<lambda>owner name. v1_repo_state owner name t),
      pj_maintainers = (\<lambda>owner name. v1_list_active_repo_maintainers owner name t)\<rparr>"

section \<open>The trait\<close>

datatype dispatch_error =
    DispatchConfigFailed string
  | DispatchStorage storage_error
  | DispatchObservabilityConfig string
  | DispatchObservability string

fun dispatch_error_display :: "dispatch_error \<Rightarrow> string" where
  "dispatch_error_display (DispatchConfigFailed message) = ''dispatch config error: '' @ message"
| "dispatch_error_display (DispatchStorage err) = ''dispatch storage error: '' @ storage_error_display err"
| "dispatch_error_display (DispatchObservabilityConfig err) = ''dispatch observability config error: '' @ err"
| "dispatch_error_display (DispatchObservability err) = ''dispatch observability error: '' @ err"

record 's command_store =
  cs_insert_log :: "command_log_record \<Rightarrow> 's \<Rightarrow> (dispatch_error, bool, 's) st_result"
  cs_update_outcome :: "u8 list \<Rightarrow> command_status \<Rightarrow> string \<Rightarrow> string \<Rightarrow> 's \<Rightarrow> (dispatch_error, unit, 's) st_result"
  cs_account :: "u8 list \<Rightarrow> 's \<Rightarrow> (dispatch_error, account_state_record option) result"
  cs_upsert_account :: "account_state_record \<Rightarrow> 's \<Rightarrow> (dispatch_error, unit, 's) st_result"
  cs_profile :: "u8 list \<Rightarrow> 's \<Rightarrow> (dispatch_error, profile_state_record option) result"
  cs_upsert_profile :: "profile_state_record \<Rightarrow> 's \<Rightarrow> (dispatch_error, unit, 's) st_result"
  cs_repo :: "u8 list \<Rightarrow> string \<Rightarrow> 's \<Rightarrow> (dispatch_error, repo_state_v1_record option) result"
  cs_upsert_repo :: "repo_state_v1_record \<Rightarrow> 's \<Rightarrow> (dispatch_error, unit, 's) st_result"
  cs_set_maintainer :: "repo_maintainer_v1_record \<Rightarrow> 's \<Rightarrow> (dispatch_error, unit, 's) st_result"
  cs_active_maintainers :: "u8 list \<Rightarrow> string \<Rightarrow> 's \<Rightarrow> (dispatch_error, u8 list list) result"

definition table_store :: "(int \<Rightarrow> bool) \<Rightarrow> command_tables command_store" where
  "table_store valid_time =
     \<lparr>cs_insert_log = (\<lambda>r t. st_map_err DispatchStorage (v1_insert_command_log valid_time r t)),
      cs_update_outcome = (\<lambda>event_id status code message t.
        st_map_err DispatchStorage (v1_update_command_log_outcome event_id status code message t)),
      cs_account = (\<lambda>pubkey t. map_err DispatchStorage (v1_account_state pubkey t)),
      cs_upsert_account = (\<lambda>r t. st_map_err DispatchStorage (v1_upsert_account_state valid_time r t)),
      cs_profile = (\<lambda>pubkey t. map_err DispatchStorage (v1_profile_state pubkey t)),
      cs_upsert_profile = (\<lambda>r t. st_map_err DispatchStorage (v1_upsert_profile_state valid_time r t)),
      cs_repo = (\<lambda>owner name t. map_err DispatchStorage (v1_repo_state owner name t)),
      cs_upsert_repo = (\<lambda>r t. st_map_err DispatchStorage (v1_upsert_repo_state valid_time r t)),
      cs_set_maintainer = (\<lambda>r t. st_map_err DispatchStorage (v1_set_repo_maintainer valid_time r t)),
      cs_active_maintainers = (\<lambda>owner name t. map_err DispatchStorage (v1_list_active_repo_maintainers owner name t))\<rparr>"

section \<open>What is written is read\<close>

lemma visibility_text [simp]: "visibility_v1_parse (visibility_v1_as_str v) = Ok v"
  by (cases v) (simp_all add: visibility_v1_parse_def)

lemma profile_written:
  "v1_upsert_profile_state valid_time r t = (Ok (), t') \<Longrightarrow>
     v1_profile_state pubkey t' = (if pubkey = ps_pubkey r then Ok (Some r) else v1_profile_state pubkey t)"
  by (auto simp: v1_upsert_profile_state_def v1_profile_state_def to_offset_datetime_def update_conv' split: if_splits)

lemma repo_written:
  "v1_upsert_repo_state valid_time r t = (Ok (), t') \<Longrightarrow>
     v1_repo_state owner name t' =
       (if owner = rv_owner_pubkey r \<and> name = rv_repo_name r then Ok (Some r) else v1_repo_state owner name t)"
  by (auto simp: v1_upsert_repo_state_def v1_repo_state_def to_offset_datetime_def update_conv' split: if_splits)

end
