(* ===== verification/Dispatch.thy ===== *)
theory Dispatch
  imports Command_Store Core_Cli Service_Settings
begin

text \<open>
  The dispatch service (\<open>services/dispatch/src/lib.rs\<close>, \<open>ingest.rs\<close>, \<open>handlers.rs\<close>): it subscribes to relays
  for notes addressed to the administrator, takes those that hold a command, and carries the command out on the
  tables of \<open>Command_Store\<close>. A websocket is the list of what is read from it; the parser of JSON texts, the
  decoders and the printer of a request are parameters.
\<close>

section \<open>Configuration\<close>

record dispatch_config =
  dc_bind :: string
  dc_admin_pubkey :: string
  dc_relay_urls :: "string list"
  dc_storage :: storage_config

definition parse_csv :: "string \<Rightarrow> string list" where
  "parse_csv input = filter (\<lambda>v. v \<noteq> []) (map trim (str_split input CHR '',''))"

definition dispatch_config_from_env :: "environment \<Rightarrow> (dispatch_error, dispatch_config) result" where
  "dispatch_config_from_env env =
     (let bind = unwrap_or (env ''GITTREE_DISPATCH_BIND'') ''127.0.0.1:8091'' in
      and_then (ok_or (DispatchConfigFailed ''missing env GITTREE_DISPATCH_ADMIN_PUBKEY'') (env ''GITTREE_DISPATCH_ADMIN_PUBKEY''))
        (\<lambda>admin_pubkey.
      let relay_urls = parse_csv (unwrap_or (env ''GITTREE_DISPATCH_RELAY_URLS'') []) in
      and_then (ensure (relay_urls \<noteq> []) (DispatchConfigFailed ''missing relay urls in GITTREE_DISPATCH_RELAY_URLS'')) (\<lambda>_.
      and_then (map_err (\<lambda>err. DispatchConfigFailed (storage_config_error_display err)) (storage_from_env env)) (\<lambda>storage.
      Ok \<lparr>dc_bind = bind, dc_admin_pubkey = admin_pubkey, dc_relay_urls = relay_urls, dc_storage = storage\<rparr>))))"

section \<open>Which events are commands\<close>

record relay_event_envelope =
  re_id :: string
  re_pubkey :: string
  re_kind :: u32
  re_created_at :: int
  re_content :: string
  re_tags :: "tag list"
  re_relay_url :: string

record dispatch_filter_config =
  df_admin_pubkey :: string
  df_relay_allowlist :: "string list"

definition dispatch_filter :: "dispatch_config \<Rightarrow> dispatch_filter_config" where
  "dispatch_filter config = \<lparr>df_admin_pubkey = dc_admin_pubkey config, df_relay_allowlist = dc_relay_urls config\<rparr>"

datatype ingest_reject_reason = WrongKind | MissingCommandPrefix | MissingAdminTag | RelayNotAllowed

definition has_admin_tag :: "relay_event_envelope \<Rightarrow> string \<Rightarrow> bool" where
  "has_admin_tag event admin_pubkey \<longleftrightarrow>
     list_ex (\<lambda>tag. case tag of name # v # _ \<Rightarrow> name = ''p'' \<and> v = admin_pubkey | _ \<Rightarrow> False) (re_tags event)"

definition is_dispatch_command_event ::
  "dispatch_filter_config \<Rightarrow> relay_event_envelope \<Rightarrow> (ingest_reject_reason, unit) result" where
  "is_dispatch_command_event config event =
     and_then (ensure (re_kind event = 1) WrongKind) (\<lambda>_.
     and_then (ensure (starts_with (trim_start (re_content event)) ''gittree '') MissingCommandPrefix) (\<lambda>_.
     and_then (ensure (re_relay_url event \<in> set (df_relay_allowlist config)) RelayNotAllowed) (\<lambda>_.
     ensure (has_admin_tag event (df_admin_pubkey config)) MissingAdminTag)))"

section \<open>Carrying a command out\<close>

record command_input =
  ci_event_id :: "u8 list"
  ci_actor :: "u8 list"
  ci_parsed :: parsed_command
  ci_created_at :: int

record command_output =
  co_status :: command_status
  co_code :: string
  co_message :: string

definition out_ok :: "string \<Rightarrow> string \<Rightarrow> command_output" where
  "out_ok code message = \<lparr>co_status = CommandOk, co_code = code, co_message = message\<rparr>"

definition out_err :: "string \<Rightarrow> string \<Rightarrow> command_output" where
  "out_err code message = \<lparr>co_status = CommandError, co_code = code, co_message = message\<rparr>"

fun namespace_name :: "command_namespace \<Rightarrow> string" where
  "namespace_name Account = ''account''"
| "namespace_name Profile = ''profile''"
| "namespace_name Repo = ''repo''"

definition args_to_json :: "command_arg list \<Rightarrow> json" where
  "args_to_json args =
     JObject (bt_insert ''_positional'' (JArray (filter_map (\<lambda>arg. case arg of Positional v \<Rightarrow> Some (JString v) | _ \<Rightarrow> None) args))
       (foldl (\<lambda>object arg. case arg of KeyValue key v \<Rightarrow> bt_insert key (JString v) object | _ \<Rightarrow> object) [] args))"

type_synonym 's applied = "(dispatch_error, command_output, 's) st_result"

definition apply_account :: "'s command_store \<Rightarrow> command_input \<Rightarrow> 's \<Rightarrow> 's applied" where
  "apply_account ops inp s =
     (let now = ci_created_at inp; action = pc_action (ci_parsed inp) in
      st_then (st_read (cs_account ops (ci_actor inp) s) s) (\<lambda>existing s.
        if action = ''create'' then
          (case existing of
             None \<Rightarrow>
               st_then (cs_upsert_account ops
                 \<lparr>as_pubkey = ci_actor inp, as_status = AccountActive, as_created_at = now, as_updated_at = now,
                  as_deleted_at = None\<rparr> s) (\<lambda>_ s. (Ok (out_ok ''account_created'' ''account created''), s))
           | Some _ \<Rightarrow> (Ok (out_ok ''account_exists'' ''account already exists''), s))
        else if action = ''delete'' then
          st_then (cs_upsert_account ops
            \<lparr>as_pubkey = ci_actor inp, as_status = AccountDeleted,
             as_created_at = (case existing of Some r \<Rightarrow> as_created_at r | None \<Rightarrow> now), as_updated_at = now,
             as_deleted_at = Some now\<rparr> s) (\<lambda>_ s. (Ok (out_ok ''account_deleted'' ''account deleted''), s))
        else if action = ''status'' then
          (Ok (out_ok ''account_status'' (case existing of
             Some r \<Rightarrow> ''account '' @ account_lifecycle_as_str (as_status r)
           | None \<Rightarrow> ''account missing'')), s)
        else (Ok (out_err ''invalid_command'' ''unsupported account action''), s)))"

definition set_profile_arg :: "profile_state_record \<Rightarrow> command_arg \<Rightarrow> profile_state_record" where
  "set_profile_arg profile arg =
     (case arg of
        KeyValue key v \<Rightarrow>
          (if key = ''name'' then profile\<lparr>ps_display_name := Some v\<rparr>
           else if key = ''bio'' then profile\<lparr>ps_bio := Some v\<rparr>
           else if key = ''avatar'' then profile\<lparr>ps_avatar_url := Some v\<rparr>
           else if key = ''website'' then profile\<lparr>ps_website_url := Some v\<rparr>
           else if key = ''location'' then profile\<lparr>ps_location := Some v\<rparr>
           else profile)
      | Positional _ \<Rightarrow> profile)"

definition blank_profile :: "u8 list \<Rightarrow> int \<Rightarrow> profile_state_record" where
  "blank_profile pubkey now =
     \<lparr>ps_pubkey = pubkey, ps_display_name = None, ps_bio = None, ps_avatar_url = None, ps_website_url = None,
      ps_location = None, ps_visibility = V1Private, ps_updated_at = now\<rparr>"

definition apply_profile :: "'s command_store \<Rightarrow> command_input \<Rightarrow> 's \<Rightarrow> 's applied" where
  "apply_profile ops inp s =
     (let now = ci_created_at inp; action = pc_action (ci_parsed inp) in
      st_then (st_read (cs_profile ops (ci_actor inp) s) s) (\<lambda>found s.
        let profile = unwrap_or found (blank_profile (ci_actor inp) now) in
        if action = ''set'' then
          st_then (cs_upsert_profile ops ((foldl set_profile_arg profile (pc_args (ci_parsed inp)))\<lparr>ps_updated_at := now\<rparr>) s)
            (\<lambda>_ s. (Ok (out_ok ''profile_updated'' ''profile updated''), s))
        else if action = ''visibility'' then
          (case pc_args (ci_parsed inp) of
             [Positional v] \<Rightarrow>
               st_then (cs_upsert_profile ops
                 (profile\<lparr>ps_visibility := (if v = ''public'' then V1Public else V1Private), ps_updated_at := now\<rparr>) s)
                 (\<lambda>_ s. (Ok (out_ok ''profile_visibility_updated'' ''profile visibility updated''), s))
           | _ \<Rightarrow> (Ok (out_err ''invalid_args'' ''profile visibility requires public|private''), s))
        else (Ok (out_err ''invalid_command'' ''unsupported profile action''), s)))"

definition actor_is_maintainer :: "'s command_store \<Rightarrow> u8 list \<Rightarrow> string \<Rightarrow> 's \<Rightarrow> (dispatch_error, bool) result" where
  "actor_is_maintainer ops actor repo_name s =
     and_then (cs_active_maintainers ops actor repo_name s) (\<lambda>maintainers. Ok (actor \<in> set maintainers))"

definition set_repo_arg :: "repo_state_v1_record \<Rightarrow> command_arg \<Rightarrow> repo_state_v1_record" where
  "set_repo_arg r arg =
     (case arg of
        KeyValue key v \<Rightarrow>
          (if key = ''description'' then r\<lparr>rv_description := Some v\<rparr>
           else if key = ''website'' then r\<lparr>rv_website_url := Some v\<rparr>
           else if key = ''visibility'' then r\<lparr>rv_visibility := (if v = ''public'' then V1Public else V1Private)\<rparr>
           else if key = ''default_branch'' then r\<lparr>rv_default_branch := v\<rparr>
           else r)
      | Positional _ \<Rightarrow> r)"

definition repo_create :: "'s command_store \<Rightarrow> command_input \<Rightarrow> string \<Rightarrow> 's \<Rightarrow> 's applied" where
  "repo_create ops inp repo_name s =
     st_then (st_read (cs_repo ops (ci_actor inp) repo_name s) s) (\<lambda>existing s.
       if existing \<noteq> None then (Ok (out_ok ''repo_exists'' ''repo already exists''), s)
       else
         st_then (cs_upsert_repo ops
           \<lparr>rv_owner_pubkey = ci_actor inp, rv_repo_name = repo_name, rv_description = None, rv_website_url = None,
            rv_visibility = V1Private, rv_default_branch = ''main'', rv_archived = False,
            rv_updated_at = ci_created_at inp\<rparr> s) (\<lambda>_ s.
         st_then (cs_set_maintainer ops
           \<lparr>rn_owner_pubkey = ci_actor inp, rn_repo_name = repo_name, rn_maintainer_pubkey = ci_actor inp,
            rn_active = True, rn_updated_at = ci_created_at inp\<rparr> s) (\<lambda>_ s.
         (Ok (out_ok ''repo_created'' ''repo created''), s))))"

text \<open>The beginning \<open>update\<close> and \<open>archive\<close> share: the repository must exist and the actor maintain it.\<close>

definition with_repo ::
  "'s command_store \<Rightarrow> command_input \<Rightarrow> string \<Rightarrow> (repo_state_v1_record \<Rightarrow> 's \<Rightarrow> 's applied) \<Rightarrow> 's \<Rightarrow> 's applied" where
  "with_repo ops inp repo_name change s =
     st_then (st_read (cs_repo ops (ci_actor inp) repo_name s) s) (\<lambda>found s.
       case found of
         None \<Rightarrow> (Ok (out_err ''not_found'' ''repo not found''), s)
       | Some r \<Rightarrow>
           st_then (st_read (actor_is_maintainer ops (ci_actor inp) repo_name s) s) (\<lambda>maintains s.
             if \<not> maintains then (Ok (out_err ''unauthorized'' ''actor is not a maintainer''), s) else change r s))"

definition repo_update :: "'s command_store \<Rightarrow> command_input \<Rightarrow> string \<Rightarrow> 's \<Rightarrow> 's applied" where
  "repo_update ops inp repo_name =
     with_repo ops inp repo_name (\<lambda>r s.
       st_then (cs_upsert_repo ops ((foldl set_repo_arg r (pc_args (ci_parsed inp)))\<lparr>rv_updated_at := ci_created_at inp\<rparr>) s)
         (\<lambda>_ s. (Ok (out_ok ''repo_updated'' ''repo updated''), s)))"

definition repo_archive :: "'s command_store \<Rightarrow> command_input \<Rightarrow> string \<Rightarrow> 's \<Rightarrow> 's applied" where
  "repo_archive ops inp repo_name =
     with_repo ops inp repo_name (\<lambda>r s.
       st_then (cs_upsert_repo ops
           (r\<lparr>rv_archived := pc_action (ci_parsed inp) = ''archive'', rv_updated_at := ci_created_at inp\<rparr>) s)
         (\<lambda>_ s. (Ok (out_ok ''repo_state_updated'' ''repo archive state updated''), s)))"

definition repo_maintainers ::
  "bech32_decoder \<Rightarrow> 's command_store \<Rightarrow> command_input \<Rightarrow> string \<Rightarrow> 's \<Rightarrow> 's applied" where
  "repo_maintainers bech32 ops inp repo_name s =
     st_then (st_read (actor_is_maintainer ops (ci_actor inp) repo_name s) s) (\<lambda>maintains s.
       if \<not> maintains then (Ok (out_err ''unauthorized'' ''actor is not a maintainer''), s)
       else case pc_args (ci_parsed inp) of
         [Positional action, Positional npub] \<Rightarrow>
           (case pubkey_bytes_from_npub bech32 npub of
              Inl _ \<Rightarrow> (Ok (out_err ''invalid_args'' ''invalid maintainer npub''), s)
            | Inr maintainer \<Rightarrow>
                st_then (cs_set_maintainer ops
                  \<lparr>rn_owner_pubkey = ci_actor inp, rn_repo_name = repo_name, rn_maintainer_pubkey = maintainer,
                   rn_active = (action = ''add''), rn_updated_at = ci_created_at inp\<rparr> s)
                  (\<lambda>_ s. (Ok (out_ok ''repo_maintainer_updated'' ''repo maintainer updated''), s)))
       | _ \<Rightarrow> (Ok (out_err ''invalid_args'' ''repo maintainers requires add|remove and npub''), s))"

definition apply_repo :: "bech32_decoder \<Rightarrow> 's command_store \<Rightarrow> command_input \<Rightarrow> 's \<Rightarrow> 's applied" where
  "apply_repo bech32 ops inp s =
     (case pc_target (ci_parsed inp) of
        None \<Rightarrow> (Ok (out_err ''invalid_args'' ''repo target is required''), s)
      | Some repo_name \<Rightarrow>
          (let action = pc_action (ci_parsed inp) in
           if action = ''create'' then repo_create ops inp repo_name s
           else if action = ''update'' then repo_update ops inp repo_name s
           else if action = ''archive'' \<or> action = ''unarchive'' then repo_archive ops inp repo_name s
           else if action = ''maintainers'' then repo_maintainers bech32 ops inp repo_name s
           else if action = ''announce'' then (Ok (out_ok ''repo_announce_accepted'' ''repo announcement accepted''), s)
           else if action = ''sync'' then (Ok (out_ok ''repo_sync_accepted'' ''repo sync accepted''), s)
           else (Ok (out_err ''invalid_command'' ''unsupported repo action''), s)))"

definition apply_command :: "bech32_decoder \<Rightarrow> 's command_store \<Rightarrow> command_input \<Rightarrow> 's \<Rightarrow> 's applied" where
  "apply_command bech32 ops inp s =
     (case pc_namespace (ci_parsed inp) of
        Account \<Rightarrow> apply_account ops inp s
      | Profile \<Rightarrow> apply_profile ops inp s
      | Repo \<Rightarrow> apply_repo bech32 ops inp s)"

definition log_record :: "command_input \<Rightarrow> command_log_record" where
  "log_record inp =
     \<lparr>cl_event_id = ci_event_id inp, cl_pubkey = ci_actor inp, cl_namespace = namespace_name (pc_namespace (ci_parsed inp)),
      cl_action = pc_action (ci_parsed inp), cl_target = pc_target (ci_parsed inp),
      cl_args_json = args_to_json (pc_args (ci_parsed inp)), cl_status = CommandOk, cl_code = ''accepted'',
      cl_message = ''accepted'', cl_created_at = ci_created_at inp\<rparr>"

definition execute_command :: "bech32_decoder \<Rightarrow> 's command_store \<Rightarrow> command_input \<Rightarrow> 's \<Rightarrow> 's applied" where
  "execute_command bech32 ops inp s =
     st_then (cs_insert_log ops (log_record inp) s) (\<lambda>inserted s.
       if \<not> inserted then (Ok (out_ok ''duplicate'' ''already processed''), s)
       else
         (case apply_command bech32 ops inp s of
            (r, s) \<Rightarrow>
              (let outcome = (case r of Inr o' \<Rightarrow> o' | Inl err \<Rightarrow> out_err ''internal'' (dispatch_error_display err)) in
               st_then (cs_update_outcome ops (ci_event_id inp) (co_status outcome) (co_code outcome) (co_message outcome) s)
                 (\<lambda>_ s. (Ok outcome, s)))))"

section \<open>Events from a relay\<close>

datatype dispatch_outcome =
    Ignored ingest_reject_reason
  | Rejected string
  | Applied command_output

definition decode_fixed_hex :: "hex_decoder \<Rightarrow> string \<Rightarrow> string \<Rightarrow> (string, u8 list) result" where
  "decode_fixed_hex dec v field =
     (case dec v of
        Some bytes \<Rightarrow> if length bytes = 32 then Ok bytes else Err (''invalid '' @ field @ '': expected 32-byte hex'')
      | None \<Rightarrow> Err (''invalid '' @ field @ '': expected hex''))"

definition process_event_envelope ::
  "bech32_decoder \<Rightarrow> hex_decoder \<Rightarrow> 's command_store \<Rightarrow> dispatch_filter_config \<Rightarrow> relay_event_envelope \<Rightarrow> 's \<Rightarrow>
   (dispatch_error, dispatch_outcome, 's) st_result" where
  "process_event_envelope bech32 dec ops config envelope s =
     (case is_dispatch_command_event config envelope of
        Inl reason \<Rightarrow> (Ok (Ignored reason), s)
      | Inr _ \<Rightarrow>
     (case parse_cli_command (re_content envelope) of
        Inl err \<Rightarrow> (Ok (Rejected (command_parse_error_display err)), s)
      | Inr parsed \<Rightarrow>
     (case decode_fixed_hex dec (re_id envelope) ''event id'' of
        Inl message \<Rightarrow> (Ok (Rejected message), s)
      | Inr event_id \<Rightarrow>
     (case decode_fixed_hex dec (re_pubkey envelope) ''pubkey'' of
        Inl message \<Rightarrow> (Ok (Rejected message), s)
      | Inr actor \<Rightarrow>
          st_then (execute_command bech32 ops
              \<lparr>ci_event_id = event_id, ci_actor = actor, ci_parsed = parsed, ci_created_at = re_created_at envelope\<rparr> s)
            (\<lambda>output s. (Ok (Applied output), s))))))"

definition build_relay_req_message :: "(json \<Rightarrow> string) \<Rightarrow> string \<Rightarrow> string" where
  "build_relay_req_message to_string admin_pubkey =
     to_string (JArray [JString ''REQ'', JString ''gittree-dispatch'',
       JObject [(''#p'', JArray [JString admin_pubkey]), (''kinds'', JArray [JInt 1])]])"

primrec option_all :: "('a \<Rightarrow> 'b option) \<Rightarrow> 'a list \<Rightarrow> 'b list option" where
  "option_all f [] = Some []"
| "option_all f (x # xs) = Option.bind (f x) (\<lambda>y. map_option ((#) y) (option_all f xs))"

definition parse_event_tags :: "json \<Rightarrow> tag list option" where
  "parse_event_tags v =
     Option.bind (as_array v) (option_all (\<lambda>row. Option.bind (as_array row) (option_all as_str)))"

definition parse_relay_event_message ::
  "(string \<Rightarrow> json option) \<Rightarrow> string \<Rightarrow> string \<Rightarrow> relay_event_envelope option" where
  "parse_relay_event_message from_str message relay_url =
     Option.bind (from_str message) (\<lambda>v.
     Option.bind (as_array v) (\<lambda>parts.
     if length parts < 3 then None
     else Option.bind (as_str (parts ! 0)) (\<lambda>head.
     if head \<noteq> ''EVENT'' then None
     else Option.bind (as_object (parts ! 2)) (\<lambda>event.
     Option.bind (Option.bind (map_of event ''id'') as_str) (\<lambda>id.
     Option.bind (Option.bind (map_of event ''pubkey'') as_str) (\<lambda>pubkey.
     Option.bind (Option.bind (map_of event ''kind'') as_u64) (\<lambda>kind.
     Option.bind (Option.bind (map_of event ''created_at'') as_i64) (\<lambda>created_at.
     Option.bind (Option.bind (map_of event ''content'') as_str) (\<lambda>content.
     Option.bind (Option.bind (map_of event ''tags'') parse_event_tags) (\<lambda>tags.
     Some \<lparr>re_id = id, re_pubkey = pubkey, re_kind = of_nat kind, re_created_at = created_at, re_content = content,
          re_tags = tags, re_relay_url = relay_url\<rparr>))))))))))"

definition process_event_message ::
  "bech32_decoder \<Rightarrow> hex_decoder \<Rightarrow> (string \<Rightarrow> json option) \<Rightarrow> 's command_store \<Rightarrow> dispatch_filter_config \<Rightarrow>
   string \<Rightarrow> string \<Rightarrow> 's \<Rightarrow> (dispatch_error, dispatch_outcome option, 's) st_result" where
  "process_event_message bech32 dec from_str ops config relay_url message s =
     (case parse_relay_event_message from_str message relay_url of
        None \<Rightarrow> (Ok None, s)
      | Some envelope \<Rightarrow>
          st_then (process_event_envelope bech32 dec ops config envelope s) (\<lambda>outcome s. (Ok (Some outcome), s)))"

text \<open>
  A message of the websocket, and what is read: the loop ends at the end of the stream, a failed read, a close, or
  a pong that cannot be sent; the outcome of an event, also a failure, is logged and the loop goes on.\<close>

datatype ws_message = WsText string | WsPing string | WsClose | WsOther

primrec connection_loop ::
  "(string \<Rightarrow> 's \<Rightarrow> 's) \<Rightarrow> (string \<Rightarrow> bool) \<Rightarrow> ws_message option list \<Rightarrow> 's \<Rightarrow> 's" where
  "connection_loop process pong_sent [] s = s"
| "connection_loop process pong_sent (next # rest) s =
     (case next of
        None \<Rightarrow> s
      | Some (WsText text') \<Rightarrow> connection_loop process pong_sent rest (process text' s)
      | Some (WsPing payload) \<Rightarrow> if pong_sent payload then connection_loop process pong_sent rest s else s
      | Some WsClose \<Rightarrow> s
      | Some WsOther \<Rightarrow> connection_loop process pong_sent rest s)"

definition process_relay_connection ::
  "bech32_decoder \<Rightarrow> hex_decoder \<Rightarrow> (string \<Rightarrow> json option) \<Rightarrow> (json \<Rightarrow> string) \<Rightarrow> 's command_store \<Rightarrow>
   dispatch_filter_config \<Rightarrow> string \<Rightarrow> (string \<Rightarrow> bool) \<Rightarrow> (string \<Rightarrow> bool) \<Rightarrow> ws_message option list \<Rightarrow> 's \<Rightarrow> 's" where
  "process_relay_connection bech32 dec from_str to_string ops config relay_url request_sent pong_sent incoming s =
     (if \<not> request_sent (build_relay_req_message to_string (df_admin_pubkey config)) then s
      else connection_loop (\<lambda>text' s. snd (process_event_message bech32 dec from_str ops config relay_url text' s))
        pong_sent incoming s)"

section \<open>What a command may touch\<close>

text \<open>
  The store a command runs on, seen from one property of its state: whatever the writes on the actor's own rows
  keep, the command keeps. A read returns the rows it was asked for.\<close>

locale command_writes =
  fixes ops :: "'s command_store" and actor :: "u8 list" and P :: "'s \<Rightarrow> bool"
  assumes read_profile: "cs_profile ops actor s = Ok (Some p) \<Longrightarrow> ps_pubkey p = actor"
    and read_repo: "cs_repo ops actor name s = Ok (Some r) \<Longrightarrow> rv_owner_pubkey r = actor"
    and write_account: "P s \<Longrightarrow> as_pubkey a = actor \<Longrightarrow> P (snd (cs_upsert_account ops a s))"
    and write_profile: "P s \<Longrightarrow> ps_pubkey p = actor \<Longrightarrow> P (snd (cs_upsert_profile ops p s))"
    and write_repo: "P s \<Longrightarrow> rv_owner_pubkey r = actor \<Longrightarrow> P (snd (cs_upsert_repo ops r s))"
    and write_maintainer: "P s \<Longrightarrow> rn_owner_pubkey m = actor \<Longrightarrow> P (snd (cs_set_maintainer ops m s))"
begin

lemma then_keeps: "P (snd r) \<Longrightarrow> (\<And>x s. P s \<Longrightarrow> P (snd (f x s))) \<Longrightarrow> P (snd (st_then r f))"
  by (rule st_then_keeps)

lemma account_keeps: "P s \<Longrightarrow> ci_actor inp = actor \<Longrightarrow> P (snd (apply_account ops inp s))"
  by (auto simp: apply_account_def Let_def split: sum.split option.split intro!: then_keeps write_account)

lemma set_profile_arg_owner: "ps_pubkey (set_profile_arg p arg) = ps_pubkey p"
    "ps_pubkey (foldl set_profile_arg p args) = ps_pubkey p"
proof -
  show one: "ps_pubkey (set_profile_arg p arg) = ps_pubkey p" for p arg
    by (simp add: set_profile_arg_def split: command_arg.split)
  show "ps_pubkey (foldl set_profile_arg p args) = ps_pubkey p" by (induction args arbitrary: p) (simp_all add: one)
qed

lemma profile_keeps: "P s \<Longrightarrow> ci_actor inp = actor \<Longrightarrow> P (snd (apply_profile ops inp s))"
proof -
  assume s: "P s" and inp: "ci_actor inp = actor"
  have "ps_pubkey (unwrap_or found (blank_profile actor now)) = actor"
    if "cs_profile ops actor s = Ok found" for found now
    using that read_profile by (cases found) (auto simp: unwrap_or_def blank_profile_def)
  then show ?thesis
    using s inp
    by (auto simp: apply_profile_def Let_def set_profile_arg_owner
        split: sum.split list.split command_arg.split intro!: then_keeps write_profile)
qed

lemma with_repo_keeps:
  assumes "P s" and "ci_actor inp = actor"
    and "\<And>r s. P s \<Longrightarrow> rv_owner_pubkey r = actor \<Longrightarrow> P (snd (change r s))"
  shows "P (snd (with_repo ops inp repo_name change s))"
  using assms read_repo by (auto simp: with_repo_def split: sum.split option.split)

lemma set_repo_arg_owner: "rv_owner_pubkey (foldl set_repo_arg r args) = rv_owner_pubkey r"
  by (induction args arbitrary: r) (auto simp: set_repo_arg_def split: command_arg.split)

lemma repo_create_keeps: "P s \<Longrightarrow> ci_actor inp = actor \<Longrightarrow> P (snd (repo_create ops inp name s))"
  by (auto simp: repo_create_def split: sum.split intro!: then_keeps write_repo write_maintainer)

lemma repo_update_keeps: "P s \<Longrightarrow> ci_actor inp = actor \<Longrightarrow> P (snd (repo_update ops inp name s))"
  unfolding repo_update_def by (rule with_repo_keeps) (auto simp: set_repo_arg_owner intro!: then_keeps write_repo)

lemma repo_archive_keeps: "P s \<Longrightarrow> ci_actor inp = actor \<Longrightarrow> P (snd (repo_archive ops inp name s))"
  unfolding repo_archive_def by (rule with_repo_keeps) (auto intro!: then_keeps write_repo)

lemma repo_maintainers_keeps: "P s \<Longrightarrow> ci_actor inp = actor \<Longrightarrow> P (snd (repo_maintainers bech32 ops inp name s))"
  by (auto simp: repo_maintainers_def split: sum.split list.split command_arg.split intro!: then_keeps write_maintainer)

lemma command_keeps: "P s \<Longrightarrow> ci_actor inp = actor \<Longrightarrow> P (snd (apply_command bech32 ops inp s))"
  by (auto simp: apply_command_def apply_repo_def Let_def account_keeps profile_keeps repo_create_keeps repo_update_keeps
      repo_archive_keeps repo_maintainers_keeps split: command_namespace.split option.split)

end

section \<open>The log of commands\<close>

text \<open>What the service relies on: an identifier is entered once and stays.\<close>

locale command_log =
  fixes ops :: "'s command_store" and logged :: "'s \<Rightarrow> u8 list \<Rightarrow> bool"
  assumes insert_seen: "logged s (cl_event_id r) \<Longrightarrow>
      snd (cs_insert_log ops r s) = s \<and> fst (cs_insert_log ops r s) \<noteq> Ok True"
    and insert_new: "\<not> logged s (cl_event_id r) \<Longrightarrow>
      (\<exists>err. cs_insert_log ops r s = (Err err, s)) \<or>
      fst (cs_insert_log ops r s) = Ok True \<and> logged (snd (cs_insert_log ops r s)) (cl_event_id r)"
    and insert_keeps: "logged s e \<Longrightarrow> logged (snd (cs_insert_log ops r s)) e"
    and outcome_keeps: "logged s e \<Longrightarrow> logged (snd (cs_update_outcome ops e' status code message s)) e"
    and profile_of: "cs_profile ops actor s = Ok (Some p) \<Longrightarrow> ps_pubkey p = actor"
    and repo_of: "cs_repo ops actor name s = Ok (Some rp) \<Longrightarrow> rv_owner_pubkey rp = actor"
    and account_keeps: "logged s e \<Longrightarrow> logged (snd (cs_upsert_account ops a s)) e"
    and profile_keeps: "logged s e \<Longrightarrow> logged (snd (cs_upsert_profile ops p s)) e"
    and repo_keeps: "logged s e \<Longrightarrow> logged (snd (cs_upsert_repo ops rp s)) e"
    and maintainer_keeps: "logged s e \<Longrightarrow> logged (snd (cs_set_maintainer ops m s)) e"

sublocale command_log \<subseteq> writes: command_writes ops actor "\<lambda>s. logged s e" for actor e
  by unfold_locales (simp_all add: profile_of repo_of account_keeps profile_keeps repo_keeps maintainer_keeps)

context command_log
begin

lemma apply_keeps: "logged s e \<Longrightarrow> logged (snd (apply_command bech32 ops inp s)) e"
  using writes.command_keeps by blast

lemma execute_seen:
  assumes "logged s (ci_event_id inp)"
  shows "snd (execute_command bech32 ops inp s) = s"
  using insert_seen [of s "log_record inp"] assms
  by (cases "cs_insert_log ops (log_record inp) s")
    (auto simp: execute_command_def log_record_def st_then_def split: sum.splits)

lemma outcome_then_keeps:
  "logged s e \<Longrightarrow> logged (snd (st_then (cs_update_outcome ops e' status code message s) (\<lambda>_ s. (x, s)))) e"
  by (rule st_then_keeps) (simp_all add: outcome_keeps)

lemma execute_logs:
  assumes "\<not> logged s (ci_event_id inp)"
  shows "snd (execute_command bech32 ops inp s) = s \<or> logged (snd (execute_command bech32 ops inp s)) (ci_event_id inp)"
proof (cases "\<exists>err. cs_insert_log ops (log_record inp) s = (Err err, s)")
  case True
  then show ?thesis by (auto simp: execute_command_def)
next
  case False
  then obtain s' where s': "cs_insert_log ops (log_record inp) s = (Ok True, s')" "logged s' (ci_event_id inp)"
    using insert_new [of s "log_record inp"] assms
    by (cases "cs_insert_log ops (log_record inp) s") (auto simp: log_record_def)
  obtain r t where t: "apply_command bech32 ops inp s' = (r, t)" by fastforce
  then have "logged t (ci_event_id inp)" using apply_keeps [OF s'(2), of bech32 inp] by simp
  then show ?thesis
    using s' t by (auto simp: execute_command_def Let_def intro: outcome_then_keeps)
qed

lemma execute_keeps:
  assumes "logged s e"
  shows "logged (snd (execute_command bech32 ops inp s)) e"
  unfolding execute_command_def
proof (rule st_then_keeps)
  show "logged (snd (cs_insert_log ops (log_record inp) s)) e" using assms by (rule insert_keeps)
  fix inserted s'
  assume "logged s' e"
  then have "logged (snd (apply_command bech32 ops inp s')) e" by (rule apply_keeps)
  with \<open>logged s' e\<close> show "logged (snd (if \<not> inserted then (Ok (out_ok ''duplicate'' ''already processed''), s')
      else case apply_command bech32 ops inp s' of (r, s) \<Rightarrow>
        let outcome = case r of Inl err \<Rightarrow> out_err ''internal'' (dispatch_error_display err) | Inr o' \<Rightarrow> o'
        in st_then (cs_update_outcome ops (ci_event_id inp) (co_status outcome) (co_code outcome) (co_message outcome) s)
          (\<lambda>_ s. (Ok outcome, s)))) e"
    by (auto simp: Let_def split: prod.split intro: outcome_then_keeps)
qed

end

section \<open>The tables\<close>

definition in_log :: "command_tables \<Rightarrow> u8 list \<Rightarrow> bool" where
  "in_log t e \<longleftrightarrow> map_of (ct_log t) e \<noteq> None"

lemmas statement_defs = v1_insert_command_log_def v1_update_command_log_outcome_def v1_upsert_account_state_def
  v1_upsert_profile_state_def v1_upsert_repo_state_def v1_set_repo_maintainer_def

lemma table_reads:
  "cs_profile (table_store valid_time) actor t = Ok (Some p) \<Longrightarrow> ps_pubkey p = actor"
  "cs_repo (table_store valid_time) actor name t = Ok (Some r) \<Longrightarrow> rv_owner_pubkey r = actor"
  by (auto simp: table_store_def v1_profile_state_def v1_repo_state_def map_err_eq_Ok and_then_eq_Ok split: option.splits)

lemma log_of_writes:
  "ct_log (snd (cs_upsert_account (table_store valid_time) a t)) = ct_log t"
  "ct_log (snd (cs_upsert_profile (table_store valid_time) p t)) = ct_log t"
  "ct_log (snd (cs_upsert_repo (table_store valid_time) r t)) = ct_log t"
  "ct_log (snd (cs_set_maintainer (table_store valid_time) m t)) = ct_log t"
  by (simp_all add: table_store_def statement_defs split: sum.split)

interpretation tables_log: command_log "table_store valid_time" in_log for valid_time
proof unfold_locales
  fix s :: command_tables and r e e' status code message
  show "in_log s (cl_event_id r) \<Longrightarrow> snd (cs_insert_log (table_store valid_time) r s) = s \<and>
      fst (cs_insert_log (table_store valid_time) r s) \<noteq> Ok True"
    by (auto simp: in_log_def table_store_def statement_defs map_err_def split: sum.split)
  show "\<not> in_log s (cl_event_id r) \<Longrightarrow>
      (\<exists>err. cs_insert_log (table_store valid_time) r s = (Err err, s)) \<or>
      fst (cs_insert_log (table_store valid_time) r s) = Ok True \<and>
      in_log (snd (cs_insert_log (table_store valid_time) r s)) (cl_event_id r)"
    by (auto simp: in_log_def table_store_def statement_defs map_err_def st_map_err_def update_conv' split: sum.split)
  show "in_log s e \<Longrightarrow> in_log (snd (cs_insert_log (table_store valid_time) r s)) e"
    by (auto simp: in_log_def table_store_def statement_defs update_conv' split: sum.split option.split)
  show "in_log s e \<Longrightarrow> in_log (snd (cs_update_outcome (table_store valid_time) e' status code message s)) e"
    by (auto simp: in_log_def table_store_def statement_defs update_conv' split: option.split)
qed (use table_reads in \<open>simp_all add: in_log_def log_of_writes\<close>)

section \<open>Messages\<close>

definition message_id :: "hex_decoder \<Rightarrow> (string \<Rightarrow> json option) \<Rightarrow> string \<times> string \<Rightarrow> u8 list option" where
  "message_id dec from_str = (\<lambda>(relay_url, message).
     Option.bind (parse_relay_event_message from_str message relay_url) (\<lambda>envelope.
     result_ok (decode_fixed_hex dec (re_id envelope) ''event id'')))"

text \<open>The tables after messages of any relays, in the order they are handled.\<close>

definition dispatch_step ::
  "(int \<Rightarrow> bool) \<Rightarrow> bech32_decoder \<Rightarrow> hex_decoder \<Rightarrow> (string \<Rightarrow> json option) \<Rightarrow> dispatch_filter_config \<Rightarrow>
   string \<times> string \<Rightarrow> command_tables \<Rightarrow> command_tables" where
  "dispatch_step valid_time bech32 dec from_str config = (\<lambda>(relay_url, message) t.
     snd (process_event_message bech32 dec from_str (table_store valid_time) config relay_url message t))"

lemma step_cases:
  assumes "t' = dispatch_step valid_time bech32 dec from_str config m t"
  obtains "t' = t"
  | inp envelope where "t' = snd (execute_command bech32 (table_store valid_time) inp t)"
      "message_id dec from_str m = Some (ci_event_id inp)"
      "parse_relay_event_message from_str (snd m) (fst m) = Some envelope"
      "dec (re_pubkey envelope) = Some (ci_actor inp)" "ci_created_at inp = re_created_at envelope"
      "parse_cli_command (re_content envelope) = Ok (ci_parsed inp)"
proof (cases "parse_relay_event_message from_str (snd m) (fst m)")
  case None
  then show ?thesis using assms that(1) by (simp add: dispatch_step_def process_event_message_def case_prod_beta)
next
  case (Some envelope)
  define env' where "env' = process_event_envelope bech32 dec (table_store valid_time) config envelope t"
  have t': "t' = snd env'"
    using assms Some
    by (cases env') (auto simp: dispatch_step_def process_event_message_def case_prod_beta env'_def st_then_def split: sum.split)
  show ?thesis
  proof (cases "is_ok (is_dispatch_command_event config envelope) \<and> is_ok (parse_cli_command (re_content envelope)) \<and>
      is_ok (decode_fixed_hex dec (re_id envelope) ''event id'') \<and> is_ok (decode_fixed_hex dec (re_pubkey envelope) ''pubkey'')")
    case False
    then have "snd env' = t"
      by (auto simp: env'_def process_event_envelope_def is_ok_def split: sum.splits)
    then show ?thesis using t' that(1) by simp
  next
    case True
    then obtain parsed event_id actor where
      p: "parse_cli_command (re_content envelope) = Ok parsed" "decode_fixed_hex dec (re_id envelope) ''event id'' = Ok event_id"
        "decode_fixed_hex dec (re_pubkey envelope) ''pubkey'' = Ok actor"
      by (auto simp: is_ok_def split: sum.splits)
    define inp where "inp = \<lparr>ci_event_id = event_id, ci_actor = actor, ci_parsed = parsed, ci_created_at = re_created_at envelope\<rparr>"
    have "snd env' = snd (execute_command bech32 (table_store valid_time) inp t)"
      using True p
      by (auto simp: env'_def process_event_envelope_def is_ok_def inp_def st_then_def split: sum.splits prod.splits)
    moreover have "message_id dec from_str m = Some (ci_event_id inp)"
      using Some p by (simp add: message_id_def case_prod_beta inp_def result_ok_def)
    moreover have "dec (re_pubkey envelope) = Some actor"
      using p(3) by (auto simp: decode_fixed_hex_def split: option.splits if_splits)
    ultimately show ?thesis using that(2) [of inp envelope] t' Some p by (simp add: inp_def)
  qed
qed

abbreviation dispatch_run where
  "dispatch_run valid_time bech32 dec from_str config ms t \<equiv>
     foldl (\<lambda>t m. dispatch_step valid_time bech32 dec from_str config m t) t ms"

lemma step_keeps_log: "in_log t e \<Longrightarrow> in_log (dispatch_step valid_time bech32 dec from_str config m t) e"
  by (rule step_cases [OF refl, of valid_time bech32 dec from_str config m t]) (simp_all add: tables_log.execute_keeps)

lemma run_keeps_log: "in_log t e \<Longrightarrow> in_log (dispatch_run valid_time bech32 dec from_str config ms t) e"
  by (induction ms arbitrary: t) (simp_all add: step_keeps_log)

lemma step_logs:
  assumes "message_id dec from_str m = Some e" and "dispatch_step valid_time bech32 dec from_str config m t \<noteq> t"
  shows "in_log (dispatch_step valid_time bech32 dec from_str config m t) e"
proof (rule step_cases [OF refl, of valid_time bech32 dec from_str config m t])
  fix inp envelope
  assume *: "dispatch_step valid_time bech32 dec from_str config m t = snd (execute_command bech32 (table_store valid_time) inp t)"
    "message_id dec from_str m = Some (ci_event_id inp)"
  then have "ci_event_id inp = e" using assms(1) by simp
  then show ?thesis using * assms(2) tables_log.execute_logs [of t inp] tables_log.execute_seen by metis
qed (use assms in simp)

lemma step_seen:
  assumes "message_id dec from_str m = Some e" and "in_log t e"
  shows "dispatch_step valid_time bech32 dec from_str config m t = t"
  by (rule step_cases [OF refl, of valid_time bech32 dec from_str config m t])
    (use assms in \<open>auto intro: tables_log.execute_seen\<close>)

text \<open>
  C6: A command takes effect at most once, however many relays deliver it and however often: in any sequence of
  messages, if handling one has changed the tables, no later message with the same event identifier changes
  anything, whatever its content, its author and the relay it comes from.\<close>

theorem command_effective_once:
  assumes "i < j" and "j < length ms"
    and "message_id dec from_str (ms ! i) = Some e" and "message_id dec from_str (ms ! j) = Some e"
    and "dispatch_run valid_time bech32 dec from_str config (take (Suc i) ms) t \<noteq>
      dispatch_run valid_time bech32 dec from_str config (take i ms) t"
  shows "dispatch_run valid_time bech32 dec from_str config (take (Suc j) ms) t =
    dispatch_run valid_time bech32 dec from_str config (take j ms) t"
proof -
  let ?run = "\<lambda>ms. dispatch_run valid_time bech32 dec from_str config ms t"
  have step: "?run (take (Suc k) ms) = dispatch_step valid_time bech32 dec from_str config (ms ! k) (?run (take k ms))"
    if "k < length ms" for k
    using that by (simp add: take_Suc_conv_app_nth)
  have "in_log (?run (take (Suc i) ms)) e"
    using assms(1,2,3,5) step [of i] step_logs by auto
  moreover have "take j ms = take (Suc i) ms @ take (j - Suc i) (drop (Suc i) ms)"
    using assms(1,2) by (metis Suc_leI le_add_diff_inverse take_add)
  ultimately have "in_log (?run (take j ms)) e" by (simp add: run_keeps_log)
  then show ?thesis using step [OF assms(2)] step_seen [OF assms(4)] by simp
qed

section \<open>Rows of one owner\<close>

definition owner_rows ::
  "u8 list \<Rightarrow> command_tables \<Rightarrow> account_row option \<times> profile_row option \<times> (string \<Rightarrow> repo_row option) \<times>
   ((u8 list \<times> string \<times> u8 list) \<times> maintainer_row) list" where
  "owner_rows p t =
     (map_of (ct_accounts t) p, map_of (ct_profiles t) p, (\<lambda>name. map_of (ct_repos t) (p, name)),
      filter (\<lambda>((owner, _), _). owner = p) (ct_maintainers t))"

lemma filter_update: "(\<And>v. \<not> Q (k, v)) \<Longrightarrow> filter Q (AList.update k v m) = filter Q m"
  by (induction m) auto

lemma owner_rows_reads:
  assumes "owner_rows p t' = owner_rows p t"
  shows "v1_account_state p t' = v1_account_state p t" and "v1_profile_state p t' = v1_profile_state p t"
    and "v1_repo_state p name t' = v1_repo_state p name t"
    and "v1_list_active_repo_maintainers p name t' = v1_list_active_repo_maintainers p name t"
proof -
  have f: "filter_map (\<lambda>((o', name', maintainer), row). if o' = p \<and> name' = name \<and> mw_active row then Some maintainer else None) ms
      = filter_map (\<lambda>((o', name', maintainer), row). if name' = name \<and> mw_active row then Some maintainer else None)
          (filter (\<lambda>((owner, _), _). owner = p) ms)" for ms
    by (induction ms) auto
  show "v1_account_state p t' = v1_account_state p t" "v1_profile_state p t' = v1_profile_state p t"
    "v1_repo_state p name t' = v1_repo_state p name t"
    using assms by (simp_all add: owner_rows_def v1_account_state_def v1_profile_state_def v1_repo_state_def fun_eq_iff)
  show "v1_list_active_repo_maintainers p name t' = v1_list_active_repo_maintainers p name t"
    using assms by (simp add: owner_rows_def v1_list_active_repo_maintainers_def f)
qed

interpretation row_writes: command_writes "table_store valid_time" actor "\<lambda>t. actor \<noteq> p \<longrightarrow> owner_rows p t = rows"
  for valid_time actor p rows
proof unfold_locales
  fix s :: command_tables and q name r
  show "cs_profile (table_store valid_time) actor s = Ok (Some q) \<Longrightarrow> ps_pubkey q = actor"
    and "cs_repo (table_store valid_time) actor name s = Ok (Some r) \<Longrightarrow> rv_owner_pubkey r = actor"
    by (erule table_reads)+
qed (auto simp: owner_rows_def table_store_def statement_defs update_conv' filter_update fun_eq_iff split: sum.split)

lemma log_rows:
  "owner_rows p (snd (cs_insert_log (table_store valid_time) r t)) = owner_rows p t"
  "owner_rows p (snd (cs_update_outcome (table_store valid_time) e status code message t)) = owner_rows p t"
  by (simp_all add: owner_rows_def table_store_def statement_defs split: sum.split option.split)

lemma execute_rows:
  assumes "ci_actor inp \<noteq> p"
  shows "owner_rows p (snd (execute_command bech32 (table_store valid_time) inp t)) = owner_rows p t"
proof -
  obtain a t' where a: "cs_insert_log (table_store valid_time) (log_record inp) t = (a, t')" by fastforce
  have t': "owner_rows p t' = owner_rows p t" using log_rows(1) [of p valid_time "log_record inp" t] a by simp
  obtain b t'' where b: "apply_command bech32 (table_store valid_time) inp t' = (b, t'')" by fastforce
  have "owner_rows p t'' = owner_rows p t"
    using row_writes.command_keeps [of "ci_actor inp" p t' "owner_rows p t" inp] t' b assms by (metis snd_conv)
  then show ?thesis
    using a b t' log_rows(2) [of p valid_time]
    by (auto simp: execute_command_def st_then_def Let_def split: sum.split prod.split) (metis snd_conv)+
qed

text \<open>
  C7: Commands act on their author's rows alone: handling a message leaves the account, the profile, every
  repository and every list of maintainers of every other owner as they were. In particular a maintainer the
  owner of a repository has added cannot change that repository.\<close>

theorem commands_stay_with_author:
  assumes "parse_relay_event_message from_str message relay_url = Some envelope"
    and "dec (re_pubkey envelope) \<noteq> Some p"
    and "t' = dispatch_step valid_time bech32 dec from_str config (relay_url, message) t"
  shows "v1_account_state p t' = v1_account_state p t \<and> v1_profile_state p t' = v1_profile_state p t \<and>
    v1_repo_state p name t' = v1_repo_state p name t \<and>
    v1_list_active_repo_maintainers p name t' = v1_list_active_repo_maintainers p name t"
proof -
  have "owner_rows p t' = owner_rows p t"
    by (rule step_cases [OF assms(3)]) (use assms(1,2) execute_rows in force)+
  then show ?thesis using owner_rows_reads by blast
qed

section \<open>From a command to the page\<close>

lemma profile_after_log:
  assumes "v1_insert_command_log valid_time r t = (Ok True, t1)"
  shows "v1_profile_state p t1 = v1_profile_state p t"
  using owner_rows_reads(2) [of p t1 t] log_rows(1) [of p valid_time r t] assms
  by (simp add: table_store_def)

lemma profile_after_outcome:
  "v1_profile_state p (snd (v1_update_command_log_outcome e status code message t)) = v1_profile_state p t"
  using owner_rows_reads(2) [OF log_rows(2) [of p _ e status code message t]] by (simp add: table_store_def)

lemma visibility_executed:
  assumes "is_dispatch_command_event config envelope = Ok ()"
    and "parse_cli_command (re_content envelope) = Ok cmd" and "pc_namespace cmd = Profile"
    and "pc_action cmd = ''visibility''" and "pc_args cmd = [Positional v]"
    and "dec (re_id envelope) = Some e" "length e = 32" and "dec (re_pubkey envelope) = Some actor" "length actor = 32"
    and "\<not> in_log t e" and "valid_time (re_created_at envelope)"
    and "v1_profile_state actor t = Ok found"
  shows "\<exists>t'. process_event_envelope bech32 dec (table_store valid_time) config envelope t =
      (Ok (Applied (out_ok ''profile_visibility_updated'' ''profile visibility updated'')), t') \<and> in_log t' e \<and>
    v1_profile_state actor t' = Ok (Some ((unwrap_or found (blank_profile actor (re_created_at envelope)))
      \<lparr>ps_visibility := (if v = ''public'' then V1Public else V1Private), ps_updated_at := re_created_at envelope\<rparr>))"
proof -
  define inp where "inp = \<lparr>ci_event_id = e, ci_actor = actor, ci_parsed = cmd, ci_created_at = re_created_at envelope\<rparr>"
  define new where "new = (unwrap_or found (blank_profile actor (re_created_at envelope)))
    \<lparr>ps_visibility := (if v = ''public'' then V1Public else V1Private), ps_updated_at := re_created_at envelope\<rparr>"
  have owner: "ps_pubkey new = actor"
    using assms(12) by (auto simp: new_def unwrap_or_def blank_profile_def v1_profile_state_def and_then_eq_Ok split: option.splits)
  obtain t1 where t1: "v1_insert_command_log valid_time (log_record inp) t = (Ok True, t1)" "in_log t1 e"
    using assms(10,11)
    by (simp add: v1_insert_command_log_def to_offset_datetime_def in_log_def log_record_def inp_def update_conv')
  obtain t2 where t2: "v1_upsert_profile_state valid_time new t1 = (Ok (), t2)"
    using assms(11) by (simp add: v1_upsert_profile_state_def to_offset_datetime_def new_def)
  obtain t3 where t3: "v1_update_command_log_outcome e CommandOk ''profile_visibility_updated'' ''profile visibility updated'' t2 = (Ok (), t3)"
    by (simp add: v1_update_command_log_outcome_def)
  have "in_log t2 e" using t1(2) t2 log_of_writes(2) [of valid_time new t1] by (simp add: in_log_def table_store_def)
  then have log: "in_log t3 e"
    using tables_log.outcome_keeps [of t2 e valid_time e CommandOk "''profile_visibility_updated''" "''profile visibility updated''"] t3
    by (simp add: table_store_def)
  have read: "v1_profile_state actor t3 = Ok (Some new)"
    using profile_written [OF t2, of actor] owner t3
      profile_after_outcome [of actor e CommandOk "''profile_visibility_updated''" "''profile visibility updated''" t2] by simp
  have "apply_command bech32 (table_store valid_time) inp t1 =
      (Ok (out_ok ''profile_visibility_updated'' ''profile visibility updated''), t2)"
    using assms(3-5,12) profile_after_log [OF t1(1), of actor] t2
    by (simp add: apply_command_def apply_profile_def inp_def table_store_def st_map_err_def new_def Let_def)
  then have "execute_command bech32 (table_store valid_time) inp t =
      (Ok (out_ok ''profile_visibility_updated'' ''profile visibility updated''), t3)"
    using t1(1) t3
    by (simp add: execute_command_def Let_def out_ok_def inp_def) (simp add: table_store_def st_map_err_def)
  then have "process_event_envelope bech32 dec (table_store valid_time) config envelope t =
      (Ok (Applied (out_ok ''profile_visibility_updated'' ''profile visibility updated'')), t3)"
    using assms(1,2,6-9) by (simp add: process_event_envelope_def decode_fixed_hex_def inp_def)
  then show ?thesis using log read by (auto simp: new_def)
qed

text \<open>
  C36: From a note on a relay to the page of the state service: a fresh command that sets the visibility of its
  author's profile is applied and logged, and from then on the profile is shown with the fields it had, or not
  found when the command hid it. A profile that did not exist is created empty.\<close>

theorem visibility_command_shown:
  assumes "is_dispatch_command_event config envelope = Ok ()"
    and "parse_cli_command (re_content envelope) = Ok cmd" and "pc_namespace cmd = Profile"
    and "pc_action cmd = ''visibility''" and "pc_args cmd = [Positional v]"
    and "dec (re_id envelope) = Some e" "length e = 32" and "dec (re_pubkey envelope) = Some actor" "length actor = 32"
    and "\<not> in_log t e" and "valid_time (re_created_at envelope)"
    and "v1_profile_state actor t = Ok found" and "pubkey_bytes_from_npub bech32 npub = Ok actor"
  shows "\<exists>t'. process_event_envelope bech32 dec (table_store valid_time) config envelope t =
      (Ok (Applied (out_ok ''profile_visibility_updated'' ''profile visibility updated'')), t') \<and> in_log t' e \<and>
    profile_view_handler bech32 (table_projections t') npub =
      (let old = unwrap_or found (blank_profile actor (re_created_at envelope)) in
       if v = ''public''
       then Ok \<lparr>pw_npub = npub, pw_display_name = ps_display_name old, pw_bio = ps_bio old,
         pw_avatar_url = ps_avatar_url old, pw_website_url = ps_website_url old, pw_location = ps_location old,
         pw_visibility = ''public'', pw_updated_at = re_created_at envelope\<rparr>
       else Err (StateHttpNotFound ''profile''))"
proof -
  obtain t' where t': "process_event_envelope bech32 dec (table_store valid_time) config envelope t =
      (Ok (Applied (out_ok ''profile_visibility_updated'' ''profile visibility updated'')), t')" "in_log t' e"
    "v1_profile_state actor t' = Ok (Some ((unwrap_or found (blank_profile actor (re_created_at envelope)))
      \<lparr>ps_visibility := (if v = ''public'' then V1Public else V1Private), ps_updated_at := re_created_at envelope\<rparr>))"
    using visibility_executed [of config envelope cmd v dec e actor t valid_time found bech32, OF assms(1-12)] by blast
  then show ?thesis
    using assms(13)
    by (simp add: profile_view_handler_def parse_npub_param_def table_projections_def projected_def Let_def ok_or_def)
qed


section \<open>Sample messages\<close>

abbreviation sample_key :: "u8 list" where
  "sample_key \<equiv> replicate 32 1"

definition sample_filter :: dispatch_filter_config where
  "sample_filter = \<lparr>df_admin_pubkey = ''admin'', df_relay_allowlist = [''wss://r'']\<rparr>"

definition sample_note :: "string \<Rightarrow> int \<Rightarrow> (string \<times> json) list" where
  "sample_note content kind =
     [(''content'', JString content), (''created_at'', JInt 7), (''id'', JString ''i''), (''kind'', JInt kind),
      (''pubkey'', JString ''p''), (''tags'', JArray [JArray [JString ''p'', JString ''admin'']])]"

definition sample_command :: parsed_command where
  "sample_command = \<lparr>pc_namespace = Profile, pc_action = ''visibility'', pc_target = None, pc_args = [Positional ''public'']\<rparr>"

definition sample_parse :: "string \<Rightarrow> json option" where
  "sample_parse message =
     Some (JArray [JString ''EVENT'', JNull,
       JObject (sample_note (render_command sample_command) (if message = [] then 1 else 1 + 2 ^ 32))])"

definition sample_envelope :: relay_event_envelope where
  "sample_envelope =
     \<lparr>re_id = ''i'', re_pubkey = ''p'', re_kind = 1, re_created_at = 7,
      re_content = render_command sample_command, re_tags = [[''p'', ''admin'']], re_relay_url = ''wss://r''\<rparr>"

lemma sample_command_parsed: "parse_cli_command (re_content sample_envelope) = Ok sample_command"
proof -
  have "valid_utf8 ''public''" by (rule valid_utf8_ascii) (simp add: is_ascii_def)
  then have "command_wf sample_command"
    by (simp add: command_wf_def command_shape.simps sample_command_def)
  then show ?thesis by (simp add: sample_envelope_def parse_rendered)
qed

lemma sample_command_taken: "is_dispatch_command_event sample_filter sample_envelope = Ok ()"
proof -
  have "CHR ''g'' \<notin> ws_leads" using ws_lead_byte [of "CHR ''g''"] by auto
  then have "trim_start (render_command sample_command) = render_command sample_command"
    by (intro trim_start_id) (simp add: render_command_def)
  then show ?thesis
    by (simp add: is_dispatch_command_event_def sample_filter_def sample_envelope_def has_admin_tag_def ensure_def
        render_command_def render_tokens_def command_tokens_def sample_command_def starts_with_def)
qed

lemma sample_message: "parse_relay_event_message sample_parse [] ''wss://r'' = Some sample_envelope"
  by (simp add: parse_relay_event_message_def sample_parse_def sample_note_def sample_envelope_def parse_event_tags_def
      in_i64_def i64_min_def i64_max_def u64_max_def)

abbreviation sample_bech32_key :: bech32_decoder where
  "sample_bech32_key \<equiv> \<lambda>_. Some (''npub'', sample_key)"

lemma sample_fresh: "\<not> in_log empty_tables e" "v1_profile_state p empty_tables = Ok None"
  by (simp_all add: in_log_def empty_tables_def v1_profile_state_def)

lemma sample_step:
  "in_log (dispatch_step (\<lambda>_. True) sample_bech32_key (\<lambda>_. Some sample_key) sample_parse sample_filter (''wss://r'', []) empty_tables)
     sample_key"
  using visibility_executed [OF sample_command_taken sample_command_parsed, of "''public''" "\<lambda>_. Some sample_key" sample_key
      sample_key empty_tables "\<lambda>_. True" None sample_bech32_key] sample_fresh
  by (auto simp: dispatch_step_def process_event_message_def sample_message sample_command_def)

theorem command_effective_once_witness:
  "\<exists>ms. length ms = 2 \<and>
     (let run = (\<lambda>k. dispatch_run (\<lambda>_. True) sample_bech32_key (\<lambda>_. Some sample_key) sample_parse sample_filter (take k ms) empty_tables)
      in run 1 \<noteq> run 0 \<and> run 2 = run 1)"
proof -
  let ?ms = "[(''wss://r'', []), (''wss://r'', [])]"
  have ids: "message_id (\<lambda>_. Some sample_key) sample_parse (?ms ! k) = Some sample_key" if "k < 2" for k
    using that by (cases k) (simp_all add: message_id_def sample_message sample_envelope_def decode_fixed_hex_def result_ok_def less_Suc_eq numeral_2_eq_2)
  have "dispatch_step (\<lambda>_. True) sample_bech32_key (\<lambda>_. Some sample_key) sample_parse sample_filter (''wss://r'', []) empty_tables \<noteq> empty_tables"
    using sample_step sample_fresh(1) by metis
  then have "dispatch_run (\<lambda>_. True) sample_bech32_key (\<lambda>_. Some sample_key) sample_parse sample_filter (take (Suc 0) ?ms) empty_tables \<noteq>
      dispatch_run (\<lambda>_. True) sample_bech32_key (\<lambda>_. Some sample_key) sample_parse sample_filter (take 0 ?ms) empty_tables"
    by simp
  from this command_effective_once [of 0 1 ?ms, OF _ _ ids ids this] show ?thesis
    by (intro exI [of _ ?ms]) (simp add: Let_def numeral_2_eq_2)
qed

theorem commands_stay_with_author_witness:
  "v1_account_state [] (dispatch_step (\<lambda>_. True) sample_bech32_key (\<lambda>_. Some sample_key) sample_parse sample_filter
     (''wss://r'', []) empty_tables) = Ok None"
  using commands_stay_with_author [OF sample_message, of "\<lambda>_. Some sample_key" "[]" _ "\<lambda>_. True" sample_bech32_key sample_filter empty_tables]
  by (simp add: v1_account_state_def [of _ empty_tables] empty_tables_def [symmetric]) (simp add: v1_account_state_def empty_tables_def)

theorem visibility_command_shown_witness:
  "\<exists>t'. in_log t' sample_key \<and> profile_view_handler sample_bech32_key (table_projections t') ''npub1x'' =
     Ok \<lparr>pw_npub = ''npub1x'', pw_display_name = None, pw_bio = None, pw_avatar_url = None, pw_website_url = None,
         pw_location = None, pw_visibility = ''public'', pw_updated_at = 7\<rparr>"
  using visibility_command_shown [OF sample_command_taken sample_command_parsed, of "''public''" "\<lambda>_. Some sample_key" sample_key
      sample_key empty_tables "\<lambda>_. True" None sample_bech32_key "''npub1x''"] sample_fresh
  by (auto simp: sample_command_def pubkey_bytes_from_npub_def ok_or_def unwrap_or_def blank_profile_def Let_def
      sample_envelope_def)


end
