(* ===== verification/Auth_Service.thy ===== *)
theory Auth_Service
  imports Service_Settings Nostr_Auth Webhook Forgejo_Client Storage_Directory
begin

text \<open>
  The auth service (\<open>services/auth/src/lib.rs\<close>): signing up, and reading and changing a profile, with requests signed
  after NIP-98. The handlers work on the traits \<open>AccountRepository\<close> and \<open>ProfileRepository\<close>, here the records of
  operations \<open>account_ops\<close> and \<open>profile_ops\<close> on a storage, and on the Forgejo client; a call gets the time and the
  random bytes it reads with the request. Decoders of base64 and JSON, the hash and the signatures are parameters.
  The locale \<open>people_repo\<close> is what the handlers rely on of the storage; the directory of the storage crate
  provides it.
\<close>

section \<open>Settings\<close>

record auth_service_config =
  au_bind :: string
  au_auth :: auth_config
  au_forgejo :: forgejo_config
  au_storage :: storage_config
  au_command_only :: bool

definition parse_bool_flag :: "string option \<Rightarrow> bool" where
  "parse_bool_flag v =
     (case v of
        Some v \<Rightarrow> trim v \<in> {''1'', ''true'', ''TRUE'', ''yes'', ''YES''}
      | None \<Rightarrow> False)"

definition auth_service_config_from_env :: "url_parser \<Rightarrow> environment \<Rightarrow> auth_service_config settings" where
  "auth_service_config_from_env url_parse env =
     and_then (map_err ServiceConfigFailed (services_from_env_validated env)) (\<lambda>services.
     and_then (map_err ServiceConfigFailed (auth_config_from_env env)) (\<lambda>auth.
     and_then (map_err ServiceConfigFailed (forgejo_config_from_env url_parse env)) (\<lambda>forgejo.
     and_then (map_err ServiceStorage (storage_from_env env)) (\<lambda>storage.
     Ok \<lparr>au_bind = sc_bind (sv_auth services), au_auth = auth, au_forgejo = forgejo, au_storage = storage,
         au_command_only = parse_bool_flag (env ''GITTREE_AUTH_COMMAND_ONLY'')\<rparr>))))"

section \<open>Answers and errors\<close>

record signup_response =
  su_pubkey :: string
  su_username :: string
  su_status :: string

datatype auth_http_error =
    AuthUnauthorized string
  | AuthBadRequest string
  | AuthNotFound string
  | AuthInternal string

fun auth_http_response :: "auth_http_error \<Rightarrow> nat \<times> string" where
  "auth_http_response (AuthUnauthorized message) = (401, message)"
| "auth_http_response (AuthBadRequest message) = (400, message)"
| "auth_http_response (AuthNotFound message) = (404, message)"
| "auth_http_response (AuthInternal message) = (500, message)"

datatype api_profile_visibility = ApiPrivate | ApiPublic

record profile =
  pr_pubkey :: string
  pr_username :: string
  pr_display_name :: "string option"
  pr_bio :: "string option"
  pr_avatar_url :: "string option"
  pr_website_url :: "string option"
  pr_location :: "string option"
  pr_visibility :: api_profile_visibility
  pr_created_at :: int
  pr_updated_at :: int

record profile_update =
  up_display_name :: "string option"
  up_bio :: "string option"
  up_avatar_url :: "string option"
  up_website_url :: "string option"
  up_location :: "string option"
  up_visibility :: "api_profile_visibility option"

definition profile_input_error :: "storage_error \<Rightarrow> auth_http_error" where
  "profile_input_error err =
     (case err of
        StorageInvalidField field v \<Rightarrow> AuthBadRequest (storage_error_display err)
      | StorageInvalidHex field v \<Rightarrow> AuthBadRequest (storage_error_display err)
      | _ \<Rightarrow> AuthInternal (storage_error_display err))"

fun api_visibility_from_storage :: "profile_visibility \<Rightarrow> api_profile_visibility" where
  "api_visibility_from_storage VisPrivate = ApiPrivate"
| "api_visibility_from_storage VisPublic = ApiPublic"

fun storage_visibility_from_api :: "api_profile_visibility \<Rightarrow> profile_visibility" where
  "storage_visibility_from_api ApiPrivate = VisPrivate"
| "storage_visibility_from_api ApiPublic = VisPublic"

definition profile_response :: "string \<Rightarrow> string \<Rightarrow> profile_record \<Rightarrow> profile" where
  "profile_response pubkey username p =
     \<lparr>pr_pubkey = pubkey, pr_username = username, pr_display_name = pf_display_name p, pr_bio = pf_bio p,
      pr_avatar_url = pf_avatar_url p, pr_website_url = pf_website_url p, pr_location = pf_location p,
      pr_visibility = api_visibility_from_storage (pf_visibility p), pr_created_at = pf_created_at p,
      pr_updated_at = pf_updated_at p\<rparr>"

definition or_else :: "'a option \<Rightarrow> 'a option \<Rightarrow> 'a option" where
  "or_else x y = (case x of Some _ \<Rightarrow> x | None \<Rightarrow> y)"

definition apply_profile_update ::
  "hex_decoder \<Rightarrow> string \<Rightarrow> profile_record \<Rightarrow> profile_update \<Rightarrow> int \<Rightarrow> (storage_error, profile_record) result" where
  "apply_profile_update dec pubkey p update now =
     profile_record_new dec pubkey
       (or_else (up_display_name update) (pf_display_name p))
       (or_else (up_bio update) (pf_bio p))
       (or_else (up_avatar_url update) (pf_avatar_url p))
       (or_else (up_website_url update) (pf_website_url p))
       (or_else (up_location update) (pf_location p))
       (unwrap_or (map_option storage_visibility_from_api (up_visibility update)) (pf_visibility p))
       (pf_created_at p) now"

section \<open>Who is asking\<close>

text \<open>
  A request as a handler gets it: the headers, the method, the address, the body, and the time and the random
  bytes that the handler reads. The state of the service holds its settings and what it calls.\<close>

record auth_call =
  cl_headers :: header_map
  cl_method :: string
  cl_path_and_query :: "string option"
  cl_path :: string
  cl_body :: "u8 list"
  cl_now :: int
  cl_random :: "u8 list"

record 'r profile_ops =
  po_upsert_profile :: "profile_record \<Rightarrow> 'r \<Rightarrow> (storage_error, unit, 'r) st_result"
  po_profile_by_pubkey :: "u8 list \<Rightarrow> 'r \<Rightarrow> (storage_error, profile_record option) result"

record ('r, 'w) auth_app_state =
  as_auth :: auth_config
  as_forgejo :: "'w forgejo_client"
  as_accounts :: "'r account_ops"
  as_profiles :: "'r profile_ops"
  as_crypto :: crypto
  as_xonly :: "u8 list \<Rightarrow> bool"
  as_bech32 :: bech32_decoder
  as_base64 :: "string \<Rightarrow> u8 list option"
  as_event :: "u8 list \<Rightarrow> nip98_event option"
  as_update :: "u8 list \<Rightarrow> (string, profile_update) result"

text \<open>\<open>headers.get(name).and_then(|value| value.to_str().ok())\<close>.\<close>

definition header_text :: "header_map \<Rightarrow> string \<Rightarrow> string option" where
  "header_text headers name = (case headers name of Some v \<Rightarrow> v | None \<Rightarrow> None)"

definition build_request_url :: "auth_call \<Rightarrow> (auth_http_error, string) result" where
  "build_request_url call =
     and_then (ok_or (AuthBadRequest ''missing host header'') (header_text (cl_headers call) ''host'')) (\<lambda>host.
     let scheme = unwrap_or (header_text (cl_headers call) ''x-forwarded-proto'') ''http'';
         path = unwrap_or (cl_path_and_query call) (cl_path call)
     in Ok (scheme @ ''://'' @ host @ path))"

definition parse_nostr_auth :: "('r, 'w) auth_app_state \<Rightarrow> header_map \<Rightarrow> (auth_http_error, nip98_event) result" where
  "parse_nostr_auth st headers =
     and_then (ok_or (AuthUnauthorized ''missing authorization'') (header_text headers ''authorization'')) (\<lambda>v.
     and_then (ok_or (AuthUnauthorized ''invalid authorization header'') (strip_prefix (trim v) ''Nostr '')) (\<lambda>token.
     and_then (ok_or (AuthUnauthorized ''invalid nostr authorization'') (as_base64 st token)) (\<lambda>decoded.
     ok_or (AuthUnauthorized ''invalid nostr event'') (as_event st decoded))))"

definition payload_hash :: "crypto \<Rightarrow> u8 list \<Rightarrow> string option" where
  "payload_hash cr body = (if body = [] then None else Some (hex_encode cr (sha256 cr (bytes_text body))))"

text \<open>A number of 64 bits read as a signed one, \<open>as i64\<close>.\<close>

definition as_i64 :: "nat \<Rightarrow> int" where
  "as_i64 n = (let m = int n mod 2 ^ 64 in if m < 2 ^ 63 then m else m - 2 ^ 64)"

text \<open>How each handler that wants a signature starts; only reading a profile does not ask for the hash of a body.\<close>

definition authenticated ::
  "('r, 'w) auth_app_state \<Rightarrow> auth_call \<Rightarrow> string option \<Rightarrow> (auth_http_error, nip98_auth) result" where
  "authenticated st call payload =
     and_then (parse_nostr_auth st (cl_headers call)) (\<lambda>event.
     and_then (build_request_url call) (\<lambda>request_url.
     map_err (\<lambda>err. AuthUnauthorized (nip98_error_display err))
       (validate_nip98 (as_crypto st) (as_xonly st) event
         \<lparr>nq_method = cl_method call, nq_url = request_url, nq_payload_sha256 = payload, nq_now = cl_now call,
          nq_max_skew_seconds = as_i64 (ac_max_skew_seconds (as_auth st))\<rparr>)))"

definition username_from_valid_pubkey :: "string \<Rightarrow> string" where
  "username_from_valid_pubkey pubkey = ''gt_'' @ take 12 pubkey @ drop (length pubkey - 12) pubkey"

definition parse_pubkey_bytes :: "hex_decoder \<Rightarrow> string \<Rightarrow> (auth_http_error, u8 list) result" where
  "parse_pubkey_bytes dec pubkey =
     (if length pubkey \<noteq> 64 then Err (AuthBadRequest ''invalid pubkey'')
      else ok_or (AuthBadRequest ''invalid pubkey'') (dec pubkey))"

definition generate_password :: "crypto \<Rightarrow> u8 list \<Rightarrow> string" where
  "generate_password cr bytes = hex_encode cr bytes"

section \<open>Handlers\<close>

text \<open>The storage and Forgejo, which a handler changes.\<close>

record ('r, 'w) auth_world =
  aw_storage :: 'r
  aw_forgejo :: 'w

type_synonym ('a, 'r, 'w) auth_result = "(auth_http_error, 'a, ('r, 'w) auth_world) st_result"

definition storage_failed :: "storage_error \<Rightarrow> auth_http_error" where
  "storage_failed err = AuthInternal (storage_error_display err)"

definition stored ::
  "('r \<Rightarrow> (storage_error, unit, 'r) st_result) \<Rightarrow> ('r, 'w) auth_world \<Rightarrow> (unit, 'r, 'w) auth_result" where
  "stored write w =
     (case write (aw_storage w) of (r, s) \<Rightarrow> (map_err storage_failed r, w\<lparr>aw_storage := s\<rparr>))"

definition forgejo_called ::
  "('w \<Rightarrow> (forgejo_error, 'a, 'w) st_result) \<Rightarrow> ('r, 'w) auth_world \<Rightarrow> ('a, 'r, 'w) auth_result" where
  "forgejo_called call w =
     (case call (aw_forgejo w) of (r, s) \<Rightarrow>
        (map_err (\<lambda>err. AuthInternal (forgejo_error_display err)) r, w\<lparr>aw_forgejo := s\<rparr>))"

definition ensure_profile ::
  "('r, 'w) auth_app_state \<Rightarrow> string \<Rightarrow> string \<Rightarrow> int \<Rightarrow> ('r, 'w) auth_world \<Rightarrow> (profile_record, 'r, 'w) auth_result" where
  "ensure_profile st pubkey username now w =
     st_then (st_read (parse_pubkey_bytes (hex_decode (as_crypto st)) pubkey) w) (\<lambda>pubkey_bytes w.
     st_then (st_read (map_err storage_failed (po_profile_by_pubkey (as_profiles st) pubkey_bytes (aw_storage w))) w)
       (\<lambda>existing w.
     case existing of
       Some existing \<Rightarrow> (Ok existing, w)
     | None \<Rightarrow>
         st_then (st_read (map_err profile_input_error (profile_record_new (hex_decode (as_crypto st)) pubkey
             (Some username) None None None None VisPrivate now now)) w) (\<lambda>record w.
         st_then (stored (po_upsert_profile (as_profiles st) record) w) (\<lambda>_ w. (Ok record, w)))))"

definition signup_user :: "('r, 'w) auth_app_state \<Rightarrow> string \<Rightarrow> u8 list \<Rightarrow> forgejo_create_user" where
  "signup_user st pubkey random =
     (let username = username_from_valid_pubkey pubkey in
      \<lparr>cu_username = username, cu_email = username @ ''@'' @ ac_email_domain (as_auth st),
       cu_password = generate_password (as_crypto st) random, cu_full_name = None,
       cu_must_change_password = Some False, cu_send_notify = Some False\<rparr>)"

definition signup_handler ::
  "('r, 'w) auth_app_state \<Rightarrow> auth_call \<Rightarrow> ('r, 'w) auth_world \<Rightarrow> (signup_response, 'r, 'w) auth_result" where
  "signup_handler st call w =
     st_then (st_read (authenticated st call (payload_hash (as_crypto st) (cl_body call))) w) (\<lambda>auth w.
     st_then (st_read (map_err storage_failed
         (ao_account_by_pubkey (as_accounts st) (na_pubkey_bytes auth) (aw_storage w))) w) (\<lambda>existing w.
     case existing of
       Some existing \<Rightarrow>
         (Ok \<lparr>su_pubkey = na_pubkey auth, su_username = ac_forgejo_username existing, su_status = ''existing''\<rparr>, w)
     | None \<Rightarrow>
         st_then (forgejo_called (ensure_user (as_forgejo st) (signup_user st (na_pubkey auth) (cl_random call))) w)
            (\<lambda>user w.
          st_then (st_read (map_err (\<lambda>err. AuthBadRequest (storage_error_display err))
            (account_record_new (hex_decode (as_crypto st)) (na_pubkey auth) (fu_username user))) w) (\<lambda>record w.
          st_then (stored (ao_upsert_account (as_accounts st) record) w) (\<lambda>_ w.
          st_then (st_read (map_err profile_input_error (profile_record_new (hex_decode (as_crypto st))
            (na_pubkey auth) (Some (fu_username user)) None None None None VisPrivate (cl_now call) (cl_now call))) w)
            (\<lambda>profile w.
          st_then (stored (po_upsert_profile (as_profiles st) profile) w) (\<lambda>_ w.
          (Ok \<lparr>su_pubkey = na_pubkey auth, su_username = fu_username user, su_status = ''created''\<rparr>, w))))))))"

definition command_only_signup_handler ::
  "('r, 'w) auth_world \<Rightarrow> (signup_response, 'r, 'w) auth_result" where
  "command_only_signup_handler w = (Err (AuthBadRequest ''signup disabled; use gittree kind-1 command flow''), w)"

definition profile_get_handler ::
  "('r, 'w) auth_app_state \<Rightarrow> auth_call \<Rightarrow> ('r, 'w) auth_world \<Rightarrow> (profile, 'r, 'w) auth_result" where
  "profile_get_handler st call w =
     st_then (st_read (authenticated st call None) w) (\<lambda>auth w.
     st_then (st_read (and_then (map_err storage_failed
         (ao_account_by_pubkey (as_accounts st) (na_pubkey_bytes auth) (aw_storage w)))
         (ok_or (AuthBadRequest ''account not found''))) w) (\<lambda>account w.
     st_then (ensure_profile st (na_pubkey auth) (ac_forgejo_username account) (cl_now call) w) (\<lambda>profile w.
     (Ok (profile_response (na_pubkey auth) (ac_forgejo_username account) profile), w))))"

definition command_only_profile_patch_handler ::
  "('r, 'w) auth_world \<Rightarrow> (profile, 'r, 'w) auth_result" where
  "command_only_profile_patch_handler w =
     (Err (AuthBadRequest ''profile write disabled; use gittree kind-1 command flow''), w)"

definition profile_patch_handler ::
  "('r, 'w) auth_app_state \<Rightarrow> auth_call \<Rightarrow> ('r, 'w) auth_world \<Rightarrow> (profile, 'r, 'w) auth_result" where
  "profile_patch_handler st call w =
     st_then (st_read (authenticated st call (payload_hash (as_crypto st) (cl_body call))) w) (\<lambda>auth w.
     st_then (st_read (ensure (cl_body call \<noteq> []) (AuthBadRequest ''missing profile update'')) w) (\<lambda>_ w.
     st_then (st_read (map_err (\<lambda>err. AuthBadRequest (''invalid profile update: '' @ err))
         (as_update st (cl_body call))) w) (\<lambda>update w.
     st_then (st_read (and_then (map_err storage_failed
         (ao_account_by_pubkey (as_accounts st) (na_pubkey_bytes auth) (aw_storage w)))
         (ok_or (AuthBadRequest ''account not found''))) w) (\<lambda>account w.
     st_then (ensure_profile st (na_pubkey auth) (ac_forgejo_username account) (cl_now call) w) (\<lambda>profile w.
     st_then (st_read (map_err profile_input_error (apply_profile_update (hex_decode (as_crypto st))
         (na_pubkey auth) profile update (cl_now call))) w) (\<lambda>updated w.
     st_then (stored (po_upsert_profile (as_profiles st) updated) w) (\<lambda>_ w.
     (Ok (profile_response (na_pubkey auth) (ac_forgejo_username account) updated), w))))))))"

definition profile_public_handler ::
  "('r, 'w) auth_app_state \<Rightarrow> string \<Rightarrow> 'r \<Rightarrow> (auth_http_error, profile) result" where
  "profile_public_handler st npub s =
     and_then (map_err (\<lambda>_. AuthBadRequest ''invalid npub'') (pubkey_bytes_from_npub (as_bech32 st) npub))
       (\<lambda>pubkey_bytes.
     and_then (map_err storage_failed (ao_account_by_pubkey (as_accounts st) pubkey_bytes s)) (\<lambda>found.
     and_then (ok_or (AuthNotFound ''profile not found'') found) (\<lambda>account.
     and_then (map_err storage_failed (po_profile_by_pubkey (as_profiles st) pubkey_bytes s)) (\<lambda>found.
     and_then (ok_or (AuthNotFound ''profile not found'') found) (\<lambda>profile.
     and_then (ensure (pf_visibility profile = VisPublic) (AuthNotFound ''profile not found'')) (\<lambda>_.
     Ok (profile_response (hex_encode (as_crypto st) pubkey_bytes) (ac_forgejo_username account) profile)))))))"

text \<open>The routes of \<open>build_router_with_mode\<close>; one that does not exist is not a handler's business.\<close>

datatype auth_route = RouteHealth | RouteSignup | RouteProfileGet | RouteProfilePatch | RouteProfilePublic string

datatype auth_answer = AnswerHealth string | AnswerSignup signup_response | AnswerProfile profile

definition answered :: "('a \<Rightarrow> auth_answer) \<Rightarrow> ('a, 'r, 'w) auth_result \<Rightarrow> (auth_answer, 'r, 'w) auth_result" where
  "answered f r = (case r of (x, w) \<Rightarrow> (map_ok f x, w))"

fun auth_router ::
  "('r, 'w) auth_app_state \<Rightarrow> bool \<Rightarrow> auth_route \<Rightarrow> auth_call \<Rightarrow> ('r, 'w) auth_world \<Rightarrow> (auth_answer, 'r, 'w) auth_result" where
  "auth_router st command_only RouteHealth call w = (Ok (AnswerHealth ''ok''), w)"
| "auth_router st command_only RouteSignup call w = answered AnswerSignup
     (if command_only then command_only_signup_handler w else signup_handler st call w)"
| "auth_router st command_only RouteProfileGet call w = answered AnswerProfile (profile_get_handler st call w)"
| "auth_router st command_only RouteProfilePatch call w = answered AnswerProfile
     (if command_only then command_only_profile_patch_handler w else profile_patch_handler st call w)"
| "auth_router st command_only (RouteProfilePublic npub) call w =
     answered AnswerProfile (profile_public_handler st npub (aw_storage w), w)"

text \<open>The hash of the body that the signature has to name.\<close>

definition route_payload :: "('r, 'w) auth_app_state \<Rightarrow> auth_route \<Rightarrow> auth_call \<Rightarrow> string option" where
  "route_payload st route call =
     (if route = RouteProfileGet then None else payload_hash (as_crypto st) (cl_body call))"

section \<open>The storage the handlers rely on\<close>

locale people_repo = account_repo ops inv accounts
  for ops :: "'r account_ops" and inv :: "'r \<Rightarrow> bool" and accounts :: "'r \<Rightarrow> account_record set" +
  fixes pops :: "'r profile_ops"
    and profiles :: "'r \<Rightarrow> u8 list \<Rightarrow> profile_record option"
  assumes profile_found: "inv s \<Longrightarrow> po_profile_by_pubkey pops pk s = Ok p \<Longrightarrow> profiles s pk = p"
    and profile_stored: "inv s \<Longrightarrow> po_upsert_profile pops r s = (Ok (), s') \<Longrightarrow>
      profiles s' = (profiles s)(pf_pubkey r \<mapsto> r)"
    and profile_refused: "inv s \<Longrightarrow> po_upsert_profile pops r s = (Err e, s') \<Longrightarrow> profiles s' = profiles s"
    and profile_inv: "inv s \<Longrightarrow> inv (snd (po_upsert_profile pops r s))"
    and profile_accounts: "inv s \<Longrightarrow> accounts (snd (po_upsert_profile pops r s)) = accounts s"
    and account_profiles: "inv s \<Longrightarrow> profiles (snd (ao_upsert_account ops a s)) = profiles s"

definition confined ::
  "('r \<Rightarrow> account_record set) \<Rightarrow> ('r \<Rightarrow> u8 list \<Rightarrow> profile_record option) \<Rightarrow> u8 list \<Rightarrow> 'r \<Rightarrow> 'r \<Rightarrow> bool" where
  "confined accounts profiles key s s' \<longleftrightarrow>
     accounts s \<subseteq> accounts s' \<and> (\<forall>a \<in> accounts s' - accounts s. ac_pubkey a = key) \<and>
     (\<forall>pk. pk \<noteq> key \<longrightarrow> profiles s' pk = profiles s pk)"

text \<open>What is kept of the storage: each profile belongs to an account and is well formed.\<close>

definition profiles_owned ::
  "('r \<Rightarrow> account_record set) \<Rightarrow> ('r \<Rightarrow> u8 list \<Rightarrow> profile_record option) \<Rightarrow> 'r \<Rightarrow> bool" where
  "profiles_owned accounts profiles s \<longleftrightarrow>
     (\<forall>pk p. profiles s pk = Some p \<longrightarrow>
        pf_pubkey p = pk \<and> profile_record_wf p \<and> (\<exists>a \<in> accounts s. ac_pubkey a = pk))"

lemma stored_simps [simp]:
  "aw_storage (snd (stored action w)) = snd (action (aw_storage w))"
  "aw_storage (snd (forgejo_called request w)) = aw_storage w"
  by (simp_all add: stored_def forgejo_called_def split: prod.split)

lemma authenticated_key:
  assumes "authenticated st call payload = Ok auth"
  shows "hex_decode (as_crypto st) (na_pubkey auth) = Some (na_pubkey_bytes auth)" and "length (na_pubkey auth) = 64"
  using assms
  by (auto simp: authenticated_def result_simps validate_nip98_def verify_signature_def require_hex_def is_hex_len_def)

lemma ensure_profile_writes:
  "snd (ensure_profile st pubkey username now w) = w \<or>
   (\<exists>p. profile_record_new (hex_decode (as_crypto st)) pubkey (Some username) None None None None VisPrivate now now = Ok p \<and>
      snd (ensure_profile st pubkey username now w) = snd (stored (po_upsert_profile (as_profiles st) p) w))"
  by (auto simp: ensure_profile_def st_then_def st_read_def map_err_def split: sum.splits option.splits prod.splits)

lemma signup_writes:
  obtains "aw_storage (snd (signup_handler st call w)) = aw_storage w"
  | auth a w1 where "authenticated st call (payload_hash (as_crypto st) (cl_body call)) = Ok auth"
    and "ao_account_by_pubkey (as_accounts st) (na_pubkey_bytes auth) (aw_storage w) = Ok None"
    and "aw_storage w1 = aw_storage w"
    and "\<exists>username. account_record_new (hex_decode (as_crypto st)) (na_pubkey auth) username = Ok a"
    and "snd (signup_handler st call w) = snd (stored (ao_upsert_account (as_accounts st) a) w1)"
  | auth a w1 w2 p username where "authenticated st call (payload_hash (as_crypto st) (cl_body call)) = Ok auth"
    and "ao_account_by_pubkey (as_accounts st) (na_pubkey_bytes auth) (aw_storage w) = Ok None"
    and "aw_storage w1 = aw_storage w"
    and "\<exists>username. account_record_new (hex_decode (as_crypto st)) (na_pubkey auth) username = Ok a"
    and "stored (ao_upsert_account (as_accounts st) a) w1 = (Ok (), w2)"
    and "profile_record_new (hex_decode (as_crypto st)) (na_pubkey auth) (Some username) None None None None VisPrivate
      (cl_now call) (cl_now call) = Ok p"
    and "snd (signup_handler st call w) = snd (stored (po_upsert_profile (as_profiles st) p) w2)"
proof (cases "authenticated st call (payload_hash (as_crypto st) (cl_body call))")
  case auth: (Inr auth)
  show thesis
  proof (cases "ao_account_by_pubkey (as_accounts st) (na_pubkey_bytes auth) (aw_storage w)")
    case found: (Inr existing)
    show thesis
    proof (cases existing)
      case None
      obtain r w1 where called:
        "forgejo_called (ensure_user (as_forgejo st) (signup_user st (na_pubkey auth) (cl_random call))) w = (r, w1)" by fastforce
      have w1: "aw_storage w1 = aw_storage w"
        using called stored_simps(2) by (metis snd_conv)
      note shape = signup_handler_def auth found None called
      show thesis
      proof (cases r)
        case (Inl e)
        then show thesis by (intro that(1)) (simp add: shape w1)
      next
        case user: (Inr user)
        show thesis
        proof (cases "account_record_new (hex_decode (as_crypto st)) (na_pubkey auth) (fu_username user)")
          case (Inl e)
          then show thesis by (intro that(1)) (simp add: shape user w1)
        next
          case a: (Inr a)
          obtain up w2 where up: "stored (ao_upsert_account (as_accounts st) a) w1 = (up, w2)" by fastforce
          have "snd (signup_handler st call w) = w2 \<or>
            (\<exists>p. up = Ok () \<and> profile_record_new (hex_decode (as_crypto st)) (na_pubkey auth) (Some (fu_username user))
                None None None None VisPrivate (cl_now call) (cl_now call) = Ok p \<and>
              snd (signup_handler st call w) = snd (stored (po_upsert_profile (as_profiles st) p) w2))"
            by (auto simp: shape user a up st_then_def st_read_def map_err_def split: sum.splits prod.splits)
          moreover have lookup: "ao_account_by_pubkey (as_accounts st) (na_pubkey_bytes auth) (aw_storage w) = Ok None"
            and acct: "\<exists>username. account_record_new (hex_decode (as_crypto st)) (na_pubkey auth) username = Ok a"
            using found None a by blast+
          ultimately show thesis
            using that(2) [OF auth lookup w1 acct] that(3) [OF auth lookup w1 acct] up by (metis snd_conv)
        qed
      qed
    next
      case (Some account)
      have "aw_storage (snd (signup_handler st call w)) = aw_storage w"
        by (simp add: signup_handler_def auth found Some)
      then show thesis by (rule that(1))
    qed
  next
    case (Inl e)
    have "aw_storage (snd (signup_handler st call w)) = aw_storage w"
      by (simp add: signup_handler_def auth Inl)
    then show thesis by (rule that(1))
  qed
next
  case (Inl e)
  have "aw_storage (snd (signup_handler st call w)) = aw_storage w"
    by (simp add: signup_handler_def Inl)
  then show thesis by (rule that(1))
qed

lemma profile_get_writes:
  "snd (profile_get_handler st call w) = w \<or>
   (\<exists>auth a. authenticated st call None = Ok auth \<and>
      ao_account_by_pubkey (as_accounts st) (na_pubkey_bytes auth) (aw_storage w) = Ok (Some a) \<and>
      snd (profile_get_handler st call w) =
        snd (ensure_profile st (na_pubkey auth) (ac_forgejo_username a) (cl_now call) w))"
proof (cases "authenticated st call None")
  case auth: (Inr auth)
  show ?thesis
    by (cases "ao_account_by_pubkey (as_accounts st) (na_pubkey_bytes auth) (aw_storage w)")
      (auto simp: profile_get_handler_def auth snd_st_then ok_or_def split: option.splits sum.splits)
qed (simp add: profile_get_handler_def)

lemma profile_patch_writes:
  "snd (profile_patch_handler st call w) = w \<or>
   (\<exists>auth a. authenticated st call (payload_hash (as_crypto st) (cl_body call)) = Ok auth \<and>
      ao_account_by_pubkey (as_accounts st) (na_pubkey_bytes auth) (aw_storage w) = Ok (Some a) \<and>
      (let ensured = ensure_profile st (na_pubkey auth) (ac_forgejo_username a) (cl_now call) w in
       snd (profile_patch_handler st call w) = snd ensured \<or>
       (\<exists>profile update updated. fst ensured = Ok profile \<and> as_update st (cl_body call) = Ok update \<and>
          apply_profile_update (hex_decode (as_crypto st)) (na_pubkey auth) profile update (cl_now call) = Ok updated \<and>
          snd (profile_patch_handler st call w) = snd (stored (po_upsert_profile (as_profiles st) updated) (snd ensured)))))"
proof (cases "authenticated st call (payload_hash (as_crypto st) (cl_body call))")
  case auth: (Inr auth)
  show ?thesis
  proof (cases "cl_body call = [] \<or> (\<exists>e. as_update st (cl_body call) = Inl e)")
    case False
    then obtain update where body: "cl_body call \<noteq> []" "as_update st (cl_body call) = Inr update"
      by (cases "as_update st (cl_body call)") auto
    show ?thesis
      by (cases "ao_account_by_pubkey (as_accounts st) (na_pubkey_bytes auth) (aw_storage w)")
        (auto simp: profile_patch_handler_def auth body snd_st_then ok_or_def map_err_def Let_def
          split: option.splits sum.splits)
  qed (auto simp: profile_patch_handler_def auth ensure_def)
qed (simp add: profile_patch_handler_def)

locale auth_service = people_repo "as_accounts st" inv accounts "as_profiles st" profiles
  for st :: "('r, 'w) auth_app_state" and inv accounts profiles +
  fixes enc :: encoder
  assumes decoder: "hex_pair enc (hex_decode (as_crypto st))"
begin

abbreviation kept :: "u8 list \<Rightarrow> 'r \<Rightarrow> ('r, 'w) auth_world \<Rightarrow> bool" where
  "kept key s w \<equiv> inv (aw_storage w) \<and> confined accounts profiles key s (aw_storage w) \<and>
     (profiles_owned accounts profiles s \<longrightarrow> profiles_owned accounts profiles (aw_storage w))"

lemma kept_refl: "inv (aw_storage w) \<Longrightarrow> kept key (aw_storage w) w"
  by (simp add: confined_def)

lemma profile_write_kept:
  assumes "kept key s w" and "pf_pubkey p = key" and "profile_record_wf p"
    and "\<exists>a \<in> accounts (aw_storage w). ac_pubkey a = key"
  shows "kept key s (snd (stored (po_upsert_profile (as_profiles st) p) w))"
proof -
  obtain r s' where up: "po_upsert_profile (as_profiles st) p (aw_storage w) = (r, s')" by fastforce
  have inv: "inv (aw_storage w)" using assms(1) by simp
  have "inv s'" and accounts: "accounts s' = accounts (aw_storage w)"
    using profile_inv [OF inv, of p] profile_accounts [OF inv, of p] up by simp_all
  have "profiles s' = profiles (aw_storage w) \<or> profiles s' = (profiles (aw_storage w))(key \<mapsto> p)"
    using profile_stored [OF inv, of p s'] profile_refused [OF inv, of p _ s'] up assms(2) by (cases r) simp_all
  then have change: "profiles s' pk = profiles (aw_storage w) pk \<or> pk = key \<and> profiles s' pk = Some p" for pk
    by (cases "pk = key") auto
  have "confined accounts profiles key s s'"
    using assms(1) accounts change unfolding confined_def by metis
  moreover have "profiles_owned accounts profiles s'" if "profiles_owned accounts profiles s"
  proof -
    have owned: "profiles_owned accounts profiles (aw_storage w)" using that assms(1) by simp
    show ?thesis unfolding profiles_owned_def
    proof (intro allI impI)
      fix pk q assume "profiles s' pk = Some q"
      then consider "profiles (aw_storage w) pk = Some q" | "pk = key" "q = p" using change [of pk] by auto
      then show "pf_pubkey q = pk \<and> profile_record_wf q \<and> (\<exists>a \<in> accounts s'. ac_pubkey a = pk)"
        by cases (use owned assms accounts in \<open>simp_all add: profiles_owned_def\<close>)
    qed
  qed
  ultimately show ?thesis using \<open>inv s'\<close> by (simp add: stored_def up)
qed

lemma account_write_kept:
  assumes "inv (aw_storage w)" and "aw_storage w = s" and "ac_pubkey a = key"
    and "\<forall>b \<in> accounts s. ac_pubkey b \<noteq> key"
  shows "kept key s (snd (stored (ao_upsert_account (as_accounts st) a) w))"
    and "stored (ao_upsert_account (as_accounts st) a) w = (Ok (), w') \<Longrightarrow> a \<in> accounts (aw_storage w')"
proof -
  obtain r s' where up: "ao_upsert_account (as_accounts st) a s = (r, s')" by fastforce
  have inv: "inv s" using assms by simp
  have "inv s'" "profiles s' = profiles s"
    using upsert_inv [OF inv, of a] account_profiles [OF inv, of a] up by simp_all
  moreover have "accounts s' = accounts s \<or> accounts s' = insert a (accounts s)"
    using upsert_Ok [OF inv, of a s'] upsert_Err [OF inv, of a _ s'] up assms(3,4) by (cases r) auto
  then have "confined accounts profiles key s s'" "accounts s \<subseteq> accounts s'"
    using \<open>profiles s' = profiles s\<close> assms(3) by (auto simp: confined_def)
  moreover from this \<open>profiles s' = profiles s\<close> have "profiles_owned accounts profiles s \<Longrightarrow> profiles_owned accounts profiles s'"
    unfolding profiles_owned_def by (metis subsetD)
  ultimately show "kept key s (snd (stored (ao_upsert_account (as_accounts st) a) w))"
    using assms(2) by (simp add: stored_def up)
  show "a \<in> accounts (aw_storage w')" if "stored (ao_upsert_account (as_accounts st) a) w = (Ok (), w')"
    using that upsert_Ok [OF inv, of a s'] up assms(2) by (cases r) (auto simp: stored_def map_err_def)
qed

lemma ensure_profile_kept:
  assumes "kept key s w" and "hex_decode (as_crypto st) pubkey = Some key"
    and "\<exists>a \<in> accounts (aw_storage w). ac_pubkey a = key"
  shows "kept key s (snd (ensure_profile st pubkey username now w))"
    and "\<exists>a \<in> accounts (aw_storage (snd (ensure_profile st pubkey username now w))). ac_pubkey a = key"
proof -
  let ?P = "\<lambda>w'. kept key s w' \<and> (\<exists>a \<in> accounts (aw_storage w'). ac_pubkey a = key)"
  have writes: "?P (snd (stored (po_upsert_profile (as_profiles st) p) w))"
    if "profile_record_new (hex_decode (as_crypto st)) pubkey (Some username) None None None None VisPrivate now now = Ok p" for p
  proof -
    have p: "profile_record_wf p" "pf_pubkey p = key"
      using hex_pair.profile_record_new_wf [OF decoder that] assms(2) by simp_all
    have "accounts (aw_storage (snd (stored (po_upsert_profile (as_profiles st) p) w))) = accounts (aw_storage w)"
      using profile_accounts [of "aw_storage w" p] assms(1) by simp
    then show ?thesis using profile_write_kept [OF assms(1) p(2,1) assms(3)] assms(3) by simp
  qed
  have "?P (snd (ensure_profile st pubkey username now w))"
    using ensure_profile_writes [of st pubkey username now w] writes assms by auto
  then show "kept key s (snd (ensure_profile st pubkey username now w))"
    "\<exists>a \<in> accounts (aw_storage (snd (ensure_profile st pubkey username now w))). ac_pubkey a = key"
    by simp_all
qed

lemma account_of_key:
  assumes "inv (aw_storage w)" and "ao_account_by_pubkey (as_accounts st) key (aw_storage w) = Ok None"
  shows "\<forall>b \<in> accounts (aw_storage w). ac_pubkey b \<noteq> key"
  using by_pubkey [OF assms(1), of key] assms(2) by fastforce

lemma signup_kept:
  assumes "inv (aw_storage w)"
  obtains "aw_storage (snd (signup_handler st call w)) = aw_storage w"
  | auth where "authenticated st call (payload_hash (as_crypto st) (cl_body call)) = Ok auth"
    and "kept (na_pubkey_bytes auth) (aw_storage w) (snd (signup_handler st call w))"
proof (cases rule: signup_writes [of st call w])
  case (2 auth a w1)
  note key = authenticated_key(1) [OF 2(1)]
  have "ac_pubkey a = na_pubkey_bytes auth"
    using 2(4) key by (auto simp: account_record_new_def result_simps)
  then have "kept (na_pubkey_bytes auth) (aw_storage w) (snd (signup_handler st call w))"
    unfolding 2(5) using assms 2(3) account_of_key [OF assms 2(2)] by (intro account_write_kept(1)) simp_all
  then show thesis by (rule that(2) [OF 2(1)])
next
  case (3 auth a w1 w2 p username)
  note key = authenticated_key(1) [OF 3(1)]
  have a: "ac_pubkey a = na_pubkey_bytes auth"
    using 3(4) key by (auto simp: account_record_new_def result_simps)
  have p: "profile_record_wf p" "pf_pubkey p = na_pubkey_bytes auth"
    using hex_pair.profile_record_new_wf [OF decoder 3(6)] key by simp_all
  have "kept (na_pubkey_bytes auth) (aw_storage w) w2" "a \<in> accounts (aw_storage w2)"
    using account_write_kept [of w1 "aw_storage w" a "na_pubkey_bytes auth"] assms 3(3,5) a account_of_key [OF assms 3(2)]
    by simp_all
  then have "kept (na_pubkey_bytes auth) (aw_storage w) (snd (signup_handler st call w))"
    unfolding 3(7) using p a by (intro profile_write_kept) auto
  then show thesis by (rule that(2) [OF 3(1)])
qed (rule that(1))

lemma found_account:
  assumes "inv s" and "ao_account_by_pubkey (as_accounts st) key s = Ok (Some a)"
  shows "\<exists>a \<in> accounts s. ac_pubkey a = key"
  using by_pubkey [OF assms(1), of key a] assms(2) by blast

lemma profile_get_kept:
  assumes "inv (aw_storage w)"
  shows "aw_storage (snd (profile_get_handler st call w)) = aw_storage w \<or>
    (\<exists>auth. authenticated st call None = Ok auth \<and>
       kept (na_pubkey_bytes auth) (aw_storage w) (snd (profile_get_handler st call w)))"
  using profile_get_writes [of st call w]
    ensure_profile_kept(1) [OF kept_refl [OF assms] authenticated_key(1) found_account [OF assms]]
  by (elim disjE exE conjE) auto

lemma profile_patch_kept:
  assumes "inv (aw_storage w)"
  shows "aw_storage (snd (profile_patch_handler st call w)) = aw_storage w \<or>
    (\<exists>auth. authenticated st call (payload_hash (as_crypto st) (cl_body call)) = Ok auth \<and>
       kept (na_pubkey_bytes auth) (aw_storage w) (snd (profile_patch_handler st call w)))"
proof -
  consider "snd (profile_patch_handler st call w) = w"
    | auth a ensured where "authenticated st call (payload_hash (as_crypto st) (cl_body call)) = Ok auth"
      "ao_account_by_pubkey (as_accounts st) (na_pubkey_bytes auth) (aw_storage w) = Ok (Some a)"
      "ensured = ensure_profile st (na_pubkey auth) (ac_forgejo_username a) (cl_now call) w"
      "snd (profile_patch_handler st call w) = snd ensured \<or>
       (\<exists>profile update updated.
          apply_profile_update (hex_decode (as_crypto st)) (na_pubkey auth) profile update (cl_now call) = Ok updated \<and>
          snd (profile_patch_handler st call w) = snd (stored (po_upsert_profile (as_profiles st) updated) (snd ensured)))"
    using profile_patch_writes [of st call w] unfolding Let_def by blast
  then show ?thesis
  proof cases
    case (2 auth a ensured)
    note key = authenticated_key(1) [OF 2(1)]
    note kept = ensure_profile_kept [OF kept_refl [OF assms] key found_account [OF assms 2(2)],
        of "ac_forgejo_username a" "cl_now call", folded 2(3)]
    have "kept (na_pubkey_bytes auth) (aw_storage w) (snd (stored (po_upsert_profile (as_profiles st) updated) (snd ensured)))"
      if "apply_profile_update (hex_decode (as_crypto st)) (na_pubkey auth) profile update (cl_now call) = Ok updated"
      for profile update updated
      using hex_pair.profile_record_new_wf [OF decoder that [unfolded apply_profile_update_def]] key
      by (intro profile_write_kept kept) simp_all
    then show ?thesis using 2(1,4) kept(1) by auto
  qed simp
qed

lemma router_kept:
  assumes "inv (aw_storage w)" and "auth_router st command_only route call w = (r, w')"
  shows "aw_storage w' = aw_storage w \<or>
    (\<exists>auth. authenticated st call (route_payload st route call) = Ok auth \<and>
       kept (na_pubkey_bytes auth) (aw_storage w) w')"
proof (cases route)
  case RouteSignup
  then show ?thesis
    using assms(2) signup_kept [OF assms(1), of call]
    by (auto simp: answered_def route_payload_def command_only_signup_handler_def split: if_splits prod.splits)
next
  case RouteProfileGet
  then show ?thesis
    using assms(2) profile_get_kept [OF assms(1), of call]
    by (auto simp: answered_def route_payload_def split: prod.splits)
next
  case RouteProfilePatch
  then show ?thesis
    using assms(2) profile_patch_kept [OF assms(1), of call]
    by (auto simp: answered_def route_payload_def command_only_profile_patch_handler_def split: if_splits prod.splits)
qed (use assms(2) in \<open>auto simp: answered_def\<close>)

end

section \<open>The service on the directory\<close>

definition directory_profile_ops :: "encoder \<Rightarrow> in_memory_directory profile_ops" where
  "directory_profile_ops enc =
     \<lparr>po_upsert_profile = (\<lambda>r d. (Ok (), upsert_profile enc r d)),
      po_profile_by_pubkey = (\<lambda>pk d. Ok (profile_by_pubkey enc pk d))\<rparr>"

definition on_directory :: "encoder \<Rightarrow> (in_memory_directory, 'w) auth_app_state \<Rightarrow> (in_memory_directory, 'w) auth_app_state" where
  "on_directory enc st = st\<lparr>as_accounts := directory_account_ops enc, as_profiles := directory_profile_ops enc\<rparr>"

lemma on_directory_simps [simp]:
  "as_crypto (on_directory enc st) = as_crypto st" "as_bech32 (on_directory enc st) = as_bech32 st"
  "as_update (on_directory enc st) = as_update st" "as_auth (on_directory enc st) = as_auth st"
  "route_payload (on_directory enc st) = route_payload st"
  by (simp_all add: on_directory_def route_payload_def fun_eq_iff)

abbreviation directory_profiles :: "encoder \<Rightarrow> in_memory_directory \<Rightarrow> u8 list \<Rightarrow> profile_record option" where
  "directory_profiles enc \<equiv> \<lambda>d pk. profile_by_pubkey enc pk d"

lemma upsert_profile_accounts [simp]:
  "accounts_inv enc (upsert_profile enc r d) = accounts_inv enc d"
  "directory_accounts (upsert_profile enc r d) = directory_accounts d"
  "account_by_pubkey enc pk (upsert_profile enc r d) = account_by_pubkey enc pk d"
  by (simp_all add: upsert_profile_def accounts_inv_def directory_accounts_def account_by_pubkey_def)

lemma upsert_account_profiles [simp]:
  "profile_by_pubkey enc pk (snd (upsert_account enc r d)) = profile_by_pubkey enc pk d"
  by (simp add: upsert_account_def profile_by_pubkey_def Let_def)

context hex_codec
begin

lemma profile_by_pubkey_upsert:
  "profile_by_pubkey enc pk (upsert_profile enc r d) = (if pk = pf_pubkey r then Some r else profile_by_pubkey enc pk d)"
  by (auto simp: profile_by_pubkey_def upsert_profile_def profile_key_def account_key_def enc_inj update_conv')

lemma people_repo_directory:
  "people_repo (directory_account_ops enc) (accounts_inv enc) directory_accounts (directory_profile_ops enc) (directory_profiles enc)"
proof unfold_locales
  fix s s' r and a :: account_record
  show "directory_profiles enc (snd (ao_upsert_account (directory_account_ops enc) a s)) = directory_profiles enc s"
    by (simp add: directory_account_ops_def)
  show "directory_profiles enc s' = (directory_profiles enc s)(pf_pubkey r \<mapsto> r)"
    if "po_upsert_profile (directory_profile_ops enc) r s = (Ok (), s')"
    using that by (auto simp: directory_profile_ops_def profile_by_pubkey_upsert)
qed (simp_all add: directory_profile_ops_def)

end

sublocale hex_codec \<subseteq> people: people_repo "directory_account_ops enc" "accounts_inv enc" directory_accounts
  "directory_profile_ops enc" "directory_profiles enc"
  by (rule people_repo_directory)

lemma auth_service_on_directory:
  assumes "hex_pair enc (hex_decode (as_crypto st))"
  shows "auth_service (on_directory enc st) (accounts_inv enc) directory_accounts (directory_profiles enc) enc"
proof -
  have "people_repo (as_accounts (on_directory enc st)) (accounts_inv enc) directory_accounts
      (as_profiles (on_directory enc st)) (directory_profiles enc)"
    using hex_codec.people_repo_directory [OF hex_pair.axioms(1) [OF assms]] by (simp add: on_directory_def)
  then show ?thesis
    using assms by (simp add: auth_service_def auth_service_axioms_def on_directory_def)
qed

interpretation hex_service: auth_service
  "on_directory bytes_to_hex (st\<lparr>as_crypto := toy_auth_crypto\<rparr>)" "accounts_inv bytes_to_hex" directory_accounts
  "directory_profiles bytes_to_hex" bytes_to_hex
  by (rule auth_service_on_directory) (simp add: toy_auth_crypto_def hex_bytes.hex_pair_axioms)

text \<open>
  The states the service can reach: requests, and whatever others do to Forgejo in between.\<close>

inductive auth_run :: "(in_memory_directory, 'w) auth_app_state \<Rightarrow> bool \<Rightarrow> (in_memory_directory, 'w) auth_world \<Rightarrow> bool"
  for st command_only where
  start: "aw_storage w = new_directory \<Longrightarrow> auth_run st command_only w"
| request: "auth_run st command_only w \<Longrightarrow> auth_router st command_only route call w = (r, w') \<Longrightarrow> auth_run st command_only w'"
| elsewhere: "auth_run st command_only w \<Longrightarrow> auth_run st command_only (w\<lparr>aw_forgejo := f\<rparr>)"

lemma auth_run_inv:
  assumes "hex_pair enc (hex_decode (as_crypto st))" and "auth_run (on_directory enc st) command_only w"
  shows "accounts_inv enc (aw_storage w) \<and> profiles_owned directory_accounts (directory_profiles enc) (aw_storage w)"
  using assms(2)
proof (induction rule: auth_run.induct)
  case (start w)
  then show ?case
    by (simp add: accounts_inv_def new_directory_def hm.wf_empty profiles_owned_def profile_by_pubkey_def)
next
  case (request w route call r w')
  then show ?case
    using auth_service.router_kept [OF auth_service_on_directory [OF assms(1)] _ request.hyps(2)] by auto
qed simp

lemma directory_account_iff:
  assumes "hex_codec enc" and "accounts_inv enc d"
  shows "account_by_pubkey enc pk d = Some a \<longleftrightarrow> a \<in> directory_accounts d \<and> ac_pubkey a = pk"
  using account_repo.by_pubkey [OF hex_codec.people_repo_directory [OF assms(1), THEN people_repo.axioms(1)] assms(2), of pk a]
  by (simp add: directory_account_ops_def)

text \<open>
  C12: A request changes nothing of the storage but the account and the profile of the key that signed it: the
  signature is checked against the time, the address, the method and -- except for reading a profile -- the hash of
  the body. An account, once made, keeps its name. In every state the service reaches a profile belongs to an
  account of its key and is well formed.\<close>

theorem auth_changes_only_signer:
  assumes "hex_pair enc (hex_decode (as_crypto st))"
    and "auth_run (on_directory enc st) command_only w"
    and "auth_router (on_directory enc st) command_only route call w = (r, w')"
  shows "(aw_storage w' = aw_storage w \<or>
      (\<exists>auth. authenticated (on_directory enc st) call (route_payload st route call) = Ok auth \<and>
        (\<forall>pk. pk \<noteq> na_pubkey_bytes auth \<longrightarrow>
           account_by_pubkey enc pk (aw_storage w') = account_by_pubkey enc pk (aw_storage w) \<and>
           profile_by_pubkey enc pk (aw_storage w') = profile_by_pubkey enc pk (aw_storage w)))) \<and>
    (account_by_pubkey enc key (aw_storage w) = Some a \<longrightarrow> account_by_pubkey enc key (aw_storage w') = Some a) \<and>
    (profile_by_pubkey enc key (aw_storage w') = Some p \<longrightarrow>
       pf_pubkey p = key \<and> profile_record_wf p \<and> account_by_pubkey enc key (aw_storage w') \<noteq> None)"
proof (intro conjI impI)
  have codec: "hex_codec enc" by (rule hex_pair.axioms(1) [OF assms(1)])
  have inv: "accounts_inv enc (aw_storage w)" using auth_run_inv [OF assms(1,2)] by simp
  note inv' = auth_run_inv [OF assms(1) auth_run.request [OF assms(2,3)]]
  note acct = directory_account_iff [OF codec inv] directory_account_iff [OF codec conjunct1 [OF inv']]
  note kept = auth_service.router_kept [OF auth_service_on_directory [OF assms(1)] inv assms(3)]
  show "account_by_pubkey enc key (aw_storage w') = Some a" if "account_by_pubkey enc key (aw_storage w) = Some a"
    using that kept by (auto simp: acct confined_def)
  show "pf_pubkey p = key" "profile_record_wf p" "account_by_pubkey enc key (aw_storage w') \<noteq> None"
    if "profile_by_pubkey enc key (aw_storage w') = Some p"
    using that conjunct2 [OF inv'] acct(2) unfolding profiles_owned_def by blast+
  have same: "account_by_pubkey enc pk (aw_storage w') = account_by_pubkey enc pk (aw_storage w)"
    if "confined directory_accounts (directory_profiles enc) k (aw_storage w) (aw_storage w')" "pk \<noteq> k" for pk k
  proof -
    have "account_by_pubkey enc pk (aw_storage w') = Some b \<longleftrightarrow> account_by_pubkey enc pk (aw_storage w) = Some b" for b
      using that unfolding acct confined_def by blast
    then show ?thesis by (metis not_None_eq)
  qed
  show "aw_storage w' = aw_storage w \<or>
      (\<exists>auth. authenticated (on_directory enc st) call (route_payload st route call) = Ok auth \<and>
        (\<forall>pk. pk \<noteq> na_pubkey_bytes auth \<longrightarrow>
           account_by_pubkey enc pk (aw_storage w') = account_by_pubkey enc pk (aw_storage w) \<and>
           profile_by_pubkey enc pk (aw_storage w') = profile_by_pubkey enc pk (aw_storage w)))"
    using kept same unfolding confined_def on_directory_simps by metis
qed

lemmas directory_service_simps = on_directory_def directory_account_ops_def directory_profile_ops_def

text \<open>What a successful sign-up did.\<close>

lemma signup_Ok:
  assumes "signup_handler st call w = (Ok resp, w')"
  obtains auth a where "authenticated st call (payload_hash (as_crypto st) (cl_body call)) = Ok auth"
    and "ao_account_by_pubkey (as_accounts st) (na_pubkey_bytes auth) (aw_storage w) = Ok (Some a)"
    and "w' = w" and "su_username resp = ac_forgejo_username a" and "su_status resp = ''existing''"
  | auth a p w1 w2 where "authenticated st call (payload_hash (as_crypto st) (cl_body call)) = Ok auth"
    and "ao_account_by_pubkey (as_accounts st) (na_pubkey_bytes auth) (aw_storage w) = Ok None"
    and "aw_storage w1 = aw_storage w"
    and "account_record_new (hex_decode (as_crypto st)) (na_pubkey auth) (su_username resp) = Ok a"
    and "stored (ao_upsert_account (as_accounts st) a) w1 = (Ok (), w2)"
    and "profile_record_new (hex_decode (as_crypto st)) (na_pubkey auth) (Some (su_username resp)) None None None None
      VisPrivate (cl_now call) (cl_now call) = Ok p"
    and "stored (po_upsert_profile (as_profiles st) p) w2 = (Ok (), w')" and "su_status resp = ''created''"
proof -
  from assms obtain auth existing where auth: "authenticated st call (payload_hash (as_crypto st) (cl_body call)) = Ok auth"
    and found: "ao_account_by_pubkey (as_accounts st) (na_pubkey_bytes auth) (aw_storage w) = Ok existing"
    by (auto simp: signup_handler_def map_err_eq_Ok split: sum.splits)
  show thesis
  proof (cases existing)
    case (Some a)
    show thesis
      by (rule that(1) [OF auth found [unfolded Some]]) (use assms in \<open>auto simp: signup_handler_def auth found Some\<close>)
  next
    case None
    from assms obtain user w1 a w2 p where steps:
      "forgejo_called (ensure_user (as_forgejo st) (signup_user st (na_pubkey auth) (cl_random call))) w = (Ok user, w1)"
      "account_record_new (hex_decode (as_crypto st)) (na_pubkey auth) (fu_username user) = Ok a"
      "stored (ao_upsert_account (as_accounts st) a) w1 = (Ok (), w2)"
      "profile_record_new (hex_decode (as_crypto st)) (na_pubkey auth) (Some (fu_username user)) None None None None
        VisPrivate (cl_now call) (cl_now call) = Ok p"
      "stored (po_upsert_profile (as_profiles st) p) w2 = (Ok (), w')"
      "resp = \<lparr>su_pubkey = na_pubkey auth, su_username = fu_username user, su_status = ''created''\<rparr>"
      by (auto simp: signup_handler_def auth found None st_then_Ok st_read_def map_err_eq_Ok)
    moreover have "aw_storage w1 = aw_storage w" using steps(1) stored_simps(2) by (metis snd_conv)
    ultimately show thesis using that(2) [OF auth found [unfolded None]] by simp
  qed
qed

lemma stored_Ok: "stored action w = (Ok (), w') \<Longrightarrow> action (aw_storage w) = (Ok (), aw_storage w')"
  by (auto simp: stored_def map_err_eq_Ok split: prod.splits)

lemma signup_made:
  assumes "hex_pair enc (hex_decode (as_crypto st))"
    and "accounts_inv enc (aw_storage w)" and "accounts_inv enc (aw_storage w')"
    and "signup_handler (on_directory enc st) call w = (Ok resp, w')"
  shows "\<exists>auth a. authenticated (on_directory enc st) call (payload_hash (as_crypto st) (cl_body call)) = Ok auth \<and>
      account_by_pubkey enc (na_pubkey_bytes auth) (aw_storage w') = Some a \<and> ac_forgejo_username a = su_username resp \<and>
      (if account_by_pubkey enc (na_pubkey_bytes auth) (aw_storage w) = None
       then su_status resp = ''created'' \<and>
         (\<exists>p. profile_by_pubkey enc (na_pubkey_bytes auth) (aw_storage w') = Some p \<and> pf_visibility p = VisPrivate)
       else su_status resp = ''existing'' \<and> w' = w)"
proof (cases rule: signup_Ok [OF assms(4)])
  case (1 auth a)
  then show ?thesis by (auto simp: directory_service_simps)
next
  case (2 auth a p w1 w2)
  have codec: "hex_codec enc" by (rule hex_pair.axioms(1) [OF assms(1)])
  have key: "hex_decode (as_crypto st) (na_pubkey auth) = Some (na_pubkey_bytes auth)"
    using authenticated_key(1) [OF 2(1)] by simp
  have a: "ac_pubkey a = na_pubkey_bytes auth" "ac_forgejo_username a = su_username resp"
    using 2(4) key by (auto simp: account_record_new_def result_simps)
  have p: "pf_pubkey p = na_pubkey_bytes auth" "pf_visibility p = VisPrivate"
    using hex_pair.profile_record_new_wf(2,3) [OF assms(1) 2(6) [simplified]] key by simp_all
  have up: "upsert_account enc a (aw_storage w) = (Ok (), aw_storage w2)" "aw_storage w' = upsert_profile enc p (aw_storage w2)"
    using stored_Ok [OF 2(5)] stored_Ok [OF 2(7)] 2(3) by (simp_all add: directory_service_simps)
  have "a \<in> directory_accounts (aw_storage w')"
    using hex_codec.upsert_account_Ok(2) [OF codec assms(2) up(1)] by (simp add: up(2))
  then show ?thesis
    using 2 a p directory_account_iff [OF codec assms(3), of "na_pubkey_bytes auth" a]
      hex_codec.profile_by_pubkey_upsert [OF codec]
    by (auto simp: directory_service_simps up(2) intro!: exI [of _ auth])
qed

text \<open>
  C31: A key that has signed up has an account, and its name is the one answered; no other key has that name. The
  first sign-up makes the account with a profile that is private; any later one changes nothing and answers the same
  name, without asking Forgejo.\<close>

theorem signup_settles:
  assumes "hex_pair enc (hex_decode (as_crypto st))"
    and "auth_run (on_directory enc st) command_only w"
    and "signup_handler (on_directory enc st) call w = (Ok resp, w')"
  shows "\<exists>auth a. authenticated (on_directory enc st) call (payload_hash (as_crypto st) (cl_body call)) = Ok auth \<and>
    account_by_pubkey enc (na_pubkey_bytes auth) (aw_storage w') = Some a \<and> ac_forgejo_username a = su_username resp \<and>
    (\<forall>b pk. account_by_pubkey enc pk (aw_storage w') = Some b \<and> ac_forgejo_username b = su_username resp \<longrightarrow>
       pk = na_pubkey_bytes auth) \<and>
    (if account_by_pubkey enc (na_pubkey_bytes auth) (aw_storage w) = None
     then su_status resp = ''created'' \<and>
       (\<exists>p. profile_by_pubkey enc (na_pubkey_bytes auth) (aw_storage w') = Some p \<and> pf_visibility p = VisPrivate)
     else su_status resp = ''existing'' \<and> w' = w) \<and>
    (\<forall>again auth'. authenticated (on_directory enc st) again (payload_hash (as_crypto st) (cl_body again)) = Ok auth' \<and>
        na_pubkey_bytes auth' = na_pubkey_bytes auth \<longrightarrow>
      signup_handler (on_directory enc st) again w' =
        (Ok \<lparr>su_pubkey = na_pubkey auth', su_username = su_username resp, su_status = ''existing''\<rparr>, w'))"
proof -
  let ?st = "on_directory enc st"
  have codec: "hex_codec enc" by (rule hex_pair.axioms(1) [OF assms(1)])
  have inv: "accounts_inv enc (aw_storage w)" using auth_run_inv [OF assms(1,2)] by simp
  have "auth_router ?st False RouteSignup call w = (Ok (AnswerSignup resp), w')"
    by (simp add: assms(3) answered_def map_ok_def)
  note kept = auth_service.router_kept [OF auth_service_on_directory [OF assms(1)] inv this]
  have inv': "accounts_inv enc (aw_storage w')" using kept inv by auto
  note acct = directory_account_iff [OF codec inv']
  from signup_made [OF assms(1) inv inv' assms(3)]
  obtain auth a where auth: "authenticated ?st call (payload_hash (as_crypto st) (cl_body call)) = Ok auth"
    and a: "account_by_pubkey enc (na_pubkey_bytes auth) (aw_storage w') = Some a" "ac_forgejo_username a = su_username resp"
    and first: "if account_by_pubkey enc (na_pubkey_bytes auth) (aw_storage w) = None
      then su_status resp = ''created'' \<and>
        (\<exists>p. profile_by_pubkey enc (na_pubkey_bytes auth) (aw_storage w') = Some p \<and> pf_visibility p = VisPrivate)
      else su_status resp = ''existing'' \<and> w' = w"
    by (elim exE conjE)
  have only: "pk = na_pubkey_bytes auth" if "account_by_pubkey enc pk (aw_storage w') = Some b"
    "ac_forgejo_username b = su_username resp" for pk b
    using that a acct account_repo.one_key [OF hex_codec.people_repo_directory [OF codec, THEN people_repo.axioms(1)] inv', of a b]
    by auto
  have again: "signup_handler ?st again w' =
        (Ok \<lparr>su_pubkey = na_pubkey auth', su_username = su_username resp, su_status = ''existing''\<rparr>, w')"
    if "authenticated ?st again (payload_hash (as_crypto st) (cl_body again)) = Ok auth'"
      "na_pubkey_bytes auth' = na_pubkey_bytes auth" for again auth'
    using that a by (simp add: signup_handler_def) (simp add: directory_service_simps)
  show ?thesis
    by (rule exI [of _ auth], rule exI [of _ a], intro conjI allI impI auth a first; elim conjE; rule only again; assumption)
qed

lemma profile_patch_Ok:
  assumes "profile_patch_handler st call w = (Ok shown, w')"
  obtains auth a p p' w1 where "authenticated st call (payload_hash (as_crypto st) (cl_body call)) = Ok auth"
    and "ao_account_by_pubkey (as_accounts st) (na_pubkey_bytes auth) (aw_storage w) = Ok (Some a)"
    and "ensure_profile st (na_pubkey auth) (ac_forgejo_username a) (cl_now call) w = (Ok p, w1)"
    and "\<exists>update. apply_profile_update (hex_decode (as_crypto st)) (na_pubkey auth) p update (cl_now call) = Ok p'"
    and "stored (po_upsert_profile (as_profiles st) p') w1 = (Ok (), w')"
    and "shown = profile_response (na_pubkey auth) (ac_forgejo_username a) p'"
proof -
  from assms obtain auth update a p p' w1 where
    "authenticated st call (payload_hash (as_crypto st) (cl_body call)) = Ok auth"
    "ao_account_by_pubkey (as_accounts st) (na_pubkey_bytes auth) (aw_storage w) = Ok (Some a)"
    "ensure_profile st (na_pubkey auth) (ac_forgejo_username a) (cl_now call) w = (Ok p, w1)"
    "apply_profile_update (hex_decode (as_crypto st)) (na_pubkey auth) p update (cl_now call) = Ok p'"
    "stored (po_upsert_profile (as_profiles st) p') w1 = (Ok (), w')"
    "shown = profile_response (na_pubkey auth) (ac_forgejo_username a) p'"
    by (auto simp: profile_patch_handler_def st_then_Ok st_read_def map_err_eq_Ok and_then_eq_Ok ok_or_eq_Ok)
  then show thesis using that by blast
qed

text \<open>
  C32: What a key publishes is what everybody sees. After a change of a profile that was answered, the public page of
  that key shows exactly the answer if it says that the profile is public, and is not found otherwise; and it is not
  found after a first sign-up.\<close>

theorem profile_page_shows_update:
  assumes "hex_pair enc (hex_decode (as_crypto st))"
    and "auth_run (on_directory enc st) command_only w"
    and "authenticated (on_directory enc st) call (payload_hash (as_crypto st) (cl_body call)) = Ok auth"
    and "pubkey_bytes_from_npub (as_bech32 st) npub = Ok (na_pubkey_bytes auth)"
  shows "(profile_patch_handler (on_directory enc st) call w = (Ok shown, w') \<longrightarrow>
      profile_public_handler (on_directory enc st) npub (aw_storage w') =
        (if pr_visibility shown = ApiPublic
         then Ok (shown\<lparr>pr_pubkey := hex_encode (as_crypto st) (na_pubkey_bytes auth)\<rparr>)
         else Err (AuthNotFound ''profile not found''))) \<and>
    (signup_handler (on_directory enc st) call w = (Ok resp, w'') \<and> su_status resp = ''created'' \<longrightarrow>
      profile_public_handler (on_directory enc st) npub (aw_storage w'') = Err (AuthNotFound ''profile not found''))"
proof (intro conjI impI)
  let ?st = "on_directory enc st"
  have codec: "hex_codec enc" by (rule hex_pair.axioms(1) [OF assms(1)])
  have key: "hex_decode (as_crypto st) (na_pubkey auth) = Some (na_pubkey_bytes auth)"
    using authenticated_key(1) [OF assms(3)] by simp
  have page: "profile_public_handler ?st npub d =
      (if pf_visibility p = VisPublic
       then Ok (profile_response (hex_encode (as_crypto st) (na_pubkey_bytes auth)) (ac_forgejo_username a) p)
       else Err (AuthNotFound ''profile not found''))"
    if "account_by_pubkey enc (na_pubkey_bytes auth) d = Some a" "profile_by_pubkey enc (na_pubkey_bytes auth) d = Some p"
    for d a p
    using that by (simp add: profile_public_handler_def assms(4) ensure_def) (simp add: directory_service_simps)
  show "profile_public_handler ?st npub (aw_storage w') =
      (if pr_visibility shown = ApiPublic
       then Ok (shown\<lparr>pr_pubkey := hex_encode (as_crypto st) (na_pubkey_bytes auth)\<rparr>)
       else Err (AuthNotFound ''profile not found''))"
    if patched: "profile_patch_handler ?st call w = (Ok shown, w')"
  proof (cases rule: profile_patch_Ok [OF patched])
    case (1 auth' a p p' w1)
    then have same: "auth' = auth" using assms(3) by simp
    have p': "pf_pubkey p' = na_pubkey_bytes auth"
      using 1(4) hex_pair.profile_record_new_wf(2) [OF assms(1)] key by (auto simp: apply_profile_update_def same)
    have "account_by_pubkey enc (na_pubkey_bytes auth) (aw_storage w1) = Some a"
    proof -
      have "account_by_pubkey enc (na_pubkey_bytes auth) (aw_storage w) = Some a"
        using 1(2) by (simp add: same directory_service_simps)
      moreover have "aw_storage w1 = aw_storage w \<or> (\<exists>q. aw_storage w1 = upsert_profile enc q (aw_storage w))"
        using ensure_profile_writes [of ?st "na_pubkey auth" "ac_forgejo_username a" "cl_now call" w]
          stored_simps(1) [of "po_upsert_profile (as_profiles ?st) _" w] 1(3)
        by (auto simp: same directory_profile_ops_def on_directory_def)
      ultimately show ?thesis by auto
    qed
    moreover have "aw_storage w' = upsert_profile enc p' (aw_storage w1)"
      using stored_Ok [OF 1(5)] by (simp add: directory_service_simps)
    ultimately have "account_by_pubkey enc (na_pubkey_bytes auth) (aw_storage w') = Some a"
      "profile_by_pubkey enc (na_pubkey_bytes auth) (aw_storage w') = Some p'"
      using hex_codec.profile_by_pubkey_upsert [OF codec] p' by simp_all
    from page [OF this] show ?thesis
      by (cases "pf_visibility p'") (simp_all add: 1(6) profile_response_def)
  qed
  show "profile_public_handler ?st npub (aw_storage w'') = Err (AuthNotFound ''profile not found'')"
    if up: "signup_handler ?st call w = (Ok resp, w'') \<and> su_status resp = ''created''"
  proof -
    have inv: "accounts_inv enc (aw_storage w)" using auth_run_inv [OF assms(1,2)] by simp
    have "auth_router ?st False RouteSignup call w = (Ok (AnswerSignup resp), w'')"
      using up by (simp add: answered_def map_ok_def)
    then have inv': "accounts_inv enc (aw_storage w'')"
      using auth_service.router_kept [OF auth_service_on_directory [OF assms(1)] inv] inv by metis
    show ?thesis
      using signup_made [OF assms(1) inv inv' conjunct1 [OF up]] up page assms(3) by (auto split: if_splits)
  qed
qed

text \<open>
  C34: The allowed skew is a number of 64 bits that the checks read as signed: from 2^63 on it is negative, no
  difference of clocks is small enough and every signed request is refused, though the settings are accepted.\<close>

theorem huge_skew_locks_out:
  assumes "2 ^ 63 \<le> ac_max_skew_seconds (as_auth st)" and "ac_max_skew_seconds (as_auth st) < 2 ^ 64"
  shows "(\<exists>e. authenticated st call payload = Err e) \<and>
    (\<not> blank (ac_email_domain (as_auth st)) \<longrightarrow> auth_config_validate (as_auth st) = Ok ())"
proof -
  have "int (ac_max_skew_seconds (as_auth st)) mod 2 ^ 64 = int (ac_max_skew_seconds (as_auth st))"
    using assms(2) by (intro mod_pos_pos_trivial) simp_all
  moreover have "2 ^ 63 \<le> int (ac_max_skew_seconds (as_auth st))" "int (ac_max_skew_seconds (as_auth st)) < 2 ^ 64"
    using assms by simp_all
  ultimately have "as_i64 (ac_max_skew_seconds (as_auth st)) < 0" by (simp add: as_i64_def Let_def)
  then have "authenticated st call payload \<noteq> Ok auth" for auth
    by (auto simp: authenticated_def validate_nip98_def result_simps)
  moreover have "ac_max_skew_seconds (as_auth st) \<noteq> 0" using assms(1) by auto
  ultimately show ?thesis
    by (cases "authenticated st call payload") (auto simp: auth_config_validate_def)
qed

section \<open>A sample service\<close>

definition sample_auth_event :: "string \<Rightarrow> nip98_event" where
  "sample_auth_event url =
     \<lparr>ne_id = bytes_to_hex (replicate 32 0), ne_pubkey = bytes_to_hex (replicate 32 7), ne_created_at = 7,
      ne_kind = NIP98_KIND,
      ne_tags = [[''u'', url], [''method'', ''POST''], [''payload'', bytes_to_hex (replicate 32 0)]],
      ne_content = [], ne_sig = bytes_to_hex (replicate 64 1)\<rparr>"

definition sample_auth_state :: "(in_memory_directory, unit) auth_app_state" where
  "sample_auth_state = on_directory bytes_to_hex
     \<lparr>as_auth = \<lparr>ac_email_domain = ''g'', ac_max_skew_seconds = 60\<rparr>,
      as_forgejo =
        \<lparr>fo_config = \<lparr>fc_base_url = ''http://f'', fc_api_token = ''t'', fc_owner = ''o'', fc_webhook_url = ''http://w'',
            fc_webhook_secret = ''s'', fc_repo_private = False\<rparr>,
         fo_send = (\<lambda>_ w. (Ok \<lparr>fs_status = 200, fs_body = []\<rparr>, w)), fo_to_string = (\<lambda>_. []),
         fo_parse_repo = (\<lambda>_. Err []),
         fo_parse_user = (\<lambda>_. Ok \<lparr>us_login = Some ''ada'', us_username = None, us_email = None\<rparr>),
         fo_parse_org = (\<lambda>_. Err []), fo_parse_pull = (\<lambda>_. Err []), fo_parse_hooks = (\<lambda>_. Err [])\<rparr>,
      as_accounts = directory_account_ops bytes_to_hex, as_profiles = directory_profile_ops bytes_to_hex,
      as_crypto = toy_auth_crypto, as_xonly = (\<lambda>_. True), as_bech32 = (\<lambda>_. Some (''npub'', replicate 32 7)),
      as_base64 = (\<lambda>_. Some []), as_event = (\<lambda>_. Some (sample_auth_event ''https://g/x'')),
      as_update = (\<lambda>_. Ok \<lparr>up_display_name = None, up_bio = None, up_avatar_url = None, up_website_url = None,
        up_location = None, up_visibility = Some ApiPublic\<rparr>)\<rparr>"

definition sample_auth_call :: auth_call where
  "sample_auth_call =
     \<lparr>cl_headers = [''authorization'' \<mapsto> Some ''Nostr x'', ''host'' \<mapsto> Some ''g'', ''x-forwarded-proto'' \<mapsto> Some ''https''],
      cl_method = ''POST'', cl_path_and_query = Some ''/x'', cl_path = ''/x'', cl_body = [1], cl_now = 30,
      cl_random = [5]\<rparr>"

definition sample_auth_world :: "(in_memory_directory, unit) auth_world" where
  "sample_auth_world = \<lparr>aw_storage = new_directory, aw_forgejo = ()\<rparr>"

lemma sample_auth_codec: "hex_pair bytes_to_hex (hex_decode (as_crypto sample_auth_state))"
  by (simp add: sample_auth_state_def on_directory_def toy_auth_crypto_def hex_bytes.hex_pair_axioms)

lemma sample_on_directory: "on_directory bytes_to_hex sample_auth_state = sample_auth_state"
  by (simp add: sample_auth_state_def on_directory_def)

lemma sample_auth_crypto: "as_crypto sample_auth_state = toy_auth_crypto" "as_xonly sample_auth_state = (\<lambda>_. True)"
  "as_accounts sample_auth_state = directory_account_ops bytes_to_hex"
  "as_profiles sample_auth_state = directory_profile_ops bytes_to_hex"
  by (simp_all add: sample_auth_state_def on_directory_def)

lemma sample_authenticated:
  "authenticated sample_auth_state sample_auth_call (payload_hash (as_crypto sample_auth_state) (cl_body sample_auth_call)) =
   Ok \<lparr>na_pubkey = bytes_to_hex (replicate 32 7), na_pubkey_bytes = replicate 32 7, na_event_id = bytes_to_hex (replicate 32 0)\<rparr>"
proof -
  have "trim ''Nostr x'' = ''Nostr x''" by (rule trim_plain_ends) simp_all
  then have event: "parse_nostr_auth sample_auth_state (cl_headers sample_auth_call) = Ok (sample_auth_event ''https://g/x'')"
    by (simp add: parse_nostr_auth_def header_text_def sample_auth_call_def strip_prefix_def sample_auth_state_def on_directory_def)
  have url: "build_request_url sample_auth_call = Ok ''https://g/x''"
    by (simp add: build_request_url_def header_text_def sample_auth_call_def unwrap_or_def)
  have payload: "payload_hash toy_auth_crypto (cl_body sample_auth_call) = Some (bytes_to_hex (replicate 32 0))"
    by (simp add: payload_hash_def sample_auth_call_def toy_auth_crypto_def)
  have skew: "as_i64 (ac_max_skew_seconds (as_auth sample_auth_state)) = 60"
    by (simp add: as_i64_def sample_auth_state_def on_directory_def)
  have "is_hex_len (bytes_to_hex (replicate 32 0)) 64" "is_hex_len (bytes_to_hex (replicate 32 7)) 64"
    "is_hex_len (bytes_to_hex (replicate 64 1)) 128"
    using bytes_to_hex_is_hex [of "replicate 32 0"] bytes_to_hex_is_hex [of "replicate 32 7"]
      bytes_to_hex_is_hex [of "replicate 64 1"] by simp_all
  then show ?thesis
    unfolding authenticated_def event url sample_auth_crypto payload skew
    by (simp add: validate_nip98_def require_hex_def auth_tag_value_def build_event_id_def verify_signature_def
        toy_auth_crypto_def hex_bytes.dec_enc sample_auth_event_def sample_auth_call_def)
qed

abbreviation sample_key :: "u8 list" where
  "sample_key \<equiv> replicate 32 7"

definition sample_profile :: "profile_visibility \<Rightarrow> profile_record" where
  "sample_profile visibility =
     \<lparr>pf_pubkey = sample_key, pf_display_name = Some ''ada'', pf_bio = None, pf_avatar_url = None, pf_website_url = None,
      pf_location = None, pf_visibility = visibility, pf_created_at = 30, pf_updated_at = 30\<rparr>"

definition sample_member_world :: "(in_memory_directory, unit) auth_world" where
  "sample_member_world =
     \<lparr>aw_storage = upsert_profile bytes_to_hex (sample_profile VisPrivate) (snd (upsert_account bytes_to_hex
        \<lparr>ac_pubkey = sample_key, ac_forgejo_username = ''ada''\<rparr> new_directory)), aw_forgejo = ()\<rparr>"

lemma sample_key_decoded:
  "decode_hex_32 bytes_of_hex ''pubkey'' (bytes_to_hex sample_key) = Ok sample_key" "length (bytes_to_hex sample_key) = 64"
  using bytes_to_hex_is_hex [of sample_key] by (simp_all add: decode_hex_32_Ok bytes_of_hex_encoded is_hex_len_def)

lemma sample_profile_new:
  "profile_record_new bytes_of_hex (bytes_to_hex sample_key) (Some ''ada'') None None None None visibility 30 30 =
   Ok (sample_profile visibility)"
proof -
  have "trim ''ada'' = ''ada''" by (rule trim_plain_ends) simp_all
  then show ?thesis
    by (simp add: profile_record_new_def sample_key_decoded normalize_optional_def normalize_optional_url_def
        record_limits ensure_opt_def sample_profile_def)
qed

lemma sample_signup:
  "signup_handler sample_auth_state sample_auth_call sample_auth_world =
     (Ok \<lparr>su_pubkey = bytes_to_hex sample_key, su_username = ''ada'', su_status = ''created''\<rparr>, sample_member_world)"
proof -
  have name: "\<not> blank ''ada''" by (rule not_blank_lead) simp_all
  have user: "ensure_user (as_forgejo sample_auth_state) u w = (Ok \<lparr>fu_username = ''ada'', fu_email = None\<rparr>, w)" for u w
    by (simp add: sample_auth_state_def on_directory_def ensure_user_def get_user_def forgejo_get_def into_user_def)
  obtain d where up: "upsert_account bytes_to_hex \<lparr>ac_pubkey = sample_key, ac_forgejo_username = ''ada''\<rparr> new_directory = (Ok (), d)"
    by (simp add: upsert_account_def new_directory_def Let_def)
  have none: "account_by_pubkey bytes_to_hex pk new_directory = None" for pk
    by (simp add: account_by_pubkey_def new_directory_def)
  have now: "cl_now sample_auth_call = 30" by (simp add: sample_auth_call_def)
  show ?thesis
    unfolding signup_handler_def sample_authenticated
    by (simp add: sample_auth_crypto user sample_auth_world_def directory_account_ops_def directory_profile_ops_def
        none forgejo_called_def account_record_new_def name sample_key_decoded toy_auth_crypto_def
        stored_def up sample_profile_new now
        sample_member_world_def)
qed

lemma sample_patch:
  "\<exists>w. profile_patch_handler sample_auth_state sample_auth_call sample_member_world =
     (Ok (profile_response (bytes_to_hex sample_key) ''ada'' (sample_profile VisPublic)), w)"
proof -
  have a: "account_by_pubkey bytes_to_hex sample_key (aw_storage sample_member_world) =
      Some \<lparr>ac_pubkey = sample_key, ac_forgejo_username = ''ada''\<rparr>"
    by (simp add: sample_member_world_def) (simp add: account_by_pubkey_def upsert_account_def new_directory_def Let_def)
  have p: "profile_by_pubkey bytes_to_hex sample_key (aw_storage sample_member_world) = Some (sample_profile VisPrivate)"
    by (simp add: sample_member_world_def hex.profile_by_pubkey_upsert) (simp add: sample_profile_def)
  have call: "cl_now sample_auth_call = 30" "cl_body sample_auth_call \<noteq> []" by (simp_all add: sample_auth_call_def)
  have update: "as_update sample_auth_state (cl_body sample_auth_call) =
      Ok \<lparr>up_display_name = None, up_bio = None, up_avatar_url = None, up_website_url = None, up_location = None,
          up_visibility = Some ApiPublic\<rparr>"
    by (simp add: sample_auth_state_def)
  have "apply_profile_update bytes_of_hex (bytes_to_hex sample_key) (sample_profile VisPrivate)
      \<lparr>up_display_name = None, up_bio = None, up_avatar_url = None, up_website_url = None, up_location = None,
       up_visibility = Some ApiPublic\<rparr> 30 = Ok (sample_profile VisPublic)"
    using sample_profile_new [of VisPublic]
    by (simp add: apply_profile_update_def or_else_def unwrap_or_def sample_profile_def)
  then show ?thesis
    unfolding profile_patch_handler_def sample_authenticated update
    by (simp add: sample_auth_crypto directory_account_ops_def directory_profile_ops_def a p call ensure_profile_def
        parse_pubkey_bytes_def sample_key_decoded toy_auth_crypto_def hex_bytes.dec_enc stored_def)
qed

lemma sample_runs: "auth_run sample_auth_state False sample_auth_world" "auth_run sample_auth_state False sample_member_world"
proof -
  show start: "auth_run sample_auth_state False sample_auth_world"
    by (rule auth_run.start) (simp add: sample_auth_world_def)
  show "auth_run sample_auth_state False sample_member_world"
    by (rule auth_run.request [OF start, of RouteSignup sample_auth_call]) (simp add: sample_signup answered_def)
qed

theorem auth_changes_only_signer_witness:
  "\<exists>r w'. auth_router sample_auth_state False RouteSignup sample_auth_call sample_auth_world = (r, w') \<and>
    account_by_pubkey bytes_to_hex [1] (aw_storage w') = account_by_pubkey bytes_to_hex [1] new_directory"
proof -
  let ?step = "auth_router sample_auth_state False RouteSignup sample_auth_call sample_auth_world"
  have "replicate 32 7 \<noteq> [1 :: u8]" by (simp add: numeral_eq_Suc)
  moreover have "route_payload sample_auth_state RouteSignup sample_auth_call =
      payload_hash (as_crypto sample_auth_state) (cl_body sample_auth_call)" by (simp add: route_payload_def)
  ultimately show ?thesis
    using auth_changes_only_signer [OF sample_auth_codec, unfolded sample_on_directory,
        OF sample_runs(1) surjective_pairing, of RouteSignup sample_auth_call, THEN conjunct1]
      sample_authenticated
    by (intro exI [of _ "fst ?step"] exI [of _ "snd ?step"]) (auto simp: sample_auth_world_def)
qed

theorem signup_settles_witness:
  "\<exists>a. account_by_pubkey bytes_to_hex sample_key (aw_storage sample_member_world) = Some a \<and> ac_forgejo_username a = ''ada''"
  using signup_settles [OF sample_auth_codec, unfolded sample_on_directory, OF sample_runs(1) sample_signup] sample_authenticated
  by auto

theorem profile_page_shows_update_witness:
  "\<exists>d. profile_public_handler sample_auth_state ''npub1'' d =
     Ok (profile_response (bytes_to_hex sample_key) ''ada'' (sample_profile VisPublic))"
proof -
  have npub: "pubkey_bytes_from_npub (as_bech32 sample_auth_state) ''npub1'' = Ok sample_key"
    by (simp add: pubkey_bytes_from_npub_def sample_auth_state_def)
  obtain w where patched: "profile_patch_handler sample_auth_state sample_auth_call sample_member_world =
     (Ok (profile_response (bytes_to_hex sample_key) ''ada'' (sample_profile VisPublic)), w)"
    using sample_patch by blast
  have "profile_public_handler sample_auth_state ''npub1'' (aw_storage w) =
     Ok (profile_response (bytes_to_hex sample_key) ''ada'' (sample_profile VisPublic))"
    using profile_page_shows_update [OF sample_auth_codec, unfolded sample_on_directory,
        OF sample_runs(2) sample_authenticated, of "''npub1''", THEN conjunct1, rule_format, OF _ patched] npub
    by (simp add: profile_response_def sample_profile_def sample_auth_crypto toy_auth_crypto_def)
  then show ?thesis by blast
qed

theorem huge_skew_locks_out_witness:
  "\<exists>e. authenticated (sample_auth_state\<lparr>as_auth := \<lparr>ac_email_domain = ''g'', ac_max_skew_seconds = 2 ^ 63\<rparr>\<rparr>)
     sample_auth_call None = Err e"
  using huge_skew_locks_out [of "sample_auth_state\<lparr>as_auth := \<lparr>ac_email_domain = ''g'', ac_max_skew_seconds = 2 ^ 63\<rparr>\<rparr>"
      sample_auth_call None] by simp

end
