(* ===== verification/Git_Http.thy ===== *)
theory Git_Http
  imports Auth_Service State_Service
begin

text \<open>
  The git service over HTTP (\<open>services/git-http/src/lib.rs\<close>): it reads the repository from the path of a request,
  finds the repository's place on Forgejo, and passes the request on; a push has to be signed after NIP-98 by a
  maintainer. Headers map a name to its values; what a value is and how it is read as text are parameters, as are
  the decoders, the hash and the signatures. The loop that collects the maintainers is a partial function, shown
  to end on the directory of the storage crate. \<open>str::to_lowercase\<close> is modelled on ASCII: a key with other
  letters is not hexadecimal, whatever their case, and the loop fails on it in the same way.
\<close>

section \<open>Settings\<close>

record git_http_config =
  gh_bind :: string
  gh_upstream_url :: string
  gh_timeout_secs :: nat
  gh_auth :: auth_config
  gh_storage :: storage_config

definition git_env_u64 :: "environment \<Rightarrow> string \<Rightarrow> nat option settings" where
  "git_env_u64 env key =
     (case env key of
        None \<Rightarrow> Ok None
      | Some v \<Rightarrow>
          (if blank v then Ok None
           else case parse_unsigned 64 v of
             Some n \<Rightarrow> Ok (Some n)
           | None \<Rightarrow> Err (ServiceInvalidEnv key v)))"

definition git_http_config_from_env :: "url_parser \<Rightarrow> environment \<Rightarrow> git_http_config settings" where
  "git_http_config_from_env url_parse env =
     and_then (map_err ServiceConfigFailed (services_from_env_validated env)) (\<lambda>services.
     and_then (map_err ServiceConfigFailed (auth_config_from_env env)) (\<lambda>auth.
     and_then (ok_or (ServiceMissingEnv ''GITTREE_GIT_HTTP_UPSTREAM_URL'') (env ''GITTREE_GIT_HTTP_UPSTREAM_URL'')) (\<lambda>upstream_url.
     and_then (ensure (url_parse upstream_url \<noteq> None) (ServiceInvalidEnv ''GITTREE_GIT_HTTP_UPSTREAM_URL'' upstream_url)) (\<lambda>_.
     and_then (git_env_u64 env ''GITTREE_GIT_HTTP_TIMEOUT_SECS'') (\<lambda>timeout_secs.
     and_then (map_err ServiceStorage (storage_from_env env)) (\<lambda>storage.
     Ok \<lparr>gh_bind = sc_bind (sv_git_http services), gh_upstream_url = upstream_url,
         gh_timeout_secs = unwrap_or timeout_secs 10, gh_auth = auth, gh_storage = storage\<rparr>))))))"

section \<open>Routes\<close>

record git_http_request =
  gq_method :: string
  gq_path :: string
  gq_query :: "string option"

record normalized_repo =
  nr_npub :: string
  nr_identifier :: string
  nr_canonical_path :: string
  nr_pubkey :: string

datatype git_http_service = ServiceUploadPack | ServiceReceivePack

datatype git_http_route =
    InfoRefs normalized_repo git_http_service
  | UploadPack normalized_repo
  | ReceivePack normalized_repo
  | RouteNotFound

datatype git_http_route_error =
    RouteInvalidRepo string
  | RouteMissingService
  | RouteInvalidService string

fun route_label :: "git_http_route \<Rightarrow> string" where
  "route_label (InfoRefs repo service) = ''info_refs''"
| "route_label (UploadPack repo) = ''upload_pack''"
| "route_label (ReceivePack repo) = ''receive_pack''"
| "route_label RouteNotFound = ''not_found''"

definition split_repo_segments :: "string \<Rightarrow> (string \<times> string \<times> string list) option" where
  "split_repo_segments path =
     (case filter (\<lambda>s. s \<noteq> []) (str_split (trim_start_char CHR ''/'' path) CHR ''/'') of
        npub # repo # rest \<Rightarrow> if rest = [] then None else Some (npub, repo, rest)
      | _ \<Rightarrow> None)"

definition normalize_repo_path ::
  "bech32_decoder \<Rightarrow> string \<Rightarrow> string \<Rightarrow> (git_http_route_error, normalized_repo) result" where
  "normalize_repo_path bech32 npub repo_segment =
     and_then (map_err (\<lambda>err. RouteInvalidRepo (core_error_display err))
       (parse_repo_path bech32 (path_join (path_join ''/'' npub) repo_segment))) (\<lambda>parsed.
     Ok \<lparr>nr_npub = rp_npub parsed, nr_identifier = rp_identifier parsed,
         nr_canonical_path = ''/'' @ rp_npub parsed @ ''/'' @ rp_identifier parsed @ ''.git'',
         nr_pubkey = rp_pubkey parsed\<rparr>)"

fun service_in :: "string list \<Rightarrow> (git_http_route_error, git_http_service) result" where
  "service_in [] = Err RouteMissingService"
| "service_in (pair # pairs) =
     (let parts = str_splitn 2 pair CHR ''='' in
      if part parts 0 \<noteq> Some ''service'' then service_in pairs
      else let v = unwrap_or (part parts 1) [] in
        if v = ''git-upload-pack'' then Ok ServiceUploadPack
        else if v = ''git-receive-pack'' then Ok ServiceReceivePack
        else Err (RouteInvalidService v))"

definition parse_service :: "string option \<Rightarrow> (git_http_route_error, git_http_service) result" where
  "parse_service query = and_then (ok_or RouteMissingService query) (\<lambda>query. service_in (str_split query CHR ''&''))"

definition is_get :: "string \<Rightarrow> bool" where
  "is_get method \<longleftrightarrow> same_text method ''GET''"

definition is_post :: "string \<Rightarrow> bool" where
  "is_post method \<longleftrightarrow> same_text method ''POST''"

definition route_request :: "bech32_decoder \<Rightarrow> git_http_request \<Rightarrow> git_http_route" where
  "route_request bech32 request =
     (case split_repo_segments (gq_path request) of
        None \<Rightarrow> RouteNotFound
      | Some (npub, repo_segment, rest) \<Rightarrow>
          (if \<not> ends_with repo_segment ''.git'' then RouteNotFound
           else case normalize_repo_path bech32 npub repo_segment of
             Inl _ \<Rightarrow> RouteNotFound
           | Inr repo \<Rightarrow>
               (if rest = [''info'', ''refs''] \<and> is_get (gq_method request)
                then (case parse_service (gq_query request) of
                        Inr service \<Rightarrow> InfoRefs repo service
                      | Inl _ \<Rightarrow> RouteNotFound)
                else if rest = [''git-upload-pack''] \<and> is_post (gq_method request) then UploadPack repo
                else if rest = [''git-receive-pack''] \<and> is_post (gq_method request) then ReceivePack repo
                else RouteNotFound)))"

section \<open>Requests and answers\<close>

type_synonym 'v headers = "string \<Rightarrow> 'v list"

record 'v upstream_request =
  uq_method :: string
  uq_url :: string
  uq_headers :: "'v headers"
  uq_body :: "u8 list"

record 'v upstream_response =
  ur_status :: u16
  ur_headers :: "'v headers"
  ur_body :: "u8 list"

datatype git_http_error =
    GitNotFound string
  | GitBadRequest string
  | GitUnauthorized string
  | GitStorage string
  | GitUpstream string
  | GitInternal string

fun git_http_response :: "git_http_error \<Rightarrow> u16 \<times> string" where
  "git_http_response (GitNotFound message) = (404, message)"
| "git_http_response (GitBadRequest message) = (400, message)"
| "git_http_response (GitUnauthorized message) = (401, message)"
| "git_http_response (GitStorage message) = (500, message)"
| "git_http_response (GitUpstream message) = (502, message)"
| "git_http_response (GitInternal message) = (500, message)"

text \<open>The state of the service, and a request with the time at which it is handled; reading the body may fail.\<close>

record ('v, 'w) git_http_state =
  gs_auth :: auth_config
  gs_mapping_by_repo :: "u8 list \<Rightarrow> string \<Rightarrow> (storage_error, repo_mapping_record option) result"
  gs_latest_announcement :: "u8 list \<Rightarrow> string \<Rightarrow> (storage_error, repo_announcement_record option) result"
  gs_send :: "'v upstream_request \<Rightarrow> 'w \<Rightarrow> (string, 'v upstream_response, 'w) st_result"
  gs_upstream_url :: string
  gs_bech32 :: bech32_decoder
  gs_crypto :: crypto
  gs_xonly :: "u8 list \<Rightarrow> bool"
  gs_to_str :: "'v \<Rightarrow> string option"
  gs_base64 :: "string \<Rightarrow> u8 list option"
  gs_event :: "u8 list \<Rightarrow> nip98_event option"

record 'v git_call =
  gc_method :: string
  gc_path :: string
  gc_query :: "string option"
  gc_headers :: "'v headers"
  gc_body :: "(string, u8 list) result"
  gc_now :: int

definition header_get :: "('v \<Rightarrow> string option) \<Rightarrow> 'v headers \<Rightarrow> string \<Rightarrow> string option" where
  "header_get to_str headers name = (case headers name of v # _ \<Rightarrow> to_str v | [] \<Rightarrow> None)"

definition git_request_url :: "('v, 'w) git_http_state \<Rightarrow> 'v git_call \<Rightarrow> (git_http_error, string) result" where
  "git_request_url st call =
     and_then (ok_or (GitBadRequest ''missing host header'') (header_get (gs_to_str st) (gc_headers call) ''host'')) (\<lambda>host.
     let scheme = unwrap_or (header_get (gs_to_str st) (gc_headers call) ''x-forwarded-proto'') ''http'';
         path = (case gc_query call of Some query \<Rightarrow> gc_path call @ ''?'' @ query | None \<Rightarrow> gc_path call)
     in Ok (scheme @ ''://'' @ host @ path))"

definition git_nostr_auth :: "('v, 'w) git_http_state \<Rightarrow> 'v headers \<Rightarrow> (git_http_error, nip98_event) result" where
  "git_nostr_auth st headers =
     and_then (ok_or (GitUnauthorized ''missing authorization'') (header_get (gs_to_str st) headers ''authorization'')) (\<lambda>v.
     and_then (ok_or (GitUnauthorized ''invalid authorization header'') (strip_prefix (trim v) ''Nostr '')) (\<lambda>token.
     and_then (ok_or (GitUnauthorized ''invalid nostr authorization'') (gs_base64 st token)) (\<lambda>decoded.
     ok_or (GitUnauthorized ''invalid nostr event'') (gs_event st decoded))))"

section \<open>Maintainers\<close>

text \<open>What the loop reads of a key: whom its latest announcement names.\<close>

definition named_maintainers ::
  "hex_decoder \<Rightarrow> (u8 list \<Rightarrow> string \<Rightarrow> (storage_error, repo_announcement_record option) result) \<Rightarrow> string \<Rightarrow> string \<Rightarrow>
   (git_http_error, string list) result" where
  "named_maintainers dec lookup ident pubkey =
     and_then (ok_or (GitInternal ''invalid maintainer pubkey'') (dec pubkey)) (\<lambda>pubkey_bytes.
     and_then (map_err (\<lambda>err. GitStorage (storage_error_display err)) (lookup pubkey_bytes ident)) (\<lambda>announcement.
     Ok (case announcement of
           None \<Rightarrow> []
         | Some a \<Rightarrow> map to_ascii_lowercase (rr_maintainers a))))"

text \<open>The stack \<open>pending\<close> is held with its top first.\<close>

partial_function (option) maintainers_loop ::
  "(string \<Rightarrow> ('e, string list) result) \<Rightarrow> string list \<Rightarrow> string list \<Rightarrow> ('e, string list) result option" where
  "maintainers_loop named pending seen =
     (case pending of
        [] \<Rightarrow> Some (Ok seen)
      | pubkey # pending \<Rightarrow>
          (if pubkey \<in> set seen then maintainers_loop named pending seen
           else case named pubkey of
             Inl err \<Rightarrow> Some (Err err)
           | Inr ms \<Rightarrow> maintainers_loop named (rev (filter (\<lambda>m. m \<notin> set (pubkey # seen)) ms) @ pending) (pubkey # seen)))"

definition git_resolve_maintainers ::
  "hex_decoder \<Rightarrow> (u8 list \<Rightarrow> string \<Rightarrow> (storage_error, repo_announcement_record option) result) \<Rightarrow> normalized_repo \<Rightarrow>
   (git_http_error, string list) result option" where
  "git_resolve_maintainers dec lookup repo =
     map_option (map_sum id sort)
       (maintainers_loop (named_maintainers dec lookup (nr_identifier repo)) [to_ascii_lowercase (nr_pubkey repo)] [])"

section \<open>Handlers\<close>

definition resolve_mapping ::
  "('v, 'w) git_http_state \<Rightarrow> normalized_repo \<Rightarrow> (git_http_error, repo_mapping_record) result" where
  "resolve_mapping st repo =
     and_then (ok_or (GitInternal ''invalid repo pubkey'') (hex_decode (gs_crypto st) (nr_pubkey repo))) (\<lambda>pubkey.
     and_then (map_err (\<lambda>err. GitStorage (storage_error_display err))
       (gs_mapping_by_repo st pubkey (nr_identifier repo))) (\<lambda>record.
     ok_or (GitNotFound ''missing repo mapping'') record))"

definition push_signer ::
  "('v, 'w) git_http_state \<Rightarrow> 'v git_call \<Rightarrow> u8 list \<Rightarrow> (git_http_error, nip98_auth) result" where
  "push_signer st call body =
     and_then (git_nostr_auth st (gc_headers call)) (\<lambda>event.
     and_then (git_request_url st call) (\<lambda>request_url.
     map_err (\<lambda>err. GitUnauthorized (nip98_error_display err))
       (validate_nip98 (gs_crypto st) (gs_xonly st) event
         \<lparr>nq_method = gc_method call, nq_url = request_url, nq_payload_sha256 = payload_hash (gs_crypto st) body,
          nq_now = gc_now call, nq_max_skew_seconds = as_i64 (ac_max_skew_seconds (gs_auth st))\<rparr>)))"

definition authorize_receive_pack ::
  "('v, 'w) git_http_state \<Rightarrow> normalized_repo \<Rightarrow> 'v git_call \<Rightarrow> u8 list \<Rightarrow> (git_http_error, unit) result option" where
  "authorize_receive_pack st repo call body =
     (case push_signer st call body of
        Inl err \<Rightarrow> Some (Err err)
      | Inr auth \<Rightarrow>
          map_option (\<lambda>r. and_then r (\<lambda>maintainers.
            ensure (list_ex (\<lambda>pubkey. same_text pubkey (na_pubkey auth)) maintainers)
              (GitUnauthorized ''pubkey not authorized'')))
          (git_resolve_maintainers (hex_decode (gs_crypto st)) (gs_latest_announcement st) repo))"

fun route_target :: "'v git_call \<Rightarrow> git_http_route \<Rightarrow> (git_http_error, normalized_repo \<times> string \<times> string option) result" where
  "route_target call (InfoRefs repo service) = Ok (repo, ''/info/refs'', gc_query call)"
| "route_target call (UploadPack repo) = Ok (repo, ''/git-upload-pack'', None)"
| "route_target call (ReceivePack repo) = Ok (repo, ''/git-receive-pack'', None)"
| "route_target call RouteNotFound = Err (GitNotFound ''not found'')"

definition upstream_url_of :: "string \<Rightarrow> repo_mapping_record \<Rightarrow> string \<Rightarrow> string option \<Rightarrow> string" where
  "upstream_url_of base mapping ending query =
     base @ ''/'' @ mp_forgejo_owner mapping @ ''/'' @ mp_forgejo_repo mapping @ ''.git'' @ ending @
     (case query of Some query \<Rightarrow> ''?'' @ query | None \<Rightarrow> [])"

text \<open>The answer is none where the search for maintainers does not end.\<close>

definition handle_git_route ::
  "('v, 'w) git_http_state \<Rightarrow> git_http_route \<Rightarrow> 'v git_call \<Rightarrow> 'w \<Rightarrow> (git_http_error, 'v upstream_response, 'w) st_result option" where
  "handle_git_route st route call w =
     (case and_then (route_target call route) (\<lambda>(repo, ending, query).
             and_then (resolve_mapping st repo) (\<lambda>mapping.
             and_then (map_err GitInternal (gc_body call)) (\<lambda>body.
             Ok (repo, upstream_url_of (gs_upstream_url st) mapping ending query, body)))) of
        Inl err \<Rightarrow> Some (Err err, w)
      | Inr (repo, url, body) \<Rightarrow>
          map_option (\<lambda>authorized. st_then (authorized, w) (\<lambda>_ w.
            st_map_err GitUpstream (gs_send st
              \<lparr>uq_method = gc_method call, uq_url = url,
               uq_headers = (gc_headers call)(''host'' := [], ''authorization'' := []), uq_body = body\<rparr> w)))
          (case route of
             ReceivePack _ \<Rightarrow> authorize_receive_pack st repo call body
           | _ \<Rightarrow> Some (Ok ())))"

definition git_handler ::
  "('v, 'w) git_http_state \<Rightarrow> 'v git_call \<Rightarrow> 'w \<Rightarrow> (git_http_error, 'v upstream_response, 'w) st_result option" where
  "git_handler st call w = handle_git_route st
     (route_request (gs_bech32 st) \<lparr>gq_method = gc_method call, gq_path = gc_path call, gq_query = gc_query call\<rparr>) call w"

section \<open>The loop ends\<close>

text \<open>The keys that count as maintainers: the owner, and whom the announcement of a maintainer names.\<close>

inductive maintainer_of :: "(string \<Rightarrow> ('e, string list) result) \<Rightarrow> string \<Rightarrow> string \<Rightarrow> bool"
  for named root where
  owner: "maintainer_of named root root"
| names: "maintainer_of named root p \<Longrightarrow> named p = Ok ms \<Longrightarrow> q \<in> set ms \<Longrightarrow> maintainer_of named root q"

definition collecting ::
  "(string \<Rightarrow> ('e, string list) result) \<Rightarrow> string \<Rightarrow> string list \<Rightarrow> string list \<Rightarrow> bool" where
  "collecting named root pending seen \<longleftrightarrow> distinct seen \<and> root \<in> set seen \<union> set pending \<and>
     (\<forall>p \<in> set seen \<union> set pending. maintainer_of named root p) \<and>
     (\<forall>p \<in> set seen. \<exists>ms. named p = Ok ms) \<and>
     (\<forall>p ms q. p \<in> set seen \<longrightarrow> named p = Ok ms \<longrightarrow> q \<in> set ms \<longrightarrow> q \<in> set seen \<union> set pending)"

lemma collecting_done:
  assumes "collecting named root [] seen"
  shows "set seen = {p. maintainer_of named root p}" and "maintainer_of named root p \<Longrightarrow> \<exists>ms. named p = Ok ms"
proof -
  have found: "p \<in> set seen" if "maintainer_of named root p" for p
    using that by induction (use assms in \<open>auto simp: collecting_def\<close>)
  have "\<forall>p \<in> set seen. maintainer_of named root p" "\<forall>p \<in> set seen. \<exists>ms. named p = Ok ms"
    using assms by (simp_all add: collecting_def)
  with found show "set seen = {p. maintainer_of named root p}" "maintainer_of named root p \<Longrightarrow> \<exists>ms. named p = Ok ms"
    by blast+
qed

lemma collecting_step:
  assumes "collecting named root (p # pending) seen" and "p \<notin> set seen" and "named p = Ok ms"
  shows "collecting named root (rev (filter (\<lambda>m. m \<notin> set (p # seen)) ms) @ pending) (p # seen)"
  using assms by (auto simp: collecting_def intro: maintainer_of.names; blast)

lemma maintainers_loop_returns:
  assumes "finite {p. maintainer_of named root p}" and "collecting named root pending seen"
  shows "\<exists>r. maintainers_loop named pending seen = Some r \<and>
    (case r of Inl e \<Rightarrow> \<exists>p. maintainer_of named root p \<and> named p = Err e | Inr s \<Rightarrow> collecting named root [] s)"
  using assms(2)
proof (induction "(card ({p. maintainer_of named root p} - set seen), length pending)" arbitrary: pending seen
    rule: wf_induct_rule [OF wf_lex_prod [OF wf_less_than wf_less_than]])
  case 1
  note IH = 1(1)
  show ?case
  proof (cases pending)
    case Nil
    then show ?thesis using 1(2) by (subst maintainers_loop.simps) auto
  next
    case (Cons p rest)
    show ?thesis
    proof (cases "p \<in> set seen")
      case True
      then have "collecting named root rest seen" using 1(2) Cons by (auto simp: collecting_def; blast)
      then show ?thesis using IH [of seen rest] Cons True by (subst maintainers_loop.simps) auto
    next
      case False
      show ?thesis
      proof (cases "named p")
        case (Inl e)
        then show ?thesis using False Cons 1(2) by (subst maintainers_loop.simps) (auto simp: collecting_def)
      next
        case (Inr ms)
        let ?pending = "rev (filter (\<lambda>m. m \<notin> set (p # seen)) ms) @ rest"
        have inv: "collecting named root ?pending (p # seen)" using collecting_step 1(2) Cons False Inr by blast
        have "p \<in> {p. maintainer_of named root p} - set seen" using 1(2) Cons False by (auto simp: collecting_def)
        then have "card ({p. maintainer_of named root p} - set (p # seen)) < card ({p. maintainer_of named root p} - set seen)"
          using assms(1) by (intro psubset_card_mono) auto
        then show ?thesis using IH [OF _ inv] False Inr Cons by (subst maintainers_loop.simps) auto
      qed
    qed
  qed
qed

section \<open>On the directory\<close>

abbreviation directory_named :: "encoder \<Rightarrow> hex_decoder \<Rightarrow> in_memory_directory \<Rightarrow> string \<Rightarrow> string \<Rightarrow>
    (git_http_error, string list) result" where
  "directory_named enc dec d ident \<equiv> named_maintainers dec (\<lambda>p i. Ok (latest_announcement enc p i d)) ident"

abbreviation may_push :: "encoder \<Rightarrow> hex_decoder \<Rightarrow> in_memory_directory \<Rightarrow> normalized_repo \<Rightarrow> string \<Rightarrow> bool" where
  "may_push enc dec d repo \<equiv> maintainer_of (directory_named enc dec d (nr_identifier repo)) (to_ascii_lowercase (nr_pubkey repo))"

lemma directory_named_iff:
  "directory_named enc dec d ident p = Ok ms \<longleftrightarrow> (\<exists>b. dec p = Some b \<and>
     ms = (case latest_announcement enc b ident d of None \<Rightarrow> [] | Some a \<Rightarrow> map to_ascii_lowercase (rr_maintainers a)))"
  "directory_named enc dec d ident p = Err e \<longleftrightarrow> dec p = None \<and> e = GitInternal ''invalid maintainer pubkey''"
  by (auto simp: named_maintainers_def ok_or_def split: option.splits)

lemma directory_named_in:
  assumes "directory_named enc dec d ident p = Ok ms" and "q \<in> set ms"
  shows "\<exists>rs \<in> snd ` set (dr_announcements d). \<exists>a \<in> set rs. q \<in> to_ascii_lowercase ` set (rr_maintainers a)"
proof -
  from assms obtain b a where "latest_announcement enc b ident d = Some a" "q \<in> to_ascii_lowercase ` set (rr_maintainers a)"
    by (auto simp: directory_named_iff split: option.splits)
  then show ?thesis using latest_announcement_in by blast
qed

lemma may_push_finite: "finite {p. may_push enc dec d repo p}"
proof (rule finite_subset)
  let ?named = "insert (to_ascii_lowercase (nr_pubkey repo))
    (\<Union>rs \<in> snd ` set (dr_announcements d). \<Union>a \<in> set rs. to_ascii_lowercase ` set (rr_maintainers a))"
  have "p \<in> ?named" if "may_push enc dec d repo p" for p
    using that by cases (use directory_named_in in \<open>fastforce\<close>)+
  then show "{p. may_push enc dec d repo p} \<subseteq> ?named" by blast
qed simp

lemma may_push_lower: "may_push enc dec d repo p \<Longrightarrow> to_ascii_lowercase p = p"
  by (induction rule: maintainer_of.induct) (auto simp: directory_named_iff split: option.splits)

lemma git_resolve_exact:
  obtains ms where "git_resolve_maintainers dec (\<lambda>p i. Ok (latest_announcement enc p i d)) repo = Some (Ok ms)"
    and "sorted ms" and "distinct ms" and "set ms = {p. may_push enc dec d repo p}"
    and "\<forall>p. may_push enc dec d repo p \<longrightarrow> dec p \<noteq> None"
  | p where "git_resolve_maintainers dec (\<lambda>p i. Ok (latest_announcement enc p i d)) repo =
      Some (Err (GitInternal ''invalid maintainer pubkey''))"
    and "may_push enc dec d repo p" and "dec p = None"
proof -
  let ?named = "directory_named enc dec d (nr_identifier repo)" and ?root = "to_ascii_lowercase (nr_pubkey repo)"
  have "collecting ?named ?root [?root] []" by (simp add: collecting_def maintainer_of.owner)
  from maintainers_loop_returns [OF may_push_finite this] obtain r where r: "maintainers_loop ?named [?root] [] = Some r"
    "case r of Inl e \<Rightarrow> \<exists>p. maintainer_of ?named ?root p \<and> ?named p = Err e | Inr s \<Rightarrow> collecting ?named ?root [] s" by blast
  show thesis
  proof (cases r)
    case (Inl e)
    with r that(2) show thesis by (auto simp: git_resolve_maintainers_def directory_named_iff)
  next
    case (Inr s)
    with r have inv: "collecting ?named ?root [] s" by simp
    have "\<forall>p. may_push enc dec d repo p \<longrightarrow> dec p \<noteq> None"
      using collecting_done(2) [OF inv] by (auto simp: directory_named_iff)
    moreover have "distinct s" using inv by (simp add: collecting_def)
    ultimately show thesis
      using r Inr that(1) [of "sort s"] collecting_done(1) [OF inv] by (auto simp: git_resolve_maintainers_def)
  qed
qed

text \<open>
  The service on the directory, with an upstream that answers as it likes and a log of the requests it was sent.\<close>

definition git_service ::
  "encoder \<Rightarrow> in_memory_directory \<Rightarrow> ('v upstream_request \<Rightarrow> (string, 'v upstream_response) result) \<Rightarrow>
   ('v, 'v upstream_request list) git_http_state \<Rightarrow> ('v, 'v upstream_request list) git_http_state" where
  "git_service enc d answer st = st
     \<lparr>gs_mapping_by_repo := \<lambda>p i. Ok (mapping_by_repo enc p i d),
      gs_latest_announcement := \<lambda>p i. Ok (latest_announcement enc p i d),
      gs_send := \<lambda>q log. (answer q, log @ [q])\<rparr>"

lemma git_service_simps [simp]:
  "gs_mapping_by_repo (git_service enc d answer st) = (\<lambda>p i. Ok (mapping_by_repo enc p i d))"
  "gs_latest_announcement (git_service enc d answer st) = (\<lambda>p i. Ok (latest_announcement enc p i d))"
  "gs_send (git_service enc d answer st) = (\<lambda>q log. (answer q, log @ [q]))"
  "gs_crypto (git_service enc d answer st) = gs_crypto st" "gs_bech32 (git_service enc d answer st) = gs_bech32 st"
  "gs_upstream_url (git_service enc d answer st) = gs_upstream_url st"
  "push_signer (git_service enc d answer st) = push_signer st"
  by (simp_all add: git_service_def push_signer_def git_nostr_auth_def git_request_url_def fun_eq_iff)

abbreviation call_route :: "bech32_decoder \<Rightarrow> 'v git_call \<Rightarrow> git_http_route" where
  "call_route bech32 call \<equiv>
     route_request bech32 \<lparr>gq_method = gc_method call, gq_path = gc_path call, gq_query = gc_query call\<rparr>"

lemma authorize_on_directory:
  assumes "authorize_receive_pack (git_service enc d answer st) repo call body = r"
  shows "r \<noteq> None" and "r = Some (Ok ()) \<longleftrightarrow>
    (\<exists>auth. push_signer st call body = Ok auth \<and>
       may_push enc (hex_decode (gs_crypto st)) d repo (to_ascii_lowercase (na_pubkey auth)) \<and>
       (\<forall>p. may_push enc (hex_decode (gs_crypto st)) d repo p \<longrightarrow> hex_decode (gs_crypto st) p \<noteq> None))"
proof -
  let ?may = "may_push enc (hex_decode (gs_crypto st)) d repo"
  have "r \<noteq> None \<and> (r = Some (Ok ()) \<longleftrightarrow>
    (\<exists>auth. push_signer st call body = Ok auth \<and> ?may (to_ascii_lowercase (na_pubkey auth)) \<and>
       (\<forall>p. ?may p \<longrightarrow> hex_decode (gs_crypto st) p \<noteq> None)))"
  proof (cases "push_signer st call body")
    case (Inl e)
    then show ?thesis using assms by (auto simp: authorize_receive_pack_def)
  next
    case (Inr auth)
    show ?thesis
    proof (cases rule: git_resolve_exact [where enc = enc and dec = "hex_decode (gs_crypto st)" and d = d and repo = repo])
      case (1 ms)
      have "list_ex (\<lambda>pubkey. same_text pubkey (na_pubkey auth)) ms \<longleftrightarrow> ?may (to_ascii_lowercase (na_pubkey auth))"
        using may_push_lower [where enc = enc and dec = "hex_decode (gs_crypto st)" and d = d and repo = repo] 1(4)
        by (auto simp: list_ex_iff)
      then show ?thesis using assms 1(1,5) Inr by (auto simp: authorize_receive_pack_def ensure_def)
    next
      case (2 p)
      then show ?thesis using assms Inr by (auto simp: authorize_receive_pack_def)
    qed
  qed
  then show "r \<noteq> None" "r = Some (Ok ()) \<longleftrightarrow>
    (\<exists>auth. push_signer st call body = Ok auth \<and> ?may (to_ascii_lowercase (na_pubkey auth)) \<and>
       (\<forall>p. ?may p \<longrightarrow> hex_decode (gs_crypto st) p \<noteq> None))" by simp_all
qed

text \<open>The upstream request of a call, and when it is sent.\<close>

definition forwarded :: "('v, 'w) git_http_state \<Rightarrow> 'v git_call \<Rightarrow> string \<Rightarrow> u8 list \<Rightarrow> 'v upstream_request" where
  "forwarded st call url body =
     \<lparr>uq_method = gc_method call, uq_url = url, uq_headers = (gc_headers call)(''host'' := [], ''authorization'' := []),
      uq_body = body\<rparr>"

lemma handle_on_directory:
  fixes st :: "('v, 'v upstream_request list) git_http_state"
  shows "\<exists>r. handle_git_route (git_service enc d answer st) route call log = Some r \<and>
    (snd r = log \<or>
     (\<exists>repo ending query pubkey mapping body.
        route_target call route = Ok (repo, ending, query) \<and> hex_decode (gs_crypto st) (nr_pubkey repo) = Some pubkey \<and>
        mapping_by_repo enc pubkey (nr_identifier repo) d = Some mapping \<and> gc_body call = Ok body \<and>
        snd r = log @ [forwarded st call (upstream_url_of (gs_upstream_url st) mapping ending query) body] \<and>
        (route = ReceivePack repo \<longrightarrow> authorize_receive_pack (git_service enc d answer st) repo call body = Some (Ok ()))))"
proof (cases "\<exists>repo ending query pubkey mapping body. route_target call route = Ok (repo, ending, query) \<and>
    hex_decode (gs_crypto st) (nr_pubkey repo) = Some pubkey \<and>
    mapping_by_repo enc pubkey (nr_identifier repo) d = Some mapping \<and> gc_body call = Ok body")
  case True
  then obtain repo ending query pubkey mapping body where target: "route_target call route = Ok (repo, ending, query)"
    and found: "hex_decode (gs_crypto st) (nr_pubkey repo) = Some pubkey"
      "mapping_by_repo enc pubkey (nr_identifier repo) d = Some mapping" "gc_body call = Ok body" by blast
  let ?st = "git_service enc d answer st"
  obtain a where a: "(case route of ReceivePack _ \<Rightarrow> authorize_receive_pack ?st repo call body | _ \<Rightarrow> Some (Ok ())) = Some a"
    using authorize_on_directory(1) by (cases route) fastforce+
  have "handle_git_route ?st route call log = Some (st_then (a, log) (\<lambda>_ w.
      st_map_err GitUpstream (gs_send ?st (forwarded st call (upstream_url_of (gs_upstream_url st) mapping ending query) body) w)))"
    by (simp add: handle_git_route_def target resolve_mapping_def found a forwarded_def)
  then show ?thesis
    using target found a by (cases a) auto
next
  case False
  then show ?thesis
    by (auto simp: handle_git_route_def resolve_mapping_def ok_or_def and_then_def map_err_def
        split: sum.splits option.splits prod.splits)
qed

text \<open>
  C9: The gate of a push. Every request gets an answer, and at most one request goes upstream, without the credentials
  and the host of the caller, to the repository that the path names. A push goes upstream exactly when the
  repository has a place on Forgejo, the body was read, and the request is signed, for this body, by the owner or by
  somebody whom the latest announcements name as maintainer, directly or through other maintainers; where one of
  those names is not a key, nobody can push.\<close>

theorem push_gate:
  assumes "call_route (gs_bech32 st) call = ReceivePack repo"
  shows "\<exists>r log'. git_handler (git_service enc d answer st) call log = Some (r, log') \<and>
    (log' = log \<or> (\<exists>q key mapping. log' = log @ [q] \<and> uq_headers q ''authorization'' = [] \<and> uq_headers q ''host'' = [] \<and>
       hex_decode (gs_crypto st) (nr_pubkey repo) = Some key \<and> mapping_by_repo enc key (nr_identifier repo) d = Some mapping \<and>
       uq_url q = gs_upstream_url st @ ''/'' @ forgejo_full_name mapping @ ''.git/git-receive-pack'')) \<and>
    (log' \<noteq> log \<longleftrightarrow>
       (\<exists>body auth key mapping. gc_body call = Ok body \<and> push_signer st call body = Ok auth \<and>
          hex_decode (gs_crypto st) (nr_pubkey repo) = Some key \<and>
          mapping_by_repo enc key (nr_identifier repo) d = Some mapping \<and>
          may_push enc (hex_decode (gs_crypto st)) d repo (to_ascii_lowercase (na_pubkey auth)) \<and>
          (\<forall>p. may_push enc (hex_decode (gs_crypto st)) d repo p \<longrightarrow> hex_decode (gs_crypto st) p \<noteq> None)))"
proof -
  let ?st = "git_service enc d answer st" and ?dec = "hex_decode (gs_crypto st)"
  obtain r where r: "git_handler ?st call log = Some r" and out: "snd r = log \<or>
     (\<exists>pubkey mapping body. ?dec (nr_pubkey repo) = Some pubkey \<and>
        mapping_by_repo enc pubkey (nr_identifier repo) d = Some mapping \<and> gc_body call = Ok body \<and>
        snd r = log @ [forwarded st call (upstream_url_of (gs_upstream_url st) mapping ''/git-receive-pack'' None) body] \<and>
        authorize_receive_pack ?st repo call body = Some (Ok ()))"
    using handle_on_directory [of enc d answer st "ReceivePack repo" call log] assms by (auto simp: git_handler_def)
  have sent: "snd r \<noteq> log" if "gc_body call = Ok body" "authorize_receive_pack ?st repo call body = Some (Ok ())"
      "?dec (nr_pubkey repo) = Some key" "mapping_by_repo enc key (nr_identifier repo) d = Some mapping" for body key mapping
    using r that assms by (auto simp: git_handler_def handle_git_route_def resolve_mapping_def st_map_err_def)
  note auth = authorize_on_directory(2) [OF refl, of enc d answer st repo call]
  have "snd r \<noteq> log \<longleftrightarrow> (\<exists>body auth key mapping. gc_body call = Ok body \<and> push_signer st call body = Ok auth \<and>
      ?dec (nr_pubkey repo) = Some key \<and> mapping_by_repo enc key (nr_identifier repo) d = Some mapping \<and>
      may_push enc ?dec d repo (to_ascii_lowercase (na_pubkey auth)) \<and> (\<forall>p. may_push enc ?dec d repo p \<longrightarrow> ?dec p \<noteq> None))"
    using out sent unfolding auth by blast
  moreover have "snd r = log \<or> (\<exists>q key mapping. snd r = log @ [q] \<and> uq_headers q ''authorization'' = [] \<and> uq_headers q ''host'' = [] \<and>
      ?dec (nr_pubkey repo) = Some key \<and> mapping_by_repo enc key (nr_identifier repo) d = Some mapping \<and>
      uq_url q = gs_upstream_url st @ ''/'' @ forgejo_full_name mapping @ ''.git/git-receive-pack'')"
    using out by (auto simp: forwarded_def upstream_url_of_def forgejo_full_name_def)
  ultimately show ?thesis using r by (intro exI [of _ "fst r"] exI [of _ "snd r"]) simp
qed

lemma asked_iff_may_push:
  assumes "to_ascii_lowercase (nr_pubkey repo) = nr_pubkey repo"
    and "\<And>p i a q. latest_announcement enc p i d = Some a \<Longrightarrow> q \<in> set (rr_maintainers a) \<Longrightarrow> to_ascii_lowercase q = q"
  shows "asked (memory_find enc dec d (nr_identifier repo)) (nr_pubkey repo) p \<longleftrightarrow> may_push enc dec d repo p"
proof
  let ?find = "memory_find enc dec d (nr_identifier repo)" and ?named = "directory_named enc dec d (nr_identifier repo)"
  show "may_push enc dec d repo p" if "asked ?find (nr_pubkey repo) p"
    using that
  proof induction
    case asked_root
    then show ?case using maintainer_of.owner [of ?named "nr_pubkey repo"] assms(1) by simp
  next
    case (asked_step p a q)
    then obtain b where b: "dec p = Some b" "latest_announcement enc b (nr_identifier repo) d = Some a"
      by (auto simp: memory_find_iff)
    then have "?named p = Ok (map to_ascii_lowercase (rr_maintainers a))" by (simp add: directory_named_iff)
    moreover have "q \<in> set (map to_ascii_lowercase (rr_maintainers a))" using assms(2) [OF b(2) asked_step(3)] asked_step(3) by force
    ultimately show ?case using maintainer_of.names asked_step.IH by blast
  qed
  show "asked ?find (nr_pubkey repo) p" if "may_push enc dec d repo p"
    using that
  proof induction
    case owner
    then show ?case using asked_root assms(1) by simp
  next
    case (names p ms q)
    then obtain b a where b: "dec p = Some b" "latest_announcement enc b (nr_identifier repo) d = Some a"
      and "q \<in> to_ascii_lowercase ` set (rr_maintainers a)"
      by (auto simp: directory_named_iff split: option.splits)
    then have "q \<in> set (rr_maintainers a)" using assms(2) [OF b(2)] by force
    moreover have "?find p = Ok (Some a)" using b by (auto simp: memory_find_iff)
    ultimately show ?case using asked_step names.IH by blast
  qed
qed


section \<open>Routes\<close>

lemma split_repo_segments_plain:
  assumes "CHR ''/'' \<notin> set npub" and "CHR ''/'' \<notin> set name" and "npub \<noteq> []" and "name \<noteq> []"
    and "filter (\<lambda>s. s \<noteq> []) (str_split tail CHR ''/'') = rest" and "rest \<noteq> []"
  shows "split_repo_segments (''/'' @ npub @ ''/'' @ name @ ''/'' @ tail) = Some (npub, name, rest)"
proof -
  have "trim_start_char CHR ''/'' (''/'' @ npub @ ''/'' @ name @ ''/'' @ tail) = npub @ ''/'' @ name @ ''/'' @ tail"
    using assms(1,3) by (cases npub) (auto simp: trim_start_char_def)
  moreover have "str_split (npub @ ''/'' @ name @ ''/'' @ tail) CHR ''/'' = [npub, name] @ str_split tail CHR ''/''"
    using assms(1,2) by (simp add: str_split_sep_append str_split_no_sep)
  ultimately show ?thesis using assms(3-6) by (simp add: split_repo_segments_def)
qed

lemma split_repo_segments_parts:
  assumes "split_repo_segments path = Some (npub, name, rest)"
  shows "CHR ''/'' \<notin> set npub" and "CHR ''/'' \<notin> set name" and "npub \<noteq> []" and "name \<noteq> []"
proof -
  have "npub # name # rest = filter (\<lambda>s. s \<noteq> []) (str_split (trim_start_char CHR ''/'' path) CHR ''/'')"
    using assms by (auto simp: split_repo_segments_def split: list.splits if_splits)
  then have "set (npub # name # rest) \<subseteq> {s \<in> set (str_split (trim_start_char CHR ''/'' path) CHR ''/''). s \<noteq> []}"
    by (metis set_filter subset_refl)
  then show "CHR ''/'' \<notin> set npub" "CHR ''/'' \<notin> set name" "npub \<noteq> []" "name \<noteq> []"
    using str_split_parts by fastforce+
qed

lemma normalize_repo_path_Ok:
  assumes "normalize_repo_path bech32 npub name = Ok repo"
    and "CHR ''/'' \<notin> set npub" "CHR ''/'' \<notin> set name" "npub \<noteq> []" and "ends_with name ''.git''"
  shows "nr_canonical_path repo = ''/'' @ npub @ ''/'' @ name" and "is_hex_len (nr_pubkey repo) 64"
proof -
  from assms(5) obtain ident where ident: "name = ident @ ''.git''" by (auto simp: ends_with_def suffix_def)
  have path: "path_join (path_join ''/'' npub) name = ''/'' @ npub @ ''/'' @ name"
  proof -
    have "\<not> starts_with npub ''/''" "\<not> starts_with name ''/''"
      using assms(2,3) by (auto simp: starts_with_def prefix_def)
    moreover have "last npub \<noteq> CHR ''/''" using assms(2,4) last_in_set by metis
    ultimately show ?thesis using assms(4) by (simp add: path_join_def)
  qed
  have "part_component name = Some (Normal name)" by (auto simp: part_component_def ident append_eq_Cons_conv)
  then have comps: "path_components (''/'' @ npub @ ''/'' @ name) =
      RootDir # (case part_component npub of None \<Rightarrow> [] | Some c \<Rightarrow> [c]) @ [Normal name]"
    using assms(2,3) str_split_sep_append [of "[]" "CHR ''/''" "npub @ ''/'' @ name"]
    by (simp add: path_components_def starts_with_def str_split_sep_append str_split_no_sep part_component_def [of "[]"]
        split: option.split)
  from assms(1) obtain parsed where parsed: "parse_repo_path bech32 (''/'' @ npub @ ''/'' @ name) = Ok parsed"
    and repo: "nr_canonical_path repo = ''/'' @ rp_npub parsed @ ''/'' @ rp_identifier parsed @ ''.git''"
      "nr_pubkey repo = rp_pubkey parsed"
    by (auto simp: normalize_repo_path_def path result_simps)
  have stripped: "strip_suffix name ''.git'' = Some ident" by (simp add: strip_suffix_def suffix_def ident)
  from parsed [unfolded parse_repo_path_def comps] have "rp_npub parsed = npub \<and> rp_identifier parsed = ident \<and> decode_npub_pubkey bech32 npub = Ok (rp_pubkey parsed)"
    by (auto simp: path_file_name_def path_parent_def os_to_str_def stripped Let_def result_simps
        part_component_def bind_eq_Some_conv split: if_splits)
  then show "nr_canonical_path repo = ''/'' @ npub @ ''/'' @ name" "is_hex_len (nr_pubkey repo) 64"
    using decode_npub_hex [of bech32 npub "rp_pubkey parsed"] repo ident by simp_all
qed

fun route_repo :: "git_http_route \<Rightarrow> normalized_repo option" where
  "route_repo (InfoRefs repo service) = Some repo"
| "route_repo (UploadPack repo) = Some repo"
| "route_repo (ReceivePack repo) = Some repo"
| "route_repo RouteNotFound = None"

text \<open>
  The canonical path of a repository leads back to it: whatever path a repository was reached by, with repeated
  slashes or not, below its canonical path the service offers exactly the three operations of git on that same
  repository, whose key has 64 hexadecimal digits.\<close>

theorem canonical_path_routes_back:
  assumes "route_repo (route_request bech32 request) = Some repo"
  shows "route_request bech32 \<lparr>gq_method = ''POST'', gq_path = nr_canonical_path repo @ ''/git-receive-pack'', gq_query = query\<rparr> =
      ReceivePack repo \<and>
    route_request bech32 \<lparr>gq_method = ''POST'', gq_path = nr_canonical_path repo @ ''/git-upload-pack'', gq_query = query\<rparr> =
      UploadPack repo \<and>
    route_request bech32 \<lparr>gq_method = ''GET'', gq_path = nr_canonical_path repo @ ''/info/refs'',
      gq_query = Some ''service=git-upload-pack''\<rparr> = InfoRefs repo ServiceUploadPack \<and>
    is_hex_len (nr_pubkey repo) 64"
proof -
  from assms obtain npub name rest where split: "split_repo_segments (gq_path request) = Some (npub, name, rest)"
    and git: "ends_with name ''.git''" and norm: "normalize_repo_path bech32 npub name = Ok repo"
    by (auto simp: route_request_def split: option.splits prod.splits if_splits sum.splits)
  note parts = split_repo_segments_parts [OF split]
  note repo = normalize_repo_path_Ok [OF norm parts(1-3) git]
  have path: "split_repo_segments (nr_canonical_path repo @ ''/'' @ tail) = Some (npub, name, rest')"
    if "filter (\<lambda>s. s \<noteq> []) (str_split tail CHR ''/'') = rest'" "rest' \<noteq> []" for tail rest'
    using split_repo_segments_plain [OF parts that] by (simp add: repo(1))
  have "is_post ''POST''" "is_get ''GET''" "\<not> is_get ''POST''" by (code_simp)+
  moreover have "parse_service (Some ''service=git-upload-pack'') = Ok ServiceUploadPack" by code_simp
  ultimately show ?thesis
    using path [of "''git-receive-pack''"] path [of "''git-upload-pack''"] path [of "''info/refs''"] git norm repo(2)
    by (simp add: route_request_def)
qed

section \<open>A sample push\<close>

definition sample_git_call :: "string git_call" where
  "sample_git_call =
     \<lparr>gc_method = ''POST'', gc_path = ''//npub1x/r.git/git-receive-pack'', gc_query = None,
      gc_headers = (\<lambda>name. if name = ''authorization'' then [''Nostr x''] else if name = ''host'' then [''g''] else []),
      gc_body = Ok [1], gc_now = 30\<rparr>"

definition sample_git_state :: "(string, string upstream_request list) git_http_state" where
  "sample_git_state =
     \<lparr>gs_auth = \<lparr>ac_email_domain = ''g'', ac_max_skew_seconds = 60\<rparr>,
      gs_mapping_by_repo = (\<lambda>_ _. Ok None), gs_latest_announcement = (\<lambda>_ _. Ok None),
      gs_send = (\<lambda>_ log. (Err [], log)), gs_upstream_url = ''http://f'',
      gs_bech32 = (\<lambda>_. Some (''npub'', sample_key)), gs_crypto = toy_auth_crypto, gs_xonly = (\<lambda>_. True),
      gs_to_str = Some, gs_base64 = (\<lambda>_. Some []),
      gs_event = (\<lambda>_. Some (sample_auth_event ''http://g//npub1x/r.git/git-receive-pack''))\<rparr>"

definition sample_git_repo :: normalized_repo where
  "sample_git_repo =
     \<lparr>nr_npub = ''npub1x'', nr_identifier = ''r'', nr_canonical_path = ''/npub1x/r.git'', nr_pubkey = bytes_to_hex sample_key\<rparr>"

definition sample_git_mapping :: repo_mapping_record where
  "sample_git_mapping = \<lparr>mp_forgejo_owner = ''o'', mp_forgejo_repo = ''r'', mp_pubkey = sample_key, mp_identifier = ''r''\<rparr>"

lemma sample_git_route: "call_route (gs_bech32 sample_git_state) sample_git_call = ReceivePack sample_git_repo"
proof -
  have "split_repo_segments ''//npub1x/r.git/git-receive-pack'' = Some (''npub1x'', ''r.git'', [''git-receive-pack''])"
    by code_simp
  moreover have "normalize_repo_path (\<lambda>_. Some (''npub'', sample_key)) ''npub1x'' ''r.git'' = Ok sample_git_repo"
  proof -
    have "\<not> blank ''r''" by (rule not_blank_lead) simp_all
    moreover have "valid_utf8 ''npub1x''" "valid_utf8 ''r''" by (simp_all add: valid_utf8_ascii is_ascii_def)
    ultimately have "parse_repo_path (\<lambda>_. Some (''npub'', sample_key)) ([] @ ''/'' @ ''npub1x'' @ ''/'' @ ''r'' @ ''.git'') =
        Ok \<lparr>rp_npub = ''npub1x'', rp_identifier = ''r'', rp_pubkey = bytes_to_hex sample_key\<rparr>"
      by (intro parse_repo_path_layout [THEN conjunct1]) simp_all
    moreover have "path_join (path_join ''/'' ''npub1x'') ''r.git'' = [] @ ''/'' @ ''npub1x'' @ ''/'' @ ''r'' @ ''.git''"
      by code_simp
    ultimately show ?thesis by (simp only: normalize_repo_path_def) (simp add: sample_git_repo_def)
  qed
  moreover have "ends_with ''r.git'' ''.git''" "is_post ''POST''" "\<not> is_get ''POST''" by code_simp+
  ultimately show ?thesis by (simp add: route_request_def sample_git_call_def sample_git_state_def)
qed

lemma sample_push_signer:
  "push_signer sample_git_state sample_git_call [1] =
   Ok \<lparr>na_pubkey = bytes_to_hex sample_key, na_pubkey_bytes = sample_key, na_event_id = bytes_to_hex (replicate 32 0)\<rparr>"
proof -
  have "trim ''Nostr x'' = ''Nostr x''" by (rule trim_plain_ends) simp_all
  then have event: "git_nostr_auth sample_git_state (gc_headers sample_git_call) = Ok (sample_auth_event ''http://g//npub1x/r.git/git-receive-pack'')"
    by (simp add: git_nostr_auth_def header_get_def sample_git_call_def strip_prefix_def sample_git_state_def)
  have url: "git_request_url sample_git_state sample_git_call = Ok ''http://g//npub1x/r.git/git-receive-pack''"
    by (simp add: git_request_url_def header_get_def sample_git_call_def sample_git_state_def unwrap_or_def)
  have "is_hex_len (bytes_to_hex (replicate 32 0)) 64" "is_hex_len (bytes_to_hex sample_key) 64"
    "is_hex_len (bytes_to_hex (replicate 64 1)) 128"
    using bytes_to_hex_is_hex [of "replicate 32 0"] bytes_to_hex_is_hex [of sample_key]
      bytes_to_hex_is_hex [of "replicate 64 1"] by simp_all
  then show ?thesis
    unfolding push_signer_def event url
    by (simp add: validate_nip98_def require_hex_def auth_tag_value_def build_event_id_def verify_signature_def
        toy_auth_crypto_def hex_bytes.dec_enc sample_auth_event_def sample_git_call_def sample_git_state_def
        payload_hash_def as_i64_def)
qed

text \<open>The owner pushes; nobody has announced the repository.\<close>

abbreviation sample_git_directory :: in_memory_directory where
  "sample_git_directory \<equiv> upsert_mapping bytes_to_hex sample_git_mapping new_directory"

lemma sample_lower: "to_ascii_lowercase (bytes_to_hex sample_key) = bytes_to_hex sample_key"
  using hex_bytes.enc_dec [OF hex_bytes.dec_enc, of sample_key] by simp

lemma sample_not_announced: "latest_announcement bytes_to_hex pk i sample_git_directory = None"
  by (simp add: latest_announcement_def list_announcements_def upsert_mapping_def new_directory_def records_at_def
      latest_by_None)

lemma sample_may_push:
  "may_push bytes_to_hex bytes_of_hex sample_git_directory sample_git_repo p \<longleftrightarrow> p = bytes_to_hex sample_key"
proof
  show "p = bytes_to_hex sample_key" if "may_push bytes_to_hex bytes_of_hex sample_git_directory sample_git_repo p"
    using that by induction (auto simp: sample_git_repo_def sample_lower named_maintainers_def sample_not_announced result_simps)
  show "may_push bytes_to_hex bytes_of_hex sample_git_directory sample_git_repo p" if "p = bytes_to_hex sample_key"
    using that maintainer_of.owner [where root = "bytes_to_hex sample_key"] by (simp add: sample_git_repo_def sample_lower)
qed

theorem push_gate_witness:
  "\<exists>r q. git_handler (git_service bytes_to_hex sample_git_directory (\<lambda>_. Err ''offline'') sample_git_state) sample_git_call [] =
      Some (r, [q]) \<and> uq_url q = ''http://f/o/r.git/git-receive-pack''"
proof -
  have crypto: "hex_decode (gs_crypto sample_git_state) = bytes_of_hex"
    by (simp add: sample_git_state_def toy_auth_crypto_def)
  have mapping: "mapping_by_repo bytes_to_hex sample_key (nr_identifier sample_git_repo) sample_git_directory = Some sample_git_mapping"
    by (simp add: mapping_by_repo_def upsert_mapping_def new_directory_def sample_git_mapping_def sample_git_repo_def)
  have body: "gc_body sample_git_call = Ok [1]" by (simp add: sample_git_call_def)
  have url: "gs_upstream_url sample_git_state = ''http://f''" by (simp add: sample_git_state_def)
  have key: "bytes_of_hex (nr_pubkey sample_git_repo) = Some sample_key"
    by (simp add: sample_git_repo_def hex_bytes.dec_enc)
  have "forgejo_full_name sample_git_mapping = ''o/r''" by (simp add: forgejo_full_name_def sample_git_mapping_def)
  then show ?thesis
    using push_gate [OF sample_git_route, of bytes_to_hex sample_git_directory "\<lambda>_. Err ''offline''" "[]"]
      sample_push_signer mapping body key
    unfolding crypto sample_may_push url by (auto simp: sample_lower hex_bytes.dec_enc)
qed


theorem canonical_path_routes_back_witness:
  "route_request (\<lambda>_. Some (''npub'', sample_key))
     \<lparr>gq_method = ''POST'', gq_path = ''/npub1x/r.git/git-upload-pack'', gq_query = None\<rparr> = UploadPack sample_git_repo"
proof -
  have "route_repo (call_route (gs_bech32 sample_git_state) sample_git_call) = Some sample_git_repo"
    by (simp only: sample_git_route route_repo.simps)
  from canonical_path_routes_back [OF this, of None] show ?thesis by (simp add: sample_git_repo_def sample_git_state_def)
qed

end
