(* ===== verification/Relay_Adapter.thy ===== *)
theory Relay_Adapter
  imports Coordinator Nostr_Auth Core_Compat Relay_Session_Safety
begin

text \<open>
  The client of a relay (\<open>crates/relay-adapter/src/lib.rs\<close>), which signs events, publishes them and tries a relay
  by writing and reading one, and the report on a relay (\<open>crates/relay-probe/src/lib.rs\<close>). The socket and the
  clocks are the operations of a record over the world behind them; keys, signatures, JSON text and URLs are
  parameters. A wait repeats until its time is over, so its result is an option, \<open>None\<close> for a wait without end; it
  is shown to end as long as the clock moves on with every message.
\<close>

section \<open>Settings and errors\<close>

text \<open>A duration and an instant of the monotonic clock are nanoseconds.\<close>

record relay_adapter_config =
  ra_relay_url :: string
  ra_timeout :: nat
  ra_secret_key :: "string option"

definition relay_adapter_config_new :: "string \<Rightarrow> relay_adapter_config" where
  "relay_adapter_config_new relay_url = \<lparr>ra_relay_url = relay_url, ra_timeout = 5 * 10 ^ 9, ra_secret_key = None\<rparr>"

definition with_timeout :: "nat \<Rightarrow> relay_adapter_config \<Rightarrow> relay_adapter_config" where
  "with_timeout timeout config = config\<lparr>ra_timeout := timeout\<rparr>"

definition with_secret_key :: "string \<Rightarrow> relay_adapter_config \<Rightarrow> relay_adapter_config" where
  "with_secret_key secret_key config = config\<lparr>ra_secret_key := Some secret_key\<rparr>"

datatype relay_adapter_error =
    AdapterUnsupported string
  | AdapterInvalidConfig string
  | AdapterTransport string
  | AdapterProtocol string

fun relay_adapter_error_display :: "relay_adapter_error \<Rightarrow> string" where
  "relay_adapter_error_display (AdapterUnsupported message) = ''unsupported: '' @ message"
| "relay_adapter_error_display (AdapterInvalidConfig message) = ''invalid config: '' @ message"
| "relay_adapter_error_display (AdapterTransport message) = ''transport error: '' @ message"
| "relay_adapter_error_display (AdapterProtocol message) = ''protocol error: '' @ message"

section \<open>Signed events\<close>

text \<open>
  What the adapter calls of other packages: \<open>ae_secret\<close> reads a secret key, \<open>ae_pubkey\<close> is the public key of a
  secret one, \<open>ae_from_str\<close> parses a text.\<close>

record adapter_env =
  ae_crypto :: crypto
  ae_secret :: "u8 list \<Rightarrow> (string, u8 list) result"
  ae_pubkey :: "u8 list \<Rightarrow> u8 list"
  ae_from_str :: "string \<Rightarrow> (string, json) result"
  ae_url :: url_parser

definition adapter_event_id :: "crypto \<Rightarrow> string \<Rightarrow> int \<Rightarrow> u32 \<Rightarrow> tag list \<Rightarrow> string \<Rightarrow> string" where
  "adapter_event_id cr pubkey created_at kind tags content =
     hex_encode cr (sha256 cr (json_text cr (id_payload pubkey created_at kind tags content)))"

definition sign_event_id :: "crypto \<Rightarrow> u8 list \<Rightarrow> string \<Rightarrow> (relay_adapter_error, string) result" where
  "sign_event_id cr secret_key event_id =
     and_then (ok_or (AdapterProtocol ''failed to decode event id'') (hex_decode cr event_id)) (\<lambda>bytes.
     and_then (ensure (length bytes = 32) (AdapterProtocol ''invalid event id'')) (\<lambda>_.
     Ok (hex_encode cr (sign_schnorr cr secret_key bytes))))"

definition signed_event ::
  "adapter_env \<Rightarrow> int \<Rightarrow> u32 \<Rightarrow> tag list \<Rightarrow> string \<Rightarrow> u8 list \<Rightarrow> (relay_adapter_error, signed_nostr_event) result" where
  "signed_event env created_at kind tags content secret_key =
     (let pubkey_hex = hex_encode (ae_crypto env) (ae_pubkey env secret_key);
          event_id = adapter_event_id (ae_crypto env) pubkey_hex created_at kind tags content
      in and_then (sign_event_id (ae_crypto env) secret_key event_id) (\<lambda>sig.
         Ok \<lparr>sn_id = event_id, sn_pubkey = pubkey_hex, sn_created_at = created_at, sn_kind = kind, sn_tags = tags,
             sn_content = content, sn_sig = sig\<rparr>))"

definition from_announcement_with_created_at ::
  "adapter_env \<Rightarrow> repo_announcement \<Rightarrow> u8 list \<Rightarrow> int \<Rightarrow> (relay_adapter_error, signed_nostr_event) result" where
  "from_announcement_with_created_at env announcement secret_key created_at =
     and_then (map_err (\<lambda>err. AdapterInvalidConfig (core_error_display err)) (announcement_validate announcement)) (\<lambda>_.
     signed_event env created_at (kind_value KIND_GIT_REPO_ANNOUNCEMENT) (announcement_to_tags announcement) [] secret_key)"

text \<open>The event as the relay reads it.\<close>

definition event_of_signed :: "signed_nostr_event \<Rightarrow> event" where
  "event_of_signed e =
     \<lparr>ev_id = sn_id e, ev_pubkey = sn_pubkey e, ev_created_at = sn_created_at e, ev_kind = sn_kind e,
      ev_tags = sn_tags e, ev_content = sn_content e, ev_sig = sn_sig e\<rparr>"

text \<open>A value of \<open>serde_json\<close> keeps the keys of an object in order.\<close>

definition signed_event_json :: "signed_nostr_event \<Rightarrow> json" where
  "signed_event_json e =
     JObject [(''content'', JString (sn_content e)), (''created_at'', JInt (sn_created_at e)), (''id'', JString (sn_id e)),
       (''kind'', JInt (uint (sn_kind e))), (''pubkey'', JString (sn_pubkey e)), (''sig'', JString (sn_sig e)),
       (''tags'', JArray (map (\<lambda>tag. JArray (map JString tag)) (sn_tags e)))]"

section \<open>The connection\<close>

datatype adapter_message = WsText string | WsOther

text \<open>What waiting for the next message gives: the time is over, the relay closed, an error, a message.\<close>

datatype ws_read = ReadElapsed | ReadClosed | ReadFailed string | ReadMessage adapter_message

record 'w relay_link =
  ln_connect :: "url \<Rightarrow> 'w \<Rightarrow> (string, unit, 'w) st_result"
  ln_send :: "string \<Rightarrow> 'w \<Rightarrow> (string, unit, 'w) st_result"
  ln_next :: "nat \<Rightarrow> 'w \<Rightarrow> ws_read \<times> 'w"
  ln_instant :: "'w \<Rightarrow> nat"
  ln_unix :: "'w \<Rightarrow> int"
  ln_random_secret :: "'w \<Rightarrow> u8 list \<times> 'w"

definition normalize_ws_url :: "url_parser \<Rightarrow> string \<Rightarrow> (relay_adapter_error, url) result" where
  "normalize_ws_url url_parse input =
     and_then (ok_or (AdapterInvalidConfig ''invalid relay url'') (url_parse input)) (\<lambda>u.
     if url_scheme u = ''wss'' \<or> url_scheme u = ''ws'' then Ok u
     else if url_scheme u = ''https'' then Ok (u\<lparr>url_scheme := ''wss''\<rparr>)
     else if url_scheme u = ''http'' then Ok (u\<lparr>url_scheme := ''ws''\<rparr>)
     else Err (AdapterInvalidConfig ''unsupported relay scheme''))"

definition load_secret_key ::
  "adapter_env \<Rightarrow> 'w relay_link \<Rightarrow> relay_adapter_config \<Rightarrow> 'w \<Rightarrow> (relay_adapter_error, u8 list, 'w) st_result" where
  "load_secret_key env link config w =
     (case ra_secret_key config of
        Some hex_key \<Rightarrow>
          (and_then (ok_or (AdapterInvalidConfig ''secret key must be hex'') (hex_decode (ae_crypto env) hex_key)) (\<lambda>bytes.
           map_err (\<lambda>err. AdapterInvalidConfig (''invalid secret key: '' @ err)) (ae_secret env bytes)), w)
      | None \<Rightarrow> (case ln_random_secret link w of (secret, w) \<Rightarrow> (Ok secret, w)))"

section \<open>The messages of a relay\<close>

text \<open>The items of a text that is an array which starts with the given word and has as many items.\<close>

definition message_items ::
  "adapter_env \<Rightarrow> string \<Rightarrow> nat \<Rightarrow> adapter_message \<Rightarrow> (relay_adapter_error, json list option) result" where
  "message_items env kind least message =
     (case message of
        WsOther \<Rightarrow> Ok None
      | WsText body \<Rightarrow>
          and_then (map_err AdapterProtocol (ae_from_str env body)) (\<lambda>v.
          Ok (case as_array v of
                None \<Rightarrow> None
              | Some items \<Rightarrow>
                  (if length items < least \<or> Option.bind (item items 0) as_str \<noteq> Some kind then None else Some items))))"

fun as_bool :: "json \<Rightarrow> bool option" where
  "as_bool (JBool b) = Some b"
| "as_bool _ = None"

definition item_text :: "json list \<Rightarrow> nat \<Rightarrow> string" where
  "item_text items i = unwrap_or (Option.bind (item items i) as_str) []"

definition parse_ok_message ::
  "adapter_env \<Rightarrow> adapter_message \<Rightarrow> (relay_adapter_error, (string \<times> bool \<times> string option) option) result" where
  "parse_ok_message env message =
     and_then (message_items env ''OK'' 3 message) (\<lambda>found.
     Ok (map_option (\<lambda>items. (item_text items 1, unwrap_or (Option.bind (item items 2) as_bool) False,
       Option.bind (item items 3) as_str)) found))"

definition parse_event_message ::
  "adapter_env \<Rightarrow> adapter_message \<Rightarrow> (relay_adapter_error, (string \<times> json) option) result" where
  "parse_event_message env message =
     and_then (message_items env ''EVENT'' 3 message) (\<lambda>found.
     Ok (map_option (\<lambda>items. (item_text items 1, items ! 2)) found))"

definition parse_eose_message :: "adapter_env \<Rightarrow> adapter_message \<Rightarrow> (relay_adapter_error, string option) result" where
  "parse_eose_message env message =
     and_then (message_items env ''EOSE'' 2 message) (\<lambda>found. Ok (map_option (\<lambda>items. item_text items 1) found))"

text \<open>The identifier in an event of the relay, \<open>event.get("id").and_then(as_str)\<close>.\<close>

definition event_json_id :: "json \<Rightarrow> string option" where
  "event_json_id v = Option.bind (as_object v) (\<lambda>entries. Option.bind (map_of entries ''id'') as_str)"

section \<open>Waiting\<close>

text \<open>
  What a message says to the one who waits: nothing yet, or how the wait ends.\<close>

definition ok_verdict :: "adapter_env \<Rightarrow> string \<Rightarrow> adapter_message \<Rightarrow> (relay_adapter_error, unit) result option" where
  "ok_verdict env event_id message =
     (case parse_ok_message env message of
        Inl err \<Rightarrow> Some (Err err)
      | Inr None \<Rightarrow> None
      | Inr (Some (ok_id, ok, reason)) \<Rightarrow>
          (if ok_id \<noteq> event_id then None
           else if ok then Some (Ok ())
           else Some (Err (AdapterProtocol (''event rejected: '' @ unwrap_or reason ''unknown'')))))"

definition event_verdict ::
  "adapter_env \<Rightarrow> string \<Rightarrow> string \<Rightarrow> adapter_message \<Rightarrow> (relay_adapter_error, unit) result option" where
  "event_verdict env sub_id event_id message =
     (case parse_event_message env message of
        Inl err \<Rightarrow> Some (Err err)
      | Inr (Some (event_sub_id, event)) \<Rightarrow>
          (if event_sub_id \<noteq> sub_id then None
           else if event_json_id event = Some event_id then Some (Ok ())
           else (if parse_eose_message env message = Ok (Some sub_id)
                 then Some (Err (AdapterProtocol ''probe event not found'')) else None))
      | Inr None \<Rightarrow>
          (if parse_eose_message env message = Ok (Some sub_id)
           then Some (Err (AdapterProtocol ''probe event not found'')) else None))"

text \<open>The loop that both waits share: it reads the clock, waits for the time left and looks at the message.\<close>

partial_function (option) relay_wait_loop ::
  "'w relay_link \<Rightarrow> relay_adapter_error \<Rightarrow> (adapter_message \<Rightarrow> (relay_adapter_error, unit) result option) \<Rightarrow> nat \<Rightarrow> 'w \<Rightarrow>
   (relay_adapter_error, unit, 'w) st_result option" where
  "relay_wait_loop link late verdict deadline w =
     (let remaining = deadline - ln_instant link w in
      if remaining = 0 then Some (Err late, w)
      else case ln_next link remaining w of
        (ReadElapsed, w) \<Rightarrow> Some (Err late, w)
      | (ReadClosed, w) \<Rightarrow> Some (Err (AdapterTransport ''relay closed''), w)
      | (ReadFailed err, w) \<Rightarrow> Some (Err (AdapterTransport err), w)
      | (ReadMessage message, w) \<Rightarrow>
          (case verdict message of Some r \<Rightarrow> Some (r, w) | None \<Rightarrow> relay_wait_loop link late verdict deadline w))"

definition wait_for_ok ::
  "adapter_env \<Rightarrow> 'w relay_link \<Rightarrow> string \<Rightarrow> nat \<Rightarrow> 'w \<Rightarrow> (relay_adapter_error, unit, 'w) st_result option" where
  "wait_for_ok env link event_id timeout w =
     relay_wait_loop link (AdapterTransport ''probe ok timeout'') (ok_verdict env event_id) (ln_instant link w + timeout) w"

definition wait_for_event ::
  "adapter_env \<Rightarrow> 'w relay_link \<Rightarrow> string \<Rightarrow> string \<Rightarrow> nat \<Rightarrow> 'w \<Rightarrow> (relay_adapter_error, unit, 'w) st_result option" where
  "wait_for_event env link sub_id event_id timeout w =
     relay_wait_loop link (AdapterTransport ''probe event timeout'') (event_verdict env sub_id event_id)
       (ln_instant link w + timeout) w"

section \<open>Publishing and trying a relay\<close>

definition opt_then ::
  "('e, 'a, 's) st_result option \<Rightarrow> ('a \<Rightarrow> 's \<Rightarrow> ('e, 'b, 's) st_result option) \<Rightarrow> ('e, 'b, 's) st_result option" where
  "opt_then r f =
     (case r of None \<Rightarrow> None | Some (Inl e, s) \<Rightarrow> Some (Inl e, s) | Some (Inr x, s) \<Rightarrow> f x s)"

definition over_socket ::
  "('w \<Rightarrow> (string, 'a, 'w) st_result) \<Rightarrow> 'w \<Rightarrow> (relay_adapter_error, 'a, 'w) st_result option" where
  "over_socket call w = Some (st_map_err AdapterTransport (call w))"

definition quoted :: "string \<Rightarrow> string" where
  "quoted s = [CHR 0x22] @ s @ [CHR 0x22]"

definition event_frame :: "crypto \<Rightarrow> signed_nostr_event \<Rightarrow> string" where
  "event_frame cr e = ''['' @ quoted ''EVENT'' @ '','' @ json_text cr (signed_event_json e) @ '']''"

definition publish_event ::
  "adapter_env \<Rightarrow> 'w relay_link \<Rightarrow> relay_adapter_config \<Rightarrow> signed_nostr_event \<Rightarrow> 'w \<Rightarrow>
   (relay_adapter_error, unit, 'w) st_result option" where
  "publish_event env link config event w =
     opt_then (Some (st_read (normalize_ws_url (ae_url env) (ra_relay_url config)) w)) (\<lambda>u w.
     opt_then (over_socket (ln_connect link u) w) (\<lambda>_ w.
     opt_then (over_socket (ln_send link (event_frame (ae_crypto env) event)) w) (\<lambda>_ w.
     wait_for_ok env link (sn_id event) (ra_timeout config) w)))"

definition probe_announcement :: "string \<Rightarrow> int \<Rightarrow> repo_announcement" where
  "probe_announcement relay_url now =
     (let ident = ''probe-'' @ show_int now in
      \<lparr>ann_identifier = ident, ann_name = Some ''gittree probe'', ann_description = None, ann_root_commit = None,
       ann_clone = [''https://example.invalid/'' @ ident @ ''.git''], ann_web = [], ann_relays = [relay_url],
       ann_blossoms = [], ann_hashtags = [], ann_maintainers = []\<rparr>)"

definition build_probe_event ::
  "adapter_env \<Rightarrow> string \<Rightarrow> u8 list \<Rightarrow> int \<Rightarrow> (relay_adapter_error, signed_nostr_event) result" where
  "build_probe_event env relay_url secret_key now =
     from_announcement_with_created_at env (probe_announcement relay_url now) secret_key now"

definition probe_sub_id :: "signed_nostr_event \<Rightarrow> string" where
  "probe_sub_id event = ''gittree-probe-'' @ take 8 (sn_id event)"

definition req_frame :: "crypto \<Rightarrow> string \<Rightarrow> string \<Rightarrow> string" where
  "req_frame cr sub_id event_id =
     ''['' @ quoted ''REQ'' @ '','' @ quoted sub_id @ '','' @ json_text cr (JObject [(''ids'', JArray [JString event_id])]) @ '']''"

definition close_frame :: "string \<Rightarrow> string" where
  "close_frame sub_id = ''['' @ quoted ''CLOSE'' @ '','' @ quoted sub_id @ '']''"

text \<open>The identifier is sliced at its eighth byte, which needs as many; the answer to the last frame is not looked at.\<close>

definition probe_write_read ::
  "adapter_env \<Rightarrow> 'w relay_link \<Rightarrow> relay_adapter_config \<Rightarrow> 'w \<Rightarrow> (relay_adapter_error, unit, 'w) st_result option" where
  "probe_write_read env link config w =
     opt_then (Some (st_read (normalize_ws_url (ae_url env) (ra_relay_url config)) w)) (\<lambda>u w.
     opt_then (over_socket (ln_connect link u) w) (\<lambda>_ w.
     opt_then (Some (load_secret_key env link config w)) (\<lambda>secret_key w.
     opt_then (Some (st_read (build_probe_event env (ra_relay_url config) secret_key (ln_unix link w)) w)) (\<lambda>event w.
     opt_then (over_socket (ln_send link (event_frame (ae_crypto env) event)) w) (\<lambda>_ w.
     opt_then (wait_for_ok env link (sn_id event) (ra_timeout config) w) (\<lambda>_ w.
     if length (sn_id event) < 8 then None
     else
     opt_then (over_socket (ln_send link (req_frame (ae_crypto env) (probe_sub_id event) (sn_id event))) w) (\<lambda>_ w.
     opt_then (wait_for_event env link (probe_sub_id event) (sn_id event) (ra_timeout config) w) (\<lambda>_ w.
     Some (Ok (), snd (ln_send link (close_frame (probe_sub_id event)) w))))))))))"

text \<open>The trait \<open>RelayAdapter\<close> and its three implementations; two of them only say that they are none.\<close>

record 'w relay_adapter =
  ad_relay_info :: "'w \<Rightarrow> (relay_adapter_error, relay_info_document option, 'w) st_result"
  ad_probe_write_read :: "'w \<Rightarrow> (relay_adapter_error, unit, 'w) st_result option"
  ad_publish_event :: "signed_nostr_event \<Rightarrow> 'w \<Rightarrow> (relay_adapter_error, unit, 'w) st_result option"

definition unsupported_adapter :: "string \<Rightarrow> 'w relay_adapter" where
  "unsupported_adapter message =
     \<lparr>ad_relay_info = (\<lambda>w. (Err (AdapterUnsupported message), w)),
      ad_probe_write_read = (\<lambda>w. Some (Err (AdapterUnsupported message), w)),
      ad_publish_event = (\<lambda>_ w. Some (Err (AdapterUnsupported message), w))\<rparr>"

definition nostr_rs_relay_adapter :: "'w relay_adapter" where
  "nostr_rs_relay_adapter = unsupported_adapter ''nostr-rs-relay adapter not enabled''"

definition webhook_relay_adapter :: "'w relay_adapter" where
  "webhook_relay_adapter = unsupported_adapter ''webhook adapter not configured''"

definition websocket_relay_adapter :: "adapter_env \<Rightarrow> 'w relay_link \<Rightarrow> relay_adapter_config \<Rightarrow> 'w relay_adapter" where
  "websocket_relay_adapter env link config =
     \<lparr>ad_relay_info = (\<lambda>w. (Ok None, w)), ad_probe_write_read = probe_write_read env link config,
      ad_publish_event = publish_event env link config\<rparr>"

section \<open>The report on a relay\<close>

datatype relay_probe_error = ProbeInvalidRelayUrl string | ProbeHttp string | ProbeParse string

fun relay_probe_error_display :: "relay_probe_error \<Rightarrow> string" where
  "relay_probe_error_display (ProbeInvalidRelayUrl v) = ''invalid relay url: '' @ v"
| "relay_probe_error_display (ProbeHttp message) = ''relay probe http error: '' @ message"
| "relay_probe_error_display (ProbeParse message) = ''relay probe parse error: '' @ message"

record active_probe_result =
  ap_ok :: bool
  ap_error :: "string option"

record relay_probe_result =
  rp_relay_url :: string
  rp_nip11_url :: "string option"
  rp_nip11_available :: bool
  rp_report :: compatibility_report
  rp_observed_capabilities :: "relay_capability list"
  rp_nip11 :: "relay_info_document option"
  rp_active_probe :: "active_probe_result option"
  rp_warnings :: "string list"

text \<open>
  The client that fetches the document, with what it uses of other packages: \<open>pc_send\<close> answers with the status and
  the text, \<open>pc_root\<close> is the text of an address with another scheme, the root path and nothing behind it.\<close>

record 'w probe_client =
  pc_send :: "string \<Rightarrow> 'w \<Rightarrow> (string, nat \<times> (string, string) result, 'w) st_result"
  pc_status_text :: "nat \<Rightarrow> string"
  pc_document :: "string \<Rightarrow> (string, relay_info_document) result"
  pc_url :: url_parser
  pc_root :: "string \<Rightarrow> string \<Rightarrow> string"

definition fetch_nip11 :: "'w probe_client \<Rightarrow> string \<Rightarrow> 'w \<Rightarrow> (relay_probe_error, string option, 'w) st_result" where
  "fetch_nip11 client address w =
     st_then (st_map_err ProbeHttp (pc_send client address w)) (\<lambda>(status, body) w.
     (if status = 404 then Ok None
      else if \<not> (200 \<le> status \<and> status < 300) then Err (ProbeHttp (''status '' @ pc_status_text client status))
      else map_err ProbeHttp (map_ok Some body), w))"

definition resolve_nip11_url :: "'w probe_client \<Rightarrow> string \<Rightarrow> (relay_probe_error, string) result" where
  "resolve_nip11_url client relay_url =
     and_then (ok_or (ProbeInvalidRelayUrl relay_url) (pc_url client relay_url)) (\<lambda>u.
     if url_scheme u = ''wss'' then Ok (pc_root client relay_url ''https'')
     else if url_scheme u = ''ws'' then Ok (pc_root client relay_url ''http'')
     else if url_scheme u = ''https'' \<or> url_scheme u = ''http'' then Ok (pc_root client relay_url (url_scheme u))
     else Err (ProbeInvalidRelayUrl relay_url))"

definition probe_relay ::
  "'w probe_client \<Rightarrow> string \<Rightarrow> 'w \<Rightarrow> (relay_probe_error, relay_probe_result, 'w) st_result" where
  "probe_relay client relay_url w =
     st_then (st_read (resolve_nip11_url client relay_url) w) (\<lambda>nip11_url w.
     st_then (fetch_nip11 client nip11_url w) (\<lambda>fetched w.
     st_then (st_read (case fetched of
         Some body \<Rightarrow> map_ok Some (map_err ProbeParse (pc_document client body))
       | None \<Rightarrow> Ok None) w) (\<lambda>nip11 w.
     let supported = (case nip11 of Some doc \<Rightarrow> capabilities_from_nip11 doc | None \<Rightarrow> [])
     in (Ok \<lparr>rp_relay_url = relay_url, rp_nip11_url = Some nip11_url, rp_nip11_available = (nip11 \<noteq> None),
             rp_report = capability_set_evaluate default_capability_set relay_url supported,
             rp_observed_capabilities = supported, rp_nip11 = nip11, rp_active_probe = None,
             rp_warnings = (if nip11 = None then [''nip-11 unavailable; falling back to active probes''] else [])\<rparr>, w))))"

definition probe_relay_with_adapter_result ::
  "'w relay_adapter \<Rightarrow> relay_probe_result \<Rightarrow> 'w \<Rightarrow> (relay_probe_result \<times> 'w) option" where
  "probe_relay_with_adapter_result adapter r w =
     (case ad_probe_write_read adapter w of
        None \<Rightarrow> None
      | Some (Inr _, w) \<Rightarrow>
          (let supported = merge_active_probe_evidence (rp_observed_capabilities r) True in
           Some (r\<lparr>rp_active_probe := Some \<lparr>ap_ok = True, ap_error = None\<rparr>,
             rp_report := capability_set_evaluate default_capability_set (rp_relay_url r) supported,
             rp_observed_capabilities := supported\<rparr>, w))
      | Some (Inl err, w) \<Rightarrow>
          Some (r\<lparr>rp_active_probe := Some \<lparr>ap_ok = False, ap_error = Some (relay_adapter_error_display err)\<rparr>,
            rp_observed_capabilities := merge_active_probe_evidence (rp_observed_capabilities r) False\<rparr>, w))"

definition probe_relay_with_adapter ::
  "'w probe_client \<Rightarrow> 'w relay_adapter \<Rightarrow> string \<Rightarrow> 'w \<Rightarrow> (relay_probe_error, relay_probe_result, 'w) st_result option" where
  "probe_relay_with_adapter client adapter relay_url w =
     (case probe_relay client relay_url w of
        (Inl err, w) \<Rightarrow> Some (Err err, w)
      | (Inr r, w) \<Rightarrow> map_option (\<lambda>(r, w). (Ok r, w)) (probe_relay_with_adapter_result adapter r w))"

section \<open>What signing gives\<close>

text \<open>
  What is relied on of the packages: hexadecimal text is read back, a hash has 32 bytes, and a signature and the key
  of a secret that \<open>ae_secret\<close> let through are read back and belong together.\<close>

definition signing_sound :: "adapter_env \<Rightarrow> bool" where
  "signing_sound env \<longleftrightarrow>
     (let cr = ae_crypto env in
      (\<forall>bs. hex_decode cr (hex_encode cr bs) = Some bs) \<and> (\<forall>x. length (sha256 cr x) = 32) \<and>
      (\<forall>bs secret digest. ae_secret env bs = Ok secret \<longrightarrow>
         parse_signature cr (hex_encode cr (sign_schnorr cr secret digest)) = Some (sign_schnorr cr secret digest) \<and>
         parse_xonly_key cr (hex_encode cr (ae_pubkey env secret)) = Some (ae_pubkey env secret) \<and>
         verify_schnorr cr (sign_schnorr cr secret digest) digest (ae_pubkey env secret)))"

lemma signed_event_accepted:
  assumes "signing_sound env" and "ae_secret env bs = Ok secret"
  shows "\<exists>e. signed_event env created_at kind tags content secret = Ok e \<and>
    sn_pubkey e = hex_encode (ae_crypto env) (ae_pubkey env secret) \<and> sn_created_at e = created_at \<and>
    sn_kind e = kind \<and> sn_tags e = tags \<and> sn_content e = content \<and>
    event_verify (ae_crypto env) (event_of_signed e) = Ok ()"
proof -
  define cr where "cr = ae_crypto env"
  define pk where "pk = hex_encode cr (ae_pubkey env secret)"
  define digest where "digest = sha256 cr (json_text cr (id_payload pk created_at kind tags content))"
  define e where "e = \<lparr>sn_id = hex_encode cr digest, sn_pubkey = pk, sn_created_at = created_at,
         sn_kind = kind, sn_tags = tags, sn_content = content, sn_sig = hex_encode cr (sign_schnorr cr secret digest)\<rparr>"
  have sound: "hex_decode cr (hex_encode cr digest) = Some digest" "length digest = 32"
    "parse_signature cr (hex_encode cr (sign_schnorr cr secret digest)) = Some (sign_schnorr cr secret digest)"
    "parse_xonly_key cr pk = Some (ae_pubkey env secret)"
    "verify_schnorr cr (sign_schnorr cr secret digest) digest (ae_pubkey env secret)"
    using assms unfolding signing_sound_def Let_def cr_def pk_def digest_def by auto
  have "signed_event env created_at kind tags content secret = Ok e"
    using sound(1,2)
    by (simp add: signed_event_def sign_event_id_def adapter_event_id_def e_def flip: cr_def pk_def digest_def)
  moreover have "sha256 cr (canonical_json cr (event_of_signed e)) = digest"
    by (simp add: canonical_json_def canonical_payload_def event_of_signed_def e_def digest_def id_payload_def)
  then have "event_verify cr (event_of_signed e) = Ok ()"
    using sound(3-5) by (simp add: event_verify_def Let_def) (simp add: event_of_signed_def e_def)
  ultimately show ?thesis unfolding cr_def [symmetric] by (intro exI [of _ e]) (simp add: e_def pk_def)
qed

section \<open>How a wait ends\<close>

locale moving_clock =
  fixes link :: "'w relay_link"
  assumes moves: "ln_next link remaining w = (ReadMessage message, w') \<Longrightarrow> ln_instant link w < ln_instant link w'"
begin

lemma relay_wait_ends: "\<exists>r. relay_wait_loop link late verdict deadline w = Some r"
proof (induction "deadline - ln_instant link w" arbitrary: w rule: less_induct)
  case less
  show ?case
  proof (cases "ln_next link (deadline - ln_instant link w) w")
    case step: (Pair read w')
    have "\<exists>r. relay_wait_loop link late verdict deadline w' = Some r"
      if "read = ReadMessage message" "deadline - ln_instant link w \<noteq> 0" for message
      using moves step that by (intro less) fastforce
    then show ?thesis
      unfolding relay_wait_loop.simps [of link late verdict deadline w] step Let_def
      by (cases read) (auto split: option.splits)
  qed
qed

lemma publish_ends: "\<exists>r. publish_event env link config event w = Some r"
proof -
  have "\<exists>r. opt_then x f = Some r" if "x \<noteq> None" "\<And>y v. \<exists>r. f y v = Some r" for x f
    using that by (fastforce simp: opt_then_def split: option.splits sum.splits prod.splits)
  note bound = this
  show ?thesis unfolding publish_event_def over_socket_def wait_for_ok_def
    by (intro bound relay_wait_ends) simp_all
qed

end

section \<open>Publishing at a relay of gittree\<close>

text \<open>
  The other end of a connection: a session of the relay. A frame is handled at once, the answers wait to be read, and
  reading one takes a moment. A session that never returned would not answer.\<close>

record ('s, 'm) relay_world =
  rw_session :: "('s, 'm) session"
  rw_queue :: "server_message list"
  rw_instant :: nat

definition session_link ::
  "session_env \<Rightarrow> 's store_ops \<Rightarrow> 'm membership_ops \<Rightarrow> call_inputs \<Rightarrow> (server_message \<Rightarrow> string) \<Rightarrow>
   ('s, 'm) relay_world relay_link" where
  "session_link senv ops mops inp to_text =
     \<lparr>ln_connect = (\<lambda>_ w. (Ok (), w)),
      ln_send = (\<lambda>frame w.
        (Ok (), case handle_raw senv ops mops inp frame (rw_session w) of
           None \<Rightarrow> w
         | Some (rs, s) \<Rightarrow> w\<lparr>rw_session := s, rw_queue := rw_queue w @ rs\<rparr>)),
      ln_next = (\<lambda>remaining w.
        case rw_queue w of
          [] \<Rightarrow> (ReadElapsed, w\<lparr>rw_instant := rw_instant w + remaining\<rparr>)
        | m # ms \<Rightarrow> (ReadMessage (WsText (to_text m)), w\<lparr>rw_queue := ms, rw_instant := rw_instant w + 1\<rparr>)),
      ln_instant = rw_instant, ln_unix = (\<lambda>w. in_now inp), ln_random_secret = (\<lambda>w. ([], w))\<rparr>"

lemma session_link_simps [simp]:
  "ln_connect (session_link senv ops mops inp to_text) = (\<lambda>_ w. (Ok (), w))"
  "ln_instant (session_link senv ops mops inp to_text) = rw_instant"
  "ln_next (session_link senv ops mops inp to_text) remaining w =
     (case rw_queue w of
        [] \<Rightarrow> (ReadElapsed, w\<lparr>rw_instant := rw_instant w + remaining\<rparr>)
      | m # ms \<Rightarrow> (ReadMessage (WsText (to_text m)), w\<lparr>rw_queue := ms, rw_instant := rw_instant w + 1\<rparr>))"
  by (simp_all add: session_link_def)

interpretation served: moving_clock "session_link senv ops mops inp to_text"
  by unfold_locales (auto split: list.splits)

text \<open>The first word of the relay on an event.\<close>

definition relay_answer :: "string \<Rightarrow> server_message list \<Rightarrow> (bool \<times> string) option" where
  "relay_answer event_id rs =
     find_map (\<lambda>m. case m of ServerOk i accepted reason \<Rightarrow> if i = event_id then Some (accepted, reason) else None
       | _ \<Rightarrow> None) rs"

definition answer_result :: "(bool \<times> string) option \<Rightarrow> (relay_adapter_error, unit) result" where
  "answer_result answer =
     (case answer of
        None \<Rightarrow> Err (AdapterTransport ''probe ok timeout'')
      | Some (accepted, reason) \<Rightarrow>
          (if accepted then Ok () else Err (AdapterProtocol (''event rejected: '' @ reason))))"

lemma ok_verdict_served:
  assumes "ae_from_str env shown = Ok (server_value m)"
  shows "ok_verdict env event_id (WsText shown) =
    (case m of ServerOk i accepted reason \<Rightarrow>
       if i = event_id then Some (answer_result (Some (accepted, reason))) else None
     | _ \<Rightarrow> None)"
  using assms
  by (cases m) (auto simp: ok_verdict_def parse_ok_message_def message_items_def item_def item_text_def
      unwrap_or_def answer_result_def)

lemma wait_served:
  assumes "\<forall>m \<in> set (rw_queue w). ae_from_str env (to_text m) = Ok (server_value m)"
    and "length (rw_queue w) < deadline - rw_instant w"
  shows "\<exists>w'. relay_wait_loop (session_link senv ops mops inp to_text) (AdapterTransport ''probe ok timeout'')
      (ok_verdict env event_id) deadline w = Some (answer_result (relay_answer event_id (rw_queue w)), w') \<and>
    rw_session w' = rw_session w"
  using assms
proof (induction "rw_queue w" arbitrary: w)
  case Nil
  then show ?case
    by (simp add: relay_wait_loop.simps [of _ _ _ _ w] relay_answer_def answer_result_def)
next
  case (Cons m ms)
  define w' where "w' = w\<lparr>rw_queue := ms, rw_instant := rw_instant w + 1\<rparr>"
  have printed: "ae_from_str env (to_text m) = Ok (server_value m)" using Cons.prems(1) Cons.hyps(2) [symmetric] by simp
  have IH: "\<exists>w''. relay_wait_loop (session_link senv ops mops inp to_text) (AdapterTransport ''probe ok timeout'')
      (ok_verdict env event_id) deadline w' = Some (answer_result (relay_answer event_id ms), w'') \<and>
    rw_session w'' = rw_session w"
    using Cons.hyps(1) [of w'] Cons.prems Cons.hyps(2) [symmetric] by (simp add: w'_def)
  have "relay_wait_loop (session_link senv ops mops inp to_text) (AdapterTransport ''probe ok timeout'')
      (ok_verdict env event_id) deadline w =
    (case ok_verdict env event_id (WsText (to_text m)) of Some r \<Rightarrow> Some (r, w')
     | None \<Rightarrow> relay_wait_loop (session_link senv ops mops inp to_text) (AdapterTransport ''probe ok timeout'')
      (ok_verdict env event_id) deadline w')"
    using Cons.prems(2) unfolding relay_wait_loop.simps [of _ _ _ _ w]
    by (auto simp: Cons.hyps(2) [symmetric] w'_def split: option.split)
  then show ?case
    using IH unfolding ok_verdict_served [OF printed] Cons.hyps(2) [symmetric]
    by (cases m) (auto simp: relay_answer_def w'_def)
qed

text \<open>
  C22: Publishing at a relay of gittree ends, and it reports what the relay said of this event: success exactly when
  the first of the relay's answers that names the event accepts it, the reason of a refusal, and otherwise -- where
  the relay only sends a notice, as it does for an event it cannot read or keep -- that no answer came in time.\<close>

theorem publish_follows_relay:
  assumes "normalize_ws_url (ae_url env) (ra_relay_url config) = Ok address"
    and "handle_raw senv ops mops inp (event_frame (ae_crypto env) event) s = Some (rs, s')"
    and "\<forall>m \<in> set rs. ae_from_str env (to_text m) = Ok (server_value m)"
    and "length rs < ra_timeout config"
  shows "\<exists>w'. publish_event env (session_link senv ops mops inp to_text) config event
      \<lparr>rw_session = s, rw_queue = [], rw_instant = start\<rparr> =
    Some (answer_result (relay_answer (sn_id event) rs), w') \<and> rw_session w' = s'"
proof -
  let ?link = "session_link senv ops mops inp to_text"
  let ?w = "\<lparr>rw_session = s', rw_queue = rs, rw_instant = start\<rparr>"
  have "publish_event env ?link config event \<lparr>rw_session = s, rw_queue = [], rw_instant = start\<rparr> =
    wait_for_ok env ?link (sn_id event) (ra_timeout config) ?w"
    using assms(1,2)
    by (simp add: publish_event_def opt_then_def st_read_def over_socket_def st_map_err_def)
      (simp add: session_link_def)
  then show ?thesis
    using wait_served [of ?w env to_text "start + ra_timeout config"] assms(3,4)
    by (simp add: wait_for_ok_def)
qed

text \<open>
  What the adapter signs, every relay that checks events accepts as signed by the key of the secret, and its tags
  are read back as the announcement. The announcement has to be valid and without repetitions.\<close>

theorem announced_event_verifies:
  assumes "signing_sound env" and "ae_secret env bs = Ok secret"
    and "announcement_validate a = Ok ()" and "announcement_wf a"
  shows "\<exists>e. from_announcement_with_created_at env a secret created_at = Ok e \<and>
    event_verify (ae_crypto env) (event_of_signed e) = Ok () \<and>
    sn_pubkey e = hex_encode (ae_crypto env) (ae_pubkey env secret) \<and> sn_created_at e = created_at \<and>
    sn_kind e = kind_value KIND_GIT_REPO_ANNOUNCEMENT \<and> announcement_from_tags (sn_tags e) = Ok a"
  using signed_event_accepted [OF assms(1,2), of created_at "kind_value KIND_GIT_REPO_ANNOUNCEMENT"
      "announcement_to_tags a" "[]"] announcement_round_trip [OF assms(4)] assms(3)
  by (auto simp: from_announcement_with_created_at_def)

text \<open>
  A report says that a relay is fit exactly when the try with an event succeeded or the relay's document lists
  NIP-01 and NIP-34; a relay without a document is fit only by a try. The try is recorded with its error.\<close>

theorem probe_report:
  assumes "probe_relay_with_adapter client adapter relay_url w = Some (Ok r, w')"
  shows "\<exists>ok. rp_active_probe r = Some ok \<and>
    (ap_ok ok \<longleftrightarrow> ad_probe_write_read adapter (snd (probe_relay client relay_url w)) = Some (Ok (), w')) \<and>
    (ap_ok ok \<longleftrightarrow> ap_error ok = None) \<and>
    (is_compatible (rp_report r) \<longleftrightarrow>
       ap_ok ok \<or> (\<exists>doc. rp_nip11 r = Some doc \<and> supports_nip doc 1 \<and> supports_nip doc 34)) \<and>
    (rp_nip11_available r \<longleftrightarrow> rp_nip11 r \<noteq> None) \<and> rp_relay_url r = relay_url"
proof -
  obtain r0 w1 where r0: "probe_relay client relay_url w = (Ok r0, w1)"
    and r: "probe_relay_with_adapter_result adapter r0 w1 = Some (r, w')"
    using assms by (auto simp: probe_relay_with_adapter_def split: prod.splits sum.splits)
  have fields: "rp_relay_url r0 = relay_url" "rp_nip11_available r0 = (rp_nip11 r0 \<noteq> None)"
    "rp_observed_capabilities r0 = (case rp_nip11 r0 of Some doc \<Rightarrow> capabilities_from_nip11 doc | None \<Rightarrow> [])"
    "rp_report r0 = capability_set_evaluate default_capability_set relay_url (rp_observed_capabilities r0)"
    using r0 by (auto simp: probe_relay_def st_then_Ok st_read_def Let_def split: sum.splits)
  have fit: "is_compatible (capability_set_evaluate default_capability_set u caps) \<longleftrightarrow> Nip01 \<in> set caps \<and> Nip34 \<in> set caps"
    for u caps
    by (auto simp: is_compatible_def capability_set_evaluate_def default_capability_set_def Let_def)
  have listed: "Nip01 \<in> set (rp_observed_capabilities r0) \<and> Nip34 \<in> set (rp_observed_capabilities r0) \<longleftrightarrow>
      (\<exists>doc. rp_nip11 r0 = Some doc \<and> supports_nip doc 1 \<and> supports_nip doc 34)"
    by (cases "rp_nip11 r0") (auto simp: fields(3) capabilities_from_nip11_def)
  show ?thesis
    using r fields listed
    by (intro exI [of _ "the (rp_active_probe r)"])
      (auto simp: r0 probe_relay_with_adapter_result_def Let_def fit merge_active_probe_evidence_def
        split: option.splits sum.splits prod.splits if_splits)
qed

section \<open>Samples\<close>

definition sample_adapter_crypto :: crypto where
  "sample_adapter_crypto = toy_auth_crypto\<lparr>parse_signature := bytes_of_hex, parse_xonly_key := bytes_of_hex\<rparr>"

definition sample_adapter_env :: adapter_env where
  "sample_adapter_env =
     \<lparr>ae_crypto = sample_adapter_crypto, ae_secret = Ok, ae_pubkey = (\<lambda>_. replicate 32 7),
      ae_from_str = (\<lambda>_. Ok (server_value (ServerOk (ev_id (sample_event 1)) True ''saved''))),
      ae_url = (\<lambda>_. Some \<lparr>url_scheme = ''wss'', url_host_str = Some ''r'', url_port = None, url_path = ''/''\<rparr>)\<rparr>"

lemma sample_adapter_sound: "signing_sound sample_adapter_env"
  by (simp add: signing_sound_def sample_adapter_env_def sample_adapter_crypto_def toy_auth_crypto_def hex_bytes.dec_enc)

lemma sample_publish_answer:
  fixes s0 :: "(memory_store, in_memory_memberships) session"
  assumes "s0 = session_new 0 memory_store_new"
  shows "\<exists>s. handle_raw (sample_env 1) memory_ops sample_mops sample_inputs (CHR ''['' # frame) s0 =
      Some ([ServerOk (ev_id (sample_event 1)) True ''saved''], s)"
proof -
  obtain s where s: "handle_message (sample_env 1) memory_ops sample_mops sample_inputs (ClientEvent JNull) s0 =
      Some (ServerOk (ev_id (sample_event 1)) True ''saved'' # dispatch_event (sample_env 1) (sample_event 1) s, s)"
    and none: "se_registry s = se_registry s0"
    using sample_saved [of s0 sample_mops] assms
    by (auto simp: session_new_def session_base_def rate_limit_config_from_policy_def default_policy_def)
  have "dispatch_event (sample_env 1) (sample_event 1) s = []"
    using tag_index_total [of "ev_tags (sample_event 1)"] sample_indexed [of 1] none assms
    by (auto simp: dispatch_event_def registry_iter_def session_new_def session_base_def)
  moreover have "decode_client_message (env_from_str (sample_env 1)) (CHR ''['' # frame) = Ok (ClientEvent JNull)"
    by (simp add: sample_env_def decode_client_message_def decode_client_value_def item_def)
  ultimately show ?thesis using s by (simp add: handle_raw_def)
qed

theorem publish_follows_relay_witness:
  "\<exists>w'. publish_event sample_adapter_env
      (session_link (sample_env 1) memory_ops sample_mops sample_inputs (\<lambda>_. []))
      (relay_adapter_config_new ''wss://r'')
      \<lparr>sn_id = ev_id (sample_event 1), sn_pubkey = ''k'', sn_created_at = 7, sn_kind = 1, sn_tags = [], sn_content = [],
       sn_sig = []\<rparr>
      \<lparr>rw_session = session_new 0 memory_store_new, rw_queue = [], rw_instant = 0\<rparr> = Some (Ok (), w')"
proof -
  let ?s0 = "session_new 0 memory_store_new :: (memory_store, in_memory_memberships) session"
  let ?e = "\<lparr>sn_id = ev_id (sample_event 1), sn_pubkey = ''k'', sn_created_at = 7, sn_kind = 1, sn_tags = [],
    sn_content = [], sn_sig = []\<rparr>"
  obtain s where s: "handle_raw (sample_env 1) memory_ops sample_mops sample_inputs
      (event_frame (ae_crypto sample_adapter_env) ?e) ?s0 = Some ([ServerOk (ev_id (sample_event 1)) True ''saved''], s)"
    using sample_publish_answer [OF refl] by (auto simp: event_frame_def)
  have "normalize_ws_url (ae_url sample_adapter_env) (ra_relay_url (relay_adapter_config_new ''wss://r'')) =
      Ok \<lparr>url_scheme = ''wss'', url_host_str = Some ''r'', url_port = None, url_path = ''/''\<rparr>"
    by (simp add: normalize_ws_url_def sample_adapter_env_def)
  from publish_follows_relay [OF this s, of "\<lambda>_. []" 0] show ?thesis
    by (auto simp: sample_adapter_env_def relay_adapter_config_new_def relay_answer_def answer_result_def)
qed

theorem announced_event_verifies_witness:
  "\<exists>e. from_announcement_with_created_at sample_adapter_env (probe_announcement ''wss://r'' 9) [1] 9 = Ok e \<and>
     announcement_from_tags (sn_tags e) = Ok (probe_announcement ''wss://r'' 9)"
proof -
  have "\<not> blank (CHR ''p'' # xs)" "\<not> blank (CHR ''h'' # xs)" "\<not> blank ''wss://r''" for xs
    by (rule not_blank_lead; simp)+
  then have "announcement_validate (probe_announcement ''wss://r'' 9) = Ok ()"
    by (simp add: announcement_validate_iff probe_announcement_def Let_def)
  moreover have "announcement_wf (probe_announcement ''wss://r'' 9)"
    by (simp add: announcement_wf_def probe_announcement_def Let_def)
  moreover have "ae_secret sample_adapter_env [1] = Ok [1]" by (simp add: sample_adapter_env_def)
  ultimately show ?thesis
    using announced_event_verifies [OF sample_adapter_sound, of "[1]" "[1]" "probe_announcement ''wss://r'' 9" 9] by blast
qed

theorem probe_report_witness:
  "\<exists>r. probe_relay_with_adapter
       \<lparr>pc_send = (\<lambda>_ w. (Ok (404, Ok []), w)), pc_status_text = (\<lambda>_. []), pc_document = (\<lambda>_. Err []),
        pc_url = ae_url sample_adapter_env, pc_root = (\<lambda>_ _. ''https://r/'')\<rparr>
       nostr_rs_relay_adapter ''wss://r'' () = Some (Ok r, ()) \<and> \<not> is_compatible (rp_report r)"
proof -
  let ?client = "\<lparr>pc_send = (\<lambda>_ w. (Ok (404, Ok []), w)), pc_status_text = (\<lambda>_. []), pc_document = (\<lambda>_. Err []),
        pc_url = ae_url sample_adapter_env, pc_root = (\<lambda>_ _. ''https://r/'')\<rparr>"
  obtain r where r: "probe_relay_with_adapter ?client nostr_rs_relay_adapter ''wss://r'' () = Some (Ok r, ())"
    and none: "rp_nip11 r = None"
    by (simp add: probe_relay_with_adapter_def probe_relay_def resolve_nip11_url_def sample_adapter_env_def
        fetch_nip11_def st_map_err_def probe_relay_with_adapter_result_def nostr_rs_relay_adapter_def unsupported_adapter_def Let_def)
  show ?thesis
    using probe_report [OF r] none r
    by (auto simp: nostr_rs_relay_adapter_def unsupported_adapter_def)
qed

end
