(* ===== verification/Relay_Server.thy ===== *)
theory Relay_Server
  imports Relay_Session_Safety Service_Settings Core_Compat Webhook Storage_Records Relay_Repo_Store
begin

text \<open>
  The relay around its sessions: the settings and the information document (\<open>services/relay/src/lib.rs\<close>), the
  choice of the tenant, the making of a session for a connection (\<open>server.rs\<close>) and the loop that drives it
  (\<open>driver.rs\<close>). All connections share the event store, the memberships and one broadcast channel. The system is a
  step relation: connections open and close, a session handles a frame or an event of the channel, and a slow one
  loses events of the channel. The sockets carry the messages unchanged and are left out.
\<close>

section \<open>Settings\<close>

datatype admission_config_error =
    AdmissionInvalidEndpoint string
  | AdmissionInvalidTimeout string
  | AdmissionInvalidFallback string

fun admission_config_error_display :: "admission_config_error \<Rightarrow> string" where
  "admission_config_error_display (AdmissionInvalidEndpoint v) = ''invalid admission endpoint: '' @ v"
| "admission_config_error_display (AdmissionInvalidTimeout v) = ''invalid admission timeout: '' @ v"
| "admission_config_error_display (AdmissionInvalidFallback v) = ''invalid admission fallback: '' @ v"

datatype relay_config_error =
    RelayConfigFailed config_error
  | RelayStorageFailed storage_config_error
  | RelayAdmissionFailed admission_config_error

fun relay_config_error_display :: "relay_config_error \<Rightarrow> string" where
  "relay_config_error_display (RelayConfigFailed err) = ''relay config error: '' @ config_error_display err"
| "relay_config_error_display (RelayStorageFailed err) = ''relay storage config error: '' @ storage_config_error_display err"
| "relay_config_error_display (RelayAdmissionFailed err) =
     ''relay admission config error: '' @ admission_config_error_display err"

record relay_server_config =
  rv_bind :: string
  rv_storage :: storage_config
  rv_policy :: relay_policy_config
  rv_admission :: "admission_hook_config option"

definition parse_admission_fallback :: "string \<Rightarrow> admission_fallback option" where
  "parse_admission_fallback v =
     (let v = to_ascii_lowercase (trim v) in
      if v = ''accept'' then Some FallbackAccept
      else if v = ''reject'' then Some FallbackReject
      else None)"

definition admission_from_env :: "environment \<Rightarrow> (relay_config_error, admission_hook_config option) result" where
  "admission_from_env env =
     (case env ''GITTREE_ADMISSION_URL'' of
        None \<Rightarrow> Ok None
      | Some endpoint \<Rightarrow>
          and_then (ensure (trim endpoint \<noteq> []) (RelayAdmissionFailed (AdmissionInvalidEndpoint endpoint))) (\<lambda>_.
          and_then (case env ''GITTREE_ADMISSION_TIMEOUT_SECS'' of
              None \<Rightarrow> Ok 5
            | Some v \<Rightarrow>
                (if blank v then Ok 5
                 else ok_or (RelayAdmissionFailed (AdmissionInvalidTimeout v)) (parse_unsigned 64 v))) (\<lambda>timeout_secs.
          and_then (case env ''GITTREE_ADMISSION_FALLBACK'' of
              None \<Rightarrow> Ok FallbackReject
            | Some v \<Rightarrow>
                (if blank v then Ok FallbackReject
                 else ok_or (RelayAdmissionFailed (AdmissionInvalidFallback v)) (parse_admission_fallback v))) (\<lambda>fallback.
          Ok (Some \<lparr>ah_endpoint = trim endpoint, ah_timeout = timeout_secs, ah_fallback = fallback\<rparr>)))))"

text \<open>A document gives the services only; everything else is read from the environment with either source.\<close>

definition relay_config_with ::
  "services_config config_result \<Rightarrow> environment \<Rightarrow> (relay_config_error, relay_server_config) result" where
  "relay_config_with services env =
     and_then (map_err RelayConfigFailed services) (\<lambda>services.
     and_then (map_err RelayStorageFailed (storage_from_env env)) (\<lambda>storage.
     and_then (map_err RelayConfigFailed (policy_config_from_env env)) (\<lambda>policy.
     and_then (admission_from_env env) (\<lambda>admission.
     Ok \<lparr>rv_bind = sc_bind (sv_relay services), rv_storage = storage, rv_policy = policy, rv_admission = admission\<rparr>))))"

definition relay_config_from_env :: "environment \<Rightarrow> (relay_config_error, relay_server_config) result" where
  "relay_config_from_env env = relay_config_with (services_from_env_validated env) env"

definition relay_config_from_toml_file ::
  "(string \<Rightarrow> (string, string) result) \<Rightarrow> toml_services_root toml_parser \<Rightarrow> string \<Rightarrow> environment \<Rightarrow>
   (relay_config_error, relay_server_config) result" where
  "relay_config_from_toml_file read toml path env =
     relay_config_with (services_from_toml_file_validated read toml path) env"

section \<open>The information document\<close>

definition build_nip11_document ::
  "encoder \<Rightarrow> string \<Rightarrow> relay_server_config \<Rightarrow> policy \<Rightarrow> relay_tenant_record option \<Rightarrow> relay_info_document" where
  "build_nip11_document enc version config p tenant =
     (let of_tenant = (\<lambda>f. Option.bind tenant f);
          name = (case of_tenant tn_name of
                    Some n \<Rightarrow> Some n
                  | None \<Rightarrow>
                      (case st_application_name (rv_storage config) of Some n \<Rightarrow> Some n | None \<Rightarrow> Some ''gittree''));
          tenant_pubkey = map_option (\<lambda>t. enc (tn_relay_pubkey t)) tenant
      in \<lparr>doc_name = name, doc_description = of_tenant tn_description, doc_banner = of_tenant tn_banner,
          doc_icon = of_tenant tn_icon, doc_pubkey = tenant_pubkey, doc_self_pubkey = tenant_pubkey,
          doc_contact = of_tenant tn_contact, doc_supported_nips = Some [1, 11, 34],
          doc_software = Some ''https://github.com/triesap/gittree'', doc_version = Some version,
          doc_privacy_policy = None, doc_terms_of_service = None,
          doc_limitation = Some
            \<lparr>lim_max_message_length = cfg_max_message_bytes (rv_policy config),
             lim_max_subscriptions = cfg_max_subscriptions (rv_policy config),
             lim_max_limit = cfg_max_limit (rv_policy config), lim_max_subid_length = None,
             lim_max_event_tags = Some (max_tags p), lim_max_content_length = Some (max_content_len p),
             lim_min_pow_difficulty = None,
             lim_auth_required =
               Some (unwrap_or (map_option tn_auth_required tenant) (cfg_auth_required (rv_policy config))),
             lim_payment_required = None,
             lim_restricted_writes = Some (unwrap_or (map_option (\<lambda>t. \<not> tn_public_write t) tenant) True),
             lim_created_at_lower_limit = None, lim_created_at_upper_limit = None, lim_default_limit = None\<rparr>,
          doc_retention = None, doc_relay_countries = None, doc_language_tags = None, doc_tags = None,
          doc_posting_policy = None, doc_payments_url = None, doc_fees = None,
          doc_supported_grasps = Some [''GRASP-01''],
          doc_repo_acceptance_criteria = Some ''requires clone and relays tags'',
          doc_curation = Some ''no additional curation''\<rparr>)"

section \<open>Tenants\<close>

record ('s, 'm, 'd) tenant_repository =
  tr_tenant_by_host :: "string \<Rightarrow> 'd \<Rightarrow> (storage_error, relay_tenant_record option) result"
  tr_tenant_store :: "string \<Rightarrow> 's store_ops"
  tr_membership :: "'m membership_ops"

record ('s, 'm, 'd) relay_state =
  rs_config :: relay_server_config
  rs_policy :: policy
  rs_store :: "'s store_ops"
  rs_repos :: "('s, 'm, 'd) tenant_repository option"
  rs_admission :: "(relay_event \<Rightarrow> admission_decision) option"

record 's tenant_context =
  tc_tenant_id :: string
  tc_store :: "'s store_ops"
  tc_tenant :: "relay_tenant_record option"

definition relay_normalize_host :: "string \<Rightarrow> string" where
  "relay_normalize_host v =
     (let v = trim_end_char CHR ''.'' (trim v);
          plain = to_ascii_lowercase (trim_end_char CHR ''.'' (unwrap_or (part (str_split v CHR '':'') 0) v))
      in case strip_prefix v ''['' of
           Some inner \<Rightarrow>
             (case str_find inner '']'' of Some n \<Rightarrow> to_ascii_lowercase (take n inner) | None \<Rightarrow> plain)
         | None \<Rightarrow> plain)"

definition header_value :: "header_map \<Rightarrow> string \<Rightarrow> string option" where
  "header_value headers name = (case headers name of Some v \<Rightarrow> v | None \<Rightarrow> None)"

definition extract_host :: "header_map \<Rightarrow> string option" where
  "extract_host headers = map_option relay_normalize_host (header_value headers ''host'')"

definition accepts_nostr_json :: "header_map \<Rightarrow> bool" where
  "accepts_nostr_json headers =
     (case header_value headers ''accept'' of Some v \<Rightarrow> str_contains v ''application/nostr+json'' | None \<Rightarrow> False)"

text \<open>An error is the status of the answer.\<close>

definition resolve_tenant ::
  "('s, 'm, 'd) relay_state \<Rightarrow> header_map \<Rightarrow> 'd \<Rightarrow> (nat, 's tenant_context) result" where
  "resolve_tenant st headers d =
     (case rs_repos st of
        None \<Rightarrow> Ok \<lparr>tc_tenant_id = ''default'', tc_store = rs_store st, tc_tenant = None\<rparr>
      | Some repos \<Rightarrow>
          and_then (ok_or 400 (extract_host headers)) (\<lambda>host.
          and_then (map_err (\<lambda>_. 500) (tr_tenant_by_host repos host d)) (\<lambda>tenant.
          and_then (ok_or 404 tenant) (\<lambda>tenant.
          Ok \<lparr>tc_tenant_id = tn_id tenant, tc_store = tr_tenant_store repos (tn_id tenant), tc_tenant = Some tenant\<rparr>))))"

datatype 's root_answer =
    UpgradeSocket "'s tenant_context"
  | InformationDocument relay_info_document
  | StatusOnly nat

definition root_handler ::
  "encoder \<Rightarrow> string \<Rightarrow> ('s, 'm, 'd) relay_state \<Rightarrow> bool \<Rightarrow> header_map \<Rightarrow> 'd \<Rightarrow> 's root_answer" where
  "root_handler enc version st upgrade headers d =
     (if upgrade
      then (case resolve_tenant st headers d of Inl status \<Rightarrow> StatusOnly status | Inr ctx \<Rightarrow> UpgradeSocket ctx)
      else if accepts_nostr_json headers
      then (case resolve_tenant st headers d of
              Inl status \<Rightarrow> StatusOnly status
            | Inr ctx \<Rightarrow> InformationDocument
                (build_nip11_document enc version (rs_config st) (rs_policy st) (tc_tenant ctx)))
      else StatusOnly 404)"

definition relay_url_from_host :: "string \<Rightarrow> string" where
  "relay_url_from_host host =
     (let host = trim host in
      if starts_with host ''ws://'' \<or> starts_with host ''wss://'' then host else ''wss://'' @ host)"

text \<open>Reading needs authentication, writing does, reading needs membership, writing does.\<close>

definition tenant_auth_requirements :: "relay_tenant_record option \<Rightarrow> bool \<Rightarrow> bool \<times> bool \<times> bool \<times> bool" where
  "tenant_auth_requirements tenant default_auth_required =
     (case tenant of
        Some t \<Rightarrow>
          (\<not> tn_public_read t, tn_auth_required t \<or> \<not> tn_public_write t, \<not> tn_public_read t, \<not> tn_public_write t)
      | None \<Rightarrow> (default_auth_required, default_auth_required, False, False))"

section \<open>A connection\<close>

definition seed_owner_membership ::
  "'m membership_ops \<Rightarrow> string \<Rightarrow> u8 list \<Rightarrow> int \<Rightarrow> 'm \<Rightarrow> (storage_error, unit, 'm) st_result" where
  "seed_owner_membership mops tenant_id relay_pubkey now m =
     st_then (st_read (mo_membership_by_pubkey mops tenant_id relay_pubkey m) m) (\<lambda>existing m.
     mo_upsert_membership mops
       \<lparr>mr_tenant_id = tenant_id, mr_pubkey = relay_pubkey, mr_role = ''owner'', mr_status = ''active'',
        mr_created_at = (case existing of Some r \<Rightarrow> mr_created_at r | None \<Rightarrow> now), mr_updated_at = now\<rparr> m)"

text \<open>What a connection starts with: the time, the instant of the rate limiter and the challenge it draws.\<close>

record open_inputs =
  oi_now :: int
  oi_instant :: nat
  oi_challenge :: string

definition open_session ::
  "session_env \<Rightarrow> ('s, 'm, 'd) relay_state \<Rightarrow> 's tenant_context \<Rightarrow> open_inputs \<Rightarrow> 's \<Rightarrow> 'm \<Rightarrow> ('s, 'm) session \<times> 'm" where
  "open_session env st ctx inp store m =
     (case tenant_auth_requirements (tc_tenant ctx) (cfg_auth_required (rv_policy (rs_config st))) of
        (read_auth, write_auth, read_membership, write_membership) \<Rightarrow>
        let membership = map_option (\<lambda>_. m) (rs_repos st);
            s = with_relay_url (map_option (\<lambda>t. relay_url_from_host (tn_host t)) (tc_tenant ctx))
              (with_membership_requirements read_membership write_membership
              (with_membership (Some (tc_tenant_id ctx)) membership
              (session_with_broadcast (oi_instant inp) (oi_challenge inp) store (rs_policy st) (rs_admission st)
                 read_auth write_auth)))
        in case (tc_tenant ctx, rs_repos st) of
             (Some t, Some repos) \<Rightarrow>
               (let m' = snd (seed_owner_membership (tr_membership repos) (tc_tenant_id ctx) (tn_relay_pubkey t) (oi_now inp) m)
                in (with_metrics ((with_relay_signer env (tn_relay_pubkey t) (tn_relay_secret t) s)
                      \<lparr>se_membership := Some m'\<rparr>), m'))
           | _ \<Rightarrow> (with_metrics s, m))"

section \<open>The driver\<close>

definition encode_response :: "(json \<Rightarrow> string option) \<Rightarrow> server_message \<Rightarrow> string" where
  "encode_response to_text m =
     (case encode_server_message to_text m of
        Inr shown \<Rightarrow> shown
      | Inl _ \<Rightarrow> ''['' @ [CHR 0x22] @ ''NOTICE'' @ [CHR 0x22] @ '','' @ [CHR 0x22] @ ''failed to encode response'' @
           [CHR 0x22] @ '']'')"

definition driver_responses ::
  "session_env \<Rightarrow> 's store_ops \<Rightarrow> 'm membership_ops \<Rightarrow> call_inputs \<Rightarrow> string \<Rightarrow> ('s, 'm) session \<Rightarrow>
   (server_message list \<times> ('s, 'm) session) option" where
  "driver_responses env ops mops inp input s =
     (if (case max_message_bytes (se_policy s) of Some limit \<Rightarrow> length input > limit | None \<Rightarrow> False)
      then Some ([ServerNotice ''message too large''], s)
      else handle_raw env ops mops inp input s)"

definition handle_text ::
  "session_env \<Rightarrow> (json \<Rightarrow> string option) \<Rightarrow> 's store_ops \<Rightarrow> 'm membership_ops \<Rightarrow> call_inputs \<Rightarrow> string \<Rightarrow>
   ('s, 'm) session \<Rightarrow> (string list \<times> ('s, 'm) session) option" where
  "handle_text env to_text ops mops inp input s =
     map_option (\<lambda>(responses, s). (map (encode_response to_text) responses, s)) (driver_responses env ops mops inp input s)"

section \<open>The running relay\<close>

text \<open>
  A connection with the events of the channel it has not looked at yet and the messages it has sent, which go out as
  \<open>encode_response\<close> prints them.\<close>

record ('s, 'm) connection =
  cn_context :: "'s tenant_context"
  cn_session :: "('s, 'm) session"
  cn_inbox :: "event list"
  cn_sent :: "server_message list"

record ('s, 'm, 'd) relay_system =
  ry_store :: 's
  ry_members :: 'm
  ry_tenants :: 'd
  ry_connections :: "nat \<Rightarrow> ('s, 'm) connection option"

text \<open>The session as it runs next: the shared storage is as the others left it, and it sends to the channel.\<close>

definition refreshed :: "('s, 'm, 'd) relay_system \<Rightarrow> ('s, 'm) session \<Rightarrow> ('s, 'm) session" where
  "refreshed sys s =
     s\<lparr>se_store := ry_store sys, se_membership := map_option (\<lambda>_. ry_members sys) (se_membership s),
       se_broadcast := Some []\<rparr>"

definition receive_all :: "event list \<Rightarrow> (nat \<Rightarrow> ('s, 'm) connection option) \<Rightarrow> nat \<Rightarrow> ('s, 'm) connection option" where
  "receive_all events conns i = map_option (\<lambda>c. c\<lparr>cn_inbox := cn_inbox c @ events\<rparr>) (conns i)"

definition after_text ::
  "nat \<Rightarrow> ('s, 'm) connection \<Rightarrow> server_message list \<Rightarrow> ('s, 'm) session \<Rightarrow> ('s, 'm, 'd) relay_system \<Rightarrow>
   ('s, 'm, 'd) relay_system" where
  "after_text i c responses s sys =
     sys\<lparr>ry_store := se_store s, ry_members := (case se_membership s of Some m \<Rightarrow> m | None \<Rightarrow> ry_members sys),
         ry_connections := receive_all (unwrap_or (se_broadcast s) [])
           ((ry_connections sys)(i \<mapsto> c\<lparr>cn_session := s, cn_sent := cn_sent c @ responses\<rparr>))\<rparr>"

inductive relay_step ::
  "session_env \<Rightarrow> ('s, 'm, 'd) relay_state \<Rightarrow> 'm membership_ops \<Rightarrow> ('s, 'm, 'd) relay_system \<Rightarrow>
   ('s, 'm, 'd) relay_system \<Rightarrow> bool"
  for env :: session_env and st :: "('s, 'm, 'd) relay_state" and mops :: "'m membership_ops" where
  opens: "ry_connections sys i = None \<Longrightarrow> resolve_tenant st headers (ry_tenants sys) = Ok ctx \<Longrightarrow>
    open_session env st ctx inp (ry_store sys) (ry_members sys) = (s, m) \<Longrightarrow>
    relay_step env st mops sys (sys\<lparr>ry_members := m, ry_connections := (ry_connections sys)
      (i \<mapsto> \<lparr>cn_context = ctx, cn_session = s, cn_inbox = [], cn_sent = initial_messages s\<rparr>)\<rparr>)"
| frame: "ry_connections sys i = Some c \<Longrightarrow>
    driver_responses env (tc_store (cn_context c)) mops inp input (refreshed sys (cn_session c)) = Some (responses, s) \<Longrightarrow>
    relay_step env st mops sys (after_text i c responses s sys)"
| channel: "ry_connections sys i = Some c \<Longrightarrow> cn_inbox c = e # es \<Longrightarrow>
    relay_step env st mops sys (sys\<lparr>ry_connections := (ry_connections sys)
      (i \<mapsto> c\<lparr>cn_inbox := es, cn_sent := cn_sent c @ dispatch_event env e (cn_session c)\<rparr>)\<rparr>)"
| lagged: "ry_connections sys i = Some c \<Longrightarrow> cn_inbox c = lost @ kept \<Longrightarrow>
    relay_step env st mops sys (sys\<lparr>ry_connections := (ry_connections sys)(i \<mapsto> c\<lparr>cn_inbox := kept\<rparr>)\<rparr>)"
| closes: "relay_step env st mops sys (sys\<lparr>ry_connections := (ry_connections sys)(i := None)\<rparr>)"
| elsewhere: "relay_step env st mops sys (sys\<lparr>ry_tenants := d\<rparr>)"

inductive relay_run ::
  "session_env \<Rightarrow> ('s, 'm, 'd) relay_state \<Rightarrow> 'm membership_ops \<Rightarrow> ('s, 'm, 'd) relay_system \<Rightarrow> bool"
  for env st mops where
  start: "ry_connections sys = (\<lambda>_. None) \<Longrightarrow> relay_run env st mops sys"
| step: "relay_run env st mops sys \<Longrightarrow> relay_step env st mops sys sys' \<Longrightarrow> relay_run env st mops sys'"

section \<open>What every connection keeps\<close>

definition requirements :: "('s, 'm) session \<Rightarrow> bool \<times> bool \<times> bool \<times> bool" where
  "requirements s =
     (se_read_auth_required s, se_write_auth_required s, se_read_membership_required s, se_write_membership_required s)"

definition connection_inv :: "('s, 'm, 'd) relay_state \<Rightarrow> ('s, 'm) connection \<Rightarrow> bool" where
  "connection_inv st c \<longleftrightarrow>
     requirements (cn_session c) =
       tenant_auth_requirements (tc_tenant (cn_context c)) (cfg_auth_required (rv_policy (rs_config st))) \<and>
     se_tenant_id (cn_session c) = Some (tc_tenant_id (cn_context c)) \<and>
     (\<forall>t. tc_tenant (cn_context c) = Some t \<longrightarrow> tc_tenant_id (cn_context c) = tn_id t) \<and>
     (se_read_auth_required (cn_session c) \<longrightarrow> read_inv (cn_session c) (cn_sent c))"

lemma handle_message_tenant:
  assumes "handle_message env ops mops inp message s = Some (rs, s')"
  shows "se_tenant_id s' = se_tenant_id s"
  using assms
proof (cases rule: handle_message_cases)
  case (stored v e s1)
  from stored(7) store_event_core(1) [OF stored(8)] show ?thesis by (simp add: same_core_def)
qed (simp_all add: same_core_def)

lemma driver_keeps:
  assumes "driver_responses env ops mops inp input s = Some (rs, s')"
  shows "requirements s' = requirements s" "se_tenant_id s' = se_tenant_id s"
    and "read_inv s sent \<Longrightarrow> read_inv s' (sent @ rs)"
proof -
  consider "s' = s" "no_events rs" | message where "handle_message env ops mops inp message s = Some (rs, s')"
    using assms
    by (auto simp: driver_responses_def handle_raw_def no_events_def notice_of_protocol_error_def
        split: if_splits sum.splits option.splits)
  then have "requirements s' = requirements s \<and> se_tenant_id s' = se_tenant_id s \<and>
    (read_inv s sent \<longrightarrow> read_inv s' (sent @ rs))"
  proof cases
    case 1
    then show ?thesis by (simp add: read_inv_def)
  next
    case 2
    from handle_message_config [OF 2] handle_message_tenant [OF 2] handle_message_read_inv [OF 2]
    show ?thesis by (simp add: same_config_def requirements_def)
  qed
  then show "requirements s' = requirements s" "se_tenant_id s' = se_tenant_id s"
    "read_inv s sent \<Longrightarrow> read_inv s' (sent @ rs)" by simp_all
qed

lemma refreshed_simps [simp]:
  "requirements (refreshed sys s) = requirements s" "se_tenant_id (refreshed sys s) = se_tenant_id s"
  "read_inv (refreshed sys s) sent = read_inv s sent"
  "se_read_auth_required (refreshed sys s) = se_read_auth_required s"
  "se_write_auth_required (refreshed sys s) = se_write_auth_required s"
  "se_write_membership_required (refreshed sys s) = se_write_membership_required s"
  "authenticated_pubkey (refreshed sys s) = authenticated_pubkey s" "se_store (refreshed sys s) = ry_store sys"
  "se_registry (refreshed sys s) = se_registry s" "se_policy (refreshed sys s) = se_policy s"
  by (simp_all add: refreshed_def requirements_def read_inv_def is_authenticated_def authenticated_pubkey_def)

lemma open_session_fields:
  assumes "open_session env st ctx inp store m = (s, m')"
  shows "requirements s = tenant_auth_requirements (tc_tenant ctx) (cfg_auth_required (rv_policy (rs_config st)))"
    "se_tenant_id s = Some (tc_tenant_id ctx)" "se_registry s = []" "\<not> is_authenticated s"
    "se_policy s = rs_policy st" "se_admission s = rs_admission st" "se_store s = store"
    "se_rate_limiter s = map_option (rate_limiter_new (oi_instant inp)) (rate_limit_config_from_policy (rs_policy st))"
  using assms
  by (auto simp: open_session_def requirements_def with_metrics_def with_relay_signer_def with_relay_url_def
      with_membership_requirements_def with_membership_def session_with_broadcast_def session_base_def
      is_authenticated_def auth_state_of_def Let_def split: prod.splits option.splits if_splits)

lemma opened_inv:
  assumes "resolve_tenant st headers d = Ok ctx" and "open_session env st ctx inp store m = (s, m')"
  shows "connection_inv st \<lparr>cn_context = ctx, cn_session = s, cn_inbox = [], cn_sent = initial_messages s\<rparr>"
proof -
  have "no_events (initial_messages s)"
    by (simp add: initial_messages_def no_events_def split: option.split)
  moreover have "tc_tenant ctx = Some t \<Longrightarrow> tc_tenant_id ctx = tn_id t" for t
    using assms(1) by (auto simp: resolve_tenant_def result_simps split: option.splits)
  ultimately show ?thesis
    using open_session_fields [OF assms(2)] by (simp add: connection_inv_def read_inv_def)
qed

lemma driven_inv:
  assumes "connection_inv st c"
    and "driver_responses env ops mops inp input (refreshed sys (cn_session c)) = Some (rs, s)"
  shows "connection_inv st (c\<lparr>cn_session := s, cn_sent := cn_sent c @ rs\<rparr>)"
proof -
  note keeps = driver_keeps [OF assms(2)]
  have "se_read_auth_required s = se_read_auth_required (cn_session c)"
    using keeps(1) by (simp add: requirements_def refreshed_def)
  then show ?thesis
    using assms(1) keeps(1,2) keeps(3) [of "cn_sent c"] by (simp add: connection_inv_def)
qed

lemma dispatched_inv:
  assumes "connection_inv st c"
  shows "connection_inv st (c\<lparr>cn_inbox := es, cn_sent := cn_sent c @ dispatch_event env e (cn_session c)\<rparr>)"
  using assms dispatch_no_events [of "cn_session c" env e] by (auto simp: connection_inv_def read_inv_def)

definition system_inv :: "('s, 'm, 'd) relay_state \<Rightarrow> ('s, 'm, 'd) relay_system \<Rightarrow> bool" where
  "system_inv st sys \<longleftrightarrow> (\<forall>i c. ry_connections sys i = Some c \<longrightarrow> connection_inv st c)"

lemma system_invI:
  assumes "\<And>i c. ry_connections sys i = Some c \<Longrightarrow> connection_inv st c"
  shows "system_inv st sys"
  using assms unfolding system_inv_def by blast

lemma inbox_inv [simp]: "connection_inv st (c\<lparr>cn_inbox := es\<rparr>) = connection_inv st c"
  by (simp add: connection_inv_def)

lemma relay_step_inv:
  assumes "relay_step env st mops sys sys'" and "system_inv st sys"
  shows "system_inv st sys'"
  using assms(1)
proof cases
  case (opens i headers ctx inp s m)
  then show ?thesis
    using assms(2) opened_inv [OF opens(3,4)] by (auto simp: system_inv_def split: if_splits)
next
  case (frame i c inp input responses s)
  then have "connection_inv st (c\<lparr>cn_session := s, cn_sent := cn_sent c @ responses\<rparr>)"
    using assms(2) by (intro driven_inv) (auto simp: system_inv_def)
  then show ?thesis
    using assms(2) by (auto simp: frame(1) system_inv_def after_text_def receive_all_def split: if_splits)
next
  case (channel i c e es)
  have "connection_inv st c" using assms(2) channel(2) by (simp add: system_inv_def)
  from dispatched_inv [OF this] show ?thesis
    using assms(2) by (auto simp: channel(1) system_inv_def split: if_splits)
next
  case (lagged i c lost kept)
  then show ?thesis using assms(2) by (auto simp: system_inv_def split: if_splits)
next
  case (closes i)
  then show ?thesis using assms(2) by (auto simp: system_inv_def split: if_splits)
next
  case (elsewhere d)
  then show ?thesis using assms(2) by (simp add: system_inv_def)
qed

lemma relay_run_inv: "relay_run env st mops sys \<Longrightarrow> system_inv st sys"
proof (induction rule: relay_run.induct)
  case (start sys)
  then show ?case by (simp add: system_inv_def)
next
  case (step sys sys')
  then show ?case using relay_step_inv by blast
qed

lemma driver_store_change:
  assumes "driver_responses env ops mops inp input s = Some (rs, s')" and "se_store s' \<noteq> se_store s"
  shows "\<exists>v e. decode_client_message (env_from_str env) input = Ok (ClientEvent v) \<and> env_event_from_json env v = Some e \<and>
    event_verify (env_crypto env) e = Ok () \<and> validate_event (se_policy s) e (in_now inp) = Ok () \<and>
    write_checks env ops mops s e = Ok ()"
proof -
  obtain message where decoded: "decode_client_message (env_from_str env) input = Ok message"
    and step: "handle_message env ops mops inp message s = Some (rs, s')"
    using assms by (auto simp: driver_responses_def handle_raw_def split: if_splits sum.splits option.splits)
  from step show ?thesis
  proof (cases rule: handle_message_cases)
    case (stored v e s1)
    then show ?thesis using decoded by blast
  qed (use assms(2) in \<open>simp_all add: same_core_def\<close>)
qed

text \<open>
  C10: Each tenant's rules hold for every connection to it, in every state the relay reaches, however the connections
  interleave. A tenant that is not read publicly has sent no event at all to a client that has not authenticated.
  A frame changes the shared store only when it is an event that is correctly signed and within the policy; where the tenant asks for
  authentication or does not let everyone write, its author is the authenticated key, and where it does not let
  everyone write, that key is an active member of this tenant.\<close>

theorem tenant_rules_enforced:
  assumes "relay_run env st mops sys" and "ry_connections sys i = Some c" and "tc_tenant (cn_context c) = Some t"
  shows "(\<not> tn_public_read t \<and> \<not> is_authenticated (cn_session c) \<longrightarrow> ServerEvent sub v \<notin> set (cn_sent c)) \<and>
    (\<forall>inp input responses s.
       driver_responses env (tc_store (cn_context c)) mops inp input (refreshed sys (cn_session c)) = Some (responses, s) \<and>
       se_store s \<noteq> ry_store sys \<longrightarrow>
       (\<exists>w e. decode_client_message (env_from_str env) input = Ok (ClientEvent w) \<and> env_event_from_json env w = Some e \<and>
          event_verify (env_crypto env) e = Ok () \<and> validate_event (se_policy (cn_session c)) e (in_now inp) = Ok () \<and>
          (tn_auth_required t \<or> \<not> tn_public_write t \<longrightarrow> authenticated_pubkey (cn_session c) = Some (ev_pubkey e)) \<and>
          (\<not> tn_public_write t \<longrightarrow> require_membership env mops (refreshed sys (cn_session c)) = Ok ()) \<and>
          se_tenant_id (cn_session c) = Some (tn_id t)))"
proof -
  have inv: "connection_inv st c" using relay_run_inv [OF assms(1)] assms(2) by (simp add: system_inv_def)
  then have flags: "se_read_auth_required (cn_session c) = (\<not> tn_public_read t)"
    "se_write_auth_required (cn_session c) = (tn_auth_required t \<or> \<not> tn_public_write t)"
    "se_write_membership_required (cn_session c) = (\<not> tn_public_write t)"
    "se_tenant_id (cn_session c) = Some (tn_id t)"
    using assms(3) by (simp_all add: connection_inv_def requirements_def tenant_auth_requirements_def)
  have "ServerEvent sub v \<notin> set (cn_sent c)" if "\<not> tn_public_read t \<and> \<not> is_authenticated (cn_session c)"
    using that inv flags(1) by (simp add: connection_inv_def read_inv_def no_events_def)
  moreover have "\<exists>w e. decode_client_message (env_from_str env) input = Ok (ClientEvent w) \<and>
      env_event_from_json env w = Some e \<and> event_verify (env_crypto env) e = Ok () \<and>
      validate_event (se_policy (cn_session c)) e (in_now inp) = Ok () \<and>
      (tn_auth_required t \<or> \<not> tn_public_write t \<longrightarrow> authenticated_pubkey (cn_session c) = Some (ev_pubkey e)) \<and>
      (\<not> tn_public_write t \<longrightarrow> require_membership env mops (refreshed sys (cn_session c)) = Ok ()) \<and>
      se_tenant_id (cn_session c) = Some (tn_id t)"
    if "driver_responses env (tc_store (cn_context c)) mops inp input (refreshed sys (cn_session c)) = Some (responses, s)"
      "se_store s \<noteq> ry_store sys" for inp input responses s
    using driver_store_change [OF that(1)] that(2) write_checks_Ok flags by fastforce
  ultimately show ?thesis by blast
qed


section \<open>A sample relay\<close>

text \<open>Two tenants that everyone may read and write, under the hosts a and b.\<close>

definition open_tenant :: "string \<Rightarrow> relay_tenant_record" where
  "open_tenant host =
     \<lparr>tn_id = host, tn_host = host, tn_relay_pubkey = [1], tn_relay_secret = [1], tn_relay_secret_nonce = [1],
      tn_relay_secret_kid = ''local'', tn_name = None, tn_description = None, tn_icon = None, tn_banner = None,
      tn_contact = None, tn_auth_required = False, tn_public_read = True, tn_public_write = True, tn_created_at = 0,
      tn_updated_at = 0\<rparr>"

definition sample_relay :: "(memory_store, in_memory_memberships, unit) relay_state" where
  "sample_relay =
     \<lparr>rs_config = \<lparr>rv_bind = [], rv_storage = \<lparr>st_read_connection = ''db'', st_write_connection = None,
          st_max_connections = 10, st_min_connections = 2, st_idle_timeout_secs = None, st_max_lifetime_secs = None,
          st_application_name = None\<rparr>, rv_policy = policy_config_default, rv_admission = None\<rparr>,
      rs_policy = default_policy, rs_store = memory_ops,
      rs_repos = Some \<lparr>tr_tenant_by_host = (\<lambda>host _. Ok (Some (open_tenant host))), tr_tenant_store = (\<lambda>_. memory_ops),
        tr_membership = sample_mops\<rparr>,
      rs_admission = None\<rparr>"

abbreviation sample_context :: "string \<Rightarrow> memory_store tenant_context" where
  "sample_context host \<equiv> \<lparr>tc_tenant_id = host, tc_store = memory_ops, tc_tenant = Some (open_tenant host)\<rparr>"

abbreviation sample_open :: open_inputs where
  "sample_open \<equiv> \<lparr>oi_now = 7, oi_instant = 0, oi_challenge = ''c''\<rparr>"

lemma sample_resolve:
  "resolve_tenant sample_relay [''host'' \<mapsto> Some ''a''] d = Ok (sample_context ''a'')"
  "resolve_tenant sample_relay [''host'' \<mapsto> Some ''b''] d = Ok (sample_context ''b'')"
proof -
  have "trim ''a'' = ''a''" "trim ''b'' = ''b''" by (rule trim_plain_ends; simp)+
  then have "relay_normalize_host ''a'' = ''a''" "relay_normalize_host ''b'' = ''b''"
    by (simp_all add: relay_normalize_host_def trim_end_char_def strip_prefix_def part_def unwrap_or_def
        to_ascii_lowercase_def)
  then show "resolve_tenant sample_relay [''host'' \<mapsto> Some ''a''] d = Ok (sample_context ''a'')"
    "resolve_tenant sample_relay [''host'' \<mapsto> Some ''b''] d = Ok (sample_context ''b'')"
    by (simp_all add: resolve_tenant_def sample_relay_def extract_host_def header_value_def open_tenant_def)
qed

lemma sample_session:
  assumes "open_session (sample_env 1) sample_relay (sample_context host) sample_open store m = (s, m')"
  shows "requirements s = (False, False, False, False)" "se_registry s = []" "se_policy s = default_policy"
    "se_admission s = None" "se_rate_limiter s = None"
  using open_session_fields [OF assms]
  by (simp_all add: tenant_auth_requirements_def open_tenant_def sample_relay_def rate_limit_config_from_policy_def
      default_policy_def)

lemma sample_frames:
  assumes "requirements s = (False, False, False, False)" and "se_policy s = default_policy"
    and "se_admission s = None" and "se_rate_limiter s = None" and "ry_store sys = memory_store_new"
  shows "se_registry s = [] \<Longrightarrow> \<exists>s'. driver_responses (sample_env 1) memory_ops mops sample_inputs ''r'' (refreshed sys s) =
      Some ([ServerEose ''x''], s') \<and> se_store s' = memory_store_new \<and> se_broadcast s' = Some [] \<and>
      registry_iter (se_registry s') = [(''x'', [empty_filter])]"
    and "\<exists>rs s'. driver_responses (sample_env 1) memory_ops mops sample_inputs ''e'' (refreshed sys s) = Some (rs, s') \<and>
      se_broadcast s' = Some [sample_event 1]"
proof -
  let ?s = "refreshed sys s"
  have flags: "\<not> se_read_auth_required s" "\<not> se_write_auth_required s" "\<not> se_read_membership_required s"
    "\<not> se_write_membership_required s"
    using assms(1) by (simp_all add: requirements_def)
  have free: "max_limit (se_policy ?s) = None" "max_message_bytes (se_policy ?s) = None"
    using assms(2) by (simp_all add: default_policy_def)
  have decoded: "decode_client_message (env_from_str (sample_env 1)) ''r'' = Ok (ClientReq ''x'' [JObject []])"
    "decode_client_message (env_from_str (sample_env 1)) ''e'' = Ok (ClientEvent JNull)"
    by (simp_all add: sample_env_def decode_client_message_def decode_client_value_def item_def subscription_item_def
        filter_items_def)
  show "\<exists>s'. driver_responses (sample_env 1) memory_ops mops sample_inputs ''r'' ?s =
      Some ([ServerEose ''x''], s') \<and> se_store s' = memory_store_new \<and> se_broadcast s' = Some [] \<and>
      registry_iter (se_registry s') = [(''x'', [empty_filter])]" if "se_registry s = []"
  proof -
    have "handle_message (sample_env 1) memory_ops mops sample_inputs (ClientReq ''x'' [JObject []]) ?s =
      Some ([ServerEose ''x''], (record_metric ''REQ'' ?s)\<lparr>se_registry :=
        [(''x'', \<lparr>ss_eose_sent = True, ss_filters = [empty_filter]\<rparr>)]\<rparr>)"
      by (rule sample_req)
        (use assms flags that in \<open>simp_all add: too_many_subscriptions_def default_policy_def refreshed_def\<close>)
    then show ?thesis
      using free(2) decoded(1) assms(5)
      by (simp add: driver_responses_def handle_raw_def registry_iter_def) (simp add: refreshed_def record_metric_def)
  qed
  obtain s' rs where "handle_message (sample_env 1) memory_ops mops sample_inputs (ClientEvent JNull) ?s = Some (rs, s')"
    "se_broadcast s' = map_option (\<lambda>sent. sent @ [sample_event 1]) (se_broadcast ?s)"
    using sample_saved [of ?s mops] assms flags by (auto simp: refreshed_def)
  then show "\<exists>rs s'. driver_responses (sample_env 1) memory_ops mops sample_inputs ''e'' ?s = Some (rs, s') \<and>
      se_broadcast s' = Some [sample_event 1]"
    using free(2) decoded(2) by (auto simp: driver_responses_def handle_raw_def) (simp add: refreshed_def)
qed

definition two_connections ::
  "(memory_store, in_memory_memberships) session \<Rightarrow> (memory_store, in_memory_memberships) session \<Rightarrow>
   (memory_store, in_memory_memberships, unit) relay_system \<Rightarrow> bool" where
  "two_connections sa sb sys \<longleftrightarrow> ry_store sys = memory_store_new \<and>
     ry_connections sys 0 = Some \<lparr>cn_context = sample_context ''a'', cn_session = sa, cn_inbox = [], cn_sent = []\<rparr> \<and>
     (\<exists>sent. ry_connections sys 1 = Some \<lparr>cn_context = sample_context ''b'', cn_session = sb, cn_inbox = [], cn_sent = sent\<rparr>)"

lemma sample_two_connections:
  "\<exists>sys sa sb. relay_run (sample_env 1) sample_relay sample_mops sys \<and> two_connections sa sb sys \<and>
     requirements sa = (False, False, False, False) \<and> se_policy sa = default_policy \<and> se_admission sa = None \<and>
     se_rate_limiter sa = None \<and> registry_iter (se_registry sb) = [(''x'', [empty_filter])]"
proof -
  let ?run = "relay_run (sample_env 1) sample_relay sample_mops"
  let ?sys0 = "\<lparr>ry_store = memory_store_new, ry_members = \<lparr>im_memberships = [], im_invites = []\<rparr>, ry_tenants = (),
    ry_connections = (\<lambda>_. None)\<rparr> :: (memory_store, in_memory_memberships, unit) relay_system"
  obtain sa ma where sa: "open_session (sample_env 1) sample_relay (sample_context ''a'') sample_open (ry_store ?sys0)
      (ry_members ?sys0) = (sa, ma)" by fastforce
  let ?sys1 = "?sys0\<lparr>ry_members := ma, ry_connections := (ry_connections ?sys0)
      (0 \<mapsto> \<lparr>cn_context = sample_context ''a'', cn_session = sa, cn_inbox = [], cn_sent = initial_messages sa\<rparr>)\<rparr>"
  have run1: "?run ?sys1"
    by (rule relay_run.step [OF relay_run.start relay_step.opens [OF _ sample_resolve(1) sa]]) simp_all
  obtain sb mb where sb: "open_session (sample_env 1) sample_relay (sample_context ''b'') sample_open
      (ry_store ?sys1) (ry_members ?sys1) = (sb, mb)" by fastforce
  let ?sys2 = "?sys1\<lparr>ry_members := mb, ry_connections := (ry_connections ?sys1)
      (1 \<mapsto> \<lparr>cn_context = sample_context ''b'', cn_session = sb, cn_inbox = [], cn_sent = initial_messages sb\<rparr>)\<rparr>"
  have run2: "?run ?sys2"
    by (rule relay_run.step [OF run1 relay_step.opens [OF _ sample_resolve(2) sb]]) simp
  obtain s where s: "driver_responses (sample_env 1) memory_ops sample_mops sample_inputs ''r'' (refreshed ?sys2 sb) =
      Some ([ServerEose ''x''], s)" "se_store s = memory_store_new" "se_broadcast s = Some []"
    "registry_iter (se_registry s) = [(''x'', [empty_filter])]"
    using sample_frames(1) [of sb ?sys2 sample_mops] sample_session [OF sb] by auto
  have quiet: "initial_messages sa = []"
    using sa by (simp add: initial_messages_def open_session_def tenant_auth_requirements_def open_tenant_def
        with_metrics_def with_relay_signer_def with_relay_url_def with_membership_requirements_def with_membership_def
        session_with_broadcast_def session_base_def auth_state_of_def Let_def sample_relay_def split: prod.splits) auto
  let ?c = "\<lparr>cn_context = sample_context ''b'', cn_session = sb, cn_inbox = [], cn_sent = initial_messages sb\<rparr>"
  have "?run (after_text 1 ?c [ServerEose ''x''] s ?sys2)"
    by (rule relay_run.step [OF run2 relay_step.frame [where inp = sample_inputs and input = "''r''"]]) (use s(1) in simp_all)
  moreover have "two_connections sa s (after_text 1 ?c [ServerEose ''x''] s ?sys2)"
    using s quiet by (simp add: two_connections_def after_text_def receive_all_def unwrap_or_def)
  ultimately show ?thesis using sample_session [OF sa] s(4) by blast
qed


theorem tenant_rules_enforced_witness:
  "\<exists>sys c. relay_run (sample_env 1) sample_relay sample_mops sys \<and> ry_connections sys 0 = Some c \<and>
     (\<exists>inp input responses s e.
        driver_responses (sample_env 1) (tc_store (cn_context c)) sample_mops inp input (refreshed sys (cn_session c)) =
          Some (responses, s) \<and>
        se_store s \<noteq> ry_store sys \<and> event_verify (env_crypto (sample_env 1)) e = Ok () \<and>
        se_tenant_id (cn_session c) = Some ''a'')"
proof -
  obtain sys sa sb where run: "relay_run (sample_env 1) sample_relay sample_mops sys" and two: "two_connections sa sb sys"
    and sa: "requirements sa = (False, False, False, False)" "se_policy sa = default_policy" "se_admission sa = None"
      "se_rate_limiter sa = None"
    using sample_two_connections by blast
  let ?c = "\<lparr>cn_context = sample_context ''a'', cn_session = sa, cn_inbox = [], cn_sent = []\<rparr>"
  have c: "ry_connections sys 0 = Some ?c" and store: "ry_store sys = memory_store_new"
    using two by (simp_all add: two_connections_def)
  have flags: "\<not> se_write_auth_required sa" "\<not> se_write_membership_required sa" using sa(1) by (simp_all add: requirements_def)
  obtain rs s where s: "handle_message (sample_env 1) memory_ops sample_mops sample_inputs (ClientEvent JNull) (refreshed sys sa) =
      Some (rs, s)" "se_store s = \<lparr>ms_events = [(ev_id (sample_event 1), sample_event 1)], ms_replaceable = []\<rparr>"
    using sample_saved [of "refreshed sys sa" sample_mops] sa store flags by (auto simp: refreshed_def)
  have "decode_client_message (env_from_str (sample_env 1)) ''e'' = Ok (ClientEvent JNull)"
    by (simp add: sample_env_def decode_client_message_def decode_client_value_def item_def)
  then have driven: "driver_responses (sample_env 1) memory_ops sample_mops sample_inputs ''e'' (refreshed sys sa) = Some (rs, s)"
    using s(1) sa(2) by (simp add: driver_responses_def handle_raw_def default_policy_def)
  moreover have "se_store s \<noteq> ry_store sys" using s(2) store by (simp add: memory_store_new_def)
  moreover have "\<exists>e. event_verify (env_crypto (sample_env 1)) e = Ok () \<and> se_tenant_id sa = Some ''a''"
    using tenant_rules_enforced [OF run c, of "open_tenant ''a''"] calculation
    by (simp add: open_tenant_def) blast
  ultimately show ?thesis using run c by (intro exI [of _ sys] exI [of _ ?c]) auto
qed

end
