(* ===== verification/Control.thy ===== *)
theory Control
  imports Auth_Service Relay_Adapter Relay_Server
begin

text \<open>
  The control service (\<open>services/control/src/lib.rs\<close> and \<open>control_action.rs\<close>): users, organisations, repositories
  and pull requests at Forgejo for whoever holds the token, repositories for whoever signs an announcement and has
  an account, tenants of the relay for whoever signs a request. A repository is made at Forgejo first, then its
  announcement is queued once for each relay. The storage is reached through the operations of its traits. What
  other packages do -- base64, JSON, keys and signatures, bech32, URLs -- comes with the state of the service.
\<close>

section \<open>Settings\<close>

record control_config =
  kf_bind :: string
  kf_auth :: control_auth_config
  kf_forgejo :: forgejo_config
  kf_storage :: storage_config
  kf_relay_urls :: "string list"
  kf_public_git_url :: string

definition control_config_from_env :: "url_parser \<Rightarrow> environment \<Rightarrow> control_config settings" where
  "control_config_from_env url_parse env =
     and_then (map_err ServiceConfigFailed (services_from_env_validated env)) (\<lambda>services.
     and_then (map_err ServiceConfigFailed (control_auth_from_env env)) (\<lambda>auth.
     and_then (map_err ServiceConfigFailed (forgejo_config_from_env url_parse env)) (\<lambda>forgejo.
     and_then (map_err ServiceStorage (storage_from_env env)) (\<lambda>storage.
     and_then (map_err ServiceConfigFailed (relay_targets_from_env_validated url_parse env)) (\<lambda>relay_targets.
     and_then (map_err ServiceConfigFailed (ui_config_from_env url_parse env)) (\<lambda>ui.
     Ok \<lparr>kf_bind = sc_bind (sv_control services), kf_auth = auth, kf_forgejo = forgejo, kf_storage = storage,
         kf_relay_urls = rt_relay_urls relay_targets, kf_public_git_url = ui_public_git_url ui\<rparr>))))))"

section \<open>Errors and checks\<close>

datatype control_http_error =
    ControlUnauthorized string
  | ControlBadRequest string
  | ControlInternal string

fun control_http_response :: "control_http_error \<Rightarrow> nat \<times> string" where
  "control_http_response (ControlUnauthorized message) = (401, message)"
| "control_http_response (ControlBadRequest message) = (400, message)"
| "control_http_response (ControlInternal message) = (500, message)"

type_synonym 'a control_check = "(control_http_error, 'a) result"

definition map_forgejo_error :: "forgejo_error \<Rightarrow> control_http_error" where
  "map_forgejo_error err =
     (case err of
        ForgejoResponseError status body \<Rightarrow>
          (if 400 \<le> status \<and> status < 500
           then ControlBadRequest (''forgejo error '' @ show_nat (unat status) @ '': '' @ body)
           else ControlInternal (forgejo_error_display err))
      | _ \<Rightarrow> ControlInternal (forgejo_error_display err))"

definition map_storage_error :: "storage_error \<Rightarrow> control_http_error" where
  "map_storage_error err = ControlInternal (storage_error_display err)"

definition authorize :: "header_map \<Rightarrow> string \<Rightarrow> unit control_check" where
  "authorize headers token =
     and_then (ok_or (ControlUnauthorized ''missing authorization'') (header_text headers ''authorization'')) (\<lambda>v.
     and_then (ok_or (ControlUnauthorized ''invalid authorization header'') (strip_prefix (trim v) ''Bearer '')) (\<lambda>v.
     ensure (v = token) (ControlUnauthorized ''invalid control token'')))"

definition authorize_admin_pubkey :: "string \<Rightarrow> control_auth_config \<Rightarrow> unit control_check" where
  "authorize_admin_pubkey pubkey auth =
     ensure (ca_admin_keys auth = [] \<or> list_ex (\<lambda>key. key = pubkey) (ca_admin_keys auth))
       (ControlUnauthorized ''control pubkey not authorized'')"

definition control_require_non_empty :: "string \<Rightarrow> string \<Rightarrow> unit control_check" where
  "control_require_non_empty field v = ensure (\<not> blank v) (ControlBadRequest (''missing '' @ field))"

definition control_require_hex64 :: "string \<Rightarrow> string \<Rightarrow> unit control_check" where
  "control_require_hex64 field v = ensure (is_hex_len v 64) (ControlBadRequest (''invalid '' @ field))"

definition control_normalize_host :: "string \<Rightarrow> string control_check" where
  "control_normalize_host v =
     (let v = trim_end_char CHR ''.'' (trim v);
          v = (case strip_prefix v ''https://'' of
                 Some r \<Rightarrow> r
               | None \<Rightarrow> (case strip_prefix v ''http://'' of Some r \<Rightarrow> r | None \<Rightarrow> v))
      in and_then (ensure (CHR ''/'' \<notin> set v) (ControlBadRequest ''invalid host'')) (\<lambda>_.
         and_then (case strip_prefix v ''['' of
             Some inner \<Rightarrow>
               (case str_find inner '']'' of
                  Some n \<Rightarrow> Ok (to_ascii_lowercase (take n inner))
                | None \<Rightarrow> Err (ControlBadRequest ''invalid host''))
           | None \<Rightarrow> Ok (to_ascii_lowercase (unwrap_or (part (str_split v CHR '':'') 0) v))) (\<lambda>normalized.
         and_then (ensure (\<not> blank normalized) (ControlBadRequest ''invalid host'')) (\<lambda>_.
         Ok normalized))))"

section \<open>Actions\<close>

datatype control_action =
    ActionCreateUser string string string "bool option" "bool option"
  | ActionCreateOrg string "string option" "string option"
  | ActionCreateRepo string "string option" "string option" "string option" "bool option" string string
  | ActionCreatePullRequest string string string string string "string option" "bool option"

definition action_require_non_empty :: "string \<Rightarrow> string \<Rightarrow> unit core_result" where
  "action_require_non_empty field v = ensure (\<not> blank v) (InvalidField field [])"

definition action_require_hex64 :: "string \<Rightarrow> string \<Rightarrow> unit core_result" where
  "action_require_hex64 field v = ensure (is_hex_len v 64) (InvalidField field v)"

definition action_require_opt :: "string \<Rightarrow> string option \<Rightarrow> unit core_result" where
  "action_require_opt field v = (case v of Some v \<Rightarrow> action_require_non_empty field v | None \<Rightarrow> Ok ())"

fun control_action_validate :: "control_action \<Rightarrow> unit core_result" where
  "control_action_validate (ActionCreateUser username email password admin must_change) =
     and_then (action_require_non_empty ''username'' username) (\<lambda>_.
     and_then (action_require_non_empty ''email'' email) (\<lambda>_.
     action_require_non_empty ''password'' password))"
| "control_action_validate (ActionCreateOrg name full description) =
     and_then (action_require_non_empty ''name'' name) (\<lambda>_. action_require_opt ''full_name'' full)"
| "control_action_validate (ActionCreateRepo name owner ident description private pubkey privkey) =
     and_then (action_require_non_empty ''name'' name) (\<lambda>_.
     and_then (action_require_opt ''owner'' owner) (\<lambda>_.
     and_then (action_require_opt ''identifier'' ident) (\<lambda>_.
     and_then (action_require_hex64 ''pubkey'' pubkey) (\<lambda>_.
     action_require_hex64 ''privkey'' privkey))))"
| "control_action_validate (ActionCreatePullRequest owner repo head base title body draft) =
     and_then (action_require_non_empty ''owner'' owner) (\<lambda>_.
     and_then (action_require_non_empty ''repo'' repo) (\<lambda>_.
     and_then (action_require_non_empty ''head'' head) (\<lambda>_.
     and_then (action_require_non_empty ''base'' base) (\<lambda>_.
     action_require_non_empty ''title'' title))))"

definition control_action_parse ::
  "(string \<Rightarrow> control_action option) \<Rightarrow> u32 \<Rightarrow> string \<Rightarrow> u32 \<Rightarrow> control_action core_result" where
  "control_action_parse from_str kind content expected_kind =
     and_then (ensure (kind = expected_kind) (InvalidField ''kind'' (show_nat (unat kind)))) (\<lambda>_.
     and_then (ensure (\<not> blank content) (MissingField ''content'')) (\<lambda>_.
     and_then (ok_or (InvalidField ''content'' ''invalid json'') (from_str content)) (\<lambda>action.
     and_then (control_action_validate action) (\<lambda>_. Ok action))))"

section \<open>Requests\<close>

record control_create_user_request =
  ku_username :: string
  ku_email :: string
  ku_password :: string
  ku_full_name :: "string option"
  ku_must_change_password :: "bool option"
  ku_send_notify :: "bool option"

record control_create_org_request =
  kg_owner :: string
  kg_name :: string
  kg_full_name :: "string option"
  kg_description :: "string option"
  kg_visibility :: "string option"

record control_create_repo_request =
  kr_owner :: string
  kr_name :: string
  kr_identifier :: "string option"
  kr_description :: "string option"
  kr_private :: "bool option"
  kr_auto_init :: "bool option"
  kr_pubkey :: string
  kr_privkey :: string

record control_create_tenant_request =
  kt_host :: string
  kt_name :: "string option"
  kt_description :: "string option"
  kt_icon :: "string option"
  kt_banner :: "string option"
  kt_contact :: "string option"
  kt_auth_required :: "bool option"
  kt_public_read :: "bool option"
  kt_public_write :: "bool option"

record control_create_tenant_response =
  ks_tenant_id :: string
  ks_host :: string
  ks_relay_pubkey :: string
  ks_relay_url :: string
  ks_owner_pubkey :: string
  ks_status :: string

record control_create_pull_request =
  kl_owner :: string
  kl_repo :: string
  kl_head :: string
  kl_base :: string
  kl_title :: string
  kl_body :: "string option"

record create_repo_input =
  kn_owner :: "string option"
  kn_name :: string
  kn_identifier :: "string option"
  kn_description :: "string option"
  kn_private :: "bool option"
  kn_auto_init :: "bool option"
  kn_pubkey :: string
  kn_privkey :: string

record control_event_request =
  ke_kind :: nat
  ke_pubkey :: string
  ke_content :: string

record repo_create_request =
  kq_event :: signed_nostr_event
  kq_private :: "bool option"

record repo_create_response =
  kp_owner :: string
  kp_name :: string
  kp_html_url :: "string option"

datatype control_event_response =
    CreatedUser forgejo_user
  | CreatedOrg forgejo_org
  | CreatedRepo forgejo_repo_info
  | CreatedPullRequest forgejo_pull_request

definition create_user_of :: "control_create_user_request \<Rightarrow> forgejo_create_user" where
  "create_user_of u =
     \<lparr>cu_username = ku_username u, cu_email = ku_email u, cu_password = ku_password u, cu_full_name = ku_full_name u,
      cu_must_change_password = ku_must_change_password u, cu_send_notify = ku_send_notify u\<rparr>"

section \<open>The state of the service\<close>

text \<open>The trait \<open>RelayTenantRepository\<close>.\<close>

record 'r tenant_ops =
  to_upsert_tenant :: "relay_tenant_record \<Rightarrow> 'r \<Rightarrow> (storage_error, unit, 'r) st_result"
  to_tenant_by_host :: "string \<Rightarrow> 'r \<Rightarrow> (storage_error, relay_tenant_record option) result"

record ('r, 'w) control_app_state =
  kc_auth :: control_auth_config
  kc_forgejo :: "'w forgejo_client"
  kc_forgejo_owner :: string
  kc_accounts :: "'r account_ops"
  kc_publish :: "'r publish_repo_ops"
  kc_tenants :: "'r tenant_ops"
  kc_membership :: "'r membership_ops"
  kc_relay_urls :: "string list"
  kc_public_git_url :: string
  kc_repo_private_default :: bool
  kc_adapter :: adapter_env
  kc_xonly :: "u8 list \<Rightarrow> bool"
  kc_bech32 :: bech32_decoder
  kc_npub :: "u8 list \<Rightarrow> string"
  kc_base64 :: "string \<Rightarrow> u8 list option"
  kc_event :: "u8 list \<Rightarrow> nip98_event option"
  kc_repo_request :: "u8 list \<Rightarrow> (string, repo_create_request) result"
  kc_tenant_request :: "u8 list \<Rightarrow> (string, control_create_tenant_request) result"
  kc_action :: "string \<Rightarrow> control_action option"

abbreviation kc_crypto :: "('r, 'w) control_app_state \<Rightarrow> crypto" where
  "kc_crypto st \<equiv> ae_crypto (kc_adapter st)"

text \<open>A request with the clocks it reads -- seconds, and the clock of the storage -- and the keys it draws.\<close>

record control_call =
  kx_headers :: header_map
  kx_method :: string
  kx_path_and_query :: "string option"
  kx_path :: string
  kx_body :: "u8 list"
  kx_now :: int
  kx_storage_now :: int
  kx_secret :: "u8 list"
  kx_nonce :: "u8 list"

record ('r, 'w) control_world =
  kw_storage :: 'r
  kw_forgejo :: 'w

type_synonym ('a, 'r, 'w) control_result = "(control_http_error, 'a, ('r, 'w) control_world) st_result"

definition in_storage ::
  "('r \<Rightarrow> (storage_error, 'a, 'r) st_result) \<Rightarrow> ('r, 'w) control_world \<Rightarrow> ('a, 'r, 'w) control_result" where
  "in_storage action w =
     (case action (kw_storage w) of (r, s) \<Rightarrow> (map_err map_storage_error r, w\<lparr>kw_storage := s\<rparr>))"

definition at_forgejo ::
  "('w \<Rightarrow> (forgejo_error, 'a, 'w) st_result) \<Rightarrow> ('r, 'w) control_world \<Rightarrow> ('a, 'r, 'w) control_result" where
  "at_forgejo action w =
     (case action (kw_forgejo w) of (r, s) \<Rightarrow> (map_err map_forgejo_error r, w\<lparr>kw_forgejo := s\<rparr>))"

section \<open>Signatures\<close>

definition control_build_request_url :: "control_call \<Rightarrow> string control_check" where
  "control_build_request_url call =
     and_then (ok_or (ControlBadRequest ''missing host header'') (header_text (kx_headers call) ''host'')) (\<lambda>host.
     let scheme = unwrap_or (header_text (kx_headers call) ''x-forwarded-proto'') ''http'';
         path = unwrap_or (kx_path_and_query call) (kx_path call)
     in Ok (scheme @ ''://'' @ host @ path))"

definition control_parse_nostr_auth :: "('r, 'w) control_app_state \<Rightarrow> header_map \<Rightarrow> nip98_event control_check" where
  "control_parse_nostr_auth st headers =
     and_then (ok_or (ControlUnauthorized ''missing authorization'') (header_text headers ''authorization'')) (\<lambda>v.
     and_then (ok_or (ControlUnauthorized ''invalid authorization header'') (strip_prefix (trim v) ''Nostr '')) (\<lambda>token.
     and_then (ok_or (ControlUnauthorized ''invalid nostr authorization'') (kc_base64 st token)) (\<lambda>decoded.
     ok_or (ControlUnauthorized ''invalid nostr event'') (kc_event st decoded))))"

definition control_nip98_request :: "('r, 'w) control_app_state \<Rightarrow> control_call \<Rightarrow> string \<Rightarrow> nip98_request" where
  "control_nip98_request st call request_url =
     \<lparr>nq_method = kx_method call, nq_url = request_url,
      nq_payload_sha256 = payload_hash (kc_crypto st) (kx_body call), nq_now = kx_now call, nq_max_skew_seconds = 300\<rparr>"

definition control_authenticated ::
  "('r, 'w) control_app_state \<Rightarrow> control_call \<Rightarrow> nip98_event \<Rightarrow> nip98_auth control_check" where
  "control_authenticated st call event =
     and_then (control_build_request_url call) (\<lambda>request_url.
     map_err (\<lambda>err. ControlUnauthorized (nip98_error_display err))
       (validate_nip98 (kc_crypto st) (kc_xonly st) event (control_nip98_request st call request_url)))"

definition control_parse_pubkey_bytes :: "crypto \<Rightarrow> string \<Rightarrow> u8 list control_check" where
  "control_parse_pubkey_bytes cr v = ok_or (ControlBadRequest ''invalid pubkey'') (hex_decode cr v)"

definition control_npub_from_hex :: "('r, 'w) control_app_state \<Rightarrow> string \<Rightarrow> string control_check" where
  "control_npub_from_hex st pubkey =
     and_then (ensure (length pubkey = 64) (ControlBadRequest ''invalid pubkey'')) (\<lambda>_.
     and_then (control_parse_pubkey_bytes (kc_crypto st) pubkey) (\<lambda>bytes. Ok (kc_npub st bytes)))"

definition parse_secret_key :: "('r, 'w) control_app_state \<Rightarrow> string \<Rightarrow> u8 list control_check" where
  "parse_secret_key st v =
     and_then (ensure (length v = 64) (ControlBadRequest ''invalid privkey'')) (\<lambda>_.
     and_then (ok_or (ControlBadRequest ''invalid privkey'') (hex_decode (kc_crypto st) v)) (\<lambda>bytes.
     map_err (\<lambda>_. ControlBadRequest ''invalid privkey'') (ae_secret (kc_adapter st) bytes)))"

definition verify_signed_event ::
  "('r, 'w) control_app_state \<Rightarrow> signed_nostr_event \<Rightarrow> u8 list control_check" where
  "verify_signed_event st e =
     (let cr = kc_crypto st in
     and_then (ok_or (ControlBadRequest ''invalid event id'') (hex_decode cr (sn_id e))) (\<lambda>event_id.
     and_then (ensure (length event_id = 32) (ControlBadRequest ''invalid event id'')) (\<lambda>_.
     and_then (ensure (adapter_event_id cr (sn_pubkey e) (sn_created_at e) (sn_kind e) (sn_tags e) (sn_content e) = sn_id e)
         (ControlBadRequest ''event id mismatch'')) (\<lambda>_.
     and_then (ok_or (ControlBadRequest ''invalid event sig'') (hex_decode cr (sn_sig e))) (\<lambda>sig.
     and_then (ensure (length sig = 64) (ControlBadRequest ''invalid event sig'')) (\<lambda>_.
     and_then (control_parse_pubkey_bytes cr (sn_pubkey e)) (\<lambda>pubkey.
     and_then (ensure (length pubkey = 32) (ControlBadRequest ''invalid pubkey'')) (\<lambda>_.
     and_then (ensure (kc_xonly st pubkey) (ControlBadRequest ''invalid pubkey'')) (\<lambda>_.
     and_then (ensure (verify_schnorr cr sig event_id pubkey) (ControlBadRequest ''invalid event sig'')) (\<lambda>_.
     Ok pubkey))))))))))"

definition validate_repo_announcement_event ::
  "('r, 'w) control_app_state \<Rightarrow> signed_nostr_event \<Rightarrow> string \<Rightarrow>
   (repo_announcement \<times> string \<times> string \<times> u8 list) control_check" where
  "validate_repo_announcement_event st e auth_pubkey =
     and_then (ensure (sn_kind e = kind_value KIND_GIT_REPO_ANNOUNCEMENT) (ControlBadRequest ''invalid repo announcement kind''))
       (\<lambda>_.
     and_then (ensure (sn_pubkey e = auth_pubkey) (ControlUnauthorized ''repo event pubkey mismatch'')) (\<lambda>_.
     and_then (control_npub_from_hex st (sn_pubkey e)) (\<lambda>npub.
     and_then (verify_signed_event st e) (\<lambda>pubkey_bytes.
     and_then (map_err (\<lambda>err. ControlBadRequest (core_error_display err)) (announcement_from_tags (sn_tags e))) (\<lambda>a.
     and_then (map_err (\<lambda>err. ControlBadRequest (core_error_display err)) (announcement_validate a)) (\<lambda>_.
     and_then (ensure (list_ex (\<lambda>key. key = sn_pubkey e) (ann_maintainers a)) (ControlBadRequest ''missing maintainer pubkey''))
       (\<lambda>_.
     let ident = normalize_identifier (ann_identifier a) in
     and_then (ensure (\<not> blank ident) (ControlBadRequest ''invalid repo identifier'')) (\<lambda>_.
     and_then (map_err (\<lambda>err. ControlBadRequest (core_error_display err))
         (format_grasp_server_url_as_clone_url (ae_url (kc_adapter st)) (kc_bech32 st) (kc_public_git_url st) npub ident))
       (\<lambda>expected_clone.
     and_then (ensure (list_ex (\<lambda>u. u = expected_clone) (ann_clone a)) (ControlBadRequest ''missing clone url'')) (\<lambda>_.
     and_then (ensure (list_all (\<lambda>relay_url. list_ex (\<lambda>u. u = relay_url) (ann_relays a)) (kc_relay_urls st))
         (ControlBadRequest ''missing relay url'')) (\<lambda>_.
     Ok (a, ident, npub, pubkey_bytes))))))))))))"

section \<open>Repositories\<close>

text \<open>The loop over the relays that both ways to make a repository end with.\<close>

definition publish_request ::
  "signed_nostr_event \<Rightarrow> string \<Rightarrow> string \<Rightarrow> string \<Rightarrow> string \<Rightarrow> relay_publish_request" where
  "publish_request e owner repo ident relay_url =
     \<lparr>pq_relay_url = relay_url, pq_event_id = sn_id e, pq_pubkey = sn_pubkey e, pq_created_at = sn_created_at e,
      pq_kind = sn_kind e, pq_tags = sn_tags e, pq_content = sn_content e, pq_sig = sn_sig e,
      pq_forgejo_owner = owner, pq_forgejo_repo = repo, pq_identifier = ident\<rparr>"

definition enqueue_publishes ::
  "('r, 'w) control_app_state \<Rightarrow> control_call \<Rightarrow> signed_nostr_event \<Rightarrow> string \<Rightarrow> string \<Rightarrow> string \<Rightarrow>
   ('r, 'w) control_world \<Rightarrow> (unit, 'r, 'w) control_result" where
  "enqueue_publishes st call e owner repo ident =
     st_each (\<lambda>relay_url. in_storage (po_enqueue (kc_publish st) (publish_request e owner repo ident relay_url)
       (kx_storage_now call))) (kc_relay_urls st)"

definition control_announcement ::
  "('r, 'w) control_app_state \<Rightarrow> create_repo_input \<Rightarrow> string \<Rightarrow> string \<Rightarrow> repo_announcement" where
  "control_announcement st input ident clone =
     \<lparr>ann_identifier = ident, ann_name = Some (kn_name input), ann_description = kn_description input,
      ann_root_commit = None, ann_clone = [clone], ann_web = [], ann_relays = kc_relay_urls st, ann_blossoms = [],
      ann_hashtags = [], ann_maintainers = [kn_pubkey input]\<rparr>"

text \<open>The event that announces the repository, up to the request to Forgejo.\<close>

definition sign_announcement ::
  "('r, 'w) control_app_state \<Rightarrow> control_call \<Rightarrow> create_repo_input \<Rightarrow> (string \<times> string \<times> signed_nostr_event) control_check" where
  "sign_announcement st call input =
     (let owner = unwrap_or (kn_owner input) (kc_forgejo_owner st);
          ident = unwrap_or (kn_identifier input) (kn_name input)
      in
     and_then (control_require_non_empty ''owner'' owner) (\<lambda>_.
     and_then (control_require_non_empty ''name'' (kn_name input)) (\<lambda>_.
     and_then (control_require_non_empty ''identifier'' ident) (\<lambda>_.
     and_then (control_require_hex64 ''privkey'' (kn_privkey input)) (\<lambda>_.
     and_then (ensure (kc_relay_urls st \<noteq> []) (ControlBadRequest ''missing relay urls'')) (\<lambda>_.
     and_then (control_npub_from_hex st (kn_pubkey input)) (\<lambda>npub.
     and_then (parse_secret_key st (kn_privkey input)) (\<lambda>secret_key.
     and_then (map_err (\<lambda>err. ControlBadRequest (core_error_display err))
         (format_grasp_server_url_as_clone_url (ae_url (kc_adapter st)) (kc_bech32 st) (kc_public_git_url st) npub ident))
       (\<lambda>clone.
     and_then (map_err (\<lambda>err. ControlBadRequest (relay_adapter_error_display err))
         (from_announcement_with_created_at (kc_adapter st) (control_announcement st input ident clone) secret_key (kx_now call)))
       (\<lambda>signed.
     and_then (ensure (sn_pubkey signed = kn_pubkey input) (ControlBadRequest ''pubkey does not match privkey'')) (\<lambda>_.
     Ok (owner, ident, signed))))))))))))"

definition create_repo_with_announcement ::
  "('r, 'w) control_app_state \<Rightarrow> control_call \<Rightarrow> create_repo_input \<Rightarrow> ('r, 'w) control_world \<Rightarrow>
   (forgejo_repo_info, 'r, 'w) control_result" where
  "create_repo_with_announcement st call input w =
     st_then (st_read (sign_announcement st call input) w) (\<lambda>(owner, ident, signed) w.
     st_then (at_forgejo (create_repo_for_owner (kc_forgejo st) owner
         \<lparr>cp_name = kn_name input, cp_description = kn_description input, cp_private = kn_private input,
          cp_auto_init = kn_auto_init input\<rparr>) w) (\<lambda>repo w.
     st_then (enqueue_publishes st call signed owner (fi_name repo) ident w) (\<lambda>_ w. (Ok repo, w))))"

definition create_repo_from_signed_event ::
  "('r, 'w) control_app_state \<Rightarrow> control_call \<Rightarrow> string \<Rightarrow> repo_create_request \<Rightarrow> ('r, 'w) control_world \<Rightarrow>
   (repo_create_response, 'r, 'w) control_result" where
  "create_repo_from_signed_event st call auth_pubkey request w =
     st_then (st_read (validate_repo_announcement_event st (kq_event request) auth_pubkey) w)
       (\<lambda>(announcement, ident, npub, pubkey_bytes) w.
     st_then (st_read (and_then (map_err map_storage_error
         (ao_account_by_pubkey (kc_accounts st) pubkey_bytes (kw_storage w)))
         (ok_or (ControlBadRequest ''account not found''))) w) (\<lambda>account w.
     let owner = ac_forgejo_username account in
     st_then (at_forgejo (create_repo_for_owner (kc_forgejo st) owner
         \<lparr>cp_name = ident, cp_description = ann_description announcement,
          cp_private = Some (unwrap_or (kq_private request) (kc_repo_private_default st)), cp_auto_init = None\<rparr>) w)
       (\<lambda>repo w.
     st_then (enqueue_publishes st call (kq_event request) owner (fi_name repo) ident w) (\<lambda>_ w.
     (Ok \<lparr>kp_owner = owner, kp_name = fi_name repo, kp_html_url = fi_html_url repo\<rparr>, w)))))"

section \<open>Handlers\<close>

definition create_user_handler ::
  "('r, 'w) control_app_state \<Rightarrow> control_call \<Rightarrow> control_create_user_request \<Rightarrow> ('r, 'w) control_world \<Rightarrow>
   (forgejo_user, 'r, 'w) control_result" where
  "create_user_handler st call payload w =
     st_then (st_read (authorize (kx_headers call) (ca_token (kc_auth st))) w) (\<lambda>_ w.
     st_then (st_read (control_require_non_empty ''username'' (ku_username payload)) w) (\<lambda>_ w.
     st_then (st_read (control_require_non_empty ''email'' (ku_email payload)) w) (\<lambda>_ w.
     st_then (st_read (control_require_non_empty ''password'' (ku_password payload)) w) (\<lambda>_ w.
     at_forgejo (create_user (kc_forgejo st) (create_user_of payload)) w))))"

definition create_org_handler ::
  "('r, 'w) control_app_state \<Rightarrow> control_call \<Rightarrow> control_create_org_request \<Rightarrow> ('r, 'w) control_world \<Rightarrow>
   (forgejo_org, 'r, 'w) control_result" where
  "create_org_handler st call payload w =
     st_then (st_read (authorize (kx_headers call) (ca_token (kc_auth st))) w) (\<lambda>_ w.
     st_then (st_read (control_require_non_empty ''owner'' (kg_owner payload)) w) (\<lambda>_ w.
     st_then (st_read (control_require_non_empty ''name'' (kg_name payload)) w) (\<lambda>_ w.
     at_forgejo (create_org (kc_forgejo st) (kg_owner payload)
       \<lparr>co_username = kg_name payload, co_full_name = kg_full_name payload, co_description = kg_description payload,
        co_visibility = kg_visibility payload\<rparr>) w)))"

definition create_repo_handler ::
  "('r, 'w) control_app_state \<Rightarrow> control_call \<Rightarrow> control_create_repo_request \<Rightarrow> ('r, 'w) control_world \<Rightarrow>
   (forgejo_repo_info, 'r, 'w) control_result" where
  "create_repo_handler st call payload w =
     st_then (st_read (authorize (kx_headers call) (ca_token (kc_auth st))) w) (\<lambda>_ w.
     st_then (st_read (control_require_non_empty ''owner'' (kr_owner payload)) w) (\<lambda>_ w.
     st_then (st_read (control_require_non_empty ''name'' (kr_name payload)) w) (\<lambda>_ w.
     st_then (st_read (control_require_non_empty ''pubkey'' (kr_pubkey payload)) w) (\<lambda>_ w.
     st_then (st_read (control_require_non_empty ''privkey'' (kr_privkey payload)) w) (\<lambda>_ w.
     st_then (st_read (case kr_identifier payload of
         Some ident \<Rightarrow> control_require_non_empty ''identifier'' ident | None \<Rightarrow> Ok ()) w) (\<lambda>_ w.
     st_then (st_read (control_require_hex64 ''pubkey'' (kr_pubkey payload)) w) (\<lambda>_ w.
     st_then (st_read (control_require_hex64 ''privkey'' (kr_privkey payload)) w) (\<lambda>_ w.
     st_then (st_read (authorize_admin_pubkey (kr_pubkey payload) (kc_auth st)) w) (\<lambda>_ w.
     create_repo_with_announcement st call
       \<lparr>kn_owner = Some (kr_owner payload), kn_name = kr_name payload, kn_identifier = kr_identifier payload,
        kn_description = kr_description payload, kn_private = kr_private payload, kn_auto_init = kr_auto_init payload,
        kn_pubkey = kr_pubkey payload, kn_privkey = kr_privkey payload\<rparr> w)))))))))"

definition create_repo_nostr_handler ::
  "('r, 'w) control_app_state \<Rightarrow> control_call \<Rightarrow> ('r, 'w) control_world \<Rightarrow> (repo_create_response, 'r, 'w) control_result" where
  "create_repo_nostr_handler st call w =
     st_then (st_read (control_parse_nostr_auth st (kx_headers call)) w) (\<lambda>event w.
     st_then (st_read (control_authenticated st call event) w) (\<lambda>auth w.
     st_then (st_read (ensure (kx_body call \<noteq> []) (ControlBadRequest ''missing repo create body'')) w) (\<lambda>_ w.
     st_then (st_read (map_err (\<lambda>err. ControlBadRequest (''invalid repo create request: '' @ err))
         (kc_repo_request st (kx_body call))) w) (\<lambda>payload w.
     create_repo_from_signed_event st call (na_pubkey auth) payload w))))"

definition tenant_record_of ::
  "('r, 'w) control_app_state \<Rightarrow> control_call \<Rightarrow> control_create_tenant_request \<Rightarrow> string \<Rightarrow>
   (storage_error, relay_tenant_record) result" where
  "tenant_record_of st call payload host =
     tenant_record_new (hex_decode (kc_crypto st)) host host
       (hex_encode (kc_crypto st) (ae_pubkey (kc_adapter st) (kx_secret call))) (kx_secret call) (kx_nonce call) ''local''
       (kt_name payload) (kt_description payload) (kt_icon payload) (kt_banner payload) (kt_contact payload)
       (unwrap_or (kt_auth_required payload) True) (unwrap_or (kt_public_read payload) False)
       (unwrap_or (kt_public_write payload) False) (kx_now call) (kx_now call)"

definition owner_membership :: "control_call \<Rightarrow> string \<Rightarrow> u8 list \<Rightarrow> relay_membership_record" where
  "owner_membership call host key =
     \<lparr>mr_tenant_id = host, mr_pubkey = key, mr_role = ''owner'', mr_status = ''active'', mr_created_at = kx_now call,
      mr_updated_at = kx_now call\<rparr>"

definition create_tenant_handler ::
  "('r, 'w) control_app_state \<Rightarrow> control_call \<Rightarrow> ('r, 'w) control_world \<Rightarrow>
   (control_create_tenant_response, 'r, 'w) control_result" where
  "create_tenant_handler st call w =
     st_then (st_read (control_parse_nostr_auth st (kx_headers call)) w) (\<lambda>event w.
     st_then (st_read (map_err (\<lambda>_. ControlUnauthorized ''invalid nostr auth pubkey'')
         (control_parse_pubkey_bytes (kc_crypto st) (nip98_event.ne_pubkey event))) w) (\<lambda>owner_key w.
     st_then (st_read (control_authenticated st call event) w) (\<lambda>_ w.
     st_then (st_read (ensure (kx_body call \<noteq> []) (ControlBadRequest ''missing tenant create body'')) w) (\<lambda>_ w.
     st_then (st_read (map_err (\<lambda>err. ControlBadRequest (''invalid tenant create request: '' @ err))
         (kc_tenant_request st (kx_body call))) w) (\<lambda>payload w.
     st_then (st_read (control_normalize_host (kt_host payload)) w) (\<lambda>host w.
     st_then (st_read (map_err map_storage_error (to_tenant_by_host (kc_tenants st) host (kw_storage w))) w) (\<lambda>existing w.
     st_then (st_read (ensure (existing = None) (ControlBadRequest ''tenant host already exists'')) w) (\<lambda>_ w.
     st_then (st_read (map_err (\<lambda>err. ControlBadRequest (storage_error_display err))
         (tenant_record_of st call payload host)) w) (\<lambda>record w.
     st_then (in_storage (to_upsert_tenant (kc_tenants st) record) w) (\<lambda>_ w.
     st_then (in_storage (mo_upsert_membership (kc_membership st) (owner_membership call host owner_key)) w) (\<lambda>_ w.
     (Ok \<lparr>ks_tenant_id = host, ks_host = host,
          ks_relay_pubkey = hex_encode (kc_crypto st) (ae_pubkey (kc_adapter st) (kx_secret call)),
          ks_relay_url = ''wss://'' @ host, ks_owner_pubkey = nip98_event.ne_pubkey event, ks_status = ''created''\<rparr>, w))))))))))))"

definition create_pull_handler ::
  "('r, 'w) control_app_state \<Rightarrow> control_call \<Rightarrow> control_create_pull_request \<Rightarrow> ('r, 'w) control_world \<Rightarrow>
   (forgejo_pull_request, 'r, 'w) control_result" where
  "create_pull_handler st call payload w =
     st_then (st_read (authorize (kx_headers call) (ca_token (kc_auth st))) w) (\<lambda>_ w.
     st_then (st_read (control_require_non_empty ''owner'' (kl_owner payload)) w) (\<lambda>_ w.
     st_then (st_read (control_require_non_empty ''repo'' (kl_repo payload)) w) (\<lambda>_ w.
     st_then (st_read (control_require_non_empty ''head'' (kl_head payload)) w) (\<lambda>_ w.
     st_then (st_read (control_require_non_empty ''base'' (kl_base payload)) w) (\<lambda>_ w.
     st_then (st_read (control_require_non_empty ''title'' (kl_title payload)) w) (\<lambda>_ w.
     at_forgejo (create_pull_request (kc_forgejo st) (kl_owner payload) (kl_repo payload)
       \<lparr>cq_head = kl_head payload, cq_base = kl_base payload, cq_title = kl_title payload, cq_body = kl_body payload\<rparr>) w))))))"

fun action_pubkey :: "control_action \<Rightarrow> string option" where
  "action_pubkey (ActionCreateRepo name owner ident description private pubkey privkey) = Some pubkey"
| "action_pubkey _ = None"

definition ensure_action_pubkey_matches :: "string \<Rightarrow> control_action \<Rightarrow> unit control_check" where
  "ensure_action_pubkey_matches request_pubkey action =
     (case action_pubkey action of
        Some pubkey \<Rightarrow> ensure (pubkey = request_pubkey) (ControlBadRequest ''pubkey does not match control request'')
      | None \<Rightarrow> Ok ())"

fun apply_control_action ::
  "('r, 'w) control_app_state \<Rightarrow> control_call \<Rightarrow> control_action \<Rightarrow> ('r, 'w) control_world \<Rightarrow>
   (control_event_response, 'r, 'w) control_result" where
  "apply_control_action st call (ActionCreateUser username email password admin must_change) w =
     st_then (at_forgejo (create_user (kc_forgejo st)
       \<lparr>cu_username = username, cu_email = email, cu_password = password, cu_full_name = None,
        cu_must_change_password = must_change, cu_send_notify = None\<rparr>) w) (\<lambda>user w. (Ok (CreatedUser user), w))"
| "apply_control_action st call (ActionCreateOrg name full description) w =
     st_then (at_forgejo (create_org (kc_forgejo st) (kc_forgejo_owner st)
       \<lparr>co_username = name, co_full_name = full, co_description = description, co_visibility = None\<rparr>) w)
       (\<lambda>org w. (Ok (CreatedOrg org), w))"
| "apply_control_action st call (ActionCreateRepo name owner ident description private pubkey privkey) w =
     st_then (create_repo_with_announcement st call
       \<lparr>kn_owner = owner, kn_name = name, kn_identifier = ident, kn_description = description, kn_private = private,
        kn_auto_init = None, kn_pubkey = pubkey, kn_privkey = privkey\<rparr> w) (\<lambda>repo w. (Ok (CreatedRepo repo), w))"
| "apply_control_action st call (ActionCreatePullRequest owner repo head base title body draft) w =
     st_then (at_forgejo (create_pull_request (kc_forgejo st) owner repo
       \<lparr>cq_head = head, cq_base = base, cq_title = title, cq_body = body\<rparr>) w) (\<lambda>pull w. (Ok (CreatedPullRequest pull), w))"

definition control_event_handler ::
  "('r, 'w) control_app_state \<Rightarrow> control_call \<Rightarrow> control_event_request \<Rightarrow> ('r, 'w) control_world \<Rightarrow>
   (control_event_response, 'r, 'w) control_result" where
  "control_event_handler st call payload w =
     st_then (st_read (authorize (kx_headers call) (ca_token (kc_auth st))) w) (\<lambda>_ w.
     st_then (st_read (control_require_non_empty ''pubkey'' (ke_pubkey payload)) w) (\<lambda>_ w.
     st_then (st_read (control_require_non_empty ''content'' (ke_content payload)) w) (\<lambda>_ w.
     st_then (st_read (authorize_admin_pubkey (ke_pubkey payload) (kc_auth st)) w) (\<lambda>_ w.
     st_then (st_read (ensure (ke_kind payload < 2 ^ 32) (ControlBadRequest ''invalid kind'')) w) (\<lambda>_ w.
     st_then (st_read (map_err (\<lambda>err. ControlBadRequest (core_error_display err))
         (control_action_parse (kc_action st) (of_nat (ke_kind payload)) (ke_content payload)
           (kind_value KIND_GITTREE_CONTROL))) w) (\<lambda>action w.
     st_then (st_read (ensure_action_pubkey_matches (ke_pubkey payload) action) w) (\<lambda>_ w.
     apply_control_action st call action w)))))))"

section \<open>What the handlers change\<close>

lemma in_storage_simps [simp]:
  "kw_storage (snd (in_storage action w)) = snd (action (kw_storage w))" "kw_forgejo (snd (in_storage action w)) = kw_forgejo w"
  "kw_storage (snd (at_forgejo request w)) = kw_storage w"
  by (simp_all add: in_storage_def at_forgejo_def split: prod.split)

lemma in_storage_Ok:
  "in_storage action w = (Ok x, w') \<longleftrightarrow> action (kw_storage w) = (Ok x, kw_storage w') \<and> w' = w\<lparr>kw_storage := kw_storage w'\<rparr>"
  by (cases w; cases w') (auto simp: in_storage_def map_err_eq_Ok split: prod.splits)

lemma at_forgejo_Ok: "at_forgejo request w = (Ok x, w') \<Longrightarrow> kw_storage w' = kw_storage w"
  using in_storage_simps(3) [of request w] by simp

text \<open>The loop over the relays as the storage sees it.\<close>

abbreviation queued ::
  "('r, 'w) control_app_state \<Rightarrow> control_call \<Rightarrow> signed_nostr_event \<Rightarrow> string \<Rightarrow> string \<Rightarrow> string \<Rightarrow> 'r \<Rightarrow>
   (storage_error, unit, 'r) st_result" where
  "queued st call e owner repo ident \<equiv>
     st_each (\<lambda>relay_url. po_enqueue (kc_publish st) (publish_request e owner repo ident relay_url) (kx_storage_now call))
       (kc_relay_urls st)"

lemma st_each_in_storage:
  "st_each (\<lambda>x. in_storage (f x)) xs w = in_storage (st_each f xs) w"
proof (induction xs arbitrary: w)
  case Nil
  then show ?case by (simp add: in_storage_def)
next
  case (Cons x xs)
  obtain r s where fx: "f x (kw_storage w) = (r, s)" by fastforce
  show ?case
    by (cases r) (simp_all add: in_storage_def [of "f x"] in_storage_def [of "\<lambda>s. st_then (f x s) _"] fx Cons.IH,
      simp add: in_storage_def split: prod.split)
qed

lemma enqueue_publishes_queued:
  "enqueue_publishes st call e owner repo ident w = in_storage (queued st call e owner repo ident) w"
  by (simp add: enqueue_publishes_def st_each_in_storage)

section \<open>What passes the checks\<close>

text \<open>
  What is relied on of the packages: hexadecimal text is read back, and the parsers the relay calls for a signature
  and a key agree with the steps the control service takes.\<close>

definition parsers_agree :: "('r, 'w) control_app_state \<Rightarrow> bool" where
  "parsers_agree st \<longleftrightarrow>
     (\<forall>bs. hex_decode (kc_crypto st) (hex_encode (kc_crypto st) bs) = Some bs) \<and>
     (\<forall>v sig. hex_decode (kc_crypto st) v = Some sig \<longrightarrow> length sig = 64 \<longrightarrow> parse_signature (kc_crypto st) v = Some sig) \<and>
     (\<forall>v key. hex_decode (kc_crypto st) v = Some key \<longrightarrow> length key = 32 \<longrightarrow> kc_xonly st key \<longrightarrow>
        parse_xonly_key (kc_crypto st) v = Some key)"

lemma verified_for_relay:
  assumes "parsers_agree st" and "verify_signed_event st e = Ok key"
  shows "event_verify (kc_crypto st) (event_of_signed e) = Ok ()" and "hex_decode (kc_crypto st) (sn_pubkey e) = Some key"
proof -
  let ?cr = "kc_crypto st"
  obtain digest sig where v: "hex_decode ?cr (sn_id e) = Some digest" "hex_decode ?cr (sn_sig e) = Some sig" "length sig = 64"
    "adapter_event_id ?cr (sn_pubkey e) (sn_created_at e) (sn_kind e) (sn_tags e) (sn_content e) = sn_id e"
    "hex_decode ?cr (sn_pubkey e) = Some key" "length key = 32" "kc_xonly st key" "verify_schnorr ?cr sig digest key"
    using assms(2) by (auto simp: verify_signed_event_def control_parse_pubkey_bytes_def result_simps Let_def)
  define d where "d = sha256 ?cr (canonical_json ?cr (event_of_signed e))"
  have "sn_id e = hex_encode ?cr d"
    using v(4) by (simp add: adapter_event_id_def d_def canonical_json_def canonical_payload_def event_of_signed_def id_payload_def)
  moreover have "digest = d" using v(1) assms(1) calculation by (simp add: parsers_agree_def)
  moreover have "parse_signature ?cr (sn_sig e) = Some sig" "parse_xonly_key ?cr (sn_pubkey e) = Some key"
    using v(2,3,5-7) assms(1) unfolding parsers_agree_def by blast+
  ultimately show "event_verify ?cr (event_of_signed e) = Ok ()"
    using v(8) by (simp add: event_verify_def Let_def flip: d_def) (simp add: event_of_signed_def)
  show "hex_decode ?cr (sn_pubkey e) = Some key" by (rule v(5))
qed

definition announces ::
  "('r, 'w) control_app_state \<Rightarrow> signed_nostr_event \<Rightarrow> repo_announcement \<Rightarrow> string \<Rightarrow> bool" where
  "announces st e a ident \<longleftrightarrow>
     sn_kind e = kind_value KIND_GIT_REPO_ANNOUNCEMENT \<and> announcement_from_tags (sn_tags e) = Ok a \<and>
     announcement_validate a = Ok () \<and> sn_pubkey e \<in> set (ann_maintainers a) \<and>
     set (kc_relay_urls st) \<subseteq> set (ann_relays a) \<and>
     (\<exists>bytes clone. hex_decode (kc_crypto st) (sn_pubkey e) = Some bytes \<and>
        format_grasp_server_url_as_clone_url (ae_url (kc_adapter st)) (kc_bech32 st) (kc_public_git_url st)
          (kc_npub st bytes) ident = Ok clone \<and> clone \<in> set (ann_clone a))"

lemma validate_repo_announcement_Ok:
  assumes "validate_repo_announcement_event st e pubkey = Ok (a, ident, npub, key)"
  shows "sn_pubkey e = pubkey" "verify_signed_event st e = Ok key" "announces st e a ident"
    "ident = normalize_identifier (ann_identifier a)"
proof -
  have "control_npub_from_hex st v = Ok n \<longleftrightarrow> length v = 64 \<and> (\<exists>bytes. hex_decode (kc_crypto st) v = Some bytes \<and> n = kc_npub st bytes)"
    for v n by (auto simp: control_npub_from_hex_def control_parse_pubkey_bytes_def result_simps)
  note npub = this
  show "sn_pubkey e = pubkey" "verify_signed_event st e = Ok key" "announces st e a ident"
    "ident = normalize_identifier (ann_identifier a)"
    using assms
    by (auto simp: validate_repo_announcement_event_def result_simps Let_def announces_def list_ex_iff list_all_iff npub)
qed

lemma create_repo_nostr_cases:
  assumes "create_repo_nostr_handler st call w = (r, w')"
  obtains (refused) e where "r = Err e" "w' = w"
  | (passed) event auth payload a ident npub key account where
      "control_parse_nostr_auth st (kx_headers call) = Ok event" "control_authenticated st call event = Ok auth"
      "kc_repo_request st (kx_body call) = Ok payload"
      "validate_repo_announcement_event st (kq_event payload) (na_pubkey auth) = Ok (a, ident, npub, key)"
      "ao_account_by_pubkey (kc_accounts st) key (kw_storage w) = Ok (Some account)"
      "create_repo_from_signed_event st call (na_pubkey auth) payload w = (r, w')"
proof (cases "control_parse_nostr_auth st (kx_headers call)")
  case event: (Inr event)
  show thesis
  proof (cases "control_authenticated st call event")
    case auth: (Inr auth)
    show thesis
    proof (cases "kx_body call = [] \<or> (\<exists>e. kc_repo_request st (kx_body call) = Inl e)")
      case False
      then obtain payload where payload: "kc_repo_request st (kx_body call) = Ok payload" "kx_body call \<noteq> []"
        by (cases "kc_repo_request st (kx_body call)") auto
      have step: "create_repo_from_signed_event st call (na_pubkey auth) payload w = (r, w')"
        using assms payload by (simp add: create_repo_nostr_handler_def event auth)
      show thesis
      proof (cases "validate_repo_announcement_event st (kq_event payload) (na_pubkey auth)")
        case valid: (Inr v)
        obtain a ident npub key where v: "v = (a, ident, npub, key)" by (metis prod_cases4)
        show thesis
        proof (cases "ao_account_by_pubkey (kc_accounts st) key (kw_storage w)")
          case found: (Inr found)
          show thesis
          proof (cases found)
            case None
            with step refused show thesis by (auto simp: create_repo_from_signed_event_def valid v found)
          next
            case (Some account)
            with passed [OF event auth payload(1) valid [unfolded v] _ step] found show thesis by simp
          qed
        next
          case (Inl e)
          with step refused show thesis by (auto simp: create_repo_from_signed_event_def valid v)
        qed
      next
        case (Inl e)
        with step refused show thesis by (auto simp: create_repo_from_signed_event_def)
      qed
    qed (use assms refused in \<open>auto simp: create_repo_nostr_handler_def event auth ensure_def split: if_splits\<close>)
  next
    case (Inl e)
    with assms refused show thesis by (auto simp: create_repo_nostr_handler_def event)
  qed
next
  case (Inl e)
  with assms refused show thesis by (auto simp: create_repo_nostr_handler_def)
qed

lemma create_repo_from_signed_event_shape:
  assumes "create_repo_from_signed_event st call pubkey payload w = (r, w')"
    and "validate_repo_announcement_event st (kq_event payload) pubkey = Ok (a, ident, npub, key)"
    and "ao_account_by_pubkey (kc_accounts st) key (kw_storage w) = Ok (Some account)"
  shows "kw_storage w' = kw_storage w \<and> (\<exists>e. r = Err e) \<or>
    (\<exists>name. kw_storage w' = snd (queued st call (kq_event payload) (ac_forgejo_username account) name ident
         (kw_storage w)) \<and>
       (\<forall>resp. r = Ok resp \<longrightarrow> kp_owner resp = ac_forgejo_username account \<and> kp_name resp = name \<and>
         fst (queued st call (kq_event payload) (ac_forgejo_username account) name ident (kw_storage w)) = Ok ()))"
proof -
  obtain q w1 where forge: "at_forgejo (create_repo_for_owner (kc_forgejo st) (ac_forgejo_username account)
         \<lparr>cp_name = ident, cp_description = ann_description a,
          cp_private = Some (unwrap_or (kq_private payload) (kc_repo_private_default st)), cp_auto_init = None\<rparr>) w = (q, w1)"
    by fastforce
  have w1: "kw_storage w1 = kw_storage w" using forge in_storage_simps(3) by (metis snd_conv)
  show ?thesis
  proof (cases q)
    case (Inl e)
    then show ?thesis
      using assms(1) w1 by (simp add: create_repo_from_signed_event_def assms(2,3) forge Let_def) auto
  next
    case (Inr repo)
    let ?q = "queued st call (kq_event payload) (ac_forgejo_username account) (fi_name repo) ident"
    obtain u s where u: "?q (kw_storage w) = (u, s)" by fastforce
    have "st_then (in_storage ?q w1) (\<lambda>_ w. (Ok \<lparr>kp_owner = ac_forgejo_username account, kp_name = fi_name repo,
        kp_html_url = fi_html_url repo\<rparr>, w)) = (r, w')"
      using assms(1) by (simp add: create_repo_from_signed_event_def assms(2,3) forge Let_def Inr enqueue_publishes_queued)
    then have "kw_storage w' = s \<and> (\<forall>resp. r = Ok resp \<longrightarrow> kp_owner resp = ac_forgejo_username account \<and>
        kp_name resp = fi_name repo \<and> u = Ok ())"
      using u w1 by (cases u) (auto simp: in_storage_def map_err_def)
    then have "kw_storage w' = snd (?q (kw_storage w)) \<and> (\<forall>resp. r = Ok resp \<longrightarrow> kp_owner resp = ac_forgejo_username account \<and>
        kp_name resp = fi_name repo \<and> fst (?q (kw_storage w)) = Ok ())"
      by (simp add: u)
    then show ?thesis by blast
  qed
qed

text \<open>
  C11: A signed request changes the storage only by queueing its own announcement. Whoever asks has signed the request
  with the key that also signed the event; the event is a valid announcement that every relay accepts as signed,
  names this key as a maintainer, this server's address of the repository among the clone addresses and every relay
  of the service. The repository belongs to the account of that key, and the answer names it. Success means that the
  announcement is queued for each relay.\<close>

theorem signed_repo_gate:
  assumes "parsers_agree st" and "create_repo_nostr_handler st call w = (r, w')"
    and "kw_storage w' \<noteq> kw_storage w \<or> (\<exists>resp. r = Ok resp)"
  shows "\<exists>event auth payload a ident account repo.
    control_parse_nostr_auth st (kx_headers call) = Ok event \<and> control_authenticated st call event = Ok auth \<and>
    kc_repo_request st (kx_body call) = Ok payload \<and> sn_pubkey (kq_event payload) = na_pubkey auth \<and>
    event_verify (kc_crypto st) (event_of_signed (kq_event payload)) = Ok () \<and>
    announces st (kq_event payload) a ident \<and>
    ao_account_by_pubkey (kc_accounts st) (na_pubkey_bytes auth) (kw_storage w) = Ok (Some account) \<and>
    kw_storage w' = snd (queued st call (kq_event payload) (ac_forgejo_username account) repo ident (kw_storage w)) \<and>
    (\<forall>resp. r = Ok resp \<longrightarrow> kp_owner resp = ac_forgejo_username account \<and> kp_name resp = repo \<and>
       fst (queued st call (kq_event payload) (ac_forgejo_username account) repo ident (kw_storage w)) = Ok ())"
  using assms(2)
proof (cases rule: create_repo_nostr_cases)
  case (refused e)
  then show ?thesis using assms(3) by simp
next
  case (passed event auth payload a ident npub key account)
  note valid = validate_repo_announcement_Ok [OF passed(4)]
  note sound = verified_for_relay [OF assms(1) valid(2)]
  have "hex_decode (kc_crypto st) (na_pubkey auth) = Some (na_pubkey_bytes auth)"
    using passed(2)
    by (auto simp: control_authenticated_def result_simps validate_nip98_def verify_signature_def)
  then have key: "key = na_pubkey_bytes auth" using sound(2) valid(1) by simp
  from create_repo_from_signed_event_shape [OF passed(6,4,5)] show ?thesis
    using passed(1-3,5) valid(1,3) sound(1) assms(3) unfolding key by (elim disjE exE conjE) blast+
qed


section \<open>Tenants, from the control service to the relay\<close>

text \<open>The part of \<open>InMemoryRepositories\<close> the service uses.\<close>

record control_storage =
  cs_directory :: in_memory_directory
  cs_members :: in_memory_memberships
  cs_outbox :: outbox

definition on_members ::
  "(in_memory_memberships \<Rightarrow> ('e, 'a, in_memory_memberships) st_result) \<Rightarrow> control_storage \<Rightarrow> ('e, 'a, control_storage) st_result" where
  "on_members action s = (case action (cs_members s) of (r, m) \<Rightarrow> (r, s\<lparr>cs_members := m\<rparr>))"

definition memory_membership_ops :: "encoder \<Rightarrow> control_storage membership_ops" where
  "memory_membership_ops enc =
     (let ops = in_memory_ops enc in
      \<lparr>mo_upsert_membership = (\<lambda>r. on_members (mo_upsert_membership ops r)),
       mo_membership_by_pubkey = (\<lambda>t pk s. mo_membership_by_pubkey ops t pk (cs_members s)),
       mo_list_memberships = (\<lambda>t s. mo_list_memberships ops t (cs_members s)),
       mo_remove_membership = (\<lambda>t pk. on_members (mo_remove_membership ops t pk)),
       mo_insert_invite = (\<lambda>i. on_members (mo_insert_invite ops i)),
       mo_invite_by_code = (\<lambda>t c s. mo_invite_by_code ops t c (cs_members s)),
       mo_delete_invite = (\<lambda>t c. on_members (mo_delete_invite ops t c))\<rparr>)"

definition memory_tenant_ops :: "control_storage tenant_ops" where
  "memory_tenant_ops =
     \<lparr>to_upsert_tenant = (\<lambda>r s. (Ok (), s\<lparr>cs_directory := upsert_tenant r (cs_directory s)\<rparr>)),
      to_tenant_by_host = (\<lambda>host s. Ok (tenant_by_host host (cs_directory s)))\<rparr>"

definition on_control_storage ::
  "encoder \<Rightarrow> (control_storage, 'w) control_app_state \<Rightarrow> (control_storage, 'w) control_app_state" where
  "on_control_storage enc st = st\<lparr>kc_tenants := memory_tenant_ops, kc_membership := memory_membership_ops enc\<rparr>"

text \<open>The contract of \<open>RelayTenantRepository\<close> for a reader: a tenant is found under the host it was stored with.\<close>

locale tenant_repo =
  fixes ops :: "'r tenant_ops"
    and inv :: "'r \<Rightarrow> bool"
  assumes upsert_inv: "inv s \<Longrightarrow> inv (snd (to_upsert_tenant ops r s))"
    and found_stored: "inv s \<Longrightarrow> to_upsert_tenant ops r s = (Ok (), s') \<Longrightarrow> to_tenant_by_host ops (tn_host r) s' = Ok (Some r)"
    and others_kept: "inv s \<Longrightarrow> to_upsert_tenant ops r s = (Ok (), s') \<Longrightarrow> host \<noteq> tn_host r \<Longrightarrow>
      to_tenant_by_host ops host s = Ok (Some t) \<Longrightarrow> tn_id t \<noteq> tn_id r \<Longrightarrow> to_tenant_by_host ops host s' = Ok (Some t)"

definition control_storage_inv :: "control_storage \<Rightarrow> bool" where
  "control_storage_inv s \<longleftrightarrow> directory_wf (cs_directory s) \<and> im_inv (cs_members s) \<and>
     (\<forall>i t. tenant_by_id i (cs_directory s) = Some t \<longrightarrow> tn_id t = i)"

interpretation memory_tenants: tenant_repo memory_tenant_ops control_storage_inv
proof unfold_locales
  fix s s' r host t
  assume inv: "control_storage_inv s"
  then have wf: "hm_wf (dr_tenants_by_id (cs_directory s))" "hm_wf (dr_tenants_by_host (cs_directory s))"
    and ids: "\<And>i t. map_of (dr_tenants_by_id (cs_directory s)) i = Some t \<Longrightarrow> tn_id t = i"
    by (simp_all add: control_storage_inv_def directory_wf_def tenant_by_id_def)
  show "control_storage_inv (snd (to_upsert_tenant memory_tenant_ops r s))"
    using inv directory_wf_upsert(2) [of "cs_directory s" r] wf
    by (auto simp: control_storage_inv_def memory_tenant_ops_def tenant_by_id_def upsert_tenant_def tenant_key_def hm.get_put)
  assume up: "to_upsert_tenant memory_tenant_ops r s = (Ok (), s')"
  then show "to_tenant_by_host memory_tenant_ops (tn_host r) s' = Ok (Some r)"
    using wf by (auto simp: memory_tenant_ops_def tenant_by_host_def upsert_tenant_def tenant_key_def hm.get_put)
  assume "host \<noteq> tn_host r" "to_tenant_by_host memory_tenant_ops host s = Ok (Some t)" "tn_id t \<noteq> tn_id r"
  then show "to_tenant_by_host memory_tenant_ops host s' = Ok (Some t)"
    using up wf ids
    by (auto simp: memory_tenant_ops_def tenant_by_host_def upsert_tenant_def tenant_key_def hm.get_put split: option.splits)
qed

context hex_codec
begin

lemma memberships_memory: "membership_repo (in_memory_ops enc) im_inv"
  by (rule in_memory.membership_repo_axioms)

end

lemma tenant_record_new_fields:
  assumes "tenant_record_new dec i host relay_pubkey secret nonce kid name description icon banner contact auth_required
    public_read public_write created updated = Ok t"
  shows "tn_id t = i" "tn_host t = to_ascii_lowercase (trim host)" "dec relay_pubkey = Some (tn_relay_pubkey t)"
    "tn_relay_secret t = secret" "tn_auth_required t = auth_required" "tn_public_read t = public_read"
    "tn_public_write t = public_write"
  using assms by (auto simp: tenant_record_new_def result_simps decode_hex_32_Ok Let_def)

lemma create_tenant_Ok:
  assumes "create_tenant_handler st call w = (Ok resp, w')"
  obtains event key auth payload t s where
    "control_parse_nostr_auth st (kx_headers call) = Ok event" "control_authenticated st call event = Ok auth"
    "hex_decode (kc_crypto st) (nip98_event.ne_pubkey event) = Some key"
    "kc_tenant_request st (kx_body call) = Ok payload" "control_normalize_host (kt_host payload) = Ok (ks_host resp)"
    "to_tenant_by_host (kc_tenants st) (ks_host resp) (kw_storage w) = Ok None"
    "tenant_record_of st call payload (ks_host resp) = Ok t"
    "to_upsert_tenant (kc_tenants st) t (kw_storage w) = (Ok (), s)"
    "mo_upsert_membership (kc_membership st) (owner_membership call (ks_host resp) key) s = (Ok (), kw_storage w')"
    "ks_tenant_id resp = ks_host resp" "ks_owner_pubkey resp = nip98_event.ne_pubkey event"
proof -
  obtain event key auth payload host t w1 where steps:
    "control_parse_nostr_auth st (kx_headers call) = Ok event" "control_authenticated st call event = Ok auth"
    "hex_decode (kc_crypto st) (nip98_event.ne_pubkey event) = Some key"
    "kc_tenant_request st (kx_body call) = Ok payload" "control_normalize_host (kt_host payload) = Ok host"
    "to_tenant_by_host (kc_tenants st) host (kw_storage w) = Ok None" "tenant_record_of st call payload host = Ok t"
    "in_storage (to_upsert_tenant (kc_tenants st) t) w = (Ok (), w1)"
    "in_storage (mo_upsert_membership (kc_membership st) (owner_membership call host key)) w1 = (Ok (), w')"
    "ks_host resp = host" "ks_tenant_id resp = host" "ks_owner_pubkey resp = nip98_event.ne_pubkey event"
    using assms
    by (auto simp: create_tenant_handler_def st_then_Ok st_read_def control_parse_pubkey_bytes_def map_err_eq_Ok
        ok_or_eq_Ok ensure_eq_Ok)
  show thesis
    by (rule that [of event auth key payload t "kw_storage w1"]) (use steps in \<open>simp_all add: in_storage_Ok\<close>)
qed


lemma to_ascii_lowercase_dot: "s \<noteq> [] \<Longrightarrow> last (to_ascii_lowercase s) = CHR ''.'' \<longleftrightarrow> last s = CHR ''.''"
proof -
  have "char_of (byte c + 32) \<noteq> CHR ''.''" if "65 \<le> byte c" "byte c \<le> 90" for c
  proof
    assume "char_of (byte c + 32) = CHR ''.''"
    then have "byte (char_of (byte c + 32)) = byte CHR ''.''" by (rule arg_cong)
    with that show False by simp
  qed
  then have "(if 65 \<le> byte c \<and> byte c \<le> 90 then char_of (byte c + 32) else c) = CHR ''.'' \<longleftrightarrow> c = CHR ''.''" for c
    by auto
  then show "s \<noteq> [] \<Longrightarrow> ?thesis" by (simp add: to_ascii_lowercase_def last_map)
qed

text \<open>
  A tenant for a host with a dot before the port is made under a name that ends in the dot, and the relay strips
  such dots from every host it is asked for (but for one in brackets): the tenant is there and never found.\<close>

theorem dotted_host_unreachable:
  assumes "\<not> starts_with (trim v) ''[''"
  shows "control_normalize_host ''example.com.:443'' = Ok ''example.com.'' \<and> relay_normalize_host v \<noteq> ''example.com.''"
proof
  have "trim ''example.com.:443'' = ''example.com.:443''" "trim ''example.com.'' = ''example.com.''"
    by (rule trim_plain_ends; simp)+
  then show "control_normalize_host ''example.com.:443'' = Ok ''example.com.''"
    by (simp add: control_normalize_host_def trim_end_char_def strip_prefix_def part_def unwrap_or_def
        to_ascii_lowercase_def ensure_def)
  let ?v = "trim_end_char CHR ''.'' (trim v)"
  have "strip_prefix ?v ''['' = None"
    using assms trim_end_char_prefix [of "CHR ''.''" "trim v"]
    by (auto simp: strip_prefix_def starts_with_def dest: prefix_order.trans)
  then obtain s where s: "relay_normalize_host v = to_ascii_lowercase (trim_end_char CHR ''.'' s)"
    by (simp add: relay_normalize_host_def Let_def)
  show "relay_normalize_host v \<noteq> ''example.com.''"
  proof
    assume eq: "relay_normalize_host v = ''example.com.''"
    then have some: "trim_end_char CHR ''.'' s \<noteq> []" unfolding s by (auto simp: to_ascii_lowercase_def)
    have "last (relay_normalize_host v) \<noteq> CHR ''.''"
      unfolding s using to_ascii_lowercase_dot [OF some] trim_end_char_ends [OF some] by simp
    then show False by (simp add: eq)
  qed
qed

theorem dotted_host_unreachable_witness:
  "control_normalize_host ''example.com.:443'' = Ok ''example.com.'' \<and> relay_normalize_host ''example.com.'' \<noteq> ''example.com.''"
proof -
  have "trim ''example.com.'' = ''example.com.''" by (rule trim_plain_ends; simp)
  then show ?thesis by (intro dotted_host_unreachable) (simp add: starts_with_def)
qed

section \<open>A sample service\<close>

abbreviation sample_hex_key :: string where
  "sample_hex_key \<equiv> bytes_to_hex (replicate 32 7)"

definition sample_control_adapter :: adapter_env where
  "sample_control_adapter = sample_adapter_env
     \<lparr>ae_url := (\<lambda>_. Some \<lparr>url_scheme = ''https'', url_host_str = Some ''g'', url_port = None, url_path = ''/''\<rparr>)\<rparr>"

definition sample_repo_announcement :: repo_announcement where
  "sample_repo_announcement =
     \<lparr>ann_identifier = ''x'', ann_name = Some ''x'', ann_description = None, ann_root_commit = None,
      ann_clone = [''https://g/npub1/x.git''], ann_web = [], ann_relays = [''wss://r''], ann_blossoms = [],
      ann_hashtags = [], ann_maintainers = [sample_hex_key]\<rparr>"

definition sample_signed :: signed_nostr_event where
  "sample_signed =
     \<lparr>sn_id = bytes_to_hex (replicate 32 0), sn_pubkey = sample_hex_key, sn_created_at = 7,
      sn_kind = kind_value KIND_GIT_REPO_ANNOUNCEMENT, sn_tags = announcement_to_tags sample_repo_announcement,
      sn_content = [], sn_sig = bytes_to_hex (replicate 64 1)\<rparr>"

definition sample_control_state :: "string \<Rightarrow> (control_storage, unit) control_app_state" where
  "sample_control_state host = on_control_storage bytes_to_hex
     \<lparr>kc_auth = \<lparr>ca_token = ''t'', ca_admin_keys = []\<rparr>,
      kc_forgejo =
        \<lparr>fo_config = \<lparr>fc_base_url = ''http://f'', fc_api_token = ''t'', fc_owner = ''o'', fc_webhook_url = ''http://w'',
            fc_webhook_secret = ''s'', fc_repo_private = False\<rparr>,
         fo_send = (\<lambda>_ w. (Ok \<lparr>fs_status = 201, fs_body = []\<rparr>, w)), fo_to_string = (\<lambda>_. []),
         fo_parse_repo = (\<lambda>_. Ok \<lparr>rp_resp_full_name = ''ada/x'', rp_resp_name = ''x'', rp_resp_owner_username = ''ada'',
           rp_resp_html_url = None\<rparr>),
         fo_parse_user = (\<lambda>_. Err []), fo_parse_org = (\<lambda>_. Err []), fo_parse_pull = (\<lambda>_. Err []),
         fo_parse_hooks = (\<lambda>_. Err [])\<rparr>,
      kc_forgejo_owner = ''o'',
      kc_accounts = \<lparr>ao_upsert_account = (\<lambda>_ s. (Ok (), s)),
        ao_account_by_pubkey = (\<lambda>key _. Ok (Some \<lparr>ac_pubkey = key, ac_forgejo_username = ''ada''\<rparr>)),
        ao_account_by_username = (\<lambda>_ _. Ok None)\<rparr>,
      kc_publish = \<lparr>po_enqueue = (\<lambda>request now s.
          (case enqueue_relay_publish bytes_of_hex request now (cs_outbox s) of (r, ob) \<Rightarrow> (r, s\<lparr>cs_outbox := ob\<rparr>))),
        po_claim = (\<lambda>_ s. (Ok None, s)), po_succeeded = (\<lambda>_ s. (Ok (), s)), po_failed = (\<lambda>_ _ _ s. (Ok (), s)),
        po_pending = (\<lambda>_ _ _ _. Ok 0)\<rparr>,
      kc_tenants = memory_tenant_ops, kc_membership = memory_membership_ops bytes_to_hex,
      kc_relay_urls = [''wss://r''], kc_public_git_url = ''https://g'', kc_repo_private_default = False,
      kc_adapter = sample_control_adapter, kc_xonly = (\<lambda>_. True), kc_bech32 = (\<lambda>_. Some (''npub'', replicate 32 7)),
      kc_npub = (\<lambda>_. ''npub1''), kc_base64 = (\<lambda>_. Some []), kc_event = (\<lambda>_. Some (sample_auth_event ''https://g/x'')),
      kc_repo_request = (\<lambda>_. Ok \<lparr>kq_event = sample_signed, kq_private = None\<rparr>),
      kc_tenant_request = (\<lambda>_. Ok \<lparr>kt_host = host, kt_name = None, kt_description = None, kt_icon = None, kt_banner = None,
        kt_contact = None, kt_auth_required = None, kt_public_read = None, kt_public_write = None\<rparr>),
      kc_action = (\<lambda>_. None)\<rparr>"

definition sample_control_call :: "string \<Rightarrow> control_call" where
  "sample_control_call authorization =
     \<lparr>kx_headers = [''authorization'' \<mapsto> Some authorization, ''host'' \<mapsto> Some ''g'', ''x-forwarded-proto'' \<mapsto> Some ''https''],
      kx_method = ''POST'', kx_path_and_query = Some ''/x'', kx_path = ''/x'', kx_body = [1], kx_now = 30,
      kx_storage_now = 30, kx_secret = [1], kx_nonce = [1]\<rparr>"

definition sample_control_storage :: control_storage where
  "sample_control_storage =
     \<lparr>cs_directory = upsert_tenant (open_tenant ''r'') new_directory,
      cs_members = \<lparr>im_memberships = [], im_invites = []\<rparr>, cs_outbox = new_outbox\<rparr>"

lemma sample_control_crypto:
  "kc_crypto (sample_control_state host) = sample_adapter_crypto" "kc_xonly (sample_control_state host) = (\<lambda>_. True)"
  "signing_sound (kc_adapter (sample_control_state host))"
  using sample_adapter_sound
  by (simp_all add: sample_control_state_def on_control_storage_def sample_control_adapter_def sample_adapter_env_def
      signing_sound_def)

lemma sample_control_on: "on_control_storage bytes_to_hex (sample_control_state host) = sample_control_state host"
  by (simp add: sample_control_state_def on_control_storage_def)

lemma sample_control_authenticated:
  "control_parse_nostr_auth (sample_control_state host) (kx_headers (sample_control_call ''Nostr x'')) =
     Ok (sample_auth_event ''https://g/x'')"
  "control_authenticated (sample_control_state host) (sample_control_call ''Nostr x'') (sample_auth_event ''https://g/x'') =
     Ok \<lparr>na_pubkey = sample_hex_key, na_pubkey_bytes = replicate 32 7, na_event_id = bytes_to_hex (replicate 32 0)\<rparr>"
proof -
  have "trim ''Nostr x'' = ''Nostr x''" by (rule trim_plain_ends) simp_all
  then show "control_parse_nostr_auth (sample_control_state host) (kx_headers (sample_control_call ''Nostr x'')) =
     Ok (sample_auth_event ''https://g/x'')"
    by (simp add: control_parse_nostr_auth_def header_text_def sample_control_call_def strip_prefix_def
        sample_control_state_def on_control_storage_def)
  have url: "control_build_request_url (sample_control_call ''Nostr x'') = Ok ''https://g/x''"
    by (simp add: control_build_request_url_def header_text_def sample_control_call_def unwrap_or_def)
  have payload: "payload_hash sample_adapter_crypto [1] = Some (bytes_to_hex (replicate 32 0))"
    by (simp add: payload_hash_def sample_adapter_crypto_def toy_auth_crypto_def)
  have "is_hex_len (bytes_to_hex (replicate 32 0)) 64" "is_hex_len sample_hex_key 64"
    "is_hex_len (bytes_to_hex (replicate 64 1)) 128"
    using bytes_to_hex_is_hex [of "replicate 32 0"] bytes_to_hex_is_hex [of "replicate 32 7"]
      bytes_to_hex_is_hex [of "replicate 64 1"] by simp_all
  then show "control_authenticated (sample_control_state host) (sample_control_call ''Nostr x'')
      (sample_auth_event ''https://g/x'') =
     Ok \<lparr>na_pubkey = sample_hex_key, na_pubkey_bytes = replicate 32 7, na_event_id = bytes_to_hex (replicate 32 0)\<rparr>"
    using payload unfolding control_authenticated_def url sample_control_crypto
    by (simp add: sample_control_crypto control_nip98_request_def sample_control_call_def
        validate_nip98_def require_hex_def auth_tag_value_def build_event_id_def verify_signature_def
        sample_auth_event_def)
      (simp add: sample_adapter_crypto_def toy_auth_crypto_def hex_bytes.dec_enc)
qed

lemma sample_create_tenant:
  assumes "control_normalize_host h = Ok host" and "host \<noteq> ''r''" and "\<not> blank host"
    and "to_ascii_lowercase (trim host) = kept_host" and "kept_host \<noteq> []" and "length kept_host < 9" and "CHR '' '' \<notin> set kept_host"
  shows "\<exists>resp w' t. create_tenant_handler (sample_control_state h) (sample_control_call ''Nostr x'')
      \<lparr>kw_storage = sample_control_storage, kw_forgejo = ()\<rparr> = (Ok resp, w') \<and> ks_host resp = host \<and> ks_tenant_id resp = host \<and>
    tenant_by_host kept_host (cs_directory (kw_storage w')) = Some t \<and> tn_id t = host"
proof -
  have "trim ''local'' = ''local''" by (rule trim_plain_ends; simp)
  then have kid: "\<not> blank ''local''" by simp
  have decoded: "decode_hex_32 bytes_of_hex field sample_hex_key = Ok (replicate 32 7)" for field
    using bytes_to_hex_is_hex [of "replicate 32 7"] by (simp add: decode_hex_32_Ok bytes_of_hex_encoded is_hex_len_def)
  let ?st = "sample_control_state h" and ?call = "sample_control_call ''Nostr x''"
  have request: "kc_tenant_request ?st (kx_body ?call) = Ok \<lparr>kt_host = h, kt_name = None, kt_description = None,
      kt_icon = None, kt_banner = None, kt_contact = None, kt_auth_required = None, kt_public_read = None, kt_public_write = None\<rparr>"
    "kx_body ?call = [1]" "kc_tenants ?st = memory_tenant_ops" "kc_membership ?st = memory_membership_ops bytes_to_hex"
    by (simp_all add: sample_control_state_def on_control_storage_def sample_control_call_def)
  have "hex_decode sample_adapter_crypto = bytes_of_hex" "hex_encode sample_adapter_crypto = bytes_to_hex"
    "ae_pubkey (kc_adapter ?st) = (\<lambda>_. replicate 32 7)"
    by (simp_all add: sample_adapter_crypto_def toy_auth_crypto_def sample_control_state_def on_control_storage_def
        sample_control_adapter_def sample_adapter_env_def)
  then obtain t where t: "tenant_record_of ?st ?call \<lparr>kt_host = h, kt_name = None, kt_description = None,
      kt_icon = None, kt_banner = None, kt_contact = None, kt_auth_required = None, kt_public_read = None,
      kt_public_write = None\<rparr> host = Ok t"
    using assms(3-7) kid
    by (simp add: tenant_record_of_def tenant_record_new_def sample_control_crypto sample_control_call_def decoded
        normalize_optional_def normalize_optional_url_def ensure_def MAX_HOST_LEN_def Let_def)
  note fields = tenant_record_new_fields(1,2) [OF t [unfolded tenant_record_of_def]]
  have none: "tenant_by_host host (cs_directory sample_control_storage) = None"
    using assms(2) by (simp add: sample_control_storage_def tenant_by_host_def upsert_tenant_def new_directory_def open_tenant_def)
  have "hex_decode sample_adapter_crypto (nip98_event.ne_pubkey (sample_auth_event ''https://g/x'')) = Some (replicate 32 7)"
    by (simp add: sample_adapter_crypto_def toy_auth_crypto_def sample_auth_event_def hex_bytes.dec_enc)
  then obtain resp w' where made: "create_tenant_handler ?st ?call \<lparr>kw_storage = sample_control_storage, kw_forgejo = ()\<rparr> = (Ok resp, w')"
    and resp: "ks_host resp = host" "ks_tenant_id resp = host"
    using none assms(1) request t
    by (simp add: create_tenant_handler_def sample_control_authenticated control_parse_pubkey_bytes_def sample_control_crypto
        memory_tenant_ops_def in_storage_def memory_membership_ops_def on_members_def in_memory_ops_def)
  have "tenant_by_host kept_host (cs_directory (kw_storage w')) = Some t"
  proof (cases rule: create_tenant_Ok [OF made])
    case (1 event key auth payload t' s)
    then have t': "t' = t" using t request(1) resp(1) by simp
    have "directory_wf (cs_directory sample_control_storage)"
      by (simp add: sample_control_storage_def directory_wf_upsert(2) directory_wf_new)
    moreover have "cs_directory (kw_storage w') = upsert_tenant t (cs_directory sample_control_storage)"
      using 1(8) arg_cong [OF 1(9), of "\<lambda>r. cs_directory (snd r)"] unfolding t'
      by (auto simp: request memory_tenant_ops_def memory_membership_ops_def on_members_def in_memory_ops_def Let_def)
    ultimately show ?thesis
      using fields(2) assms(4)
      by (simp add: tenant_by_host_def upsert_tenant_def tenant_key_def directory_wf_def hm.get_put)
  qed
  then show ?thesis using made resp fields(1) by blast
qed

lemma sample_control_inv: "control_storage_inv sample_control_storage"
  by (auto simp: control_storage_inv_def sample_control_storage_def directory_wf_upsert(2) directory_wf_new im_inv_def hm_wf_def)
    (auto simp: tenant_by_id_def upsert_tenant_def new_directory_def tenant_key_def split: if_splits)

lemma sample_hosts:
  "control_normalize_host ''b'' = Ok ''b''" "control_normalize_host ''r :1'' = Ok ''r ''" "trim ''b'' = ''b''" "trim ''r '' = ''r''"
proof -
  have "trim ''r :1'' = ''r :1''" by (rule trim_plain_ends; simp)
  moreover show b: "trim ''b'' = ''b''" by (rule trim_plain_ends; simp)
  moreover show r: "trim ''r '' = ''r''" by code_simp
  ultimately show "control_normalize_host ''b'' = Ok ''b''" "control_normalize_host ''r :1'' = Ok ''r ''"
    by (simp_all add: control_normalize_host_def trim_end_char_def strip_prefix_def part_def unwrap_or_def
        to_ascii_lowercase_def ensure_def)
qed


text \<open>
  The check for a host that is taken looks for the name with its spaces, the record is stored under the name
  without them: with a space before the port the check passes, and in the in-memory storage the new tenant takes the
  host of the one that was there.\<close>

theorem spaced_host_takes_over:
  "\<exists>st call w resp w' old t. control_storage_inv (kw_storage w) \<and>
    create_tenant_handler (on_control_storage bytes_to_hex st) call w = (Ok resp, (w' :: (control_storage, unit) control_world)) \<and>
    tenant_by_host ''r'' (cs_directory (kw_storage w)) = Some old \<and>
    tenant_by_host ''r'' (cs_directory (kw_storage w')) = Some t \<and> tn_id t \<noteq> tn_id old \<and> ks_host resp \<noteq> tn_host t"
proof -
  obtain resp w' t where made: "create_tenant_handler (sample_control_state ''r :1'') (sample_control_call ''Nostr x'')
      \<lparr>kw_storage = sample_control_storage, kw_forgejo = ()\<rparr> = (Ok resp, w')" and resp: "ks_host resp = ''r ''"
    and t: "tenant_by_host ''r'' (cs_directory (kw_storage w')) = Some t" "tn_id t = ''r ''"
    using sample_create_tenant [OF sample_hosts(2), of "''r''"] sample_hosts(4) by (auto simp: to_ascii_lowercase_def)
  have made': "create_tenant_handler (on_control_storage bytes_to_hex (sample_control_state ''r :1'')) (sample_control_call ''Nostr x'')
      \<lparr>kw_storage = sample_control_storage, kw_forgejo = ()\<rparr> = (Ok resp, w')"
    using made by (simp only: sample_control_on)
  have old: "tenant_by_host ''r'' (cs_directory sample_control_storage) = Some (open_tenant ''r'')" "tn_id (open_tenant ''r'') = ''r''"
    by (simp_all add: sample_control_storage_def tenant_by_host_def upsert_tenant_def new_directory_def open_tenant_def tenant_key_def)
  have "tn_host t \<noteq> ''r ''"
  proof (cases rule: create_tenant_Ok [OF made])
    case (1 event key auth payload t' s)
    have "tn_host t' = ''r''"
      using tenant_record_new_fields(2) [OF 1(7) [unfolded tenant_record_of_def]] sample_hosts(4)
      by (simp add: resp to_ascii_lowercase_def)
    moreover have "t' = t"
      using 1(8,9) t(1) resp memory_tenants.found_stored [OF sample_control_inv, of t' s] calculation
      by (auto simp: sample_control_state_def on_control_storage_def memory_tenant_ops_def memory_membership_ops_def on_members_def
          in_memory_ops_def Let_def dest: arg_cong [where f = cs_directory])
    ultimately show ?thesis by simp
  qed
  then show ?thesis
    using made' t old resp sample_control_inv
    by (intro exI [of _ "sample_control_state ''r :1''"] exI [of _ "sample_control_call ''Nostr x''"]
        exI [of _ "\<lparr>kw_storage = sample_control_storage, kw_forgejo = ()\<rparr>"] exI [of _ resp] exI [of _ w']
        exI [of _ "open_tenant ''r''"] exI [of _ t]) auto
qed

lemma sample_parsers_agree: "parsers_agree (sample_control_state host)"
  by (simp add: parsers_agree_def sample_control_crypto)
    (simp add: sample_adapter_crypto_def toy_auth_crypto_def hex_bytes.dec_enc)

lemma sample_hex:
  "length (bytes_to_hex (replicate n b)) = 2 * n" "0 < n \<Longrightarrow> \<not> blank (bytes_to_hex (replicate n b))"
  "is_hex_len (bytes_to_hex (replicate n b)) (2 * n)"
proof -
  show hex: "is_hex_len (bytes_to_hex (replicate n b)) (2 * n)" using bytes_to_hex_is_hex [of "replicate n b"] by simp
  then show len: "length (bytes_to_hex (replicate n b)) = 2 * n" by (simp add: is_hex_len_def)
  show "0 < n \<Longrightarrow> \<not> blank (bytes_to_hex (replicate n b))"
    using hex len by (intro hex_not_blank) (auto simp: is_hex_len_def dest: arg_cong [where f = length])
qed

lemma sample_plain:
  "\<not> blank ''x''" "\<not> blank ''ada''" "\<not> blank ''wss://r''" "\<not> blank ''https://g/npub1/x.git''"
  by (rule not_blank_lead; simp)+

lemma sample_clone:
  "format_grasp_server_url_as_clone_url (ae_url (kc_adapter (sample_control_state host))) (kc_bech32 (sample_control_state host))
     (kc_public_git_url (sample_control_state host)) ''npub1'' ''x'' = Ok ''https://g/npub1/x.git''"
  by (simp add: format_grasp_server_url_as_clone_url_def validate_npub_def normalize_grasp_server_url_def
      sample_control_state_def on_control_storage_def sample_control_adapter_def str_contains_def trim_end_char_def)

lemma sample_npub: "control_npub_from_hex (sample_control_state host) sample_hex_key = Ok ''npub1''"
  using sample_hex(1) [of 32 7]
  by (simp add: control_npub_from_hex_def control_parse_pubkey_bytes_def sample_control_crypto)
    (simp add: sample_adapter_crypto_def toy_auth_crypto_def hex_bytes.dec_enc sample_control_state_def on_control_storage_def)

lemma sample_made:
  "at_forgejo (create_repo_for_owner (kc_forgejo (sample_control_state host)) owner repo) w =
     (Ok \<lparr>fi_owner = ''ada'', fi_name = ''x'', fi_full_name = ''ada/x'', fi_html_url = None\<rparr>, w)"
  by (simp add: at_forgejo_def create_repo_for_owner_def forgejo_post_def sample_control_state_def on_control_storage_def
      into_repo_def Let_def)

lemma sample_queued:
  assumes "sn_id e = bytes_to_hex (replicate 32 0)" "sn_pubkey e = sample_hex_key" "sn_sig e = bytes_to_hex (replicate 64 1)"
  shows "\<exists>w'. enqueue_publishes (sample_control_state host) call e ''ada'' ''x'' ''x'' w = (Ok (), w')"
proof -
  have "publish_request_decode bytes_of_hex (publish_request e ''ada'' ''x'' ''x'' ''wss://r'') \<noteq> Inl err" for err
    using sample_hex(1) [of 32 0] sample_hex(1) [of 32 7] sample_hex(1) [of 64 1] sample_plain
    by (simp add: publish_request_decode_def publish_request_def require_non_empty_def decode_hex_field_def assms
        HEX_32_LEN_def HEX_64_LEN_def hex_bytes.dec_enc)
  then obtain entry where "publish_request_decode bytes_of_hex (publish_request e ''ada'' ''x'' ''x'' ''wss://r'') = Inr entry"
    by (cases "publish_request_decode bytes_of_hex (publish_request e ''ada'' ''x'' ''x'' ''wss://r'')") auto
  then show ?thesis
    by (simp add: enqueue_publishes_def sample_control_state_def on_control_storage_def in_storage_def enqueue_relay_publish_def
        next_outbox_id_def)
qed

lemma sample_announcement_valid:
  "announcement_validate sample_repo_announcement = Ok ()"
  "announcement_from_tags (announcement_to_tags sample_repo_announcement) = Ok sample_repo_announcement"
proof -
  show "announcement_validate sample_repo_announcement = Ok ()"
    using sample_hex(3) [of 32 7] sample_plain by (simp add: announcement_validate_def sample_repo_announcement_def is_hex64_def is_hex_len_def)
  show "announcement_from_tags (announcement_to_tags sample_repo_announcement) = Ok sample_repo_announcement"
    by (rule announcement_round_trip) (simp add: announcement_wf_def sample_repo_announcement_def)
qed

lemma sample_validated:
  "validate_repo_announcement_event (sample_control_state host) sample_signed sample_hex_key =
     Ok (sample_repo_announcement, ''x'', ''npub1'', replicate 32 7)"
proof -
  have fields: "sn_kind sample_signed = kind_value KIND_GIT_REPO_ANNOUNCEMENT" "sn_pubkey sample_signed = sample_hex_key"
    "sn_tags sample_signed = announcement_to_tags sample_repo_announcement"
    by (simp_all add: sample_signed_def)
  have "verify_signed_event (sample_control_state host) sample_signed = Ok (replicate 32 7)"
    by (simp add: verify_signed_event_def sample_control_crypto Let_def control_parse_pubkey_bytes_def)
      (simp add: sample_adapter_crypto_def toy_auth_crypto_def hex_bytes.dec_enc sample_signed_def adapter_event_id_def)
  moreover have "normalize_identifier (ann_identifier sample_repo_announcement) = ''x''"
    by (simp add: normalize_identifier_def strip_suffix_def sample_repo_announcement_def suffix_def)
  moreover have "ann_clone sample_repo_announcement = [''https://g/npub1/x.git'']" "ann_relays sample_repo_announcement = [''wss://r'']"
    "ann_maintainers sample_repo_announcement = [sample_hex_key]" "kc_relay_urls (sample_control_state host) = [''wss://r'']"
    by (simp_all add: sample_repo_announcement_def sample_control_state_def on_control_storage_def)
  ultimately show ?thesis
    using sample_plain(1)
    by (simp add: validate_repo_announcement_event_def fields sample_npub sample_announcement_valid sample_clone)
qed

theorem signed_repo_gate_witness:
  "\<exists>resp w'. create_repo_nostr_handler (sample_control_state ''b'') (sample_control_call ''Nostr x'')
      \<lparr>kw_storage = sample_control_storage, kw_forgejo = ()\<rparr> = (Ok resp, w') \<and> kp_owner resp = ''ada'' \<and>
    announces (sample_control_state ''b'') sample_signed sample_repo_announcement ''x''"
proof -
  let ?st = "sample_control_state ''b''" and ?call = "sample_control_call ''Nostr x''"
    and ?w = "\<lparr>kw_storage = sample_control_storage, kw_forgejo = ()\<rparr>"
  have payload: "kc_repo_request ?st (kx_body ?call) = Ok \<lparr>kq_event = sample_signed, kq_private = None\<rparr>" "kx_body ?call \<noteq> []"
    "ao_account_by_pubkey (kc_accounts ?st) key s = Ok (Some \<lparr>ac_pubkey = key, ac_forgejo_username = ''ada''\<rparr>)" for key s
    by (simp_all add: sample_control_state_def on_control_storage_def sample_control_call_def)
  obtain w' where q: "enqueue_publishes ?st ?call sample_signed ''ada'' ''x'' ''x'' ?w = (Ok (), w')"
    using sample_queued [of sample_signed "''b''" ?call ?w] by (auto simp: sample_signed_def)
  have made: "create_repo_nostr_handler ?st ?call ?w = (Ok \<lparr>kp_owner = ''ada'', kp_name = ''x'', kp_html_url = None\<rparr>, w')"
    by (simp add: create_repo_nostr_handler_def sample_control_authenticated payload create_repo_from_signed_event_def
        sample_validated sample_made q Let_def)
  from signed_repo_gate [OF sample_parsers_agree made] payload(1)
  obtain a ident where "announces ?st sample_signed a ident" by auto
  then have "announces ?st sample_signed sample_repo_announcement ''x''"
    using validate_repo_announcement_Ok(3) [OF sample_validated] by simp
  with made show ?thesis by simp
qed

definition sample_repo_payload :: control_create_repo_request where
  "sample_repo_payload =
     \<lparr>kr_owner = ''ada'', kr_name = ''x'', kr_identifier = None, kr_description = None, kr_private = None,
      kr_auto_init = None, kr_pubkey = sample_hex_key, kr_privkey = bytes_to_hex (replicate 32 1)\<rparr>"


end
