(* ===== verification/Spec2Isabelle.thy ===== *)
theory Spec2Isabelle
  imports Core_Receive Core_Events Core_Repo_Events Core_Admission Core_Repo Core_Cli Core_Compat
    Relay_Session_Live Relay_Repo_Store Storage_Cache Sync Git_Hook Nostr_Auth State_Service
    Admission_Service Webhook Dispatch Git_Http Control
begin

text \<open>
  gittree: nostr events for git, and the relay that stores them.

  \<^bold>\<open>The program.\<close> gittree connects git hosting with nostr. Its crate \<open>crates/core\<close> reads and prints
  the NIP-34 events that describe repositories, decides which reference updates of a push are allowed
  by a repository's state event, and which events a relay admits. Its relay, \<open>services/relay\<close>, is a
  nostr relay: one session per client connection reads frames, checks and stores events, answers
  requests, keeps subscriptions, authenticates clients and manages membership. The session calls an
  event store, a membership repository (\<open>crates/storage\<close>) and an admission decider; the decider asks
  the admission service, whose decision is \<open>evaluate_admission\<close> of the core crate. The crate
  \<open>crates/storage\<close> keeps events, announcements, states, mappings to Forgejo, accounts, tenants and an
  outbox of events to publish; \<open>crates/forgejo\<close> is the client of the forge. The coordinator makes the
  repository of an announcement and publishes the outbox, the sync service carries a push on to the
  other servers. The hooks git runs decide a push with the state the state service answers and report
  it to sync, as the webhook service does for a push Forgejo reports. The admission service answers
  the relay's decider. The dispatch service carries out the commands users send as notes, on tables
  the state service shows. The auth service signs keys up and keeps their profiles, the git-http service
  passes git's requests on to Forgejo and lets only maintainers push, and the control service makes
  users, repositories with their announcements, and the tenants the relay serves by the name of the
  host. \<open>crates/relay-adapter\<close> is the client that publishes an event at a relay and waits for its
  answer, \<open>crates/relay-probe\<close> the report on whether a relay is fit. All services read their settings with \<open>crates/config\<close>.

  \<^bold>\<open>Layout.\<close> The library theories come first.
    \<^item> \<open>Prelude\<close>: results (\<open>Ok\<close>, \<open>Err\<close> on the sum type), the checks a constructor makes in sequence,
      machine integers and generic lemmas.
    \<^item> \<open>Rust_Str\<close>, \<open>Rust_Utf8\<close>: what the code uses of \<open>str\<close>, \<open>char\<close> and \<open>Path\<close>. A Rust string is the
      list of its bytes; trimming and white space follow the UTF-8 encodings.
    \<^item> \<open>Rust_Map\<close>: \<open>BTreeMap\<close> as a sorted association list, \<open>HashMap\<close> as an association list whose order
      means nothing; the locale \<open>key_map\<close> states what both promise and both interpret it.
    \<^item> \<open>Rust_Hex\<close>: hexadecimal text; \<open>Rust_State\<close>: calls that may fail and leave a state behind.
    \<^item> \<open>Rust_Net\<close>: socket addresses and their parser.
    \<^item> \<open>Json\<close>: the values of \<open>serde_json\<close> and their accessors.

  Then one theory per component, in the order of the calls.
    \<^item> \<open>Core_Common\<close> (\<open>lib.rs\<close>, \<open>kinds.rs\<close>, \<open>tags.rs\<close>, \<open>nip34_common.rs\<close>, \<open>refs.rs\<close>), \<open>Core_Grasp\<close>
      (\<open>grasp.rs\<close>), \<open>Core_Announcement\<close> and \<open>Core_State\<close> (\<open>nip34.rs\<close>), \<open>Core_Proposals\<close>
      (\<open>nip34_issues.rs\<close>, \<open>nip34_proposals.rs\<close>, \<open>nip34_grasp_list.rs\<close>), \<open>Core_Patches\<close>, \<open>Core_Status\<close>,
      \<open>Core_Events\<close> (\<open>nip34_events.rs\<close>): the events. A struct is a record, the tag loop of a
      \<open>from_tags\<close> is a fold of a step over a record of the loop's variables. Every codec interprets
      the locale \<open>tag_codec\<close>, so that the round trip of the union \<open>Nip34Event\<close> is proved once.
    \<^item> \<open>Core_Receive\<close> (\<open>git_refs.rs\<close>, \<open>git_receive.rs\<close>): the decision on a push.
    \<^item> \<open>Core_Repo_Events\<close> (\<open>repo_events.rs\<close>): the transitive maintainers of a repository, its latest
      state and its clone addresses.
    \<^item> \<open>Core_Admission\<close> (\<open>event_refs.rs\<close>, \<open>event_filters.rs\<close>, \<open>admission.rs\<close>), \<open>Core_Repo\<close>
      (\<open>repo_path.rs\<close>, \<open>repo_mapping.rs\<close>), \<open>Core_Cli\<close> (\<open>command_cli.rs\<close>), \<open>Core_Compat\<close> (\<open>nip11.rs\<close>,
      \<open>relay_compat.rs\<close>).
    \<^item> \<open>Relay_Event\<close> (\<open>event.rs\<close>, \<open>tags.rs\<close>, \<open>filter.rs\<close>, \<open>policy.rs\<close>), \<open>Relay_Store\<close> (\<open>store.rs\<close>: the
      trait \<open>EventStore\<close> is the record \<open>store_ops\<close> with the locale \<open>event_store\<close>, which \<open>MemoryStore\<close>
      interprets), \<open>Relay_Protocol\<close> (\<open>protocol.rs\<close>, \<open>notice.rs\<close>, \<open>subscription.rs\<close>,
      \<open>admission_client.rs\<close>).
    \<^item> \<open>Storage_Membership\<close> (\<open>relay_membership.rs\<close> and the membership part of \<open>repositories.rs\<close>: the
      trait is the record \<open>membership_ops\<close> with the locale \<open>membership_repo\<close>).
    \<^item> \<open>Relay_Session\<close> (\<open>session.rs\<close>): the record \<open>session\<close> over any store and any repository, its
      constructors, and one definition per handler and helper, composed in \<open>handle_message\<close> and
      \<open>handle_raw\<close>. \<open>Relay_Session_Safety\<close> and \<open>Relay_Session_Live\<close> hold its properties.
    \<^item> \<open>Storage_Events\<close> (\<open>event.rs\<close>), \<open>Storage_Outbox\<close> (\<open>outbox.rs\<close>), \<open>Storage_Records\<close> (\<open>repo.rs\<close>,
      \<open>repo_mapping.rs\<close>, \<open>account.rs\<close>, \<open>profile.rs\<close>, \<open>relay_tenant.rs\<close>, \<open>relay_compat.rs\<close>, \<open>config.rs\<close>),
      \<open>Storage_Directory\<close>: the stored records and the in-memory repositories of \<open>repositories.rs\<close>. The
      traits are records of operations with the locales \<open>event_repo\<close>, \<open>publish_queue\<close> and \<open>account_repo\<close>.
      \<open>Storage_Cache\<close> (\<open>cache.rs\<close>): the cache before them, over the locale \<open>cache_source\<close>.
    \<^item> \<open>Relay_Repo_Store\<close> (\<open>store.rs\<close>): the relay's store over an event repository.
    \<^item> \<open>Forgejo_Client\<close> (\<open>crates/forgejo\<close>), \<open>Coordinator\<close> (\<open>services/coordinator\<close>, over the locales
      \<open>coordinator_repo\<close> and \<open>reliable_repo\<close>), \<open>Sync\<close> (\<open>services/sync\<close>).
    \<^item> \<open>Config\<close> (\<open>crates/config\<close>) and \<open>Service_Settings\<close> (\<open>from_env\<close> of the services): one definition
      per configuration and source, environment or TOML, with its validation.
    \<^item> \<open>Git_Hook\<close> (\<open>services/git-hook\<close>), \<open>Webhook\<close> (\<open>services/webhook\<close>): from git and from Forgejo to sync.
    \<^item> \<open>Nostr_Auth\<close> (\<open>crates/nostr-auth\<close>, \<open>crates/app-core\<close>): signed HTTP requests, made and checked.
    \<^item> \<open>State_Service\<close> (\<open>services/state\<close>, \<open>command_state.rs\<close>, \<open>queries.rs\<close>), \<open>Admission_Service\<close>
      (\<open>services/admission\<close>): decisions, their caches, views and routes.
    \<^item> \<open>Command_Store\<close> (the statements \<open>v1_*\<close> of \<open>postgres.rs\<close>) and \<open>Dispatch\<close> (\<open>services/dispatch\<close>): the
      trait \<open>CommandStore\<close> is the record \<open>command_store\<close>; the locales \<open>command_writes\<close> and \<open>command_log\<close>
      state what a command relies on, and the tables interpret both.
    \<^item> \<open>Auth_Service\<close> (\<open>services/auth\<close>): the routes over any account and profile repository; the locale
      \<open>people_repo\<close> states what these promise, \<open>auth_service\<close> extends it, and the in-memory directory
      interprets both. Runs of the service are the inductive predicate \<open>auth_run\<close>.
    \<^item> \<open>Git_Http\<close> (\<open>services/git-http\<close>): routes, the search for maintainers, the authorization of a push
      and the request that goes upstream.
    \<^item> \<open>Relay_Adapter\<close> (\<open>crates/relay-adapter\<close>, \<open>crates/relay-probe\<close>): the wait for an answer is a
      \<open>partial_function\<close>; it ends at every link whose clock moves (locale \<open>moving_clock\<close>), of which the
      relay's own session is one.
    \<^item> \<open>Relay_Server\<close> (\<open>lib.rs\<close>, \<open>server.rs\<close>, \<open>driver.rs\<close> of the relay): the tenant of a request, the
      session it opens, the driver, and the running relay as the step relation \<open>relay_step\<close> over any
      number of connections that share the store, the memberships and the broadcast channel.
    \<^item> \<open>Control\<close> (\<open>services/control\<close>): the token, signed requests, control actions and every handler;
      the locale \<open>tenant_repo\<close> states what storing a tenant promises, and the in-memory storage
      interprets it.

  \<^bold>\<open>Modelling choices.\<close> Errors are values of the source's error types. A panic, and a loop that does
  not end, is \<open>None\<close>: where the code slices a string or loops without a bound, the result is an
  option, and a theorem states that it is \<open>Some\<close>. 32-bit integers are words; 64-bit integers are
  \<open>int\<close> or \<open>nat\<close> with the wrap-around of a release build (\<open>wrap_i64\<close>) or the saturation
  (\<open>saturate_i64\<close>) written where the code computes. Code of other packages is a parameter: the URL
  parser, bech32, the hash, signatures, hexadecimal and JSON text (records \<open>crypto\<close> and
  \<open>session_env\<close>), the admission decider, the transport of the admission client. Clocks and random
  numbers are the inputs of a call (record \<open>call_inputs\<close>). Locks are not modelled: every call of
  the in-memory store holds its lock throughout, so calls happen one after the other. Nothing needs
  fuel: the maintainer search has a termination proof by the announcements not yet visited, and the
  retention loop and the waits for a relay are \<open>partial_function\<close>s that are proved to return.

  \<^bold>\<open>What is shown.\<close> For the events: parsing after printing gives the event back and printing is
  canonical, for all kinds, and validation is stable under it; the parsers of addresses, repository
  names, paths and commands accept exactly their languages. For pushes: the exact condition under
  which a batch is accepted, and that the decision never panics. For repositories: the maintainer
  search computes exactly the reachable maintainers, the latest state is the latest. For the store:
  its index-free specification is refined by the indexed one, after any sequence of calls; queries
  return exactly the newest matching events; no author can remove another's events. For sessions,
  over all runs: the store changes only by checked events, a key is authenticated only by a signed
  answer to the session's own challenge, an unauthenticated client is sent no event where reading
  needs authentication, subscriptions and calls stay within their bounds, invites are used once,
  retention ends and leaves nothing old, and every message is answered. For the
  storage: an account name has one key and a key one name, a claimed job is not claimed again before
  it is reported, the cache answers what the repository answers as long as records arrive in order,
  the store over a repository answers the queries of a tenant exactly and leaves other tenants alone.
  For the services: the client of the forge sends nothing outside its interface, an announcement is
  entered last, a publish loop with relays that answer drains the outbox, a sync converges to the
  pushed references, the wait for a child ends. The hook lets a push through exactly under the core's
  condition on the latest state; a report of Forgejo is passed on exactly when it is signed and the
  repository is mapped, and it names the same directory at every service; a signed request is accepted
  only for its address, method, body and time; a decision of the admission service reaches the relay
  as it was made; a command takes effect at most once and on its author's rows alone, and what it
  changes is what the state service shows. The auth service changes nothing but the rows of the key that
  signed, a name has one key, and the public page shows what was last published. A push goes upstream
  only signed by a maintainer, and with Forgejo's credentials. Over all runs of the relay with any number
  of connections, every tenant's rules for reading and writing hold for each connection to it. A tenant
  the control service makes is the one the relay then serves under its host, with the rules that were
  asked for and its owner a member; a repository is made only for a valid announcement by the key that
  asks, and its announcement is queued for every relay as an event the relays verify. Publishing at a
  relay ends and reports what the relay said. Settings read from one environment agree between services,
  and a policy is the same from the environment and from a document. The remaining properties
  record behaviour that is probably not meant: identifiers with colons, states of other
  repositories, tags that make queries fail, the related-events check that asks for the event
  itself, a wrap-around in the clock comparison and in limits of time, a hook that asks for a page the
  state service does not have, decisions cached without the request they were made for, commands
  taken without a signature, and a broadcast channel that all tenants share.

  \<^bold>\<open>Not modelled.\<close> Sockets, HTTP routing and process entry (the \<open>main.rs\<close> and \<open>cli.rs\<close> files), which only
  pass bytes between the libraries and the modelled handlers; the SQL statements behind the repository
  traits (\<open>postgres.rs\<close>: their contracts and in-memory implementations are modelled), migrations; counters
  and logging (\<open>metrics.rs\<close>, \<open>crates/observability\<close>), which no decision reads; the admin, app and ui
  services and \<open>crates/app-ui\<close>, command lines and pages over the modelled crates; delays computed in
  floating point. Two frames of one connection are handled one after the other, as the driver does; within
  a frame the shared storage is not changed by others.
\<close>

end
